(* ===== verification/Prelude.thy ===== *)
theory Prelude
  imports Main "HOL-Library.Word"
begin

text \<open>
  Shared vocabulary of the development: the C integer conversions the driver's code
  relies on, the little-endian byte images that \<^verbatim>\<open>fwrite(&v, sizeof v, 1, f)\<close>
  writes and \<^verbatim>\<open>fread\<close> reads back, and generic facts on lists and options.

  Conventions used everywhere: a C flag that only holds \<^verbatim>\<open>TRUE\<close> or
  \<^verbatim>\<open>FALSE\<close> is a \<^typ>\<open>bool\<close>; an error code is an \<^typ>\<open>int\<close> (0 means
  success); a pointer that may be \<^verbatim>\<open>NULL\<close> is an \<^typ>\<open>'a option\<close>; a C string is
  the list of its characters without the terminating NUL.
\<close>

named_theorems c_arith \<open>conversions between C integers and mathematical integers\<close>

type_synonym byte = "8 word"

text \<open>The two families of platforms the sources are compiled for.\<close>

datatype platform = LINUX | WIN32

subsection \<open>C integers\<close>

definition i16 :: "int \<Rightarrow> int" where
  "i16 x = signed_take_bit 15 x"

definition i32 :: "int \<Rightarrow> int" where
  "i32 x = signed_take_bit 31 x"

definition i64 :: "int \<Rightarrow> int" where
  "i64 x = signed_take_bit 63 x"

lemma i16_id [c_arith]: "- (2 ^ 15) \<le> x \<Longrightarrow> x < 2 ^ 15 \<Longrightarrow> i16 x = x"
  by (simp add: i16_def signed_take_bit_int_eq_self)

lemma i32_id [c_arith]: "- (2 ^ 31) \<le> x \<Longrightarrow> x < 2 ^ 31 \<Longrightarrow> i32 x = x"
  by (simp add: i32_def signed_take_bit_int_eq_self)

lemma i64_id [c_arith]: "- (2 ^ 63) \<le> x \<Longrightarrow> x < 2 ^ 63 \<Longrightarrow> i64 x = x"
  by (simp add: i64_def signed_take_bit_int_eq_self)

definition of_cbool :: "bool \<Rightarrow> int" where
  "of_cbool b = (if b then 1 else 0)"

lemma of_cbool_simps [simp]:
  "of_cbool True = 1" "of_cbool False = 0" "(of_cbool b = 0) = (\<not> b)" "(0 = of_cbool b) = (\<not> b)"
  "(of_cbool b = 1) = b"
  by (simp_all add: of_cbool_def)

subsection \<open>Little-endian byte images\<close>

fun le_bytes :: "nat \<Rightarrow> int \<Rightarrow> byte list" where
  "le_bytes 0 v = []"
| "le_bytes (Suc n) v = word_of_int v # le_bytes n (v div 256)"

fun le_value :: "byte list \<Rightarrow> int" where
  "le_value [] = 0"
| "le_value (b # bs) = uint b + 256 * le_value bs"

lemma length_le_bytes [simp]: "length (le_bytes n v) = n"
  by (induction n arbitrary: v) simp_all

lemma le_value_le_bytes: "le_value (le_bytes n v) = v mod 256 ^ n"
proof (induction n arbitrary: v)
  case 0
  show ?case by simp
next
  case (Suc n)
  have "v mod 256 + 256 * ((v div 256) mod 256 ^ n) = v mod (256 * 256 ^ n)"
    by (simp add: zmod_zmult2_eq)
  with Suc show ?case
    by (simp add: unsigned_of_int take_bit_eq_mod)
qed

lemma le_value_range: "0 \<le> le_value bs \<and> le_value bs < 256 ^ length bs"
proof (induction bs)
  case Nil
  show ?case by simp
next
  case (Cons b bs)
  have "0 \<le> uint b" "uint b < 256" by (simp_all add: uint_lt2p [of b, simplified])
  with Cons show ?case by simp
qed

lemma le_value_append: "le_value (xs @ ys) = le_value xs + 256 ^ length xs * le_value ys"
  by (induction xs) (simp_all add: algebra_simps)

text \<open>The value of a signed object of \<open>n\<close> bytes read back from its image.\<close>

definition le_short :: "byte list \<Rightarrow> int" where "le_short bs = i16 (le_value bs)"
definition le_int :: "byte list \<Rightarrow> int" where "le_int bs = i32 (le_value bs)"
definition le_llong :: "byte list \<Rightarrow> int" where "le_llong bs = i64 (le_value bs)"

lemma signed_take_bit_mod:
  "signed_take_bit n (v mod 2 ^ Suc n) = signed_take_bit n (v::int)"
proof -
  have "signed_take_bit n (take_bit (Suc n) v) = signed_take_bit n v"
    by (simp add: signed_take_bit_take_bit)
  then show ?thesis by (simp add: take_bit_eq_mod)
qed

lemma le_short_bytes [simp]: "le_short (le_bytes 2 v) = i16 v"
  using signed_take_bit_mod [of 15 v]
  by (simp add: le_short_def le_value_le_bytes i16_def)

lemma le_int_bytes [simp]: "le_int (le_bytes 4 v) = i32 v"
  using signed_take_bit_mod [of 31 v]
  by (simp add: le_int_def le_value_le_bytes i32_def)

lemma le_llong_bytes [simp]: "le_llong (le_bytes 8 v) = i64 v"
  using signed_take_bit_mod [of 63 v]
  by (simp add: le_llong_def le_value_le_bytes i64_def)

subsection \<open>Decimal numerals, as \<^verbatim>\<open>printf("%d")\<close> writes them\<close>

definition digit_char :: "nat \<Rightarrow> char" where
  "digit_char d = char_of (48 + d)"

fun dec_digits :: "nat \<Rightarrow> string" where
  "dec_digits n = (if n < 10 then [digit_char n] else dec_digits (n div 10) @ [digit_char (n mod 10)])"

declare dec_digits.simps [simp del]

definition dec_int :: "int \<Rightarrow> string" where
  "dec_int i = (if i < 0 then ''-'' @ dec_digits (nat (- i)) else dec_digits (nat i))"

subsection \<open>Characters\<close>

definition is_digit :: "char \<Rightarrow> bool" where
  "is_digit c \<longleftrightarrow> 48 \<le> (of_char c :: nat) \<and> (of_char c :: nat) \<le> 57"

definition c_isspace :: "char \<Rightarrow> bool" where
  "c_isspace c \<longleftrightarrow> (of_char c :: nat) = 32 \<or> 9 \<le> (of_char c :: nat) \<and> (of_char c :: nat) \<le> 13"

definition c_upper :: "char \<Rightarrow> char" where
  "c_upper c = (if 97 \<le> (of_char c :: nat) \<and> (of_char c :: nat) \<le> 122 then char_of (of_char c - 32 :: nat) else c)"

definition nocase_eq :: "string \<Rightarrow> string \<Rightarrow> bool" where
  "nocase_eq a b \<longleftrightarrow> map c_upper a = map c_upper b"

subsection \<open>Lists\<close>

lemma take_drop_append_at [simp]:
  "take (length ys) (drop (length xs) (xs @ ys @ zs)) = ys"
  by simp

lemma drop_eq_append_take: "drop n xs = ys @ zs \<Longrightarrow> drop (n + length ys) xs = zs"
  by (metis add.commute append_eq_conv_conj drop_drop)

lemma drop_append_nth: "drop n xs = y # zs \<Longrightarrow> n < length xs \<and> xs ! n = y"
  by (metis drop_eq_Nil list.discI linorder_not_le nth_via_drop)

end
