(* ===== verification/Csc_Stream.thy ===== *)
theory Csc_Stream
  imports Prelude
begin

text \<open>
  The byte streams under the client-side cursor
  (\<^verbatim>\<open>ClientSideCursorOutputStream.c\<close>, \<^verbatim>\<open>ClientSideCursorInputStream.c\<close>,
  \<^verbatim>\<open>rsfile.c\<close>) and the part of C's \<^verbatim>\<open>stdio\<close> they use.

  The environment is a record \<open>world\<close>: the files, the free space of the device, and which
  operations the environment refuses (a file that cannot be opened or removed, a position where
  a read fails, an exhausted heap). A writing \<^verbatim>\<open>FILE\<close> is fully buffered, as
  \<^verbatim>\<open>setvbuf(f, NULL, _IOFBF, 8 * 1024)\<close> asks: bytes reach the file when the buffer fills,
  at \<^verbatim>\<open>fflush\<close> and at \<^verbatim>\<open>fclose\<close>. What a failed transfer leaves in
  the buffer is not specified by C; the model drops it. A reading \<^verbatim>\<open>FILE\<close> sees the bytes
  that have reached the file; its own read-ahead is not modelled. Integers are stored in
  little-endian order, the byte order of the platforms the driver is built for.

  Calling \<^verbatim>\<open>stdio\<close> on a \<^verbatim>\<open>NULL\<close> stream is undefined in C. The model records it in
  the ghost fields \<open>os_null_use\<close> and \<open>is_null_use\<close> instead of giving it a meaning.
\<close>

subsection \<open>The environment\<close>

record world =
  w_files :: "string \<Rightarrow> byte list option"
  w_room :: nat
  w_badpos :: "string \<Rightarrow> nat option"
  w_noopen :: "string \<Rightarrow> bool"
  w_noremove :: "string \<Rightarrow> bool"
  w_nomem :: bool
  w_fd :: int
  w_fsync :: int
  w_platform :: platform

definition content :: "world \<Rightarrow> string \<Rightarrow> byte list" where
  "content w p = (case w_files w p of None \<Rightarrow> [] | Some bs \<Rightarrow> bs)"

subsection \<open>Buffered writing\<close>

record ofile =
  of_path :: string
  of_pos :: nat
  of_buf :: "byte list"

definition stdio_bufsiz :: nat where
  "stdio_bufsiz = 8192"

text \<open>Hand bytes to the device: how many it took, and the new environment.\<close>

definition transmit :: "world \<Rightarrow> string \<Rightarrow> byte list \<Rightarrow> nat \<times> world" where
  "transmit w p bs =
     (let n = min (length bs) (w_room w)
      in (n, w\<lparr>w_files := (w_files w)(p := map_option (\<lambda>c. c @ take n bs) (w_files w p)),
               w_room := w_room w - n\<rparr>))"

definition c_fopen_w :: "world \<Rightarrow> string \<Rightarrow> ofile option \<times> world" where
  "c_fopen_w w p =
     (if w_noopen w p then (None, w)
      else (Some \<lparr>of_path = p, of_pos = 0, of_buf = []\<rparr>, w\<lparr>w_files := (w_files w)(p \<mapsto> [])\<rparr>))"

text \<open>\<^verbatim>\<open>fwrite(b, sz, length b / sz, f)\<close>: the number of elements written.\<close>

definition c_fwrite :: "world \<Rightarrow> ofile \<Rightarrow> nat \<Rightarrow> byte list \<Rightarrow> nat \<times> world \<times> ofile" where
  "c_fwrite w f sz bs =
     (let out = of_buf f @ bs in
      if length out < stdio_bufsiz then (length bs div sz, w, f\<lparr>of_buf := out\<rparr>)
      else case transmit w (of_path f) out of (n, w') \<Rightarrow>
        ((n - length (of_buf f)) div sz, w', f\<lparr>of_pos := of_pos f + n, of_buf := []\<rparr>))"

definition c_fflush :: "world \<Rightarrow> ofile \<Rightarrow> int \<times> world \<times> ofile" where
  "c_fflush w f =
     (case transmit w (of_path f) (of_buf f) of (n, w') \<Rightarrow>
        (if n = length (of_buf f) then 0 else -1, w', f\<lparr>of_pos := of_pos f + n, of_buf := []\<rparr>))"

definition c_ftell :: "ofile \<Rightarrow> int" where
  "c_ftell f = int (of_pos f + length (of_buf f))"

subsection \<open>Reading\<close>

record ifile =
  if_path :: string
  if_pos :: nat
  if_eof :: bool

definition c_fopen_r :: "world \<Rightarrow> string \<Rightarrow> ifile option" where
  "c_fopen_r w p =
     (if w_noopen w p \<or> w_files w p = None then None
      else Some \<lparr>if_path = p, if_pos = 0, if_eof = False\<rparr>)"

text \<open>The readable prefix of a file ends where the device fails, or at its last byte.\<close>

definition readable :: "world \<Rightarrow> string \<Rightarrow> nat" where
  "readable w p = (case w_badpos w p of None \<Rightarrow> length (content w p)
                                      | Some b \<Rightarrow> min b (length (content w p)))"

text \<open>\<^verbatim>\<open>fread(d, sz, cnt, f)\<close>: the number of whole elements, the bytes delivered, the stream.\<close>

definition c_fread :: "world \<Rightarrow> ifile \<Rightarrow> nat \<Rightarrow> nat \<Rightarrow> nat \<times> byte list \<times> ifile" where
  "c_fread w f sz cnt =
     (let want = sz * cnt;
          got = min want (readable w (if_path f) - if_pos f);
          eof = (got < want \<and> length (content w (if_path f)) \<le> if_pos f + got)
      in (got div sz, take got (drop (if_pos f) (content w (if_path f))),
          f\<lparr>if_pos := if_pos f + got, if_eof := if_eof f \<or> eof\<rparr>))"

text \<open>\<^verbatim>\<open>fseeko(f, pos, SEEK_SET)\<close> refuses a negative position and clears the end-of-file mark.\<close>

definition c_fseek :: "ifile \<Rightarrow> int \<Rightarrow> int \<times> ifile" where
  "c_fseek f p = (if p < 0 then (-1, f) else (0, f\<lparr>if_pos := nat p, if_eof := False\<rparr>))"

subsection \<open>The output stream\<close>

record ostream =
  m_dataOutputStream :: "ofile option"
  m_fd :: int
  os_resultsettype :: int
  m_written :: "64 word"
  os_null_use :: bool

definition doesItForwardOnlyCursor :: "int \<Rightarrow> bool" where
  "doesItForwardOnlyCursor resultsettype = (resultsettype = 0)"

definition rs_fileno :: "world \<Rightarrow> ofile option \<Rightarrow> int" where
  "rs_fileno w f = (case f of Some _ \<Rightarrow> w_fd w | None \<Rightarrow> 0)"

definition rs_fsync :: "world \<Rightarrow> int \<Rightarrow> int" where
  "rs_fsync w fd = (if w_platform w = WIN32 then 0 else if fd \<noteq> 0 then w_fsync w else 0)"

definition createCscOutputStream ::
  "world \<Rightarrow> string \<Rightarrow> int \<Rightarrow> ostream option \<times> int \<times> world" where
  "createCscOutputStream w fileName resultsettype =
     (if w_nomem w then (None, 1, w)
      else case c_fopen_w w fileName of (f, w') \<Rightarrow>
        (Some \<lparr>m_dataOutputStream = f, m_fd = rs_fileno w' f, os_resultsettype = resultsettype,
               m_written = 0, os_null_use = False\<rparr>,
         of_cbool (f = None), w'))"

definition releaseCscOutputStream :: "ostream option \<Rightarrow> ostream option" where
  "releaseCscOutputStream s = None"

definition closeCscOutputStream :: "world \<Rightarrow> ostream \<Rightarrow> int \<times> world \<times> ostream" where
  "closeCscOutputStream w s =
     (case m_dataOutputStream s of
        Some f \<Rightarrow> (case c_fflush w f of (rc, w', _) \<Rightarrow>
          (rc, w', s\<lparr>m_dataOutputStream := None, m_fd := 0, m_written := 0\<rparr>))
      | None \<Rightarrow> (0, w, s))"

text \<open>
  \<^verbatim>\<open>m_written\<close> is a \<^verbatim>\<open>long long\<close>; the sum is taken modulo $2^{64}$ and a negative
  result is replaced by \<^verbatim>\<open>LLONG_MAX\<close>.
\<close>

definition incCountCscOutputStream :: "ostream \<Rightarrow> int \<Rightarrow> ostream" where
  "incCountCscOutputStream s v =
     (let temp = m_written s + word_of_int v;
          temp = (if sint temp < 0 then word_of_int (2 ^ 63 - 1) else temp)
      in s\<lparr>m_written := temp\<rparr>)"

text \<open>The scalar writers differ in the element size and the bytes only.\<close>

definition os_fwrite :: "world \<Rightarrow> ostream \<Rightarrow> nat \<Rightarrow> byte list \<Rightarrow> nat \<times> world \<times> ostream" where
  "os_fwrite w s sz bs =
     (case m_dataOutputStream s of
        Some f \<Rightarrow> (case c_fwrite w f sz bs of (n, w', f') \<Rightarrow>
          (n, w', s\<lparr>m_dataOutputStream := Some f'\<rparr>))
      | None \<Rightarrow> (0, w, s\<lparr>os_null_use := True\<rparr>))"

definition os_put :: "nat \<Rightarrow> world \<Rightarrow> ostream \<Rightarrow> byte list \<Rightarrow> int \<times> world \<times> ostream" where
  "os_put n w s bs =
     (case os_fwrite w s n bs of (rc, w', s') \<Rightarrow>
        (of_cbool (rc = 0), w', incCountCscOutputStream s' (int n)))"

definition writeShortCscOutputStream :: "world \<Rightarrow> ostream \<Rightarrow> int \<Rightarrow> int \<times> world \<times> ostream" where
  "writeShortCscOutputStream w s v = os_put 2 w s (le_bytes 2 v)"

definition writeIntCscOutputStream :: "world \<Rightarrow> ostream \<Rightarrow> int \<Rightarrow> int \<times> world \<times> ostream" where
  "writeIntCscOutputStream w s v = os_put 4 w s (le_bytes 4 v)"

definition writeLongLongCscOutputStream :: "world \<Rightarrow> ostream \<Rightarrow> int \<Rightarrow> int \<times> world \<times> ostream" where
  "writeLongLongCscOutputStream w s v = os_put 8 w s (le_bytes 8 v)"

definition writeCscOutputStream ::
  "world \<Rightarrow> ostream \<Rightarrow> byte list \<Rightarrow> nat \<Rightarrow> nat \<Rightarrow> int \<times> world \<times> ostream" where
  "writeCscOutputStream w s b off len =
     (case os_fwrite w s 1 (take len (drop off b)) of (rc, w', s') \<Rightarrow>
        (of_cbool (rc = 0), w', incCountCscOutputStream s' (int len)))"

definition sizeCscOutputStream :: "ostream \<Rightarrow> int" where
  "sizeCscOutputStream s = sint (m_written s)"

definition getPositionCscOutputStream :: "world \<Rightarrow> ostream \<Rightarrow> int \<times> world \<times> ostream" where
  "getPositionCscOutputStream w s =
     (if doesItForwardOnlyCursor (os_resultsettype s) then (-1, w, s)
      else case m_dataOutputStream s of
        Some f \<Rightarrow> (case c_fflush w f of (_, w', f') \<Rightarrow>
          (c_ftell f', w', s\<lparr>m_dataOutputStream := Some f'\<rparr>))
      | None \<Rightarrow> (-1, w, s\<lparr>os_null_use := True\<rparr>))"

definition flushCscOutputStream :: "world \<Rightarrow> ostream \<Rightarrow> int \<times> world \<times> ostream" where
  "flushCscOutputStream w s =
     (if doesItForwardOnlyCursor (os_resultsettype s)
      then case m_dataOutputStream s of
        Some f \<Rightarrow> (case c_fflush w f of (_, w', f') \<Rightarrow>
          (rs_fsync w' (m_fd s), w', s\<lparr>m_dataOutputStream := Some f'\<rparr>))
      | None \<Rightarrow> (rs_fsync w (m_fd s), w, s\<lparr>os_null_use := True\<rparr>)
      else (0, w, s))"

subsection \<open>The input stream\<close>

record istream =
  m_dataInputStream :: "ifile option"
  is_resultsettype :: int
  is_error :: int
  is_eof :: bool
  is_null_use :: bool

definition createCscInputStream :: "world \<Rightarrow> string \<Rightarrow> int \<Rightarrow> istream option \<times> int" where
  "createCscInputStream w fileName resultsettype =
     (if w_nomem w then (None, 1)
      else let f = c_fopen_r w fileName in
        (Some \<lparr>m_dataInputStream = f, is_resultsettype = resultsettype, is_error = 0,
               is_eof = False, is_null_use = False\<rparr>,
         of_cbool (f = None)))"

definition releaseCscInputStream :: "istream option \<Rightarrow> istream option" where
  "releaseCscInputStream s = None"

text \<open>Closing a reading \<^verbatim>\<open>FILE\<close> has nothing to transfer, so \<^verbatim>\<open>fclose\<close> returns 0.\<close>

definition closeCscInputStream :: "istream \<Rightarrow> int \<times> istream" where
  "closeCscInputStream s =
     (case m_dataInputStream s of
        Some f \<Rightarrow> (0, s\<lparr>m_dataInputStream := None\<rparr>)
      | None \<Rightarrow> (0, s))"

definition setIOErrorCsc :: "int \<Rightarrow> int \<Rightarrow> int" where
  "setIOErrorCsc err v = (if err = 0 then v else err)"

definition resetIOErrorCsc :: "int \<Rightarrow> int" where
  "resetIOErrorCsc err = 0"

definition getIOErrorCsc :: "int \<Rightarrow> int \<times> int" where
  "getIOErrorCsc err = (err, resetIOErrorCsc err)"

definition freadCsc :: "world \<Rightarrow> istream \<Rightarrow> nat \<Rightarrow> nat \<Rightarrow> nat \<times> byte list \<times> istream" where
  "freadCsc w s sz cnt =
     (case m_dataInputStream s of
        None \<Rightarrow> (0, [], s\<lparr>is_null_use := True\<rparr>)
      | Some f \<Rightarrow>
          if \<not> if_eof f then
            (case c_fread w f sz cnt of (rc, d, f') \<Rightarrow>
              (let s' = s\<lparr>m_dataInputStream := Some f'\<rparr> in
               if rc = 0 then
                 (if if_eof f' then (rc, d, s'\<lparr>is_eof := True\<rparr>)
                  else (rc, d, s'\<lparr>is_error := setIOErrorCsc (is_error s') 1\<rparr>))
               else (rc, d, s')))
          else (0, [], s\<lparr>is_eof := True\<rparr>))"

definition feofCscInputStream :: "istream \<Rightarrow> bool \<times> istream" where
  "feofCscInputStream s =
     (if \<not> is_eof s then
        (case m_dataInputStream s of
           None \<Rightarrow> (False, s\<lparr>is_null_use := True\<rparr>)
         | Some f \<Rightarrow> (if_eof f, s\<lparr>is_eof := if_eof f\<rparr>))
      else (True, s))"

text \<open>A scalar keeps its initial value 0 when no whole element was read.\<close>

definition is_get :: "nat \<Rightarrow> (byte list \<Rightarrow> int) \<Rightarrow> world \<Rightarrow> istream \<Rightarrow> int \<times> istream" where
  "is_get n dec w s =
     (case freadCsc w s n 1 of (rc, d, s') \<Rightarrow> (if rc = 0 then 0 else dec d, s'))"

definition readShortCscInputStream :: "world \<Rightarrow> istream \<Rightarrow> int \<times> istream" where
  "readShortCscInputStream w s = is_get 2 le_short w s"

definition readShortCscInputStreamForNumberOfCols :: "world \<Rightarrow> istream \<Rightarrow> int \<times> istream" where
  "readShortCscInputStreamForNumberOfCols w s =
     (case is_get 2 le_short w s of (v, s') \<Rightarrow>
        (case feofCscInputStream s' of (e, s'') \<Rightarrow> (if e then 0 else v, s'')))"

definition readIntCscInputStream :: "world \<Rightarrow> istream \<Rightarrow> int \<times> istream" where
  "readIntCscInputStream w s = is_get 4 le_int w s"

definition readLongLongCscInputStream :: "world \<Rightarrow> istream \<Rightarrow> int \<times> istream" where
  "readLongLongCscInputStream w s = is_get 8 le_llong w s"

definition readCscInputStream :: "world \<Rightarrow> istream \<Rightarrow> nat \<Rightarrow> int \<times> byte list \<times> istream" where
  "readCscInputStream w s len =
     (case freadCsc w s 1 len of (rc, d, s') \<Rightarrow> (int rc, d, s'))"

definition seekCscInputStream :: "istream \<Rightarrow> int \<Rightarrow> int \<times> istream" where
  "seekCscInputStream s pos =
     (if \<not> doesItForwardOnlyCursor (is_resultsettype s)
      then case m_dataInputStream s of
        Some f \<Rightarrow> (case c_fseek f pos of (rc, f') \<Rightarrow> (rc, s\<lparr>m_dataInputStream := Some f'\<rparr>))
      | None \<Rightarrow> (-1, s\<lparr>is_null_use := True\<rparr>)
      else (0, s))"

subsection \<open>The write side\<close>

text \<open>
  The bytes given to a writing stream so far, transferred or not. The invariant \<open>of_ok\<close> says
  that the file holds exactly the transferred ones.
\<close>

definition of_ok :: "world \<Rightarrow> ofile \<Rightarrow> bool" where
  "of_ok w f \<longleftrightarrow> w_files w (of_path f) \<noteq> None \<and> length (content w (of_path f)) = of_pos f"

definition logical :: "world \<Rightarrow> ofile \<Rightarrow> byte list" where
  "logical w f = content w (of_path f) @ of_buf f"

lemma transmit_all:
  assumes "length bs \<le> w_room w" and "w_files w p = Some c"
  shows "transmit w p bs =
    (length bs, w\<lparr>w_files := (w_files w)(p \<mapsto> c @ bs), w_room := w_room w - length bs\<rparr>)"
  using assms by (simp add: transmit_def Let_def)

lemma c_ftell_logical: "of_ok w f \<Longrightarrow> c_ftell f = int (length (logical w f))"
  by (simp add: c_ftell_def of_ok_def logical_def)

text \<open>
  The effect of a successful write on a stream: \<open>bs\<close> is appended to what the stream was given,
  no other file changes, and the free space that is not yet promised shrinks by \<open>bs\<close>.
\<close>

definition spare :: "world \<Rightarrow> ofile \<Rightarrow> int" where
  "spare w f = int (w_room w) - int (length (of_buf f))"

definition same_env :: "string \<Rightarrow> world \<Rightarrow> world \<Rightarrow> bool" where
  "same_env p w w' \<longleftrightarrow> (\<forall>q. q \<noteq> p \<longrightarrow> w_files w' q = w_files w q) \<and> w_badpos w' = w_badpos w \<and>
     w_noopen w' = w_noopen w \<and> w_noremove w' = w_noremove w \<and> w_nomem w' = w_nomem w \<and>
     w_fd w' = w_fd w \<and> w_fsync w' = w_fsync w \<and> w_platform w' = w_platform w"

definition wrote :: "world \<Rightarrow> ostream \<Rightarrow> byte list \<Rightarrow> world \<Rightarrow> ostream \<Rightarrow> bool" where
  "wrote w s bs w' s' \<longleftrightarrow> (\<exists>f f'. m_dataOutputStream s = Some f \<and> m_dataOutputStream s' = Some f' \<and>
     of_ok w f \<and> of_ok w' f' \<and> of_path f' = of_path f \<and> logical w' f' = logical w f @ bs \<and>
     spare w' f' = spare w f - int (length bs) \<and> same_env (of_path f) w w' \<and>
     os_resultsettype s' = os_resultsettype s \<and> os_null_use s' = os_null_use s \<and> m_fd s' = m_fd s)"

lemma wrote_trans:
  assumes "wrote w s bs w1 s1" and "wrote w1 s1 bs' w2 s2"
  shows "wrote w s (bs @ bs') w2 s2"
proof -
  from assms(1) obtain f f1 where 1: "m_dataOutputStream s = Some f" "m_dataOutputStream s1 = Some f1"
    "of_ok w f" "of_path f1 = of_path f" "logical w1 f1 = logical w f @ bs"
    "spare w1 f1 = spare w f - int (length bs)" "same_env (of_path f) w w1"
    "os_resultsettype s1 = os_resultsettype s" "os_null_use s1 = os_null_use s" "m_fd s1 = m_fd s"
    unfolding wrote_def by blast
  from assms(2) 1(2) obtain f2 where 2: "m_dataOutputStream s2 = Some f2"
    "of_ok w2 f2" "of_path f2 = of_path f1" "logical w2 f2 = logical w1 f1 @ bs'"
    "spare w2 f2 = spare w1 f1 - int (length bs')" "same_env (of_path f1) w1 w2"
    "os_resultsettype s2 = os_resultsettype s1" "os_null_use s2 = os_null_use s1" "m_fd s2 = m_fd s1"
    unfolding wrote_def by auto
  have "same_env (of_path f) w w2"
    using 1(4,7) 2(6) by (simp add: same_env_def)
  with 1 2 show ?thesis
    unfolding wrote_def by (intro exI [of _ f] exI [of _ f2]) simp
qed

lemma wrote_nil:
  "m_dataOutputStream s = Some f \<Longrightarrow> of_ok w f \<Longrightarrow> wrote w s [] w s"
  by (simp add: wrote_def same_env_def)

lemma wrote_written_irrelevant [simp]:
  "wrote w s bs w' (incCountCscOutputStream s' v) = wrote w s bs w' s'"
  by (simp add: wrote_def incCountCscOutputStream_def Let_def)

lemma os_fwrite_wrote:
  assumes s: "m_dataOutputStream s = Some f" and ok: "of_ok w f"
    and room: "int (length bs) \<le> spare w f" and sz: "0 < sz" "length bs div sz \<noteq> 0"
  shows "\<exists>k w' s'. os_fwrite w s sz bs = (k, w', s') \<and> k \<noteq> 0 \<and> wrote w s bs w' s'"
proof (cases "length (of_buf f @ bs) < stdio_bufsiz")
  case True
  with assms show ?thesis
    by (auto simp: os_fwrite_def c_fwrite_def wrote_def of_ok_def logical_def spare_def same_env_def)
next
  case False
  obtain c where c: "w_files w (of_path f) = Some c"
    using ok by (auto simp: of_ok_def)
  have "transmit w (of_path f) (of_buf f @ bs) =
      (length (of_buf f @ bs), w\<lparr>w_files := (w_files w)(of_path f \<mapsto> c @ of_buf f @ bs),
                            w_room := w_room w - length (of_buf f @ bs)\<rparr>)"
    using room c by (intro transmit_all) (auto simp: spare_def)
  then show ?thesis
    using False assms c
    by (auto simp: os_fwrite_def c_fwrite_def wrote_def of_ok_def logical_def spare_def same_env_def
        content_def)
qed

lemma c_fflush_wrote:
  assumes ok: "of_ok w f" and room: "0 \<le> spare w f"
  shows "\<exists>w' f'. c_fflush w f = (0, w', f') \<and> of_ok w' f' \<and> of_buf f' = [] \<and>
    of_path f' = of_path f \<and> logical w' f' = logical w f \<and> spare w' f' = spare w f \<and>
    same_env (of_path f) w w'"
proof -
  obtain c where c: "w_files w (of_path f) = Some c"
    using ok by (auto simp: of_ok_def)
  have "transmit w (of_path f) (of_buf f) =
      (length (of_buf f), w\<lparr>w_files := (w_files w)(of_path f \<mapsto> c @ of_buf f),
                            w_room := w_room w - length (of_buf f)\<rparr>)"
    using room c by (intro transmit_all) (auto simp: spare_def)
  then show ?thesis
    using ok room c
    by (auto simp: c_fflush_def of_ok_def logical_def spare_def same_env_def content_def)
qed

lemma getPosition_wrote:
  assumes "m_dataOutputStream s = Some f" and "of_ok w f" and "0 \<le> spare w f"
    and "\<not> doesItForwardOnlyCursor (os_resultsettype s)"
  shows "\<exists>w' s' f'. getPositionCscOutputStream w s = (int (length (logical w f)), w', s') \<and>
    wrote w s [] w' s' \<and> m_dataOutputStream s' = Some f' \<and> of_buf f' = [] \<and>
    m_written s' = m_written s"
  using c_fflush_wrote [OF assms(2,3)] assms(1,2,4) c_ftell_logical
  by (fastforce simp: getPositionCscOutputStream_def wrote_def)

lemma writeCsc_wrote:
  assumes "m_dataOutputStream s = Some f" and "of_ok w f" and "int (length b) \<le> spare w f" and "b \<noteq> []"
  shows "\<exists>w' s'. writeCscOutputStream w s b 0 (length b) = (0, w', s') \<and> wrote w s b w' s'"
  using os_fwrite_wrote [OF assms(1-3), of 1] assms(4)
  by (auto simp: writeCscOutputStream_def)

subsection \<open>The read side\<close>

text \<open>
  A reading stream in good order, and the bytes it will deliver next.
\<close>

definition rd_ok :: "world \<Rightarrow> istream \<Rightarrow> bool" where
  "rd_ok w s \<longleftrightarrow> (\<exists>f. m_dataInputStream s = Some f \<and> \<not> if_eof f \<and> w_badpos w (if_path f) = None \<and>
     if_pos f \<le> length (content w (if_path f))) \<and> is_error s = 0 \<and> \<not> is_eof s \<and> \<not> is_null_use s"

definition upcoming :: "world \<Rightarrow> istream \<Rightarrow> byte list" where
  "upcoming w s = (case m_dataInputStream s of None \<Rightarrow> []
                   | Some f \<Rightarrow> drop (if_pos f) (content w (if_path f)))"

definition advance :: "nat \<Rightarrow> istream \<Rightarrow> istream" where
  "advance n s = s\<lparr>m_dataInputStream := map_option (\<lambda>f. f\<lparr>if_pos := if_pos f + n\<rparr>) (m_dataInputStream s)\<rparr>"

lemma advance_advance [simp]: "advance m (advance n s) = advance (n + m) s"
  by (cases "m_dataInputStream s") (simp_all add: advance_def)

lemma advance_sel [simp]:
  "is_resultsettype (advance n s) = is_resultsettype s" "is_error (advance n s) = is_error s"
  "is_eof (advance n s) = is_eof s" "is_null_use (advance n s) = is_null_use s"
  by (simp_all add: advance_def)

lemma upcoming_advance:
  "rd_ok w s \<Longrightarrow> upcoming w (advance n s) = drop n (upcoming w s)"
  by (auto simp: upcoming_def advance_def rd_ok_def add.commute)

lemma rd_ok_advance:
  "rd_ok w s \<Longrightarrow> n \<le> length (upcoming w s) \<Longrightarrow> rd_ok w (advance n s)"
  by (auto simp: rd_ok_def advance_def upcoming_def)

lemma freadCsc_data:
  assumes ok: "rd_ok w s" and up: "upcoming w s = d @ rest" and len: "length d = sz * cnt" "d \<noteq> []"
  shows "freadCsc w s sz cnt = (cnt, d, advance (length d) s)"
proof -
  obtain f where f: "m_dataInputStream s = Some f" "\<not> if_eof f" "w_badpos w (if_path f) = None"
    using ok by (auto simp: rd_ok_def)
  have drp: "drop (if_pos f) (content w (if_path f)) = d @ rest"
    using up f by (simp add: upcoming_def)
  then have "sz * cnt \<le> length (content w (if_path f)) - if_pos f"
    by (metis len(1) length_append length_drop le_add1)
  moreover have "0 < sz" "0 < cnt" using len by (auto intro: gr0I)
  ultimately have "c_fread w f sz cnt = (cnt, d, f\<lparr>if_pos := if_pos f + length d\<rparr>)"
    using f drp len by (simp add: c_fread_def readable_def Let_def)
  then show ?thesis
    using f \<open>0 < cnt\<close> by (simp add: freadCsc_def advance_def)
qed

lemma freadCsc_eof:
  assumes "rd_ok w s" and "upcoming w s = []" and "0 < sz" "0 < cnt"
  shows "\<exists>s'. freadCsc w s sz cnt = (0, [], s') \<and> is_eof s' \<and> is_error s' = 0 \<and> \<not> is_null_use s' \<and>
    is_resultsettype s' = is_resultsettype s"
  using assms by (auto simp: rd_ok_def upcoming_def freadCsc_def c_fread_def readable_def Let_def)

lemma feofCsc_ok: "rd_ok w s \<Longrightarrow> feofCscInputStream s = (False, s)"
  by (cases s) (auto simp: rd_ok_def feofCscInputStream_def)

lemma readCsc_data:
  assumes "rd_ok w s" and "upcoming w s = d @ rest" and "d \<noteq> []"
  shows "readCscInputStream w s (length d) = (int (length d), d, advance (length d) s)"
  using freadCsc_data [OF assms(1,2), of 1] assms(3) by (simp add: readCscInputStream_def)

lemma seekCsc_ok:
  assumes "m_dataInputStream s = Some f" and "0 \<le> p"
    and "\<not> doesItForwardOnlyCursor (is_resultsettype s)"
  shows "seekCscInputStream s p = (0, s\<lparr>m_dataInputStream := Some (f\<lparr>if_pos := nat p, if_eof := False\<rparr>)\<rparr>)"
  using assms by (simp add: seekCscInputStream_def c_fseek_def)

subsection \<open>Scalars: what the writers put is what the readers get\<close>

text \<open>
  The interface between the stream operations and the row format: a scalar type of \<open>n\<close> bytes
  with its decoder, and the values it represents. The two lemmas are proved once and
  instantiated for \<^verbatim>\<open>short\<close>, \<^verbatim>\<open>int\<close> and \<^verbatim>\<open>long long\<close>.
\<close>

locale scalar_codec =
  fixes n :: nat and dec :: "byte list \<Rightarrow> int" and rep :: "int \<Rightarrow> bool"
  assumes width_pos: "0 < n"
    and dec_image: "rep v \<Longrightarrow> dec (le_bytes n v) = v"
begin

lemma put_wrote:
  assumes "m_dataOutputStream s = Some f" and "of_ok w f" and "int n \<le> spare w f"
  shows "\<exists>w' s'. os_put n w s (le_bytes n v) = (0, w', s') \<and> wrote w s (le_bytes n v) w' s'"
  using os_fwrite_wrote [OF assms(1,2), of "le_bytes n v" n] assms(3) width_pos
  by (auto simp: os_put_def)

lemma get_upcoming:
  assumes "rep v" and "rd_ok w s" and "upcoming w s = le_bytes n v @ rest"
  shows "is_get n dec w s = (v, advance n s)"
proof -
  have "le_bytes n v \<noteq> []" using width_pos by (metis length_0_conv length_le_bytes less_numeral_extra(3))
  then have "freadCsc w s n 1 = (1, le_bytes n v, advance n s)"
    using freadCsc_data [OF assms(2,3), of n 1] by simp
  then show ?thesis using dec_image [OF assms(1)] by (simp add: is_get_def)
qed

end

definition rep_short :: "int \<Rightarrow> bool" where "rep_short v \<longleftrightarrow> - (2 ^ 15) \<le> v \<and> v < 2 ^ 15"
definition rep_int :: "int \<Rightarrow> bool" where "rep_int v \<longleftrightarrow> - (2 ^ 31) \<le> v \<and> v < 2 ^ 31"
definition rep_llong :: "int \<Rightarrow> bool" where "rep_llong v \<longleftrightarrow> - (2 ^ 63) \<le> v \<and> v < 2 ^ 63"

lemmas rep_defs = rep_short_def rep_int_def rep_llong_def

interpretation c_short: scalar_codec 2 le_short rep_short
  by unfold_locales (simp_all add: rep_defs c_arith)

interpretation c_int: scalar_codec 4 le_int rep_int
  by unfold_locales (simp_all add: rep_defs c_arith)

interpretation c_llong: scalar_codec 8 le_llong rep_llong
  by unfold_locales (simp_all add: rep_defs c_arith)

text \<open>The counter of written bytes never becomes negative and saturates at \<^verbatim>\<open>LLONG_MAX\<close>.\<close>

lemma incCount_saturates:
  assumes "0 \<le> sizeCscOutputStream s" and "0 \<le> v" and "v < 2 ^ 63"
  shows "sizeCscOutputStream (incCountCscOutputStream s v) =
    min (sizeCscOutputStream s + v) (2 ^ 63 - 1)"
proof -
  let ?x = "sint (m_written s)"
  have x: "0 \<le> ?x" "?x < 2 ^ 63"
    using assms(1) sint_lt [of "m_written s"] by (simp_all add: sizeCscOutputStream_def)
  have sum: "sint (m_written s + word_of_int v) = signed_take_bit 63 (?x + v)"
  proof -
    have "m_written s + word_of_int v = word_of_int (?x + v)" by simp
    then show ?thesis by (simp only: sint_sbintrunc') simp
  qed
  show ?thesis
  proof (cases "?x + v < 2 ^ 63")
    case True
    then have "sint (m_written s + word_of_int v) = ?x + v"
      using sum x assms(2) by (simp add: signed_take_bit_int_eq_self)
    with True x assms(2) show ?thesis
      by (simp add: sizeCscOutputStream_def incCountCscOutputStream_def Let_def)
  next
    case False
    then have "signed_take_bit 63 (?x + v - 2 ^ 64) = ?x + v - 2 ^ 64"
      using x assms by (intro signed_take_bit_int_eq_self) auto
    moreover have "signed_take_bit 63 (?x + v - 2 ^ 64) = signed_take_bit 63 (?x + v)"
      using signed_take_bit_mod [of 63 "?x + v - 2 ^ 64"] signed_take_bit_mod [of 63 "?x + v"]
      by (simp add: mod_diff_eq [symmetric] flip: mod_diff_left_eq)
    ultimately have "signed_take_bit 63 (?x + v) = ?x + v - 2 ^ 64" by simp
    with False sum x assms show ?thesis
      by (simp add: sizeCscOutputStream_def incCountCscOutputStream_def Let_def)
  qed
qed

end
