(* ===== verification/Csc_Lock.thy ===== *)
theory Csc_Lock
  imports Prelude
begin

text \<open>
  The two monitors of the client-side cursor (\<^verbatim>\<open>ClientSideCursorLock.c\<close>,
  \<^verbatim>\<open>ClientSideCursorMultiResultLock.c\<close>) over the semaphores of
  \<^verbatim>\<open>rslock.c\<close>. A critical section under \<^verbatim>\<open>m_lock\<close> is one atomic step; a
  wait is two steps, the check under the mutex and the semaphore operation after it was
  released. An operation that may block returns \<open>None\<close> where it blocks.

  \<^verbatim>\<open>rsCreateBinarySem\<close> is a real binary semaphore on Windows
  (\<^verbatim>\<open>CreateSemaphore\<close> with maximum 1) and a counting one on Linux
  (\<^verbatim>\<open>sem_init\<close> has no maximum); the platform is a parameter.
\<close>

subsection \<open>Semaphores\<close>

type_synonym sem_handle = "nat option"

definition rsCreateBinarySem :: "nat \<Rightarrow> sem_handle" where
  "rsCreateBinarySem initialState = Some initialState"

definition rsLockSem :: "sem_handle \<Rightarrow> (int \<times> sem_handle) option" where
  "rsLockSem h = (case h of
      None \<Rightarrow> Some (0, None)
    | Some n \<Rightarrow> (if n = 0 then None else Some (1, Some (n - 1))))"

definition rsUnlockSem :: "platform \<Rightarrow> sem_handle \<Rightarrow> int \<times> sem_handle" where
  "rsUnlockSem plat h = (case h of
      None \<Rightarrow> (1, None)
    | Some n \<Rightarrow> (if plat = WIN32 \<and> 1 \<le> n then (0, Some n) else (1, Some (n + 1))))"

definition rsDestroySem :: "sem_handle \<Rightarrow> int" where
  "rsDestroySem h = 1"

lemma rsUnlockSem_pos: "h = Some n \<Longrightarrow> \<exists>k. snd (rsUnlockSem plat h) = Some (Suc k)"
  by (cases n) (auto simp: rsUnlockSem_def)

lemma rsUnlockSem_keeps_pos: "h = Some (Suc n) \<Longrightarrow> \<exists>k. snd (rsUnlockSem plat h) = Some (Suc k)"
  by (rule rsUnlockSem_pos)

subsection \<open>The lock of one result\<close>

record csclock =
  m_fullResultReadFromServerDoneCondition :: sem_handle
  m_fullResultReadFromServerDone :: bool
  m_batchResultReadFromServerDoneCondition :: sem_handle
  m_batchResultReadFromServerDoneConditionStatus :: int

definition createCscLock :: "bool \<Rightarrow> csclock option" where
  "createCscLock nomem = (if nomem then None else Some
     \<lparr>m_fullResultReadFromServerDoneCondition = rsCreateBinarySem 0,
      m_fullResultReadFromServerDone = False,
      m_batchResultReadFromServerDoneCondition = rsCreateBinarySem 0,
      m_batchResultReadFromServerDoneConditionStatus = 0\<rparr>)"

definition destroyCscLock :: "csclock option \<Rightarrow> csclock option" where
  "destroyCscLock l = None"

definition isFullResultReadFromServerCscLock :: "csclock \<Rightarrow> bool" where
  "isFullResultReadFromServerCscLock l = m_fullResultReadFromServerDone l"

text \<open>The semaphore half of each wait.\<close>

definition passFullCscLock :: "csclock \<Rightarrow> csclock option" where
  "passFullCscLock l =
     map_option (\<lambda>(_, h). l\<lparr>m_fullResultReadFromServerDoneCondition := h\<rparr>)
       (rsLockSem (m_fullResultReadFromServerDoneCondition l))"

definition passBatchCscLock :: "csclock \<Rightarrow> csclock option" where
  "passBatchCscLock l =
     map_option (\<lambda>(_, h). l\<lparr>m_batchResultReadFromServerDoneCondition := h,
                            m_batchResultReadFromServerDoneConditionStatus := 0\<rparr>)
       (rsLockSem (m_batchResultReadFromServerDoneCondition l))"

text \<open>The whole wait when no other thread runs between its halves.\<close>

definition waitForFullResultReadFromServerCscLock :: "csclock \<Rightarrow> csclock option" where
  "waitForFullResultReadFromServerCscLock l =
     (if \<not> m_fullResultReadFromServerDone l then passFullCscLock l else Some l)"

definition waitForBatchResultReadFromServerCscLock :: "csclock \<Rightarrow> csclock option" where
  "waitForBatchResultReadFromServerCscLock l =
     (if \<not> m_fullResultReadFromServerDone l then passBatchCscLock l else Some l)"

definition signalForFullResultReadFromServerCscLock :: "platform \<Rightarrow> csclock \<Rightarrow> csclock" where
  "signalForFullResultReadFromServerCscLock plat l =
     l\<lparr>m_fullResultReadFromServerDone := True,
       m_fullResultReadFromServerDoneCondition :=
         snd (rsUnlockSem plat (m_fullResultReadFromServerDoneCondition l)),
       m_batchResultReadFromServerDoneCondition :=
         snd (rsUnlockSem plat (m_batchResultReadFromServerDoneCondition l)),
       m_batchResultReadFromServerDoneConditionStatus := 1\<rparr>"

definition signalForBatchResultReadFromServerCscLock :: "platform \<Rightarrow> csclock \<Rightarrow> csclock" where
  "signalForBatchResultReadFromServerCscLock plat l =
     l\<lparr>m_batchResultReadFromServerDoneCondition :=
         snd (rsUnlockSem plat (m_batchResultReadFromServerDoneCondition l)),
       m_batchResultReadFromServerDoneConditionStatus := 1\<rparr>"

subsection \<open>The reader and the socket thread on one lock\<close>

text \<open>
  The reader is between calls, or has seen under the mutex that the result is not complete
  and is about to wait on one of the semaphores. The socket thread signals at any moment.
\<close>

datatype reader_pc = Idle | AboutToWaitFull | AboutToWaitBatch

inductive csclock_step :: "platform \<Rightarrow> csclock \<times> reader_pc \<Rightarrow> csclock \<times> reader_pc \<Rightarrow> bool"
  for plat :: platform where
  full_done: "m_fullResultReadFromServerDone l \<Longrightarrow> csclock_step plat (l, Idle) (l, Idle)"
| full_check: "\<not> m_fullResultReadFromServerDone l \<Longrightarrow> csclock_step plat (l, Idle) (l, AboutToWaitFull)"
| full_pass: "passFullCscLock l = Some l' \<Longrightarrow> csclock_step plat (l, AboutToWaitFull) (l', Idle)"
| batch_check: "\<not> m_fullResultReadFromServerDone l \<Longrightarrow> csclock_step plat (l, Idle) (l, AboutToWaitBatch)"
| batch_pass: "passBatchCscLock l = Some l' \<Longrightarrow> csclock_step plat (l, AboutToWaitBatch) (l', Idle)"
| sig_batch: "csclock_step plat (l, pc) (signalForBatchResultReadFromServerCscLock plat l, pc)"
| sig_full: "csclock_step plat (l, pc) (signalForFullResultReadFromServerCscLock plat l, pc)"

inductive_cases csclock_stepE: "csclock_step plat s t"

inductive csclock_reach :: "platform \<Rightarrow> csclock \<times> reader_pc \<Rightarrow> bool" for plat :: platform where
  init: "createCscLock False = Some l \<Longrightarrow> csclock_reach plat (l, Idle)"
| step: "csclock_reach plat s \<Longrightarrow> csclock_step plat s t \<Longrightarrow> csclock_reach plat t"

text \<open>
  What the mutex and the two semaphores keep true: once the result is complete, a reader that
  decided to wait before finds a unit in the semaphore it waits on.
\<close>

definition csclock_inv :: "csclock \<times> reader_pc \<Rightarrow> bool" where
  "csclock_inv s \<longleftrightarrow> (case s of (l, pc) \<Rightarrow>
     m_fullResultReadFromServerDoneCondition l \<noteq> None \<and>
     m_batchResultReadFromServerDoneCondition l \<noteq> None \<and>
     (m_fullResultReadFromServerDone l \<longrightarrow>
        (pc = AboutToWaitFull \<longrightarrow> (\<exists>n. m_fullResultReadFromServerDoneCondition l = Some (Suc n))) \<and>
        (pc = AboutToWaitBatch \<longrightarrow> (\<exists>n. m_batchResultReadFromServerDoneCondition l = Some (Suc n)))))"

lemma csclock_inv_init: "createCscLock False = Some l \<Longrightarrow> csclock_inv (l, Idle)"
  by (auto simp: createCscLock_def csclock_inv_def rsCreateBinarySem_def)

lemma rsUnlockSem_cases:
  "rsUnlockSem plat (Some n) = (1, Some (Suc n)) \<or>
   (\<exists>k. n = Suc k \<and> rsUnlockSem plat (Some n) = (0, Some (Suc k)))"
  by (cases n) (auto simp: rsUnlockSem_def)

lemma snd_rsUnlockSem_Some: "\<exists>k. snd (rsUnlockSem plat (Some n)) = Some (Suc k)"
  using rsUnlockSem_pos by blast

lemma pass_inv:
  "passFullCscLock l = Some l' \<Longrightarrow> csclock_inv (l, AboutToWaitFull) \<Longrightarrow> csclock_inv (l', Idle)"
  "passBatchCscLock l = Some l' \<Longrightarrow> csclock_inv (l, AboutToWaitBatch) \<Longrightarrow> csclock_inv (l', Idle)"
  by (auto simp: passFullCscLock_def passBatchCscLock_def rsLockSem_def csclock_inv_def
      split: option.splits if_splits)

lemma signal_inv:
  "csclock_inv (l, pc) \<Longrightarrow> csclock_inv (signalForBatchResultReadFromServerCscLock plat l, pc)"
  "csclock_inv (l, pc) \<Longrightarrow> csclock_inv (signalForFullResultReadFromServerCscLock plat l, pc)"
  using snd_rsUnlockSem_Some [of plat]
  by (fastforce simp: csclock_inv_def signalForBatchResultReadFromServerCscLock_def
      signalForFullResultReadFromServerCscLock_def)+

lemma check_inv:
  "csclock_inv (l, Idle) \<Longrightarrow> \<not> m_fullResultReadFromServerDone l \<Longrightarrow> csclock_inv (l, pc)"
  by (simp add: csclock_inv_def)

lemma csclock_step_inv: "csclock_step plat s t \<Longrightarrow> csclock_inv s \<Longrightarrow> csclock_inv t"
  by (induction rule: csclock_step.induct) (auto intro: check_inv pass_inv signal_inv)

lemma csclock_reach_inv: "csclock_reach plat s \<Longrightarrow> csclock_inv s"
  by (induction rule: csclock_reach.induct) (auto intro: csclock_inv_init csclock_step_inv)

lemma csclock_pass_enabled:
  assumes "csclock_inv (l, pc)" and "m_fullResultReadFromServerDone l"
  shows "pc = AboutToWaitFull \<Longrightarrow> \<exists>l'. passFullCscLock l = Some l'"
    and "pc = AboutToWaitBatch \<Longrightarrow> \<exists>l'. passBatchCscLock l = Some l'"
  using assms by (auto simp: csclock_inv_def passFullCscLock_def passBatchCscLock_def rsLockSem_def)

subsection \<open>The lock of one execution with several results\<close>

record multilock =
  m_fullCond :: sem_handle
  m_fullCondStatus :: int
  m_firstBatchCond :: sem_handle
  m_firstBatchCondStatus :: int
  m_firstBatchWaitExecutionNumber :: int
  m_curExecutionNumber :: int
  m_firstBatchSignalExecutionNumber :: int
  m_queryDone :: bool

definition createCscMultiResultLock :: "bool \<Rightarrow> multilock option" where
  "createCscMultiResultLock nomem = (if nomem then None else Some
     \<lparr>m_fullCond = rsCreateBinarySem 0, m_fullCondStatus = 0,
      m_firstBatchCond = rsCreateBinarySem 0, m_firstBatchCondStatus = 0,
      m_firstBatchWaitExecutionNumber = 0, m_curExecutionNumber = 0,
      m_firstBatchSignalExecutionNumber = 0, m_queryDone = False\<rparr>)"

definition destroyCscMultiResultLock :: "multilock option \<Rightarrow> multilock option" where
  "destroyCscMultiResultLock l = None"

definition lockFull :: "multilock \<Rightarrow> multilock option" where
  "lockFull l = map_option (\<lambda>(_, h). l\<lparr>m_fullCond := h, m_fullCondStatus := 0\<rparr>) (rsLockSem (m_fullCond l))"

definition lockFirstBatch :: "multilock \<Rightarrow> multilock option" where
  "lockFirstBatch l =
     map_option (\<lambda>(_, h). l\<lparr>m_firstBatchCond := h, m_firstBatchCondStatus := 0\<rparr>)
       (rsLockSem (m_firstBatchCond l))"

definition waitForFullResultReadFromServerCscMultiResultLock ::
  "multilock \<Rightarrow> int \<Rightarrow> multilock option" where
  "waitForFullResultReadFromServerCscMultiResultLock l resultExecutionNumber =
     (if \<not> m_queryDone l then
        (if resultExecutionNumber \<noteq> 0 \<and> resultExecutionNumber = m_curExecutionNumber l
         then lockFull l else Some l)
      else Some l)"

definition signalForFullResultReadFromServerCscMultiResultLock ::
  "platform \<Rightarrow> multilock \<Rightarrow> bool \<Rightarrow> multilock" where
  "signalForFullResultReadFromServerCscMultiResultLock plat l queryDone =
     (let l1 = (if queryDone \<or> (m_firstBatchWaitExecutionNumber l \<noteq> 0 \<and>
                    m_firstBatchWaitExecutionNumber l = m_curExecutionNumber l)
                then l\<lparr>m_firstBatchCond := snd (rsUnlockSem plat (m_firstBatchCond l)),
                       m_firstBatchWaitExecutionNumber := 0, m_firstBatchCondStatus := 1\<rparr>
                else l);
          l2 = (if queryDone then l1\<lparr>m_curExecutionNumber := 0, m_queryDone := True\<rparr>
                else l1\<lparr>m_curExecutionNumber := m_curExecutionNumber l1 + 1\<rparr>)
      in l2\<lparr>m_fullCond := snd (rsUnlockSem plat (m_fullCond l2)), m_fullCondStatus := 1\<rparr>)"

definition waitForFirstBatchInMemResultReadFromServerCscMultiResultLock ::
  "multilock \<Rightarrow> int \<Rightarrow> multilock option" where
  "waitForFirstBatchInMemResultReadFromServerCscMultiResultLock l resultExecutionNumber =
     (if \<not> m_queryDone l then
        (if resultExecutionNumber \<noteq> 0 \<and> m_curExecutionNumber l \<le> resultExecutionNumber then
           (let l1 = l\<lparr>m_firstBatchWaitExecutionNumber := resultExecutionNumber\<rparr>;
                l2 = (if m_firstBatchSignalExecutionNumber l1 \<noteq> 0 \<and>
                         m_firstBatchSignalExecutionNumber l1 < resultExecutionNumber
                      then (if m_firstBatchCondStatus l1 = 1 then lockFirstBatch l1 else Some l1)
                      else Some l1)
            in Option.bind l2 lockFirstBatch)
         else Some l)
      else Some l)"

definition signalForFirstBatchInMemResultReadFromServerCscMultiResultLock ::
  "platform \<Rightarrow> multilock \<Rightarrow> int \<Rightarrow> multilock" where
  "signalForFirstBatchInMemResultReadFromServerCscMultiResultLock plat l resultExecutionNumber =
     l\<lparr>m_firstBatchSignalExecutionNumber := resultExecutionNumber,
       m_firstBatchCond := snd (rsUnlockSem plat (m_firstBatchCond l)),
       m_firstBatchCondStatus := 1\<rparr>"

definition setResultExecutionNumberCscMultiResultLock :: "multilock \<Rightarrow> int \<Rightarrow> multilock" where
  "setResultExecutionNumberCscMultiResultLock l n = l\<lparr>m_curExecutionNumber := n\<rparr>"

definition getResultExecutionNumberCscMultiResultLock :: "multilock \<Rightarrow> int" where
  "getResultExecutionNumberCscMultiResultLock l = m_curExecutionNumber l"

definition resetCscMultiResultLock :: "multilock \<Rightarrow> multilock option" where
  "resetCscMultiResultLock l =
     (let l1 = l\<lparr>m_curExecutionNumber := 0, m_firstBatchWaitExecutionNumber := 0,
                 m_firstBatchSignalExecutionNumber := 0, m_queryDone := False\<rparr>
      in Option.bind (if m_firstBatchCondStatus l1 = 1 then lockFirstBatch l1 else Some l1)
           (\<lambda>l2. if m_fullCondStatus l2 = 1 then lockFull l2 else Some l2))"

text \<open>
  Between complete operations the status words say whether a signal is pending:
  \<open>multi_inv\<close>. On Windows the semaphores hold at most one unit.
\<close>

definition units :: "sem_handle \<Rightarrow> nat" where
  "units h = (case h of None \<Rightarrow> 0 | Some n \<Rightarrow> n)"

definition multi_inv :: "platform \<Rightarrow> multilock \<Rightarrow> bool" where
  "multi_inv plat l \<longleftrightarrow> m_fullCond l \<noteq> None \<and> m_firstBatchCond l \<noteq> None \<and>
     (m_fullCondStatus l = 1 \<longrightarrow> 0 < units (m_fullCond l)) \<and>
     (m_firstBatchCondStatus l = 1 \<longrightarrow> 0 < units (m_firstBatchCond l)) \<and>
     (plat = WIN32 \<longrightarrow>
        (units (m_fullCond l) = (if m_fullCondStatus l = 1 then 1 else 0)) \<and>
        (units (m_firstBatchCond l) = (if m_firstBatchCondStatus l = 1 then 1 else 0)))"


lemmas multi_defs = lockFull_def lockFirstBatch_def units_def rsLockSem_def rsUnlockSem_def

lemma lock_multi_inv:
  "lockFull l = Some l' \<Longrightarrow> multi_inv plat l \<Longrightarrow> multi_inv plat l'"
  "lockFirstBatch l = Some l' \<Longrightarrow> multi_inv plat l \<Longrightarrow> multi_inv plat l'"
  by (auto simp: multi_inv_def multi_defs split: option.splits if_splits)

lemma lockFull_ready:
  "multi_inv plat l \<Longrightarrow> m_fullCondStatus l = 1 \<Longrightarrow> \<exists>l'. lockFull l = Some l' \<and> m_fullCondStatus l' = 0 \<and>
     units (m_fullCond l') = units (m_fullCond l) - 1 \<and> m_firstBatchCond l' = m_firstBatchCond l \<and>
     m_firstBatchCondStatus l' = m_firstBatchCondStatus l \<and>
     m_curExecutionNumber l' = m_curExecutionNumber l \<and> m_queryDone l' = m_queryDone l"
  by (auto simp: multi_inv_def multi_defs)

lemma lockFirstBatch_ready:
  "multi_inv plat l \<Longrightarrow> m_firstBatchCondStatus l = 1 \<Longrightarrow> \<exists>l'. lockFirstBatch l = Some l' \<and>
     m_firstBatchCondStatus l' = 0 \<and>
     units (m_firstBatchCond l') = units (m_firstBatchCond l) - 1 \<and> m_fullCond l' = m_fullCond l \<and>
     m_fullCondStatus l' = m_fullCondStatus l \<and>
     m_curExecutionNumber l' = m_curExecutionNumber l \<and> m_queryDone l' = m_queryDone l"
  by (auto simp: multi_inv_def multi_defs)

lemma multi_inv_numbers:
  "multi_inv plat (l\<lparr>m_firstBatchWaitExecutionNumber := a\<rparr>) = multi_inv plat l"
  "multi_inv plat (l\<lparr>m_curExecutionNumber := b\<rparr>) = multi_inv plat l"
  "multi_inv plat (l\<lparr>m_firstBatchSignalExecutionNumber := c\<rparr>) = multi_inv plat l"
  "multi_inv plat (l\<lparr>m_queryDone := d\<rparr>) = multi_inv plat l"
  by (simp_all add: multi_inv_def)

text \<open>The complete operations on the lock, in any order.\<close>

inductive multi_reach :: "platform \<Rightarrow> multilock \<Rightarrow> bool" for plat :: platform where
  create: "createCscMultiResultLock False = Some l \<Longrightarrow> multi_reach plat l"
| wait_full: "multi_reach plat l \<Longrightarrow> waitForFullResultReadFromServerCscMultiResultLock l n = Some l' \<Longrightarrow>
     multi_reach plat l'"
| wait_first: "multi_reach plat l \<Longrightarrow>
     waitForFirstBatchInMemResultReadFromServerCscMultiResultLock l n = Some l' \<Longrightarrow> multi_reach plat l'"
| signal_full: "multi_reach plat l \<Longrightarrow>
     multi_reach plat (signalForFullResultReadFromServerCscMultiResultLock plat l q)"
| signal_first: "multi_reach plat l \<Longrightarrow>
     multi_reach plat (signalForFirstBatchInMemResultReadFromServerCscMultiResultLock plat l n)"
| set_number: "multi_reach plat l \<Longrightarrow> multi_reach plat (setResultExecutionNumberCscMultiResultLock l n)"
| reset: "multi_reach plat l \<Longrightarrow> resetCscMultiResultLock l = Some l' \<Longrightarrow> multi_reach plat l'"

lemma unlock_multi_inv:
  assumes "multi_inv plat l"
  shows "multi_inv plat (l\<lparr>m_fullCond := snd (rsUnlockSem plat (m_fullCond l)), m_fullCondStatus := 1\<rparr>)"
    and "multi_inv plat (l\<lparr>m_firstBatchCond := snd (rsUnlockSem plat (m_firstBatchCond l)),
                          m_firstBatchCondStatus := 1\<rparr>)"
  using assms by (auto simp: multi_inv_def multi_defs split: if_splits)

lemma wait_multi_inv:
  "waitForFullResultReadFromServerCscMultiResultLock l n = Some l' \<Longrightarrow> multi_inv plat l \<Longrightarrow> multi_inv plat l'"
  by (auto simp: waitForFullResultReadFromServerCscMultiResultLock_def dest: lock_multi_inv
      split: if_splits)

lemma wait_first_multi_inv:
  assumes "waitForFirstBatchInMemResultReadFromServerCscMultiResultLock l n = Some l'" and "multi_inv plat l"
  shows "multi_inv plat l'"
proof -
  let ?l1 = "l\<lparr>m_firstBatchWaitExecutionNumber := n\<rparr>"
  have 1: "multi_inv plat ?l1" using assms(2) by (simp add: multi_inv_numbers)
  show ?thesis
  proof (cases "\<not> m_queryDone l \<and> n \<noteq> 0 \<and> m_curExecutionNumber l \<le> n")
    case True
    then have "Option.bind (if m_firstBatchSignalExecutionNumber ?l1 \<noteq> 0 \<and>
                         m_firstBatchSignalExecutionNumber ?l1 < n
                      then (if m_firstBatchCondStatus ?l1 = 1 then lockFirstBatch ?l1 else Some ?l1)
                      else Some ?l1) lockFirstBatch = Some l'"
      using assms(1)
      by (simp only: waitForFirstBatchInMemResultReadFromServerCscMultiResultLock_def Let_def if_True
          not_False_eq_True simp_thms)
    then obtain l2 where "lockFirstBatch l2 = Some l'" "l2 = ?l1 \<or> lockFirstBatch ?l1 = Some l2"
      by (fastforce simp only: bind_eq_Some_conv split: if_splits)
    with 1 show ?thesis by (auto dest: lock_multi_inv)
  next
    case False
    then have "waitForFirstBatchInMemResultReadFromServerCscMultiResultLock l n = Some l"
      unfolding waitForFirstBatchInMemResultReadFromServerCscMultiResultLock_def
      by (cases "m_queryDone l") (simp_all only: simp_thms if_True if_False if_not_P)
    with assms show ?thesis by simp
  qed
qed

lemma signal_full_multi_inv:
  assumes "multi_inv plat l"
  shows "multi_inv plat (signalForFullResultReadFromServerCscMultiResultLock plat l q)"
proof -
  let ?l1 = "if q \<or> (m_firstBatchWaitExecutionNumber l \<noteq> 0 \<and>
                    m_firstBatchWaitExecutionNumber l = m_curExecutionNumber l)
                then l\<lparr>m_firstBatchCond := snd (rsUnlockSem plat (m_firstBatchCond l)),
                       m_firstBatchWaitExecutionNumber := 0, m_firstBatchCondStatus := 1\<rparr>
                else l"
  have "multi_inv plat ?l1"
    using assms unlock_multi_inv(2) [OF assms] by (simp add: multi_inv_def)
  then have "multi_inv plat (if q then ?l1\<lparr>m_curExecutionNumber := 0, m_queryDone := True\<rparr>
                else ?l1\<lparr>m_curExecutionNumber := m_curExecutionNumber ?l1 + 1\<rparr>)"
    by (simp only: multi_inv_numbers split: if_split) (simp add: multi_inv_numbers)
  then show ?thesis
    unfolding signalForFullResultReadFromServerCscMultiResultLock_def Let_def
    by (rule unlock_multi_inv(1))
qed

lemma reset_multi:
  assumes "multi_inv plat l"
  shows "\<exists>l'. resetCscMultiResultLock l = Some l' \<and> multi_inv plat l' \<and>
    m_fullCondStatus l' \<noteq> 1 \<and> m_firstBatchCondStatus l' \<noteq> 1 \<and> m_queryDone l' = False \<and>
    m_curExecutionNumber l' = 0 \<and>
    units (m_fullCond l') = units (m_fullCond l) - of_bool (m_fullCondStatus l = 1) \<and>
    units (m_firstBatchCond l') = units (m_firstBatchCond l) - of_bool (m_firstBatchCondStatus l = 1)"
proof -
  let ?l1 = "l\<lparr>m_curExecutionNumber := 0, m_firstBatchWaitExecutionNumber := 0,
                 m_firstBatchSignalExecutionNumber := 0, m_queryDone := False\<rparr>"
  have 1: "multi_inv plat ?l1" using assms by (simp add: multi_inv_def)
  obtain l2 where 2: "(if m_firstBatchCondStatus ?l1 = 1 then lockFirstBatch ?l1 else Some ?l1) = Some l2"
    "multi_inv plat l2" "m_firstBatchCondStatus l2 \<noteq> 1" "m_fullCond l2 = m_fullCond l"
    "m_fullCondStatus l2 = m_fullCondStatus l" "m_queryDone l2 = False" "m_curExecutionNumber l2 = 0"
    "units (m_firstBatchCond l2) = units (m_firstBatchCond l) - of_bool (m_firstBatchCondStatus l = 1)"
    using 1 lockFirstBatch_ready [OF 1] lock_multi_inv(2) [OF _ 1]
    by (cases "m_firstBatchCondStatus l = 1") auto
  obtain l3 where 3: "(if m_fullCondStatus l2 = 1 then lockFull l2 else Some l2) = Some l3"
    "multi_inv plat l3" "m_fullCondStatus l3 \<noteq> 1" "m_firstBatchCondStatus l3 \<noteq> 1" "m_queryDone l3 = False"
    "m_curExecutionNumber l3 = 0" "m_firstBatchCond l3 = m_firstBatchCond l2"
    "units (m_fullCond l3) = units (m_fullCond l) - of_bool (m_fullCondStatus l = 1)"
    using 2 lockFull_ready [OF 2(2)] lock_multi_inv(1) [OF _ 2(2)]
    by (cases "m_fullCondStatus l2 = 1") auto
  have "resetCscMultiResultLock l = Some l3"
    using 2(1) 3(1) by (simp add: resetCscMultiResultLock_def Let_def split: if_splits)
  with 2 3 show ?thesis by auto
qed

lemma multi_reach_inv: "multi_reach plat l \<Longrightarrow> multi_inv plat l"
proof (induction rule: multi_reach.induct)
  case (create l)
  then show ?case
    by (auto simp: createCscMultiResultLock_def multi_inv_def units_def rsCreateBinarySem_def)
next
  case (wait_full l n l')
  then show ?case by (blast intro: wait_multi_inv)
next
  case (wait_first l n l')
  then show ?case by (blast intro: wait_first_multi_inv)
next
  case (signal_full l q)
  then show ?case by (blast intro: signal_full_multi_inv)
next
  case (signal_first l n)
  then show ?case
    using unlock_multi_inv(2) [of plat "l\<lparr>m_firstBatchSignalExecutionNumber := n\<rparr>"]
    by (simp add: signalForFirstBatchInMemResultReadFromServerCscMultiResultLock_def multi_inv_numbers)
next
  case (set_number l n)
  then show ?case by (simp add: setResultExecutionNumberCscMultiResultLock_def multi_inv_numbers)
next
  case (reset l l')
  then show ?case using reset_multi by fastforce
qed


subsection \<open>Properties\<close>

text \<open>
  Property C39. No wake-up is lost: in every state that the reader and the socket thread can
  reach, once the socket thread has signalled that the whole result was read, the reader's next
  step gets through whatever wait it had decided on, however the two threads were interleaved,
  and from then on both waits return at once.
\<close>

theorem reader_released_after_full_signal:
  assumes "csclock_reach plat (l, pc)" and "m_fullResultReadFromServerDone l"
  shows "\<exists>l'. csclock_step plat (l, pc) (l', Idle) \<and>
    waitForFullResultReadFromServerCscLock l' = Some l' \<and>
    waitForBatchResultReadFromServerCscLock l' = Some l'"
proof -
  have inv: "csclock_inv (l, pc)" using assms(1) by (rule csclock_reach_inv)
  have keep: "m_fullResultReadFromServerDone l'"
    if "passFullCscLock l = Some l' \<or> passBatchCscLock l = Some l'" for l'
    using that assms(2) by (auto simp: passFullCscLock_def passBatchCscLock_def)
  have "\<exists>l'. csclock_step plat (l, pc) (l', Idle) \<and> m_fullResultReadFromServerDone l'"
    using csclock_pass_enabled [OF inv assms(2)] assms(2) keep
    by (cases pc) (blast intro: csclock_step.intros)+
  then show ?thesis
    by (auto simp: waitForFullResultReadFromServerCscLock_def waitForBatchResultReadFromServerCscLock_def)
qed

theorem reader_released_after_full_signal_witness:
  "\<exists>l l'. m_fullResultReadFromServerDone l \<and> csclock_step LINUX (l, AboutToWaitBatch) (l', Idle)"
proof -
  obtain l0 where l0: "createCscLock False = Some l0" "\<not> m_fullResultReadFromServerDone l0"
    by (simp add: createCscLock_def)
  let ?l = "signalForFullResultReadFromServerCscLock LINUX l0"
  have "csclock_reach LINUX (l0, AboutToWaitBatch)"
    using l0 by (blast intro: csclock_reach.intros csclock_step.batch_check)
  then have "csclock_reach LINUX (?l, AboutToWaitBatch)"
    by (rule csclock_reach.step) (rule csclock_step.sig_full)
  moreover have "m_fullResultReadFromServerDone ?l"
    by (simp add: signalForFullResultReadFromServerCscLock_def)
  ultimately show ?thesis
    using reader_released_after_full_signal [of LINUX ?l AboutToWaitBatch] by blast
qed

text \<open>
  On Windows, resetting the multi-result lock for a new execution never blocks
  and forgets every signal of the previous one, whatever operations came before: afterwards both
  semaphores are empty and a wait for any first batch of the new execution blocks until it is
  signalled.
\<close>

theorem reset_forgets_signals_windows:
  assumes "multi_reach WIN32 l"
  shows "\<exists>l'. resetCscMultiResultLock l = Some l' \<and> units (m_fullCond l') = 0 \<and>
    units (m_firstBatchCond l') = 0 \<and>
    (\<forall>n > 0. waitForFirstBatchInMemResultReadFromServerCscMultiResultLock l' n = None)"
proof -
  have inv: "multi_inv WIN32 l" using assms by (rule multi_reach_inv)
  obtain l' where l': "resetCscMultiResultLock l = Some l'" "multi_inv WIN32 l'"
    "m_fullCondStatus l' \<noteq> 1" "m_firstBatchCondStatus l' \<noteq> 1" "\<not> m_queryDone l'"
    "m_curExecutionNumber l' = 0"
    using reset_multi [OF inv] by auto
  then obtain "units (m_fullCond l') = 0" "m_firstBatchCond l' = Some 0"
    by (auto simp: multi_inv_def units_def split: option.splits)
  with l' show ?thesis
    by (auto simp: waitForFirstBatchInMemResultReadFromServerCscMultiResultLock_def Let_def
        lockFirstBatch_def rsLockSem_def units_def bind_eq_None_conv)
qed

theorem reset_forgets_signals_windows_witness:
  "\<exists>l'. resetCscMultiResultLock
      (signalForFullResultReadFromServerCscMultiResultLock WIN32
         (the (createCscMultiResultLock False)) True) = Some l' \<and> units (m_firstBatchCond l') = 0"
  using reset_forgets_signals_windows
    [OF multi_reach.signal_full [OF multi_reach.create [of "the (createCscMultiResultLock False)"],
       where q = True]]
  by (auto simp: createCscMultiResultLock_def)

text \<open>
  On Linux the semaphores count, and the reset takes away one unit only: an
  execution whose first batch was signalled twice without a wait (an in-memory result followed
  by the end of the query) leaves a unit behind, so that after the reset the wait for the first
  batch of the next execution returns although nothing was signalled for it.
\<close>

theorem reset_leaves_stale_signal_linux:
  "\<exists>l l'. multi_reach LINUX l \<and> resetCscMultiResultLock l = Some l' \<and>
    m_firstBatchCondStatus l' = 0 \<and> m_firstBatchSignalExecutionNumber l' = 0 \<and>
    waitForFirstBatchInMemResultReadFromServerCscMultiResultLock l' 1 \<noteq> None"
proof -
  let ?l0 = "\<lparr>m_fullCond = Some 0, m_fullCondStatus = 0, m_firstBatchCond = Some 0,
      m_firstBatchCondStatus = 0, m_firstBatchWaitExecutionNumber = 0, m_curExecutionNumber = 0,
      m_firstBatchSignalExecutionNumber = 0, m_queryDone = False\<rparr>"
  let ?l1 = "signalForFirstBatchInMemResultReadFromServerCscMultiResultLock LINUX ?l0 1"
  let ?l2 = "signalForFullResultReadFromServerCscMultiResultLock LINUX ?l1 True"
  have "createCscMultiResultLock False = Some ?l0"
    by (simp add: createCscMultiResultLock_def rsCreateBinarySem_def)
  then have reach: "multi_reach LINUX ?l2"
    by (intro multi_reach.signal_full multi_reach.signal_first multi_reach.create)
  have "\<exists>l'. resetCscMultiResultLock ?l2 = Some l' \<and>
      m_firstBatchCondStatus l' = 0 \<and> m_firstBatchSignalExecutionNumber l' = 0 \<and>
      waitForFirstBatchInMemResultReadFromServerCscMultiResultLock l' 1 \<noteq> None"
    by (simp add: signalForFirstBatchInMemResultReadFromServerCscMultiResultLock_def
          signalForFullResultReadFromServerCscMultiResultLock_def resetCscMultiResultLock_def
          waitForFirstBatchInMemResultReadFromServerCscMultiResultLock_def
          Let_def lockFull_def lockFirstBatch_def rsLockSem_def rsUnlockSem_def)
  with reach show ?thesis by blast
qed

end
