(* ===== verification/Csc_Options.thy ===== *)
theory Csc_Options
  imports Csc_Stream
begin

text \<open>
  The options of the client-side cursor (\<^verbatim>\<open>ClientSideCursorOptions.c\<close>). What the
  process environment says is an argument: \<open>tmpdir\<close> is \<^verbatim>\<open>getenv("TMPDIR")\<close>,
  \<open>acc\<close> is \<^verbatim>\<open>access(path, 0) == 0\<close>. The static buffer
  \<^verbatim>\<open>DFLT_CSC_PATH\<close> is passed and returned. The separator is the Linux one.
\<close>

record cscoptions =
  m_enable :: bool
  m_threshold :: int
  m_maxfilesize :: int
  m_path :: string

definition MAX_PATH :: nat where
  "MAX_PATH = 260"

definition PATH_SEPARATOR_CHAR :: char where
  "PATH_SEPARATOR_CHAR = CHR ''/''"

definition setEnableCscOption :: "cscoptions \<Rightarrow> bool \<Rightarrow> cscoptions" where
  "setEnableCscOption o1 enable = o1\<lparr>m_enable := enable\<rparr>"

definition setThresholdCscOption :: "cscoptions \<Rightarrow> int \<Rightarrow> cscoptions" where
  "setThresholdCscOption o1 threshold =
     o1\<lparr>m_threshold := (if threshold \<le> 0 then 0 else i64 (i64 (threshold * 1024) * 1024))\<rparr>"

definition setMaxFileSizeCscOption :: "cscoptions \<Rightarrow> int \<Rightarrow> cscoptions" where
  "setMaxFileSizeCscOption o1 maxfilesize =
     o1\<lparr>m_maxfilesize := (if maxfilesize \<le> 0 then 0 else i64 (i64 (maxfilesize * 1024) * 1024))\<rparr>"

definition GetTempPath :: "string option \<Rightarrow> nat \<Rightarrow> int \<times> string" where
  "GetTempPath tmpdir size1 =
     (let p = (case tmpdir of None \<Rightarrow> ''/tmp'' | Some t \<Rightarrow> (if t = [] then ''/tmp'' else t))
      in (int (length p), take size1 p))"

definition setDfltCscPath :: "string option \<Rightarrow> string \<Rightarrow> string" where
  "setDfltCscPath tmpdir dflt =
     (if dflt = [] then
        (case GetTempPath tmpdir MAX_PATH of (dwRetVal, buf) \<Rightarrow>
          (if int MAX_PATH < dwRetVal \<or> dwRetVal = 0 then [] else buf))
      else dflt)"

text \<open>
  \<^verbatim>\<open>m_path\<close> starts zeroed, so \<^verbatim>\<open>strncpy\<close> of at most
  \<^verbatim>\<open>MAX_PATH - 1\<close> characters leaves it terminated. When it is empty, the code reads
  \<^verbatim>\<open>m_path[-1]\<close>: the model has no character there and adds the separator.
\<close>

definition setPathCscOption ::
  "string option \<Rightarrow> (string \<Rightarrow> bool) \<Rightarrow> string \<Rightarrow> cscoptions \<Rightarrow> string option \<Rightarrow> cscoptions \<times> string" where
  "setPathCscOption tmpdir acc dflt o1 path =
     (let dflt' = setDfltCscPath tmpdir dflt;
          given = (case path of None \<Rightarrow> [] | Some p \<Rightarrow> p);
          add1 = (given \<noteq> [] \<and> last given \<noteq> PATH_SEPARATOR_CHAR);
          p = (if given \<noteq> [] \<and> acc given then take (MAX_PATH - 1) given else take (MAX_PATH - 1) dflt');
          add2 = (add1 \<or> p = [] \<or> last p \<noteq> PATH_SEPARATOR_CHAR);
          p' = (if add2 then p @ take (MAX_PATH + 1 - length p) [PATH_SEPARATOR_CHAR] else p)
      in (o1\<lparr>m_path := p'\<rparr>, dflt'))"

definition createCscOptions ::
  "string option \<Rightarrow> (string \<Rightarrow> bool) \<Rightarrow> bool \<Rightarrow> string \<Rightarrow> bool \<Rightarrow> int \<Rightarrow> int \<Rightarrow> string option \<Rightarrow>
   cscoptions option \<times> string" where
  "createCscOptions tmpdir acc nomem dflt enable threshold maxfilesize path =
     (if nomem then (None, dflt)
      else let o0 = \<lparr>m_enable = False, m_threshold = 0, m_maxfilesize = 0, m_path = []\<rparr>;
               o1 = setMaxFileSizeCscOption (setThresholdCscOption (setEnableCscOption o0 enable) threshold)
                      maxfilesize
           in (case setPathCscOption tmpdir acc dflt o1 path of (o2, dflt') \<Rightarrow> (Some o2, dflt')))"

definition createCscOptionsWithDflts ::
  "string option \<Rightarrow> (string \<Rightarrow> bool) \<Rightarrow> bool \<Rightarrow> string \<Rightarrow> cscoptions option \<times> string" where
  "createCscOptionsWithDflts tmpdir acc nomem dflt =
     (let dflt' = setDfltCscPath tmpdir dflt
      in createCscOptions tmpdir acc nomem dflt' False 1 (4 * 1024) (Some dflt'))"

lemma setPath_sep:
  assumes "setPathCscOption tmpdir acc dflt o1 path = (o2, dflt')"
  shows "m_path o2 \<noteq> [] \<and> last (m_path o2) = PATH_SEPARATOR_CHAR \<and> length (m_path o2) \<le> MAX_PATH"
  using assms by (auto simp: setPathCscOption_def Let_def MAX_PATH_def split: if_splits)

lemma setThreshold_bytes:
  "0 < t \<Longrightarrow> t < 2 ^ 43 \<Longrightarrow> m_threshold (setThresholdCscOption o1 t) = t * 1048576"
  "0 < t \<Longrightarrow> t < 2 ^ 43 \<Longrightarrow> m_maxfilesize (setMaxFileSizeCscOption o1 t) = t * 1048576"
  by (simp_all add: setThresholdCscOption_def setMaxFileSizeCscOption_def c_arith)

text \<open>
  Whatever directory the application asks for and whatever the environment
  answers, the options a connection ends up with have a directory that ends in the path
  separator and fits the buffer with its terminator, and thresholds in bytes: a positive number
  of megabytes below $2^{43}$ is that many times 1048576, anything else switches the limit off.
\<close>

theorem createCscOptions_wf:
  assumes "createCscOptions tmpdir acc False dflt enable threshold maxfilesize path = (Some o2, dflt')"
    and "threshold < 2 ^ 43" and "maxfilesize < 2 ^ 43"
  shows "m_path o2 \<noteq> [] \<and> last (m_path o2) = PATH_SEPARATOR_CHAR \<and> length (m_path o2) \<le> MAX_PATH \<and>
    m_enable o2 = enable \<and> m_threshold o2 = max 0 threshold * 1048576 \<and>
    m_maxfilesize o2 = max 0 maxfilesize * 1048576"
proof -
  let ?o0 = "\<lparr>m_enable = False, m_threshold = 0, m_maxfilesize = 0, m_path = []\<rparr>"
  let ?o1 = "setMaxFileSizeCscOption (setThresholdCscOption (setEnableCscOption ?o0 enable) threshold) maxfilesize"
  have set: "setPathCscOption tmpdir acc dflt ?o1 path = (o2, dflt')"
    using assms(1) by (simp add: createCscOptions_def Let_def split: prod.splits)
  then obtain p where "o2 = ?o1\<lparr>m_path := p\<rparr>"
    by (auto simp: setPathCscOption_def Let_def)
  with setPath_sep [OF set] assms(2,3) show ?thesis
    by (auto simp: setThresholdCscOption_def setMaxFileSizeCscOption_def setEnableCscOption_def c_arith)
qed

theorem createCscOptions_wf_witness:
  "last (m_path (the (fst (createCscOptions None (\<lambda>_. True) False [] True 1 4096 (Some ''/var/tmp''))))) =
     PATH_SEPARATOR_CHAR"
  using createCscOptions_wf [of None "\<lambda>_. True" "[]" True 1 4096 "Some ''/var/tmp''"]
  by (cases "createCscOptions None (\<lambda>_. True) False [] True 1 4096 (Some ''/var/tmp'')")
     (auto simp: createCscOptions_def Let_def split: prod.splits)

end
