(* ===== verification/Csc_Hook.thy ===== *)
theory Csc_Hook
  imports Csc_Lock
begin

text \<open>
  The registry of client-side cursors that still own files
  (\<^verbatim>\<open>ClientSideCursorShutdownHook.c\<close>): a list of connection nodes, each with the list of
  its cursors, guarded by the semaphore \<^verbatim>\<open>m_hHashSem\<close>. A cursor is named by its address, a
  \<^typ>\<open>nat\<close>. What the exit handler does with the registered cursors is in the theory
  \<open>Csc_Result\<close>, which has the cursors.
\<close>

type_synonym hashmap = "(int \<times> nat list) list"

record hook =
  m_unclosedCscConnectionMap :: hashmap
  m_hHashSem :: sem_handle

definition createCscShutdownHook :: "hook" where
  "createCscShutdownHook = \<lparr>m_unclosedCscConnectionMap = [], m_hHashSem = rsCreateBinarySem 1\<rparr>"

definition releaseCscShutdownHook :: "hook option \<Rightarrow> hook option" where
  "releaseCscShutdownHook h = None"

text \<open>The node of a key, and the list without it: the loop with \<^verbatim>\<open>prev\<close> and \<^verbatim>\<open>curr\<close>.\<close>

fun find_node :: "hashmap \<Rightarrow> int \<Rightarrow> nat list option" where
  "find_node [] key = None"
| "find_node ((k, ds) # m) key = (if k = key then Some ds else find_node m key)"

fun unlink_node :: "hashmap \<Rightarrow> int \<Rightarrow> hashmap" where
  "unlink_node [] key = []"
| "unlink_node ((k, ds) # m) key = (if k = key then m else (k, ds) # unlink_node m key)"

definition findCscHashMapUsingKey :: "hook \<Rightarrow> int \<Rightarrow> bool \<Rightarrow> nat list option \<times> hook" where
  "findCscHashMapUsingKey h key removeOperation =
     (let r = find_node (m_unclosedCscConnectionMap h) key
      in (r, if removeOperation \<and> r \<noteq> None
             then h\<lparr>m_unclosedCscConnectionMap := unlink_node (m_unclosedCscConnectionMap h) key\<rparr>
             else h))"

text \<open>Change the data list of the first node with a key, in place.\<close>

fun update_node :: "hashmap \<Rightarrow> int \<Rightarrow> (nat list \<Rightarrow> nat list) \<Rightarrow> hashmap" where
  "update_node [] key f = []"
| "update_node ((k, ds) # m) key f = (if k = key then (k, f ds) # m else (k, ds) # update_node m key f)"

definition addCscHashMapData :: "nat \<Rightarrow> nat list \<Rightarrow> nat list" where
  "addCscHashMapData p ds = p # ds"

fun releaseCscHashMapData :: "nat \<Rightarrow> nat list \<Rightarrow> nat list" where
  "releaseCscHashMapData p [] = []"
| "releaseCscHashMapData p (d # ds) = (if d = p then ds else d # releaseCscHashMapData p ds)"

text \<open>The body between the lock and the unlock of the registry.\<close>

definition locked :: "platform \<Rightarrow> hook \<Rightarrow> (hook \<Rightarrow> hook) \<Rightarrow> hook option" where
  "locked plat h body =
     (case rsLockSem (m_hHashSem h) of
        None \<Rightarrow> None
      | Some (_, s) \<Rightarrow>
          (let h' = body (h\<lparr>m_hHashSem := s\<rparr>)
           in Some (h'\<lparr>m_hHashSem := snd (rsUnlockSem plat (m_hHashSem h'))\<rparr>)))"

definition add_key_and_data :: "int \<Rightarrow> nat \<Rightarrow> hook \<Rightarrow> hook" where
  "add_key_and_data key p h =
     (let h1 = (if fst (findCscHashMapUsingKey h key False) = None
                then h\<lparr>m_unclosedCscConnectionMap := (key, []) # m_unclosedCscConnectionMap h\<rparr> else h)
      in h1\<lparr>m_unclosedCscConnectionMap :=
              update_node (m_unclosedCscConnectionMap h1) key (addCscHashMapData p)\<rparr>)"

definition addCscHashMapKeyAndData :: "platform \<Rightarrow> hook \<Rightarrow> int \<Rightarrow> nat \<Rightarrow> hook option" where
  "addCscHashMapKeyAndData plat h key p = locked plat h (add_key_and_data key p)"

definition release_key_and_data :: "int \<Rightarrow> nat option \<Rightarrow> hook \<Rightarrow> hook" where
  "release_key_and_data key pData h =
     (case pData of
        None \<Rightarrow> h
      | Some p \<Rightarrow>
          (case fst (findCscHashMapUsingKey h key False) of
             None \<Rightarrow> h
           | Some ds \<Rightarrow>
               (let h1 = h\<lparr>m_unclosedCscConnectionMap :=
                             update_node (m_unclosedCscConnectionMap h) key (releaseCscHashMapData p)\<rparr>
                in if releaseCscHashMapData p ds = [] then snd (findCscHashMapUsingKey h1 key True) else h1)))"

definition releaseCscHashMapKeyAndData ::
  "platform \<Rightarrow> hook \<Rightarrow> int \<Rightarrow> nat option \<Rightarrow> bool \<Rightarrow> hook option" where
  "releaseCscHashMapKeyAndData plat h key pData calledFromShutdownHook =
     (if \<not> calledFromShutdownHook then locked plat h (release_key_and_data key pData)
      else Some (release_key_and_data key pData h))"

subsection \<open>The registry as a finite map\<close>

text \<open>
  The registry is well formed when each connection has one node, no node is empty and no
  cursor is registered twice; it stands for a map from connections to cursors.
\<close>

definition hook_wf :: "hook \<Rightarrow> bool" where
  "hook_wf h \<longleftrightarrow> distinct (map fst (m_unclosedCscConnectionMap h)) \<and>
     (\<forall>(k, ds) \<in> set (m_unclosedCscConnectionMap h). ds \<noteq> [] \<and> distinct ds)"

definition registered :: "hook \<Rightarrow> int \<Rightarrow> nat set" where
  "registered h key = (case find_node (m_unclosedCscConnectionMap h) key of None \<Rightarrow> {} | Some ds \<Rightarrow> set ds)"

definition hook_free :: "hook \<Rightarrow> bool" where
  "hook_free h \<longleftrightarrow> m_hHashSem h = Some 1"

lemma find_node_map_of: "find_node m key = map_of m key"
  by (induction m key rule: find_node.induct) auto

lemma release_data_remove1: "releaseCscHashMapData p ds = remove1 p ds"
  by (induction p ds rule: releaseCscHashMapData.induct) auto

lemma update_node_keys [simp]: "map fst (update_node m key f) = map fst m"
  by (induction m key f rule: update_node.induct) auto

lemma find_update_node:
  "find_node (update_node m key f) k = (if k = key then map_option f (find_node m k) else find_node m k)"
  by (induction m key f rule: update_node.induct) auto

lemma set_update_node:
  "(k, ds) \<in> set (update_node m key f) \<Longrightarrow> distinct (map fst m) \<Longrightarrow>
     (k \<noteq> key \<and> (k, ds) \<in> set m) \<or> (k = key \<and> (\<exists>ds0. find_node m key = Some ds0 \<and> ds = f ds0))"
  by (induction m key f rule: update_node.induct) (force split: if_splits)+

lemma unlink_node_filter: "distinct (map fst m) \<Longrightarrow> unlink_node m key = filter (\<lambda>p. fst p \<noteq> key) m"
proof (induction m key rule: unlink_node.induct)
  case (2 k ds m key)
  then show ?case by (auto intro!: filter_True [symmetric] simp: image_iff)
qed simp

lemma find_unlink_node:
  "distinct (map fst m) \<Longrightarrow> find_node (unlink_node m key) k = (if k = key then None else find_node m k)"
  by (simp add: unlink_node_filter) (induction m; force split: if_splits)

lemma find_node_in: "find_node m key = Some ds \<Longrightarrow> (key, ds) \<in> set m"
  by (induction m key rule: find_node.induct) (auto split: if_splits)

lemma distinct_map_fst_filter: "distinct (map fst m) \<Longrightarrow> distinct (map fst (filter P m))"
  by (rule distinct_map_filter)

lemma registered_add:
  assumes "hook_wf h"
  shows "registered (add_key_and_data key p h) =
    (registered h)(key := insert p (registered h key))"
  by (auto simp: fun_eq_iff registered_def add_key_and_data_def Let_def findCscHashMapUsingKey_def
      find_update_node addCscHashMapData_def split: option.splits)

lemma hook_wf_add:
  assumes "hook_wf h" and "p \<notin> registered h key"
  shows "hook_wf (add_key_and_data key p h)"
proof (cases "find_node (m_unclosedCscConnectionMap h) key")
  case None
  then have "key \<notin> fst ` set (m_unclosedCscConnectionMap h)"
    by (simp add: find_node_map_of map_of_eq_None_iff)
  with None assms show ?thesis
    by (auto simp: hook_wf_def add_key_and_data_def findCscHashMapUsingKey_def addCscHashMapData_def)
next
  case (Some ds0)
  let ?m = "m_unclosedCscConnectionMap h"
  have wf: "distinct (map fst ?m)" "\<forall>(k, ds) \<in> set ?m. ds \<noteq> [] \<and> distinct ds"
    using assms(1) by (simp_all add: hook_wf_def)
  have "p \<notin> set ds0" "distinct ds0"
    using Some assms(2) wf(2) find_node_in [OF Some] by (auto simp: registered_def)
  have "ds \<noteq> [] \<and> distinct ds" if "(k, ds) \<in> set (update_node ?m key (addCscHashMapData p))" for k ds
    using set_update_node [OF that wf(1)] wf(2) Some \<open>p \<notin> set ds0\<close> \<open>distinct ds0\<close>
    by (auto simp: addCscHashMapData_def)
  with Some wf(1) show ?thesis
    by (auto simp: hook_wf_def add_key_and_data_def findCscHashMapUsingKey_def)
qed

lemma registered_release:
  assumes "hook_wf h"
  shows "registered (release_key_and_data key (Some p) h) =
    (registered h)(key := registered h key - {p})"
proof (cases "find_node (m_unclosedCscConnectionMap h) key")
  case None
  then show ?thesis
    by (auto simp: fun_eq_iff registered_def release_key_and_data_def findCscHashMapUsingKey_def)
next
  case (Some ds)
  have d: "distinct (map fst (m_unclosedCscConnectionMap h))" "distinct ds"
    using assms find_node_in [OF Some] by (auto simp: hook_wf_def)
  with Some show ?thesis
    by (auto simp: fun_eq_iff registered_def release_key_and_data_def findCscHashMapUsingKey_def Let_def
        find_update_node find_unlink_node release_data_remove1 set_remove1_eq split: option.splits)
      (metis DiffI empty_iff empty_set set_remove1_eq singletonD)
qed

lemma hook_wf_release:
  assumes "hook_wf h"
  shows "hook_wf (release_key_and_data key pData h)"
proof (cases pData)
  case (Some p)
  show ?thesis
  proof (cases "find_node (m_unclosedCscConnectionMap h) key")
    case None
    with Some assms show ?thesis
      by (simp add: release_key_and_data_def findCscHashMapUsingKey_def)
  next
    case (Some ds0)
    let ?m = "m_unclosedCscConnectionMap h"
    let ?m1 = "update_node ?m key (releaseCscHashMapData p)"
    have wf: "distinct (map fst ?m)" "\<forall>(k, ds) \<in> set ?m. ds \<noteq> [] \<and> distinct ds"
      using assms by (simp_all add: hook_wf_def)
    have nodes: "k = key \<and> ds = remove1 p ds0 \<or> k \<noteq> key \<and> (k, ds) \<in> set ?m"
      if "(k, ds) \<in> set ?m1" for k ds
      using set_update_node [OF that wf(1)] Some by (auto simp: release_data_remove1)
    have d1: "distinct (map fst ?m1)" using wf(1) by simp
    show ?thesis
    proof (cases "remove1 p ds0 = []")
      case True
      have "k \<noteq> key \<and> (k, ds) \<in> set ?m" if "(k, ds) \<in> set (unlink_node ?m1 key)" for k ds
        using that nodes unlink_node_filter [OF d1] by auto
      with True Some \<open>pData = Some p\<close> wf d1 show ?thesis
        by (auto simp: hook_wf_def release_key_and_data_def findCscHashMapUsingKey_def Let_def
            find_update_node release_data_remove1 unlink_node_filter [OF d1] distinct_map_filter)
    next
      case False
      have "distinct ds0" using wf(2) find_node_in [OF Some] by auto
      with False nodes wf Some \<open>pData = Some p\<close> d1 show ?thesis
        by (fastforce simp: hook_wf_def release_key_and_data_def findCscHashMapUsingKey_def Let_def
            release_data_remove1)
    qed
  qed
next
  case None
  with assms show ?thesis by (simp add: release_key_and_data_def)
qed


subsection \<open>The registry as an interface\<close>

text \<open>
  What the cursor code relies on: a registry maps each connection to a set of cursors; adding
  and releasing change one connection's set and keep the registry usable.
\<close>

locale cursor_registry =
  fixes usable :: "'r \<Rightarrow> bool" and members :: "'r \<Rightarrow> int \<Rightarrow> nat set"
    and add :: "int \<Rightarrow> nat \<Rightarrow> 'r \<Rightarrow> 'r option" and rel :: "int \<Rightarrow> nat \<Rightarrow> 'r \<Rightarrow> 'r option"
  assumes add_ok: "usable r \<Longrightarrow> p \<notin> members r k \<Longrightarrow>
      \<exists>r'. add k p r = Some r' \<and> usable r' \<and> members r' = (members r)(k := insert p (members r k))"
    and rel_ok: "usable r \<Longrightarrow>
      \<exists>r'. rel k p r = Some r' \<and> usable r' \<and> members r' = (members r)(k := members r k - {p})"
begin

lemma add_rel:
  assumes "usable r" and "p \<notin> members r k"
  shows "\<exists>r1 r2. add k p r = Some r1 \<and> p \<in> members r1 k \<and> rel k p r1 = Some r2 \<and> usable r2 \<and>
    members r2 = members r"
proof -
  obtain r1 where r1: "add k p r = Some r1" "usable r1"
    "members r1 = (members r)(k := insert p (members r k))"
    using add_ok [OF assms] by blast
  obtain r2 where r2: "rel k p r1 = Some r2" "usable r2" "members r2 = (members r1)(k := members r1 k - {p})"
    using rel_ok [OF r1(2)] by blast
  have "members r2 = members r"
    using r1(3) r2(3) assms(2) by (simp add: fun_eq_iff)
  with r1 r2 show ?thesis by auto
qed

lemma rel_all:
  assumes "usable r" and "set ps = members r k"
  shows "\<exists>r'. foldl (\<lambda>x p. Option.bind x (rel k p)) (Some r) ps = Some r' \<and> usable r' \<and>
    members r' = (members r)(k := {})"
proof -
  have "\<exists>r'. foldl (\<lambda>x p. Option.bind x (rel k p)) (Some r) qs = Some r' \<and> usable r' \<and>
      members r' = (members r)(k := members r k - set qs)" if "usable r" for qs r
    using that
  proof (induction qs arbitrary: r)
    case Nil
    then show ?case by (simp add: fun_eq_iff)
  next
    case (Cons q qs)
    obtain r1 where r1: "rel k q r = Some r1" "usable r1" "members r1 = (members r)(k := members r k - {q})"
      using rel_ok [OF Cons.prems] by blast
    from Cons.IH [OF r1(2)] r1 show ?case by (auto simp: fun_eq_iff)
  qed
  from this [OF assms(1), of ps] assms(2) show ?thesis by simp
qed

end

definition hook_ok :: "hook \<Rightarrow> bool" where
  "hook_ok h \<longleftrightarrow> hook_wf h \<and> hook_free h"

lemma hook_wf_sem [simp]: "hook_wf (h\<lparr>m_hHashSem := s\<rparr>) = hook_wf h"
  by (simp add: hook_wf_def)

lemma registered_sem [simp]: "registered (h\<lparr>m_hHashSem := s\<rparr>) = registered h"
  by (simp add: registered_def fun_eq_iff)

lemma body_sem [simp]:
  "m_hHashSem (add_key_and_data key p h) = m_hHashSem h"
  "m_hHashSem (release_key_and_data key q h) = m_hHashSem h"
  by (auto simp: add_key_and_data_def release_key_and_data_def findCscHashMapUsingKey_def Let_def
      split: option.splits)

lemma locked_ok:
  assumes "hook_free h" and "\<And>h. m_hHashSem (body h) = m_hHashSem h"
  shows "locked plat h body = Some ((body (h\<lparr>m_hHashSem := Some 0\<rparr>))\<lparr>m_hHashSem := Some 1\<rparr>)"
  using assms by (simp add: locked_def hook_free_def rsLockSem_def rsUnlockSem_def Let_def)

interpretation hookreg: cursor_registry hook_ok registered
  "\<lambda>k p h. addCscHashMapKeyAndData plat h k p"
  "\<lambda>k p h. releaseCscHashMapKeyAndData plat h k (Some p) False" for plat
proof unfold_locales
  fix r :: hook and p k
  assume ok: "hook_ok r" and "p \<notin> registered r k"
  then show "\<exists>r'. addCscHashMapKeyAndData plat r k p = Some r' \<and> hook_ok r' \<and>
      registered r' = (registered r)(k := insert p (registered r k))"
    using registered_add [of "r\<lparr>m_hHashSem := Some 0\<rparr>"] hook_wf_add [of "r\<lparr>m_hHashSem := Some 0\<rparr>" p k]
    by (simp add: addCscHashMapKeyAndData_def locked_ok hook_ok_def hook_free_def)
next
  fix r :: hook and p k
  assume ok: "hook_ok r"
  then show "\<exists>r'. releaseCscHashMapKeyAndData plat r k (Some p) False = Some r' \<and> hook_ok r' \<and>
      registered r' = (registered r)(k := registered r k - {p})"
    using registered_release [of "r\<lparr>m_hHashSem := Some 0\<rparr>"] hook_wf_release [of "r\<lparr>m_hHashSem := Some 0\<rparr>"]
    by (simp add: releaseCscHashMapKeyAndData_def locked_ok hook_ok_def hook_free_def)
qed



end
