(* ===== verification/Csc_Result.thy ===== *)
theory Csc_Result
  imports Csc_Stream Csc_Lock Csc_Options Csc_Hook "HOL-Library.Monad_Syntax"
begin

text \<open>
  The client-side cursor of one result (\<^verbatim>\<open>ClientSideCursorResult.c\<close>): the result is
  spilled row by row to a data file, for scrollable cursors with an offset file of eight bytes
  per row, and read back in batches that fit a memory threshold.

  A function of the source becomes a function that takes the environment \<open>world\<close> and the
  cursor and returns what it changed. An operation that may wait for the socket thread returns
  \<open>None\<close> where it blocks in the given state. Tracing is left out. The record has the source's
  fields and a ghost field \<open>m_self\<close>, the cursor's address.
\<close>

subsection \<open>Rows and the cursor's state\<close>

record attvalue =
  att_len :: int
  att_value :: "byte list option"

type_synonym row = "attvalue list"

text \<open>The part of \<^verbatim>\<open>PGresult\<close> the cursor works on.\<close>

record pgres =
  ntups :: int
  tuples :: "row option list option"
  m_tuplesAllocatedByCscRead :: bool
  numAttributes :: int

record csc =
  m_self :: nat
  m_alreadyReachedThreshold :: bool
  m_rawRowLength :: int
  m_rowCount :: int
  m_maxRows :: int
  m_maxRowsReached :: bool
  m_fileName :: string
  m_offsetFileName :: string
  m_cscOptions :: cscoptions
  m_cscOutputStream :: "ostream option"
  m_inMemoryResultSize :: int
  m_fileCreated :: bool
  m_rawRowLengthFromFile :: int
  m_cscInputStream :: "istream option"
  m_endOfInputStream :: bool
  m_inMemoryResultSizeFromFile :: int
  m_resultsettype :: int
  m_firstReadFromFileOffset :: int
  m_cscOffsetOutputStream :: "ostream option"
  m_firstRowNumberInMem :: int
  m_lastRowNumberInMem :: int
  m_totalRows :: int
  m_totalCommitedRows :: int
  m_cscOffsetInputStream :: "istream option"
  m_cols :: int
  m_connectionPid :: int
  m_cscLock :: "csclock option"
  m_executeIndex :: int
  m_skipResult :: bool
  m_ioe :: int

definition BATCH_SIZE_TO_PROCESS :: int where
  "BATCH_SIZE_TO_PROCESS = 1000"

subsection \<open>Creation\<close>

definition getCurrentTimeInMilli :: "int \<Rightarrow> int" where
  "getCurrentTimeInMilli ltime = i64 (ltime * 1000)"

text \<open>\<^verbatim>\<open>snprintf\<close> into a buffer of \<open>MAX_PATH + 1\<close> characters.\<close>

definition snprintf_path :: "string \<Rightarrow> string" where
  "snprintf_path s = take MAX_PATH s"

definition csc_temp_name :: "cscoptions \<Rightarrow> string \<Rightarrow> int \<Rightarrow> string option \<Rightarrow> int \<Rightarrow> string" where
  "csc_temp_name opts hostName connectionPid portalName ltime =
     snprintf_path (m_path opts @ ''rsdbodbc'' @ ''_'' @ hostName @ ''_'' @ dec_int connectionPid @
       (case portalName of None \<Rightarrow> [] | Some p \<Rightarrow> ''_'' @ p) @ ''_'' @
       dec_int (getCurrentTimeInMilli ltime))"

definition createCscResultWithFileName ::
  "world \<Rightarrow> int \<Rightarrow> nat \<Rightarrow> cscoptions \<Rightarrow> int \<Rightarrow> string \<Rightarrow> int \<Rightarrow> string option \<Rightarrow> int \<Rightarrow> int \<Rightarrow>
   string option \<Rightarrow> bool \<Rightarrow> int \<Rightarrow> csc option" where
  "createCscResultWithFileName w ltime addr opts maxRows hostName connectionPid portalName
     resultsettype executeIndex fileName openForReading totalRows =
     (if w_nomem w then None
      else
        (let noname = (case fileName of None \<Rightarrow> True | Some f \<Rightarrow> f = []);
             file = (if noname then csc_temp_name opts hostName connectionPid portalName ltime
                     else the fileName);
             openForReading' = (if noname then False else openForReading);
             totalRows' = (if noname then 0 else totalRows);
             total = (if openForReading' then totalRows' else 0)
         in Some \<lparr>m_self = addr, m_alreadyReachedThreshold = False, m_rawRowLength = 0,
              m_rowCount = 0, m_maxRows = maxRows, m_maxRowsReached = False,
              m_fileName = snprintf_path (file @ ''.'' @ ''cursor''),
              m_offsetFileName = snprintf_path (file @ ''.'' @ ''offset''),
              m_cscOptions = opts, m_cscOutputStream = None, m_inMemoryResultSize = 0,
              m_fileCreated = openForReading', m_rawRowLengthFromFile = 0,
              m_cscInputStream = None, m_endOfInputStream = False,
              m_inMemoryResultSizeFromFile = 0, m_resultsettype = resultsettype,
              m_firstReadFromFileOffset = 0, m_cscOffsetOutputStream = None,
              m_firstRowNumberInMem = 0, m_lastRowNumberInMem = 0, m_totalRows = total,
              m_totalCommitedRows = total, m_cscOffsetInputStream = None, m_cols = 0,
              m_connectionPid = connectionPid, m_cscLock = None, m_executeIndex = executeIndex,
              m_skipResult = False, m_ioe = 0\<rparr>))"

definition createCscResult ::
  "world \<Rightarrow> int \<Rightarrow> nat \<Rightarrow> cscoptions \<Rightarrow> int \<Rightarrow> string \<Rightarrow> int \<Rightarrow> string option \<Rightarrow> int \<Rightarrow> int \<Rightarrow> csc option" where
  "createCscResult w ltime addr opts maxRows hostName connectionPid portalName resultsettype executeIndex =
     createCscResultWithFileName w ltime addr opts maxRows hostName connectionPid portalName
       resultsettype executeIndex None False 0"

definition releaseCsc :: "csc option \<Rightarrow> csc option" where
  "releaseCsc c = None"

subsection \<open>Small operations\<close>

definition setThresholdReachCsc :: "csc \<Rightarrow> bool \<Rightarrow> csc" where
  "setThresholdReachCsc c b = c\<lparr>m_alreadyReachedThreshold := b\<rparr>"

definition setRawRowLengthCsc :: "csc \<Rightarrow> int \<Rightarrow> csc" where
  "setRawRowLengthCsc c n = c\<lparr>m_rawRowLength := n\<rparr>"

definition getFirstRowIndexCsc :: "csc \<Rightarrow> int" where
  "getFirstRowIndexCsc c = (if 0 < m_firstRowNumberInMem c then m_firstRowNumberInMem c - 1 else 0)"

definition incRowCountAndCheckForMaxRowsCsc :: "csc \<Rightarrow> csc" where
  "incRowCountAndCheckForMaxRowsCsc c =
     (let c1 = c\<lparr>m_rowCount := m_rowCount c + 1\<rparr>
      in if m_maxRows c1 \<noteq> 0 \<and> m_rowCount c1 = m_maxRows c1 then c1\<lparr>m_maxRowsReached := True\<rparr> else c1)"

definition checkForThresholdLimitReachCsc :: "csc \<Rightarrow> int \<Rightarrow> int \<Rightarrow> bool \<Rightarrow> bool \<times> csc" where
  "checkForThresholdLimitReachCsc c cols rawRowLength creatingCsc =
     (let thresholdCSCLimit = m_threshold (m_cscOptions c) in
      if 0 < thresholdCSCLimit then
        (let size0 = (if creatingCsc then m_inMemoryResultSize c else m_inMemoryResultSizeFromFile c);
             size1 = (if size0 = 0 then size0 + 40 else size0);
             size2 = size1 + 4;
             rowSize = i32 (12 + i32 (4 * cols)) + rawRowLength + i32 (12 + i32 (4 * cols));
             size3 = i64 (size2 + rowSize)
         in (thresholdCSCLimit \<le> size3,
             if creatingCsc then c\<lparr>m_inMemoryResultSize := size3\<rparr>
             else c\<lparr>m_inMemoryResultSizeFromFile := size3\<rparr>))
      else (False, c))"

subsection \<open>Waiting and signalling through the cursor's lock\<close>

definition createLockCsc :: "world \<Rightarrow> csc \<Rightarrow> csc" where
  "createLockCsc w c =
     (let l = createCscLock (w_nomem w) in c\<lparr>m_cscLock := l, m_ioe := of_cbool (l = None)\<rparr>)"

definition resetLockCsc :: "csc \<Rightarrow> csc" where
  "resetLockCsc c = c\<lparr>m_cscLock := None\<rparr>"

definition isFullResultReadFromServerCsc :: "csc \<Rightarrow> bool" where
  "isFullResultReadFromServerCsc c =
     (case m_cscLock c of None \<Rightarrow> True | Some l \<Rightarrow> isFullResultReadFromServerCscLock l)"

definition waitForFullResultReadFromServerCsc :: "csc \<Rightarrow> csc option" where
  "waitForFullResultReadFromServerCsc c =
     (case m_cscLock c of
        None \<Rightarrow> Some c
      | Some l \<Rightarrow>
          if \<not> isFullResultReadFromServerCscLock l
          then map_option (\<lambda>l'. c\<lparr>m_cscLock := Some l'\<rparr>) (waitForFullResultReadFromServerCscLock l)
          else Some c)"

definition waitForBatchResultReadFromServerCsc :: "csc \<Rightarrow> csc option" where
  "waitForBatchResultReadFromServerCsc c =
     (case m_cscLock c of
        None \<Rightarrow> Some c
      | Some l \<Rightarrow>
          if \<not> isFullResultReadFromServerCscLock l
          then map_option (\<lambda>l'. c\<lparr>m_cscLock := Some l'\<rparr>) (waitForBatchResultReadFromServerCscLock l)
          else Some c)"

definition signalForFullResultReadFromServerCsc :: "world \<Rightarrow> csc \<Rightarrow> csc" where
  "signalForFullResultReadFromServerCsc w c =
     c\<lparr>m_cscLock := map_option (signalForFullResultReadFromServerCscLock (w_platform w)) (m_cscLock c)\<rparr>"

definition signalForBatchResultReadFromServerCsc :: "world \<Rightarrow> csc \<Rightarrow> csc" where
  "signalForBatchResultReadFromServerCsc w c =
     c\<lparr>m_cscLock := map_option (signalForBatchResultReadFromServerCscLock (w_platform w)) (m_cscLock c)\<rparr>"

definition setIOExceptionCsc :: "world \<Rightarrow> csc \<Rightarrow> int \<Rightarrow> csc" where
  "setIOExceptionCsc w c ioe = signalForFullResultReadFromServerCsc w (c\<lparr>m_ioe := ioe\<rparr>)"

definition getIOExceptionCsc :: "csc \<Rightarrow> int \<times> csc" where
  "getIOExceptionCsc c = (m_ioe c, c\<lparr>m_ioe := 0\<rparr>)"

text \<open>The loop \<^verbatim>\<open>do wait while (not full and P)\<close> around the batch wait.\<close>

partial_function (option) wait_batches :: "(csc \<Rightarrow> bool) \<Rightarrow> csc \<Rightarrow> (csc \<times> bool) option" where
  "wait_batches P c =
     Option.bind (waitForBatchResultReadFromServerCsc c) (\<lambda>c1.
       let waitForWriteCommit = \<not> isFullResultReadFromServerCsc c1
       in if waitForWriteCommit \<and> P c1 then wait_batches P c1 else Some (c1, waitForWriteCommit))"

subsection \<open>Writing rows\<close>

text \<open>The column loop of \<^verbatim>\<open>writeRowCsc\<close>; the last write's code is kept in \<^verbatim>\<open>m_ioe\<close>.\<close>

fun write_cols :: "world \<Rightarrow> ostream \<Rightarrow> int \<Rightarrow> row \<Rightarrow> int \<times> world \<times> ostream" where
  "write_cols w os ioe [] = (ioe, w, os)"
| "write_cols w os ioe (a # as) =
     (let colValLen = (case att_value a of Some _ \<Rightarrow> att_len a | None \<Rightarrow> -1) in
      case writeIntCscOutputStream w os colValLen of (ioe1, w1, os1) \<Rightarrow>
        (if 0 < colValLen then
           (case writeCscOutputStream w1 os1 (the (att_value a)) 0 (nat colValLen) of (ioe2, w2, os2) \<Rightarrow>
              write_cols w2 os2 ioe2 as)
         else write_cols w1 os1 ioe1 as))"

text \<open>The offset of the row goes to the offset file first, for a scrollable cursor.\<close>

definition write_row_offset :: "world \<Rightarrow> csc \<Rightarrow> ostream \<Rightarrow> world \<times> csc \<times> ostream" where
  "write_row_offset w c os =
     (if \<not> doesItForwardOnlyCursor (m_resultsettype c) then
        (case m_cscOffsetOutputStream c of
           Some off \<Rightarrow>
             (case getPositionCscOutputStream w os of (pos, w1, os1) \<Rightarrow>
              case writeLongLongCscOutputStream w1 off pos of (ioe, w2, off1) \<Rightarrow>
              case getPositionCscOutputStream w2 off1 of (_, w3, off2) \<Rightarrow>
                (w3, c\<lparr>m_ioe := ioe, m_cscOffsetOutputStream := Some off2\<rparr>, os1))
         | None \<Rightarrow> (w, c, os))
      else (w, c, os))"

text \<open>Every thousandth row the written rows are committed and the reader is signalled.\<close>

definition commit_batch :: "world \<Rightarrow> csc \<Rightarrow> ostream \<Rightarrow> world \<times> csc" where
  "commit_batch w c os =
     (if m_totalRows c mod BATCH_SIZE_TO_PROCESS = 0 then
        (case flushCscOutputStream w os of (ioe, w1, os1) \<Rightarrow>
          (w1, signalForBatchResultReadFromServerCsc w1
                 (c\<lparr>m_totalCommitedRows := m_totalRows c, m_ioe := ioe, m_cscOutputStream := Some os1\<rparr>)))
      else (w, c\<lparr>m_cscOutputStream := Some os\<rparr>))"

definition writeRowCsc :: "world \<Rightarrow> csc \<Rightarrow> row option \<Rightarrow> int \<Rightarrow> int \<times> world \<times> csc" where
  "writeRowCsc w c tuple noOfCols =
     (case (m_cscOutputStream c, tuple) of
        (Some os, Some tup) \<Rightarrow>
          (let maxFileSize = m_maxfilesize (m_cscOptions c) in
           if maxFileSize = 0 \<or> sizeCscOutputStream os < maxFileSize then
             (case write_row_offset w c os of (w1, c1, os1) \<Rightarrow>
              case writeShortCscOutputStream w1 os1 noOfCols of (ioe2, w2, os2) \<Rightarrow>
              case write_cols w2 os2 ioe2 (take (nat noOfCols) tup) of (ioe3, w3, os3) \<Rightarrow>
              case commit_batch w3 (c1\<lparr>m_ioe := ioe3, m_totalRows := m_totalRows c1 + 1\<rparr>) os3 of (w4, c4) \<Rightarrow>
                (m_ioe c4, w4, c4))
           else (1, w, c\<lparr>m_ioe := 1, m_skipResult := True\<rparr>))
      | _ \<Rightarrow> (m_ioe c, w, c))"

text \<open>
  The shutdown registry is created with the first cursor that gets a file, and the cursor is
  entered under its connection. \<open>None\<close>: the registry's semaphore is taken.
\<close>

definition register_csc :: "world \<Rightarrow> hook option \<Rightarrow> csc \<Rightarrow> hook option option" where
  "register_csc w gp c =
     (let gp1 = (case gp of None \<Rightarrow> (if w_nomem w then None else Some createCscShutdownHook) | Some h \<Rightarrow> Some h)
      in case gp1 of
           None \<Rightarrow> Some None
         | Some h \<Rightarrow> map_option Some (addCscHashMapKeyAndData (w_platform w) h (m_connectionPid c) (m_self c)))"

text \<open>The row loop of \<^verbatim>\<open>createFileCsc\<close>, which stops at the first error.\<close>

fun push_first_batch :: "world \<Rightarrow> csc \<Rightarrow> row option list \<Rightarrow> int \<Rightarrow> int \<times> world \<times> csc" where
  "push_first_batch w c [] noOfCols = (m_ioe c, w, c)"
| "push_first_batch w c (t # ts) noOfCols =
     (case writeRowCsc w c t noOfCols of (rc, w1, c1) \<Rightarrow>
       (let c2 = c1\<lparr>m_ioe := rc\<rparr> in
        if rc \<noteq> 0 then (rc, w1, c2)
        else push_first_batch w1 (if m_cols c2 = 0 then c2\<lparr>m_cols := noOfCols\<rparr> else c2) ts noOfCols))"

definition pgres_rows :: "pgres option \<Rightarrow> row option list" where
  "pgres_rows r = (case r of None \<Rightarrow> [] | Some res \<Rightarrow>
     take (nat (ntups res)) (case tuples res of None \<Rightarrow> [] | Some ts \<Rightarrow> ts))"

definition pgres_nfields :: "pgres option \<Rightarrow> int" where
  "pgres_nfields r = (case r of None \<Rightarrow> 0 | Some res \<Rightarrow> numAttributes res)"

definition createFileCsc ::
  "world \<Rightarrow> hook option \<Rightarrow> csc \<Rightarrow> pgres option \<Rightarrow> (int \<times> world \<times> hook option \<times> csc) option" where
  "createFileCsc w gp c pgResult =
     (case createCscOutputStream w (m_fileName c) (m_resultsettype c) of (os, err, w1) \<Rightarrow>
       (let c1 = c\<lparr>m_cscOutputStream := os, m_ioe := err\<rparr> in
        if m_ioe c1 \<noteq> 0 then Some (m_ioe c1, w1, gp, c1)
        else let c2 = c1\<lparr>m_fileCreated := True\<rparr> in
          do {
            gp1 \<leftarrow> register_csc w1 gp c2;
            let c3 = c2\<lparr>m_firstRowNumberInMem := 1\<rparr>;
            if \<not> doesItForwardOnlyCursor (m_resultsettype c3) then
              (case createCscOutputStream w1 (m_offsetFileName c3) (m_resultsettype c3) of (off, err2, w2) \<Rightarrow>
                (let c4 = c3\<lparr>m_cscOffsetOutputStream := off, m_ioe := err2\<rparr> in
                 if m_ioe c4 \<noteq> 0 then Some (m_ioe c4, w2, gp1, c4)
                 else case push_first_batch w2 c4 (pgres_rows pgResult) (pgres_nfields pgResult) of (rc, w3, c5) \<Rightarrow>
                   (if rc \<noteq> 0 then Some (rc, w3, gp1, c5)
                    else case getPositionCscOutputStream w3 (the (m_cscOutputStream c5)) of (pos, w4, os5) \<Rightarrow>
                      Some (m_ioe c5, w4, gp1,
                            c5\<lparr>m_cscOutputStream := Some os5, m_firstReadFromFileOffset := pos,
                               m_lastRowNumberInMem := m_totalRows c5\<rparr>))))
            else Some (m_ioe c3, w1, gp1, c3)
          }))"

subsection \<open>Closing\<close>

definition closeOffsetOutputFileCsc :: "world \<Rightarrow> csc \<Rightarrow> int \<times> world \<times> csc" where
  "closeOffsetOutputFileCsc w c =
     (case m_cscOffsetOutputStream c of
        Some os \<Rightarrow> (case closeCscOutputStream w os of (rc, w1, os1) \<Rightarrow>
          (rc, w1, c\<lparr>m_cscOffsetOutputStream := releaseCscOutputStream (Some os1)\<rparr>))
      | None \<Rightarrow> (0, w, c))"

definition closeOutputFileCsc :: "world \<Rightarrow> csc \<Rightarrow> int \<times> world \<times> csc" where
  "closeOutputFileCsc w c =
     (case m_cscOutputStream c of
        Some os \<Rightarrow>
          (let c1 = c\<lparr>m_totalCommitedRows := m_totalRows c\<rparr> in
           case closeCscOutputStream w os of (rc, w1, os1) \<Rightarrow>
           case closeOffsetOutputFileCsc w1 (c1\<lparr>m_cscOutputStream := releaseCscOutputStream (Some os1)\<rparr>) of
             (rc1, w2, c2) \<Rightarrow> (if rc = 0 then rc1 else rc, w2, c2))
      | None \<Rightarrow> (0, w, c))"

definition closeInputFileCsc :: "csc \<Rightarrow> int \<times> csc" where
  "closeInputFileCsc c =
     (case m_cscInputStream c of
        Some s \<Rightarrow> (case closeCscInputStream s of (rc, s1) \<Rightarrow>
          (rc, c\<lparr>m_cscInputStream := releaseCscInputStream (Some s1)\<rparr>))
      | None \<Rightarrow> (0, c))"

definition closeOffsetInputFileCsc :: "csc \<Rightarrow> int \<times> csc" where
  "closeOffsetInputFileCsc c =
     (case m_cscOffsetInputStream c of
        Some s \<Rightarrow> (case closeCscInputStream s of (rc, s1) \<Rightarrow>
          (rc, c\<lparr>m_cscOffsetInputStream := releaseCscInputStream (Some s1)\<rparr>))
      | None \<Rightarrow> (0, c))"

text \<open>\<^verbatim>\<open>remove(path)\<close> of an existing file.\<close>

definition c_remove :: "world \<Rightarrow> string \<Rightarrow> int \<times> world" where
  "c_remove w p = (if w_noremove w p then (-1, w) else (0, w\<lparr>w_files := (w_files w)(p := None)\<rparr>))"

definition fileExists :: "world \<Rightarrow> string \<Rightarrow> bool" where
  "fileExists w p = (w_files w p \<noteq> None)"

definition deleteOffsetFileCsc :: "world \<Rightarrow> csc \<Rightarrow> int \<times> world" where
  "deleteOffsetFileCsc w c =
     (if \<not> doesItForwardOnlyCursor (m_resultsettype c) then
        (if fileExists w (m_offsetFileName c) then
           (case c_remove w (m_offsetFileName c) of (rc, w1) \<Rightarrow> (if rc \<noteq> 0 then 1 else 0, w1))
         else (0, w))
      else (0, w))"

definition deleteDataFileCsc :: "world \<Rightarrow> csc \<Rightarrow> int \<times> world" where
  "deleteDataFileCsc w c =
     (if fileExists w (m_fileName c) then
        (case c_remove w (m_fileName c) of (rc, w1) \<Rightarrow>
          (if rc \<noteq> 0 then (1, w1) else deleteOffsetFileCsc w1 c))
      else deleteOffsetFileCsc w c)"

definition unregister_csc :: "world \<Rightarrow> hook option \<Rightarrow> csc \<Rightarrow> bool \<Rightarrow> hook option option" where
  "unregister_csc w gp c calledFromShutdownHook =
     (case gp of
        None \<Rightarrow> Some None
      | Some h \<Rightarrow> map_option Some
          (releaseCscHashMapKeyAndData (w_platform w) h (m_connectionPid c) (Some (m_self c))
             calledFromShutdownHook))"

definition closeCsc ::
  "world \<Rightarrow> hook option \<Rightarrow> csc \<Rightarrow> bool \<Rightarrow> (int \<times> world \<times> hook option \<times> csc) option" where
  "closeCsc w gp c calledFromShutdownHook =
     (if m_fileCreated c then
        (let savIoe = m_ioe c in
         do {
           c1 \<leftarrow> (if \<not> isFullResultReadFromServerCsc c
                  then waitForFullResultReadFromServerCsc (c\<lparr>m_skipResult := True\<rparr>) else Some c);
           let c2 = c1\<lparr>m_fileCreated := False\<rparr>;
           (case closeOutputFileCsc w c2 of (e1, w1, c3) \<Rightarrow>
            case closeInputFileCsc (c3\<lparr>m_ioe := e1\<rparr>) of (e2, c4) \<Rightarrow>
            case closeOffsetInputFileCsc (c4\<lparr>m_ioe := e2\<rparr>) of (e3, c5) \<Rightarrow>
            case deleteDataFileCsc w1 (c5\<lparr>m_ioe := e3\<rparr>) of (e4, w2) \<Rightarrow>
              do {
                let c6 = c5\<lparr>m_ioe := e4, m_cscLock := destroyCscLock (m_cscLock c5)\<rparr>;
                gp1 \<leftarrow> unregister_csc w2 gp c6 calledFromShutdownHook;
                Some (m_ioe c6, w2, gp1, c6\<lparr>m_ioe := of_cbool (m_ioe c6 \<noteq> 0 \<or> savIoe \<noteq> 0)\<rparr>)
              })
         })
      else Some (0, w, gp, c))"

definition pgCloseCsc ::
  "world \<Rightarrow> hook option \<Rightarrow> csc option option \<Rightarrow> (int \<times> world \<times> hook option \<times> csc option option) option" where
  "pgCloseCsc w gp pgResult =
     (case pgResult of
        Some (Some c) \<Rightarrow> map_option (\<lambda>(rc, w1, gp1, c1). (rc, w1, gp1, Some (releaseCsc (Some c1))))
          (closeCsc w gp c False)
      | _ \<Rightarrow> Some (0, w, gp, pgResult))"

subsection \<open>Reading one row\<close>

text \<open>
  The column loop of \<^verbatim>\<open>readRowCsc\<close>: the columns read (\<open>None\<close> after a short read, where
  the source returns \<^verbatim>\<open>NULL\<close> with the error set), the stream, and the length of the data.
\<close>

fun read_cols :: "world \<Rightarrow> nat \<Rightarrow> istream \<Rightarrow> int \<Rightarrow> row \<Rightarrow> row option \<times> istream \<times> int" where
  "read_cols w 0 s raw acc = (Some acc, s, raw)"
| "read_cols w (Suc n) s raw acc =
     (case readIntCscInputStream w s of (colValLen, s1) \<Rightarrow>
       (if colValLen \<noteq> -1 then
          (if 0 < colValLen then
             (case readCscInputStream w s1 (nat colValLen) of (actualRead, d, s2) \<Rightarrow>
               (if actualRead \<noteq> colValLen then (None, s2, raw + colValLen)
                else read_cols w n s2 (raw + colValLen)
                       (acc @ [\<lparr>att_len = colValLen, att_value = Some d\<rparr>])))
           else read_cols w n s1 (raw + colValLen)
                  (acc @ [\<lparr>att_len = colValLen, att_value = (if colValLen = 0 then Some [] else None)\<rparr>]))
        else read_cols w n s1 raw (acc @ [\<lparr>att_len = -1, att_value = None\<rparr>])))"

text \<open>The row, \<^verbatim>\<open>*piError\<close>, \<^verbatim>\<open>*piEof\<close> and the cursor.\<close>

definition readRowCsc :: "world \<Rightarrow> csc \<Rightarrow> row option \<times> int \<times> bool \<times> csc" where
  "readRowCsc w c =
     (let c0 = c\<lparr>m_rawRowLengthFromFile := 0\<rparr> in
      case m_cscInputStream c0 of
        None \<Rightarrow> (None, 0, False, c0)
      | Some s \<Rightarrow>
          (case feofCscInputStream s of (eof0, s0) \<Rightarrow>
            (if eof0 then (None, 0, True, c0\<lparr>m_cscInputStream := Some s0\<rparr>)
             else case readShortCscInputStreamForNumberOfCols w s0 of (noOfCols, s1) \<Rightarrow>
               (if 0 < noOfCols then
                  (case read_cols w (nat noOfCols) s1 0 [] of (r, s2, raw) \<Rightarrow>
                    (case r of
                       None \<Rightarrow> (None, 1, False,
                                c0\<lparr>m_cscInputStream := Some s2, m_rawRowLengthFromFile := raw\<rparr>)
                     | Some t \<Rightarrow>
                         (case getIOErrorCsc (is_error s2) of (err, e') \<Rightarrow>
                           (Some t, err, False,
                            c0\<lparr>m_cscInputStream := Some (s2\<lparr>is_error := e'\<rparr>),
                               m_rawRowLengthFromFile := raw,
                               m_lastRowNumberInMem :=
                                 m_lastRowNumberInMem c0 + (if err = 0 then 1 else 0)\<rparr>))))
                else
                  (case feofCscInputStream s1 of (eof1, s2) \<Rightarrow>
                   case getIOErrorCsc (is_error s2) of (err, e') \<Rightarrow>
                     (None, err, eof1,
                      c0\<lparr>m_cscInputStream := Some (s2\<lparr>is_error := e'\<rparr>),
                         m_lastRowNumberInMem :=
                           m_lastRowNumberInMem c0 + (if err = 0 \<and> \<not> eof1 then 1 else 0)\<rparr>))))))"

text \<open>Releasing the rows of the previous batch.\<close>

definition pgFreeTuplePointers :: "pgres \<Rightarrow> pgres" where
  "pgFreeTuplePointers res =
     (case tuples res of
        None \<Rightarrow> res
      | Some _ \<Rightarrow> res\<lparr>m_tuplesAllocatedByCscRead := False, tuples := None, ntups := 0\<rparr>)"

definition clear_old_rows :: "pgres \<Rightarrow> pgres" where
  "clear_old_rows res = (if tuples res \<noteq> None \<and> 0 < ntups res then pgFreeTuplePointers res else res)"

subsection \<open>Reading forward until the threshold\<close>

text \<open>
  The loop of \<^verbatim>\<open>readNextBatchOfRowsUntilThresholdCsc\<close>. \<open>acc\<close> are the rows stored so far
  (\<open>rowCount\<close> many) and \<open>cap\<close> is the number of slots of the array that
  \<^verbatim>\<open>rs_calloc\<close> and \<^verbatim>\<open>rs_realloc\<close> gave it.
\<close>

definition at_last_row :: "csc \<Rightarrow> bool" where
  "at_last_row c \<longleftrightarrow> \<not> doesItForwardOnlyCursor (m_resultsettype c) \<and>
     m_totalRows c \<le> m_lastRowNumberInMem c \<and> isFullResultReadFromServerCsc c"

definition batch_pending :: "csc \<Rightarrow> bool" where
  "batch_pending c \<longleftrightarrow> m_totalCommitedRows c - m_lastRowNumberInMem c < BATCH_SIZE_TO_PROCESS"

definition grow_tuples :: "nat \<Rightarrow> nat \<Rightarrow> nat" where
  "grow_tuples cap rowCount =
     (if (int rowCount + 1) mod BATCH_SIZE_TO_PROCESS = 0
      then rowCount + nat BATCH_SIZE_TO_PROCESS else cap)"

definition first_len :: "row option \<Rightarrow> int" where
  "first_len t = (case t of None \<Rightarrow> 0 | Some r \<Rightarrow> att_len (hd r))"

partial_function (option) until_threshold ::
  "world \<Rightarrow> csc \<Rightarrow> pgres \<Rightarrow> bool \<Rightarrow> bool \<Rightarrow> row option list \<Rightarrow> nat \<Rightarrow>
   (csc \<times> pgres \<times> row option list \<times> nat) option" where
  "until_threshold w c res waitForWriteCommit reachedThreshold acc cap =
     (if reachedThreshold then Some (c, res, acc, cap)
      else if at_last_row c then Some (c, res, acc, cap)
      else Option.bind
        (if waitForWriteCommit \<and> int (length acc) mod BATCH_SIZE_TO_PROCESS = 0 \<and> batch_pending c
         then wait_batches batch_pending c else Some (c, waitForWriteCommit))
        (\<lambda>(c1, waitc).
          if at_last_row c1 then Some (c1, res, acc, cap)
          else
            (case (if m_ioe c1 = 0
                   then (case readRowCsc w c1 of (t, e, eof, c2) \<Rightarrow>
                          (t, c2\<lparr>m_ioe := e, m_endOfInputStream := eof\<rparr>))
                   else (None, c1)) of (tuple, c2) \<Rightarrow>
              if m_endOfInputStream c2 \<or> m_ioe c2 \<noteq> 0 then Some (c2, res, acc, cap)
              else (case checkForThresholdLimitReachCsc c2 (first_len tuple) (m_rawRowLengthFromFile c2) False of
                     (reached, c3) \<Rightarrow>
                       until_threshold w c3 (clear_old_rows res) waitc reached (acc @ [tuple])
                         (grow_tuples cap (length acc))))))"

text \<open>The array returned (\<^verbatim>\<open>NULL\<close> is \<open>None\<close>); \<^verbatim>\<open>*pntups\<close> is its number of rows.\<close>

type_synonym batch_result = "row option list option \<times> csc \<times> pgres"

definition readNextBatchOfRowsUntilThresholdCsc ::
  "world \<Rightarrow> csc \<Rightarrow> pgres \<Rightarrow> bool \<Rightarrow> batch_result option" where
  "readNextBatchOfRowsUntilThresholdCsc w c res waitForWriteCommit =
     (if m_fileCreated c then
        (if \<not> m_endOfInputStream c then
           (if m_cscInputStream c \<noteq> None then
              map_option (\<lambda>(c1, res1, acc, cap). (Some acc, c1, res1))
                (until_threshold w (c\<lparr>m_inMemoryResultSizeFromFile := 0\<rparr>) res waitForWriteCommit False []
                   (nat BATCH_SIZE_TO_PROCESS))
            else Some (None, c\<lparr>m_endOfInputStream := True\<rparr>, res))
         else Some (None, c, res))
      else Some (None, c, res))"

definition checkAndOpenInputStreamCsc :: "world \<Rightarrow> csc \<Rightarrow> bool \<Rightarrow> int \<times> csc" where
  "checkAndOpenInputStreamCsc w c seekForNext =
     (case m_cscInputStream c of
        Some _ \<Rightarrow> (0, c)
      | None \<Rightarrow>
          (case createCscInputStream w (m_fileName c) (m_resultsettype c) of (s, rc) \<Rightarrow>
            (if \<not> doesItForwardOnlyCursor (m_resultsettype c) then
               (if rc = 0 \<and> 0 < m_firstReadFromFileOffset c then
                  (case (if seekForNext
                         then (case seekCscInputStream (the s) (m_firstReadFromFileOffset c) of (r, s1) \<Rightarrow> (r, Some s1))
                         else (rc, s)) of (rc1, s1) \<Rightarrow>
                    (rc1, c\<lparr>m_cscInputStream := s1, m_firstReadFromFileOffset := 0\<rparr>))
                else (rc, c\<lparr>m_cscInputStream := s\<rparr>))
             else (rc, c\<lparr>m_cscInputStream := s\<rparr>))))"

definition readNextBatchOfRowsCsc :: "world \<Rightarrow> csc \<Rightarrow> pgres \<Rightarrow> batch_result option" where
  "readNextBatchOfRowsCsc w c res =
     (if m_fileCreated c then
        (if \<not> m_endOfInputStream c then
           (case checkAndOpenInputStreamCsc w c True of (rc, c0) \<Rightarrow>
             (let c1 = c0\<lparr>m_ioe := rc\<rparr> in
              if m_ioe c1 = 0 then
                (if m_cscInputStream c1 \<noteq> None then
                   (let last0 = m_lastRowNumberInMem c1;
                        behind = (m_lastRowNumberInMem c1 < m_totalRows c1);
                        c2 = (if behind then c1\<lparr>m_firstRowNumberInMem := m_lastRowNumberInMem c1 + 1\<rparr> else c1);
                        last1 = (if behind then 0 else last0)
                    in map_option (\<lambda>(ts, c3, res1).
                         (ts, if last1 \<noteq> 0 \<and> ts \<noteq> None \<and> the ts \<noteq> []
                              then c3\<lparr>m_firstRowNumberInMem := last1 + 1\<rparr> else c3, res1))
                         (readNextBatchOfRowsUntilThresholdCsc w c2 res True))
                 else Some (None, c1\<lparr>m_endOfInputStream := True\<rparr>, res))
              else Some (None, c1, res)))
         else Some (None, c, res))
      else Some (None, c, res))"

text \<open>
  The wrappers \<^verbatim>\<open>pgRead...BatchOfRowsCsc\<close> put a non-empty batch into the result and hand
  out the cursor's error code, which they reset. The first component is the return code.
\<close>

definition put_batch :: "batch_result \<Rightarrow> bool \<times> int \<times> csc \<times> pgres" where
  "put_batch b =
     (case b of (ts, c, res) \<Rightarrow>
       (let got = (ts \<noteq> None \<and> the ts \<noteq> []);
            res1 = (if got then res\<lparr>ntups := int (length (the ts)), tuples := ts,
                                    m_tuplesAllocatedByCscRead := True\<rparr> else res)
        in (got, m_ioe c, c\<lparr>m_ioe := 0\<rparr>, res1)))"

definition pgReadNextBatchOfRowsCsc :: "world \<Rightarrow> csc \<Rightarrow> pgres \<Rightarrow> (bool \<times> int \<times> csc \<times> pgres) option" where
  "pgReadNextBatchOfRowsCsc w c res = map_option put_batch (readNextBatchOfRowsCsc w c res)"

end
