(* ===== verification/Csc_Scroll.thy ===== *)
theory Csc_Scroll
  imports Csc_Result
begin

text \<open>
  The scrollable half of the client-side cursor (\<^verbatim>\<open>ClientSideCursorResult.c\<close>): finding
  a row through the offset file, the batch before, the first, the last and an absolute batch, the
  position predicates, and the wrappers on \<^verbatim>\<open>PGresult\<close>. Row numbers start at 1.
\<close>

subsection \<open>The offset file\<close>

text \<open>
  \<^verbatim>\<open>long long offset = (rowNumber - 1) * 8\<close> multiplies two \<^verbatim>\<open>int\<close>s: the product is
  taken at 32 bits. At the end of the offset file \<^verbatim>\<open>readLongLongCscInputStream\<close> yields 0
  without an error, which the code does not tell from the offset of the first row.
\<close>

definition readDataFileOffsetCsc :: "world \<Rightarrow> csc \<Rightarrow> int \<Rightarrow> int \<times> csc" where
  "readDataFileOffsetCsc w c rowNumber =
     (if \<not> doesItForwardOnlyCursor (m_resultsettype c) then
        (if 0 < rowNumber then
           (let (c1, opened) =
              (case m_cscOffsetInputStream c of
                 None \<Rightarrow>
                   (case createCscInputStream w (m_offsetFileName c) (m_resultsettype c) of (s, e) \<Rightarrow>
                     (c\<lparr>m_cscOffsetInputStream := s, m_ioe := e\<rparr>, True))
               | Some _ \<Rightarrow> (c, False)) in
            if opened \<and> m_cscOffsetInputStream c1 \<noteq> None \<and> m_ioe c1 \<noteq> 0 then (-1, c1)
            else case m_cscOffsetInputStream c1 of
              Some s \<Rightarrow>
                (let offset = i32 ((rowNumber - 1) * 8) in
                 case seekCscInputStream s offset of (e1, s1) \<Rightarrow>
                 case readLongLongCscInputStream w s1 of (dataOffset, s2) \<Rightarrow>
                 case getIOErrorCsc (is_error s2) of (e2, e') \<Rightarrow>
                   (if e2 \<noteq> 0 then -1 else dataOffset,
                    c1\<lparr>m_cscOffsetInputStream := Some (s2\<lparr>is_error := e'\<rparr>), m_ioe := e2\<rparr>))
            | None \<Rightarrow> (-1, c1))
         else (-1, c))
      else (-1, c))"

subsection \<open>A batch from a given offset\<close>

fun read_rows :: "world \<Rightarrow> csc \<Rightarrow> pgres \<Rightarrow> nat \<Rightarrow> row option list \<Rightarrow> csc \<times> pgres \<times> row option list" where
  "read_rows w c res 0 acc = (c, res, acc)"
| "read_rows w c res (Suc n) acc =
     (if m_totalRows c \<le> m_lastRowNumberInMem c then (c, res, acc)
      else
        (case (if m_ioe c = 0
               then (case readRowCsc w c of (t, e, eof, c1) \<Rightarrow>
                      (t, c1\<lparr>m_ioe := e, m_endOfInputStream := eof\<rparr>))
               else (None, c)) of (tuple, c1) \<Rightarrow>
          if m_endOfInputStream c1 \<or> m_ioe c1 \<noteq> 0 \<or> tuple = None then (c1, res, acc)
          else read_rows w c1 (clear_old_rows res) n (acc @ [tuple])))"

definition readNextBatchOfRowsFromOffsetCsc ::
  "world \<Rightarrow> csc \<Rightarrow> int \<Rightarrow> int \<Rightarrow> nat \<Rightarrow> pgres \<Rightarrow> batch_result" where
  "readNextBatchOfRowsFromOffsetCsc w c startRowOffset startRowNumber rows res =
     (if \<not> doesItForwardOnlyCursor (m_resultsettype c) then
        (if m_fileCreated c then
           (if \<not> m_endOfInputStream c then
              (case m_cscInputStream c of
                 Some s \<Rightarrow>
                   (case seekCscInputStream s startRowOffset of (e, s1) \<Rightarrow>
                    case read_rows w
                           (c\<lparr>m_cscInputStream := Some s1, m_ioe := e,
                              m_firstRowNumberInMem := startRowNumber,
                              m_lastRowNumberInMem := startRowNumber - 1\<rparr>) res rows [] of
                      (c1, res1, acc) \<Rightarrow> (Some acc, c1, res1))
               | None \<Rightarrow> (None, c\<lparr>m_endOfInputStream := True\<rparr>, res))
            else (None, c, res))
         else (None, c, res))
      else (None, c, res))"

text \<open>
  The backward loop of \<^verbatim>\<open>readPreviousBatchOfRowsFromRowNumberCsc\<close>: from row
  \<open>rowNumber\<close> with offset \<open>cur\<close> it moves to lower rows while they fit. The result is the
  cursor, the final row number, the start offset and the number of rows.
\<close>

function prev_loop :: "world \<Rightarrow> csc \<Rightarrow> int \<Rightarrow> int \<Rightarrow> int \<Rightarrow> nat \<Rightarrow> csc \<times> int \<times> int \<times> nat" where
  "prev_loop w c rowNumber cur start rows =
     (if cur < 0 then (c, rowNumber, start, rows)
      else if rowNumber - 1 \<le> 1 then (c, rowNumber, cur, Suc rows)
      else case readDataFileOffsetCsc w c (rowNumber - 1) of (cur1, c1) \<Rightarrow>
        (case (if cur1 \<noteq> -1 then checkForThresholdLimitReachCsc c1 (m_cols c1) (cur - cur1) False
               else (False, c1)) of (reach, c2) \<Rightarrow>
          if cur1 < 0 \<or> reach then (c2, rowNumber, cur, Suc rows)
          else prev_loop w c2 (rowNumber - 1) cur1 cur (Suc rows)))"
  by pat_completeness auto
termination
  by (relation "measure (\<lambda>(w, c, rowNumber, cur, start, rows). nat rowNumber)") auto

declare prev_loop.simps [simp del]

definition readPreviousBatchOfRowsFromRowNumberCsc ::
  "world \<Rightarrow> csc \<Rightarrow> int \<Rightarrow> pgres \<Rightarrow> batch_result" where
  "readPreviousBatchOfRowsFromRowNumberCsc w c rowNumber res =
     (if 0 < rowNumber then
        (case readDataFileOffsetCsc w c rowNumber of (cur, c1) \<Rightarrow>
          (if m_ioe c1 \<noteq> 0 then (None, c1, res)
           else case prev_loop w (c1\<lparr>m_inMemoryResultSizeFromFile := 0\<rparr>) rowNumber cur cur 0 of
                  (c2, rowNumber', start, rows) \<Rightarrow>
             (if m_ioe c2 \<noteq> 0 then (None, c2, res)
              else readNextBatchOfRowsFromOffsetCsc w c2 start rowNumber' rows res)))
      else (None, c, res))"

definition readPreviousBatchOfRowsCsc :: "world \<Rightarrow> csc \<Rightarrow> pgres \<Rightarrow> batch_result" where
  "readPreviousBatchOfRowsCsc w c res =
     (if m_fileCreated c then
        (if \<not> doesItForwardOnlyCursor (m_resultsettype c) then
           (if 1 < m_firstRowNumberInMem c
            then readPreviousBatchOfRowsFromRowNumberCsc w c (m_firstRowNumberInMem c - 1) res
            else (None, c, res))
         else (None, c, res))
      else (None, c, res))"

definition readLastBatchOfRowsCsc :: "world \<Rightarrow> csc \<Rightarrow> pgres \<Rightarrow> batch_result option" where
  "readLastBatchOfRowsCsc w c res =
     (if m_fileCreated c then
        map_option (\<lambda>c0.
          if \<not> doesItForwardOnlyCursor (m_resultsettype c0) then
            (if m_lastRowNumberInMem c0 < m_totalRows c0 then
               (case checkAndOpenInputStreamCsc w c0 False of (rc, c1) \<Rightarrow>
                 (let c2 = c1\<lparr>m_ioe := rc\<rparr> in
                  if m_ioe c2 = 0
                  then readPreviousBatchOfRowsFromRowNumberCsc w c2 (m_totalRows c0) res
                  else (None, c2, res)))
             else (None, c0, res))
          else (None, c0, res)) (waitForFullResultReadFromServerCsc c)
      else Some (None, c, res))"

definition readFirstBatchOfRowsCsc :: "world \<Rightarrow> csc \<Rightarrow> pgres \<Rightarrow> batch_result option" where
  "readFirstBatchOfRowsCsc w c res =
     (if m_fileCreated c then
        (if \<not> doesItForwardOnlyCursor (m_resultsettype c) then
           (if 1 < m_firstRowNumberInMem c then
              (case checkAndOpenInputStreamCsc w c False of (rc, c0) \<Rightarrow>
                (let c1 = c0\<lparr>m_ioe := rc\<rparr> in
                 if m_ioe c1 = 0 then
                   (case seekCscInputStream (the (m_cscInputStream c1)) 0 of (e, s) \<Rightarrow>
                     readNextBatchOfRowsUntilThresholdCsc w
                       (c1\<lparr>m_cscInputStream := Some s, m_ioe := e, m_firstRowNumberInMem := 1,
                           m_lastRowNumberInMem := 0\<rparr>) res False)
                 else Some (None, c1, res)))
            else Some (None, c, res))
         else Some (None, c, res))
      else Some (None, c, res))"

text \<open>\<open>indexBuf\<close> is \<^verbatim>\<open>*indexBuf\<close>; its new value is the last component.\<close>

definition readAbsoluteBatchOfRowsCsc ::
  "world \<Rightarrow> csc \<Rightarrow> pgres \<Rightarrow> int option \<Rightarrow> (batch_result \<times> int option) option" where
  "readAbsoluteBatchOfRowsCsc w c res indexBuf =
     (case indexBuf of
        None \<Rightarrow> Some ((None, c, res), None)
      | Some index \<Rightarrow>
          (if m_fileCreated c then
             (if \<not> doesItForwardOnlyCursor (m_resultsettype c) then
                do {
                  (c1, waitc, rowNumber) \<leftarrow>
                    (if index < 0 then
                       map_option (\<lambda>c0. (c0, False, m_totalRows c0 + index + 1))
                         (waitForFullResultReadFromServerCsc c)
                     else if 0 < index \<and> m_totalCommitedRows c < index then
                       map_option (\<lambda>(c0, wc). (c0, wc, index))
                         (wait_batches (\<lambda>c'. m_totalCommitedRows c' < index) c)
                     else Some (c, True, index));
                  if 0 < rowNumber \<and> rowNumber \<le> m_totalRows c1 then
                    map_option (\<lambda>((ts, c2, res2), seek_failed). ((ts, c2, res2),
                        Some (if seek_failed then index else rowNumber - m_firstRowNumberInMem c2 + 1)))
                      (if rowNumber < m_firstRowNumberInMem c1 \<or> m_lastRowNumberInMem c1 < rowNumber then
                         (case checkAndOpenInputStreamCsc w c1 False of (rc, c2) \<Rightarrow>
                           (let c3 = c2\<lparr>m_ioe := rc\<rparr> in
                            if m_ioe c3 = 0 then
                              (case readDataFileOffsetCsc w c3 rowNumber of (rowOffset, c4) \<Rightarrow>
                                if rowOffset \<noteq> -1 then
                                  (case seekCscInputStream (the (m_cscInputStream c4)) rowOffset of (e, s) \<Rightarrow>
                                    (let c5 = c4\<lparr>m_cscInputStream := Some s, m_ioe := e,
                                               m_firstRowNumberInMem := rowNumber,
                                               m_lastRowNumberInMem := rowNumber - 1\<rparr>
                                     in if m_ioe c5 \<noteq> 0 then Some ((None, c5, res), True)
                                        else map_option (\<lambda>b. (b, False))
                                               (readNextBatchOfRowsUntilThresholdCsc w c5 res waitc)))
                                else Some ((None, c4, res), False))
                            else Some ((None, c3, res), False)))
                       else Some ((None, c1, res), False))
                  else Some ((None, c1, res), Some index)
                }
              else Some ((None, c, res), Some index))
           else Some ((None, c, res), Some index)))"

subsection \<open>Where the cursor is\<close>

definition isLastBatchCsc :: "csc \<Rightarrow> (bool \<times> csc) option" where
  "isLastBatchCsc c =
     (if m_fileCreated c then
        map_option (\<lambda>c1.
          (if m_ioe c1 \<noteq> 0 then False
           else m_cscInputStream c1 \<noteq> None \<and> m_totalRows c1 \<le> m_lastRowNumberInMem c1, c1))
          (waitForFullResultReadFromServerCsc c)
      else Some (True, c))"

definition isFirstBatchCsc :: "csc \<Rightarrow> bool" where
  "isFirstBatchCsc c = (if m_fileCreated c then m_firstRowNumberInMem c \<le> 1 else True)"

definition pgReadPreviousBatchOfRowsCsc :: "world \<Rightarrow> csc \<Rightarrow> pgres \<Rightarrow> bool \<times> int \<times> csc \<times> pgres" where
  "pgReadPreviousBatchOfRowsCsc w c res = put_batch (readPreviousBatchOfRowsCsc w c res)"

definition pgReadLastBatchOfRowsCsc :: "world \<Rightarrow> csc \<Rightarrow> pgres \<Rightarrow> (bool \<times> int \<times> csc \<times> pgres) option" where
  "pgReadLastBatchOfRowsCsc w c res = map_option put_batch (readLastBatchOfRowsCsc w c res)"

definition pgReadFirstBatchOfRowsCsc :: "world \<Rightarrow> csc \<Rightarrow> pgres \<Rightarrow> (bool \<times> int \<times> csc \<times> pgres) option" where
  "pgReadFirstBatchOfRowsCsc w c res = map_option put_batch (readFirstBatchOfRowsCsc w c res)"

definition pgReadAbsoluteBatchOfRowsCsc ::
  "world \<Rightarrow> csc \<Rightarrow> pgres \<Rightarrow> int option \<Rightarrow> (bool \<times> int \<times> csc \<times> pgres \<times> int option) option" where
  "pgReadAbsoluteBatchOfRowsCsc w c res indexBuf =
     map_option (\<lambda>(b, i). case put_batch b of (got, e, c1, res1) \<Rightarrow> (got, e, c1, res1, i))
       (readAbsoluteBatchOfRowsCsc w c res indexBuf)"

text \<open>The queries on a \<^verbatim>\<open>PGresult\<close> that may have no cursor.\<close>

definition pgIsLastBatchCsc :: "csc option option \<Rightarrow> (bool \<times> csc option option) option" where
  "pgIsLastBatchCsc r =
     (case r of Some (Some c) \<Rightarrow> map_option (\<lambda>(b, c1). (b, Some (Some c1))) (isLastBatchCsc c)
              | _ \<Rightarrow> Some (True, r))"

definition pgIsFirstBatchCsc :: "csc option option \<Rightarrow> bool" where
  "pgIsFirstBatchCsc r = (case r of Some (Some c) \<Rightarrow> isFirstBatchCsc c | _ \<Rightarrow> True)"

definition pgGetFirstRowIndexCsc :: "csc option \<Rightarrow> int" where
  "pgGetFirstRowIndexCsc r = (case r of Some c \<Rightarrow> getFirstRowIndexCsc c | None \<Rightarrow> 0)"

definition pgIsFileCreatedCsc :: "csc option option \<Rightarrow> bool" where
  "pgIsFileCreatedCsc r = (case r of Some (Some c) \<Rightarrow> m_fileCreated c | _ \<Rightarrow> False)"

definition pgGetExecuteNumberCsc :: "csc option option \<Rightarrow> int" where
  "pgGetExecuteNumberCsc r = (case r of Some (Some c) \<Rightarrow> m_executeIndex c + 1 | _ \<Rightarrow> 0)"

end
