(* ===== verification/Csc_Spec.thy ===== *)
theory Csc_Spec
  imports Csc_Scroll
begin

text \<open>
  What the client-side cursor promises. The abstract result is a list of rows; the data file is
  its image under \<open>row_bytes\<close>, the offset file the list of the rows' positions. The lemmas show
  that the writers produce these images and that every batch operation hands out a contiguous,
  non-empty segment of the list at the right place, with the window kept in
  \<^verbatim>\<open>m_firstRowNumberInMem\<close> and \<^verbatim>\<open>m_lastRowNumberInMem\<close>.
\<close>

subsection \<open>The file format\<close>

definition norm_att :: "attvalue \<Rightarrow> attvalue" where
  "norm_att a = (case att_value a of None \<Rightarrow> \<lparr>att_len = -1, att_value = None\<rparr>
     | Some v \<Rightarrow> \<lparr>att_len = int (length v), att_value = Some v\<rparr>)"

definition att_wf :: "attvalue \<Rightarrow> bool" where
  "att_wf a \<longleftrightarrow> (case att_value a of None \<Rightarrow> True
     | Some v \<Rightarrow> att_len a = int (length v) \<and> length v < 2 ^ 31)"

definition att_data :: "attvalue \<Rightarrow> byte list" where
  "att_data a = (case att_value a of None \<Rightarrow> [] | Some v \<Rightarrow> v)"

definition att_bytes :: "attvalue \<Rightarrow> byte list" where
  "att_bytes a = le_bytes 4 (att_len (norm_att a)) @ att_data a"

definition row_wf :: "row \<Rightarrow> bool" where
  "row_wf r \<longleftrightarrow> r \<noteq> [] \<and> length r < 2 ^ 15 \<and> (\<forall>a \<in> set r. att_wf a)"

definition norm_row :: "row \<Rightarrow> row" where
  "norm_row r = map norm_att r"

definition row_bytes :: "row \<Rightarrow> byte list" where
  "row_bytes r = le_bytes 2 (int (length r)) @ concat (map att_bytes r)"

definition raw_len :: "row \<Rightarrow> int" where
  "raw_len r = (\<Sum>a\<leftarrow>r. int (length (att_data a)))"

lemma norm_att_wf: "att_wf a \<Longrightarrow> norm_att a = a \<or> att_value a = None"
  by (cases a) (auto simp: norm_att_def att_wf_def split: option.splits)

lemma length_row_bytes: "2 \<le> length (row_bytes r)"
  by (simp add: row_bytes_def)

lemma row_bytes_not_Nil [simp]: "row_bytes r \<noteq> []"
  using length_row_bytes [of r] by (cases "row_bytes r") auto

subsection \<open>Writing a row\<close>

lemma wrote_stream:
  "wrote w s bs w' s' \<Longrightarrow> m_dataOutputStream s = Some f \<Longrightarrow>
   \<exists>f'. m_dataOutputStream s' = Some f' \<and> of_ok w' f' \<and> of_path f' = of_path f \<and>
     logical w' f' = logical w f @ bs \<and> spare w' f' = spare w f - int (length bs) \<and> same_env (of_path f) w w'"
  by (auto simp: wrote_def)

lemma write_cols_ok:
  assumes "m_dataOutputStream os = Some f" and "of_ok w f"
    and "int (length (concat (map att_bytes as))) \<le> spare w f" and "\<forall>a \<in> set as. att_wf a"
  shows "\<exists>w' os'. write_cols w os ioe as = ((if as = [] then ioe else 0), w', os') \<and>
    wrote w os (concat (map att_bytes as)) w' os'"
  using assms
proof (induction as arbitrary: w os f ioe)
  case Nil
  then show ?case by (simp add: wrote_nil)
next
  case (Cons a as)
  let ?v = "case att_value a of Some _ \<Rightarrow> att_len a | None \<Rightarrow> -1"
  have v: "?v = att_len (norm_att a)"
    using Cons.prems(4) by (auto simp: norm_att_def att_wf_def split: option.splits)
  have spare: "int (4 + length (att_data a)) + int (length (concat (map att_bytes as))) \<le> spare w f"
    using Cons.prems(3) by (simp add: att_bytes_def [of a])
  obtain w1 os1 where 1: "writeIntCscOutputStream w os ?v = (0, w1, os1)" "wrote w os (le_bytes 4 ?v) w1 os1"
    using c_int.put_wrote [OF Cons.prems(1,2)] spare by (fastforce simp: writeIntCscOutputStream_def)
  obtain f1 where f1: "m_dataOutputStream os1 = Some f1" "of_ok w1 f1" "spare w1 f1 = spare w f - 4"
    using wrote_stream [OF 1(2) Cons.prems(1)] by auto
  obtain w2 os2 where 2: "(if 0 < ?v then writeCscOutputStream w1 os1 (the (att_value a)) 0 (nat ?v)
       else (0, w1, os1)) = (0, w2, os2)" "wrote w1 os1 (att_data a) w2 os2"
  proof (cases "att_data a = []")
    case True
    then have "\<not> 0 < ?v"
      using Cons.prems(4) by (auto simp: att_data_def att_wf_def split: option.splits)
    with True show ?thesis using that wrote_nil [OF f1(1,2)] by simp
  next
    case False
    then obtain d where d: "att_value a = Some d" "d \<noteq> []"
      by (auto simp: att_data_def split: option.splits)
    then have len: "att_len a = int (length d)"
      using Cons.prems(4) by (simp add: att_wf_def)
    have "int (length d) \<le> spare w1 f1" using spare f1(3) d by (simp add: att_data_def)
    then show ?thesis
      using writeCsc_wrote [OF f1(1,2) _ d(2)] d len that by (auto simp: att_data_def)
  qed
  obtain f2 where f2: "m_dataOutputStream os2 = Some f2" "of_ok w2 f2"
    "spare w2 f2 = spare w1 f1 - int (length (att_data a))"
    using wrote_stream [OF 2(2) f1(1)] by auto
  have "int (length (concat (map att_bytes as))) \<le> spare w2 f2" using spare f1(3) f2(3) by simp
  from Cons.IH [OF f2(1,2) this, of 0] obtain w3 os3 where
    3: "write_cols w2 os2 0 as = (0, w3, os3)" "wrote w2 os2 (concat (map att_bytes as)) w3 os3"
    using Cons.prems(4) by auto
  have run: "write_cols w os ioe (a # as) = (0, w3, os3)"
    using 1(1) 2(1) 3(1) by (cases "0 < ?v") (simp_all add: Let_def)
  have "wrote w os (le_bytes 4 ?v @ att_data a @ concat (map att_bytes as)) w3 os3"
    by (rule wrote_trans [OF 1(2) wrote_trans [OF 2(2) 3(2)]])
  with run v show ?case by (simp add: att_bytes_def [of a])
qed

subsection \<open>Reading a row back\<close>

lemma upcoming_after:
  "rd_ok w s \<Longrightarrow> upcoming w s = xs @ ys \<Longrightarrow>
   rd_ok w (advance (length xs) s) \<and> upcoming w (advance (length xs) s) = ys"
  by (simp add: rd_ok_advance upcoming_advance)

lemma read_cols_ok:
  assumes "rd_ok w s" and "upcoming w s = concat (map att_bytes as) @ rest" and "\<forall>a \<in> set as. att_wf a"
  shows "read_cols w (length as) s raw acc =
    (Some (acc @ map norm_att as), advance (length (concat (map att_bytes as))) s, raw + raw_len as)"
  using assms
proof (induction as arbitrary: s raw acc)
  case Nil
  then show ?case by (cases s) (auto simp: raw_len_def advance_def rd_ok_def)
next
  case (Cons a as)
  let ?v = "att_len (norm_att a)"
  have rep: "rep_int ?v"
    using Cons.prems(3) by (auto simp: norm_att_def att_wf_def rep_int_def split: option.splits)
  have up: "upcoming w s = le_bytes 4 ?v @ att_data a @ concat (map att_bytes as) @ rest"
    using Cons.prems(2) by (simp add: att_bytes_def [of a])
  have int: "readIntCscInputStream w s = (?v, advance 4 s)"
    using c_int.get_upcoming [OF rep Cons.prems(1) up] by (simp add: readIntCscInputStream_def)
  have s1: "rd_ok w (advance 4 s)"
    "upcoming w (advance 4 s) = att_data a @ concat (map att_bytes as) @ rest"
    using upcoming_after [OF Cons.prems(1) up] by simp_all
  let ?s2 = "advance (4 + length (att_data a)) s"
  have s2: "rd_ok w ?s2" "upcoming w ?s2 = concat (map att_bytes as) @ rest"
    using upcoming_after [OF s1] by (simp_all add: add.commute)
  have rec: "read_cols w (length as) ?s2 raw' acc' =
      (Some (acc' @ map norm_att as), advance (length (concat (map att_bytes as))) ?s2, raw' + raw_len as)"
    for raw' acc'
    using Cons.IH [OF s2] Cons.prems(3) by simp
  have len: "length (att_bytes a) = 4 + length (att_data a)" by (simp add: att_bytes_def [of a])
  show ?case
  proof (cases "att_value a")
    case None
    then have "att_data a = []" "norm_att a = \<lparr>att_len = -1, att_value = None\<rparr>"
      by (simp_all add: att_data_def norm_att_def)
    with int rec len show ?thesis by (simp add: raw_len_def add.commute add.left_commute)
  next
    case (Some d)
    then have d: "att_data a = d" "norm_att a = \<lparr>att_len = int (length d), att_value = Some d\<rparr>"
      by (simp_all add: att_data_def norm_att_def)
    show ?thesis
    proof (cases "d = []")
      case True
      with d int rec len show ?thesis by (simp add: raw_len_def add.commute add.left_commute)
    next
      case False
      have "readCscInputStream w (advance 4 s) (length d) = (int (length d), d, ?s2)"
        using readCsc_data [OF s1(1) s1(2) [unfolded d(1)] False] d(1) by (simp add: add.commute)
      with d int rec len False show ?thesis by (simp add: raw_len_def add.commute add.left_commute)
    qed
  qed
qed

text \<open>The cursor after one row was read.\<close>

definition after_row :: "csc \<Rightarrow> row \<Rightarrow> csc" where
  "after_row c r = c\<lparr>m_cscInputStream := map_option (advance (length (row_bytes r))) (m_cscInputStream c),
     m_rawRowLengthFromFile := raw_len r, m_lastRowNumberInMem := m_lastRowNumberInMem c + 1\<rparr>"

lemma readRow_ok:
  assumes "m_cscInputStream c = Some s" and ok: "rd_ok w s"
    and up: "upcoming w s = row_bytes r @ rest" and wf: "row_wf r"
  shows "readRowCsc w c = (Some (norm_row r), 0, False, after_row c r)"
proof -
  have rep: "rep_short (int (length r))" using wf by (simp add: row_wf_def rep_short_def)
  have up1: "upcoming w s = le_bytes 2 (int (length r)) @ concat (map att_bytes r) @ rest"
    using up by (simp add: row_bytes_def)
  have s1: "rd_ok w (advance 2 s)" "upcoming w (advance 2 s) = concat (map att_bytes r) @ rest"
    using upcoming_after [OF ok up1] by simp_all
  have short: "readShortCscInputStreamForNumberOfCols w s = (int (length r), advance 2 s)"
    using c_short.get_upcoming [OF rep ok up1] feofCsc_ok [OF s1(1)]
    by (simp add: readShortCscInputStreamForNumberOfCols_def)
  have cols: "read_cols w (length r) (advance 2 s) 0 [] =
      (Some (norm_row r), advance (length (concat (map att_bytes r))) (advance 2 s), raw_len r)"
    using read_cols_ok [OF s1] wf by (simp add: row_wf_def norm_row_def)
  have err: "is_error s = 0" using ok by (simp add: rd_ok_def)
  have upd: "(advance n s)\<lparr>is_error := 0\<rparr> = advance n s" for n
    using err by (cases s) (simp add: advance_def)
  show ?thesis
    using assms(1) wf short cols feofCsc_ok [OF ok] err
    by (simp add: readRowCsc_def Let_def row_wf_def after_row_def row_bytes_def getIOErrorCsc_def
        resetIOErrorCsc_def upd add.commute)
qed

subsection \<open>The data file as a list of rows\<close>

definition data_image :: "row list \<Rightarrow> byte list" where
  "data_image rs = concat (map row_bytes rs)"

definition row_offset :: "row list \<Rightarrow> nat \<Rightarrow> nat" where
  "row_offset rs k = length (data_image (take k rs))"

definition offs_image :: "row list \<Rightarrow> byte list" where
  "offs_image rs = concat (map (\<lambda>k. le_bytes 8 (int (row_offset rs k))) [0..<length rs])"

lemma data_image_simps [simp]:
  "data_image [] = []" "data_image (r # rs) = row_bytes r @ data_image rs"
  "data_image (rs @ qs) = data_image rs @ data_image qs"
  by (simp_all add: data_image_def)

lemma drop_row_offset: "drop (row_offset rs k) (data_image rs) = data_image (drop k rs)"
proof -
  have "data_image rs = data_image (take k rs) @ data_image (drop k rs)"
    by (metis append_take_drop_id data_image_simps(3))
  then show ?thesis by (simp add: row_offset_def)
qed

lemma row_offset_le: "row_offset rs k \<le> length (data_image rs)"
proof -
  have "data_image rs = data_image (take k rs) @ data_image (drop k rs)"
    by (metis append_take_drop_id data_image_simps(3))
  then show ?thesis by (simp add: row_offset_def)
qed

lemma row_offset_length: "row_offset rs (length rs) = length (data_image rs)"
  by (simp add: row_offset_def)

lemma row_offset_append: "k \<le> length rs \<Longrightarrow> row_offset (rs @ qs) k = row_offset rs k"
  by (simp add: row_offset_def)

lemma row_offset_Suc:
  "k < length rs \<Longrightarrow> row_offset rs (Suc k) = row_offset rs k + length (row_bytes (rs ! k))"
  by (simp add: row_offset_def take_Suc_conv_app_nth)

lemma row_offset_mono_step: "k < length rs \<Longrightarrow> row_offset rs k < row_offset rs (Suc k)"
  using length_row_bytes [of "rs ! k"] by (simp add: row_offset_Suc)

lemma row_offset_inj: "j < k \<Longrightarrow> k \<le> length rs \<Longrightarrow> row_offset rs j < row_offset rs k"
proof (induction k)
  case (Suc k)
  then show ?case
    using row_offset_mono_step [of k rs] by (cases "j = k") auto
qed simp

lemma data_image_drop_nth:
  "k < length rs \<Longrightarrow> data_image (drop k rs) = row_bytes (rs ! k) @ data_image (drop (Suc k) rs)"
  by (simp add: Cons_nth_drop_Suc [symmetric])

lemma length_offs_image: "length (offs_image rs) = 8 * length rs"
  by (simp add: offs_image_def length_concat o_def sum_list_triv)

lemma offs_image_snoc:
  "offs_image (rs @ [r]) = offs_image rs @ le_bytes 8 (int (length (data_image rs)))"
proof -
  have "concat (map (\<lambda>k. le_bytes 8 (int (row_offset (rs @ [r]) k))) [0..<length rs]) =
        concat (map (\<lambda>k. le_bytes 8 (int (row_offset rs k))) [0..<length rs])"
    by (rule arg_cong [where f = concat], rule map_cong) (simp_all add: row_offset_append)
  moreover have "row_offset (rs @ [r]) (length rs) = length (data_image rs)"
    by (simp add: row_offset_append row_offset_length)
  ultimately show ?thesis
    unfolding offs_image_def by (simp only: length_append_singleton upt_Suc_append le0 map_append concat_append
        list.map concat.simps append_Nil2)
qed

lemma drop_offs_image:
  assumes "k < length rs"
  shows "\<exists>rest. drop (8 * k) (offs_image rs) = le_bytes 8 (int (row_offset rs k)) @ rest"
proof -
  let ?g = "\<lambda>k. le_bytes 8 (int (row_offset rs k))"
  have "[0..<length rs] = [0..<k] @ k # [Suc k..<length rs]"
    using assms upt_add_eq_append [of 0 k "length rs - k"] upt_conv_Cons [OF assms] by simp
  then have "offs_image rs = concat (map ?g [0..<k]) @ ?g k @ concat (map ?g [Suc k..<length rs])"
    by (simp add: offs_image_def)
  moreover have "length (concat (map ?g [0..<k])) = 8 * k"
    by (simp add: length_concat o_def sum_list_triv)
  ultimately show ?thesis by simp
qed

subsection \<open>A stream positioned at a row\<close>

definition rd_at :: "world \<Rightarrow> string \<Rightarrow> int \<Rightarrow> istream \<Rightarrow> row list \<Rightarrow> nat \<Rightarrow> bool" where
  "rd_at w p rst s rs k \<longleftrightarrow> rd_ok w s \<and> (\<exists>f. m_dataInputStream s = Some f \<and> if_path f = p) \<and>
     is_resultsettype s = rst \<and> upcoming w s = data_image (drop k rs)"

definition seg :: "row list \<Rightarrow> nat \<Rightarrow> nat \<Rightarrow> row option list" where
  "seg rs k j = map (\<lambda>r. Some (norm_row r)) (take j (drop k rs))"

lemma seg_Suc: "k < length rs \<Longrightarrow> seg rs k (Suc j) = Some (norm_row (rs ! k)) # seg rs (Suc k) j"
  by (simp add: seg_def Cons_nth_drop_Suc [symmetric])

lemma seg_0 [simp]: "seg rs k 0 = []"
  by (simp add: seg_def)

lemma length_seg: "k + j \<le> length rs \<Longrightarrow> length (seg rs k j) = j"
  by (simp add: seg_def)

lemma seg_empty_iff: "k + j \<le> length rs \<Longrightarrow> (seg rs k j = []) = (j = 0)"
  by (metis length_0_conv length_seg)

lemma rd_at_step:
  assumes "rd_at w p rst s rs k" and "k < length rs"
  shows "rd_at w p rst (advance (length (row_bytes (rs ! k))) s) rs (Suc k)"
  using assms upcoming_after [of w s "row_bytes (rs ! k)" "data_image (drop (Suc k) rs)"]
  by (auto simp: rd_at_def data_image_drop_nth advance_def)

lemma readRow_at:
  assumes "m_cscInputStream c = Some s" and "rd_at w p rst s rs k" and "k < length rs"
    and "\<forall>r \<in> set rs. row_wf r"
  shows "readRowCsc w c = (Some (norm_row (rs ! k)), 0, False, after_row c (rs ! k))"
  using assms by (intro readRow_ok [where rest = "data_image (drop (Suc k) rs)"])
    (auto simp: rd_at_def data_image_drop_nth)

text \<open>At the end of the data the row reader reports the end of the file and no error.\<close>

lemma readRow_at_end:
  assumes "m_cscInputStream c = Some s" and "rd_at w p rst s rs (length rs)"
  shows "\<exists>s'. readRowCsc w c = (None, 0, True, c\<lparr>m_rawRowLengthFromFile := 0, m_cscInputStream := Some s'\<rparr>)"
proof -
  have ok: "rd_ok w s" "upcoming w s = []" using assms(2) by (simp_all add: rd_at_def)
  obtain s1 where s1: "freadCsc w s 2 1 = (0, [], s1)" "is_eof s1" "is_error s1 = 0"
    using freadCsc_eof [OF ok, of 2 1] by auto
  have upd: "s1\<lparr>is_error := 0\<rparr> = s1" using s1(3) by (cases s1) simp
  have "readShortCscInputStreamForNumberOfCols w s = (0, s1)"
    using s1 by (simp add: readShortCscInputStreamForNumberOfCols_def is_get_def feofCscInputStream_def)
  moreover have "feofCscInputStream s1 = (True, s1)"
    using s1(2) by (simp add: feofCscInputStream_def)
  ultimately have "readRowCsc w c =
      (None, 0, True, c\<lparr>m_rawRowLengthFromFile := 0, m_cscInputStream := Some s1\<rparr>)"
    using assms(1) feofCsc_ok [OF ok(1)] s1(3) upd
    by (simp add: readRowCsc_def getIOErrorCsc_def resetIOErrorCsc_def)
  then show ?thesis by blast
qed

subsection \<open>The writer's invariant\<close>

text \<open>Stream \<open>s\<close> writes the file \<open>p\<close> and was given \<open>xs\<close>; \<open>pend\<close> bytes are still buffered.\<close>

definition os_at :: "world \<Rightarrow> ostream \<Rightarrow> string \<Rightarrow> byte list \<Rightarrow> int \<Rightarrow> bool" where
  "os_at w s p xs rst \<longleftrightarrow> (\<exists>f. m_dataOutputStream s = Some f \<and> of_ok w f \<and> of_path f = p \<and>
     logical w f = xs) \<and> os_resultsettype s = rst"

definition pend :: "ostream \<Rightarrow> int" where
  "pend s = (case m_dataOutputStream s of None \<Rightarrow> 0 | Some f \<Rightarrow> int (length (of_buf f)))"

definition left :: "world \<Rightarrow> ostream \<Rightarrow> int" where
  "left w s = int (w_room w) - pend s"

lemma wrote_os_at:
  assumes "wrote w s bs w' s'" and "os_at w s p xs rst"
  shows "os_at w' s' p (xs @ bs) rst" and "same_env p w w'" and "left w' s' = left w s - int (length bs)"
  using assms by (auto simp: wrote_def os_at_def left_def pend_def spare_def)

lemma os_at_other: "os_at w s p xs rst \<Longrightarrow> same_env q w w' \<Longrightarrow> q \<noteq> p \<Longrightarrow> os_at w' s p xs rst"
  by (auto simp: os_at_def same_env_def of_ok_def logical_def content_def)

lemma os_atD:
  "os_at w s p xs rst \<Longrightarrow> \<exists>f. m_dataOutputStream s = Some f \<and> of_ok w f \<and> of_path f = p \<and>
     logical w f = xs \<and> spare w f = left w s"
  by (auto simp: os_at_def left_def pend_def spare_def)

lemma os_at_getPosition:
  assumes "os_at w s p xs rst" and "0 \<le> left w s" and "\<not> doesItForwardOnlyCursor rst"
  shows "\<exists>w' s'. getPositionCscOutputStream w s = (int (length xs), w', s') \<and> os_at w' s' p xs rst \<and>
    same_env p w w' \<and> left w' s' = left w s \<and> pend s' = 0 \<and> content w' p = xs \<and> m_written s' = m_written s"
proof -
  obtain f where f: "m_dataOutputStream s = Some f" "of_ok w f" "of_path f = p" "logical w f = xs"
    "spare w f = left w s" using os_atD [OF assms(1)] by blast
  have rst: "os_resultsettype s = rst" using assms(1) by (simp add: os_at_def)
  obtain w' s' f' where 1: "getPositionCscOutputStream w s = (int (length (logical w f)), w', s')"
    "wrote w s [] w' s'" "m_dataOutputStream s' = Some f'" "of_buf f' = []" "m_written s' = m_written s"
    using getPosition_wrote [OF f(1,2)] f(5) assms(2,3) rst by auto
  have 2: "os_at w' s' p (xs @ []) rst" using wrote_os_at(1) [OF 1(2) assms(1)] .
  with 1(3,4) have "content w' p = xs" by (auto simp: os_at_def logical_def)
  with 1 2 wrote_os_at(2,3) [OF 1(2) assms(1)] f(4) show ?thesis by (auto simp: pend_def)
qed

lemma os_at_writeLongLong:
  assumes "os_at w s p xs rst" and "8 \<le> left w s"
  shows "\<exists>w' s'. writeLongLongCscOutputStream w s v = (0, w', s') \<and>
    os_at w' s' p (xs @ le_bytes 8 v) rst \<and> same_env p w w' \<and> left w' s' = left w s - 8"
proof -
  obtain f where "m_dataOutputStream s = Some f" "of_ok w f" "spare w f = left w s"
    using os_atD [OF assms(1)] by blast
  then obtain w' s' where 1: "writeLongLongCscOutputStream w s v = (0, w', s')"
    "wrote w s (le_bytes 8 v) w' s'"
    using c_llong.put_wrote [of s f w v] assms(2) by (auto simp: writeLongLongCscOutputStream_def)
  with wrote_os_at [OF 1(2) assms(1)] show ?thesis by simp
qed

lemma os_at_writeRow:
  assumes "os_at w s p xs rst" and "int (length (row_bytes r)) \<le> left w s" and "row_wf r"
  shows "\<exists>w1 s1 w' s'. writeShortCscOutputStream w s (int (length r)) = (0, w1, s1) \<and>
    write_cols w1 s1 0 r = (0, w', s') \<and> os_at w' s' p (xs @ row_bytes r) rst \<and> same_env p w w' \<and>
    left w' s' = left w s - int (length (row_bytes r))"
proof -
  obtain f where f: "m_dataOutputStream s = Some f" "of_ok w f" "spare w f = left w s"
    using os_atD [OF assms(1)] by blast
  have len: "int (length (row_bytes r)) = 2 + int (length (concat (map att_bytes r)))"
    by (simp add: row_bytes_def)
  obtain w1 s1 where 1: "writeShortCscOutputStream w s (int (length r)) = (0, w1, s1)"
    "wrote w s (le_bytes 2 (int (length r))) w1 s1"
    using c_short.put_wrote [OF f(1,2), of "int (length r)"] f(3) assms(2) len
    by (auto simp: writeShortCscOutputStream_def)
  obtain f1 where f1: "m_dataOutputStream s1 = Some f1" "of_ok w1 f1" "spare w1 f1 = left w s - 2"
    using wrote_stream [OF 1(2) f(1)] f(3) by auto
  obtain w2 s2 where 2: "write_cols w1 s1 0 r = (0, w2, s2)" "wrote w1 s1 (concat (map att_bytes r)) w2 s2"
    using write_cols_ok [OF f1(1,2), of r 0] f1(3) assms(2,3) len by (auto simp: row_wf_def)
  have "wrote w s (row_bytes r) w2 s2"
    unfolding row_bytes_def by (rule wrote_trans [OF 1(2) 2(2)])
  from wrote_os_at [OF this assms(1)] 1(1) 2(1) show ?thesis by auto
qed

definition writing :: "world \<Rightarrow> csc \<Rightarrow> row list \<Rightarrow> int \<Rightarrow> bool" where
  "writing w c rs n \<longleftrightarrow> m_fileName c \<noteq> m_offsetFileName c \<and> m_totalRows c = int (length rs) \<and>
     \<not> doesItForwardOnlyCursor (m_resultsettype c) \<and>
     (\<exists>os off. m_cscOutputStream c = Some os \<and> m_cscOffsetOutputStream c = Some off \<and>
        os_at w os (m_fileName c) (data_image rs) (m_resultsettype c) \<and>
        os_at w off (m_offsetFileName c) (offs_image rs) (m_resultsettype c) \<and>
        n \<le> int (w_room w) - pend os - pend off)"

text \<open>What writing a row does not touch.\<close>

definition wr_frame :: "csc \<Rightarrow> csc \<Rightarrow> bool" where
  "wr_frame c c' \<longleftrightarrow> c' = c\<lparr>m_ioe := m_ioe c', m_cscOutputStream := m_cscOutputStream c',
     m_cscOffsetOutputStream := m_cscOffsetOutputStream c', m_totalRows := m_totalRows c',
     m_totalCommitedRows := m_totalCommitedRows c', m_cscLock := m_cscLock c'\<rparr>"

lemma wr_frame_sel:
  assumes "wr_frame c c'"
  shows "m_fileName c' = m_fileName c" "m_offsetFileName c' = m_offsetFileName c"
    "m_resultsettype c' = m_resultsettype c" "m_cscOptions c' = m_cscOptions c"
    "m_fileCreated c' = m_fileCreated c" "m_firstRowNumberInMem c' = m_firstRowNumberInMem c"
    "m_cols c' = m_cols c" "m_cscInputStream c' = m_cscInputStream c"
    "m_cscOffsetInputStream c' = m_cscOffsetInputStream c" "m_endOfInputStream c' = m_endOfInputStream c"
    "m_lastRowNumberInMem c' = m_lastRowNumberInMem c" "m_skipResult c' = m_skipResult c"
    "m_connectionPid c' = m_connectionPid c" "m_self c' = m_self c"
    "m_firstReadFromFileOffset c' = m_firstReadFromFileOffset c"
proof -
  obtain e os off t tc l where "c' = c\<lparr>m_ioe := e, m_cscOutputStream := os,
     m_cscOffsetOutputStream := off, m_totalRows := t, m_totalCommitedRows := tc, m_cscLock := l\<rparr>"
    using assms unfolding wr_frame_def by blast
  then show "m_fileName c' = m_fileName c" "m_offsetFileName c' = m_offsetFileName c"
    "m_resultsettype c' = m_resultsettype c" "m_cscOptions c' = m_cscOptions c"
    "m_fileCreated c' = m_fileCreated c" "m_firstRowNumberInMem c' = m_firstRowNumberInMem c"
    "m_cols c' = m_cols c" "m_cscInputStream c' = m_cscInputStream c"
    "m_cscOffsetInputStream c' = m_cscOffsetInputStream c" "m_endOfInputStream c' = m_endOfInputStream c"
    "m_lastRowNumberInMem c' = m_lastRowNumberInMem c" "m_skipResult c' = m_skipResult c"
    "m_connectionPid c' = m_connectionPid c" "m_self c' = m_self c"
    "m_firstReadFromFileOffset c' = m_firstReadFromFileOffset c"
    by simp_all
qed

lemma commit_batch_scrollable:
  assumes "flushCscOutputStream w os = (0, w, os)" and "m_ioe c = 0"
  shows "\<exists>c'. commit_batch w c os = (w, c') \<and> m_ioe c' = 0 \<and> m_cscOutputStream c' = Some os \<and>
    m_cscOffsetOutputStream c' = m_cscOffsetOutputStream c \<and> m_totalRows c' = m_totalRows c \<and>
    wr_frame c c'"
  using assms by (simp add: commit_batch_def signalForBatchResultReadFromServerCsc_def wr_frame_def)

text \<open>The part of the environment that no file operation changes.\<close>

definition env_eq :: "world \<Rightarrow> world \<Rightarrow> bool" where
  "env_eq w w' \<longleftrightarrow> w_badpos w' = w_badpos w \<and> w_noopen w' = w_noopen w \<and> w_nomem w' = w_nomem w \<and>
     w_platform w' = w_platform w"

lemma env_eq_trans: "env_eq a b \<Longrightarrow> env_eq b c \<Longrightarrow> env_eq a c"
  by (simp add: env_eq_def)

lemma writeRow_scrollable:
  assumes wr: "writing w c rs n" and wf: "row_wf r"
    and room: "int (length (row_bytes r)) + 8 \<le> n"
    and size: "m_maxfilesize (m_cscOptions c) = 0"
  shows "\<exists>w' c'. writeRowCsc w c (Some r) (int (length r)) = (0, w', c') \<and>
    writing w' c' (rs @ [r]) (n - int (length (row_bytes r)) - 8) \<and> m_ioe c' = 0 \<and> wr_frame c c' \<and>
    env_eq w w'"
proof -
  let ?rst = "m_resultsettype c" and ?p = "m_fileName c" and ?q = "m_offsetFileName c"
  let ?pos = "int (length (data_image rs))"
  from wr obtain os off where os: "m_cscOutputStream c = Some os" "m_cscOffsetOutputStream c = Some off"
    "os_at w os ?p (data_image rs) ?rst" "os_at w off ?q (offs_image rs) ?rst"
    "n \<le> int (w_room w) - pend os - pend off"
    and c: "?p \<noteq> ?q" "m_totalRows c = int (length rs)" "\<not> doesItForwardOnlyCursor ?rst"
    by (auto simp: writing_def)
  have pend: "0 \<le> pend x" for x by (simp add: pend_def split: option.split)
  have "0 \<le> left w os" using os(5) room pend [of off] by (simp add: left_def)
  then obtain w1 os1 where 1: "getPositionCscOutputStream w os = (?pos, w1, os1)"
    "os_at w1 os1 ?p (data_image rs) ?rst" "same_env ?p w w1" "left w1 os1 = left w os" "pend os1 = 0"
    using os_at_getPosition [OF os(3) _ c(3)] by blast
  have off1: "os_at w1 off ?q (offs_image rs) ?rst"
    using os_at_other [OF os(4) 1(3)] c(1) by simp
  have room1: "n \<le> left w1 off" using 1(4,5) os(5) by (simp add: left_def)
  obtain w2 off2 where 2: "writeLongLongCscOutputStream w1 off ?pos = (0, w2, off2)"
    "os_at w2 off2 ?q (offs_image (rs @ [r])) ?rst" "same_env ?q w1 w2" "left w2 off2 = left w1 off - 8"
    using os_at_writeLongLong [OF off1] room1 room offs_image_snoc by fastforce
  have "0 \<le> left w2 off2" using 2(4) room1 room by simp
  then obtain x w3 off3 where 3: "getPositionCscOutputStream w2 off2 = (x, w3, off3)"
    "os_at w3 off3 ?q (offs_image (rs @ [r])) ?rst" "same_env ?q w2 w3" "left w3 off3 = left w2 off2"
    "pend off3 = 0"
    using os_at_getPosition [OF 2(2) _ c(3)] by blast
  have os3: "os_at w3 os1 ?p (data_image rs) ?rst"
    using os_at_other [OF os_at_other [OF 1(2) 2(3)] 3(3)] c(1) by simp
  have left3: "n - 8 \<le> left w3 os1"
    using 3(4,5) 2(4) room1 1(5) by (simp add: left_def)
  let ?c1 = "c\<lparr>m_ioe := 0, m_cscOffsetOutputStream := Some off3\<rparr>"
  have offs: "write_row_offset w c os = (w3, ?c1, os1)"
    using os(2) c(3) 1(1) 2(1) 3(1) by (simp add: write_row_offset_def)
  obtain w4 s4 w5 s5 where 4: "writeShortCscOutputStream w3 os1 (int (length r)) = (0, w4, s4)"
    "write_cols w4 s4 0 r = (0, w5, s5)" "os_at w5 s5 ?p (data_image rs @ row_bytes r) ?rst"
    "same_env ?p w3 w5" "left w5 s5 = left w3 os1 - int (length (row_bytes r))"
    using os_at_writeRow [OF os3 _ wf] left3 room by fastforce
  have off5: "os_at w5 off3 ?q (offs_image (rs @ [r])) ?rst"
    using os_at_other [OF 3(2) 4(4)] c(1) by simp
  have left5: "n - int (length (row_bytes r)) - 8 \<le> int (w_room w5) - pend s5 - pend off3"
    using 4(5) left3 3(5) by (simp add: left_def)
  let ?c2 = "?c1\<lparr>m_ioe := 0, m_totalRows := m_totalRows ?c1 + 1\<rparr>"
  have "flushCscOutputStream w5 s5 = (0, w5, s5)"
    using 4(3) c(3) by (auto simp: flushCscOutputStream_def os_at_def)
  then obtain c3 where c3: "commit_batch w5 ?c2 s5 = (w5, c3)" "m_ioe c3 = 0"
    "m_cscOutputStream c3 = Some s5" "m_cscOffsetOutputStream c3 = m_cscOffsetOutputStream ?c2"
    "m_totalRows c3 = m_totalRows ?c2" "wr_frame ?c2 c3"
    using commit_batch_scrollable [of w5 s5 ?c2] by auto
  have fr: "wr_frame c c3" using c3(6) by (simp add: wr_frame_def)
  have "writeRowCsc w c (Some r) (int (length r)) = (0, w5, c3)"
    using os(1) size offs 4(1,2) c3(1,2) by (simp add: writeRowCsc_def Let_def)
  moreover have "writing w5 c3 (rs @ [r]) (n - int (length (row_bytes r)) - 8)"
    using c3(3-5) c 4(3) off5 left5 by (simp add: writing_def wr_frame_sel [OF fr])
  moreover have "env_eq w w5"
    using 1(3) 2(3) 3(3) 4(4) by (simp add: same_env_def env_eq_def)
  ultimately show ?thesis using c3(2) fr by blast
qed

subsection \<open>Reading forward\<close>

text \<open>What the readers may change.\<close>

definition rd_frame :: "csc \<Rightarrow> csc \<Rightarrow> bool" where
  "rd_frame c c' \<longleftrightarrow> c' = c\<lparr>m_ioe := m_ioe c', m_cscInputStream := m_cscInputStream c',
     m_rawRowLengthFromFile := m_rawRowLengthFromFile c', m_endOfInputStream := m_endOfInputStream c',
     m_inMemoryResultSizeFromFile := m_inMemoryResultSizeFromFile c',
     m_firstReadFromFileOffset := m_firstReadFromFileOffset c',
     m_firstRowNumberInMem := m_firstRowNumberInMem c', m_lastRowNumberInMem := m_lastRowNumberInMem c',
     m_cscOffsetInputStream := m_cscOffsetInputStream c'\<rparr>"

lemma rd_frame_sel:
  assumes "rd_frame c c'"
  shows "m_fileName c' = m_fileName c" "m_offsetFileName c' = m_offsetFileName c"
    "m_resultsettype c' = m_resultsettype c" "m_cscOptions c' = m_cscOptions c"
    "m_fileCreated c' = m_fileCreated c" "m_cols c' = m_cols c" "m_cscLock c' = m_cscLock c"
    "m_totalRows c' = m_totalRows c" "m_totalCommitedRows c' = m_totalCommitedRows c"
    "m_skipResult c' = m_skipResult c" "isFullResultReadFromServerCsc c' = isFullResultReadFromServerCsc c"
proof -
  obtain a1 a2 a3 a4 a5 a6 a7 a8 a9 where "c' = c\<lparr>m_ioe := a1, m_cscInputStream := a2,
     m_rawRowLengthFromFile := a3, m_endOfInputStream := a4,
     m_inMemoryResultSizeFromFile := a5, m_firstReadFromFileOffset := a6,
     m_firstRowNumberInMem := a7, m_lastRowNumberInMem := a8, m_cscOffsetInputStream := a9\<rparr>"
    using assms unfolding rd_frame_def by blast
  then show "m_fileName c' = m_fileName c" "m_offsetFileName c' = m_offsetFileName c"
    "m_resultsettype c' = m_resultsettype c" "m_cscOptions c' = m_cscOptions c"
    "m_fileCreated c' = m_fileCreated c" "m_cols c' = m_cols c" "m_cscLock c' = m_cscLock c"
    "m_totalRows c' = m_totalRows c" "m_totalCommitedRows c' = m_totalCommitedRows c"
    "m_skipResult c' = m_skipResult c" "isFullResultReadFromServerCsc c' = isFullResultReadFromServerCsc c"
    by (simp_all add: isFullResultReadFromServerCsc_def)
qed

lemma rd_frame_trans: "rd_frame a b \<Longrightarrow> rd_frame b c \<Longrightarrow> rd_frame a c"
proof -
  assume ab: "rd_frame a b" and bc: "rd_frame b c"
  obtain a1 a2 a3 a4 a5 a6 a7 a8 a9 where b: "b = a\<lparr>m_ioe := a1, m_cscInputStream := a2,
     m_rawRowLengthFromFile := a3, m_endOfInputStream := a4,
     m_inMemoryResultSizeFromFile := a5, m_firstReadFromFileOffset := a6,
     m_firstRowNumberInMem := a7, m_lastRowNumberInMem := a8, m_cscOffsetInputStream := a9\<rparr>"
    using ab unfolding rd_frame_def by blast
  obtain b1 b2 b3 b4 b5 b6 b7 b8 b9 where c: "c = b\<lparr>m_ioe := b1, m_cscInputStream := b2,
     m_rawRowLengthFromFile := b3, m_endOfInputStream := b4,
     m_inMemoryResultSizeFromFile := b5, m_firstReadFromFileOffset := b6,
     m_firstRowNumberInMem := b7, m_lastRowNumberInMem := b8, m_cscOffsetInputStream := b9\<rparr>"
    using bc unfolding rd_frame_def by blast
  show "rd_frame a c" by (simp add: rd_frame_def c b)
qed

lemma rd_frame_refl [simp]: "rd_frame c c"
  by (simp add: rd_frame_def)

lemma wait_full [simp]:
  "isFullResultReadFromServerCsc c \<Longrightarrow> waitForBatchResultReadFromServerCsc c = Some c"
  "isFullResultReadFromServerCsc c \<Longrightarrow> waitForFullResultReadFromServerCsc c = Some c"
  by (auto simp: isFullResultReadFromServerCsc_def waitForBatchResultReadFromServerCsc_def
      waitForFullResultReadFromServerCsc_def split: option.splits)

lemma wait_batches_full [simp]:
  "isFullResultReadFromServerCsc c \<Longrightarrow> wait_batches P c = Some (c, False)"
  by (subst wait_batches.simps) simp

lemma checkThreshold_frame:
  "\<exists>mem. snd (checkForThresholdLimitReachCsc c cols raw False) = c\<lparr>m_inMemoryResultSizeFromFile := mem\<rparr>"
proof (cases "0 < m_threshold (m_cscOptions c)")
  case False
  then have "snd (checkForThresholdLimitReachCsc c cols raw False) =
      c\<lparr>m_inMemoryResultSizeFromFile := m_inMemoryResultSizeFromFile c\<rparr>"
    by (simp add: checkForThresholdLimitReachCsc_def)
  then show ?thesis by blast
next
  case True
  then show ?thesis by (auto simp: checkForThresholdLimitReachCsc_def Let_def)
qed

lemma rd_at_is:
  "rd_at w p rst s rs k \<Longrightarrow> m_dataInputStream s \<noteq> None"
  by (auto simp: rd_at_def)

definition reads_to :: "bool \<Rightarrow> bool \<Rightarrow> world \<Rightarrow> string \<Rightarrow> int \<Rightarrow> istream \<Rightarrow> row list \<Rightarrow> nat \<Rightarrow> bool" where
  "reads_to fwd eof w p rst s rs n \<longleftrightarrow> (if eof then fwd \<and> n = length rs else rd_at w p rst s rs n)"

lemma until_reached: "until_threshold w c res wc True acc cap = Some (c, res, acc, cap)"
  by (subst until_threshold.simps) simp

lemma until_last: "at_last_row c \<Longrightarrow> until_threshold w c res wc reached acc cap = Some (c, res, acc, cap)"
  by (subst until_threshold.simps) simp

text \<open>
  From a stream positioned at row \<open>k\<close> (counted from 0) with the whole result on disk, the loop
  hands out the rows from \<open>k\<close> on, at least one when there is one. A scrollable cursor stops at the
  last row, a forward-only one at the end of the file.
\<close>

lemma until_threshold_ok:
  assumes "m_cscInputStream c = Some s" and "rd_at w p rst s rs k" and "k \<le> length rs"
    and "\<forall>r \<in> set rs. row_wf r" and "isFullResultReadFromServerCsc c"
    and "m_ioe c = 0" and "\<not> m_endOfInputStream c"
    and "\<not> doesItForwardOnlyCursor (m_resultsettype c) \<longrightarrow>
           m_lastRowNumberInMem c = int k \<and> m_totalRows c = int (length rs)"
  shows "\<exists>j c' res' cap' s'. until_threshold w c res wc reached acc cap =
      Some (c', res', acc @ seg rs k j, cap') \<and> k + j \<le> length rs \<and>
      (\<not> reached \<longrightarrow> k < length rs \<longrightarrow> 0 < j) \<and> rd_frame c c' \<and> m_ioe c' = 0 \<and>
      m_firstRowNumberInMem c' = m_firstRowNumberInMem c \<and>
      m_lastRowNumberInMem c' = m_lastRowNumberInMem c + int j \<and>
      m_firstReadFromFileOffset c' = m_firstReadFromFileOffset c \<and>
      m_cscOffsetInputStream c' = m_cscOffsetInputStream c \<and> m_cscInputStream c' = Some s' \<and>
      reads_to (doesItForwardOnlyCursor (m_resultsettype c)) (m_endOfInputStream c') w p rst s' rs (k + j)"
  using assms
proof (induction "length rs - k" arbitrary: c s k res wc reached acc cap rule: less_induct)
  case less
  note prems = less.prems
  let ?fwd = "doesItForwardOnlyCursor (m_resultsettype c)"
  have stop: ?case if "until_threshold w c res wc reached acc cap = Some (c, res, acc, cap)"
      and "\<not> reached \<longrightarrow> k = length rs"
    using that prems
    by (intro exI [of _ 0] exI [of _ c] exI [of _ res] exI [of _ cap] exI [of _ s])
       (auto simp: reads_to_def)
  show ?case
  proof (cases "reached \<or> at_last_row c")
    case True
    then have "until_threshold w c res wc reached acc cap = Some (c, res, acc, cap)"
      using until_reached until_last by auto
    moreover have "\<not> reached \<longrightarrow> k = length rs"
      using True prems(3,8) by (auto simp: at_last_row_def)
    ultimately show ?thesis by (rule stop)
  next
    case go: False
    have wait: "(if wc \<and> int (length acc) mod BATCH_SIZE_TO_PROCESS = 0 \<and> batch_pending c
         then wait_batches batch_pending c else Some (c, wc)) =
         Some (c, wc \<and> \<not> (int (length acc) mod BATCH_SIZE_TO_PROCESS = 0 \<and> batch_pending c))"
      using prems(5) by auto
    show ?thesis
    proof (cases "k < length rs")
      case True
      let ?c1 = "(after_row c (rs ! k))\<lparr>m_ioe := 0, m_endOfInputStream := False\<rparr>"
      let ?r = "Some (norm_row (rs ! k))"
      let ?s1 = "advance (length (row_bytes (rs ! k))) s"
      have row: "readRowCsc w c = (?r, 0, False, after_row c (rs ! k))"
        by (rule readRow_at [OF prems(1,2) True prems(4)])
      obtain reached' c2 where chk:
        "checkForThresholdLimitReachCsc ?c1 (first_len ?r) (m_rawRowLengthFromFile ?c1) False = (reached', c2)"
        by fastforce
      then obtain mem where mem: "c2 = ?c1\<lparr>m_inMemoryResultSizeFromFile := mem\<rparr>"
        using checkThreshold_frame [of ?c1 "first_len ?r" "m_rawRowLengthFromFile ?c1"] by auto
      have unf: "until_threshold w c res wc reached acc cap =
          until_threshold w c2 (clear_old_rows res)
            (wc \<and> \<not> (int (length acc) mod BATCH_SIZE_TO_PROCESS = 0 \<and> batch_pending c))
            reached' (acc @ [?r]) (grow_tuples cap (length acc))"
        using go row chk prems(6) wait
        by (subst until_threshold.simps) simp
      have s1: "rd_at w p rst ?s1 rs (Suc k)" by (rule rd_at_step [OF prems(2) True])
      have fr2: "rd_frame c c2" by (simp add: rd_frame_def mem after_row_def)
      have full2: "isFullResultReadFromServerCsc c2" using rd_frame_sel(11) [OF fr2] prems(5) by simp
      have c2: "m_cscInputStream c2 = Some ?s1" "m_ioe c2 = 0" "\<not> m_endOfInputStream c2"
        "m_firstRowNumberInMem c2 = m_firstRowNumberInMem c"
        "m_lastRowNumberInMem c2 = m_lastRowNumberInMem c + 1"
        "m_firstReadFromFileOffset c2 = m_firstReadFromFileOffset c"
        "m_cscOffsetInputStream c2 = m_cscOffsetInputStream c" "m_totalRows c2 = m_totalRows c"
        "m_resultsettype c2 = m_resultsettype c"
        using prems(1) by (simp_all add: mem after_row_def)
      have lt: "length rs - Suc k < length rs - k" and le: "Suc k \<le> length rs" using True by simp_all
      have pos: "\<not> doesItForwardOnlyCursor (m_resultsettype c2) \<longrightarrow>
           m_lastRowNumberInMem c2 = int (Suc k) \<and> m_totalRows c2 = int (length rs)"
        using prems(8) c2 by simp
      obtain j c' res' cap' s' where ih:
        "until_threshold w c2 (clear_old_rows res)
            (wc \<and> \<not> (int (length acc) mod BATCH_SIZE_TO_PROCESS = 0 \<and> batch_pending c))
            reached' (acc @ [?r]) (grow_tuples cap (length acc)) =
         Some (c', res', (acc @ [?r]) @ seg rs (Suc k) j, cap')"
        "Suc k + j \<le> length rs" "rd_frame c2 c'" "m_ioe c' = 0"
        "m_firstRowNumberInMem c' = m_firstRowNumberInMem c2"
        "m_lastRowNumberInMem c' = m_lastRowNumberInMem c2 + int j"
        "m_firstReadFromFileOffset c' = m_firstReadFromFileOffset c2"
        "m_cscOffsetInputStream c' = m_cscOffsetInputStream c2" "m_cscInputStream c' = Some s'"
        "reads_to (doesItForwardOnlyCursor (m_resultsettype c2)) (m_endOfInputStream c') w p rst s' rs
           (Suc k + j)"
        using less.hyps [OF lt c2(1) s1 le prems(4) full2 c2(2,3) pos] by blast
      have "until_threshold w c res wc reached acc cap = Some (c', res', acc @ seg rs k (Suc j), cap')"
        using unf ih(1) seg_Suc [OF True] by simp
      moreover have "rd_frame c c'" by (rule rd_frame_trans [OF fr2 ih(3)])
      ultimately show ?thesis
        using ih(2,4-10) c2
        by (intro exI [of _ "Suc j"] exI [of _ c'] exI [of _ res'] exI [of _ cap'] exI [of _ s']) auto
    next
      case False
      then have k: "k = length rs" using prems(3) by simp
      have fwd: ?fwd using go k prems(5,8) by (auto simp: at_last_row_def)
      obtain s' where row: "readRowCsc w c =
          (None, 0, True, c\<lparr>m_rawRowLengthFromFile := 0, m_cscInputStream := Some s'\<rparr>)"
        using readRow_at_end [OF prems(1)] prems(2) k by blast
      let ?c' = "c\<lparr>m_rawRowLengthFromFile := 0, m_cscInputStream := Some s', m_ioe := 0,
                   m_endOfInputStream := True\<rparr>"
      have "until_threshold w c res wc reached acc cap = Some (?c', res, acc, cap)"
        using go row prems(6) wait by (subst until_threshold.simps) simp
      moreover have "rd_frame c ?c'" by (simp add: rd_frame_def)
      ultimately show ?thesis
        using fwd k
        by (intro exI [of _ 0] exI [of _ ?c'] exI [of _ res] exI [of _ cap] exI [of _ s'])
           (simp add: reads_to_def)
    qed
  qed
qed

end
