(* ===== verification/Csc_Batches.thy ===== *)
theory Csc_Batches
  imports Csc_Spec
begin

text \<open>
  The batch operations of a scrollable cursor whose result is completely on disk: each hands out
  a contiguous segment of the rows and keeps the window, the streams and the files consistent.
\<close>

subsection \<open>The stored result and the window\<close>

text \<open>An open reading stream on file \<open>p\<close>, anywhere in it.\<close>

definition dopen :: "string \<Rightarrow> int \<Rightarrow> istream \<Rightarrow> bool" where
  "dopen p rst s \<longleftrightarrow> (\<exists>f. m_dataInputStream s = Some f \<and> if_path f = p) \<and> is_error s = 0 \<and>
     \<not> is_eof s \<and> \<not> is_null_use s \<and> is_resultsettype s = rst"

lemma rd_at_dopen: "rd_at w p rst s rs k \<Longrightarrow> dopen p rst s"
  by (auto simp: rd_at_def dopen_def rd_ok_def)

definition stored :: "world \<Rightarrow> csc \<Rightarrow> row list \<Rightarrow> bool" where
  "stored w c rs \<longleftrightarrow>
     m_fileCreated c \<and> \<not> doesItForwardOnlyCursor (m_resultsettype c) \<and> \<not> m_endOfInputStream c \<and>
     m_ioe c = 0 \<and> isFullResultReadFromServerCsc c \<and>
     (\<forall>r \<in> set rs. row_wf r) \<and> length rs \<le> 2 ^ 28 \<and> length (data_image rs) < 2 ^ 63 \<and>
     m_totalRows c = int (length rs) \<and> m_totalCommitedRows c = int (length rs) \<and>
     w_files w (m_fileName c) = Some (data_image rs) \<and> w_files w (m_offsetFileName c) = Some (offs_image rs) \<and>
     w_badpos w (m_fileName c) = None \<and> w_badpos w (m_offsetFileName c) = None \<and>
     \<not> w_noopen w (m_fileName c) \<and> \<not> w_noopen w (m_offsetFileName c) \<and> \<not> w_nomem w \<and>
     (\<forall>s. m_cscOffsetInputStream c = Some s \<longrightarrow> dopen (m_offsetFileName c) (m_resultsettype c) s)"

text \<open>
  Rows \<open>a..b\<close> (numbered from 1) are in memory, and the next read of the data file delivers row
  \<open>b + 1\<close>; a data file that is not open yet will be opened at that place.
\<close>

definition window :: "world \<Rightarrow> csc \<Rightarrow> row list \<Rightarrow> nat \<Rightarrow> nat \<Rightarrow> bool" where
  "window w c rs a b \<longleftrightarrow> stored w c rs \<and> m_firstRowNumberInMem c = int a \<and> m_lastRowNumberInMem c = int b \<and>
     1 \<le> a \<and> a \<le> b + 1 \<and> b \<le> length rs \<and>
     (case m_cscInputStream c of
        None \<Rightarrow> a = 1 \<and> m_firstReadFromFileOffset c = int (row_offset rs b)
      | Some s \<Rightarrow> rd_at w (m_fileName c) (m_resultsettype c) s rs b)"

lemma stored_frame:
  assumes "stored w c rs" and "rd_frame c c'" and "m_ioe c' = 0" and "\<not> m_endOfInputStream c'"
    and "m_cscOffsetInputStream c' = m_cscOffsetInputStream c \<or>
      (\<exists>s. m_cscOffsetInputStream c' = Some s \<and> dopen (m_offsetFileName c) (m_resultsettype c) s)"
  shows "stored w c' rs"
  using assms by (auto simp: stored_def rd_frame_sel [OF assms(2)])

lemma storedD:
  assumes "stored w c rs"
  shows "\<not> doesItForwardOnlyCursor (m_resultsettype c)" "m_fileCreated c" "\<not> m_endOfInputStream c"
    "m_ioe c = 0" "isFullResultReadFromServerCsc c" "\<forall>r \<in> set rs. row_wf r"
    "m_totalRows c = int (length rs)" "content w (m_fileName c) = data_image rs"
    "content w (m_offsetFileName c) = offs_image rs"
  using assms by (auto simp: stored_def content_def)

lemma seek_at:
  assumes "dopen p rst s" and "\<not> doesItForwardOnlyCursor rst"
    and "content w p = data_image rs" and "w_badpos w p = None"
  shows "\<exists>s'. seekCscInputStream s (int (row_offset rs k)) = (0, s') \<and> rd_at w p rst s' rs k"
proof -
  obtain f where f: "m_dataInputStream s = Some f" "if_path f = p" using assms(1) by (auto simp: dopen_def)
  let ?s' = "s\<lparr>m_dataInputStream := Some (f\<lparr>if_pos := row_offset rs k, if_eof := False\<rparr>)\<rparr>"
  have "seekCscInputStream s (int (row_offset rs k)) = (0, ?s')"
    using seekCsc_ok [OF f(1)] assms(1,2) by (simp add: dopen_def)
  moreover have "rd_at w p rst ?s' rs k"
    using assms f row_offset_le [of rs k]
    by (simp add: rd_at_def rd_ok_def upcoming_def drop_row_offset dopen_def)
  ultimately show ?thesis by blast
qed

subsection \<open>Looking up a row's offset\<close>

definition only_offset :: "csc \<Rightarrow> csc \<Rightarrow> bool" where
  "only_offset c c' \<longleftrightarrow> c' = c\<lparr>m_cscOffsetInputStream := m_cscOffsetInputStream c', m_ioe := m_ioe c',
     m_inMemoryResultSizeFromFile := m_inMemoryResultSizeFromFile c'\<rparr>"

lemma only_offset_sel:
  assumes "only_offset c c'"
  shows "m_cscInputStream c' = m_cscInputStream c" "m_firstRowNumberInMem c' = m_firstRowNumberInMem c"
    "m_lastRowNumberInMem c' = m_lastRowNumberInMem c" "m_endOfInputStream c' = m_endOfInputStream c"
    "m_firstReadFromFileOffset c' = m_firstReadFromFileOffset c" "rd_frame c c'"
proof -
  obtain a1 a2 a3 where "c' = c\<lparr>m_cscOffsetInputStream := a1, m_ioe := a2, m_inMemoryResultSizeFromFile := a3\<rparr>"
    using assms unfolding only_offset_def by blast
  then show "m_cscInputStream c' = m_cscInputStream c" "m_firstRowNumberInMem c' = m_firstRowNumberInMem c"
    "m_lastRowNumberInMem c' = m_lastRowNumberInMem c" "m_endOfInputStream c' = m_endOfInputStream c"
    "m_firstReadFromFileOffset c' = m_firstReadFromFileOffset c" "rd_frame c c'"
    by (simp_all add: rd_frame_def)
qed

lemma only_offset_trans: "only_offset a b \<Longrightarrow> only_offset b c \<Longrightarrow> only_offset a c"
proof -
  assume ab: "only_offset a b" and bc: "only_offset b c"
  obtain a1 a2 a3 where b: "b = a\<lparr>m_cscOffsetInputStream := a1, m_ioe := a2, m_inMemoryResultSizeFromFile := a3\<rparr>"
    using ab unfolding only_offset_def by blast
  obtain b1 b2 b3 where c: "c = b\<lparr>m_cscOffsetInputStream := b1, m_ioe := b2, m_inMemoryResultSizeFromFile := b3\<rparr>"
    using bc unfolding only_offset_def by blast
  show "only_offset a c" by (simp add: only_offset_def c b)
qed

lemma read_offset_at:
  assumes s: "dopen q rst s" and fwd: "\<not> doesItForwardOnlyCursor rst"
    and fil: "content w q = offs_image rs" "w_badpos w q = None"
    and k: "1 \<le> k" "k \<le> length rs" and small: "length rs \<le> 2 ^ 28" "length (data_image rs) < 2 ^ 63"
  shows "\<exists>s1 s2. seekCscInputStream s (i32 ((int k - 1) * 8)) = (0, s1) \<and>
    readLongLongCscInputStream w s1 = (int (row_offset rs (k - 1)), s2) \<and> dopen q rst s2"
proof -
  obtain f where f: "m_dataInputStream s = Some f" "if_path f = q" using s by (auto simp: dopen_def)
  let ?pos = "8 * (k - 1)"
  let ?s1 = "s\<lparr>m_dataInputStream := Some (f\<lparr>if_pos := ?pos, if_eof := False\<rparr>)\<rparr>"
  have "int k \<le> 2 ^ 28" using k(2) small(1) by simp
  then have i32: "i32 ((int k - 1) * 8) = int ?pos"
    using k by (subst i32_id) (auto simp: of_nat_diff)
  have seek: "seekCscInputStream s (i32 ((int k - 1) * 8)) = (0, ?s1)"
    using seekCsc_ok [OF f(1), of "int ?pos"] s fwd i32 by (simp add: dopen_def)
  have kl: "k - 1 < length rs" using k by simp
  obtain rest where rest: "drop ?pos (offs_image rs) = le_bytes 8 (int (row_offset rs (k - 1))) @ rest"
    using drop_offs_image [OF kl] by blast
  have up: "upcoming w ?s1 = le_bytes 8 (int (row_offset rs (k - 1))) @ rest"
    using f fil rest by (simp add: upcoming_def)
  have ok: "rd_ok w ?s1"
    using f fil s k by (auto simp: rd_ok_def dopen_def length_offs_image)
  have rep: "rep_llong (int (row_offset rs (k - 1)))"
    using row_offset_le [of rs "k - 1"] small(2) by (simp add: rep_llong_def)
  have "readLongLongCscInputStream w ?s1 = (int (row_offset rs (k - 1)), advance 8 ?s1)"
    using c_llong.get_upcoming [OF rep ok up] by (simp add: readLongLongCscInputStream_def)
  moreover have "dopen q rst (advance 8 ?s1)"
    using s f by (simp add: dopen_def advance_def)
  ultimately show ?thesis using seek by blast
qed

lemma readDataFileOffset_ok:
  assumes st: "stored w c rs" and k: "1 \<le> k" "k \<le> length rs"
  shows "\<exists>c'. readDataFileOffsetCsc w c (int k) = (int (row_offset rs (k - 1)), c') \<and>
    only_offset c c' \<and> m_ioe c' = 0 \<and> m_inMemoryResultSizeFromFile c' = m_inMemoryResultSizeFromFile c \<and>
    stored w c' rs"
proof -
  let ?q = "m_offsetFileName c" and ?rst = "m_resultsettype c"
  have facts: "\<not> doesItForwardOnlyCursor ?rst" "content w ?q = offs_image rs" "w_badpos w ?q = None"
    "length rs \<le> 2 ^ 28" "length (data_image rs) < 2 ^ 63" "m_ioe c = 0" "\<not> w_nomem w" "\<not> w_noopen w ?q"
    "w_files w ?q \<noteq> None"
    using st by (auto simp: stored_def content_def)
  have main: "\<exists>c'. (case seekCscInputStream s (i32 ((int k - 1) * 8)) of (e1, s1) \<Rightarrow>
                 case readLongLongCscInputStream w s1 of (dataOffset, s2) \<Rightarrow>
                 case getIOErrorCsc (is_error s2) of (e2, e') \<Rightarrow>
                   (if e2 \<noteq> 0 then -1 else dataOffset,
                    c1\<lparr>m_cscOffsetInputStream := Some (s2\<lparr>is_error := e'\<rparr>), m_ioe := e2\<rparr>)) =
        (int (row_offset rs (k - 1)), c') \<and> only_offset c c' \<and> m_ioe c' = 0 \<and>
        m_inMemoryResultSizeFromFile c' = m_inMemoryResultSizeFromFile c \<and> stored w c' rs"
    if dop: "dopen ?q ?rst s" and c1: "c1 = c\<lparr>m_cscOffsetInputStream := Some s, m_ioe := 0\<rparr>" for s c1
  proof -
    obtain s1 s2 where s12: "seekCscInputStream s (i32 ((int k - 1) * 8)) = (0, s1)"
      "readLongLongCscInputStream w s1 = (int (row_offset rs (k - 1)), s2)" "dopen ?q ?rst s2"
      using read_offset_at [OF dop facts(1-3) k facts(4,5)] by blast
    have e: "is_error s2 = 0" and s2': "s2\<lparr>is_error := 0\<rparr> = s2"
      using s12(3) by (cases s2, auto simp: dopen_def)+
    let ?c' = "c\<lparr>m_cscOffsetInputStream := Some s2, m_ioe := 0\<rparr>"
    have "stored w ?c' rs"
      using stored_frame [OF st, of ?c'] s12(3) storedD(3) [OF st] by (simp add: rd_frame_def)
    moreover have "only_offset c ?c'" by (simp add: only_offset_def)
    ultimately show ?thesis
      using s12 e c1 by (simp add: getIOErrorCsc_def resetIOErrorCsc_def s2')
  qed
  show ?thesis
  proof (cases "m_cscOffsetInputStream c")
    case (Some s)
    have "c = c\<lparr>m_cscOffsetInputStream := Some s, m_ioe := 0\<rparr>" using Some facts(6) by simp
    moreover have "dopen ?q ?rst s" using st Some by (simp add: stored_def)
    ultimately show ?thesis
      using main [of s c] Some k facts(1) by (simp add: readDataFileOffsetCsc_def Let_def)
  next
    case None
    let ?s = "\<lparr>m_dataInputStream = Some \<lparr>if_path = ?q, if_pos = 0, if_eof = False\<rparr>,
        is_resultsettype = ?rst, is_error = 0, is_eof = False, is_null_use = False\<rparr>"
    have "createCscInputStream w ?q ?rst = (Some ?s, 0)"
      using facts(7-9) by (simp add: createCscInputStream_def c_fopen_r_def Let_def)
    moreover have "dopen ?q ?rst ?s" by (simp add: dopen_def)
    ultimately show ?thesis
      using main [of ?s "c\<lparr>m_cscOffsetInputStream := Some ?s, m_ioe := 0\<rparr>"] None k facts(1)
      by (simp add: readDataFileOffsetCsc_def Let_def)
  qed
qed

subsection \<open>Opening the data file\<close>

lemma windowD:
  assumes "window w c rs a b"
  shows "stored w c rs" "m_firstRowNumberInMem c = int a" "m_lastRowNumberInMem c = int b" "1 \<le> a"
    "a \<le> b + 1" "b \<le> length rs"
  using assms by (auto simp: window_def)

lemma window_open:
  assumes "window w c rs a b" and "1 < a"
  obtains s where "m_cscInputStream c = Some s" "rd_at w (m_fileName c) (m_resultsettype c) s rs b"
  using assms by (cases "m_cscInputStream c") (auto simp: window_def)

lemma createCscInputStream_ok:
  assumes "stored w c rs"
  shows "\<exists>s. createCscInputStream w (m_fileName c) (m_resultsettype c) = (Some s, 0) \<and>
    dopen (m_fileName c) (m_resultsettype c) s \<and> rd_at w (m_fileName c) (m_resultsettype c) s rs 0"
proof -
  have "\<not> w_nomem w" "\<not> w_noopen w (m_fileName c)" "w_files w (m_fileName c) = Some (data_image rs)"
    "w_badpos w (m_fileName c) = None"
    using assms by (auto simp: stored_def)
  then show ?thesis
    by (simp add: createCscInputStream_def c_fopen_r_def Let_def dopen_def rd_at_def rd_ok_def
        upcoming_def content_def)
qed

text \<open>\<open>opened c c'\<close>: nothing but the opening of the data file distinguishes the two.\<close>

definition opened :: "csc \<Rightarrow> csc \<Rightarrow> bool" where
  "opened c c' \<longleftrightarrow> c' = c\<lparr>m_cscInputStream := m_cscInputStream c', m_firstReadFromFileOffset := m_firstReadFromFileOffset c'\<rparr>"

lemma opened_sel:
  assumes "opened c c'"
  shows "m_firstRowNumberInMem c' = m_firstRowNumberInMem c"
    "m_lastRowNumberInMem c' = m_lastRowNumberInMem c" "m_endOfInputStream c' = m_endOfInputStream c"
    "m_ioe c' = m_ioe c" "m_cscOffsetInputStream c' = m_cscOffsetInputStream c" "rd_frame c c'"
proof -
  obtain a1 a2 where "c' = c\<lparr>m_cscInputStream := a1, m_firstReadFromFileOffset := a2\<rparr>"
    using assms unfolding opened_def by blast
  then show "m_firstRowNumberInMem c' = m_firstRowNumberInMem c"
    "m_lastRowNumberInMem c' = m_lastRowNumberInMem c" "m_endOfInputStream c' = m_endOfInputStream c"
    "m_ioe c' = m_ioe c" "m_cscOffsetInputStream c' = m_cscOffsetInputStream c" "rd_frame c c'"
    by (simp_all add: rd_frame_def)
qed

lemma stored_opened: "stored w c rs \<Longrightarrow> opened c c' \<Longrightarrow> stored w c' rs"
  by (rule stored_frame [of w c rs c']) (auto simp: opened_sel storedD)

text \<open>
  \<^verbatim>\<open>checkAndOpenInputStreamCsc\<close> succeeds; for the next batch it positions the stream
  behind the rows in memory.
\<close>

lemma checkAndOpen_ok:
  assumes win: "window w c rs a b"
  shows "\<exists>c' s. checkAndOpenInputStreamCsc w c seekForNext = (0, c') \<and> opened c c' \<and>
    m_cscInputStream c' = Some s \<and> dopen (m_fileName c) (m_resultsettype c) s \<and>
    (seekForNext \<longrightarrow> rd_at w (m_fileName c) (m_resultsettype c) s rs b) \<and> stored w c' rs"
proof (cases "m_cscInputStream c")
  case (Some s)
  then have "rd_at w (m_fileName c) (m_resultsettype c) s rs b" using win by (simp add: window_def)
  moreover have "opened c c" by (simp add: opened_def)
  ultimately show ?thesis
    using Some windowD(1) [OF win] rd_at_dopen by (simp add: checkAndOpenInputStreamCsc_def)
next
  case None
  let ?p = "m_fileName c" and ?rst = "m_resultsettype c"
  have st: "stored w c rs" by (rule windowD(1) [OF win])
  have first: "m_firstReadFromFileOffset c = int (row_offset rs b)" using win None by (simp add: window_def)
  note facts = storedD [OF st]
  obtain s where s: "createCscInputStream w ?p ?rst = (Some s, 0)" "dopen ?p ?rst s" "rd_at w ?p ?rst s rs 0"
    using createCscInputStream_ok [OF st] by blast
  have bad: "w_badpos w ?p = None" using st by (simp add: stored_def)
  have mk: ?thesis if "checkAndOpenInputStreamCsc w c seekForNext = (0, c')" "m_cscInputStream c' = Some s'"
      "opened c c'" "dopen ?p ?rst s'" "seekForNext \<longrightarrow> rd_at w ?p ?rst s' rs b" for c' s'
    using that stored_opened [OF st that(3)] by blast
  show ?thesis
  proof (cases "0 < row_offset rs b \<and> seekForNext")
    case True
    obtain s' where s': "seekCscInputStream s (int (row_offset rs b)) = (0, s')" "rd_at w ?p ?rst s' rs b"
      using seek_at [OF s(2) facts(1,8) bad] by blast
    let ?c' = "c\<lparr>m_cscInputStream := Some s', m_firstReadFromFileOffset := 0\<rparr>"
    show ?thesis
      by (rule mk [of ?c' s'])
         (use True None s s' first facts(1) rd_at_dopen [OF s'(2)] in
           \<open>simp_all add: checkAndOpenInputStreamCsc_def opened_def\<close>)
  next
    case False
    let ?c' = "if 0 < row_offset rs b then c\<lparr>m_cscInputStream := Some s, m_firstReadFromFileOffset := 0\<rparr>
      else c\<lparr>m_cscInputStream := Some s\<rparr>"
    have b0: "seekForNext \<longrightarrow> rd_at w ?p ?rst s rs b"
    proof
      assume seekForNext
      then have "row_offset rs b = 0" using False by simp
      then have "b = 0" using row_offset_inj [of 0 b rs] windowD(6) [OF win] by (cases b) auto
      then show "rd_at w ?p ?rst s rs b" using s(3) by simp
    qed
    show ?thesis
      by (rule mk [of ?c' s])
         (use False None s first facts(1) b0 in \<open>auto simp: checkAndOpenInputStreamCsc_def opened_def\<close>)
  qed
qed

subsection \<open>Reading forward from a positioned stream\<close>

lemma until_window:
  assumes st: "stored w c rs" and s: "m_cscInputStream c = Some s"
    and at: "rd_at w (m_fileName c) (m_resultsettype c) s rs k" and k: "k \<le> length rs"
    and last: "m_lastRowNumberInMem c = int k" and first: "m_firstRowNumberInMem c = int a" "1 \<le> a" "a \<le> k + 1"
  shows "\<exists>j c' res'. readNextBatchOfRowsUntilThresholdCsc w c res wc = Some (Some (seg rs k j), c', res') \<and>
    k + j \<le> length rs \<and> (k < length rs \<longrightarrow> 0 < j) \<and> window w c' rs a (k + j)"
proof -
  let ?c = "c\<lparr>m_inMemoryResultSizeFromFile := 0\<rparr>"
  note facts = storedD [OF st]
  have full: "isFullResultReadFromServerCsc ?c" using facts(5) by (simp add: isFullResultReadFromServerCsc_def)
  obtain j c' res' cap' s' where ut: "until_threshold w ?c res wc False [] (nat BATCH_SIZE_TO_PROCESS) =
      Some (c', res', [] @ seg rs k j, cap')" "k + j \<le> length rs" "k < length rs \<longrightarrow> 0 < j" "rd_frame ?c c'"
    "m_ioe c' = 0" "m_firstRowNumberInMem c' = int a" "m_lastRowNumberInMem c' = int k + int j"
    "m_cscOffsetInputStream c' = m_cscOffsetInputStream c" "m_cscInputStream c' = Some s'"
    "reads_to False (m_endOfInputStream c') w (m_fileName c) (m_resultsettype c) s' rs (k + j)"
    using until_threshold_ok [of ?c s w "m_fileName c" "m_resultsettype c" rs k res wc False "[]"
        "nat BATCH_SIZE_TO_PROCESS"] s at k last first(1) full facts(1,3,4,6,7) by auto
  have fr: "rd_frame c c'" by (rule rd_frame_trans [OF _ ut(4)]) (simp add: rd_frame_def)
  have eof: "\<not> m_endOfInputStream c'" and at': "rd_at w (m_fileName c) (m_resultsettype c) s' rs (k + j)"
    using ut(10) by (auto simp: reads_to_def split: if_splits)
  have "stored w c' rs" by (rule stored_frame [OF st fr ut(5) eof]) (use ut(8) in simp)
  then have "window w c' rs a (k + j)"
    using ut(2,6,7,9) at' first(2,3) rd_frame_sel [OF fr] by (simp add: window_def)
  then show ?thesis
    using ut(1-3) s facts(2,3) by (auto simp: readNextBatchOfRowsUntilThresholdCsc_def)
qed

text \<open>Positioning a stream of the stored result for a batch that starts with row \<open>k + 1\<close>.\<close>

lemma seek_window:
  assumes st: "stored w c rs" and s: "m_cscInputStream c = Some s" "dopen (m_fileName c) (m_resultsettype c) s"
    and k: "k \<le> length rs"
  shows "\<exists>s' c'. seekCscInputStream s (int (row_offset rs k)) = (0, s') \<and>
    c' = c\<lparr>m_cscInputStream := Some s', m_ioe := 0, m_firstRowNumberInMem := int k + 1, m_lastRowNumberInMem := int k\<rparr> \<and>
    stored w c' rs \<and> rd_at w (m_fileName c) (m_resultsettype c) s' rs k \<and> window w c' rs (k + 1) k"
proof -
  note facts = storedD [OF st]
  have bad: "w_badpos w (m_fileName c) = None" using st by (simp add: stored_def)
  obtain s' where s': "seekCscInputStream s (int (row_offset rs k)) = (0, s')"
    "rd_at w (m_fileName c) (m_resultsettype c) s' rs k"
    using seek_at [OF s(2) facts(1,8) bad] by blast
  let ?c' = "c\<lparr>m_cscInputStream := Some s', m_ioe := 0, m_firstRowNumberInMem := int k + 1, m_lastRowNumberInMem := int k\<rparr>"
  have "stored w ?c' rs"
    by (rule stored_frame [OF st]) (use facts(3) in \<open>simp_all add: rd_frame_def\<close>)
  with s' k show ?thesis by (simp add: window_def)
qed

end
