(* ===== verification/Csc_Navigate.thy ===== *)
theory Csc_Navigate
  imports Csc_Batches
begin

text \<open>
  Navigation over a stored result: what the batch operations of a scrollable cursor return, and
  that each keeps the \<open>window\<close> invariant.
\<close>

subsection \<open>Reading a given number of rows\<close>

lemma read_rows_ok:
  assumes "stored w c rs" and "m_cscInputStream c = Some s"
    and "rd_at w (m_fileName c) (m_resultsettype c) s rs k" and "k + n \<le> length rs"
    and "m_lastRowNumberInMem c = int k" and "m_firstRowNumberInMem c = int a" "1 \<le> a" "a \<le> k + 1"
  shows "\<exists>c' res'. read_rows w c res n acc = (c', res', acc @ seg rs k n) \<and> window w c' rs a (k + n)"
  using assms
proof (induction n arbitrary: c s k res acc)
  case 0
  then show ?case by (auto simp: window_def)
next
  case (Suc n)
  note prems = Suc.prems
  note facts = storedD [OF prems(1)]
  have k: "k < length rs" using prems(4) by simp
  let ?c1 = "(after_row c (rs ! k))\<lparr>m_ioe := 0, m_endOfInputStream := False\<rparr>"
  let ?s1 = "advance (length (row_bytes (rs ! k))) s"
  have row: "readRowCsc w c = (Some (norm_row (rs ! k)), 0, False, after_row c (rs ! k))"
    by (rule readRow_at [OF prems(2,3) k facts(6)])
  have st1: "stored w ?c1 rs"
    by (rule stored_frame [OF prems(1)]) (simp_all add: rd_frame_def after_row_def)
  have s1: "rd_at w (m_fileName ?c1) (m_resultsettype ?c1) ?s1 rs (Suc k)"
    using rd_at_step [OF prems(3) k] by (simp add: after_row_def)
  obtain c' res' where ih: "read_rows w ?c1 (clear_old_rows res) n (acc @ [Some (norm_row (rs ! k))]) =
      (c', res', (acc @ [Some (norm_row (rs ! k))]) @ seg rs (Suc k) n)" "window w c' rs a (Suc k + n)"
    using Suc.IH [OF st1 _ s1, of "clear_old_rows res" "acc @ [Some (norm_row (rs ! k))]"] prems(2,4-8)
    by (auto simp: after_row_def)
  have "read_rows w c res (Suc n) acc = (c', res', acc @ seg rs k (Suc n))"
    using ih(1) row facts(4,7) prems(5) k seg_Suc [OF k] by simp
  with ih(2) show ?case by (auto simp: add.commute)
qed

text \<open>\<open>at_data w c\<close>: the data file is open for reading.\<close>

definition at_data :: "world \<Rightarrow> csc \<Rightarrow> bool" where
  "at_data w c \<longleftrightarrow> (\<exists>s. m_cscInputStream c = Some s \<and> dopen (m_fileName c) (m_resultsettype c) s)"

lemma fromOffset_ok:
  assumes st: "stored w c rs" and dat: "at_data w c" and k: "k + n \<le> length rs"
  shows "\<exists>c' res'. readNextBatchOfRowsFromOffsetCsc w c (int (row_offset rs k)) (int k + 1) n res =
      (Some (seg rs k n), c', res') \<and> window w c' rs (k + 1) (k + n)"
proof -
  note facts = storedD [OF st]
  obtain s where s: "m_cscInputStream c = Some s" "dopen (m_fileName c) (m_resultsettype c) s"
    using dat by (auto simp: at_data_def)
  have k': "k \<le> length rs" using k by simp
  obtain s' c1 where s': "seekCscInputStream s (int (row_offset rs k)) = (0, s')"
    and c1: "c1 = c\<lparr>m_cscInputStream := Some s', m_ioe := 0, m_firstRowNumberInMem := int k + 1,
      m_lastRowNumberInMem := int k\<rparr>"
    and at: "stored w c1 rs" "rd_at w (m_fileName c) (m_resultsettype c) s' rs k"
    using seek_window [OF st s k'] by blast
  obtain c' res' where "read_rows w c1 res n [] = (c', res', [] @ seg rs k n)" "window w c' rs (k + 1) (k + n)"
    using read_rows_ok [OF at(1), of s' k n "k + 1" res "[]"] at(2) k c1 by auto
  then show ?thesis
    using s s' c1 facts(1,2,3) by (simp add: readNextBatchOfRowsFromOffsetCsc_def)
qed

subsection \<open>The backward search\<close>

lemma prev_loop_ok:
  assumes "stored w c rs" and "1 \<le> n" "n \<le> length rs"
  shows "\<exists>c' m. prev_loop w c (int n) (int (row_offset rs (n - 1))) start rows =
      (c', int m, int (row_offset rs (m - 1)), rows + Suc (n - m)) \<and> 1 \<le> m \<and> m \<le> n \<and>
      (2 \<le> n \<longrightarrow> 2 \<le> m) \<and> only_offset c c' \<and> m_ioe c' = 0 \<and> stored w c' rs"
  using assms
proof (induction n arbitrary: c start rows)
  case 0
  then show ?case by simp
next
  case (Suc n)
  note prems = Suc.prems
  show ?case
  proof (cases "n \<le> 1")
    case True
    have "prev_loop w c (int (Suc n)) (int (row_offset rs n)) start rows =
        (c, int (Suc n), int (row_offset rs n), Suc rows)"
      using True by (subst prev_loop.simps) simp
    moreover have "only_offset c c" by (simp add: only_offset_def)
    ultimately show ?thesis
      using prems storedD(4) [OF prems(1)] by (intro exI [of _ c] exI [of _ "Suc n"]) simp
  next
    case False
    then have n: "1 \<le> n" "n \<le> length rs" "2 \<le> n" using prems by simp_all
    obtain c1 where c1: "readDataFileOffsetCsc w c (int n) = (int (row_offset rs (n - 1)), c1)"
      "only_offset c c1" "m_ioe c1 = 0" "stored w c1 rs"
      using readDataFileOffset_ok [OF prems(1) n(1,2)] by blast
    let ?d = "int (row_offset rs n) - int (row_offset rs (n - 1))"
    obtain reach c2 where c2: "checkForThresholdLimitReachCsc c1 (m_cols c1) ?d False = (reach, c2)"
      by fastforce
    then obtain mem where mem: "c2 = c1\<lparr>m_inMemoryResultSizeFromFile := mem\<rparr>"
      using checkThreshold_frame [of c1 "m_cols c1" ?d] by auto
    have st2: "stored w c2 rs"
      using stored_frame [OF c1(4), of c2] mem c1(3) storedD(3) [OF c1(4)]
      by (simp add: rd_frame_def)
    have oo: "only_offset c c2"
      by (rule only_offset_trans [OF c1(2)]) (simp add: only_offset_def mem)
    have ioe: "m_ioe c2 = 0" using mem c1(3) by simp
    have unf: "prev_loop w c (int (Suc n)) (int (row_offset rs n)) start rows =
        (if reach then (c2, int (Suc n), int (row_offset rs n), Suc rows)
         else prev_loop w c2 (int n) (int (row_offset rs (n - 1))) (int (row_offset rs n)) (Suc rows))"
      using False c1(1) c2 by (subst prev_loop.simps) simp
    show ?thesis
    proof (cases reach)
      case True
      with unf oo ioe st2 prems n show ?thesis
        by (intro exI [of _ c2] exI [of _ "Suc n"]) simp
    next
      case False
      obtain c' m where ih: "prev_loop w c2 (int n) (int (row_offset rs (n - 1))) (int (row_offset rs n)) (Suc rows) =
          (c', int m, int (row_offset rs (m - 1)), Suc rows + Suc (n - m))" "1 \<le> m" "m \<le> n" "2 \<le> m"
          "only_offset c2 c'" "m_ioe c' = 0" "stored w c' rs"
        using Suc.IH [OF st2 n(1,2)] n(3) by blast
      have "only_offset c c'" by (rule only_offset_trans [OF oo ih(5)])
      with unf False ih show ?thesis
        by (intro exI [of _ c'] exI [of _ m]) (simp add: Suc_diff_le)
    qed
  qed
qed

lemma at_data_only_offset: "only_offset c c' \<Longrightarrow> at_data w c \<Longrightarrow> at_data w c'"
  by (auto simp: at_data_def only_offset_sel rd_frame_sel [OF only_offset_sel(6)])

lemma previousFrom_ok:
  assumes st: "stored w c rs" and dat: "at_data w c" and n: "1 \<le> n" "n \<le> length rs"
  shows "\<exists>m c' res'. readPreviousBatchOfRowsFromRowNumberCsc w c (int n) res =
      (Some (seg rs (m - 1) (Suc n - m)), c', res') \<and> 1 \<le> m \<and> m \<le> n \<and> (2 \<le> n \<longrightarrow> 2 \<le> m) \<and>
      window w c' rs m n"
proof -
  obtain c1 where c1: "readDataFileOffsetCsc w c (int n) = (int (row_offset rs (n - 1)), c1)"
    "only_offset c c1" "m_ioe c1 = 0" "stored w c1 rs"
    using readDataFileOffset_ok [OF st n] by blast
  let ?c1 = "c1\<lparr>m_inMemoryResultSizeFromFile := 0\<rparr>"
  have st1: "stored w ?c1 rs"
    using stored_frame [OF c1(4), of ?c1] c1(3) storedD(3) [OF c1(4)] by (simp add: rd_frame_def)
  have oo1: "only_offset c ?c1"
    by (rule only_offset_trans [OF c1(2)]) (simp add: only_offset_def)
  obtain c2 m where m: "prev_loop w ?c1 (int n) (int (row_offset rs (n - 1))) (int (row_offset rs (n - 1))) 0 =
      (c2, int m, int (row_offset rs (m - 1)), 0 + Suc (n - m))" "1 \<le> m" "m \<le> n" "2 \<le> n \<longrightarrow> 2 \<le> m"
      "only_offset ?c1 c2" "m_ioe c2 = 0" "stored w c2 rs"
    using prev_loop_ok [OF st1 n] by blast
  have dat2: "at_data w c2"
    by (rule at_data_only_offset [OF m(5) at_data_only_offset [OF oo1 dat]])
  have len: "m - 1 + Suc (n - m) \<le> length rs" using m n by simp
  have eqs: "int (m - 1) + 1 = int m" "m - 1 + 1 = m" "Suc (n - m) = Suc n - m" "m - 1 + (Suc n - m) = n"
    using m by simp_all
  obtain c' res' where c': "readNextBatchOfRowsFromOffsetCsc w c2 (int (row_offset rs (m - 1))) (int m)
      (Suc (n - m)) res = (Some (seg rs (m - 1) (Suc n - m)), c', res')" "window w c' rs m n"
    using fromOffset_ok [OF m(7) dat2 len, of res] unfolding eqs by blast
  have "readPreviousBatchOfRowsFromRowNumberCsc w c (int n) res =
      (Some (seg rs (m - 1) (Suc n - m)), c', res')"
    using c1(1,3) m(1,6) c'(1) n(1) by (simp add: readPreviousBatchOfRowsFromRowNumberCsc_def)
  with m(2-4) c'(2) show ?thesis by blast
qed

subsection \<open>What the batch operations return\<close>

lemma next_ok:
  assumes win: "window w c rs a b"
  shows "\<exists>j c' res'. readNextBatchOfRowsCsc w c res = Some (Some (seg rs b j), c', res') \<and>
    b + j \<le> length rs \<and> (b < length rs \<longrightarrow> 0 < j) \<and>
    window w c' rs (if b < length rs then b + 1 else a) (b + j)"
proof -
  note D = windowD [OF win]
  note facts = storedD [OF D(1)]
  obtain c1 s where c1: "checkAndOpenInputStreamCsc w c True = (0, c1)" "opened c c1"
    "m_cscInputStream c1 = Some s" "rd_at w (m_fileName c) (m_resultsettype c) s rs b" "stored w c1 rs"
    using checkAndOpen_ok [OF win, of True] by auto
  note sel = opened_sel [OF c1(2)] and sel' = rd_frame_sel [OF opened_sel(6) [OF c1(2)]]
  let ?a = "if b < length rs then b + 1 else a"
  let ?c2 = "if b < length rs then c1\<lparr>m_ioe := 0, m_firstRowNumberInMem := int b + 1\<rparr> else c1\<lparr>m_ioe := 0\<rparr>"
  have st2: "stored w ?c2 rs"
    by (rule stored_frame [OF c1(5)]) (use storedD(3) [OF c1(5)] in \<open>simp_all add: rd_frame_def\<close>)
  have "\<exists>j c' res'. readNextBatchOfRowsUntilThresholdCsc w ?c2 res True = Some (Some (seg rs b j), c', res') \<and>
      b + j \<le> length rs \<and> (b < length rs \<longrightarrow> 0 < j) \<and> window w c' rs ?a (b + j)"
    by (rule until_window [OF st2, where s = s]) (use c1(3,4) D sel sel' in auto)
  then obtain j c' res' where r: "readNextBatchOfRowsUntilThresholdCsc w ?c2 res True =
      Some (Some (seg rs b j), c', res')" "b + j \<le> length rs" "b < length rs \<longrightarrow> 0 < j"
      "window w c' rs ?a (b + j)" by blast
  have noj: "\<not> b < length rs \<longrightarrow> seg rs b j = []" using r(2) by (auto simp: seg_def)
  have "readNextBatchOfRowsCsc w c res = Some (Some (seg rs b j), c', res')"
    using r(1) noj c1(1,3) D(2,3,6) sel sel' facts
    by (cases "b < length rs") (simp_all add: readNextBatchOfRowsCsc_def Let_def)
  with r show ?thesis by blast
qed

lemma previous_ok:
  assumes win: "window w c rs a b" and a: "1 < a"
  shows "\<exists>m c' res'. readPreviousBatchOfRowsCsc w c res = (Some (seg rs (m - 1) (a - m)), c', res') \<and>
    1 \<le> m \<and> m < a \<and> (3 \<le> a \<longrightarrow> 2 \<le> m) \<and> window w c' rs m (a - 1)"
proof -
  note D = windowD [OF win]
  note facts = storedD [OF D(1)]
  have dat: "at_data w c"
    using window_open [OF win a] rd_at_dopen by (metis at_data_def)
  have le: "1 \<le> a - 1" "a - 1 \<le> length rs" using a D(5,6) by simp_all
  obtain m c' res' where r: "readPreviousBatchOfRowsFromRowNumberCsc w c (int (a - 1)) res =
      (Some (seg rs (m - 1) (Suc (a - 1) - m)), c', res')" "1 \<le> m" "m \<le> a - 1" "2 \<le> a - 1 \<longrightarrow> 2 \<le> m"
      "window w c' rs m (a - 1)"
    using previousFrom_ok [OF D(1) dat le, of res] by blast
  have "readPreviousBatchOfRowsCsc w c res = (Some (seg rs (m - 1) (a - m)), c', res')"
    using r(1) a D(2) facts(1,2) by (simp add: readPreviousBatchOfRowsCsc_def of_nat_diff)
  with r a show ?thesis by (intro exI [of _ m] exI [of _ c'] exI [of _ res']) simp
qed

lemma last_ok:
  assumes win: "window w c rs a b" and b: "b < length rs"
  shows "\<exists>m c' res'. readLastBatchOfRowsCsc w c res =
      Some (Some (seg rs (m - 1) (Suc (length rs) - m)), c', res') \<and>
    1 \<le> m \<and> m \<le> length rs \<and> window w c' rs m (length rs)"
proof -
  note D = windowD [OF win]
  note facts = storedD [OF D(1)]
  obtain c1 s where c1: "checkAndOpenInputStreamCsc w c False = (0, c1)" "opened c c1"
    "m_cscInputStream c1 = Some s" "dopen (m_fileName c) (m_resultsettype c) s" "stored w c1 rs"
    using checkAndOpen_ok [OF win, of False] by auto
  note sel = opened_sel [OF c1(2)] and sel' = rd_frame_sel [OF opened_sel(6) [OF c1(2)]]
  have c1': "c1\<lparr>m_ioe := 0\<rparr> = c1" using sel(4) facts(4) by (cases c1) simp
  have dat: "at_data w c1" using c1(3,4) sel' by (simp add: at_data_def)
  have "1 \<le> length rs" using b by simp
  from previousFrom_ok [OF c1(5) dat this order_refl, of res] obtain m c' res' where
    r: "readPreviousBatchOfRowsFromRowNumberCsc w c1 (int (length rs)) res =
      (Some (seg rs (m - 1) (Suc (length rs) - m)), c', res')" "1 \<le> m" "m \<le> length rs"
      "window w c' rs m (length rs)" by blast
  have "readLastBatchOfRowsCsc w c res = Some (Some (seg rs (m - 1) (Suc (length rs) - m)), c', res')"
    using r(1) c1(1) b D(3) facts storedD(4) [OF c1(5)]
    by (simp add: readLastBatchOfRowsCsc_def c1')
  with r show ?thesis by blast
qed

lemma first_ok:
  assumes win: "window w c rs a b" and a: "1 < a"
  shows "\<exists>j c' res'. readFirstBatchOfRowsCsc w c res = Some (Some (seg rs 0 j), c', res') \<and>
    0 < j \<and> j \<le> length rs \<and> window w c' rs 1 j"
proof -
  note D = windowD [OF win]
  note facts = storedD [OF D(1)]
  obtain s where s: "m_cscInputStream c = Some s" "rd_at w (m_fileName c) (m_resultsettype c) s rs b"
    by (rule window_open [OF win a])
  have chk: "checkAndOpenInputStreamCsc w c False = (0, c)" using s by (simp add: checkAndOpenInputStreamCsc_def)
  have c': "c\<lparr>m_ioe := 0\<rparr> = c" using facts(4) by (cases c) simp
  obtain s' c1 where c1: "seekCscInputStream s 0 = (0, s')"
    "c1 = c\<lparr>m_cscInputStream := Some s', m_ioe := 0, m_firstRowNumberInMem := 1, m_lastRowNumberInMem := 0\<rparr>"
    "stored w c1 rs" "rd_at w (m_fileName c) (m_resultsettype c) s' rs 0"
    using seek_window [OF D(1) s(1) rd_at_dopen [OF s(2)], of 0] by (auto simp: row_offset_def)
  have "\<exists>j c' res'. readNextBatchOfRowsUntilThresholdCsc w c1 res False = Some (Some (seg rs 0 j), c', res') \<and>
      0 + j \<le> length rs \<and> (0 < length rs \<longrightarrow> 0 < j) \<and> window w c' rs 1 (0 + j)"
    by (rule until_window [OF c1(3), where s = s']) (use c1(2,4) in simp_all)
  then obtain j c'' res' where r: "readNextBatchOfRowsUntilThresholdCsc w c1 res False =
      Some (Some (seg rs 0 j), c'', res')" "j \<le> length rs" "0 < length rs \<longrightarrow> 0 < j" "window w c'' rs 1 j"
    by auto
  have "readFirstBatchOfRowsCsc w c res = Some (Some (seg rs 0 j), c'', res')"
    using r(1) chk c' s(1) c1(1,2) a D(2) facts by (simp add: readFirstBatchOfRowsCsc_def)
  moreover have "0 < j" using r(3) a D(5,6) by fastforce
  ultimately show ?thesis using r by blast
qed

text \<open>The row an absolute position means: counted from the end when it is negative.\<close>

definition abs_row :: "row list \<Rightarrow> int \<Rightarrow> int" where
  "abs_row rs index = (if index < 0 then int (length rs) + index + 1 else index)"

lemma absolute_unfold:
  assumes win: "window w c rs a b"
  shows "\<exists>wc. readAbsoluteBatchOfRowsCsc w c res (Some index) =
    (let n = abs_row rs index in
     if 0 < n \<and> n \<le> int (length rs) then
       (if n < int a \<or> int b < n then
          (case checkAndOpenInputStreamCsc w c False of (rc, c2) \<Rightarrow>
            (let c3 = c2\<lparr>m_ioe := rc\<rparr> in
             map_option (\<lambda>((ts, c2, res2), seek_failed). ((ts, c2, res2),
                 Some (if seek_failed then index else n - m_firstRowNumberInMem c2 + 1)))
             (if m_ioe c3 = 0 then
               (case readDataFileOffsetCsc w c3 n of (rowOffset, c4) \<Rightarrow>
                 if rowOffset \<noteq> -1 then
                   (case seekCscInputStream (the (m_cscInputStream c4)) rowOffset of (e, s) \<Rightarrow>
                     (let c5 = c4\<lparr>m_cscInputStream := Some s, m_ioe := e,
                                m_firstRowNumberInMem := n, m_lastRowNumberInMem := n - 1\<rparr>
                      in if m_ioe c5 \<noteq> 0 then Some ((None, c5, res), True)
                         else map_option (\<lambda>b. (b, False))
                                (readNextBatchOfRowsUntilThresholdCsc w c5 res wc)))
                 else Some ((None, c4, res), False))
             else Some ((None, c3, res), False))))
        else Some ((None, c, res), Some (n - int a + 1)))
     else Some ((None, c, res), Some index))"
proof -
  note D = windowD [OF win]
  note facts = storedD [OF D(1)]
  have tc: "m_totalCommitedRows c = int (length rs)" using D(1) by (simp add: stored_def)
  let ?wc = "0 \<le> index \<and> \<not> int (length rs) < index"
  have "(if index < 0 then map_option (\<lambda>c0. (c0, False, m_totalRows c0 + index + 1))
          (waitForFullResultReadFromServerCsc c)
      else if 0 < index \<and> m_totalCommitedRows c < index then
        map_option (\<lambda>(c0, wc). (c0, wc, index)) (wait_batches (\<lambda>c'. m_totalCommitedRows c' < index) c)
      else Some (c, True, index)) = Some (c, ?wc, abs_row rs index)"
    using facts(5,7) tc by (auto simp: abs_row_def)
  then show ?thesis
    using facts(1,2,7) D(2,3)
    by (intro exI [of _ ?wc]) (simp add: readAbsoluteBatchOfRowsCsc_def Let_def split: prod.split)
qed

lemma absolute_ok:
  assumes win: "window w c rs a b" and n: "abs_row rs index = int n" "1 \<le> n" "n \<le> length rs"
    and out: "n < a \<or> b < n"
  shows "\<exists>j c' res'. readAbsoluteBatchOfRowsCsc w c res (Some index) =
      Some ((Some (seg rs (n - 1) j), c', res'), Some 1) \<and> 0 < j \<and> n - 1 + j \<le> length rs \<and>
    window w c' rs n (n - 1 + j)"
proof -
  note D = windowD [OF win]
  note facts = storedD [OF D(1)]
  obtain c1 s where c1: "checkAndOpenInputStreamCsc w c False = (0, c1)" "opened c c1"
    "m_cscInputStream c1 = Some s" "dopen (m_fileName c) (m_resultsettype c) s" "stored w c1 rs"
    using checkAndOpen_ok [OF win, of False] by auto
  note sel = opened_sel [OF c1(2)] and sel' = rd_frame_sel [OF opened_sel(6) [OF c1(2)]]
  have c1': "c1\<lparr>m_ioe := 0\<rparr> = c1" using sel(4) facts(4) by (cases c1) simp
  obtain c2 where c2: "readDataFileOffsetCsc w c1 (int n) = (int (row_offset rs (n - 1)), c2)"
    "only_offset c1 c2" "stored w c2 rs"
    using readDataFileOffset_ok [OF c1(5) n(2,3)] by blast
  note sel2 = only_offset_sel [OF c2(2)] and sel2' = rd_frame_sel [OF only_offset_sel(6) [OF c2(2)]]
  have s2: "m_cscInputStream c2 = Some s" "dopen (m_fileName c2) (m_resultsettype c2) s"
    using c1(3,4) sel' sel2 sel2' by simp_all
  have le: "n - 1 \<le> length rs" using n by simp
  have int1: "int (n - 1) + 1 = int n" "int (n - 1) = int n - 1" using n by simp_all
  obtain s' c3 where c3: "seekCscInputStream s (int (row_offset rs (n - 1))) = (0, s')"
    "c3 = c2\<lparr>m_cscInputStream := Some s', m_ioe := 0, m_firstRowNumberInMem := int n, m_lastRowNumberInMem := int n - 1\<rparr>"
    "stored w c3 rs" "rd_at w (m_fileName c2) (m_resultsettype c2) s' rs (n - 1)"
    using seek_window [OF c2(3) s2 le] int1 by auto
  have "\<exists>j c' res'. readNextBatchOfRowsUntilThresholdCsc w c3 res wc = Some (Some (seg rs (n - 1) j), c', res') \<and>
      n - 1 + j \<le> length rs \<and> (n - 1 < length rs \<longrightarrow> 0 < j) \<and> window w c' rs n (n - 1 + j)" for wc
    by (rule until_window [OF c3(3), where s = s']) (use c3(2,4) n int1 in auto)
  then have "\<exists>j c' res'. readNextBatchOfRowsUntilThresholdCsc w c3 res wc = Some (Some (seg rs (n - 1) j), c', res') \<and>
      n - 1 + j \<le> length rs \<and> 0 < j \<and> window w c' rs n (n - 1 + j)" for wc
    using n by (metis Suc_le_eq Suc_pred' less_eq_Suc_le zero_less_one order_less_le_trans)
  moreover obtain wc where unf: "readAbsoluteBatchOfRowsCsc w c res (Some index) =
      map_option (\<lambda>((ts, c2, res2), seek_failed). ((ts, c2, res2),
                 Some (if seek_failed then index else int n - m_firstRowNumberInMem c2 + 1)))
        (map_option (\<lambda>b. (b, False)) (readNextBatchOfRowsUntilThresholdCsc w c3 res wc))"
    using absolute_unfold [OF win, of res index] n out c1(1) c1' c2(1) s2(1) c3(1,2) storedD(4) [OF c1(5)]
    by (auto simp: Let_def)
  ultimately obtain j c' res' where r: "readNextBatchOfRowsUntilThresholdCsc w c3 res wc =
      Some (Some (seg rs (n - 1) j), c', res')" "n - 1 + j \<le> length rs" "0 < j" "window w c' rs n (n - 1 + j)"
    by blast
  then show ?thesis
    using unf windowD(2) [OF r(4)] by (intro exI [of _ j] exI [of _ c'] exI [of _ res']) simp
qed

lemma absolute_inside:
  assumes win: "window w c rs a b" and "int a \<le> abs_row rs index" "abs_row rs index \<le> int b"
  shows "readAbsoluteBatchOfRowsCsc w c res (Some index) =
    Some ((None, c, res), Some (abs_row rs index - int a + 1))"
  using absolute_unfold [OF win, of res index] windowD [OF win] assms(2,3) by (auto simp: Let_def)

lemma absolute_outside:
  assumes win: "window w c rs a b" and "abs_row rs index < 1 \<or> int (length rs) < abs_row rs index"
  shows "readAbsoluteBatchOfRowsCsc w c res (Some index) = Some ((None, c, res), Some index)"
  using absolute_unfold [OF win, of res index] assms(2) by (auto simp: Let_def)

end
