(* ===== verification/Csc_Promises.thy ===== *)
theory Csc_Promises
  imports Csc_Navigate
begin

text \<open>
  The contract of the batch operations on a completely stored scrollable result, as the statement
  code calls them (\<^verbatim>\<open>pgRead...BatchOfRowsCsc\<close>). The invariant \<open>window w c rs a b\<close> says that
  the files are the images of the rows \<open>rs\<close> and rows \<open>a..b\<close> are in memory.
\<close>

subsection \<open>A concrete cursor\<close>

definition demo_rows :: "row list" where
  "demo_rows = [[\<lparr>att_len = 1, att_value = Some [97]\<rparr>], [\<lparr>att_len = -1, att_value = None\<rparr>],
     [\<lparr>att_len = 2, att_value = Some [98, 99]\<rparr>]]"

definition demo_world :: world where
  "demo_world = \<lparr>w_files = [''d'' \<mapsto> data_image demo_rows, ''o'' \<mapsto> offs_image demo_rows], w_room = 1000,
     w_badpos = (\<lambda>_. None), w_noopen = (\<lambda>_. False), w_noremove = (\<lambda>_. False), w_nomem = False,
     w_fd = 3, w_fsync = 0, w_platform = LINUX\<rparr>"

definition demo_stream :: "nat \<Rightarrow> istream" where
  "demo_stream k = \<lparr>m_dataInputStream = Some \<lparr>if_path = ''d'', if_pos = row_offset demo_rows k, if_eof = False\<rparr>,
     is_resultsettype = 3, is_error = 0, is_eof = False, is_null_use = False\<rparr>"

definition demo_csc :: "nat \<Rightarrow> nat \<Rightarrow> csc" where
  "demo_csc a b = \<lparr>m_self = 1, m_alreadyReachedThreshold = True, m_rawRowLength = 0, m_rowCount = 3,
     m_maxRows = 0, m_maxRowsReached = False, m_fileName = ''d'', m_offsetFileName = ''o'',
     m_cscOptions = \<lparr>m_enable = True, m_threshold = 1, m_maxfilesize = 0, m_path = []\<rparr>,
     m_cscOutputStream = None, m_inMemoryResultSize = 0, m_fileCreated = True,
     m_rawRowLengthFromFile = 0, m_cscInputStream = Some (demo_stream b), m_endOfInputStream = False,
     m_inMemoryResultSizeFromFile = 0, m_resultsettype = 3, m_firstReadFromFileOffset = 0,
     m_cscOffsetOutputStream = None, m_firstRowNumberInMem = int a, m_lastRowNumberInMem = int b,
     m_totalRows = 3, m_totalCommitedRows = 3, m_cscOffsetInputStream = None, m_cols = 1,
     m_connectionPid = 1, m_cscLock = None, m_executeIndex = 0, m_skipResult = False, m_ioe = 0\<rparr>"

definition demo_res :: pgres where
  "demo_res = \<lparr>ntups = 0, tuples = None, m_tuplesAllocatedByCscRead = False, numAttributes = 1\<rparr>"

lemma demo_stored: "stored demo_world (demo_csc a b) demo_rows"
proof -
  have "length (data_image demo_rows) < 2 ^ 63" "length demo_rows = 3"
    by (simp_all add: demo_rows_def row_bytes_def att_bytes_def norm_att_def att_data_def)
  moreover have "\<forall>r \<in> set demo_rows. row_wf r"
    by (simp add: demo_rows_def row_wf_def att_wf_def)
  ultimately show ?thesis
    by (simp add: stored_def demo_csc_def demo_world_def isFullResultReadFromServerCsc_def
        doesItForwardOnlyCursor_def)
qed

lemma demo_window: "1 \<le> a \<Longrightarrow> a \<le> b + 1 \<Longrightarrow> b \<le> 3 \<Longrightarrow> window demo_world (demo_csc a b) demo_rows a b"
  using demo_stored [of a b] row_offset_le [of demo_rows b]
  by (simp add: window_def demo_csc_def demo_stream_def rd_at_def rd_ok_def upcoming_def drop_row_offset
      demo_world_def content_def) (simp add: demo_rows_def)

lemma demo_length [simp]: "length demo_rows = 3"
  by (simp add: demo_rows_def)

lemma ioe_reset: "window w c rs a b \<Longrightarrow> c\<lparr>m_ioe := 0\<rparr> = c \<and> m_ioe c = 0"
proof -
  assume "window w c rs a b"
  then have e: "m_ioe c = 0" using storedD(4) windowD(1) by blast
  then have "c\<lparr>m_ioe := 0\<rparr> = c" by (cases c) simp
  with e show ?thesis by simp
qed

lemma put_batch_rows:
  assumes "window w c rs a b" and "0 < j" and "k + j \<le> length rs"
  obtains res' where "put_batch (Some (seg rs k j), c, res) = (True, 0, c, res')"
    "tuples res' = Some (seg rs k j)" "ntups res' = int j"
proof -
  have "seg rs k j \<noteq> []" using assms(2,3) by (simp add: seg_empty_iff)
  then have "put_batch (Some (seg rs k j), c, res) = (True, 0, c, res\<lparr>ntups := int j, tuples := Some (seg rs k j),
      m_tuplesAllocatedByCscRead := True\<rparr>)"
    using ioe_reset [OF assms(1)] assms(3) by (simp add: put_batch_def length_seg)
  then show ?thesis by (rule that) simp_all
qed

subsection \<open>The operations\<close>

lemma pg_next_ok:
  assumes "window w c rs a b"
  shows "\<exists>j c' res'. pgReadNextBatchOfRowsCsc w c res = Some (b < length rs, 0, c', res') \<and>
    b + j \<le> length rs \<and>
    (b < length rs \<longrightarrow> 0 < j \<and> tuples res' = Some (seg rs b j) \<and> ntups res' = int j) \<and>
    window w c' rs (if b < length rs then b + 1 else a) (b + j)"
proof -
  obtain j c' res' where r: "readNextBatchOfRowsCsc w c res = Some (Some (seg rs b j), c', res')"
    "b + j \<le> length rs" "b < length rs \<longrightarrow> 0 < j"
    "window w c' rs (if b < length rs then b + 1 else a) (b + j)"
    using next_ok [OF assms] by blast
  have "(seg rs b j \<noteq> []) = (b < length rs)"
    using r(2,3) by (auto simp: seg_empty_iff)
  then show ?thesis
    using r ioe_reset [OF r(4)]
    by (auto simp: pgReadNextBatchOfRowsCsc_def put_batch_def Let_def length_seg)
qed

text \<open>
  The application's loop: next-batch calls until one returns false, at most \<open>n\<close> of them.
\<close>

fun next_rows :: "nat \<Rightarrow> world \<Rightarrow> csc \<Rightarrow> pgres \<Rightarrow> row option list option" where
  "next_rows 0 w c res = Some []"
| "next_rows (Suc n) w c res =
     (case pgReadNextBatchOfRowsCsc w c res of
        None \<Rightarrow> None
      | Some (got, e, c', res') \<Rightarrow>
          if got then map_option (\<lambda>ts. the (tuples res') @ ts) (next_rows n w c' res') else Some [])"

lemma seg_append:
  "seg rs b j @ map (\<lambda>r. Some (norm_row r)) (drop (b + j) rs) = map (\<lambda>r. Some (norm_row r)) (drop b rs)"
proof -
  have "take j (drop b rs) @ drop (b + j) rs = drop b rs"
    using append_take_drop_id [of j "drop b rs"] by (simp add: add.commute)
  then show ?thesis by (simp add: seg_def flip: map_append)
qed

lemma next_rows_ok:
  assumes "window w c rs a b" and "length rs - b < n"
  shows "next_rows n w c res = Some (map (Some \<circ> norm_row) (drop b rs))"
  using assms
proof (induction n arbitrary: c res a b)
  case (Suc n)
  obtain j c' res' where r: "pgReadNextBatchOfRowsCsc w c res = Some (b < length rs, 0, c', res')"
    "b + j \<le> length rs" "b < length rs \<longrightarrow> 0 < j \<and> tuples res' = Some (seg rs b j)"
    "window w c' rs (if b < length rs then b + 1 else a) (b + j)"
    using pg_next_ok [OF Suc.prems(1)] by blast
  show ?case
  proof (cases "b < length rs")
    case True
    then have "length rs - (b + j) < n" using Suc.prems(2) r(3) by auto
    from Suc.IH [OF r(4) this, of res'] r(1,3) True show ?thesis by (simp add: seg_append o_def)
  next
    case False
    then show ?thesis using r(1) by simp
  qed
qed simp

text \<open>
  Property C20. The next batch continues exactly behind the rows in memory: it is the contiguous
  segment of the stored rows from row \<open>b + 1\<close>, not empty unless all rows were handed out, no
  error is reported, and the window moves to it. When no row is left the call returns false and
  the window stays.
\<close>

theorem next_batch_continues:
  assumes "window w c rs a b"
  shows "\<exists>j c' res'. pgReadNextBatchOfRowsCsc w c res = Some (b < length rs, 0, c', res') \<and>
    b + j \<le> length rs \<and>
    (b < length rs \<longrightarrow> 0 < j \<and> tuples res' = Some (seg rs b j) \<and> ntups res' = int j) \<and>
    window w c' rs (if b < length rs then b + 1 else a) (b + j)"
  by (rule pg_next_ok [OF assms])

theorem next_batch_continues_witness:
  "\<exists>j c' res'. pgReadNextBatchOfRowsCsc demo_world (demo_csc 1 1) demo_res = Some (True, 0, c', res') \<and>
    0 < j \<and> tuples res' = Some (seg demo_rows 1 j)"
  using next_batch_continues [OF demo_window [of 1 1], of demo_res] by auto

lemma pg_previous_ok:
  assumes "window w c rs a b"
  shows "if 1 < a then \<exists>m c' res'. pgReadPreviousBatchOfRowsCsc w c res = (True, 0, c', res') \<and>
      1 \<le> m \<and> m < a \<and> (3 \<le> a \<longrightarrow> 2 \<le> m) \<and> tuples res' = Some (seg rs (m - 1) (a - m)) \<and>
      ntups res' = int (a - m) \<and> window w c' rs m (a - 1)
    else pgReadPreviousBatchOfRowsCsc w c res = (False, 0, c, res)"
proof (cases "1 < a")
  case True
  obtain m c' res' where r: "readPreviousBatchOfRowsCsc w c res = (Some (seg rs (m - 1) (a - m)), c', res')"
    "1 \<le> m" "m < a" "3 \<le> a \<longrightarrow> 2 \<le> m" "window w c' rs m (a - 1)"
    using previous_ok [OF assms True] by blast
  have "0 < a - m" "m - 1 + (a - m) \<le> length rs" using r(2,3) windowD(5,6) [OF assms] by simp_all
  from put_batch_rows [OF r(5) this, of res'] obtain res1 where
    "pgReadPreviousBatchOfRowsCsc w c res = (True, 0, c', res1)"
    "tuples res1 = Some (seg rs (m - 1) (a - m))" "ntups res1 = int (a - m)"
    unfolding pgReadPreviousBatchOfRowsCsc_def r(1) by metis
  with True r(2-5) show ?thesis by auto
next
  case False
  then show ?thesis
    using windowD(1,2) [OF assms] ioe_reset [OF assms] storedD(1,2) [OF windowD(1) [OF assms]]
    by (simp add: pgReadPreviousBatchOfRowsCsc_def readPreviousBatchOfRowsCsc_def put_batch_def)
qed

text \<open>
  Property C22. The previous batch ends exactly before the rows in memory and becomes the window;
  at the first row the call returns false and changes nothing. The search for its start stops at
  row 2 (the source's loop guard), so row 1 is only delivered by a batch of its own.
\<close>

theorem previous_batch_ends_before:
  assumes "window w c rs a b"
  shows "if 1 < a then \<exists>m c' res'. pgReadPreviousBatchOfRowsCsc w c res = (True, 0, c', res') \<and>
      1 \<le> m \<and> m < a \<and> (3 \<le> a \<longrightarrow> 2 \<le> m) \<and> tuples res' = Some (seg rs (m - 1) (a - m)) \<and>
      ntups res' = int (a - m) \<and> window w c' rs m (a - 1)
    else pgReadPreviousBatchOfRowsCsc w c res = (False, 0, c, res)"
  by (rule pg_previous_ok [OF assms])

theorem previous_batch_ends_before_witness:
  "\<exists>m c' res'. pgReadPreviousBatchOfRowsCsc demo_world (demo_csc 3 3) demo_res = (True, 0, c', res') \<and>
    m = 2 \<and> tuples res' = Some (seg demo_rows 1 1) \<and> window demo_world c' demo_rows 2 2"
proof -
  obtain m c' res' where r: "pgReadPreviousBatchOfRowsCsc demo_world (demo_csc 3 3) demo_res = (True, 0, c', res')"
    "m < 3" "2 \<le> m" "tuples res' = Some (seg demo_rows (m - 1) (3 - m))" "window demo_world c' demo_rows m (3 - 1)"
    using previous_batch_ends_before [OF demo_window [of 3 3], of demo_res] by auto
  then have "m = 2" by simp
  with r show ?thesis by auto
qed

lemma pg_first_ok:
  assumes "window w c rs a b"
  shows "if 1 < a then \<exists>j c' res'. pgReadFirstBatchOfRowsCsc w c res = Some (True, 0, c', res') \<and>
      0 < j \<and> j \<le> length rs \<and> tuples res' = Some (seg rs 0 j) \<and> ntups res' = int j \<and> window w c' rs 1 j
    else pgReadFirstBatchOfRowsCsc w c res = Some (False, 0, c, res)"
proof (cases "1 < a")
  case True
  obtain j c' res' where r: "readFirstBatchOfRowsCsc w c res = Some (Some (seg rs 0 j), c', res')"
    "0 < j" "j \<le> length rs" "window w c' rs 1 j"
    using first_ok [OF assms True] by blast
  from put_batch_rows [OF r(4,2), of 0 res'] r(3) obtain res1 where
    "pgReadFirstBatchOfRowsCsc w c res = Some (True, 0, c', res1)"
    "tuples res1 = Some (seg rs 0 j)" "ntups res1 = int j"
    unfolding pgReadFirstBatchOfRowsCsc_def r(1) by auto
  with True r(2-4) show ?thesis by auto
next
  case False
  then show ?thesis
    using windowD(1,2) [OF assms] ioe_reset [OF assms] storedD(1,2) [OF windowD(1) [OF assms]]
    by (simp add: pgReadFirstBatchOfRowsCsc_def readFirstBatchOfRowsCsc_def put_batch_def)
qed

text \<open>
  The first batch starts at row 1 and is not empty; when row 1 is in memory already
  the call returns false and changes nothing.
\<close>

theorem first_batch_starts_at_row_one:
  assumes "window w c rs a b"
  shows "if 1 < a then \<exists>j c' res'. pgReadFirstBatchOfRowsCsc w c res = Some (True, 0, c', res') \<and>
      0 < j \<and> j \<le> length rs \<and> tuples res' = Some (seg rs 0 j) \<and> ntups res' = int j \<and> window w c' rs 1 j
    else pgReadFirstBatchOfRowsCsc w c res = Some (False, 0, c, res)"
  by (rule pg_first_ok [OF assms])

theorem first_batch_starts_at_row_one_witness:
  "\<exists>j c' res'. pgReadFirstBatchOfRowsCsc demo_world (demo_csc 3 3) demo_res = Some (True, 0, c', res') \<and>
    0 < j \<and> window demo_world c' demo_rows 1 j"
  using first_batch_starts_at_row_one [OF demo_window [of 3 3], of demo_res] by auto

lemma pg_last_ok:
  assumes "window w c rs a b"
  shows "if b < length rs then \<exists>m c' res'. pgReadLastBatchOfRowsCsc w c res = Some (True, 0, c', res') \<and>
      1 \<le> m \<and> m \<le> length rs \<and> tuples res' = Some (seg rs (m - 1) (Suc (length rs) - m)) \<and>
      ntups res' = int (Suc (length rs) - m) \<and> window w c' rs m (length rs)
    else pgReadLastBatchOfRowsCsc w c res = Some (False, 0, c, res)"
proof (cases "b < length rs")
  case True
  obtain m c' res' where r: "readLastBatchOfRowsCsc w c res =
      Some (Some (seg rs (m - 1) (Suc (length rs) - m)), c', res')"
    "1 \<le> m" "m \<le> length rs" "window w c' rs m (length rs)"
    using last_ok [OF assms True] by blast
  have "0 < Suc (length rs) - m" "m - 1 + (Suc (length rs) - m) \<le> length rs" using r(2,3) by simp_all
  from put_batch_rows [OF r(4) this, of res'] obtain res1 where
    "pgReadLastBatchOfRowsCsc w c res = Some (True, 0, c', res1)"
    "tuples res1 = Some (seg rs (m - 1) (Suc (length rs) - m))" "ntups res1 = int (Suc (length rs) - m)"
    unfolding pgReadLastBatchOfRowsCsc_def r(1) by (metis option.simps(9))
  with True r(2-4) show ?thesis by auto
next
  case False
  then show ?thesis
    using windowD [OF assms] ioe_reset [OF assms] storedD [OF windowD(1) [OF assms]]
    by (simp add: pgReadLastBatchOfRowsCsc_def readLastBatchOfRowsCsc_def put_batch_def)
qed

text \<open>
  The last batch ends at the last row and is not empty; when the last row is in
  memory already the call returns false and changes nothing.
\<close>

theorem last_batch_ends_at_last_row:
  assumes "window w c rs a b"
  shows "if b < length rs then \<exists>m c' res'. pgReadLastBatchOfRowsCsc w c res = Some (True, 0, c', res') \<and>
      1 \<le> m \<and> m \<le> length rs \<and> tuples res' = Some (seg rs (m - 1) (Suc (length rs) - m)) \<and>
      ntups res' = int (Suc (length rs) - m) \<and> window w c' rs m (length rs)
    else pgReadLastBatchOfRowsCsc w c res = Some (False, 0, c, res)"
  by (rule pg_last_ok [OF assms])

theorem last_batch_ends_at_last_row_witness:
  "\<exists>m c' res'. pgReadLastBatchOfRowsCsc demo_world (demo_csc 1 1) demo_res = Some (True, 0, c', res') \<and>
    window demo_world c' demo_rows m 3"
  using last_batch_ends_at_last_row [OF demo_window [of 1 1], of demo_res] by auto

lemma pg_absolute_ok:
  assumes win: "window w c rs a b"
  shows "let n = abs_row rs index in
    if n < 1 \<or> int (length rs) < n then
      pgReadAbsoluteBatchOfRowsCsc w c res (Some index) = Some (False, 0, c, res, Some index)
    else if int a \<le> n \<and> n \<le> int b then
      pgReadAbsoluteBatchOfRowsCsc w c res (Some index) = Some (False, 0, c, res, Some (n - int a + 1))
    else \<exists>j c' res'. pgReadAbsoluteBatchOfRowsCsc w c res (Some index) = Some (True, 0, c', res', Some 1) \<and>
      0 < j \<and> tuples res' = Some (seg rs (nat n - 1) j) \<and> ntups res' = int j \<and>
      window w c' rs (nat n) (nat n - 1 + j)"
proof -
  let ?n = "abs_row rs index"
  consider (out) "?n < 1 \<or> int (length rs) < ?n"
    | (inside) "\<not> (?n < 1 \<or> int (length rs) < ?n)" "int a \<le> ?n" "?n \<le> int b"
    | (far) "1 \<le> ?n" "?n \<le> int (length rs)" "\<not> (int a \<le> ?n \<and> ?n \<le> int b)" by linarith
  then show ?thesis
  proof cases
    case out
    then show ?thesis
      using absolute_outside [OF win out, of res] ioe_reset [OF win]
      by (auto simp: pgReadAbsoluteBatchOfRowsCsc_def put_batch_def Let_def)
  next
    case inside
    then show ?thesis
      using absolute_inside [OF win inside(2,3), of res] ioe_reset [OF win]
      by (auto simp: pgReadAbsoluteBatchOfRowsCsc_def put_batch_def Let_def)
  next
    case far
    have "?n = int (nat ?n)" "1 \<le> nat ?n" "nat ?n \<le> length rs" "nat ?n < a \<or> b < nat ?n"
      using far by auto
    from absolute_ok [OF win this] obtain j c' res' where r: "readAbsoluteBatchOfRowsCsc w c res (Some index) =
        Some ((Some (seg rs (nat ?n - 1) j), c', res'), Some 1)" "0 < j" "nat ?n - 1 + j \<le> length rs"
        "window w c' rs (nat ?n) (nat ?n - 1 + j)" by blast
    then have "seg rs (nat ?n - 1) j \<noteq> []" by (auto simp: seg_empty_iff)
    with r have "pgReadAbsoluteBatchOfRowsCsc w c res (Some index) =
        Some (True, 0, c', res'\<lparr>ntups := int j, tuples := Some (seg rs (nat ?n - 1) j),
          m_tuplesAllocatedByCscRead := True\<rparr>, Some 1)"
      using ioe_reset [OF r(4)]
      by (simp add: pgReadAbsoluteBatchOfRowsCsc_def put_batch_def Let_def length_seg)
    with far r(2,4) show ?thesis by (auto simp: Let_def)
  qed
qed

text \<open>
  Property C21. The absolute position \<open>n\<close> (from the end when the index is negative): a row in
  memory is only indexed (\<open>*indexBuf\<close> becomes its place in the window, counted from 1), a row
  outside memory starts a new batch and gets index 1, and a position outside the result changes
  nothing.
\<close>

theorem absolute_batch_finds_row:
  assumes win: "window w c rs a b"
  shows "let n = abs_row rs index in
    if n < 1 \<or> int (length rs) < n then
      pgReadAbsoluteBatchOfRowsCsc w c res (Some index) = Some (False, 0, c, res, Some index)
    else if int a \<le> n \<and> n \<le> int b then
      pgReadAbsoluteBatchOfRowsCsc w c res (Some index) = Some (False, 0, c, res, Some (n - int a + 1))
    else \<exists>j c' res'. pgReadAbsoluteBatchOfRowsCsc w c res (Some index) = Some (True, 0, c', res', Some 1) \<and>
      0 < j \<and> tuples res' = Some (seg rs (nat n - 1) j) \<and> ntups res' = int j \<and>
      window w c' rs (nat n) (nat n - 1 + j)"
  by (rule pg_absolute_ok [OF win])

theorem absolute_batch_finds_row_witness:
  "\<exists>j c' res'. pgReadAbsoluteBatchOfRowsCsc demo_world (demo_csc 1 1) demo_res (Some (- 2)) =
      Some (True, 0, c', res', Some 1) \<and> 0 < j \<and> tuples res' = Some (seg demo_rows 1 j)"
proof -
  have "abs_row demo_rows (- 2) = 2" by (simp add: abs_row_def)
  then show ?thesis
    using absolute_batch_finds_row [OF demo_window [of 1 1], of "- 2" demo_res] by (auto simp: Let_def)
qed

end
