(* ===== verification/Csc_Spill.thy ===== *)
theory Csc_Spill
  imports Csc_Promises
begin

text \<open>
  Spilling a result of a scrollable cursor: creating the files, pushing the batch that is in
  memory, appending the rows that follow and closing the files leaves exactly the images of all
  rows on disk and the window on the first batch, from where the batch operations start.
\<close>

subsection \<open>Frames of the write path\<close>

text \<open>\<open>spill_frame\<close> is \<open>wr_frame\<close> up to the column count that the first row sets.\<close>

definition spill_frame :: "csc \<Rightarrow> csc \<Rightarrow> bool" where
  "spill_frame c c' \<longleftrightarrow> wr_frame (c\<lparr>m_cols := m_cols c'\<rparr>) c'"

lemma spill_frame_sel:
  assumes "spill_frame c c'"
  shows "m_fileName c' = m_fileName c" "m_offsetFileName c' = m_offsetFileName c"
    "m_resultsettype c' = m_resultsettype c" "m_cscOptions c' = m_cscOptions c"
    "m_fileCreated c' = m_fileCreated c" "m_firstRowNumberInMem c' = m_firstRowNumberInMem c"
    "m_cscInputStream c' = m_cscInputStream c"
    "m_cscOffsetInputStream c' = m_cscOffsetInputStream c" "m_endOfInputStream c' = m_endOfInputStream c"
    "m_lastRowNumberInMem c' = m_lastRowNumberInMem c"
    "m_firstReadFromFileOffset c' = m_firstReadFromFileOffset c"
  using wr_frame_sel [OF assms [unfolded spill_frame_def]] by simp_all

lemma wr_frame_trans:
  assumes "wr_frame a b" and "wr_frame b c"
  shows "wr_frame a c"
proof -
  obtain e1 os1 off1 t1 tc1 l1 where b: "b = a\<lparr>m_ioe := e1, m_cscOutputStream := os1,
     m_cscOffsetOutputStream := off1, m_totalRows := t1, m_totalCommitedRows := tc1, m_cscLock := l1\<rparr>"
    using assms(1) unfolding wr_frame_def by blast
  obtain e2 os2 off2 t2 tc2 l2 where c: "c = b\<lparr>m_ioe := e2, m_cscOutputStream := os2,
     m_cscOffsetOutputStream := off2, m_totalRows := t2, m_totalCommitedRows := tc2, m_cscLock := l2\<rparr>"
    using assms(2) unfolding wr_frame_def by blast
  show ?thesis by (simp add: wr_frame_def c b)
qed

lemma spill_frame_refl [simp]: "spill_frame c c"
  by (simp add: spill_frame_def wr_frame_def)

lemma wr_frame_cols: "wr_frame a b \<Longrightarrow> wr_frame (a\<lparr>m_cols := n\<rparr>) (b\<lparr>m_cols := n\<rparr>)"
proof -
  assume "wr_frame a b"
  then obtain e1 os1 off1 t1 tc1 l1 where b: "b = a\<lparr>m_ioe := e1, m_cscOutputStream := os1,
     m_cscOffsetOutputStream := off1, m_totalRows := t1, m_totalCommitedRows := tc1, m_cscLock := l1\<rparr>"
    unfolding wr_frame_def by blast
  show ?thesis by (simp add: wr_frame_def b)
qed

lemma spill_frame_trans: "spill_frame a b \<Longrightarrow> spill_frame b c \<Longrightarrow> spill_frame a c"
  unfolding spill_frame_def
  using wr_frame_cols [of "a\<lparr>m_cols := m_cols b\<rparr>" b "m_cols c"]
    wr_frame_trans [of "a\<lparr>m_cols := m_cols c\<rparr>" "b\<lparr>m_cols := m_cols c\<rparr>" c] by simp

lemma writing_cols: "writing w (c\<lparr>m_cols := n\<rparr>) rs k = writing w c rs k"
  by (simp add: writing_def)

subsection \<open>Appending rows\<close>

definition cost :: "row list \<Rightarrow> int" where
  "cost rs = int (length (data_image rs)) + 8 * int (length rs)"

lemma cost_simps [simp]:
  "cost [] = 0" "cost (r # rs) = int (length (row_bytes r)) + 8 + cost rs" "0 \<le> cost rs"
  by (simp_all add: cost_def)

lemma cost_room: "cost (r # qs) \<le> n \<Longrightarrow> int (length (row_bytes r)) + 8 \<le> n"
  by (simp add: cost_def)

lemma push_first_batch_ok:
  assumes "writing w c rs n" and "m_ioe c = 0" and "cost qs \<le> n"
    and "\<forall>r \<in> set qs. row_wf r \<and> int (length r) = cols" and "m_maxfilesize (m_cscOptions c) = 0"
  shows "\<exists>w' c'. push_first_batch w c (map Some qs) cols = (0, w', c') \<and> writing w' c' (rs @ qs) (n - cost qs) \<and>
    m_ioe c' = 0 \<and> spill_frame c c' \<and> env_eq w w'"
  using assms
proof (induction qs arbitrary: w c rs n)
  case Nil
  then show ?case by (simp add: env_eq_def)
next
  case (Cons r qs)
  note prems = Cons.prems
  have room: "int (length (row_bytes r)) + 8 \<le> n" by (rule cost_room [OF prems(3)])
  obtain w1 c1 where 1: "writeRowCsc w c (Some r) (int (length r)) = (0, w1, c1)"
    "writing w1 c1 (rs @ [r]) (n - int (length (row_bytes r)) - 8)" "m_ioe c1 = 0" "wr_frame c c1" "env_eq w w1"
    using writeRow_scrollable [OF prems(1) _ room prems(5)] prems(4) by auto
  let ?c2 = "if m_cols c1 = 0 then c1\<lparr>m_cols := cols\<rparr> else c1"
  have c1: "c1\<lparr>m_ioe := 0\<rparr> = c1" using 1(3) by (cases c1) simp
  have fr: "spill_frame c ?c2"
    using wr_frame_cols [OF 1(4), of cols] 1(4) wr_frame_sel(7) [OF 1(4)]
    by (auto simp: spill_frame_def)
  have wr2: "writing w1 ?c2 (rs @ [r]) (n - int (length (row_bytes r)) - 8)" "m_ioe ?c2 = 0"
    using 1(2,3) by (simp_all add: writing_cols)
  have le: "cost qs \<le> n - int (length (row_bytes r)) - 8" using prems(3) by simp
  have wf: "\<forall>r \<in> set qs. row_wf r \<and> int (length r) = cols" using prems(4) by simp
  have opt: "m_maxfilesize (m_cscOptions ?c2) = 0" using prems(5) spill_frame_sel(4) [OF fr] by simp
  from Cons.IH [OF wr2 le wf opt] obtain w' c' where ih: "push_first_batch w1 ?c2 (map Some qs) cols = (0, w', c')"
    "writing w' c' (rs @ r # qs) (n - int (length (row_bytes r)) - 8 - cost qs)" "m_ioe c' = 0"
    "spill_frame ?c2 c'" "env_eq w1 w'" by auto
  have "push_first_batch w c (map Some (r # qs)) cols = (0, w', c')"
    using 1(1,3) ih(1) prems(4) by (cases "m_cols c1 = 0") (simp_all add: Let_def c1)
  moreover have "n - cost (r # qs) = n - int (length (row_bytes r)) - 8 - cost qs" by simp
  ultimately show ?case
    using ih(2,3) spill_frame_trans [OF fr ih(4)] env_eq_trans [OF 1(5) ih(5)]
    by (simp only: append.assoc append_Cons append_Nil) blast
qed

text \<open>The rows that follow are appended one call at a time, as they arrive from the server.\<close>

fun append_rows :: "world \<Rightarrow> csc \<Rightarrow> row list \<Rightarrow> int \<times> world \<times> csc" where
  "append_rows w c [] = (0, w, c)"
| "append_rows w c (r # rs) =
     (case writeRowCsc w c (Some r) (int (length r)) of (rc, w1, c1) \<Rightarrow>
       (if rc \<noteq> 0 then (rc, w1, c1) else append_rows w1 c1 rs))"

lemma append_rows_ok:
  assumes "writing w c rs n" and "m_ioe c = 0" and "cost qs \<le> n"
    and "\<forall>r \<in> set qs. row_wf r" and "m_maxfilesize (m_cscOptions c) = 0"
  shows "\<exists>w' c'. append_rows w c qs = (0, w', c') \<and> writing w' c' (rs @ qs) (n - cost qs) \<and>
    m_ioe c' = 0 \<and> wr_frame c c' \<and> env_eq w w'"
  using assms
proof (induction qs arbitrary: w c rs n)
  case Nil
  then show ?case by (simp add: wr_frame_def env_eq_def)
next
  case (Cons r qs)
  note prems = Cons.prems
  have room: "int (length (row_bytes r)) + 8 \<le> n" by (rule cost_room [OF prems(3)])
  obtain w1 c1 where 1: "writeRowCsc w c (Some r) (int (length r)) = (0, w1, c1)"
    "writing w1 c1 (rs @ [r]) (n - int (length (row_bytes r)) - 8)" "m_ioe c1 = 0" "wr_frame c c1" "env_eq w w1"
    using writeRow_scrollable [OF prems(1) _ room prems(5)] prems(4) by auto
  have le: "cost qs \<le> n - int (length (row_bytes r)) - 8" using prems(3) by simp
  have opt: "m_maxfilesize (m_cscOptions c1) = 0" using prems(5) wr_frame_sel(4) [OF 1(4)] by simp
  from Cons.IH [OF 1(2,3) le _ opt] prems(4) obtain w' c' where ih: "append_rows w1 c1 qs = (0, w', c')"
    "writing w' c' (rs @ r # qs) (n - int (length (row_bytes r)) - 8 - cost qs)" "m_ioe c' = 0"
    "wr_frame c1 c'" "env_eq w1 w'" by auto
  have "append_rows w c (r # qs) = (0, w', c')" using 1(1) ih(1) by simp
  moreover have "n - cost (r # qs) = n - int (length (row_bytes r)) - 8 - cost qs" by simp
  ultimately show ?case
    using ih(2,3) wr_frame_trans [OF 1(4) ih(4)] env_eq_trans [OF 1(5) ih(5)] by metis
qed

subsection \<open>Closing the files\<close>

lemma os_at_close:
  assumes "os_at w s p xs rst" and "0 \<le> left w s"
  shows "\<exists>w' s'. closeCscOutputStream w s = (0, w', s') \<and> w_files w' p = Some xs \<and> same_env p w w' \<and>
    int (w_room w') = left w s"
proof -
  obtain f where f: "m_dataOutputStream s = Some f" "of_ok w f" "of_path f = p" "logical w f = xs"
    "spare w f = left w s" using os_atD [OF assms(1)] by blast
  obtain w' f' where 1: "c_fflush w f = (0, w', f')" "of_ok w' f'" "of_buf f' = []" "of_path f' = p"
    "logical w' f' = xs" "spare w' f' = spare w f" "same_env p w w'"
    using c_fflush_wrote [OF f(2)] assms(2) f(3,4,5) by auto
  then have "w_files w' p = Some xs" "int (w_room w') = left w s"
    using f(5) by (auto simp: of_ok_def logical_def content_def spare_def)
  with 1 f(1) show ?thesis by (simp add: closeCscOutputStream_def)
qed

lemma same_env_env_eq: "same_env p w w' \<Longrightarrow> env_eq w w'"
  by (simp add: same_env_def env_eq_def)

lemma pend_nonneg: "0 \<le> pend s"
  by (simp add: pend_def split: option.split)

lemma closeOutputFile_ok:
  assumes wr: "writing w c rs n" and n: "0 \<le> n"
  shows "\<exists>w' c'. closeOutputFileCsc w c = (0, w', c') \<and>
    w_files w' (m_fileName c) = Some (data_image rs) \<and> w_files w' (m_offsetFileName c) = Some (offs_image rs) \<and>
    env_eq w w' \<and> c' = c\<lparr>m_totalCommitedRows := m_totalRows c, m_cscOutputStream := None, m_cscOffsetOutputStream := None\<rparr>"
proof -
  let ?p = "m_fileName c" and ?q = "m_offsetFileName c"
  obtain os off where os: "m_cscOutputStream c = Some os" "m_cscOffsetOutputStream c = Some off"
    "os_at w os ?p (data_image rs) (m_resultsettype c)" "os_at w off ?q (offs_image rs) (m_resultsettype c)"
    "n \<le> int (w_room w) - pend os - pend off" and pq: "?p \<noteq> ?q"
    using wr by (auto simp: writing_def)
  have "0 \<le> left w os" using os(5) n pend_nonneg [of off] by (simp add: left_def)
  then obtain w1 os1 where 1: "closeCscOutputStream w os = (0, w1, os1)" "w_files w1 ?p = Some (data_image rs)"
    "same_env ?p w w1" "int (w_room w1) = left w os" using os_at_close [OF os(3)] by blast
  have "0 \<le> left w1 off" using 1(4) os(5) n by (simp add: left_def)
  then obtain w2 off2 where 2: "closeCscOutputStream w1 off = (0, w2, off2)" "w_files w2 ?q = Some (offs_image rs)"
    "same_env ?q w1 w2" using os_at_close [OF os_at_other [OF os(4) 1(3) pq]] by blast
  have "w_files w2 ?p = Some (data_image rs)" using 2(3) 1(2) pq by (simp add: same_env_def)
  with 1 2 os(1,2) env_eq_trans [OF same_env_env_eq same_env_env_eq] show ?thesis
    by (auto simp: closeOutputFileCsc_def closeOffsetOutputFileCsc_def releaseCscOutputStream_def)
qed

subsection \<open>Creating the files\<close>

text \<open>A cursor as \<^verbatim>\<open>createCscResult\<close> makes it, before its files exist.\<close>

definition fresh_csc :: "csc \<Rightarrow> bool" where
  "fresh_csc c \<longleftrightarrow> m_fileName c \<noteq> m_offsetFileName c \<and> \<not> doesItForwardOnlyCursor (m_resultsettype c) \<and>
     m_totalRows c = 0 \<and> m_cscInputStream c = None \<and> m_cscOffsetInputStream c = None \<and>
     \<not> m_endOfInputStream c \<and> m_maxfilesize (m_cscOptions c) = 0"

definition ready_world :: "world \<Rightarrow> csc \<Rightarrow> bool" where
  "ready_world w c \<longleftrightarrow> \<not> w_nomem w \<and> (\<forall>p \<in> {m_fileName c, m_offsetFileName c}.
     \<not> w_noopen w p \<and> w_badpos w p = None)"

definition hook_ready :: "hook option \<Rightarrow> bool" where
  "hook_ready gp \<longleftrightarrow> (case gp of None \<Rightarrow> True | Some h \<Rightarrow> hook_ok h)"

lemma register_csc_ok:
  assumes "hook_ready gp" and "\<not> w_nomem w"
  shows "\<exists>gp'. register_csc w gp c = Some gp'"
proof -
  have "\<exists>h'. addCscHashMapKeyAndData plat h pid p = Some h'" if "hook_free h" for plat h pid p
    using that by (auto simp: addCscHashMapKeyAndData_def locked_def hook_free_def rsLockSem_def Let_def)
  moreover have "hook_free createCscShutdownHook"
    by (simp add: hook_free_def createCscShutdownHook_def rsCreateBinarySem_def)
  ultimately show ?thesis
    using assms by (auto simp: register_csc_def hook_ready_def hook_ok_def Let_def split: option.splits)
qed

lemma open_w_at:
  assumes "\<not> w_nomem w" and "\<not> w_noopen w p"
  shows "\<exists>w' s. createCscOutputStream w p rst = (Some s, 0, w') \<and> os_at w' s p [] rst \<and> pend s = 0 \<and>
    same_env p w w' \<and> w_room w' = w_room w"
  using assms
  by (simp add: createCscOutputStream_def c_fopen_w_def os_at_def of_ok_def logical_def content_def pend_def
      same_env_def)

lemma createFile_ok:
  assumes c: "fresh_csc c" and w: "ready_world w c" and h: "hook_ready gp"
    and res: "tuples res = Some (map Some qs)" "ntups res = int (length qs)" "numAttributes res = cols"
    and wf: "\<forall>r \<in> set qs. row_wf r \<and> int (length r) = cols" and room: "cost qs \<le> int (w_room w)"
  shows "\<exists>w' gp' c'. createFileCsc w gp c (Some res) = Some (0, w', gp', c') \<and>
    writing w' c' qs (int (w_room w) - cost qs) \<and> m_ioe c' = 0 \<and> env_eq w w' \<and>
    m_fileCreated c' \<and> m_firstRowNumberInMem c' = 1 \<and> m_lastRowNumberInMem c' = int (length qs) \<and>
    m_firstReadFromFileOffset c' = int (length (data_image qs)) \<and> m_cscInputStream c' = None \<and>
    m_cscOffsetInputStream c' = None \<and> \<not> m_endOfInputStream c' \<and> m_fileName c' = m_fileName c \<and>
    m_offsetFileName c' = m_offsetFileName c \<and> m_resultsettype c' = m_resultsettype c \<and>
    m_cscOptions c' = m_cscOptions c"
proof -
  let ?p = "m_fileName c" and ?q = "m_offsetFileName c" and ?rst = "m_resultsettype c"
  have pq: "?p \<noteq> ?q" and fwd: "\<not> doesItForwardOnlyCursor ?rst" using c by (simp_all add: fresh_csc_def)
  have open1: "\<not> w_nomem w" "\<not> w_noopen w ?p" using w by (simp_all add: ready_world_def)
  obtain w1 os where 1: "createCscOutputStream w ?p ?rst = (Some os, 0, w1)" "os_at w1 os ?p [] ?rst"
    "pend os = 0" "same_env ?p w w1" "w_room w1 = w_room w" using open_w_at [OF open1] by blast
  let ?c2 = "c\<lparr>m_cscOutputStream := Some os, m_ioe := 0, m_fileCreated := True\<rparr>"
  have open2: "\<not> w_nomem w1" "\<not> w_noopen w1 ?q" using w 1(4) by (simp_all add: ready_world_def same_env_def)
  obtain gp1 where gp1: "register_csc w1 gp ?c2 = Some gp1" using register_csc_ok [OF h open2(1)] by blast
  obtain w2 off where 2: "createCscOutputStream w1 ?q ?rst = (Some off, 0, w2)" "os_at w2 off ?q [] ?rst"
    "pend off = 0" "same_env ?q w1 w2" "w_room w2 = w_room w1" using open_w_at [OF open2] by blast
  let ?c4 = "?c2\<lparr>m_firstRowNumberInMem := 1, m_cscOffsetOutputStream := Some off, m_ioe := 0\<rparr>"
  have "os_at w2 os ?p [] ?rst" using os_at_other [OF 1(2) 2(4)] pq by simp
  then have wr4: "writing w2 ?c4 [] (int (w_room w))" "m_ioe ?c4 = 0" "m_maxfilesize (m_cscOptions ?c4) = 0"
    using c 1(3,5) 2(2,3,5) by (simp_all add: writing_def fresh_csc_def offs_image_def)
  from push_first_batch_ok [OF wr4(1,2) room wf wr4(3)] obtain w3 c5 where
    3: "push_first_batch w2 ?c4 (map Some qs) cols = (0, w3, c5)" "writing w3 c5 qs (int (w_room w) - cost qs)"
      "m_ioe c5 = 0" "spill_frame ?c4 c5" "env_eq w2 w3" by auto
  note sel = spill_frame_sel [OF 3(4)]
  obtain os5 off5 where os5: "m_cscOutputStream c5 = Some os5" "m_cscOffsetOutputStream c5 = Some off5"
    "os_at w3 os5 ?p (data_image qs) ?rst" "os_at w3 off5 ?q (offs_image qs) ?rst"
    "int (w_room w) - cost qs \<le> int (w_room w3) - pend os5 - pend off5" "m_totalRows c5 = int (length qs)"
    using 3(2) sel by (auto simp: writing_def)
  have "0 \<le> left w3 os5" using os5(5) room pend_nonneg [of off5] by (simp add: left_def)
  then obtain w4 os6 where 4: "getPositionCscOutputStream w3 os5 = (int (length (data_image qs)), w4, os6)"
    "os_at w4 os6 ?p (data_image qs) ?rst" "same_env ?p w3 w4" "left w4 os6 = left w3 os5" "pend os6 = 0"
    using os_at_getPosition [OF os5(3) _ fwd] by blast
  have off6: "os_at w4 off5 ?q (offs_image qs) ?rst" using os_at_other [OF os5(4) 4(3)] pq by simp
  let ?c' = "c5\<lparr>m_cscOutputStream := Some os6, m_firstReadFromFileOffset := int (length (data_image qs)),
      m_lastRowNumberInMem := m_totalRows c5\<rparr>"
  have rows: "pgres_rows (Some res) = map Some qs" "pgres_nfields (Some res) = cols"
    using res by (simp_all add: pgres_rows_def pgres_nfields_def)
  have "createFileCsc w gp c (Some res) = Some (0, w4, gp1, ?c')"
    using 1(1) gp1 2(1) 3(1,3) 4(1) os5(1) fwd rows by (simp add: createFileCsc_def Let_def)
  moreover have "writing w4 ?c' qs (int (w_room w) - cost qs)"
    using os5 4 off6 sel pq fwd by (simp add: writing_def left_def)
  moreover have "env_eq w w4"
    using env_eq_trans [OF env_eq_trans [OF same_env_env_eq [OF 1(4)] same_env_env_eq [OF 2(4)]]
        env_eq_trans [OF 3(5) same_env_env_eq [OF 4(3)]]] .
  ultimately show ?thesis
    using 3(3) sel os5(6) c by (intro exI [of _ w4] exI [of _ gp1] exI [of _ ?c']) (simp add: fresh_csc_def)
qed

subsection \<open>The whole life of a spilled result\<close>

lemma spilled_window:
  assumes wr: "writing w c rs n" and n: "0 \<le> n" and rw: "ready_world w c"
    and wf: "\<forall>r \<in> set rs. row_wf r" and len: "length rs \<le> 2 ^ 28" "length (data_image rs) < 2 ^ 63"
    and c: "m_fileCreated c" "m_ioe c = 0" "m_firstRowNumberInMem c = 1" "m_lastRowNumberInMem c = int b"
      "m_firstReadFromFileOffset c = int (row_offset rs b)" "m_cscInputStream c = None"
      "m_cscOffsetInputStream c = None" "\<not> m_endOfInputStream c" and b: "b \<le> length rs"
  shows "\<exists>w' c'. closeOutputFileCsc w c = (0, w', c') \<and>
    window w' (signalForFullResultReadFromServerCsc w' c') rs 1 b"
proof -
  obtain w' c' where cl: "closeOutputFileCsc w c = (0, w', c')"
    "w_files w' (m_fileName c) = Some (data_image rs)" "w_files w' (m_offsetFileName c) = Some (offs_image rs)"
    "env_eq w w'" "c' = c\<lparr>m_totalCommitedRows := m_totalRows c, m_cscOutputStream := None, m_cscOffsetOutputStream := None\<rparr>"
    using closeOutputFile_ok [OF wr n] by blast
  have "isFullResultReadFromServerCsc (signalForFullResultReadFromServerCsc w' c')"
    by (simp add: isFullResultReadFromServerCsc_def signalForFullResultReadFromServerCsc_def
        isFullResultReadFromServerCscLock_def signalForFullResultReadFromServerCscLock_def split: option.split)
  then have "stored w' (signalForFullResultReadFromServerCsc w' c') rs"
    using cl c wr rw wf len
    by (auto simp: stored_def writing_def ready_world_def env_eq_def signalForFullResultReadFromServerCsc_def)
  then show ?thesis
    using cl c b by (auto simp: window_def signalForFullResultReadFromServerCsc_def)
qed

text \<open>
  Property C19. A result that outgrows memory survives the detour over the disk: for a scrollable
  cursor, creating the files with the batch in memory, appending the rows that follow and closing
  the files succeeds when the device has room, and afterwards the application's loop of next-batch
  calls delivers exactly the rows behind the first batch, once each and in order, with the window
  invariant that the other batch operations start from.
\<close>

theorem spilled_result_round_trip:
  assumes "fresh_csc c" and "ready_world w c" and "hook_ready gp"
    and "tuples res = Some (map Some qs)" and "ntups res = int (length qs)"
    and "\<forall>r \<in> set qs. row_wf r \<and> int (length r) = numAttributes res" and "\<forall>r \<in> set later. row_wf r"
    and "cost (qs @ later) \<le> int (w_room w)" and "length (qs @ later) \<le> 2 ^ 28"
    and "length (data_image (qs @ later)) < 2 ^ 63"
  shows "\<exists>w1 gp1 c1 w2 c2 w3 c3. createFileCsc w gp c (Some res) = Some (0, w1, gp1, c1) \<and>
    append_rows w1 c1 later = (0, w2, c2) \<and> closeOutputFileCsc w2 c2 = (0, w3, c3) \<and>
    window w3 (signalForFullResultReadFromServerCsc w3 c3) (qs @ later) 1 (length qs) \<and>
    next_rows (Suc (length later)) w3 (signalForFullResultReadFromServerCsc w3 c3) res1 =
      Some (map (Some \<circ> norm_row) later)"
proof -
  have costs: "cost (qs @ later) = cost qs + cost later" by (simp add: cost_def)
  have room: "cost qs \<le> int (w_room w)" "cost later \<le> int (w_room w) - cost qs"
    using assms(8) costs cost_simps(3) [of later] by linarith+
  obtain w1 gp1 c1 where 1: "createFileCsc w gp c (Some res) = Some (0, w1, gp1, c1)"
    "writing w1 c1 qs (int (w_room w) - cost qs)" "m_ioe c1 = 0" "env_eq w w1"
    "m_fileCreated c1" "m_firstRowNumberInMem c1 = 1" "m_lastRowNumberInMem c1 = int (length qs)"
    "m_firstReadFromFileOffset c1 = int (length (data_image qs))" "m_cscInputStream c1 = None"
    "m_cscOffsetInputStream c1 = None" "\<not> m_endOfInputStream c1" "m_fileName c1 = m_fileName c"
    "m_offsetFileName c1 = m_offsetFileName c" "m_cscOptions c1 = m_cscOptions c"
    using createFile_ok [OF assms(1-5) refl assms(6) room(1)] by blast
  have opt: "m_maxfilesize (m_cscOptions c1) = 0" using assms(1) 1(14) by (simp add: fresh_csc_def)
  from append_rows_ok [OF 1(2,3) room(2) assms(7) opt] obtain w2 c2 where
    2: "append_rows w1 c1 later = (0, w2, c2)" "writing w2 c2 (qs @ later) (int (w_room w) - cost qs - cost later)"
      "m_ioe c2 = 0" "wr_frame c1 c2" "env_eq w1 w2" by blast
  note sel = wr_frame_sel [OF 2(4)]
  have rw: "ready_world w2 c2"
    using assms(2) env_eq_trans [OF 1(4) 2(5)] sel 1(12,13) by (simp add: ready_world_def env_eq_def)
  have off: "row_offset (qs @ later) (length qs) = length (data_image qs)" by (simp add: row_offset_def)
  have wf: "\<forall>r \<in> set (qs @ later). row_wf r" using assms(6,7) by auto
  have "\<exists>w3 c3. closeOutputFileCsc w2 c2 = (0, w3, c3) \<and>
      window w3 (signalForFullResultReadFromServerCsc w3 c3) (qs @ later) 1 (length qs)"
    by (rule spilled_window [OF 2(2) _ rw wf assms(9,10)]) (use room(2) 2(3) 1 sel off in simp_all)
  then obtain w3 c3 where 3: "closeOutputFileCsc w2 c2 = (0, w3, c3)"
    "window w3 (signalForFullResultReadFromServerCsc w3 c3) (qs @ later) 1 (length qs)" by blast
  have "next_rows (Suc (length later)) w3 (signalForFullResultReadFromServerCsc w3 c3) res1 =
      Some (map (Some \<circ> norm_row) (drop (length qs) (qs @ later)))"
    by (rule next_rows_ok [OF 3(2)]) simp
  with 1(1) 2(1) 3 show ?thesis by auto
qed

definition demo_fresh :: csc where
  "demo_fresh = (demo_csc 0 0)\<lparr>m_fileCreated := False, m_cscInputStream := None, m_totalRows := 0,
     m_totalCommitedRows := 0, m_cols := 0\<rparr>"

theorem spilled_result_round_trip_witness:
  "\<exists>w1 gp1 c1 w2 c2 w3 c3. createFileCsc demo_world None demo_fresh
      (Some (demo_res\<lparr>tuples := Some [Some (demo_rows ! 0)], ntups := 1\<rparr>)) = Some (0, w1, gp1, c1) \<and>
    append_rows w1 c1 (tl demo_rows) = (0, w2, c2) \<and> closeOutputFileCsc w2 c2 = (0, w3, c3) \<and>
    next_rows 3 w3 (signalForFullResultReadFromServerCsc w3 c3) demo_res =
      Some (map (Some \<circ> norm_row) (tl demo_rows))"
proof -
  let ?q = "[demo_rows ! 0]" and ?m = "tl demo_rows"
  let ?res = "demo_res\<lparr>tuples := Some [Some (demo_rows ! 0)], ntups := 1\<rparr>"
  have rows: "?q @ ?m = demo_rows" by (simp add: demo_rows_def)
  have len: "length (data_image demo_rows) = 21"
    by (simp add: demo_rows_def row_bytes_def att_bytes_def norm_att_def att_data_def)
  have wf: "\<forall>r \<in> set demo_rows. row_wf r" using demo_stored [of 1 1] by (simp add: stored_def)
  have a: "fresh_csc demo_fresh" "ready_world demo_world demo_fresh" "hook_ready None"
    by (simp_all add: fresh_csc_def demo_fresh_def demo_csc_def doesItForwardOnlyCursor_def ready_world_def
        demo_world_def hook_ready_def)
  have b: "tuples ?res = Some (map Some ?q)" "ntups ?res = int (length ?q)" by simp_all
  have c: "\<forall>r \<in> set ?q. row_wf r \<and> int (length r) = numAttributes ?res" "\<forall>r \<in> set ?m. row_wf r"
    using wf by (simp_all add: demo_rows_def demo_res_def)
  have d: "cost (?q @ ?m) \<le> int (w_room demo_world)" "length (?q @ ?m) \<le> 2 ^ 28"
    "length (data_image (?q @ ?m)) < 2 ^ 63"
    unfolding rows by (simp_all add: cost_def len demo_world_def)
  have "Suc (length ?m) = 3" by simp
  with spilled_result_round_trip [OF a b c d, of demo_res] show ?thesis by fastforce
qed

end
