(* ===== verification/Csc_Bounds.thy ===== *)
theory Csc_Bounds
  imports Csc_Promises
begin

text \<open>
  Bounds of the batch reader: the array that collects a batch never overflows, and the offset
  lookup is only meaningful up to the row number where its 32-bit product wraps.
\<close>

subsection \<open>The array of a batch\<close>

text \<open>The number of slots after \<open>n\<close> rows were stored.\<close>

fun tuples_cap :: "nat \<Rightarrow> nat" where
  "tuples_cap 0 = nat BATCH_SIZE_TO_PROCESS"
| "tuples_cap (Suc n) = grow_tuples (tuples_cap n) n"

lemma tuples_cap_eq: "tuples_cap n = (if n < 1000 then 1000 else (n div 1000) * 1000 + 999)"
proof (induction n)
  case 0
  show ?case by (simp add: BATCH_SIZE_TO_PROCESS_def)
next
  case (Suc n)
  have "(int n + 1) mod 1000 = int (Suc n mod 1000)"
    using zmod_int [of "Suc n" 1000] by (simp add: add.commute)
  then have g: "grow_tuples cap n = (if Suc n mod 1000 = 0 then n + 1000 else cap)" for cap
    by (simp add: grow_tuples_def BATCH_SIZE_TO_PROCESS_def)
  have d: "Suc n div 1000 = (if Suc n mod 1000 = 0 then Suc (n div 1000) else n div 1000)" by (rule div_Suc)
  show ?case
  proof (cases "Suc n mod 1000 = 0")
    case True
    then have "Suc n = Suc n div 1000 * 1000" using div_mult_mod_eq [of "Suc n" 1000] by simp
    moreover have "\<not> Suc n < 1000" using True by (metis mod_less nat.distinct(1))
    ultimately show ?thesis using True g by simp
  next
    case False
    then have "Suc n \<noteq> 1000" by auto
    then have "(Suc n < 1000) = (n < 1000)" by linarith
    with False g Suc d show ?thesis by simp
  qed
qed

lemma next_thousand: "n < n div 1000 * 1000 + (1000::nat)"
  by (metis add.commute add_less_cancel_left div_mult_mod_eq mod_less_divisor zero_less_numeral)

lemma store_in_bounds: "n < tuples_cap (Suc n)"
  using next_thousand [of "Suc n"] by (simp add: tuples_cap_eq del: tuples_cap.simps)

lemma tuples_cap_ge: "n \<le> tuples_cap n"
  using next_thousand [of n] by (simp add: tuples_cap_eq)

lemma until_threshold_cap:
  assumes "until_threshold w c res wc reached acc cap = Some r"
  shows "cap = tuples_cap (length acc) \<longrightarrow> snd (snd (snd r)) = tuples_cap (length (fst (snd (snd r))))"
proof (rule until_threshold.raw_induct [OF _ assms], goal_cases)
  case (1 ut w c res wc reached acc cap r)
  note ih = 1(1) and eq = 1(2)
  show ?case
  proof (cases "reached \<or> at_last_row c")
    case True
    then show ?thesis using eq by (auto split: if_splits)
  next
    case False
    then have go: "\<not> reached" "\<not> at_last_row c" by simp_all
    obtain c1 waitc where w: "(if wc \<and> int (length acc) mod BATCH_SIZE_TO_PROCESS = 0 \<and> batch_pending c
        then wait_batches batch_pending c else Some (c, wc)) = Some (c1, waitc)"
      using eq go by (auto simp: bind_eq_Some_conv split: if_splits)
    obtain tuple c2 where t: "(if m_ioe c1 = 0 then (case readRowCsc w c1 of (t, e, eof, c2) \<Rightarrow>
          (t, c2\<lparr>m_ioe := e, m_endOfInputStream := eof\<rparr>)) else (None, c1)) = (tuple, c2)"
      by fastforce
    obtain reached' c3 where th: "checkForThresholdLimitReachCsc c2 (first_len tuple) (m_rawRowLengthFromFile c2) False
        = (reached', c3)" by fastforce
    have "(if at_last_row c1 \<or> m_endOfInputStream c2 \<or> m_ioe c2 \<noteq> 0
        then Some (if at_last_row c1 then c1 else c2, res, acc, cap)
        else ut w c3 (clear_old_rows res) waitc reached' (acc @ [tuple]) (grow_tuples cap (length acc))) = Some r"
      using eq go w t th by (auto split: if_splits)
    then show ?thesis
      using ih [of w c3 "clear_old_rows res" waitc reached' "acc @ [tuple]" "grow_tuples cap (length acc)" r]
      by (auto split: if_splits)
  qed
qed

text \<open>
  Property C38. No row of a batch is stored outside the array: for every run of the batch reader's
  loop, whatever the file holds and however many rows fit the threshold, each row's index is below
  the number of slots the array has when the row is stored.
\<close>

theorem batch_array_in_bounds:
  assumes "until_threshold w c res wc False [] (nat BATCH_SIZE_TO_PROCESS) = Some (c', res', ts, cap)"
  shows "cap = tuples_cap (length ts) \<and> length ts \<le> cap \<and> (\<forall>i < length ts. i < tuples_cap (Suc i))"
  using until_threshold_cap [OF assms] tuples_cap_ge store_in_bounds by simp

theorem batch_array_in_bounds_witness:
  "\<exists>c' res' ts cap. until_threshold demo_world (demo_csc 1 0) demo_res False False [] (nat BATCH_SIZE_TO_PROCESS) =
      Some (c', res', ts, cap) \<and> ts \<noteq> [] \<and> length ts \<le> cap"
proof -
  let ?c = "demo_csc 1 0"
  have st: "stored demo_world ?c demo_rows" by (rule demo_stored)
  note facts = storedD [OF st]
  have s: "m_cscInputStream ?c = Some (demo_stream 0)" "m_lastRowNumberInMem ?c = int 0"
    by (simp_all add: demo_csc_def)
  have at: "rd_at demo_world (m_fileName ?c) (m_resultsettype ?c) (demo_stream 0) demo_rows 0"
    using demo_window [of 1 0] s(1) by (simp add: window_def)
  obtain j c' res' cap where u: "until_threshold demo_world ?c demo_res False False [] (nat BATCH_SIZE_TO_PROCESS) =
      Some (c', res', [] @ seg demo_rows 0 j, cap)" "0 + j \<le> length demo_rows" "0 < j"
    using until_threshold_ok [OF s(1) at le0 facts(6,5,4,3), of demo_res False False "[]" "nat BATCH_SIZE_TO_PROCESS"]
      s(2) facts(7) by auto
  then have run: "until_threshold demo_world ?c demo_res False False [] (nat BATCH_SIZE_TO_PROCESS) =
      Some (c', res', seg demo_rows 0 j, cap)" by simp
  moreover have "seg demo_rows 0 j \<noteq> []" using u(2,3) by (simp add: seg_empty_iff)
  ultimately show ?thesis using batch_array_in_bounds [OF run] by blast
qed

subsection \<open>The 32-bit product in the offset lookup\<close>

lemma i32_wrap_negative:
  assumes "2 ^ 28 < n" and "n \<le> 2 ^ 29"
  shows "i32 ((n - 1) * 8) < 0"
proof -
  let ?x = "(n - 1) * 8"
  have r: "2 ^ 31 \<le> ?x" "?x < 2 ^ 32" using assms by simp_all
  then have m: "(?x + 2 ^ 31) mod 2 ^ 32 = ?x + 2 ^ 31 - 2 ^ 32"
    using mod_pos_pos_trivial [of "?x + 2 ^ 31 - 2 ^ 32" "2 ^ 32"] mod_add_self2 [of "?x + 2 ^ 31 - 2 ^ 32" "2 ^ 32"]
    by simp
  have "i32 ?x = (?x + 2 ^ 31) mod 2 ^ 32 - 2 ^ 31"
    by (simp add: i32_def signed_take_bit_eq_take_bit_shift take_bit_eq_mod)
  with m r show ?thesis by simp
qed

text \<open>
  Beyond row $2^{28}$ the lookup in the offset file no longer depends on the row: the
  position \<open>(rowNumber - 1) * 8\<close>, computed in 32 bits, is negative, the seek is refused, its code is
  ignored, and every row number up to $2^{29}$ gets whatever the stream delivers next.
\<close>

theorem row_offset_lookup_wraps:
  assumes "\<not> doesItForwardOnlyCursor (m_resultsettype c)"
    and "m_cscOffsetInputStream c = Some s" "m_dataInputStream s = Some f"
    and "2 ^ 28 < n" "n \<le> 2 ^ 29" and "2 ^ 28 < m" "m \<le> 2 ^ 29"
  shows "readDataFileOffsetCsc w c n = readDataFileOffsetCsc w c m"
proof -
  have seek: "seekCscInputStream s (i32 ((k - 1) * 8)) =
      (if doesItForwardOnlyCursor (is_resultsettype s) then fst (seekCscInputStream s 0) else -1, s)"
    if "2 ^ 28 < k" "k \<le> 2 ^ 29" for k
  proof -
    have "s\<lparr>m_dataInputStream := Some f\<rparr> = s" using assms(3) by (cases s) simp
    with i32_wrap_negative [OF that] assms(3) show ?thesis
      by (simp add: seekCscInputStream_def c_fseek_def)
  qed
  have "readDataFileOffsetCsc w c k =
      (case readLongLongCscInputStream w s of (dataOffset, s2) \<Rightarrow>
         case getIOErrorCsc (is_error s2) of (e2, e') \<Rightarrow>
           (if e2 \<noteq> 0 then -1 else dataOffset,
            c\<lparr>m_cscOffsetInputStream := Some (s2\<lparr>is_error := e'\<rparr>), m_ioe := e2\<rparr>))"
    if "2 ^ 28 < k" "k \<le> 2 ^ 29" for k
    using assms(1,2) that seek [OF that] by (simp add: readDataFileOffsetCsc_def)
  with assms(4-7) show ?thesis by simp
qed

theorem row_offset_lookup_wraps_witness:
  "readDataFileOffsetCsc demo_world ((demo_csc 1 1)\<lparr>m_cscOffsetInputStream := Some (demo_stream 0)\<rparr>) (2 ^ 28 + 1) =
   readDataFileOffsetCsc demo_world ((demo_csc 1 1)\<lparr>m_cscOffsetInputStream := Some (demo_stream 0)\<rparr>) (2 ^ 29)"
  by (rule row_offset_lookup_wraps [where s = "demo_stream 0" and
        f = "\<lparr>if_path = ''d'', if_pos = row_offset demo_rows 0, if_eof = False\<rparr>"])
     (simp_all add: demo_csc_def demo_stream_def doesItForwardOnlyCursor_def)

end
