(* ===== verification/Rs_Copy.thy ===== *)
theory Rs_Copy
  imports Prelude
begin

unbundle bit_operations_syntax

text \<open>
  Handing column data to the application's buffers (\<^verbatim>\<open>rsutil.c\<close>, the
  \<^verbatim>\<open>copy...Len\<close> functions). A buffer is the list of its bytes; a write outside it is
  undefined in C and makes the whole function return \<open>None\<close>, as does a read outside the source.
  The source is the list of readable bytes, with the terminating NUL where there is one. The
  SQLSTATEs added to the statement's diagnostics are returned as a list.
\<close>

subsection \<open>ODBC codes and memory\<close>

definition SQL_SUCCESS :: int where "SQL_SUCCESS = 0"
definition SQL_SUCCESS_WITH_INFO :: int where "SQL_SUCCESS_WITH_INFO = 1"
definition SQL_ERROR :: int where "SQL_ERROR = -1"
definition SQL_NTS :: int where "SQL_NTS = -3"
definition SQL_NULL_DATA :: int where "SQL_NULL_DATA = -1"

lemmas odbc_codes = SQL_SUCCESS_def SQL_SUCCESS_WITH_INFO_def SQL_ERROR_def SQL_NTS_def SQL_NULL_DATA_def

definition put_at :: "'a list \<Rightarrow> nat \<Rightarrow> 'a list \<Rightarrow> 'a list option" where
  "put_at buf i bs =
     (if i + length bs \<le> length buf then Some (take i buf @ bs @ drop (i + length bs) buf) else None)"

definition get_at :: "'a list \<Rightarrow> nat \<Rightarrow> nat \<Rightarrow> 'a list option" where
  "get_at src i n = (if i + n \<le> length src then Some (take n (drop i src)) else None)"

definition c_str :: "'a::zero list \<Rightarrow> 'a list" where
  "c_str src = takeWhile (\<lambda>b. b \<noteq> 0) src"

definition c_strlen :: "'a::zero list \<Rightarrow> int" where
  "c_strlen src = int (length (c_str src))"

text \<open>\<^verbatim>\<open>strncpy\<close> stops at the terminator and pads with NULs.\<close>

definition c_strncpy :: "byte list \<Rightarrow> nat \<Rightarrow> byte list option" where
  "c_strncpy src n =
     (let t = c_str src in
      if n \<le> length t then Some (take n t)
      else if length t < length src then Some (t @ replicate (n - length t) 0) else None)"

definition src_len :: "byte list option \<Rightarrow> int \<Rightarrow> int" where
  "src_len pSrc iSrcLen =
     (case pSrc of
        Some s \<Rightarrow> if iSrcLen \<noteq> SQL_NULL_DATA
                  then (if iSrcLen = SQL_NTS then i32 (c_strlen s) else iSrcLen) else 0
      | None \<Rightarrow> 0)"

definition store_str :: "byte list \<Rightarrow> byte list option \<Rightarrow> nat \<Rightarrow> byte list option" where
  "store_str dest pSrc n =
     Option.bind (c_strncpy (the pSrc) n) (\<lambda>bs. Option.bind (put_at dest 0 bs) (\<lambda>d. put_at d n [0]))"

subsection \<open>Strings with a length indicator\<close>

text \<open>
  The result is the return code, the buffer (\<open>None\<close> for \<^verbatim>\<open>NULL\<close>) and what is stored in
  \<^verbatim>\<open>*pcbLen\<close>; \<open>want\<close> says that \<^verbatim>\<open>pcbLen\<close> is not \<^verbatim>\<open>NULL\<close>.
\<close>

definition copyStrDataSmallLen ::
  "byte list option \<Rightarrow> int \<Rightarrow> byte list option \<Rightarrow> int \<Rightarrow> bool \<Rightarrow> (int \<times> byte list option \<times> int option) option" where
  "copyStrDataSmallLen pSrc iSrcLen pDest cbLen want =
     (let len = src_len pSrc iSrcLen;
          finish = (\<lambda>(rc, d). (if want then rc else SQL_SUCCESS, d, if want then Some (i16 len) else None))
      in map_option finish
        (case pDest of
           None \<Rightarrow> Some (SQL_SUCCESS_WITH_INFO, None)
         | Some d \<Rightarrow>
             if 0 < len then
               (if len < cbLen then map_option (\<lambda>d'. (SQL_SUCCESS, Some d')) (store_str d pSrc (nat len))
                else if 0 < cbLen
                then map_option (\<lambda>d'. (SQL_SUCCESS_WITH_INFO, Some d')) (store_str d pSrc (nat (cbLen - 1)))
                else Some (SQL_SUCCESS_WITH_INFO, Some d))
             else if 0 < cbLen then map_option (\<lambda>d'. (SQL_SUCCESS, Some d')) (put_at d 0 [0])
             else Some (SQL_SUCCESS, Some d)))"

definition copyStrDataLargeLen ::
  "byte list option \<Rightarrow> int \<Rightarrow> byte list option \<Rightarrow> int \<Rightarrow> bool \<Rightarrow> (int \<times> byte list option \<times> int option) option" where
  "copyStrDataLargeLen pSrc iSrcLen pDest cbLen want =
     (let len = src_len pSrc iSrcLen
      in map_option (\<lambda>(rc, d). (rc, d, if want then Some len else None))
        (case pDest of
           None \<Rightarrow> Some (SQL_SUCCESS, None)
         | Some d \<Rightarrow>
             if 0 < len then
               (if len < cbLen then map_option (\<lambda>d'. (SQL_SUCCESS, Some d')) (store_str d pSrc (nat len))
                else if 0 < cbLen
                then map_option (\<lambda>d'. (SQL_SUCCESS_WITH_INFO, Some d')) (store_str d pSrc (nat (cbLen - 1)))
                else Some (SQL_SUCCESS_WITH_INFO, Some d))
             else if 0 < cbLen then map_option (\<lambda>d'. (SQL_SUCCESS, Some d')) (put_at d 0 [0])
             else Some (SQL_SUCCESS, Some d)))"

definition copyBinaryDataBigLen ::
  "byte list option \<Rightarrow> int \<Rightarrow> byte list option \<Rightarrow> int \<Rightarrow> bool \<Rightarrow> (int \<times> byte list option \<times> int option) option" where
  "copyBinaryDataBigLen pSrc iSrcLen pDest cbLen want =
     (let len = (case pSrc of Some _ \<Rightarrow> if iSrcLen \<noteq> SQL_NULL_DATA then iSrcLen else 0 | None \<Rightarrow> 0);
          store = (\<lambda>d n. Option.bind (get_at (the pSrc) 0 n) (\<lambda>bs. Option.bind (put_at d 0 bs) (\<lambda>d'. put_at d' n [0])));
          finish = (\<lambda>(rc, d). (if want then rc else SQL_SUCCESS, d, if want then Some len else None))
      in map_option finish
        (case pDest of
           None \<Rightarrow> Some (SQL_SUCCESS_WITH_INFO, None)
         | Some d \<Rightarrow>
             if 0 < len then
               (if len < cbLen then map_option (\<lambda>d'. (SQL_SUCCESS, Some d')) (store d (nat len))
                else if 0 < cbLen
                then map_option (\<lambda>d'. (SQL_SUCCESS_WITH_INFO, Some d')) (store d (nat (cbLen - 1)))
                else Some (SQL_SUCCESS_WITH_INFO, Some d))
             else if 0 < cbLen then map_option (\<lambda>d'. (SQL_SUCCESS, Some d')) (put_at d 0 [0])
             else Some (SQL_SUCCESS, Some d)))"

subsection \<open>Strings fetched in pieces\<close>

text \<open>
  \<open>off\<close> is \<^verbatim>\<open>*cbLenOffset\<close> (\<open>None\<close> for a \<^verbatim>\<open>NULL\<close> pointer), \<open>ind\<close> is
  \<^verbatim>\<open>*pcbLenInd\<close> before the call.
\<close>

record big_result =
  br_rc :: int
  br_dest :: "byte list option"
  br_off :: "int option"
  br_ind :: "int option"
  br_diag :: "string list"

definition copyStrDataBigLen ::
  "byte list option \<Rightarrow> int \<Rightarrow> byte list option \<Rightarrow> int \<Rightarrow> int option \<Rightarrow> int option \<Rightarrow> big_result option" where
  "copyStrDataBigLen pSrc iSrcLen pDest cbLen off ind =
     (let set_ind = (\<lambda>v. map_option (\<lambda>_. v) ind);
          zero_off = map_option (\<lambda>_. 0) off;
          trunc = ''01004''
      in if cbLen < 0 then Some \<lparr>br_rc = SQL_ERROR, br_dest = pDest, br_off = off, br_ind = ind, br_diag = [''HY090'']\<rparr>
      else case pDest of
        None \<Rightarrow> Some \<lparr>br_rc = SQL_ERROR, br_dest = None, br_off = off, br_ind = ind, br_diag = [''HY009'']\<rparr>
      | Some d \<Rightarrow>
          (let len = src_len pSrc iSrcLen in
           if pSrc = None \<or> iSrcLen = SQL_NULL_DATA
           then Some \<lparr>br_rc = SQL_SUCCESS, br_dest = Some d, br_off = zero_off, br_ind = set_ind SQL_NULL_DATA, br_diag = []\<rparr>
           else if len = 0
           then (if 0 < cbLen
                 then map_option (\<lambda>d'. \<lparr>br_rc = SQL_SUCCESS, br_dest = Some d', br_off = zero_off, br_ind = set_ind 0,
                                        br_diag = []\<rparr>) (put_at d 0 [0])
                 else Some \<lparr>br_rc = SQL_SUCCESS_WITH_INFO, br_dest = Some d, br_off = zero_off, br_ind = set_ind 0,
                            br_diag = [trunc]\<rparr>)
           else
             (let currentOffset = (case off of Some o1 \<Rightarrow> i32 o1 | None \<Rightarrow> 0) in
              if len \<le> currentOffset
              then Some \<lparr>br_rc = SQL_SUCCESS, br_dest = Some d, br_off = zero_off, br_ind = ind, br_diag = []\<rparr>
              else
                (let remainingLen = i32 (len - currentOffset);
                     cb1 = i32 (cbLen - 1);
                     copyLen = (if 0 < cbLen then max 0 (min remainingLen cb1) else 0)
                 in Option.bind
                   (if 0 < cbLen then
                      Option.bind
                        (if 0 < copyLen
                         then Option.bind (if currentOffset < 0 then None else get_at (the pSrc) (nat currentOffset) (nat copyLen))
                                (\<lambda>bs. put_at d 0 bs)
                         else Some d)
                        (\<lambda>d1. let z = min copyLen cb1 in if z < 0 then None else put_at d1 (nat z) [0])
                    else Some d)
                   (\<lambda>d2.
                     case off of
                       Some o1 \<Rightarrow>
                         (if copyLen < remainingLen
                          then Some \<lparr>br_rc = SQL_SUCCESS_WITH_INFO, br_dest = Some d2, br_off = Some (o1 + copyLen),
                                     br_ind = set_ind remainingLen, br_diag = [trunc]\<rparr>
                          else Some \<lparr>br_rc = SQL_SUCCESS, br_dest = Some d2, br_off = Some 0,
                                     br_ind = set_ind remainingLen, br_diag = []\<rparr>)
                     | None \<Rightarrow>
                         (if (copyLen < remainingLen \<and> 0 < cbLen) \<or> cbLen = 0
                          then Some \<lparr>br_rc = SQL_SUCCESS_WITH_INFO, br_dest = Some d2, br_off = None,
                                     br_ind = set_ind remainingLen, br_diag = [trunc]\<rparr>
                          else Some \<lparr>br_rc = SQL_SUCCESS, br_dest = Some d2, br_off = None,
                                     br_ind = set_ind remainingLen, br_diag = []\<rparr>))))))"

subsection \<open>Hexadecimal forms\<close>

definition c_toupper :: "byte \<Rightarrow> int" where
  "c_toupper b = (let v = uint b in if 97 \<le> v \<and> v \<le> 122 then v - 32 else v)"

definition hex_to_binary :: "byte \<Rightarrow> byte" where
  "hex_to_binary in_hex =
     (let temp = c_toupper in_hex in
      if 65 \<le> temp \<and> temp \<le> 70 then word_of_int (temp - 55)
      else if 48 \<le> temp \<and> temp \<le> 57 then word_of_int (temp - 48)
      else 0)"

fun hex_pairs :: "nat \<Rightarrow> byte list \<Rightarrow> byte list option" where
  "hex_pairs 0 src = Some []"
| "hex_pairs (Suc n) (h # l # src) =
     map_option ((#) (push_bit 4 (hex_to_binary h) OR hex_to_binary l)) (hex_pairs n src)"
| "hex_pairs (Suc n) src = None"

text \<open>
  \<^verbatim>\<open>copyHexToBinaryDataBigLen\<close>: the result is the code, the buffer, \<^verbatim>\<open>*pcbLen\<close> and
  \<^verbatim>\<open>*cbLenOffset\<close>, which counts bytes of the result.
\<close>

definition copyHexToBinaryDataBigLen ::
  "byte list option \<Rightarrow> int \<Rightarrow> byte list option \<Rightarrow> int \<Rightarrow> bool \<Rightarrow> int \<Rightarrow>
   (int \<times> byte list option \<times> int option \<times> int) option" where
  "copyHexToBinaryDataBigLen pSrc iSrcLen0 pDest cbLen want off =
     (let pos = i32 (off * 2);
          iSrcLen = (if off \<noteq> 0 then i32 (iSrcLen0 - pos) else iSrcLen0);
          src = (if off \<noteq> 0 then (\<lambda>s. drop (nat pos) s) else id) (case pSrc of Some s \<Rightarrow> s | None \<Rightarrow> []);
          len = (if pSrc \<noteq> None \<and> iSrcLen \<noteq> SQL_NULL_DATA then iSrcLen else 0);
          finish = (\<lambda>(rc, d, n).
            let rc' = (if want then rc else SQL_SUCCESS) in
            (rc', d, if want then Some n else None, if rc' = SQL_SUCCESS_WITH_INFO then off + cbLen else 0))
      in map_option finish
        (if odd iSrcLen then Some (SQL_ERROR, pDest, len)
         else case pDest of
           None \<Rightarrow> Some (SQL_SUCCESS_WITH_INFO, None, len)
         | Some d \<Rightarrow>
             if 0 < len then
               (let n = iSrcLen div 2;
                    output_len = (if n \<le> cbLen then n else cbLen)
                in Option.bind (hex_pairs (nat output_len) src) (\<lambda>bs.
                     map_option (\<lambda>d'. (if n \<le> cbLen then SQL_SUCCESS else SQL_SUCCESS_WITH_INFO, Some d', n))
                       (put_at d 0 bs)))
             else if 0 < cbLen then map_option (\<lambda>d'. (SQL_SUCCESS, Some d', len)) (put_at d 0 [0])
             else Some (SQL_SUCCESS, Some d, len)))"

definition hex_digit :: "byte \<Rightarrow> byte" where
  "hex_digit v = (if v < 10 then 48 + v else 55 + v)"

definition to_hex :: "byte list \<Rightarrow> byte list" where
  "to_hex bs = concat (map (\<lambda>b. [hex_digit (drop_bit 4 b AND 15), hex_digit (b AND 15)]) bs)"

text \<open>The loop writes two digits per source byte, then a NUL behind them.\<close>

definition copyBinaryToHexDataBigLen ::
  "byte list option \<Rightarrow> int \<Rightarrow> byte list option \<Rightarrow> int \<Rightarrow> bool \<Rightarrow> (int \<times> byte list option \<times> int option) option" where
  "copyBinaryToHexDataBigLen pSrc iSrcLen pDest cbLen0 want =
     (let len = (if pSrc \<noteq> None \<and> iSrcLen \<noteq> SQL_NULL_DATA then iSrcLen else 0);
          cbLen = (if odd cbLen0 then cbLen0 - 1 else cbLen0);
          finish = (\<lambda>(rc, d, n). (if want then rc else SQL_SUCCESS, d, if want then Some n else None))
      in map_option finish
        (case pDest of
           None \<Rightarrow> Some (SQL_SUCCESS_WITH_INFO, None, len)
         | Some d \<Rightarrow>
             if 0 < len then
               (let n = i32 (iSrcLen * 2);
                    output_len = (if n < cbLen then n else cbLen)
                in if output_len < 0 then None
                   else Option.bind (get_at (the pSrc) 0 (nat output_len div 2)) (\<lambda>bs.
                     Option.bind (put_at d 0 (to_hex bs)) (\<lambda>d1.
                       map_option (\<lambda>d2. (if n < cbLen then SQL_SUCCESS else SQL_SUCCESS_WITH_INFO, Some d2, n))
                         (put_at d1 (nat output_len) [0]))))
             else if 0 < cbLen then map_option (\<lambda>d'. (SQL_SUCCESS, Some d', len)) (put_at d 0 [0])
             else Some (SQL_SUCCESS, Some d, len)))"

subsection \<open>Wide forms of binary data\<close>

text \<open>\<open>w\<close> is the runtime width of \<^verbatim>\<open>SQLWCHAR\<close>, 2 or 4 bytes.\<close>

definition wide :: "nat \<Rightarrow> byte \<Rightarrow> byte list" where
  "wide w b = b # replicate (w - 1) 0"

definition copyWBinaryDataBigLen ::
  "nat \<Rightarrow> byte list option \<Rightarrow> int \<Rightarrow> byte list option \<Rightarrow> int \<Rightarrow> bool \<Rightarrow>
   (int \<times> byte list option \<times> int option) option" where
  "copyWBinaryDataBigLen w pSrc iSrcLen pDest cbLen want =
     (let inBytes = (if pSrc \<noteq> None \<and> iSrcLen \<noteq> SQL_NULL_DATA \<and> 0 < iSrcLen then nat iSrcLen else 0);
          cchCap = (if 0 < cbLen then nat cbLen div w else 0);
          need = inBytes * w
      in if want \<and> 2 ^ 63 - 1 < need then Some (SQL_ERROR, pDest, Some 0)
         else let pcb = (if want then Some (int need) else None) in
           case pDest of
             None \<Rightarrow> Some (SQL_SUCCESS, None, pcb)
           | Some d \<Rightarrow>
               if cchCap = 0 then Some (SQL_SUCCESS, Some d, pcb)
               else (let toCopy = (if cchCap - 1 < inBytes then cchCap - 1 else inBytes)
                     in Option.bind (if toCopy = 0 then Some [] else get_at (the pSrc) 0 toCopy) (\<lambda>bs.
                        map_option (\<lambda>d'. (if toCopy < inBytes then SQL_SUCCESS_WITH_INFO else SQL_SUCCESS, Some d', pcb))
                          (put_at d 0 (concat (map (wide w) (bs @ [0])))))))"

definition copyWBinaryToHexDataBigLen ::
  "nat \<Rightarrow> byte list option \<Rightarrow> int \<Rightarrow> byte list option \<Rightarrow> int \<Rightarrow> bool \<Rightarrow>
   (int \<times> byte list option \<times> int option) option" where
  "copyWBinaryToHexDataBigLen w pSrc iSrcLen pDest cbLen want =
     (let inBytes = (if pSrc \<noteq> None \<and> iSrcLen \<noteq> SQL_NULL_DATA \<and> 0 < iSrcLen then nat iSrcLen else 0);
          requiredChars = inBytes * 2
      in if w \<noteq> 2 \<and> w \<noteq> 4 then Some (SQL_ERROR, pDest, None)
         else if want \<and> 2 ^ 63 - 1 < requiredChars * w then Some (SQL_ERROR, pDest, Some 0)
         else let pcb = (if want then Some (int (requiredChars * w)) else None) in
           case pDest of
             None \<Rightarrow> Some (SQL_SUCCESS, None, pcb)
           | Some d \<Rightarrow>
               if cbLen \<le> 0 then Some (SQL_SUCCESS, Some d, pcb)
               else let capChars = nat cbLen div w in
                 if capChars = 0 then Some (SQL_SUCCESS, Some d, pcb)
                 else (let u0 = min (capChars - 1) requiredChars;
                           usable = (if odd u0 then u0 - 1 else u0)
                       in Option.bind (if usable = 0 then Some [] else get_at (the pSrc) 0 (usable div 2)) (\<lambda>bs.
                          map_option (\<lambda>d'. (if usable < requiredChars then SQL_SUCCESS_WITH_INFO else SQL_SUCCESS, Some d', pcb))
                            (put_at d 0 (concat (map (wide w) (to_hex bs @ [0])))))))"

subsection \<open>Memory lemmas\<close>

lemma put_at_0: "length bs \<le> length d \<Longrightarrow> put_at d 0 bs = Some (bs @ drop (length bs) d)"
  by (simp add: put_at_def)

lemma put_at_end: "n = length bs \<Longrightarrow> n < length d \<Longrightarrow>
  put_at (bs @ drop n d) n [0] = Some (bs @ [0] @ drop (Suc n) d)"
  by (simp add: put_at_def)

lemma c_str_terminated: "0 \<notin> set s \<Longrightarrow> c_str (s @ 0 # rest) = s"
  by (induction s) (auto simp: c_str_def)

lemma c_strncpy_terminated:
  "0 \<notin> set s \<Longrightarrow> n \<le> length s \<Longrightarrow> c_strncpy (s @ [0]) n = Some (take n s)"
  using c_str_terminated [of s "[]"] by (simp add: c_strncpy_def)

lemma store_str_ok:
  assumes "0 \<notin> set s" and "n \<le> length s" and "n < length d"
  shows "store_str d (Some (s @ [0])) n = Some (take n s @ [0] @ drop (Suc n) d)"
  using assms put_at_end [of n "take n s" d]
  by (simp add: store_str_def c_strncpy_terminated put_at_0)

text \<open>A terminated copy: the longest prefix that fits with its terminator.\<close>

definition terminated_copy :: "byte list \<Rightarrow> byte list \<Rightarrow> byte list \<Rightarrow> bool" where
  "terminated_copy s d d' \<longleftrightarrow> (let n = min (length s) (length d - 1)
     in d' = take n s @ [0] @ drop (Suc n) d \<and> length d' = length d)"

text \<open>
  Copying a terminated string into a buffer of the stated size never touches memory
  outside it: the application gets the longest prefix that fits, always terminated; the length
  indicator is the full length (as a 16-bit value), and the call reports truncation exactly when
  the string and its terminator do not fit.
\<close>

theorem small_copy_safe:
  assumes "0 \<notin> set s" and "length s < 2 ^ 31" and "0 < length d" and "length d < 2 ^ 15"
  shows "\<exists>d'. copyStrDataSmallLen (Some (s @ [0])) SQL_NTS (Some d) (int (length d)) True =
      Some (if length s < length d then SQL_SUCCESS else SQL_SUCCESS_WITH_INFO, Some d', Some (i16 (int (length s)))) \<and>
    terminated_copy s d d'"
proof -
  have len: "src_len (Some (s @ [0])) SQL_NTS = int (length s)"
    using assms(1,2) c_str_terminated [of s "[]"] by (simp add: src_len_def odbc_codes c_strlen_def c_arith)
  consider (empty) "s = []" | (fits) "s \<noteq> []" "length s < length d" | (cut) "s \<noteq> []" "length d \<le> length s"
    by (meson linorder_not_le)
  then show ?thesis
  proof cases
    case empty
    with len assms(3) show ?thesis
      by (simp add: copyStrDataSmallLen_def Let_def put_at_def terminated_copy_def Suc_leI)
  next
    case fits
    then have "store_str d (Some (s @ [0])) (length s) = Some (s @ [0] @ drop (Suc (length s)) d)"
      using store_str_ok [of s "length s" d] assms(1) by simp
    moreover have "min (length s) (length d - 1) = length s" using fits by simp
    ultimately show ?thesis using fits len
      by (simp add: copyStrDataSmallLen_def Let_def terminated_copy_def)
  next
    case cut
    have n: "nat (int (length d) - 1) = length d - 1" by simp
    have "store_str d (Some (s @ [0])) (length d - 1) = Some (take (length d - 1) s @ [0] @ drop (Suc (length d - 1)) d)"
      using store_str_ok [of s "length d - 1" d] assms(1,3) cut by simp
    moreover have "min (length s) (length d - 1) = length d - 1" using cut by simp
    ultimately show ?thesis using cut len n assms(3)
      by (simp add: copyStrDataSmallLen_def Let_def terminated_copy_def)
  qed
qed

theorem small_copy_safe_witness:
  "\<exists>d'. copyStrDataSmallLen (Some ([104, 105, 33] @ [0])) SQL_NTS (Some [7, 7, 7]) 3 True =
      Some (SQL_SUCCESS_WITH_INFO, Some d', Some 3) \<and> d' = [104, 105, 0]"
  using small_copy_safe [of "[104, 105, 33]" "[7, 7, 7]"]
  by (simp add: terminated_copy_def Let_def min_def c_arith)

text \<open>
  Writing binary data as hexadecimal digits overruns the application's buffer by one
  byte whenever its even size does not exceed the text: the terminator goes behind the last byte.
\<close>

theorem hex_copy_overruns_buffer:
  assumes "bs \<noteq> []" and "length d \<le> 2 * length bs" and "even (length d)" and "length bs < 2 ^ 30"
  shows "copyBinaryToHexDataBigLen (Some bs) (int (length bs)) (Some d) (int (length d)) want = None"
proof -
  have "int (length bs) \<noteq> SQL_NULL_DATA" "0 < int (length bs)" using assms(1) by (simp_all add: odbc_codes)
  moreover have "i32 (int (length bs) * 2) = int (length bs) * 2" using assms(4) by (intro i32_id) simp_all
  moreover have "\<not> odd (int (length d))" "\<not> int (length bs) * 2 < int (length d)" using assms(2,3) by auto
  moreover have "Option.bind (put_at d 0 x) (\<lambda>d1. map_option f (put_at d1 (length d) [0])) = None" for x f
    by (auto simp: put_at_def)
  ultimately show ?thesis
    by (auto simp: copyBinaryToHexDataBigLen_def Let_def bind_eq_None_conv)
qed

theorem hex_copy_overruns_buffer_witness:
  "copyBinaryToHexDataBigLen (Some [255, 1]) 2 (Some [0, 0, 0, 0]) 4 True = None"
  using hex_copy_overruns_buffer [of "[255, 1]" "[0, 0, 0, 0]" True] by simp

end
