(* ===== verification/Rs_Fetch.thy ===== *)
theory Rs_Fetch
  imports Rs_Copy
begin

text \<open>
  Fetching long data in pieces. The application calls \<^verbatim>\<open>SQLGetData\<close> again and again while
  it is told that data was truncated; the driver keeps an offset between the calls. The interface
  of such a fetch is a locale; the copy functions for strings and for hexadecimal data provide it.
\<close>

subsection \<open>The application's loop\<close>

type_synonym fetcher = "int \<Rightarrow> (int \<times> byte list \<times> int) option"

fun fetch_all :: "fetcher \<Rightarrow> nat \<Rightarrow> int \<Rightarrow> byte list option" where
  "fetch_all f 0 off = None"
| "fetch_all f (Suc n) off =
     (case f off of
        None \<Rightarrow> None
      | Some (rc, bs, off') \<Rightarrow>
          if rc = SQL_SUCCESS_WITH_INFO then map_option ((@) bs) (fetch_all f n off')
          else if rc = SQL_SUCCESS then Some bs else None)"

locale chunked_fetch =
  fixes ok :: "byte list \<Rightarrow> nat \<Rightarrow> bool" and data :: "byte list \<Rightarrow> byte list"
    and fetch :: "byte list \<Rightarrow> nat \<Rightarrow> fetcher"
  assumes cap_pos: "ok s cap \<Longrightarrow> 0 < cap"
    and more_left: "ok s cap \<Longrightarrow> off + cap < length (data s) \<Longrightarrow>
      fetch s cap (int off) = Some (SQL_SUCCESS_WITH_INFO, take cap (drop off (data s)), int (off + cap))"
    and last_piece: "ok s cap \<Longrightarrow> off < length (data s) \<Longrightarrow> length (data s) \<le> off + cap \<Longrightarrow>
      fetch s cap (int off) = Some (SQL_SUCCESS, drop off (data s), 0)"
begin

lemma fetch_all_data:
  assumes "ok s cap" and "off < length (data s)" and "length (data s) - off \<le> n"
  shows "fetch_all (fetch s cap) n (int off) = Some (drop off (data s))"
  using assms(2,3)
proof (induction n arbitrary: off)
  case 0
  then show ?case by simp
next
  case (Suc n)
  show ?case
  proof (cases "off + cap < length (data s)")
    case True
    have "length (data s) - (off + cap) \<le> n" using Suc.prems cap_pos [OF assms(1)] True by simp
    then have "fetch_all (fetch s cap) n (int (off + cap)) = Some (drop (off + cap) (data s))"
      by (rule Suc.IH [OF True])
    moreover have "take cap (drop off (data s)) @ drop (off + cap) (data s) = drop off (data s)"
      using append_take_drop_id [of cap "drop off (data s)"] by (simp add: add.commute)
    ultimately show ?thesis using more_left [OF assms(1) True] by simp
  next
    case False
    then show ?thesis
      using last_piece [OF assms(1) Suc.prems(1)] by (simp add: odbc_codes)
  qed
qed

end

subsection \<open>Strings\<close>

text \<open>
  One call with a buffer of \<open>cap + 1\<close> bytes; the application reads the buffer up to its
  terminator.
\<close>

definition fetch_str :: "byte list \<Rightarrow> nat \<Rightarrow> fetcher" where
  "fetch_str s cap off =
     map_option (\<lambda>r. (br_rc r, c_str (the (br_dest r)), the (br_off r)))
       (copyStrDataBigLen (Some (s @ [0])) SQL_NTS (Some (replicate (Suc cap) 0)) (int cap + 1) (Some off) (Some 0))"

definition str_ok :: "byte list \<Rightarrow> nat \<Rightarrow> bool" where
  "str_ok s cap \<longleftrightarrow> 0 \<notin> set s \<and> length s < 2 ^ 31 \<and> 0 < cap \<and> cap < 2 ^ 31"

lemma fetch_str_piece:
  assumes ok: "str_ok s cap" and off: "off < length s"
  shows "fetch_str s cap (int off) =
    Some (if off + cap < length s then (SQL_SUCCESS_WITH_INFO, take cap (drop off s), int (off + cap))
          else (SQL_SUCCESS, drop off s, 0))"
proof -
  let ?n = "min (length s - off) cap" and ?d = "replicate (Suc cap) (0::byte)"
  have s: "0 \<notin> set s" "length s < 2 ^ 31" "cap < 2 ^ 31" "0 < cap" using ok by (simp_all add: str_ok_def)
  have len: "src_len (Some (s @ [0])) SQL_NTS = int (length s)"
    using s(1,2) c_str_terminated [of s "[]"] by (simp add: src_len_def odbc_codes c_strlen_def c_arith)
  have ints: "i32 (int off) = int off" "i32 (int (length s) - int off) = int (length s - off)"
    "i32 (int cap + 1 - 1) = int cap"
    using s off by (simp_all add: c_arith of_nat_diff)
  have n: "max 0 (min (int (length s - off)) (int cap)) = int ?n" by simp
  have npos: "0 < ?n" using off s(4) by simp
  have ne: "s \<noteq> []" using off by auto
  have get: "get_at (s @ [0]) off ?n = Some (take ?n (drop off s))"
    using off by (simp add: get_at_def)
  have put: "put_at ?d 0 (take ?n (drop off s)) = Some (take ?n (drop off s) @ replicate (Suc cap - ?n) 0)"
    by (simp add: put_at_def min_def del: replicate.simps)
  have trm: "put_at (take ?n (drop off s) @ replicate (Suc cap - ?n) 0) ?n [0] =
      Some (take ?n (drop off s) @ 0 # replicate (cap - ?n) 0)"
    by (simp add: put_at_def min_def)
  have out: "c_str (take ?n (drop off s) @ 0 # replicate (cap - ?n) 0) = take ?n (drop off s)"
    by (rule c_str_terminated) (meson in_set_dropD in_set_takeD s(1))
  have z: "min (int ?n) (int cap) = int ?n" by simp
  have copy: "copyStrDataBigLen (Some (s @ [0])) SQL_NTS (Some ?d) (int cap + 1) (Some (int off)) (Some 0) =
      Some \<lparr>br_rc = if ?n < length s - off then SQL_SUCCESS_WITH_INFO else SQL_SUCCESS,
        br_dest = Some (take ?n (drop off s) @ 0 # replicate (cap - ?n) 0),
        br_off = Some (if ?n < length s - off then int off + int ?n else 0),
        br_ind = Some (int (length s - off)), br_diag = if ?n < length s - off then [''01004''] else []\<rparr>"
    using len ints n npos ne get put trm z off
    by (simp add: copyStrDataBigLen_def Let_def odbc_codes del: replicate.simps)
  have "(?n < length s - off) = (off + cap < length s)" using off by auto
  then show ?thesis
    unfolding fetch_str_def copy using out by (auto simp: min_def)
qed

interpretation str_fetch: chunked_fetch str_ok "\<lambda>s. s" fetch_str
proof
  show "str_ok s cap \<Longrightarrow> 0 < cap" for s cap by (simp add: str_ok_def)
qed (simp_all add: fetch_str_piece)



subsection \<open>Hexadecimal data\<close>

lemma hex_digit_inverse: "v < 16 \<Longrightarrow> hex_to_binary (hex_digit v) = v"
proof -
  assume "v < 16"
  then have "unat v \<in> set [0..<16]" by (simp add: word_less_nat_alt)
  moreover have "\<forall>n \<in> set [0..<16]. hex_to_binary (hex_digit (word_of_nat n)) = word_of_nat n" by code_simp
  ultimately have "hex_to_binary (hex_digit (word_of_nat (unat v))) = word_of_nat (unat v)" by blast
  then show ?thesis by simp
qed

lemma nibbles:
  fixes b :: byte
  shows "push_bit 4 (drop_bit 4 b AND 15) OR (b AND 15) = b"
proof (rule bit_word_eqI)
  fix n assume "n < LENGTH(8)"
  have m: "(15::byte) = mask 4" by (simp add: mask_numeral)
  show "bit (push_bit 4 (drop_bit 4 b AND 15) OR (b AND 15)) n = bit b n"
    using \<open>n < LENGTH(8)\<close> unfolding m
    by (auto simp: bit_simps)
qed

lemma nibble_bound:
  fixes b :: byte
  shows "b AND 15 < 16"
proof -
  have "(15::byte) = mask 4" by (simp add: mask_numeral)
  then have "b AND 15 = take_bit 4 b" by (simp add: take_bit_eq_mask)
  then show ?thesis
    using take_bit_nat_less_exp [of 4 "unat b"] by (simp add: word_less_nat_alt unsigned_take_bit_eq)
qed

lemma nibbles': "push_bit 4 (drop_bit 4 b) AND 240 OR b AND 15 = (b::byte)"
  using nibbles [of b] by simp

lemma hex_pairs_to_hex: "hex_pairs (length bs) (to_hex bs @ rest) = Some bs"
  by (induction bs) (simp_all add: to_hex_def hex_digit_inverse nibble_bound nibbles')

lemma length_to_hex [simp]: "length (to_hex bs) = 2 * length bs"
  by (induction bs) (simp_all add: to_hex_def)

lemma to_hex_drop: "drop (2 * k) (to_hex bs) = to_hex (drop k bs)"
proof (induction k arbitrary: bs)
  case (Suc k)
  then show ?case by (cases bs) (simp_all add: to_hex_def)
qed simp

lemma hex_pairs_take: "n \<le> length bs \<Longrightarrow> hex_pairs n (to_hex bs) = Some (take n bs)"
proof -
  assume n: "n \<le> length bs"
  have "to_hex bs = to_hex (take n bs) @ to_hex (drop n bs)"
    by (simp add: to_hex_def flip: concat_append map_append)
  then show ?thesis using hex_pairs_to_hex [of "take n bs"] n by simp
qed

text \<open>
  The source is the hexadecimal text of \<open>bs\<close>; the application takes as many bytes from the buffer
  as the indicator and the buffer's size allow.
\<close>

definition fetch_hex :: "byte list \<Rightarrow> nat \<Rightarrow> fetcher" where
  "fetch_hex bs cap off =
     map_option (\<lambda>(rc, d, n, off'). (rc, take (min cap (nat (the n))) (the d), off'))
       (copyHexToBinaryDataBigLen (Some (to_hex bs)) (2 * int (length bs)) (Some (replicate cap 0)) (int cap) True off)"

definition hex_ok :: "byte list \<Rightarrow> nat \<Rightarrow> bool" where
  "hex_ok bs cap \<longleftrightarrow> length bs < 2 ^ 30 \<and> 0 < cap"

lemma fetch_hex_piece:
  assumes ok: "hex_ok bs cap" and off: "off < length bs"
  shows "fetch_hex bs cap (int off) =
    Some (if off + cap < length bs then (SQL_SUCCESS_WITH_INFO, take cap (drop off bs), int (off + cap))
          else (SQL_SUCCESS, drop off bs, 0))"
proof -
  obtain m where "0 < m" "off + m = length bs" using less_imp_add_positive [OF off] by blast
  then have m: "length bs = off + m" "0 < m" by simp_all
  have b: "length bs < 2 ^ 30" "0 < cap" using ok by (simp_all add: hex_ok_def)
  have ints: "i32 (int off * 2) = 2 * int off" "i32 (2 * int (length bs) - 2 * int off) = 2 * int m"
    using b m by (simp_all add: c_arith)
  have src: "(if int off \<noteq> 0 then \<lambda>s. drop (nat (2 * int off)) s else id) (to_hex bs) = to_hex (drop off bs)"
    using to_hex_drop [of off bs] by (auto simp: nat_mult_distrib)
  have len: "(if int off \<noteq> 0 then 2 * int m else 2 * int (length bs)) = 2 * int m" using m by simp
  have null: "2 * int m \<noteq> SQL_NULL_DATA" using m by (simp add: odbc_codes)
  have pairs: "k \<le> m \<Longrightarrow> hex_pairs k (to_hex (drop off bs)) = Some (take k (drop off bs))" for k
    using m by (intro hex_pairs_take) simp
  have put: "k \<le> m \<Longrightarrow> k \<le> cap \<Longrightarrow> put_at (replicate cap 0) 0 (take k (drop off bs)) =
      Some (take k (drop off bs) @ replicate (cap - k) 0)" for k
    using m by (simp add: put_at_def min_def)
  have copy: "copyHexToBinaryDataBigLen (Some (to_hex bs)) (2 * int (length bs)) (Some (replicate cap 0)) (int cap) True (int off) =
      Some (if m \<le> cap then SQL_SUCCESS else SQL_SUCCESS_WITH_INFO,
        Some (take (min m cap) (drop off bs) @ replicate (cap - min m cap) 0), Some (int m),
        if m \<le> cap then 0 else int off + int cap)"
    unfolding copyHexToBinaryDataBigLen_def Let_def ints option.case src len
    using m(2) null pairs put by (cases "m \<le> cap") (simp_all add: odbc_codes)
  have "(m \<le> cap) = (\<not> off + cap < length bs)" using m by auto
  then show ?thesis unfolding fetch_hex_def copy using m by (auto simp: min_def)
qed

interpretation hex_fetch: chunked_fetch hex_ok "\<lambda>bs. bs" fetch_hex
proof
  show "hex_ok bs cap \<Longrightarrow> 0 < cap" for bs cap by (simp add: hex_ok_def)
qed (simp_all add: fetch_hex_piece)



end
