(* ===== verification/Rs_Calendar.thy ===== *)
theory Rs_Calendar
  imports Prelude "HOL-Library.Signed_Division"
begin

text \<open>
  Dates and times in the server's binary form (\<^verbatim>\<open>rsutil.c\<close>): the conversion of day numbers
  to calendar dates and of microsecond counts to clock times, against the Gregorian calendar as
  the specification.
\<close>

subsection \<open>The Gregorian calendar\<close>

definition leap :: "int \<Rightarrow> bool" where
  "leap y \<longleftrightarrow> 4 dvd y \<and> (\<not> 100 dvd y \<or> 400 dvd y)"

definition month_len :: "bool \<Rightarrow> int \<Rightarrow> int" where
  "month_len lp m = (if m = 2 then (if lp then 29 else 28) else if m \<in> {4, 6, 9, 11} then 30 else 31)"

definition days_before_month :: "bool \<Rightarrow> int \<Rightarrow> int" where
  "days_before_month lp m = sum_list (map (month_len lp) [1..m - 1])"

definition days_before_year :: "int \<Rightarrow> int" where
  "days_before_year y = 365 * y + (y + 3) div 4 - (y + 99) div 100 + (y + 399) div 400"

lemma days_before_year_0: "days_before_year 0 = 0"
  by (simp add: days_before_year_def)

lemma ceil_div:
  assumes "0 < (k::int)"
  shows "(y + (k - 1)) div k = y div k + (if k dvd y then 0 else 1)" "(y + 1 + (k - 1)) div k = y div k + 1"
proof -
  have r: "0 \<le> y mod k" "y mod k < k" using assms by simp_all
  have "y + (k - 1) = (y mod k + (k - 1)) + k * (y div k)" by simp
  then have "(y + (k - 1)) div k = (y mod k + (k - 1)) div k + y div k"
    using assms by (metis add.commute div_mult_self2 less_irrefl)
  moreover have "(y mod k + (k - 1)) div k = (if k dvd y then 0 else 1)"
  proof (cases "k dvd y")
    case True
    then show ?thesis using assms by (simp add: dvd_eq_mod_eq_0)
  next
    case False
    then have "0 < y mod k" using r by (simp add: dvd_eq_mod_eq_0 order_less_le)
    moreover have "(y mod k + (k - 1)) div k = (y mod k - 1 + k) div k" by (simp add: algebra_simps)
    moreover have "(y mod k - 1) div k = 0" using calculation(1) r by (intro div_pos_pos_trivial) simp_all
    ultimately show ?thesis using False assms div_add_self2 [of k "y mod k - 1"] by simp
  qed
  ultimately show "(y + (k - 1)) div k = y div k + (if k dvd y then 0 else 1)" by simp
  show "(y + 1 + (k - 1)) div k = y div k + 1" using assms div_add_self2 [of k y] by simp
qed

lemma days_before_year_Suc: "days_before_year (y + 1) = days_before_year y + (if leap y then 366 else 365)"
proof -
  have e: "(y + 1 + 3) div 4 = (y + 3) div 4 + (if 4 dvd y then 1 else 0)"
    "(y + 1 + 99) div 100 = (y + 99) div 100 + (if 100 dvd y then 1 else 0)"
    "(y + 1 + 399) div 400 = (y + 399) div 400 + (if 400 dvd y then 1 else 0)"
    using ceil_div [of 4 y] ceil_div [of 100 y] ceil_div [of 400 y] by (simp_all add: add.assoc)
  have d: "100 dvd y \<Longrightarrow> 4 dvd y" "400 dvd y \<Longrightarrow> 100 dvd y"
    using dvd_trans [of 4 100 y] dvd_trans [of 100 400 y] by simp_all
  show ?thesis
    unfolding days_before_year_def e leap_def
    using d by (cases "400 dvd y"; cases "100 dvd y"; cases "4 dvd y") simp_all
qed

text \<open>The number of days from 1 January of year 0 to a date.\<close>

definition day_number :: "int \<Rightarrow> int \<Rightarrow> int \<Rightarrow> int" where
  "day_number y m d = days_before_year y + days_before_month (leap y) m + d - 1"

definition valid_date :: "int \<Rightarrow> int \<Rightarrow> int \<Rightarrow> bool" where
  "valid_date y m d \<longleftrightarrow> 1 \<le> m \<and> m \<le> 12 \<and> 1 \<le> d \<and> d \<le> month_len (leap y) m"

subsection \<open>Julian days\<close>

definition u32 :: "int \<Rightarrow> int" where
  "u32 x = x mod 2 ^ 32"

lemma u32_id: "0 \<le> x \<Longrightarrow> x < 2 ^ 32 \<Longrightarrow> u32 x = x"
  by (simp add: u32_def)

definition POSTGRES_EPOCH_JDATE :: int where
  "POSTGRES_EPOCH_JDATE = 2451545"

text \<open>\<^verbatim>\<open>julian\<close>, \<^verbatim>\<open>quad\<close> and \<^verbatim>\<open>extra\<close> are unsigned.\<close>

definition j2date :: "int \<Rightarrow> int \<times> int \<times> int" where
  "j2date jd =
     (let julian = u32 (u32 jd + 32044);
          quad = julian div 146097;
          extra = u32 (u32 (julian - quad * 146097) * 4 + 3);
          julian = u32 (julian + (60 + quad * 3 + extra div 146097));
          quad = julian div 1461;
          julian = u32 (julian - quad * 1461);
          y = u32 (julian * 4) div 1461;
          julian = (if y \<noteq> 0 then u32 (julian + 305) mod 365 else u32 (julian + 306) mod 366) + 123;
          y = i32 (y + u32 (quad * 4));
          year = y - 4800;
          quad = u32 (julian * 2141) div 65536;
          day = u32 (julian - u32 (7834 * quad) div 256);
          month = (quad + 10) mod 12 + 1
      in (year, month, day))"

text \<open>The last three lines, on the day \<open>t\<close> of a year that starts on 1 March.\<close>

definition md_month :: "int \<Rightarrow> int" where
  "md_month t = ((t + 123) * 2141 div 65536 + 10) mod 12 + 1"

definition md_day :: "int \<Rightarrow> int" where
  "md_day t = t + 123 - 7834 * ((t + 123) * 2141 div 65536) div 256"

definition md_ok :: "bool \<Rightarrow> int \<Rightarrow> int \<Rightarrow> bool" where
  "md_ok lp t doy \<longleftrightarrow> (let m = md_month t; d = md_day t in
     1 \<le> m \<and> m \<le> 12 \<and> 1 \<le> d \<and> d \<le> month_len lp m \<and> days_before_month lp m + d - 1 = doy)"

lemma in_upto: "a \<le> x \<Longrightarrow> x \<le> b \<Longrightarrow> x \<in> set [a..b]" for x :: int
  by simp

lemma md_table_leap: "\<forall>doy \<in> set [0..365]. md_ok True ((doy + 306) mod 366) doy"
  by code_simp

lemma md_table: "\<forall>doy \<in> set [0..364]. md_ok False ((doy + 306) mod 365) doy"
  by code_simp

lemma md_table_short: "\<forall>r \<in> set [60..365]. md_ok False ((r + 306) mod 366) (r - 1)"
  by code_simp

lemma md_tail: "\<forall>t \<in> set [0..365]. (let quad = u32 ((t + 123) * 2141) div 65536
    in (u32 (t + 123 - u32 (7834 * quad) div 256), (quad + 10) mod 12 + 1)) = (md_day t, md_month t)"
  by code_simp

lemma md_table_start: "\<forall>r \<in> set [0..58]. md_ok False ((r + 306) mod 366) r"
  by code_simp

subsection \<open>The conversion is the calendar\<close>

text \<open>\<open>split_cycle\<close>: the century, the four-year group and the day in it, as the code computes them.\<close>

lemma split_century:
  assumes "0 \<le> (n::int)" "n < 146097"
  shows "\<exists>h m. (4 * n + 3) div 146097 = h \<and> n = 36524 * h + m \<and> 0 \<le> h \<and> h \<le> 3 \<and> 0 \<le> m \<and>
    m \<le> (if h = 3 then 36524 else 36523)"
proof -
  let ?h = "(4 * n + 3) div 146097"
  have "146097 * ?h \<le> 4 * n + 3" "4 * n + 3 < 146097 * ?h + 146097"
    using mult_div_mod_eq [of 146097 "4 * n + 3"] pos_mod_bound [of 146097 "4 * n + 3"]
      pos_mod_sign [of 146097 "4 * n + 3"] by linarith+
  moreover have h: "0 \<le> ?h" "?h \<le> 3" using assms calculation by linarith+
  then consider "?h = 0" | "?h = 1" | "?h = 2" | "?h = 3" by linarith
  then show ?thesis
  proof cases
  qed (use calculation h in \<open>auto intro!: exI [of _ "n - 36524 * ?h"]\<close>)
qed

lemma year_words:
  assumes "0 \<le> c" "c < 15000" "0 \<le> h" "h \<le> 3" "0 \<le> q" "q \<le> 25" "0 \<le> yy" "yy \<le> 3"
  shows "u32 ((100 * c + 25 * h + q) * 4) = 400 * c + 100 * h + 4 * q"
    "i32 (yy + (400 * c + 100 * h + 4 * q)) - 4800 = 400 * c + 100 * h + 4 * q + yy - 4800"
  using assms by (simp_all add: u32_id i32_id)

lemma not_leap_group: "0 < yy \<Longrightarrow> yy \<le> 3 \<Longrightarrow> \<not> 4 dvd 4 * q + (yy::int) \<and> (4 * q + yy + 3) div 4 = q + 1"
  by presburger

lemma j2date_unfold:
  assumes "0 \<le> jd" "jd < 2 ^ 31"
  shows "\<exists>c h m. jd + 32044 = 146097 * c + 36524 * h + m \<and> 0 \<le> c \<and> c < 15000 \<and> 0 \<le> h \<and> h \<le> 3 \<and> 0 \<le> m \<and>
    m \<le> (if h = 3 then 36524 else 36523) \<and>
    j2date jd = (let q = (m + 60) div 1461; r = (m + 60) mod 1461; yy = 4 * r div 1461;
        t = (if yy \<noteq> 0 then (r + 305) mod 365 else (r + 306) mod 366)
      in (400 * c + 100 * h + 4 * q + yy - 4800, md_month t, md_day t))"
proof -
  let ?N = "jd + 32044"
  let ?c = "?N div 146097" and ?n = "?N mod 146097"
  have n: "0 \<le> ?n" "?n < 146097" by simp_all
  obtain h m where hm: "(4 * ?n + 3) div 146097 = h" "?n = 36524 * h + m" "0 \<le> h" "h \<le> 3" "0 \<le> m"
    "m \<le> (if h = 3 then 36524 else 36523)" using split_century [OF n] by blast
  have N: "?N = 146097 * ?c + ?n" by simp
  have c: "0 \<le> ?c" "?c < 15000" using assms by (simp_all add: div_less_iff_less_mult pos_imp_zdiv_nonneg_iff)
  have m': "m \<le> 36524" using hm(6) by (simp split: if_splits)
  have sum: "?N + (60 + ?c * 3 + h) = (m + 60) + 1461 * (100 * ?c + 25 * h)" using N hm(2) by simp
  have q: "(?N + (60 + ?c * 3 + h)) div 1461 = 100 * ?c + 25 * h + (m + 60) div 1461"
    "(?N + (60 + ?c * 3 + h)) mod 1461 = (m + 60) mod 1461"
    unfolding sum by (simp_all only: div_mult_self2 mod_mult_self2)
  let ?q = "(m + 60) div 1461" and ?r = "(m + 60) mod 1461"
  let ?yy = "4 * ?r div 1461"
  let ?t = "if ?yy \<noteq> 0 then (?r + 305) mod 365 else (?r + 306) mod 366"
  have b: "0 \<le> ?q" "?q \<le> 25" "0 \<le> ?r" "?r < 1461"
    using hm(5) m' by (simp_all add: pos_imp_zdiv_nonneg_iff)
  then have yy: "0 \<le> ?yy" "?yy \<le> 3" by (simp_all add: pos_imp_zdiv_nonneg_iff)
  have "0 \<le> ?t" "?t \<le> 365" using pos_mod_bound [of 366 "?r + 306"] pos_mod_bound [of 365 "?r + 305"] by auto
  then have "?t \<in> set [0..365]" by (rule in_upto)
  from bspec [OF md_tail this] have tail: "u32 (?t + 123 - u32 (7834 * (u32 ((?t + 123) * 2141) div 65536)) div 256) = md_day ?t"
    "(u32 ((?t + 123) * 2141) div 65536 + 10) mod 12 + 1 = md_month ?t"
    by (simp_all only: Let_def prod.inject)
  have u1: "u32 (u32 jd + 32044) = ?N" using assms by (simp add: u32_id)
  have "?N - ?c * 146097 = ?n" by (rule minus_div_mult_eq_mod)
  then have u2: "u32 (u32 (?N - ?c * 146097) * 4 + 3) = 4 * ?n + 3" using n by (simp add: u32_id)
  have u3: "u32 (?N + (60 + ?c * 3 + h)) = ?N + (60 + ?c * 3 + h)" using assms c hm by (intro u32_id) simp_all
  have "?N + (60 + ?c * 3 + h) - (100 * ?c + 25 * h + ?q) * 1461 = ?r"
    using sum mult_div_mod_eq [of 1461 "m + 60"] by (simp add: algebra_simps)
  then have u4: "u32 (?N + (60 + ?c * 3 + h) - (100 * ?c + 25 * h + ?q) * 1461) = ?r" using b by (simp add: u32_id)
  have u5: "u32 (?r * 4) = 4 * ?r" "u32 (?r + 305) = ?r + 305" "u32 (?r + 306) = ?r + 306"
    using b by (simp_all add: u32_id)
  note u67 = year_words [OF c hm(3,4) b(1,2) yy]
  have "j2date jd = (400 * ?c + 100 * h + 4 * ?q + ?yy - 4800, md_month ?t, md_day ?t)"
    unfolding j2date_def Let_def u1 u2 hm(1) u3 q(1) u4 u5 u67 tail ..
  moreover have "?N = 146097 * ?c + 36524 * h + m" using N hm(2) by simp
  ultimately show ?thesis using c hm(3-6) unfolding Let_def by blast
qed

text \<open>Where a year starts, in the coordinates of the conversion.\<close>

lemma year_start:
  assumes "0 \<le> h" "h \<le> 3" "0 \<le> k" "k \<le> 99"
  shows "days_before_year (400 * c + 100 * h + k - 4800) =
      146097 * c + 36524 * h + 365 * k + (k + 3) div 4 - (if k = 0 then 0 else 1) + (if h = 0 \<and> k = 0 then 0 else 1) - 1753164"
    "leap (400 * c + 100 * h + k - 4800) = (4 dvd k \<and> (k \<noteq> 0 \<or> h = 0))"
proof -
  let ?Y = "400 * c + 100 * h + k - 4800"
  have "?Y + 3 = (k + 3) + 4 * (100 * c + 25 * h - 1200)" by simp
  then have d4: "(?Y + 3) div 4 = (k + 3) div 4 + (100 * c + 25 * h - 1200)" by (simp only: div_mult_self2)
  have "?Y + 99 = (k + 99) + 100 * (4 * c + h - 48)" by simp
  then have d100: "(?Y + 99) div 100 = (k + 99) div 100 + (4 * c + h - 48)" by (simp only: div_mult_self2)
  have "?Y + 399 = (100 * h + k + 399) + 400 * (c - 12)" by simp
  then have d400: "(?Y + 399) div 400 = (100 * h + k + 399) div 400 + (c - 12)" by (simp only: div_mult_self2)
  have e100: "(k + 99) div 100 = (if k = 0 then 0 else 1)" using assms by auto
  have e400: "(100 * h + k + 399) div 400 = (if h = 0 \<and> k = 0 then 0 else 1)" using assms by auto
  show "days_before_year ?Y =
      146097 * c + 36524 * h + 365 * k + (k + 3) div 4 - (if k = 0 then 0 else 1) + (if h = 0 \<and> k = 0 then 0 else 1) - 1753164"
    unfolding days_before_year_def d4 d100 d400 e100 e400 by simp
  have "?Y = k + 4 * (100 * c + 25 * h - 1200)" by simp
  then have "?Y mod 4 = k mod 4" by (simp only: mod_mult_self2)
  moreover have "?Y = k + 100 * (4 * c + h - 48)" by simp
  then have "?Y mod 100 = k mod 100" by (simp only: mod_mult_self2)
  moreover have "?Y = (100 * h + k) + 400 * (c - 12)" by simp
  then have "?Y mod 400 = (100 * h + k) mod 400" by (simp only: mod_mult_self2)
  moreover have "k mod 100 = k" "(100 * h + k) mod 400 = 100 * h + k" using assms by simp_all
  ultimately have "leap ?Y = (k mod 4 = 0 \<and> (k \<noteq> 0 \<or> 100 * h + k = 0))"
    unfolding leap_def dvd_eq_mod_eq_0 by simp
  then show "leap ?Y = (4 dvd k \<and> (k \<noteq> 0 \<or> h = 0))"
    using assms by (auto simp: dvd_eq_mod_eq_0)
qed

lemma j2date_correct:
  assumes jd: "0 \<le> jd" "jd < 2 ^ 31" and eq: "j2date jd = (y, m, d)"
  shows "valid_date y m d \<and> day_number y m d + 1721060 = jd"
proof -
  obtain c h n where n: "jd + 32044 = 146097 * c + 36524 * h + n" "0 \<le> h" "h \<le> 3" "0 \<le> n"
    "n \<le> (if h = 3 then 36524 else 36523)" and
    u: "j2date jd = (let q = (n + 60) div 1461; r = (n + 60) mod 1461; yy = 4 * r div 1461;
        t = (if yy \<noteq> 0 then (r + 305) mod 365 else (r + 306) mod 366)
      in (400 * c + 100 * h + 4 * q + yy - 4800, md_month t, md_day t))"
    using j2date_unfold [OF jd] by blast
  obtain q r where qr: "(n + 60) div 1461 = q" "(n + 60) mod 1461 = r" by blast
  obtain yy where yyd: "4 * r div 1461 = yy" by blast
  have nq: "n + 60 = 1461 * q + r" using mult_div_mod_eq [of 1461 "n + 60"] qr by simp
  have r0: "0 \<le> r" "r < 1461" using qr(2) pos_mod_sign [of 1461 "n + 60"] pos_mod_bound [of 1461 "n + 60"] by simp_all
  have "n \<le> 36524" using n(5) by (simp split: if_splits)
  then have b: "0 \<le> q" "q \<le> 25" "0 \<le> r" "r < 1461" using nq r0 n(4) by linarith+
  have yr: "1461 * yy \<le> 4 * r" "4 * r < 1461 * yy + 1461"
    using yyd mult_div_mod_eq [of 1461 "4 * r"] pos_mod_bound [of 1461 "4 * r"]
      pos_mod_sign [of 1461 "4 * r"] by linarith+
  have yy: "0 \<le> yy" "yy \<le> 3" using b yr by linarith+
  note u = u [unfolded qr yyd Let_def]
  have fin: "valid_date y m d \<and> day_number y m d + 1721060 = jd"
    if "md_ok (leap y) t doy" "m = md_month t" "d = md_day t" "days_before_year y + doy + 1721060 = jd" for t doy
    using that by (simp add: md_ok_def Let_def valid_date_def day_number_def)
  show ?thesis
  proof (cases "yy = 0")
    case False
    let ?doy = "r - 365 * yy - 1"
    have r: "365 * yy + 1 \<le> r" "r \<le> 365 * yy + 365"
    proof -
      have "yy = 1 \<or> yy = 2 \<or> yy = 3" using yy False by linarith
      with yr show "365 * yy + 1 \<le> r" "r \<le> 365 * yy + 365" by auto
    qed
    have q24: "q \<le> 24"
    proof (rule ccontr)
      assume "\<not> q \<le> 24"
      then have "q = 25" using b by simp
      then have "r \<le> 59" using nq n(5) by (simp split: if_splits)
      then show False using r False yy by linarith
    qed
    have k: "0 \<le> 4 * q + yy" "4 * q + yy \<le> 99" "4 * q + yy \<noteq> 0" using b yy False q24 by linarith+
    have k4: "(4 * q + yy + 3) div 4 = q + 1" and nd: "\<not> 4 dvd 4 * q + yy"
      using not_leap_group [of yy q] yy False by simp_all
    have t: "(r + 305) mod 365 = (?doy + 306) mod 365"
    proof -
      have "r + 305 = (?doy + 306) + 365 * yy" by simp
      then show ?thesis by (simp only: mod_mult_self2)
    qed
    have y: "y = 400 * c + 100 * h + (4 * q + yy) - 4800" "m = md_month ((?doy + 306) mod 365)"
      "d = md_day ((?doy + 306) mod 365)"
      using eq u False t by (simp_all add: Let_def)
    have lp: "\<not> leap y" using year_start(2) [OF n(2,3) k(1,2), of c] nd y(1) by simp
    have "?doy \<in> set [0..364]" by (rule in_upto) (use r in linarith)+
    from bspec [OF md_table this] have "md_ok (leap y) ((?doy + 306) mod 365) ?doy" using lp by (simp only:)
    then show ?thesis
    proof (rule fin [OF _ y(2,3)])
      show "days_before_year y + ?doy + 1721060 = jd"
        unfolding y(1) year_start(1) [OF n(2,3) k(1,2)] k4 using k(3) n(1) nq by simp
    qed
  next
    case True
    have r: "r \<le> 365" using True yr by linarith
    have y: "y = 400 * c + 100 * h + 4 * q - 4800" "m = md_month ((r + 306) mod 366)"
      "d = md_day ((r + 306) mod 366)"
      using eq u True by (simp_all add: Let_def)
    have in_r: "r \<in> set [0..365]" using b(3) r by (rule in_upto)
    consider (first) "q = 0" "h \<noteq> 0" | (leaps) "q = 0 \<and> h = 0 \<or> 1 \<le> q \<and> q \<le> 24" | (last) "q = 25"
      using b by linarith
    then show ?thesis
    proof cases
      case first
      have k0: "(0::int) \<le> 0" "(0::int) \<le> 99" by simp_all
      have lp: "\<not> leap y" using year_start(2) [OF n(2,3) k0, of c] y(1) first by simp
      have "60 \<le> r" using nq n(4) first by simp
      then have "r \<in> set [60..365]" using r by (rule in_upto)
      from bspec [OF md_table_short this] have "md_ok (leap y) ((r + 306) mod 366) (r - 1)" using lp by (simp only:)
      then show ?thesis
      proof (rule fin [OF _ y(2,3)])
        show "days_before_year y + (r - 1) + 1721060 = jd"
          using year_start(1) [OF n(2,3) k0, of c] y(1) first n(1) nq by simp
      qed
    next
      case leaps
      have k: "0 \<le> 4 * q" "4 * q \<le> 99" using leaps b by auto
      have k4: "(4 * q + 3) div 4 = q" by simp
      have lp: "leap y" using year_start(2) [OF n(2,3) k, of c] y(1) leaps by auto
      have "md_ok (leap y) ((r + 306) mod 366) r" using bspec [OF md_table_leap in_r] lp by (simp only:)
      then show ?thesis
      proof (rule fin [OF _ y(2,3)])
        show "days_before_year y + r + 1721060 = jd"
          using year_start(1) [OF n(2,3) k, of c] k4 y(1) leaps n(1) nq by auto
      qed
    next
      case last
      have r59: "r \<le> (if h = 3 then 59 else 58)" using nq n(5) last by (simp split: if_splits)
      show ?thesis
      proof (cases "h = 3")
        case True
        have k0: "(0::int) \<le> 0" "(0::int) \<le> 3" "(0::int) \<le> 99" by simp_all
        have y': "y = 400 * (c + 1) + 100 * 0 + 0 - 4800" using y(1) last True by simp
        have lp: "leap y" using year_start(2) [OF k0(1,2,1,3), of "c + 1"] y' by simp
        have "md_ok (leap y) ((r + 306) mod 366) r" using bspec [OF md_table_leap in_r] lp by (simp only:)
        then show ?thesis
        proof (rule fin [OF _ y(2,3)])
          show "days_before_year y + r + 1721060 = jd"
            using year_start(1) [OF k0(1,2,1,3), of "c + 1"] y' n(1) nq True last by simp
        qed
      next
        case False
        have h1: "0 \<le> h + 1" "h + 1 \<le> 3" using False n(2,3) by simp_all
        have k0: "(0::int) \<le> 0" "(0::int) \<le> 99" by simp_all
        have y': "y = 400 * c + 100 * (h + 1) + 0 - 4800" using y(1) last by simp
        have lp: "\<not> leap y" using year_start(2) [OF h1 k0, of c] y' n(2) by simp
        have "r \<in> set [0..58]" by (rule in_upto) (use r59 False b in auto)
        from bspec [OF md_table_start this] have "md_ok (leap y) ((r + 306) mod 366) r" using lp by (simp only:)
        then show ?thesis
        proof (rule fin [OF _ y(2,3)])
          show "days_before_year y + r + 1721060 = jd"
            using year_start(1) [OF h1 k0, of c] y' n(1,2) nq last by simp
        qed
      qed
    qed
  qed
qed

end
