(* ===== verification/Rs_Time.thy ===== *)
theory Rs_Time
  imports Rs_Calendar
begin

text \<open>
  Timestamps, times and intervals of \<^verbatim>\<open>rsutil.c\<close>: the decomposition of microsecond
  counts, their text forms, and the parsing of year-month intervals. Integers are mathematical
  where the C types cannot overflow on the values that reach them; C's truncating division is
  \<open>sdiv\<close> and \<open>smod\<close>.
\<close>

subsection \<open>Fields\<close>

record pg_tm =
  tm_sec :: int
  tm_min :: int
  tm_hour :: int
  tm_mday :: int
  tm_mon :: int
  tm_year :: int

definition DT_NOBEGIN :: int where "DT_NOBEGIN = - (2 ^ 63)"
definition DT_NOEND :: int where "DT_NOEND = 2 ^ 63 - 1"
definition MAX_TIME_VALUE :: int where "MAX_TIME_VALUE = 86400000000"

text \<open>\<^verbatim>\<open>TMODULO(t, q, u)\<close>: the quotient and the new \<^verbatim>\<open>t\<close>.\<close>

definition TMODULO :: "int \<Rightarrow> int \<Rightarrow> int \<times> int" where
  "TMODULO t u = (let q = t sdiv u in (q, if q \<noteq> 0 then t - q * u else t))"

definition dt2time :: "int \<Rightarrow> int \<times> int \<times> int \<times> int" where
  "dt2time jd =
     (let hour = jd sdiv 3600000000;
          time = jd - hour * 3600000000;
          mi = time sdiv 60000000;
          time = time - mi * 60000000;
          sec = time sdiv 1000000
      in (hour, mi, sec, time - sec * 1000000))"

definition timestamp2tm :: "int \<Rightarrow> (pg_tm \<times> int) option" where
  "timestamp2tm dt =
     (case TMODULO dt 86400000000 of (date0, time0) \<Rightarrow>
       (let (time, date1) = (if time0 < 0 then (time0 + 86400000000, date0 - 1) else (time0, date0));
            date = date1 + POSTGRES_EPOCH_JDATE
        in if date < 0 \<or> 2 ^ 31 - 1 < date then None
           else case j2date date of (y, m, d) \<Rightarrow>
             case dt2time time of (hour, mi, sec, fsec) \<Rightarrow>
               Some (\<lparr>tm_sec = sec, tm_min = mi, tm_hour = hour, tm_mday = d, tm_mon = m, tm_year = y\<rparr>, fsec)))"

text \<open>The time of day, the fields hour, minute, second and the microseconds.\<close>

definition time2tm :: "int \<Rightarrow> (int \<times> int \<times> int \<times> int) option" where
  "time2tm time0 =
     (if time0 < 0 \<or> MAX_TIME_VALUE \<le> time0 then None
      else (let hour = time0 sdiv 3600000000;
                time = time0 - hour * 3600000000;
                mi = time sdiv 60000000;
                time = time - mi * 60000000;
                sec = time sdiv 1000000;
                time = time - sec * 1000000
            in Some (hour, mi, sec, time)))"

definition interval2tm :: "int \<Rightarrow> int \<Rightarrow> pg_tm \<times> int" where
  "interval2tm time0 months =
     (let mday = time0 sdiv 86400000000;
          time = time0 - mday * 86400000000;
          hour = time sdiv 3600000000;
          time = time - hour * 3600000000;
          mi = time sdiv 60000000;
          time = time - mi * 60000000;
          sec = time sdiv 1000000
      in (\<lparr>tm_sec = sec, tm_min = mi, tm_hour = hour, tm_mday = mday, tm_mon = months smod 12,
           tm_year = months sdiv 12\<rparr>, time - sec * 1000000))"

text \<open>Big-endian integers of the binary wire format.\<close>

definition getInt32FromBinary :: "byte list \<Rightarrow> nat \<Rightarrow> int" where
  "getInt32FromBinary p i =
     i32 (uint (p ! i) * 2 ^ 24 + uint (p ! (i + 1)) * 2 ^ 16 + uint (p ! (i + 2)) * 2 ^ 8 + uint (p ! (i + 3)))"

definition getInt64FromBinary :: "byte list \<Rightarrow> nat \<Rightarrow> int" where
  "getInt64FromBinary p i =
     i64 (uint (p ! i) * 2 ^ 56 + uint (p ! (i + 1)) * 2 ^ 48 + uint (p ! (i + 2)) * 2 ^ 40 + uint (p ! (i + 3)) * 2 ^ 32 +
       uint (p ! (i + 4)) * 2 ^ 24 + uint (p ! (i + 5)) * 2 ^ 16 + uint (p ! (i + 6)) * 2 ^ 8 + uint (p ! (i + 7)))"

subsection \<open>Text forms\<close>

text \<open>\<^verbatim>\<open>%0wd\<close>.\<close>

definition zpad :: "nat \<Rightarrow> int \<Rightarrow> string" where
  "zpad w n =
     (if n < 0 then (let ds = dec_digits (nat (- n)) in ''-'' @ replicate (w - 1 - length ds) (CHR ''0'') @ ds)
      else (let ds = dec_digits (nat n) in replicate (w - length ds) (CHR ''0'') @ ds))"

text \<open>
  \<^verbatim>\<open>len += snprintf(buf + len, buf_len - len, ...)\<close>: a negative size becomes a huge
  unsigned one, so the call writes past the buffer; the model has no result there.
\<close>

definition snprintf_at :: "int \<Rightarrow> string \<times> int \<Rightarrow> string \<Rightarrow> (string \<times> int) option" where
  "snprintf_at buf_len = (\<lambda>(buf, len) s.
     if buf_len - len < 0 then None
     else Some (if buf_len - len = 0 then buf else buf @ take (nat (buf_len - len) - 1) s, len + int (length s)))"

definition date_out :: "int \<Rightarrow> int \<Rightarrow> (string \<times> int) option" where
  "date_out date buf_len =
     (case j2date (i32 (date + POSTGRES_EPOCH_JDATE)) of (y, m, d) \<Rightarrow>
        if m < 1 \<or> 12 < m then Some ([], 0)
        else if 0 < y then snprintf_at buf_len ([], 0) (zpad 4 y @ ''-'' @ zpad 2 m @ ''-'' @ zpad 2 d)
        else snprintf_at buf_len ([], 0) (zpad 4 (- (y - 1)) @ ''-'' @ zpad 2 m @ ''-'' @ zpad 2 d @ '' BC''))"

text \<open>The seconds with their fraction, as both timestamps and times print them.\<close>

definition sec_text :: "int \<Rightarrow> int \<Rightarrow> string" where
  "sec_text sec fsec = (if fsec \<noteq> 0 then '':'' @ zpad 2 sec @ ''.'' @ zpad 6 fsec else '':'' @ zpad 2 sec)"

definition timestamp_out :: "int \<Rightarrow> int \<Rightarrow> bool \<Rightarrow> (string \<times> int) option" where
  "timestamp_out timestamp buf_len with_zone =
     (if timestamp = DT_NOBEGIN then snprintf_at buf_len ([], 0) ''-infinity''
      else if timestamp = DT_NOEND then snprintf_at buf_len ([], 0) ''infinity''
      else case timestamp2tm timestamp of
        None \<Rightarrow> Some (''0'', 0)
      | Some (tm, fsec) \<Rightarrow>
          Option.bind (snprintf_at buf_len ([], 0)
              (zpad 4 (if 0 < tm_year tm then tm_year tm else - (tm_year tm - 1)) @ ''-'' @ zpad 2 (tm_mon tm) @ ''-'' @
               zpad 2 (tm_mday tm) @ '' '' @ zpad 2 (tm_hour tm) @ '':'' @ zpad 2 (tm_min tm))) (\<lambda>r1.
          Option.bind (snprintf_at buf_len r1 (sec_text (tm_sec tm) fsec)) (\<lambda>r2.
          Option.bind (if with_zone then snprintf_at buf_len r2 '' UTC'' else Some r2) (\<lambda>r3.
            if tm_year tm \<le> 0 then snprintf_at buf_len r3 '' BC'' else Some r3))))"

text \<open>\<^verbatim>\<open>%+03d\<close>.\<close>

definition zpad_signed :: "int \<Rightarrow> string" where
  "zpad_signed n =
     (let ds = dec_digits (nat \<bar>n\<bar>)
      in (if n < 0 then ''-'' else ''+'') @ replicate (2 - length ds) (CHR ''0'') @ ds)"

definition time_out :: "int \<Rightarrow> int \<Rightarrow> int option \<Rightarrow> (string \<times> int) option" where
  "time_out time buf_len tzp =
     (case time2tm time of
        None \<Rightarrow> Some (''0'', 0)
      | Some (hour, mi, sec, fsec) \<Rightarrow>
          if hour < 0 \<or> 24 < hour then Some (''0'', 0)
          else
            Option.bind (snprintf_at buf_len ([], 0) (zpad 2 hour @ '':'' @ zpad 2 mi)) (\<lambda>r1.
            Option.bind (snprintf_at buf_len r1 (sec_text sec fsec)) (\<lambda>r2.
              case tzp of
                None \<Rightarrow> Some r2
              | Some z \<Rightarrow>
                  (let zh = - (z sdiv 3600); zm = (\<bar>z\<bar> sdiv 60) smod 60
                   in snprintf_at buf_len r2 (zpad_signed zh @ (if zm \<noteq> 0 then '':'' @ zpad 2 zm else []))))))"

subsection \<open>Intervals\<close>

record intervaly2m =
  y2m_year :: int
  y2m_month :: int

record intervald2s =
  d2s_day :: int
  d2s_hour :: int
  d2s_minute :: int
  d2s_second :: int
  d2s_fraction :: int

text \<open>The fields are unsigned; \<^verbatim>\<open>%d\<close> prints them as signed numbers.\<close>

definition intervaly2m_out :: "intervaly2m \<Rightarrow> int \<Rightarrow> (string \<times> int) option" where
  "intervaly2m_out v buf_len =
     snprintf_at buf_len ([], 0) (dec_int (i32 (y2m_year v)) @ '' years '' @ dec_int (i32 (y2m_month v)) @ '' mons'')"

definition intervald2s_norm :: "int \<Rightarrow> int \<Rightarrow> int \<times> int" where
  "intervald2s_norm second0 fraction0 =
     (let second = i32 (second0 + fraction0 sdiv 1000000);
          fraction = fraction0 smod 1000000
      in if 0 < second \<and> fraction < 0 then (second - 1, fraction + 1000000)
         else if second < 0 \<and> 0 < fraction then (second + 1, fraction - 1000000)
         else (second, fraction))"

definition intervald2s_out :: "intervald2s \<Rightarrow> int \<Rightarrow> (string \<times> int) option \<times> intervald2s" where
  "intervald2s_out v buf_len =
     (case intervald2s_norm (i32 (d2s_second v)) (i32 (d2s_fraction v)) of (second, fraction) \<Rightarrow>
        (snprintf_at buf_len ([], 0)
          (dec_int (i32 (d2s_day v)) @ '' days '' @ dec_int (i32 (d2s_hour v)) @ '' hours '' @
           dec_int (i32 (d2s_minute v)) @ '' mins '' @ (if second = 0 \<and> fraction < 0 then ''-'' else []) @
           dec_int second @ ''.'' @ zpad 6 \<bar>fraction\<bar> @ '' secs''),
         v\<lparr>d2s_second := second mod 2 ^ 32, d2s_fraction := fraction mod 2 ^ 32\<rparr>))"

text \<open>
  \<^verbatim>\<open>sscanf(s, "%d", &v)\<close>: the value and the rest of the input, or nothing when no number
  starts after the white space.
\<close>

definition digits_val :: "string \<Rightarrow> nat" where
  "digits_val ds = foldl (\<lambda>v c. v * 10 + (of_char c - 48)) 0 ds"

definition scan_number :: "string \<Rightarrow> (int \<times> string) option" where
  "scan_number s0 =
     (let s = dropWhile c_isspace s0;
          neg = (s \<noteq> [] \<and> hd s = CHR ''-'');
          s1 = (if s \<noteq> [] \<and> (hd s = CHR ''-'' \<or> hd s = CHR ''+'') then tl s else s);
          ds = takeWhile is_digit s1
      in if ds = [] then None
         else Some (if neg then - int (digits_val ds) else int (digits_val ds), dropWhile is_digit s1))"

text \<open>The same for \<^verbatim>\<open>%d\<close>: the value wraps to 32 bits.\<close>

definition scan_int :: "string \<Rightarrow> (int \<times> string) option" where
  "scan_int s = map_option (\<lambda>(v, r). (i32 v, r)) (scan_number s)"

text \<open>\<^verbatim>\<open>strstr\<close>: the position of the first occurrence.\<close>

fun strstr :: "string \<Rightarrow> string \<Rightarrow> nat option" where
  "strstr [] p = (if p = [] then Some 0 else None)"
| "strstr (c # s) p = (if take (length p) (c # s) = p then Some 0 else map_option Suc (strstr s p))"

text \<open>
  The number that ends two characters before position \<open>pos\<close>, found by walking back over digits
  and minus signs; the variable keeps 0 when nothing can be scanned. At position 0 the scan starts
  before the buffer: the model has no result there.
\<close>

definition number_before :: "string \<Rightarrow> nat \<Rightarrow> int option" where
  "number_before buf pos =
     (if pos = 0 then None
      else (let pre = take (pos - 1) buf;
                num = rev (takeWhile (\<lambda>c. is_digit c \<or> c = CHR ''-'') (rev pre))
            in case scan_int (num @ drop (pos - 1) buf) of None \<Rightarrow> Some 0 | Some (v, _) \<Rightarrow> Some v))"

definition parse_intervaly2m :: "string \<Rightarrow> intervaly2m option" where
  "parse_intervaly2m buf =
     (if list_all (\<lambda>c. is_digit c \<or> c = CHR ''-'') buf then
        (let is_neg = (buf \<noteq> [] \<and> hd buf = CHR ''-'');
             b = (if is_neg then tl buf else buf);
             (year, month) =
               (case scan_int b of
                  None \<Rightarrow> (0, 0)
                | Some (y, rest) \<Rightarrow>
                    (if rest \<noteq> [] \<and> hd rest = CHR ''-''
                     then (case scan_int (tl rest) of None \<Rightarrow> (y, 0) | Some (m, _) \<Rightarrow> (y, m)) else (y, 0)))
         in Some (if is_neg then \<lparr>y2m_year = (- year) mod 2 ^ 32, y2m_month = (- month) mod 2 ^ 32\<rparr>
                  else \<lparr>y2m_year = year mod 2 ^ 32, y2m_month = month mod 2 ^ 32\<rparr>))
      else
        (let (year, rest) =
               (case strstr buf ''year'' of
                  Some p \<Rightarrow> (number_before buf p, p)
                | None \<Rightarrow> (Some 0, 0));
             month =
               (case strstr (drop rest buf) ''mon'' of
                  Some p \<Rightarrow> number_before buf (rest + p)
                | None \<Rightarrow> Some 0)
         in case (year, month) of
              (Some y, Some m) \<Rightarrow> Some \<lparr>y2m_year = y mod 2 ^ 32, y2m_month = m mod 2 ^ 32\<rparr>
            | _ \<Rightarrow> None))"

end
