(* ===== verification/Rs_Dates.thy ===== *)
theory Rs_Dates
  imports Rs_Time
begin

text \<open>
  What the date and time conversions promise: the decomposed fields are a valid date and a valid
  time of day and stand for the number they come from, the text of a date can be read back, and
  intervals survive printing and parsing.
\<close>

subsection \<open>Decimal numerals\<close>

lemma digit_char_simps:
  assumes "d < 10"
  shows "is_digit (digit_char d)" "(of_char (digit_char d) :: nat) = 48 + d"
proof -
  have "(of_char (char_of (48 + d) :: char) :: nat) = 48 + d"
    using assms by (simp add: of_char_of take_bit_eq_mod)
  then show "(of_char (digit_char d) :: nat) = 48 + d" by (simp add: digit_char_def)
  with assms show "is_digit (digit_char d)" by (simp add: is_digit_def)
qed

lemma digits_val_snoc: "digits_val (ds @ [c]) = digits_val ds * 10 + (of_char c - 48)"
  by (simp add: digits_val_def)

lemma digits_val_dec: "digits_val (dec_digits n) = n"
proof (induction n rule: dec_digits.induct)
  case (1 n)
  show ?case
  proof (cases "n < 10")
    case True
    then show ?thesis by (subst dec_digits.simps) (simp add: digits_val_def digit_char_simps)
  next
    case False
    then show ?thesis
      using 1 by (subst dec_digits.simps) (simp add: digits_val_snoc digit_char_simps)
  qed
qed

lemma dec_digits_all: "list_all is_digit (dec_digits n) \<and> dec_digits n \<noteq> []"
proof (induction n rule: dec_digits.induct)
  case (1 n)
  then show ?case by (subst (1 2) dec_digits.simps) (simp add: digit_char_simps)
qed

lemma digits_set: "c \<in> set (dec_digits n) \<Longrightarrow> is_digit c"
  using dec_digits_all [of n] by (simp add: list_all_iff)

lemma dec_digits_length: "n < 10 ^ k \<Longrightarrow> 0 < k \<Longrightarrow> length (dec_digits n) \<le> k"
proof (induction n arbitrary: k rule: dec_digits.induct)
  case (1 n)
  show ?case
  proof (cases "n < 10")
    case True
    with 1 show ?thesis by (subst dec_digits.simps) simp
  next
    case False
    with 1(2,3) obtain j where k: "k = Suc j" "0 < j"
      by (metis gr0_implies_Suc less_one not_less_eq power_one_right One_nat_def neq0_conv)
    have "n div 10 < 10 ^ j" using 1(2) k by (simp add: less_mult_imp_div_less mult.commute)
    then have "length (dec_digits (n div 10)) \<le> j" using 1(1) [OF False] k by blast
    then show ?thesis using False k by (subst dec_digits.simps) simp
  qed
qed

lemma zeros_val: "digits_val (replicate k (CHR ''0'') @ ds) = digits_val ds"
  by (induction k) (simp_all add: digits_val_def)

lemma zpad_read:
  assumes "0 \<le> n" "n < 10 ^ w" "0 < w"
  shows "length (zpad w n) = w" "digits_val (zpad w n) = nat n"
proof -
  have "nat n < 10 ^ w" using assms by (simp add: nat_less_iff)
  then have "length (dec_digits (nat n)) \<le> w" using dec_digits_length assms(3) by blast
  then show "length (zpad w n) = w" using assms(1) by (simp add: zpad_def Let_def)
  show "digits_val (zpad w n) = nat n"
    using assms(1) by (simp add: zpad_def Let_def zeros_val digits_val_dec)
qed

subsection \<open>The calendar is ordered\<close>

lemma days_before_year_mono: "y \<le> y' \<Longrightarrow> days_before_year y \<le> days_before_year y'"
proof (induction rule: int_ge_induct)
  case base
  show ?case by simp
next
  case (step i)
  then show ?case by (simp add: days_before_year_Suc)
qed

lemma month_end_table:
  "\<forall>lp\<in>{True, False}. \<forall>m\<in>set [1..12]. 0 \<le> days_before_month lp m \<and> days_before_month lp m + month_len lp m \<le> (if lp then 366 else 365)"
  by code_simp

lemma day_number_in_year:
  assumes "valid_date y m d"
  shows "days_before_year y \<le> day_number y m d \<and> day_number y m d < days_before_year (y + 1)"
proof -
  have m: "m \<in> set [1..12]" using assms by (simp add: valid_date_def)
  have "leap y \<in> {True, False}" by simp
  from bspec [OF bspec [OF month_end_table this] m]
  show ?thesis using assms unfolding day_number_def days_before_year_Suc valid_date_def
    by (simp split: if_splits)
qed

lemma year_bounds:
  assumes "valid_date y m d" "days_before_year a \<le> day_number y m d" "day_number y m d < days_before_year b"
  shows "a \<le> y \<and> y < b"
proof -
  have "\<not> y + 1 \<le> a" using day_number_in_year [OF assms(1)] days_before_year_mono [of "y + 1" a] assms(2) by linarith
  moreover have "\<not> b \<le> y" using day_number_in_year [OF assms(1)] days_before_year_mono [of b y] assms(3) by linarith
  ultimately show ?thesis by simp
qed

text \<open>The day number of the date \<open>2000-01-01\<close>, from which the server counts.\<close>

lemma epoch_day: "day_number 2000 1 1 = POSTGRES_EPOCH_JDATE - 1721060"
  by code_simp

subsection \<open>Splitting a count into larger units\<close>

lemma sdiv_nonneg: "0 \<le> a \<Longrightarrow> 0 < b \<Longrightarrow> a sdiv b = (a::int) div b"
  by (simp add: signed_divide_int_def sgn_if)

lemma smod_sdiv: "(a::int) smod b = a - a sdiv b * b"
  using sdiv_mult_smod_eq [of a b] by simp

lemma sdiv_parts:
  assumes "0 < (b::int)"
  shows "\<bar>a - a sdiv b * b\<bar> < b" "0 \<le> a \<Longrightarrow> 0 \<le> a - a sdiv b * b \<and> 0 \<le> a sdiv b"
    "a \<le> 0 \<Longrightarrow> a - a sdiv b * b \<le> 0 \<and> a sdiv b \<le> 0"
proof -
  consider (n) "0 \<le> a" | (m) "a < 0" by linarith
  then have "\<bar>a - a sdiv b * b\<bar> < b \<and> (0 \<le> a \<longrightarrow> 0 \<le> a - a sdiv b * b \<and> 0 \<le> a sdiv b) \<and>
    (a \<le> 0 \<longrightarrow> a - a sdiv b * b \<le> 0 \<and> a sdiv b \<le> 0)"
  proof cases
    case n
    have "a - a div b * b = a mod b" by (simp add: minus_div_mult_eq_mod)
    then show ?thesis using n assms by (auto simp: sdiv_nonneg pos_imp_zdiv_nonneg_iff)
  next
    case m
    then have "a sdiv b = - (- a div b)" using assms by (simp add: signed_divide_int_def sgn_if)
    moreover have "- a - (- a div b) * b = - a mod b" by (simp add: minus_div_mult_eq_mod)
    moreover have "0 \<le> - a mod b" "- a mod b < b" "0 \<le> - a div b"
      using assms m by (simp_all add: pos_imp_zdiv_nonneg_iff)
    ultimately show ?thesis using m by auto
  qed
  then show "\<bar>a - a sdiv b * b\<bar> < b" "0 \<le> a \<Longrightarrow> 0 \<le> a - a sdiv b * b \<and> 0 \<le> a sdiv b"
    "a \<le> 0 \<Longrightarrow> a - a sdiv b * b \<le> 0 \<and> a sdiv b \<le> 0" by simp_all
qed

lemma sdiv_quotient:
  assumes "0 < (b::int)" "0 < c" "\<bar>a\<bar> < c * b"
  shows "\<bar>a sdiv b\<bar> < c"
proof (rule ccontr)
  assume "\<not> \<bar>a sdiv b\<bar> < c"
  then have "c * b \<le> \<bar>a sdiv b\<bar> * b" using assms(1) by (simp add: mult_right_mono)
  also have "\<bar>a sdiv b\<bar> * b = \<bar>a sdiv b * b\<bar>" using assms(1) by (simp add: abs_mult)
  finally have 1: "c * b \<le> \<bar>a sdiv b * b\<bar>" .
  show False
  proof (cases "0 \<le> a")
    case True
    then have "0 \<le> a sdiv b * b" "a sdiv b * b \<le> a" using sdiv_parts(2) [OF assms(1), of a] assms(1) by simp_all
    then show False using 1 assms(3) True by simp
  next
    case False
    then have "a sdiv b \<le> 0" "a \<le> a sdiv b * b" using sdiv_parts(3) [OF assms(1), of a] by simp_all
    moreover from this have "a sdiv b * b \<le> 0" using assms(1) by (simp add: mult_nonpos_nonneg)
    ultimately show False using 1 assms(3) False by simp
  qed
qed

text \<open>The fields of a count of microseconds within a day.\<close>

definition day_fields :: "int \<Rightarrow> int \<times> int \<times> int \<times> int \<Rightarrow> bool" where
  "day_fields t = (\<lambda>(h, m, s, f).
     t = ((h * 60 + m) * 60 + s) * 1000000 + f \<and> \<bar>h\<bar> < 24 \<and> \<bar>m\<bar> < 60 \<and> \<bar>s\<bar> < 60 \<and> \<bar>f\<bar> < 1000000 \<and>
     (0 \<le> t \<longrightarrow> 0 \<le> h \<and> 0 \<le> m \<and> 0 \<le> s \<and> 0 \<le> f) \<and> (t \<le> 0 \<longrightarrow> h \<le> 0 \<and> m \<le> 0 \<and> s \<le> 0 \<and> f \<le> 0))"

lemma dt2time_fields:
  assumes "\<bar>t\<bar> < 86400000000"
  shows "day_fields t (dt2time t)"
proof -
  obtain h where h: "h = t sdiv 3600000000" by simp
  obtain t1 where t1: "t1 = t - h * 3600000000" by simp
  obtain m where m: "m = t1 sdiv 60000000" by simp
  obtain t2 where t2: "t2 = t1 - m * 60000000" by simp
  obtain s where s: "s = t2 sdiv 1000000" by simp
  have e: "dt2time t = (h, m, s, t2 - s * 1000000)"
    by (simp add: dt2time_def Let_def h t1 m t2 s)
  have p1: "\<bar>t1\<bar> < 3600000000" "0 \<le> t \<Longrightarrow> 0 \<le> t1 \<and> 0 \<le> h" "t \<le> 0 \<Longrightarrow> t1 \<le> 0 \<and> h \<le> 0"
    using sdiv_parts [of 3600000000 t] by (simp_all add: t1 h)
  have p2: "\<bar>t2\<bar> < 60000000" "0 \<le> t1 \<Longrightarrow> 0 \<le> t2 \<and> 0 \<le> m" "t1 \<le> 0 \<Longrightarrow> t2 \<le> 0 \<and> m \<le> 0"
    using sdiv_parts [of 60000000 t1] by (simp_all add: t2 m)
  have p3: "\<bar>t2 - s * 1000000\<bar> < 1000000" "0 \<le> t2 \<Longrightarrow> 0 \<le> t2 - s * 1000000 \<and> 0 \<le> s"
    "t2 \<le> 0 \<Longrightarrow> t2 - s * 1000000 \<le> 0 \<and> s \<le> 0"
    using sdiv_parts [of 1000000 t2] by (simp_all add: s)
  have "\<bar>h\<bar> < 24" "\<bar>m\<bar> < 60" "\<bar>s\<bar> < 60"
    using sdiv_quotient [of 3600000000 24 t] sdiv_quotient [of 60000000 60 t1] sdiv_quotient [of 1000000 60 t2]
      assms p1(1) p2(1) by (simp_all add: h m s)
  moreover have "t = ((h * 60 + m) * 60 + s) * 1000000 + (t2 - s * 1000000)" using t1 t2 by simp
  moreover have "0 \<le> t \<Longrightarrow> 0 \<le> h \<and> 0 \<le> m \<and> 0 \<le> s \<and> 0 \<le> t2 - s * 1000000"
    using p1(2) p2(2) p3(2) by blast
  moreover have "t \<le> 0 \<Longrightarrow> h \<le> 0 \<and> m \<le> 0 \<and> s \<le> 0 \<and> t2 - s * 1000000 \<le> 0"
    using p1(3) p2(3) p3(3) by blast
  ultimately show ?thesis unfolding e day_fields_def prod.case using p3(1) by blast
qed

lemma day_fields_pos:
  assumes "day_fields t (h, m, s, f)" "0 \<le> t"
  shows "t = ((h * 60 + m) * 60 + s) * 1000000 + f" "0 \<le> h" "h < 24" "0 \<le> m" "m < 60" "0 \<le> s" "s < 60"
    "0 \<le> f" "f < 1000000"
  using assms by (auto simp: day_fields_def)

lemma day_fields_sum: "day_fields t (h, m, s, f) \<Longrightarrow> t = ((h * 60 + m) * 60 + s) * 1000000 + f"
  by (simp add: day_fields_def)

lemma day_fields_signs:
  assumes "day_fields t (h, m, s, f)"
  shows "0 \<le> t \<Longrightarrow> 0 \<le> h \<and> 0 \<le> m \<and> 0 \<le> s \<and> 0 \<le> f" "t \<le> 0 \<Longrightarrow> h \<le> 0 \<and> m \<le> 0 \<and> s \<le> 0 \<and> f \<le> 0"
    "\<bar>h\<bar> < 24 \<and> \<bar>m\<bar> < 60 \<and> \<bar>s\<bar> < 60 \<and> \<bar>f\<bar> < 1000000"
  using assms by (auto simp: day_fields_def)

lemma time2tm_dt2time:
  "time2tm t = (if t < 0 \<or> MAX_TIME_VALUE \<le> t then None else Some (dt2time t))"
  by (simp add: time2tm_def dt2time_def Let_def)

lemma interval2tm_dt2time:
  "interval2tm t months =
     (case dt2time (t - t sdiv 86400000000 * 86400000000) of (h, mi, s, f) \<Rightarrow>
        (\<lparr>tm_sec = s, tm_min = mi, tm_hour = h, tm_mday = t sdiv 86400000000, tm_mon = months smod 12,
          tm_year = months sdiv 12\<rparr>, f))"
  by (simp add: interval2tm_def dt2time_def Let_def)

lemma wrap_day:
  "\<bar>x\<bar> < c \<Longrightarrow> 0 \<le> (if x < 0 then x + c else x) \<and> (if x < 0 then x + c else x) < (c::int)"
  by (auto split: if_splits)

lemma TMODULO_parts: "TMODULO t u = (t sdiv u, t - t sdiv u * u)"
  by (simp add: TMODULO_def Let_def)

lemma timestamp_days:
  fixes dt :: int
  obtains q t where "dt = q * 86400000000 + t" "0 \<le> t" "t < 86400000000"
    "timestamp2tm dt =
       (if q + POSTGRES_EPOCH_JDATE < 0 \<or> 2 ^ 31 - 1 < q + POSTGRES_EPOCH_JDATE then None
        else case j2date (q + POSTGRES_EPOCH_JDATE) of (y, m, d) \<Rightarrow> case dt2time t of (h, mi, s, f) \<Rightarrow>
          Some (\<lparr>tm_sec = s, tm_min = mi, tm_hour = h, tm_mday = d, tm_mon = m, tm_year = y\<rparr>, f))"
proof -
  let ?quot = "dt sdiv 86400000000"
  let ?rest = "dt - ?quot * 86400000000"
  let ?q = "if ?rest < 0 then ?quot - 1 else ?quot"
  let ?t = "if ?rest < 0 then ?rest + 86400000000 else ?rest"
  have b: "\<bar>?rest\<bar> < 86400000000" by (rule sdiv_parts(1)) simp
  have "timestamp2tm dt =
       (if ?q + POSTGRES_EPOCH_JDATE < 0 \<or> 2 ^ 31 - 1 < ?q + POSTGRES_EPOCH_JDATE then None
        else case j2date (?q + POSTGRES_EPOCH_JDATE) of (y, m, d) \<Rightarrow> case dt2time ?t of (h, mi, s, f) \<Rightarrow>
          Some (\<lparr>tm_sec = s, tm_min = mi, tm_hour = h, tm_mday = d, tm_mon = m, tm_year = y\<rparr>, f))"
    by (cases "?rest < 0") (simp_all add: timestamp2tm_def TMODULO_parts Let_def del: minus_mult_commute)
  moreover have "dt = ?q * 86400000000 + ?t" by (simp add: algebra_simps)
  moreover have "0 \<le> ?t \<and> ?t < 86400000000"
    using wrap_day [OF b] .
  ultimately show ?thesis using that [of ?q ?t] by blast
qed

lemma timestamp_fields:
  assumes "- (2 ^ 63) \<le> dt" "dt < 2 ^ 63"
  shows "(timestamp2tm dt = None \<longleftrightarrow> dt < - 2451545 * 86400000000) \<and>
    (\<forall>tm f. timestamp2tm dt = Some (tm, f) \<longrightarrow>
       valid_date (tm_year tm) (tm_mon tm) (tm_mday tm) \<and>
       0 \<le> tm_hour tm \<and> tm_hour tm < 24 \<and> 0 \<le> tm_min tm \<and> tm_min tm < 60 \<and>
       0 \<le> tm_sec tm \<and> tm_sec tm < 60 \<and> 0 \<le> f \<and> f < 1000000 \<and>
       dt = (day_number (tm_year tm) (tm_mon tm) (tm_mday tm) - day_number 2000 1 1) * 86400000000 +
         ((tm_hour tm * 60 + tm_min tm) * 60 + tm_sec tm) * 1000000 + f)"
proof -
  obtain q t where qt: "dt = q * 86400000000 + t" "0 \<le> t" "t < 86400000000"
    and eq: "timestamp2tm dt =
       (if q + POSTGRES_EPOCH_JDATE < 0 \<or> 2 ^ 31 - 1 < q + POSTGRES_EPOCH_JDATE then None
        else case j2date (q + POSTGRES_EPOCH_JDATE) of (y, m, d) \<Rightarrow> case dt2time t of (h, mi, s, f) \<Rightarrow>
          Some (\<lparr>tm_sec = s, tm_min = mi, tm_hour = h, tm_mday = d, tm_mon = m, tm_year = y\<rparr>, f))"
    by (rule timestamp_days)
  have hi: "q + POSTGRES_EPOCH_JDATE < 2 ^ 31" using assms qt by (simp add: POSTGRES_EPOCH_JDATE_def)
  obtain y m d where j: "j2date (q + POSTGRES_EPOCH_JDATE) = (y, m, d)" by (cases "j2date (q + POSTGRES_EPOCH_JDATE)")
  obtain h mi s f where d2: "dt2time t = (h, mi, s, f)" by (cases "dt2time t")
  have flds: "t = ((h * 60 + mi) * 60 + s) * 1000000 + f" "0 \<le> h" "h < 24" "0 \<le> mi" "mi < 60" "0 \<le> s"
    "s < 60" "0 \<le> f" "f < 1000000"
    using day_fields_pos [OF _ qt(2)] dt2time_fields [of t] qt by (simp_all add: d2)
  show ?thesis
  proof (cases "q + POSTGRES_EPOCH_JDATE < 0")
    case True
    then show ?thesis using eq qt by (simp add: POSTGRES_EPOCH_JDATE_def)
  next
    case False
    have "valid_date y m d \<and> day_number y m d + 1721060 = q + POSTGRES_EPOCH_JDATE"
      using j2date_correct [OF _ hi j] False by simp
    moreover have "timestamp2tm dt =
        Some (\<lparr>tm_sec = s, tm_min = mi, tm_hour = h, tm_mday = d, tm_mon = m, tm_year = y\<rparr>, f)"
      using eq False hi by (simp add: j d2)
    ultimately show ?thesis
      using flds qt False by (simp add: epoch_day POSTGRES_EPOCH_JDATE_def)
  qed
qed

text \<open>
  Property C36. The conversion of a server timestamp (microseconds since 2000-01-01) to fields
  succeeds exactly from Julian day 0 on; its fields are then a date of the Gregorian calendar and a
  time of day, and together they stand for exactly the microseconds they come from.
\<close>

theorem timestamp_fields_exact:
  assumes "- (2 ^ 63) \<le> dt" "dt < 2 ^ 63"
  shows "(timestamp2tm dt = None \<longleftrightarrow> dt < - 2451545 * 86400000000) \<and>
    (\<forall>tm f. timestamp2tm dt = Some (tm, f) \<longrightarrow>
       valid_date (tm_year tm) (tm_mon tm) (tm_mday tm) \<and>
       0 \<le> tm_hour tm \<and> tm_hour tm < 24 \<and> 0 \<le> tm_min tm \<and> tm_min tm < 60 \<and>
       0 \<le> tm_sec tm \<and> tm_sec tm < 60 \<and> 0 \<le> f \<and> f < 1000000 \<and>
       dt = (day_number (tm_year tm) (tm_mon tm) (tm_mday tm) - day_number 2000 1 1) * 86400000000 +
         ((tm_hour tm * 60 + tm_min tm) * 60 + tm_sec tm) * 1000000 + f)"
  using timestamp_fields [OF assms] .

lemma timestamp_fields_exact_witness:
  "timestamp2tm 86399999999 =
     Some (\<lparr>tm_sec = 59, tm_min = 59, tm_hour = 23, tm_mday = 1, tm_mon = 1, tm_year = 2000\<rparr>, 999999) \<and>
   valid_date 2000 1 1"
proof -
  have e: "timestamp2tm 86399999999 =
     Some (\<lparr>tm_sec = 59, tm_min = 59, tm_hour = 23, tm_mday = 1, tm_mon = 1, tm_year = 2000\<rparr>, 999999)"
    by code_simp
  moreover from timestamp_fields_exact [of 86399999999] e have "valid_date 2000 1 1" by simp
  ultimately show ?thesis by simp
qed

text \<open>
  A time value is decomposed exactly when it lies within one day, and the hour, minute,
  second and microsecond add up to it.
\<close>

theorem time_fields_exact:
  "time2tm t = (if 0 \<le> t \<and> t < 86400000000 then Some (dt2time t) else None) \<and>
   (0 \<le> t \<and> t < 86400000000 \<longrightarrow>
      (\<exists>h m s f. time2tm t = Some (h, m, s, f) \<and> 0 \<le> h \<and> h < 24 \<and> 0 \<le> m \<and> m < 60 \<and> 0 \<le> s \<and> s < 60 \<and>
         0 \<le> f \<and> f < 1000000 \<and> t = ((h * 60 + m) * 60 + s) * 1000000 + f))"
proof -
  obtain h m s f where d2: "dt2time t = (h, m, s, f)" by (cases "dt2time t")
  have "0 \<le> t \<and> t < 86400000000 \<Longrightarrow> day_fields t (h, m, s, f)"
    using dt2time_fields [of t] by (simp add: d2)
  then show ?thesis
    by (auto simp: time2tm_dt2time MAX_TIME_VALUE_def d2 day_fields_def)
qed

lemma time_fields_exact_witness:
  "time2tm 45296789012 = Some (12, 34, 56, 789012) \<and>
   (\<exists>h m s f. time2tm 45296789012 = Some (h, m, s, f) \<and> (45296789012::int) = ((h * 60 + m) * 60 + s) * 1000000 + f)"
proof -
  have "time2tm 45296789012 = Some (12, 34, 56, 789012)" by code_simp
  moreover from time_fields_exact [of 45296789012]
  have "\<exists>h m s f. time2tm 45296789012 = Some (h, m, s, f) \<and> (45296789012::int) = ((h * 60 + m) * 60 + s) * 1000000 + f"
    by fastforce
  ultimately show ?thesis by blast
qed

text \<open>
  The binary form of an interval is split into fields of one sign: the months into years
  and months, the microseconds into days and a time of day, and nothing is lost.
\<close>

theorem interval_fields_exact:
  "\<exists>tm f. interval2tm t months = (tm, f) \<and>
     months = 12 * tm_year tm + tm_mon tm \<and> \<bar>tm_mon tm\<bar> < 12 \<and>
     t = (((tm_mday tm * 24 + tm_hour tm) * 60 + tm_min tm) * 60 + tm_sec tm) * 1000000 + f \<and>
     \<bar>tm_hour tm\<bar> < 24 \<and> \<bar>tm_min tm\<bar> < 60 \<and> \<bar>tm_sec tm\<bar> < 60 \<and> \<bar>f\<bar> < 1000000 \<and>
     (if 0 \<le> t then 0 \<le> tm_mday tm \<and> 0 \<le> tm_hour tm \<and> 0 \<le> tm_min tm \<and> 0 \<le> tm_sec tm \<and> 0 \<le> f
      else tm_mday tm \<le> 0 \<and> tm_hour tm \<le> 0 \<and> tm_min tm \<le> 0 \<and> tm_sec tm \<le> 0 \<and> f \<le> 0)"
proof -
  obtain d where d: "d = t sdiv 86400000000" by simp
  obtain r where r: "r = t - d * 86400000000" by simp
  obtain h mi s f where d2: "dt2time r = (h, mi, s, f)" by (cases "dt2time r")
  have e: "interval2tm t months =
      (\<lparr>tm_sec = s, tm_min = mi, tm_hour = h, tm_mday = d, tm_mon = months smod 12, tm_year = months sdiv 12\<rparr>, f)"
    using interval2tm_dt2time [of t months] d2 by (simp add: r d)
  have p: "\<bar>r\<bar> < 86400000000" "0 \<le> t \<Longrightarrow> 0 \<le> r \<and> 0 \<le> d" "t \<le> 0 \<Longrightarrow> r \<le> 0 \<and> d \<le> 0"
    using sdiv_parts [of 86400000000 t] by (simp_all add: r d)
  have "day_fields r (h, mi, s, f)" using dt2time_fields [OF p(1)] by (simp add: d2)
  moreover have "\<bar>months smod 12\<bar> < 12" "months = 12 * (months sdiv 12) + months smod 12"
    using sdiv_parts(1) [of 12 months] by (simp_all add: smod_sdiv)
  moreover have "t = (((d * 24 + h) * 60 + mi) * 60 + s) * 1000000 + f"
    using r day_fields_sum [OF \<open>day_fields r (h, mi, s, f)\<close>] by simp
  ultimately have "months = 12 * (months sdiv 12) + months smod 12 \<and> \<bar>months smod 12\<bar> < 12 \<and>
     t = (((d * 24 + h) * 60 + mi) * 60 + s) * 1000000 + f \<and>
     \<bar>h\<bar> < 24 \<and> \<bar>mi\<bar> < 60 \<and> \<bar>s\<bar> < 60 \<and> \<bar>f\<bar> < 1000000 \<and>
     (if 0 \<le> t then 0 \<le> d \<and> 0 \<le> h \<and> 0 \<le> mi \<and> 0 \<le> s \<and> 0 \<le> f
      else d \<le> 0 \<and> h \<le> 0 \<and> mi \<le> 0 \<and> s \<le> 0 \<and> f \<le> 0)"
    using p(2,3) day_fields_signs [OF \<open>day_fields r (h, mi, s, f)\<close>] by (cases "0 \<le> t") auto
  then show ?thesis by - (intro exI, rule conjI [OF e], unfold pg_tm.simps, assumption)
qed

text \<open>
  Property C37. For every non-negative Julian day number of 31 bits the arithmetic of \<open>j2date\<close>, carried
  out in wrapping unsigned integers, yields the date of the proleptic Gregorian calendar that lies that
  many days after the epoch of Julian days; in particular no two days get the same date.
\<close>

theorem j2date_is_gregorian:
  assumes "0 \<le> jd" "jd < 2 ^ 31"
  shows "case j2date jd of (y, m, d) \<Rightarrow> valid_date y m d \<and> day_number y m d + 1721060 = jd"
proof (cases "j2date jd")
  case (fields y m d)
  then show ?thesis using j2date_correct [OF assms] by simp
qed

lemma j2date_is_gregorian_witness:
  "j2date 2460370 = (2024, 2, 29) \<and> day_number 2024 2 29 + 1721060 = 2460370"
proof -
  have e: "j2date 2460370 = (2024, 2, 29)" by code_simp
  with j2date_is_gregorian [of 2460370] show ?thesis by simp
qed

lemma year_1_9999: "days_before_year 1 = 366" "days_before_year 10000 = 3652425"
  by code_simp+

text \<open>
  A day of the years 1 to 9999 is printed as \<open>YYYY-MM-DD\<close>: ten characters when the buffer
  has eleven, whose three numbers are the valid date that lies that many days after 2000-01-01.
\<close>

theorem date_out_names_day:
  assumes "- 730119 \<le> date" "date \<le> 2921939" "11 \<le> buf_len"
  shows "\<exists>s y m d. date_out date buf_len = Some (s, 10) \<and> length s = 10 \<and>
    y = int (digits_val (take 4 s)) \<and> s ! 4 = CHR ''-'' \<and>
    m = int (digits_val (take 2 (drop 5 s))) \<and> s ! 7 = CHR ''-'' \<and>
    d = int (digits_val (drop 8 s)) \<and>
    valid_date y m d \<and> day_number y m d - day_number 2000 1 1 = date"
proof -
  have jd: "0 \<le> date + POSTGRES_EPOCH_JDATE" "date + POSTGRES_EPOCH_JDATE < 2 ^ 31"
    "i32 (date + POSTGRES_EPOCH_JDATE) = date + POSTGRES_EPOCH_JDATE"
    using assms by (simp_all add: POSTGRES_EPOCH_JDATE_def i32_id)
  obtain y m d where j: "j2date (date + POSTGRES_EPOCH_JDATE) = (y, m, d)"
    by (cases "j2date (date + POSTGRES_EPOCH_JDATE)")
  have v: "valid_date y m d" "day_number y m d + 1721060 = date + POSTGRES_EPOCH_JDATE"
    using j2date_correct [OF jd(1,2) j] by simp_all
  have y: "1 \<le> y \<and> y < 10000"
    by (rule year_bounds [OF v(1)]) (use v(2) assms in \<open>simp_all add: year_1_9999 POSTGRES_EPOCH_JDATE_def\<close>)
  have md: "1 \<le> m" "m \<le> 12" "1 \<le> d" "d < 100"
    using v(1) by (simp_all add: valid_date_def month_len_def split: if_splits)
  obtain ty where ty: "ty = zpad 4 y" by simp
  obtain tm where tm: "tm = zpad 2 m" by simp
  obtain td where td: "td = zpad 2 d" by simp
  have z: "length ty = 4" "digits_val ty = nat y" "length tm = 2" "digits_val tm = nat m"
    "length td = 2" "digits_val td = nat d"
    using zpad_read [of y 4] zpad_read [of m 2] zpad_read [of d 2] y md by (simp_all add: ty tm td)
  obtain s where s: "s = ty @ ''-'' @ tm @ ''-'' @ td" by simp
  have len: "length s = 10" using z by (simp add: s)
  have "nat buf_len - 1 \<ge> 10" using assms(3) by simp
  then have out: "date_out date buf_len = Some (s, 10)"
    using md y assms(3) len jd(3) j by (simp add: date_out_def snprintf_at_def s ty tm td)
  have parts: "take 4 s = ty" "s ! 4 = CHR ''-''" "take 2 (drop 5 s) = tm" "s ! 7 = CHR ''-''" "drop 8 s = td"
    using z by (simp_all add: s nth_append)
  have "y = int (digits_val (take 4 s))" "m = int (digits_val (take 2 (drop 5 s)))" "d = int (digits_val (drop 8 s))"
    using z y md by (simp_all add: parts)
  moreover have "day_number y m d - day_number 2000 1 1 = date" using v(2) epoch_day by simp
  ultimately show ?thesis using out len parts(2,4) v(1) by blast
qed

lemma date_out_names_day_witness:
  "date_out 8825 11 = Some (''2024-02-29'', 10) \<and> (\<exists>y m d. valid_date y m d \<and> day_number y m d - day_number 2000 1 1 = 8825)"
proof -
  have "date_out 8825 11 = Some (''2024-02-29'', 10)" by code_simp
  moreover have "\<exists>y m d. valid_date y m d \<and> day_number y m d - day_number 2000 1 1 = 8825"
    using date_out_names_day [of 8825 11] by auto
  ultimately show ?thesis by simp
qed

subsection \<open>Binary integers\<close>

lemma take_drop_nth:
  assumes "take n (drop i p) = bs" "k < n" "length bs = n"
  shows "p ! (i + k) = bs ! k"
proof -
  have "i + k < length p" using assms by (auto simp: min_def split: if_splits)
  then show ?thesis using assms(1,2) by auto
qed

text \<open>The network byte order: the little-endian image reversed.\<close>

definition be_bytes :: "nat \<Rightarrow> int \<Rightarrow> byte list" where
  "be_bytes n v = rev (le_bytes n v)"

lemma le_value_8:
  "le_value [a, b, c, d, e, f, g, h] =
     uint h * 2 ^ 56 + uint g * 2 ^ 48 + uint f * 2 ^ 40 + uint e * 2 ^ 32 + uint d * 2 ^ 24 + uint c * 2 ^ 16 +
     uint b * 2 ^ 8 + uint a"
  "le_value [a, b, c, d] = uint d * 2 ^ 24 + uint c * 2 ^ 16 + uint b * 2 ^ 8 + uint a"
  by simp_all

lemma length_8:
  "length xs = 8 \<Longrightarrow> xs = [xs ! 0, xs ! 1, xs ! 2, xs ! 3, xs ! 4, xs ! 5, xs ! 6, xs ! 7]"
  "length ys = 4 \<Longrightarrow> ys = [ys ! 0, ys ! 1, ys ! 2, ys ! 3]"
  by (rule nth_equalityI; simp add: less_Suc_eq numeral_eq_Suc; fastforce)+

lemma getInt64_le_value:
  assumes "take 8 (drop i p) = rev bs" "length bs = 8"
  shows "getInt64FromBinary p i = i64 (le_value bs)"
proof -
  have n: "p ! (i + k) = bs ! (7 - k)" if "k < 8" for k
    using take_drop_nth [OF assms(1) that] assms(2) that by (simp add: rev_nth)
  then show ?thesis
    by (subst length_8(1) [OF assms(2)], subst le_value_8(1)) (use n [of 0] n [of 1] n [of 2] n in \<open>simp add: getInt64FromBinary_def\<close>)
qed

lemma getInt32_le_value:
  assumes "take 4 (drop i p) = rev bs" "length bs = 4"
  shows "getInt32FromBinary p i = i32 (le_value bs)"
proof -
  have n: "p ! (i + k) = bs ! (3 - k)" if "k < 4" for k
    using take_drop_nth [OF assms(1) that] assms(2) that by (simp add: rev_nth)
  then show ?thesis
    by (subst length_8(2) [OF assms(2)], subst le_value_8(2)) (use n [of 0] n [of 1] n [of 2] n in \<open>simp add: getInt32FromBinary_def\<close>)
qed

text \<open>
  An integer in network byte order anywhere in a row is read back as the number that was
  sent, for both widths and for negative numbers.
\<close>

theorem network_integers_round_trip:
  "(- (2 ^ 31) \<le> v \<and> v < 2 ^ 31 \<and> take 4 (drop i p) = be_bytes 4 v \<longrightarrow> getInt32FromBinary p i = v) \<and>
   (- (2 ^ 63) \<le> w \<and> w < 2 ^ 63 \<and> take 8 (drop i p) = be_bytes 8 w \<longrightarrow> getInt64FromBinary p i = w)"
  using getInt32_le_value [of i p "le_bytes 4 v"] getInt64_le_value [of i p "le_bytes 8 w"]
    le_int_bytes [of v] le_llong_bytes [of w]
  by (simp add: be_bytes_def le_int_def le_llong_def i32_id i64_id)

lemma network_integers_round_trip_witness:
  "getInt32FromBinary [0, 255, 255, 255, 254] 1 = - 2 \<and> getInt64FromBinary [0, 0, 0, 0, 0, 0, 1, 2] 0 = 258"
proof -
  have "take 4 (drop 1 [0, 255, 255, 255, 254]) = be_bytes 4 (- 2)" by code_simp
  moreover have "take 8 (drop 0 [0, 0, 0, 0, 0, 0, 1, 2]) = be_bytes 8 258" by code_simp
  ultimately show ?thesis
    using conjunct1 [OF network_integers_round_trip [of "- 2" 1 "[0, 255, 255, 255, 254]" 0]]
      conjunct2 [OF network_integers_round_trip [of 0 0 "[0, 0, 0, 0, 0, 0, 1, 2]" 258]]
    by (intro conjI) (erule mp, simp only:, simp)+
qed

subsection \<open>Intervals as text\<close>

text \<open>
  Printing a day-second interval first carries the microseconds: the seconds and the
  fraction then have one sign, the fraction is below one second, and their sum is unchanged (as long
  as the carried seconds fit an \<open>int\<close>).
\<close>

theorem intervald2s_carry:
  assumes "\<bar>sec\<bar> \<le> 2147480000" "\<bar>fr\<bar> < 2 ^ 31"
  shows "case intervald2s_norm sec fr of (s, f) \<Rightarrow>
    s * 1000000 + f = sec * 1000000 + fr \<and> \<bar>f\<bar> < 1000000 \<and> \<not> (0 < s \<and> f < 0) \<and> \<not> (s < 0 \<and> 0 < f)"
proof -
  obtain q where q: "q = fr sdiv 1000000" by simp
  obtain r where r: "r = fr smod 1000000" by simp
  have fr: "fr = q * 1000000 + r" by (simp add: q r smod_sdiv)
  have b: "\<bar>r\<bar> < 1000000" using sdiv_parts(1) [of 1000000 fr] by (simp add: r smod_sdiv)
  have "\<bar>q\<bar> < 3000" using sdiv_quotient [of 1000000 3000 fr] assms(2) by (simp add: q)
  then have "i32 (sec + q) = sec + q" using assms(1) by (intro i32_id) simp_all
  then have n: "intervald2s_norm sec fr =
      (if 0 < sec + q \<and> r < 0 then (sec + q - 1, r + 1000000)
       else if sec + q < 0 \<and> 0 < r then (sec + q + 1, r - 1000000) else (sec + q, r))"
    by (simp add: intervald2s_norm_def Let_def q r)
  show ?thesis unfolding n using b fr by auto
qed

lemma intervald2s_carry_witness:
  "intervald2s_norm 5 (- 1500000) = (3, 500000) \<and> (3 * 1000000 + 500000 = 5 * 1000000 + (- 1500000 :: int))"
proof -
  have "intervald2s_norm 5 (- 1500000) = (3, 500000)" by code_simp
  with intervald2s_carry [of 5 "- 1500000"] show ?thesis by simp
qed

subsection \<open>Reading year-month intervals back\<close>

lemma strstr_found:
  assumes "p \<noteq> []" "hd p \<notin> set xs"
  shows "strstr (xs @ p @ r) p = Some (length xs)"
  using assms(2)
proof (induction xs)
  case Nil
  from assms(1) obtain c q where "p = c # q" by (cases p) auto
  then show ?case by simp
next
  case (Cons x xs)
  from assms(1) obtain c q where p: "p = c # q" by (cases p) auto
  then have "x \<noteq> c" using Cons(2) by auto
  then show ?case using Cons by (simp add: p)
qed

abbreviation num_char :: "char \<Rightarrow> bool" where
  "num_char c \<equiv> is_digit c \<or> c = CHR ''-''"

lemma dec_int_chars: "c \<in> set (dec_int v) \<Longrightarrow> num_char c"
  by (auto simp: dec_int_def digits_set split: if_splits)

lemma dec_int_nonempty: "dec_int v \<noteq> []"
  using dec_digits_all [of "nat v"] by (simp add: dec_int_def)

lemma scan_digits:
  assumes "r = [] \<or> \<not> is_digit (hd r)"
  shows "takeWhile is_digit (dec_digits n @ r) = dec_digits n" "dropWhile is_digit (dec_digits n @ r) = r"
  using assms digits_set [of _ n] by (cases r; simp add: takeWhile_append2 dropWhile_append2)+

lemma digit_not_special: "is_digit c \<Longrightarrow> \<not> c_isspace c \<and> c \<noteq> CHR ''-'' \<and> c \<noteq> CHR ''+''"
  by (auto simp: is_digit_def c_isspace_def)

lemma scan_number_dec_int:
  assumes "r = [] \<or> \<not> is_digit (hd r)"
  shows "scan_number (dec_int v @ r) = Some (v, r)"
proof -
  obtain c ds where d: "dec_digits (nat \<bar>v\<bar>) = c # ds" using dec_digits_all by (cases "dec_digits (nat \<bar>v\<bar>)") auto
  have c: "\<not> c_isspace c" "c \<noteq> CHR ''-''" "c \<noteq> CHR ''+''"
    using digits_set [of c "nat \<bar>v\<bar>"] digit_not_special [of c] by (simp_all add: d)
  note sc = scan_digits [OF assms, of "nat \<bar>v\<bar>"]
  have dv: "digits_val (dec_digits (nat \<bar>v\<bar>)) = nat \<bar>v\<bar>" by (rule digits_val_dec)
  show ?thesis
  proof (cases "v < 0")
    case True
    then have "dec_int v = CHR ''-'' # dec_digits (nat \<bar>v\<bar>)" by (simp add: dec_int_def)
    moreover have "\<not> c_isspace (CHR ''-'')" by code_simp
    ultimately show ?thesis
      using sc dv True d by (simp add: scan_number_def Let_def)
  next
    case False
    then have "dec_int v = dec_digits (nat \<bar>v\<bar>)" by (simp add: dec_int_def)
    then show ?thesis
      using sc dv False d c by (simp add: scan_number_def Let_def)
  qed
qed

lemma scan_dec_int: "r = [] \<or> \<not> is_digit (hd r) \<Longrightarrow> scan_int (dec_int v @ r) = Some (i32 v, r)"
  by (simp add: scan_int_def scan_number_dec_int)

lemma walk_back:
  assumes "\<forall>c\<in>set num. num_char c" "pre = [] \<or> \<not> num_char (last pre)"
  shows "rev (takeWhile num_char (rev (pre @ num))) = num"
proof -
  have "takeWhile num_char (rev num @ rev pre) = rev num"
    using assms by (cases "rev pre") (auto simp: takeWhile_append takeWhile_eq_all_conv)
  then show ?thesis by simp
qed

lemma number_before_found:
  assumes "pre = [] \<or> \<not> num_char (last pre)"
  shows "number_before (pre @ dec_int v @ CHR '' '' # r) (length pre + length (dec_int v) + 1) = Some (i32 v)"
proof -
  have "rev (takeWhile num_char (rev (pre @ dec_int v))) = dec_int v"
    by (rule walk_back) (use dec_int_chars assms in auto)
  moreover have "scan_int (dec_int v @ CHR '' '' # r) = Some (i32 v, CHR '' '' # r)"
    by (rule scan_dec_int) (simp add: is_digit_def)
  ultimately show ?thesis by (simp add: number_before_def Let_def)
qed

lemma dec_int_length:
  assumes "- (10 ^ k) < v" and "v < 10 ^ k" and "0 < k"
  shows "length (dec_int v) \<le> k + 1"
  using dec_digits_length [of "nat \<bar>v\<bar>" k] assms by (auto simp: dec_int_def nat_less_iff)

lemma parse_verbose:
  assumes "\<not> list_all num_char s" "strstr s ''year'' = Some p" "strstr (drop p s) ''mon'' = Some k"
    "number_before s p = Some y" "number_before s (p + k) = Some m"
  shows "parse_intervaly2m s = Some \<lparr>y2m_year = y mod 2 ^ 32, y2m_month = m mod 2 ^ 32\<rparr>"
  using assms by (simp add: parse_intervaly2m_def Let_def)

text \<open>
  A year-month interval survives printing and parsing: whatever the two fields are (as
  unsigned 32-bit values, negative intervals included), the text that \<open>intervaly2m_out\<close> writes into a
  buffer of at least 40 characters is read back by \<open>parse_intervaly2m\<close> as the same interval.
\<close>

theorem year_month_interval_round_trip:
  assumes "0 \<le> y2m_year v" "y2m_year v < 2 ^ 32" "0 \<le> y2m_month v" "y2m_month v < 2 ^ 32" "40 \<le> buf_len"
  shows "\<exists>s n. intervaly2m_out v buf_len = Some (s, n) \<and> parse_intervaly2m s = Some v"
proof -
  obtain y where y: "y = i32 (y2m_year v)" by simp
  obtain m where m: "m = i32 (y2m_month v)" by simp
  have range: "- (2 ^ 31) \<le> i32 x \<and> i32 x < 2 ^ 31 \<and> i32 (i32 x) = i32 x" for x
    using signed_take_bit_int_less_exp [of 31 x] signed_take_bit_int_greater_eq_minus_exp [of 31 x]
    by (simp add: i32_def)
  have again: "i32 x mod 2 ^ 32 = x" if "0 \<le> x" "x < 2 ^ 32" for x
  proof -
    have "take_bit 32 (i32 x) = take_bit 32 x" by (simp add: i32_def take_bit_signed_take_bit)
    then show ?thesis using that by (simp add: take_bit_eq_mod)
  qed
  let ?s = "dec_int y @ '' years '' @ dec_int m @ '' mons''"
  have len: "length ?s < 40"
    using dec_int_length [of 10 y] dec_int_length [of 10 m] range [of "y2m_year v"] range [of "y2m_month v"]
    by (simp add: y m)
  have "nat buf_len - 1 \<ge> length ?s" using len assms(5) by linarith
  then have out: "intervaly2m_out v buf_len = Some (?s, int (length ?s))"
    using assms(5) by (simp add: intervaly2m_out_def snprintf_at_def y m)
  have no_letters: "CHR ''y'' \<notin> set (dec_int y @ '' '')" "CHR ''m'' \<notin> set (''years '' @ dec_int m @ '' '')"
    using dec_int_chars [of "CHR ''y''" y] dec_int_chars [of "CHR ''m''" m] by (auto simp: is_digit_def)
  have y1: "strstr ?s ''year'' = Some (length (dec_int y) + 1)"
    using strstr_found [of "''year''" "dec_int y @ '' ''" "''s '' @ dec_int m @ '' mons''"] no_letters(1) by simp
  have m1: "strstr (drop (length (dec_int y) + 1) ?s) ''mon'' = Some (7 + length (dec_int m))"
    using strstr_found [of "''mon''" "''years '' @ dec_int m @ '' ''" "''s''"] no_letters(2) by simp
  have y2: "number_before ?s (length (dec_int y) + 1) = Some y"
    using number_before_found [of "[]" y "''years '' @ dec_int m @ '' mons''"] range [of "y2m_year v"] by (simp add: y)
  have m2: "number_before ?s (length (dec_int y) + 1 + (7 + length (dec_int m))) = Some m"
    using number_before_found [of "dec_int y @ '' years ''" m "''mons''"] range [of "y2m_month v"]
    by (simp add: m is_digit_def numeral_eq_Suc)
  have "\<not> list_all num_char ?s" by (simp add: is_digit_def)
  then have "parse_intervaly2m ?s = Some \<lparr>y2m_year = y mod 2 ^ 32, y2m_month = m mod 2 ^ 32\<rparr>"
    using parse_verbose [OF _ y1 m1 y2 m2] by blast
  then have "parse_intervaly2m ?s = Some v"
    using again [of "y2m_year v"] again [of "y2m_month v"] assms(1-4) by (cases v) (simp add: y m)
  with out show ?thesis by blast
qed

lemma year_month_interval_round_trip_witness:
  "intervaly2m_out \<lparr>y2m_year = 4294967293, y2m_month = 11\<rparr> 40 = Some (''-3 years 11 mons'', 16) \<and>
   parse_intervaly2m ''-3 years 11 mons'' = Some \<lparr>y2m_year = 4294967293, y2m_month = 11\<rparr>"
proof -
  have e: "intervaly2m_out \<lparr>y2m_year = 4294967293, y2m_month = 11\<rparr> 40 = Some (''-3 years 11 mons'', 16)"
    by code_simp
  with year_month_interval_round_trip [of "\<lparr>y2m_year = 4294967293, y2m_month = 11\<rparr>" 40]
  show ?thesis by simp
qed

end
