(* ===== verification/Rs_Unicode.thy ===== *)
theory Rs_Unicode
  imports Rs_Copy
begin

text \<open>
  Conversion between the application's wide characters and the server's UTF-8
  (\<^verbatim>\<open>rsunicode.c\<close>). The converters of the C++ standard library
  (\<^verbatim>\<open>wstring_convert\<close> over \<^verbatim>\<open>codecvt_utf8_utf16\<close> and
  \<^verbatim>\<open>codecvt_utf8\<close>) are the encodings of the Unicode standard; ill-formed input makes them
  throw, here \<open>None\<close>. The driver's own part is the choice of the encoding, the lengths, and the
  truncation at a character boundary.
\<close>

type_synonym unit16 = "16 word"
type_synonym unit32 = "32 word"

subsection \<open>The encodings of the standard library\<close>

definition scalar :: "nat \<Rightarrow> bool" where
  "scalar c \<longleftrightarrow> c < 0xD800 \<or> 0xE000 \<le> c \<and> c < 0x110000"

definition utf8_enc :: "nat \<Rightarrow> byte list" where
  "utf8_enc c =
     (if c < 0x80 then [of_nat c]
      else if c < 0x800 then [of_nat (0xC0 + c div 64), of_nat (0x80 + c mod 64)]
      else if c < 0x10000 then [of_nat (0xE0 + c div 4096), of_nat (0x80 + c div 64 mod 64), of_nat (0x80 + c mod 64)]
      else [of_nat (0xF0 + c div 262144), of_nat (0x80 + c div 4096 mod 64), of_nat (0x80 + c div 64 mod 64),
            of_nat (0x80 + c mod 64)])"

definition utf16_enc :: "nat \<Rightarrow> unit16 list" where
  "utf16_enc c =
     (if c < 0x10000 then [of_nat c]
      else [of_nat (0xD800 + (c - 0x10000) div 1024), of_nat (0xDC00 + (c - 0x10000) mod 1024)])"

definition utf32_enc :: "nat \<Rightarrow> unit32 list" where
  "utf32_enc c = [of_nat c]"

definition utf8 :: "nat list \<Rightarrow> byte list" where "utf8 cs = concat (map utf8_enc cs)"
definition utf16 :: "nat list \<Rightarrow> unit16 list" where "utf16 cs = concat (map utf16_enc cs)"
definition utf32 :: "nat list \<Rightarrow> unit32 list" where "utf32 cs = concat (map utf32_enc cs)"

definition is_high_surrogate :: "unit16 \<Rightarrow> bool" where
  "is_high_surrogate u \<longleftrightarrow> 0xD800 \<le> u \<and> u \<le> 0xDBFF"

definition is_low_surrogate :: "unit16 \<Rightarrow> bool" where
  "is_low_surrogate u \<longleftrightarrow> 0xDC00 \<le> u \<and> u \<le> 0xDFFF"

definition is_cont :: "byte \<Rightarrow> bool" where
  "is_cont b \<longleftrightarrow> b AND 0xC0 = 0x80"

text \<open>One character from the front of the input.\<close>

fun utf8_next :: "byte list \<Rightarrow> (nat \<times> byte list) option" where
  "utf8_next [] = None"
| "utf8_next (b # bs) =
     (let n = unat b;
          tail = (\<lambda>k lead. if length bs < k \<or> \<not> list_all is_cont (take k bs) then None
                   else (let c = foldl (\<lambda>v t. v * 64 + (unat t - 0x80)) lead (take k bs)
                         in if scalar c \<and> utf8_enc c = b # take k bs then Some (c, drop k bs) else None))
      in if n < 0x80 then Some (n, bs)
         else if 0xC0 \<le> n \<and> n < 0xE0 then tail 1 (n - 0xC0)
         else if 0xE0 \<le> n \<and> n < 0xF0 then tail 2 (n - 0xE0)
         else if 0xF0 \<le> n \<and> n < 0xF8 then tail 3 (n - 0xF0)
         else None)"

fun utf16_next :: "unit16 list \<Rightarrow> (nat \<times> unit16 list) option" where
  "utf16_next [] = None"
| "utf16_next (u # us) =
     (if is_high_surrogate u then
        (case us of
           [] \<Rightarrow> None
         | v # vs \<Rightarrow>
             if is_low_surrogate v then Some (0x10000 + (unat u - 0xD800) * 1024 + (unat v - 0xDC00), vs) else None)
      else if is_low_surrogate u then None
      else Some (unat u, us))"

fun utf32_next :: "unit32 list \<Rightarrow> (nat \<times> unit32 list) option" where
  "utf32_next [] = None"
| "utf32_next (u # us) = (if scalar (unat u) then Some (unat u, us) else None)"

text \<open>Whole strings; the fuel is the number of units, and every character takes one at least.\<close>

fun decode :: "('u list \<Rightarrow> (nat \<times> 'u list) option) \<Rightarrow> nat \<Rightarrow> 'u list \<Rightarrow> nat list option" where
  "decode next_char fuel [] = Some []"
| "decode next_char 0 us = None"
| "decode next_char (Suc fuel) us =
     Option.bind (next_char us) (\<lambda>(c, r). map_option ((#) c) (decode next_char fuel r))"

definition utf16_to_utf8_throw :: "unit16 list \<Rightarrow> byte list option" where
  "utf16_to_utf8_throw us = map_option utf8 (decode utf16_next (length us) us)"

definition utf8_to_utf16_throw :: "byte list \<Rightarrow> unit16 list option" where
  "utf8_to_utf16_throw bs = map_option utf16 (decode utf8_next (length bs) bs)"

definition utf32_to_utf8_throw :: "unit32 list \<Rightarrow> byte list option" where
  "utf32_to_utf8_throw us = map_option utf8 (decode utf32_next (length us) us)"

definition utf8_to_utf32_throw :: "byte list \<Rightarrow> unit32 list option" where
  "utf8_to_utf32_throw bs = map_option utf32 (decode utf8_next (length bs) bs)"

subsection \<open>Truncation at a character boundary\<close>

fun skip_cont :: "byte list \<Rightarrow> nat \<Rightarrow> nat" where
  "skip_cont s 0 = 0"
| "skip_cont s (Suc i) = (if is_cont (s ! i) then skip_cont s i else Suc i)"

text \<open>The length of a character by its first byte.\<close>

definition lead_need :: "byte \<Rightarrow> nat" where
  "lead_need lead =
     (if lead < 0x80 then 1 else if lead AND 0xE0 = 0xC0 then 2 else if lead AND 0xF0 = 0xE0 then 3 else 4)"

definition trim_utf8_boundary_backward :: "byte list \<Rightarrow> nat \<Rightarrow> nat" where
  "trim_utf8_boundary_backward s toCopy =
     (if toCopy = 0 \<or> length s \<le> toCopy then toCopy
      else (let i = skip_cont s toCopy in
            if i = 0 then 0
            else (let lead = s ! (i - 1);
                      need = lead_need lead
                  in if toCopy < i - 1 + need then i - 1 else toCopy)))"

subsection \<open>Conversion of whole strings\<close>

text \<open>
  The characters of an input of \<open>cchLen\<close> units or, for \<^verbatim>\<open>SQL_NTS\<close>, up to its terminator;
  \<open>None\<close> when the input would be read beyond its end. A conversion returns the number of units and
  the new value of the string object.
\<close>

definition text_of :: "'u::zero list \<Rightarrow> int \<Rightarrow> 'u list option" where
  "text_of s cchLen =
     (if cchLen = SQL_NTS then (if 0 \<in> set s then Some (c_str s) else None) else get_at s 0 (nat cchLen))"

definition bad_args :: "'u list option \<Rightarrow> int \<Rightarrow> bool" where
  "bad_args p cchLen \<longleftrightarrow> p = None \<or> (cchLen < 0 \<and> cchLen \<noteq> SQL_NTS)"

definition convert_str ::
  "('u::zero list \<Rightarrow> 'v list option) \<Rightarrow> 'u list option \<Rightarrow> int \<Rightarrow> 'v list \<Rightarrow> (nat \<times> 'v list) option" where
  "convert_str conv p cchLen old =
     (if bad_args p cchLen then Some (0, old)
      else map_option (\<lambda>us. case conv us of Some vs \<Rightarrow> (length vs, vs) | None \<Rightarrow> (0, [])) (text_of (the p) cchLen))"

definition wchar16_to_utf8_str :: "unit16 list option \<Rightarrow> int \<Rightarrow> byte list \<Rightarrow> (nat \<times> byte list) option" where
  "wchar16_to_utf8_str = convert_str utf16_to_utf8_throw"

definition char_utf8_to_utf16_str :: "byte list option \<Rightarrow> int \<Rightarrow> unit16 list \<Rightarrow> (nat \<times> unit16 list) option" where
  "char_utf8_to_utf16_str = convert_str utf8_to_utf16_throw"

definition wchar32_to_utf8_str :: "unit32 list option \<Rightarrow> int \<Rightarrow> byte list \<Rightarrow> (nat \<times> byte list) option" where
  "wchar32_to_utf8_str = convert_str utf32_to_utf8_throw"

definition char_utf8_to_utf16_strlen :: "byte list option \<Rightarrow> int \<Rightarrow> nat option" where
  "char_utf8_to_utf16_strlen p cchLen =
     (if bad_args p cchLen then Some 0 else map_option fst (char_utf8_to_utf16_str p cchLen []))"

definition char_utf8_to_utf32_strlen :: "byte list option \<Rightarrow> int \<Rightarrow> nat option" where
  "char_utf8_to_utf32_strlen p cchLen =
     (if bad_args p cchLen then Some 0
      else map_option (\<lambda>bs. case utf8_to_utf32_throw bs of Some us \<Rightarrow> length us | None \<Rightarrow> 0) (text_of (the p) cchLen))"

subsection \<open>Conversion into a buffer\<close>

text \<open>
  The result is the number of units written without the terminator, the buffer and
  \<^verbatim>\<open>*totalCharsNeeded\<close> (\<open>None\<close> when the pointer is \<^verbatim>\<open>NULL\<close>); the whole is \<open>None\<close>
  when the code reads or writes outside its arguments.
\<close>

type_synonym 'v conversion = "(nat \<times> 'v list option \<times> nat option) option"

definition store_text :: "'v::zero list \<Rightarrow> 'v list \<Rightarrow> nat \<Rightarrow> 'v list option" where
  "store_text buf vs n = Option.bind (put_at buf 0 (take n vs)) (\<lambda>b. put_at b n [0])"

definition convert_buf ::
  "('v::zero list \<Rightarrow> nat \<Rightarrow> nat) \<Rightarrow> (nat \<times> 'v list) option \<Rightarrow> 'v list \<Rightarrow> int \<Rightarrow> nat option \<Rightarrow> 'v conversion" where
  "convert_buf trim conv buf bufferSize needed =
     Option.bind conv (\<lambda>(size, vs).
       (let needed' = map_option (\<lambda>_. size) needed in
        if bufferSize \<le> 0 then Some (0, Some buf, needed')
        else (let cap = nat (bufferSize - 1);
                  n = min cap (length vs);
                  n' = (if n < length vs then trim vs n else n)
              in map_option (\<lambda>b. (n', Some b, needed')) (store_text buf vs n'))))"

definition wchar16_to_utf8_char ::
  "unit16 list option \<Rightarrow> int \<Rightarrow> byte list option \<Rightarrow> int \<Rightarrow> nat option \<Rightarrow> byte conversion" where
  "wchar16_to_utf8_char p cchLen szStr bufferSize needed =
     (if bad_args p cchLen \<or> szStr = None \<or> bufferSize < 0 then Some (0, szStr, needed)
      else convert_buf trim_utf8_boundary_backward (wchar16_to_utf8_str p cchLen []) (the szStr) bufferSize needed)"

definition wchar32_to_utf8_char ::
  "unit32 list option \<Rightarrow> int \<Rightarrow> byte list option \<Rightarrow> int \<Rightarrow> nat option \<Rightarrow> byte conversion" where
  "wchar32_to_utf8_char p cchLen szStr bufferSize needed =
     (if bad_args p cchLen \<or> szStr = None \<or> bufferSize < 0 then Some (0, szStr, needed)
      else convert_buf trim_utf8_boundary_backward (wchar32_to_utf8_str p cchLen []) (the szStr) bufferSize needed)"

text \<open>A high surrogate must not be the last unit of a truncated text.\<close>

definition trim_surrogate :: "unit16 list \<Rightarrow> nat \<Rightarrow> nat" where
  "trim_surrogate us n = (if 0 < n \<and> is_high_surrogate (us ! (n - 1)) then n - 1 else n)"

definition char_utf8_to_utf16_wchar ::
  "byte list option \<Rightarrow> int \<Rightarrow> unit16 list option \<Rightarrow> int \<Rightarrow> nat option \<Rightarrow> unit16 conversion" where
  "char_utf8_to_utf16_wchar p cchLen wszStr bufferSize needed =
     (if bad_args p cchLen \<or> wszStr = None \<or> bufferSize < 0 then Some (0, wszStr, needed)
      else convert_buf trim_surrogate (char_utf8_to_utf16_str p cchLen []) (the wszStr) bufferSize needed)"

text \<open>When the conversion throws, \<^verbatim>\<open>char_utf8_to_utf32_wchar\<close> stores nothing.\<close>

definition char_utf8_to_utf32_wchar ::
  "byte list option \<Rightarrow> int \<Rightarrow> unit32 list option \<Rightarrow> int \<Rightarrow> nat option \<Rightarrow> unit32 conversion" where
  "char_utf8_to_utf32_wchar p cchLen wszStr bufferSize needed =
     (if bad_args p cchLen \<or> wszStr = None \<or> bufferSize < 0 then Some (0, wszStr, needed)
      else Option.bind (text_of (the p) cchLen) (\<lambda>bs.
        case utf8_to_utf32_throw bs of
          None \<Rightarrow> Some (0, wszStr, needed)
        | Some us \<Rightarrow> convert_buf (\<lambda>us n. n) (Some (length us, us)) (the wszStr) bufferSize needed))"

subsection \<open>The encoding of the application\<close>

text \<open>A buffer of \<^verbatim>\<open>SQLWCHAR\<close>s holds units of the width the environment was opened with.\<close>

definition SQL_DD_CP_UTF16 :: int where "SQL_DD_CP_UTF16 = 1"
definition SQL_DD_CP_UTF32 :: int where "SQL_DD_CP_UTF32 = 3"

datatype wbuf = W16 "unit16 list" | W32 "unit32 list"

fun as16 :: "wbuf option \<Rightarrow> unit16 list option option" where
  "as16 None = Some None"
| "as16 (Some (W16 us)) = Some (Some us)"
| "as16 (Some (W32 _)) = None"

fun as32 :: "wbuf option \<Rightarrow> unit32 list option option" where
  "as32 None = Some None"
| "as32 (Some (W32 us)) = Some (Some us)"
| "as32 (Some (W16 _)) = None"

definition unicode_type :: "int \<Rightarrow> int \<Rightarrow> int" where
  "unicode_type app unicodeType = (if unicodeType = -1 then app else unicodeType)"

definition sqlwcsnlen_cap :: "int \<Rightarrow> wbuf option \<Rightarrow> nat \<Rightarrow> int \<Rightarrow> nat option" where
  "sqlwcsnlen_cap app wszStr cap unicodeType =
     (if wszStr = None \<or> cap = 0 then Some 0
      else if unicode_type app unicodeType = SQL_DD_CP_UTF16 then
        Option.bind (Option.bind (as16 wszStr) id) (\<lambda>us. let n = length (c_str (take cap us)) in
          if n < cap \<and> n = length us then None else Some n)
      else if unicode_type app unicodeType = SQL_DD_CP_UTF32 then
        Option.bind (Option.bind (as32 wszStr) id) (\<lambda>us. let n = length (c_str (take cap us)) in
          if n < cap \<and> n = length us then None else Some n)
      else Some 0)"

definition sizeofSQLWCHAR :: "int \<Rightarrow> int \<Rightarrow> nat" where
  "sizeofSQLWCHAR app unicodeType = (if unicode_type app unicodeType = SQL_DD_CP_UTF32 then 4 else 2)"

subsection \<open>Functions for either encoding\<close>

text \<open>An unknown encoding is treated as UTF-16.\<close>

definition sqlwchar_to_utf8_str :: "int \<Rightarrow> wbuf option \<Rightarrow> int \<Rightarrow> byte list \<Rightarrow> int \<Rightarrow> (nat \<times> byte list) option" where
  "sqlwchar_to_utf8_str app p cchLen old unicodeType =
     (if unicode_type app unicodeType = SQL_DD_CP_UTF32
      then Option.bind (as32 p) (\<lambda>us. wchar32_to_utf8_str us cchLen old)
      else Option.bind (as16 p) (\<lambda>us. wchar16_to_utf8_str us cchLen old))"

definition sqlwchar_to_utf8_char ::
  "int \<Rightarrow> wbuf option \<Rightarrow> int \<Rightarrow> byte list option \<Rightarrow> int \<Rightarrow> nat option \<Rightarrow> int \<Rightarrow> byte conversion" where
  "sqlwchar_to_utf8_char app p cchLen szStr bufferSize needed unicodeType =
     (if unicode_type app unicodeType = SQL_DD_CP_UTF32
      then Option.bind (as32 p) (\<lambda>us. wchar32_to_utf8_char us cchLen szStr bufferSize needed)
      else Option.bind (as16 p) (\<lambda>us. wchar16_to_utf8_char us cchLen szStr bufferSize needed))"

definition utf8_to_sqlwchar_str ::
  "int \<Rightarrow> byte list option \<Rightarrow> int \<Rightarrow> wbuf option \<Rightarrow> int \<Rightarrow> nat option \<Rightarrow> int \<Rightarrow> (nat \<times> wbuf option \<times> nat option) option" where
  "utf8_to_sqlwchar_str app p cchLen wszStr bufferSize needed unicodeType =
     (if unicode_type app unicodeType = SQL_DD_CP_UTF32
      then Option.bind (as32 wszStr) (\<lambda>w. map_option (\<lambda>(n, b, t). (n, map_option W32 b, t))
             (char_utf8_to_utf32_wchar p cchLen w bufferSize needed))
      else Option.bind (as16 wszStr) (\<lambda>w. map_option (\<lambda>(n, b, t). (n, map_option W16 b, t))
             (char_utf8_to_utf16_wchar p cchLen w bufferSize needed)))"

definition utf8_to_sqlwchar_strlen :: "int \<Rightarrow> byte list option \<Rightarrow> int \<Rightarrow> int \<Rightarrow> nat option" where
  "utf8_to_sqlwchar_strlen app p cchLen unicodeType =
     (if unicode_type app unicodeType = SQL_DD_CP_UTF32 then char_utf8_to_utf32_strlen p cchLen
      else char_utf8_to_utf16_strlen p cchLen)"

text \<open>
  The allocating functions. \<open>malloc_ok\<close> is the outcome of \<^verbatim>\<open>rs_malloc\<close>; the result is the
  number of units and the new value of the caller's pointer (\<open>None\<close> inside for \<^verbatim>\<open>NULL\<close>).
\<close>

definition zeroed :: "int \<Rightarrow> int \<Rightarrow> nat \<Rightarrow> wbuf" where
  "zeroed app unicodeType n =
     (if unicode_type app unicodeType = SQL_DD_CP_UTF32 then W32 (replicate n 0) else W16 (replicate n 0))"

definition utf8_to_sqlwchar_alloc ::
  "int \<Rightarrow> bool \<Rightarrow> byte list option \<Rightarrow> int \<Rightarrow> wbuf option option \<Rightarrow> int \<Rightarrow> (nat \<times> wbuf option option) option" where
  "utf8_to_sqlwchar_alloc app malloc_ok p cchLen out unicodeType =
     (if p = None \<or> out = None then Some (0, out)
      else Option.bind (utf8_to_sqlwchar_strlen app p cchLen unicodeType) (\<lambda>charCount.
        (let unitSize = sizeofSQLWCHAR app unicodeType in
         if charCount = 0 \<or> 2 ^ 64 - 2 < charCount \<or> (2 ^ 64 - 1) div unitSize < charCount + 1 \<or> \<not> malloc_ok
         then Some (0, Some None)
         else Option.bind (utf8_to_sqlwchar_str app p cchLen (Some (zeroed app unicodeType (charCount + 1)))
                (i32 (int charCount + 1)) None unicodeType) (\<lambda>(n, b, _).
           Some (n, Some (if n = 0 then None else b))))))"

definition sqlwchar_to_utf8_alloc ::
  "int \<Rightarrow> bool \<Rightarrow> wbuf option \<Rightarrow> int \<Rightarrow> byte list option option \<Rightarrow> int \<Rightarrow> (nat \<times> byte list option option) option" where
  "sqlwchar_to_utf8_alloc app malloc_ok p cchLen out unicodeType =
     (if p = None \<or> out = None then Some (0, out)
      else Option.bind (sqlwchar_to_utf8_str app p cchLen [] unicodeType) (\<lambda>(byteCount, bs).
        if byteCount = 0 \<or> \<not> malloc_ok then Some (0, Some None)
        else Some (byteCount, Some (Some (bs @ [0])))))"

end
