(* ===== verification/Rs_Unicode_Promises.thy ===== *)
theory Rs_Unicode_Promises
  imports Rs_Unicode
begin

text \<open>
  What the conversions promise: text passes through the encodings unchanged, and a text that does
  not fit its buffer is cut between two characters, never inside one.
\<close>

subsection \<open>One character\<close>

lemma unat_of_nat8: "n < 256 \<Longrightarrow> unat (of_nat n :: byte) = n"
  by (simp add: unat_of_nat take_bit_eq_mod)

lemma unat_of_nat16: "n < 65536 \<Longrightarrow> unat (of_nat n :: unit16) = n"
  by (simp add: unat_of_nat take_bit_eq_mod)

lemma unat_of_nat32: "n < 4294967296 \<Longrightarrow> unat (of_nat n :: unit32) = n"
  by (simp add: unat_of_nat take_bit_eq_mod)

lemma cont_table: "\<forall>n\<in>set [0..<256]. is_cont (of_nat n :: byte) = (128 \<le> n \<and> n < 192)"
  by code_simp

lemma is_cont_of_nat: "n < 256 \<Longrightarrow> is_cont (of_nat n) = (128 \<le> n \<and> n < 192)"
  using cont_table by simp

lemma scalar_bound: "scalar c \<Longrightarrow> c < 0x110000"
  by (auto simp: scalar_def)

text \<open>The four forms of a character, with its six-bit groups named.\<close>

lemma utf8_forms:
  assumes "c < 0x110000"
  obtains (one) "c < 128" "utf8_enc c = [of_nat c]"
  | (two) x y where "2 \<le> x" "x < 32" "y < 64" "c = x * 64 + y" "utf8_enc c = [of_nat (192 + x), of_nat (128 + y)]"
  | (three) x y z where "x < 16" "y < 64" "z < 64" "c = (x * 64 + y) * 64 + z"
      "utf8_enc c = [of_nat (224 + x), of_nat (128 + y), of_nat (128 + z)]"
  | (four) w x y z where "w < 8" "x < 64" "y < 64" "z < 64" "c = ((w * 64 + x) * 64 + y) * 64 + z"
      "utf8_enc c = [of_nat (240 + w), of_nat (128 + x), of_nat (128 + y), of_nat (128 + z)]"
proof -
  have s1: "c = c div 64 * 64 + c mod 64" by simp
  have s2: "c div 64 = c div 4096 * 64 + c div 64 mod 64"
    using div_mult_mod_eq [of "c div 64" 64] by (simp add: div_mult2_eq [symmetric])
  have s3: "c div 4096 = c div 262144 * 64 + c div 4096 mod 64"
    using div_mult_mod_eq [of "c div 4096" 64] by (simp add: div_mult2_eq [symmetric])
  consider (1) "c < 128" | (2) "128 \<le> c" "c < 2048" | (3) "2048 \<le> c" "c < 65536" | (4) "65536 \<le> c"
    by linarith
  then show ?thesis
  proof cases
    case 1
    then show ?thesis by (intro one) (simp_all add: utf8_enc_def)
  next
    case 2
    show ?thesis
      by (rule two [of "c div 64" "c mod 64"]) (use 2 in \<open>simp_all add: utf8_enc_def less_mult_imp_div_less\<close>)
  next
    case 3
    show ?thesis
    proof (rule three [of "c div 4096" "c div 64 mod 64" "c mod 64"])
      show "c div 4096 < 16" using 3 by (simp add: less_mult_imp_div_less)
      show "c = (c div 4096 * 64 + c div 64 mod 64) * 64 + c mod 64" using s1 s2 by simp
      show "utf8_enc c = [of_nat (224 + c div 4096), of_nat (128 + c div 64 mod 64), of_nat (128 + c mod 64)]"
        using 3 unfolding utf8_enc_def by simp
    qed simp_all
  next
    case 4
    show ?thesis
    proof (rule four [of "c div 262144" "c div 4096 mod 64" "c div 64 mod 64" "c mod 64"])
      show "c div 262144 < 8" using assms by (simp add: less_mult_imp_div_less)
      show "c = ((c div 262144 * 64 + c div 4096 mod 64) * 64 + c div 64 mod 64) * 64 + c mod 64"
        using s1 s2 s3 by simp
      show "utf8_enc c = [of_nat (240 + c div 262144), of_nat (128 + c div 4096 mod 64), of_nat (128 + c div 64 mod 64),
          of_nat (128 + c mod 64)]"
        using 4 unfolding utf8_enc_def by simp
    qed simp_all
  qed
qed

lemma utf8_next_enc:
  assumes "scalar c"
  shows "utf8_next (utf8_enc c @ r) = Some (c, r)"
  using scalar_bound [OF assms]
proof (cases c rule: utf8_forms)
  case one
  then show ?thesis by (simp add: unat_of_nat8)
next
  case (two x y)
  then show ?thesis using assms
    by (simp add: two(5) unat_of_nat8 is_cont_of_nat Let_def del: of_nat_add)
next
  case (three x y z)
  then show ?thesis using assms
    by (simp add: three(5) unat_of_nat8 is_cont_of_nat Let_def del: of_nat_add)
next
  case (four w x y z)
  then show ?thesis using assms
    by (simp add: four(6) unat_of_nat8 is_cont_of_nat Let_def del: of_nat_add)
qed

lemma lead_table:
  "\<forall>n\<in>set [0..<256]. lead_need (of_nat n) =
     (if n < 128 then 1 else if 192 \<le> n \<and> n < 224 then 2 else if 224 \<le> n \<and> n < 240 then 3 else 4)"
  by code_simp

lemma lead_need_of_nat:
  "n < 256 \<Longrightarrow> lead_need (of_nat n) =
     (if n < 128 then 1 else if 192 \<le> n \<and> n < 224 then 2 else if 224 \<le> n \<and> n < 240 then 3 else 4)"
  using lead_table by (simp only: set_upt atLeastLessThan_iff ball_simps) simp

lemma utf8_shape:
  assumes "scalar c"
  shows "\<exists>lead conts. utf8_enc c = lead # conts \<and> \<not> is_cont lead \<and> list_all is_cont conts \<and>
    lead_need lead = Suc (length conts)"
  using scalar_bound [OF assms]
proof (cases c rule: utf8_forms)
  case one
  then show ?thesis using lead_need_of_nat [of c] by (simp add: is_cont_of_nat)
next
  case (two x y)
  then show ?thesis using lead_need_of_nat [of "192 + x"] by (simp add: two(5) is_cont_of_nat del: of_nat_add)
next
  case (three x y z)
  then show ?thesis using lead_need_of_nat [of "224 + x"] by (simp add: three(5) is_cont_of_nat del: of_nat_add)
next
  case (four w x y z)
  then show ?thesis using lead_need_of_nat [of "240 + w"] by (simp add: four(6) is_cont_of_nat del: of_nat_add)
qed

lemma utf16_next_enc:
  assumes "scalar c"
  shows "utf16_next (utf16_enc c @ r) = Some (c, r)"
proof (cases "c < 65536")
  case True
  then have "unat (of_nat c :: unit16) = c" by (rule unat_of_nat16)
  then show ?thesis using True assms
    by (auto simp: utf16_enc_def is_high_surrogate_def is_low_surrogate_def word_le_nat_alt scalar_def)
next
  case False
  obtain h l where hl: "h = (c - 65536) div 1024" "l = (c - 65536) mod 1024" by simp
  have b: "h < 1024" "l < 1024" "c = 65536 + h * 1024 + l"
    using scalar_bound [OF assms] False hl by (simp_all add: less_mult_imp_div_less)
  have "utf16_enc c = [of_nat (55296 + h), of_nat (56320 + l)]"
    using False by (simp only: utf16_enc_def hl) simp
  moreover have "unat (of_nat (55296 + h) :: unit16) = 55296 + h" "unat (of_nat (56320 + l) :: unit16) = 56320 + l"
    using b by (simp_all add: unat_of_nat16 del: of_nat_add)
  ultimately show ?thesis using b
    by (simp add: is_high_surrogate_def is_low_surrogate_def word_le_nat_alt del: of_nat_add)
qed

lemma utf32_next_enc:
  assumes "scalar c"
  shows "utf32_next (utf32_enc c @ r) = Some (c, r)"
  using scalar_bound [OF assms] assms by (simp add: utf32_enc_def unat_of_nat32)

subsection \<open>Encodings as codecs\<close>

text \<open>A character encoding: what is written for a character is read back, whatever follows.\<close>

locale char_codec =
  fixes enc :: "nat \<Rightarrow> ('u::zero) list"
    and next_char :: "'u list \<Rightarrow> (nat \<times> 'u list) option"
  assumes next_enc: "scalar c \<Longrightarrow> next_char (enc c @ r) = Some (c, r)"
    and enc_nonempty: "scalar c \<Longrightarrow> enc c \<noteq> []"
begin

lemma decode_encode:
  assumes "list_all scalar cs" "length (concat (map enc cs)) \<le> n"
  shows "decode next_char n (concat (map enc cs)) = Some cs"
  using assms
proof (induction cs arbitrary: n)
  case Nil
  then show ?case by simp
next
  case (Cons c cs)
  then obtain u us where e: "enc c = u # us" using enc_nonempty [of c] by (cases "enc c") auto
  with Cons.prems obtain m where m: "n = Suc m" by (cases n) auto
  have "decode next_char m (concat (map enc cs)) = Some cs"
    using Cons.IH [of m] Cons.prems by (simp add: e m)
  then show ?case using next_enc [of c "concat (map enc cs)"] Cons.prems by (simp add: e m)
qed

lemma decode_text: "list_all scalar cs \<Longrightarrow> decode next_char (length (concat (map enc cs))) (concat (map enc cs)) = Some cs"
  by (rule decode_encode) simp_all

end

interpretation codec8: char_codec utf8_enc utf8_next
proof
  fix c r assume c: "scalar c"
  show "utf8_next (utf8_enc c @ r) = Some (c, r)" using c by (rule utf8_next_enc)
  show "utf8_enc c \<noteq> []" using utf8_shape [OF c] by auto
qed

interpretation codec16: char_codec utf16_enc utf16_next
  by unfold_locales (simp_all add: utf16_next_enc, simp add: utf16_enc_def)

interpretation codec32: char_codec utf32_enc utf32_next
  by unfold_locales (simp_all add: utf32_next_enc, simp add: utf32_enc_def)

lemma throw_ok:
  assumes "list_all scalar cs"
  shows "utf16_to_utf8_throw (utf16 cs) = Some (utf8 cs)" "utf8_to_utf16_throw (utf8 cs) = Some (utf16 cs)"
    "utf32_to_utf8_throw (utf32 cs) = Some (utf8 cs)" "utf8_to_utf32_throw (utf8 cs) = Some (utf32 cs)"
  using codec8.decode_text [OF assms] codec16.decode_text [OF assms] codec32.decode_text [OF assms]
  by (simp_all add: utf16_to_utf8_throw_def utf8_to_utf16_throw_def utf32_to_utf8_throw_def
      utf8_to_utf32_throw_def utf8_def utf16_def utf32_def)

subsection \<open>Cutting a text between two characters\<close>

text \<open>
  A trimming function for a codec: a cut inside a character moves back to its start, a cut behind
  a character stays.
\<close>

locale cut_codec = char_codec +
  fixes trim :: "'a::zero list \<Rightarrow> nat \<Rightarrow> nat"
  assumes trim_inside: "scalar c \<Longrightarrow> 0 < j \<Longrightarrow> j < length (enc c) \<Longrightarrow> trim (p @ enc c @ q) (length p + j) = length p"
    and trim_end: "scalar c \<Longrightarrow> q \<noteq> [] \<Longrightarrow> trim (p @ enc c @ q) (length p + length (enc c)) = length p + length (enc c)"
    and trim_start: "trim s 0 = 0"
begin

abbreviation as_units :: "nat list \<Rightarrow> 'a list" where
  "as_units cs \<equiv> concat (map enc cs)"

lemma split_text:
  assumes "n < length (as_units cs)"
  shows "\<exists>ks c rest. cs = ks @ c # rest \<and> length (as_units ks) \<le> n \<and> n < length (as_units ks) + length (enc c)"
  using assms
proof (induction cs arbitrary: n)
  case Nil
  then show ?case by simp
next
  case (Cons c cs)
  show ?case
  proof (cases "n < length (enc c)")
    case True
    then show ?thesis by (intro exI [of _ "[]"] exI [of _ c] exI [of _ cs]) simp
  next
    case False
    then have "n - length (enc c) < length (as_units cs)" using Cons.prems by simp
    from Cons.IH [OF this] obtain ks d rest where "cs = ks @ d # rest" "length (as_units ks) \<le> n - length (enc c)"
      "n - length (enc c) < length (as_units ks) + length (enc d)" by blast
    with False show ?thesis by (intro exI [of _ "c # ks"] exI [of _ d] exI [of _ rest]) auto
  qed
qed

lemma trim_text:
  assumes "list_all scalar (ks @ c # rest)" "length (as_units ks) \<le> n" "n < length (as_units ks) + length (enc c)"
  shows "trim (as_units (ks @ c # rest)) n = length (as_units ks)"
proof -
  have c: "scalar c" using assms(1) by simp
  show ?thesis
  proof (cases "n = length (as_units ks)")
    case False
    then obtain j where "n = length (as_units ks) + j" "0 < j" "j < length (enc c)"
      using assms(2,3) by (metis add_less_cancel_left le_add_diff_inverse neq0_conv add.right_neutral)
    then show ?thesis using trim_inside [OF c, of j "as_units ks" "as_units rest"] by simp
  next
    case True
    show ?thesis
    proof (cases ks rule: rev_cases)
      case Nil
      then show ?thesis using True trim_start by simp
    next
      case (snoc ks' d)
      then have "scalar d" using assms(1) by simp
      moreover have "enc c @ as_units rest \<noteq> []" using enc_nonempty [OF c] by simp
      ultimately show ?thesis using trim_end [of d "enc c @ as_units rest" "as_units ks'"] True snoc by simp
    qed
  qed
qed

lemma convert_buf_cut:
  assumes "list_all scalar cs" "0 < bufferSize" "bufferSize \<le> int (length buf)"
  shows "\<exists>ks rest. cs = ks @ rest \<and>
    convert_buf trim (Some (length (as_units cs), as_units cs)) buf bufferSize needed =
      Some (length (as_units ks), Some (as_units ks @ [0] @ drop (Suc (length (as_units ks))) buf),
        map_option (\<lambda>_. length (as_units cs)) needed) \<and>
    int (length (as_units ks)) < bufferSize \<and> (rest \<noteq> [] \<longrightarrow> bufferSize \<le> int (length (as_units (ks @ [hd rest]))))"
proof -
  obtain cap where cap: "cap = nat (bufferSize - 1)" by simp
  have cb: "int cap = bufferSize - 1" "cap < length buf" using assms cap by simp_all
  have store: "store_text buf (as_units ks @ r) (length (as_units ks)) = Some (as_units ks @ [0] @ drop (Suc (length (as_units ks))) buf)"
    if "length (as_units ks) \<le> cap" for ks r
    using that cb(2) put_at_end [of "length (as_units ks)" "as_units ks" buf] by (simp add: store_text_def put_at_0)
  show ?thesis
  proof (cases "cap < length (as_units cs)")
    case True
    obtain ks c rest where k: "cs = ks @ c # rest" "length (as_units ks) \<le> cap" "cap < length (as_units ks) + length (enc c)"
      using split_text [OF True] by blast
    have "trim (as_units cs) cap = length (as_units ks)" using trim_text [of ks c rest cap] k assms(1) by simp
    then have "convert_buf trim (Some (length (as_units cs), as_units cs)) buf bufferSize needed =
      Some (length (as_units ks), Some (as_units ks @ [0] @ drop (Suc (length (as_units ks))) buf), map_option (\<lambda>_. length (as_units cs)) needed)"
      using True assms(2) store [OF k(2), of "enc c @ as_units rest"] k(1)
      by (simp add: convert_buf_def Let_def cap [symmetric])
    then show ?thesis using k cb(1) by (intro exI [of _ ks] exI [of _ "c # rest"]) simp
  next
    case False
    then have "convert_buf trim (Some (length (as_units cs), as_units cs)) buf bufferSize needed =
      Some (length (as_units cs), Some (as_units cs @ [0] @ drop (Suc (length (as_units cs))) buf), map_option (\<lambda>_. length (as_units cs)) needed)"
      using assms(2) store [of cs "[]"] by (simp add: convert_buf_def Let_def cap [symmetric] min_def)
    then show ?thesis using False cb(1) by (intro exI [of _ cs] exI [of _ "[]"]) simp
  qed
qed

end

lemma skip_cont_run:
  assumes "\<not> is_cont lead" "list_all is_cont conts" "j \<le> length conts"
  shows "skip_cont (p @ lead # conts @ q) (length p + 1 + j) = length p + 1"
  using assms(3)
proof (induction j)
  case 0
  then show ?case using assms(1) by simp
next
  case (Suc j)
  then have "(p @ lead # conts @ q) ! (length p + 1 + j) = conts ! j" by (simp add: nth_append)
  moreover have "is_cont (conts ! j)" using assms(2) Suc.prems by (simp add: list_all_length)
  ultimately show ?case using Suc by simp
qed

lemma trim_lead:
  assumes "scalar c" "0 < j" "j \<le> length (utf8_enc c)" "length p + j < length (p @ utf8_enc c @ q)"
  shows "trim_utf8_boundary_backward (p @ utf8_enc c @ q) (length p + j) =
    (if j < length (utf8_enc c) then length p else length p + j)"
proof -
  obtain lead conts where e: "utf8_enc c = lead # conts" "\<not> is_cont lead" "list_all is_cont conts"
    "lead_need lead = Suc (length conts)"
    using utf8_shape [OF assms(1)] by blast
  obtain k where k: "j = Suc k" "k \<le> length conts" using assms(2,3) by (cases j) (simp_all add: e(1))
  have sk: "skip_cont (p @ utf8_enc c @ q) (length p + j) = Suc (length p)"
    using skip_cont_run [OF e(2,3) k(2), of p q] by (simp add: e(1) k(1))
  have "(p @ utf8_enc c @ q) ! length p = lead" by (simp add: e(1))
  then show ?thesis
    using assms(2,4) e(4) k
    unfolding trim_utf8_boundary_backward_def sk Let_def by (simp add: e(1))
qed

interpretation cut8: cut_codec utf8_enc utf8_next trim_utf8_boundary_backward
proof
  fix c j p q assume c: "scalar c"
  show "trim_utf8_boundary_backward (p @ utf8_enc c @ q) (length p + j) = length p"
    if "0 < j" "j < length (utf8_enc c)" using trim_lead [OF c that(1)] that(2) by simp
  show "trim_utf8_boundary_backward (p @ utf8_enc c @ q) (length p + length (utf8_enc c)) =
      length p + length (utf8_enc c)" if "q \<noteq> []"
    using trim_lead [OF c, of "length (utf8_enc c)" p q] that codec8.enc_nonempty [OF c] by simp
next
  fix s show "trim_utf8_boundary_backward s 0 = 0" by (simp add: trim_utf8_boundary_backward_def)
qed

lemma utf16_last_unit:
  assumes "scalar c"
  shows "\<not> is_high_surrogate (last (utf16_enc c))" "length (utf16_enc c) \<le> 2"
    "length (utf16_enc c) = 2 \<Longrightarrow> is_high_surrogate (hd (utf16_enc c))"
proof -
  have h: "is_high_surrogate (of_nat n) \<longleftrightarrow> 55296 \<le> n \<and> n \<le> 56319" if "n < 65536" for n
    using unat_of_nat16 [OF that] by (simp add: is_high_surrogate_def word_le_nat_alt)
  show "length (utf16_enc c) \<le> 2" by (simp add: utf16_enc_def)
  show "\<not> is_high_surrogate (last (utf16_enc c))"
    using assms h [of c] h [of "56320 + (c - 65536) mod 1024"]
    by (auto simp: utf16_enc_def scalar_def simp del: of_nat_add)
  show "length (utf16_enc c) = 2 \<Longrightarrow> is_high_surrogate (hd (utf16_enc c))"
    using scalar_bound [OF assms] h [of "55296 + (c - 65536) div 1024"]
    by (simp add: utf16_enc_def less_mult_imp_div_less del: of_nat_add split: if_splits)
qed

interpretation cut16: cut_codec utf16_enc utf16_next trim_surrogate
proof
  fix c j p q assume c: "scalar c"
  note u = utf16_last_unit [OF c]
  show "trim_surrogate (p @ utf16_enc c @ q) (length p + j) = length p"
    if "0 < j" "j < length (utf16_enc c)"
  proof -
    have j: "j = 1" "length (utf16_enc c) = 2" using that u(2) by simp_all
    then have "(p @ utf16_enc c @ q) ! length p = hd (utf16_enc c)" by (cases "utf16_enc c") simp_all
    then show ?thesis using j u(3) by (simp add: trim_surrogate_def)
  qed
  show "trim_surrogate (p @ utf16_enc c @ q) (length p + length (utf16_enc c)) = length p + length (utf16_enc c)"
    if "q \<noteq> []"
  proof -
    have ne: "utf16_enc c \<noteq> []" using codec16.enc_nonempty [OF c] .
    then obtain n where n: "length (utf16_enc c) = Suc n" by (cases "utf16_enc c") simp_all
    then have "(p @ utf16_enc c @ q) ! (length p + length (utf16_enc c) - 1) = last (utf16_enc c)"
      using ne by (simp add: nth_append last_conv_nth)
    then show ?thesis using u(1) by (simp add: trim_surrogate_def)
  qed
next
  fix s show "trim_surrogate s 0 = 0" by (simp add: trim_surrogate_def)
qed

interpretation cut32: cut_codec utf32_enc utf32_next "\<lambda>us n. n"
  by unfold_locales (simp_all add: utf32_enc_def)

subsection \<open>The promises\<close>

text \<open>
  Property C33. Wide text handed to \<open>wchar16_to_utf8_char\<close> arrives as UTF-8, terminated and inside the
  buffer; when it does not fit, it is cut between two characters and the longest prefix that fits is
  kept. The byte count reported is that of the whole text.
\<close>

theorem utf8_cut_between_characters:
  assumes "list_all scalar cs" "text_of us cchLen = Some (utf16 cs)" "0 \<le> cchLen \<or> cchLen = SQL_NTS"
    "0 < bufferSize" "bufferSize \<le> int (length buf)"
  shows "\<exists>ks rest. cs = ks @ rest \<and>
    wchar16_to_utf8_char (Some us) cchLen (Some buf) bufferSize needed =
      Some (length (utf8 ks), Some (utf8 ks @ [0] @ drop (Suc (length (utf8 ks))) buf), map_option (\<lambda>_. length (utf8 cs)) needed) \<and>
    int (length (utf8 ks)) < bufferSize \<and> (rest \<noteq> [] \<longrightarrow> bufferSize \<le> int (length (utf8 (ks @ [hd rest]))))"
proof -
  have "\<not> bad_args (Some us) cchLen" using assms(3) by (auto simp: bad_args_def)
  then have "wchar16_to_utf8_char (Some us) cchLen (Some buf) bufferSize needed =
      convert_buf trim_utf8_boundary_backward (Some (length (utf8 cs), utf8 cs)) buf bufferSize needed"
    using assms(2,4) throw_ok(1) [OF assms(1)]
    by (simp add: wchar16_to_utf8_char_def wchar16_to_utf8_str_def convert_str_def)
  then show ?thesis
    using cut8.convert_buf_cut [OF assms(1,4,5), of needed] by (simp add: utf8_def)
qed

lemmas text_simps = scalar_def utf8_def utf16_def utf8_enc_def utf16_enc_def text_of_def c_str_def get_at_def SQL_NTS_def

lemma utf8_cut_between_characters_witness:
  "\<exists>ks rest n b t. [0x41, 0x1F600] = ks @ rest \<and> int (length (utf8 ks)) < 3 \<and>
    wchar16_to_utf8_char (Some [0x41, 0xD83D, 0xDE00, 0]) (-3) (Some [7, 7, 7, 7]) 3 (Some 0) = Some (n, Some (utf8 ks @ b), t)"
proof -
  have "list_all scalar [0x41, 0x1F600]" "text_of [0x41, 0xD83D, 0xDE00, 0] (-3) = Some (utf16 [0x41, 0x1F600])"
    "0 \<le> (-3::int) \<or> -3 = SQL_NTS" "(0::int) < 3" "(3::int) \<le> int (length [7::byte, 7, 7, 7])"
    by (simp_all add: text_simps)
  from utf8_cut_between_characters [OF this] show ?thesis by blast
qed

text \<open>
  Property C34. In the other direction, UTF-8 text arrives as UTF-16 in the application's buffer, and a
  truncated text never ends in half of a surrogate pair.
\<close>

theorem utf16_cut_between_characters:
  assumes "list_all scalar cs" "text_of bs cchLen = Some (utf8 cs)" "0 \<le> cchLen \<or> cchLen = SQL_NTS"
    "0 < bufferSize" "bufferSize \<le> int (length buf)"
  shows "\<exists>ks rest. cs = ks @ rest \<and>
    char_utf8_to_utf16_wchar (Some bs) cchLen (Some buf) bufferSize needed =
      Some (length (utf16 ks), Some (utf16 ks @ [0] @ drop (Suc (length (utf16 ks))) buf), map_option (\<lambda>_. length (utf16 cs)) needed) \<and>
    int (length (utf16 ks)) < bufferSize \<and> (rest \<noteq> [] \<longrightarrow> bufferSize \<le> int (length (utf16 (ks @ [hd rest]))))"
proof -
  have "\<not> bad_args (Some bs) cchLen" using assms(3) by (auto simp: bad_args_def)
  then have "char_utf8_to_utf16_wchar (Some bs) cchLen (Some buf) bufferSize needed =
      convert_buf trim_surrogate (Some (length (utf16 cs), utf16 cs)) buf bufferSize needed"
    using assms(2,4) throw_ok(2) [OF assms(1)]
    by (simp add: char_utf8_to_utf16_wchar_def char_utf8_to_utf16_str_def convert_str_def)
  then show ?thesis
    using cut16.convert_buf_cut [OF assms(1,4,5), of needed] by (simp add: utf16_def)
qed

lemma utf16_cut_between_characters_witness:
  "\<exists>ks rest n b t. [0x41, 0x1F600] = ks @ rest \<and> int (length (utf16 ks)) < 3 \<and>
    char_utf8_to_utf16_wchar (Some [0x41, 0xF0, 0x9F, 0x98, 0x80]) 5 (Some [7, 7, 7]) 3 (Some 0) = Some (n, Some (utf16 ks @ b), t)"
proof -
  have "list_all scalar [0x41, 0x1F600]" "text_of [0x41, 0xF0, 0x9F, 0x98, 0x80] 5 = Some (utf8 [0x41, 0x1F600])"
    "0 \<le> (5::int) \<or> 5 = SQL_NTS" "(0::int) < 3" "(3::int) \<le> int (length [7::unit16, 7, 7])"
    by (simp_all add: text_simps)
  from utf16_cut_between_characters [OF this] show ?thesis by blast
qed

subsection \<open>There and back\<close>

lemma convert_buf_full:
  assumes "int (length vs) < bufferSize" "bufferSize \<le> int (length buf)"
  shows "convert_buf trim (Some (length vs, vs)) buf bufferSize needed =
    Some (length vs, Some (vs @ [0] @ drop (Suc (length vs)) buf), map_option (\<lambda>_. length vs) needed)"
proof -
  have "length vs \<le> nat (bufferSize - 1)" "0 < bufferSize" "length vs < length buf" using assms by linarith+
  then show ?thesis
    using put_at_end [of "length vs" vs buf] by (simp add: convert_buf_def Let_def store_text_def put_at_0)
qed

lemma text_of_terminated: "0 \<notin> set us \<Longrightarrow> text_of (us @ 0 # r) SQL_NTS = Some us"
  by (simp add: text_of_def c_str_terminated)

lemma utf8_no_nul:
  assumes "scalar c" "c \<noteq> 0"
  shows "0 \<notin> set (utf8_enc c)"
proof -
  have z: "(of_nat n :: byte) \<noteq> 0" if "0 < n" "n < 256" for n
    using unat_of_nat8 [OF that(2)] that(1) by (metis unat_0 less_irrefl)
  show ?thesis using scalar_bound [OF assms(1)]
  proof (cases c rule: utf8_forms)
    case one
    then show ?thesis using z [of c] assms(2) by simp
  next
    case (two x y)
    then show ?thesis using z [of "192 + x"] z [of "128 + y"] by (simp add: two(5) del: of_nat_add)
  next
    case (three x y w)
    then show ?thesis using z [of "224 + x"] z [of "128 + y"] z [of "128 + w"] by (simp add: three(5) del: of_nat_add)
  next
    case (four v w x y)
    then show ?thesis using z [of "240 + v"] z [of "128 + w"] z [of "128 + x"] z [of "128 + y"]
      by (simp add: four(6) del: of_nat_add)
  qed
qed

lemma utf16_no_nul:
  assumes "scalar c" "c \<noteq> 0"
  shows "0 \<notin> set (utf16_enc c)"
proof -
  have z: "(of_nat n :: unit16) \<noteq> 0" if "0 < n" "n < 65536" for n
    using unat_of_nat16 [OF that(2)] that(1) by (metis unat_0 less_irrefl)
  have "(c - 65536) div 1024 < 1024" using scalar_bound [OF assms(1)] by (simp add: less_mult_imp_div_less)
  then show ?thesis
    using z [of c] z [of "55296 + (c - 65536) div 1024"] z [of "56320 + (c - 65536) mod 1024"] assms(2)
    by (simp add: utf16_enc_def del: of_nat_add)
qed

lemma utf32_no_nul: "scalar c \<Longrightarrow> c \<noteq> 0 \<Longrightarrow> 0 \<notin> set (utf32_enc c)"
  using unat_of_nat32 [of c] scalar_bound [of c] by (auto simp: utf32_enc_def)

lemma texts_no_nul:
  assumes "list_all scalar cs" "0 \<notin> set cs"
  shows "0 \<notin> set (utf8 cs)" "0 \<notin> set (utf16 cs)" "0 \<notin> set (utf32 cs)"
  using assms by (induction cs) (auto simp: utf8_def utf16_def utf32_def utf8_no_nul utf16_no_nul utf32_no_nul)

lemma texts_length:
  "length cs \<le> length (utf16 cs) \<and> length (utf16 cs) \<le> 2 * length cs" "length (utf32 cs) = length cs"
  "length cs \<le> length (utf8 cs)"
  by (induction cs) (auto simp: utf8_def utf16_def utf32_def utf8_enc_def utf16_enc_def utf32_enc_def)

text \<open>The application's form of a text, with its terminator.\<close>

definition app_text :: "int \<Rightarrow> nat list \<Rightarrow> wbuf" where
  "app_text app cs = (if app = SQL_DD_CP_UTF32 then W32 (utf32 cs @ [0]) else W16 (utf16 cs @ [0]))"

lemma to_app:
  assumes "list_all scalar cs" "cs \<noteq> []" "0 \<notin> set cs" "length cs < 2 ^ 29" "app \<noteq> - 1"
  shows "\<exists>n. utf8_to_sqlwchar_alloc app True (Some (utf8 cs @ [0])) SQL_NTS (Some None) (-1) =
    Some (n, Some (Some (app_text app cs)))"
proof -
  have arg: "\<not> bad_args (Some (utf8 cs @ [0])) SQL_NTS" by (simp add: bad_args_def)
  have t: "text_of (utf8 cs @ [0]) SQL_NTS = Some (utf8 cs)" using text_of_terminated texts_no_nul(1) assms by blast
  note ok = throw_ok [OF assms(1)]
  note sz = texts_length [of cs]
  have ne: "0 < length cs" using assms(2) by simp
  have u: "unicode_type app (-1) = app" by (simp add: unicode_type_def)
  show ?thesis
  proof (cases "app = SQL_DD_CP_UTF32")
    case True
    obtain n where n: "n = length (utf32 cs)" by simp
    have b: "0 < n" "n < 2 ^ 29" using sz ne assms(4) n by simp_all
    have i: "i32 (int n + 1) = int n + 1" using b by (intro i32_id) simp_all
    have "convert_buf (\<lambda>us n. n) (Some (n, utf32 cs)) (replicate (n + 1) 0) (int n + 1) None =
        Some (n, Some (utf32 cs @ [0]), None)"
      using convert_buf_full [of "utf32 cs" "int n + 1" "replicate (n + 1) 0" _ None] by (simp add: n)
    then show ?thesis
      using arg t ok(4) b u i True
      by (simp add: utf8_to_sqlwchar_alloc_def utf8_to_sqlwchar_strlen_def char_utf8_to_utf32_strlen_def
          utf8_to_sqlwchar_str_def char_utf8_to_utf32_wchar_def zeroed_def sizeofSQLWCHAR_def app_text_def
          Let_def n [symmetric])
  next
    case False
    obtain n where n: "n = length (utf16 cs)" by simp
    have "0 < n" using sz(1) ne unfolding n by linarith
    moreover have "n < 2 ^ 30" using sz(1) assms(4) unfolding n by simp
    ultimately have b: "0 < n" "n < 2 ^ 30" by simp_all
    have i: "i32 (int n + 1) = int n + 1" using b by (intro i32_id) simp_all
    have "convert_buf trim_surrogate (Some (n, utf16 cs)) (replicate (n + 1) 0) (int n + 1) None =
        Some (n, Some (utf16 cs @ [0]), None)"
      using convert_buf_full [of "utf16 cs" "int n + 1" "replicate (n + 1) 0" _ None] by (simp add: n)
    then show ?thesis
      using arg t ok(2) b u i False
      by (simp add: utf8_to_sqlwchar_alloc_def utf8_to_sqlwchar_strlen_def char_utf8_to_utf16_strlen_def
          utf8_to_sqlwchar_str_def char_utf8_to_utf16_wchar_def char_utf8_to_utf16_str_def convert_str_def
          zeroed_def sizeofSQLWCHAR_def app_text_def Let_def n [symmetric])
  qed
qed

lemma from_app:
  assumes "list_all scalar cs" "cs \<noteq> []" "0 \<notin> set cs"
  shows "sqlwchar_to_utf8_alloc app True (Some (app_text app cs)) SQL_NTS (Some None) (-1) =
    Some (length (utf8 cs), Some (Some (utf8 cs @ [0])))"
proof -
  have arg: "\<not> bad_args (Some us) SQL_NTS" for us :: "unit16 list" by (simp add: bad_args_def)
  have arg': "\<not> bad_args (Some us) SQL_NTS" for us :: "unit32 list" by (simp add: bad_args_def)
  have t: "text_of (utf16 cs @ [0]) SQL_NTS = Some (utf16 cs)" "text_of (utf32 cs @ [0]) SQL_NTS = Some (utf32 cs)"
    using text_of_terminated texts_no_nul(2,3) assms by blast+
  note ok = throw_ok [OF assms(1)]
  have "0 < length (utf8 cs)" using texts_length(3) [of cs] assms(2) by (cases cs) auto
  then show ?thesis
    using arg arg' t ok(1,3)
    by (simp add: sqlwchar_to_utf8_alloc_def sqlwchar_to_utf8_str_def wchar16_to_utf8_str_def wchar32_to_utf8_str_def
        convert_str_def app_text_def unicode_type_def)
qed



end
