(* ===== verification/Rs_Escape.thy ===== *)
theory Rs_Escape
  imports Prelude
begin

text \<open>
  Rewriting of SQL text before it is sent (\<^verbatim>\<open>rsescapeclause.cpp\<close>): parameter markers become
  \<^verbatim>\<open>$n\<close> and ODBC escape clauses become Redshift syntax. The statement text is the list \<open>m\<close>
  of readable characters, with its terminator where there is one. The destination is the list of the
  characters stored so far; its length is \<^verbatim>\<open>pDest - pDestStart\<close>. A read or write outside the
  memory makes a function return \<open>None\<close>. Lengths are assumed to fit an \<^verbatim>\<open>int\<close>.
\<close>

subsection \<open>Characters\<close>

abbreviation PARAM_MARKER :: char where "PARAM_MARKER \<equiv> CHR ''?''"
abbreviation SINGLE_QUOTE :: char where "SINGLE_QUOTE \<equiv> CHR 0x27"
abbreviation DOUBLE_QUOTE :: char where "DOUBLE_QUOTE \<equiv> CHR 0x22"
abbreviation BACKSLASH :: char where "BACKSLASH \<equiv> CHR 0x5C"
abbreviation NEW_LINE :: char where "NEW_LINE \<equiv> CHR 0x0A"
abbreviation NUL :: char where "NUL \<equiv> CHR 0x00"
abbreviation CLAUSE_START :: char where "CLAUSE_START \<equiv> CHR 0x7B"
abbreviation CLAUSE_END :: char where "CLAUSE_END \<equiv> CHR 0x7D"

definition MAX_ODBC_ESCAPE_CLAUSE_REPLACE_LEN :: nat where "MAX_ODBC_ESCAPE_CLAUSE_REPLACE_LEN = 20"
definition MAX_ESCAPE_CLAUSE_NESTING_DEPTH :: nat where "MAX_ESCAPE_CLAUSE_NESTING_DEPTH = 100"
definition SHORT_STR_DATA :: nat where "SHORT_STR_DATA = 4096"

definition rd :: "string \<Rightarrow> nat \<Rightarrow> char option" where
  "rd m i = (if i < length m then Some (m ! i) else None)"

text \<open>\<^verbatim>\<open>*pDest++ = c\<close> in a buffer of \<open>bl\<close> characters.\<close>

definition put_char :: "nat \<Rightarrow> string \<Rightarrow> char \<Rightarrow> string option" where
  "put_char bl d c = (if length d < bl then Some (d @ [c]) else None)"

text \<open>
  \<^verbatim>\<open>pDest += snprintf(pDest, bl - occupied, "%s", s)\<close>. A negative size is a huge unsigned
  one; otherwise at most \<open>bl - occupied\<close> characters are stored, but \<^verbatim>\<open>pDest\<close> moves by the
  full length.
\<close>

definition put_str :: "nat \<Rightarrow> nat \<Rightarrow> string \<Rightarrow> string \<Rightarrow> string option" where
  "put_str bl occupied d s =
     (if bl < occupied then None
      else (let size = bl - occupied; stored = (if size = 0 then 0 else min (length s) (size - 1) + 1)
            in if bl < length d + stored then None else Some (d @ s)))"

subsection \<open>Quotes and comments\<close>

record lexer =
  iQuote :: nat
  iDoubleQuote :: nat
  iComment :: nat
  iSingleLineComment :: nat

definition lex0 :: lexer where
  "lex0 = \<lparr>iQuote = 0, iDoubleQuote = 0, iComment = 0, iSingleLineComment = 0\<rparr>"

definition outside :: "lexer \<Rightarrow> bool" where
  "outside lx \<longleftrightarrow> iQuote lx = 0 \<and> iDoubleQuote lx = 0 \<and> iComment lx = 0 \<and> iSingleLineComment lx = 0"

definition toggle :: "nat \<Rightarrow> nat" where
  "toggle n = (if n \<noteq> 0 then n - 1 else n + 1)"

text \<open>
  How \<^verbatim>\<open>countParamMarkers\<close> and the body of an escape clause follow quotes and comments;
  \<open>prev\<close> is the character before, if there is one.
\<close>

definition count_step :: "char option \<Rightarrow> char \<Rightarrow> lexer \<Rightarrow> lexer" where
  "count_step prev c lx =
     (if c = SINGLE_QUOTE then (if prev = Some BACKSLASH then lx else lx\<lparr>iQuote := toggle (iQuote lx)\<rparr>)
      else if c = DOUBLE_QUOTE then lx\<lparr>iDoubleQuote := toggle (iDoubleQuote lx)\<rparr>
      else if c = CHR ''*'' then (if prev = Some (CHR ''/'') then lx\<lparr>iComment := iComment lx + 1\<rparr> else lx)
      else if c = CHR ''/'' then
        (if prev = Some (CHR ''*'') \<and> iComment lx \<noteq> 0 then lx\<lparr>iComment := iComment lx - 1\<rparr> else lx)
      else if c = CHR ''-'' then
        (if prev = Some (CHR ''-'') then lx\<lparr>iSingleLineComment := iSingleLineComment lx + 1\<rparr> else lx)
      else if c = NEW_LINE then
        (if iSingleLineComment lx \<noteq> 0 then lx\<lparr>iSingleLineComment := iSingleLineComment lx - 1\<rparr> else lx)
      else lx)"

text \<open>How the top level of the rewriting follows them.\<close>

definition replace_step :: "char option \<Rightarrow> char \<Rightarrow> lexer \<Rightarrow> lexer" where
  "replace_step prev c lx =
     (if c = SINGLE_QUOTE \<or> c = DOUBLE_QUOTE
      then (if iComment lx = 0 \<and> iSingleLineComment lx = 0 then count_step prev c lx else lx)
      else if iQuote lx = 0 \<and> iDoubleQuote lx = 0 then count_step prev c lx else lx)"

fun count_loop :: "lexer \<Rightarrow> char option \<Rightarrow> string \<Rightarrow> nat" where
  "count_loop lx prev [] = 0"
| "count_loop lx prev (c # s) =
     (if c = PARAM_MARKER \<and> outside lx then 1 else 0) + count_loop (count_step prev c lx) (Some c) s"

text \<open>
  The text that a pointer and a length stand for. \<open>None\<close> for the pointer is \<^verbatim>\<open>NULL\<close>; the
  outer \<open>None\<close> is a read outside the memory.
\<close>

definition SQL_NTS_LEN :: int where "SQL_NTS_LEN = -3"

definition text_len :: "string \<Rightarrow> int \<Rightarrow> nat option" where
  "text_len m cbLen =
     (if cbLen = SQL_NTS_LEN
      then (if NUL \<in> set m then Some (length (takeWhile (\<lambda>c. c \<noteq> NUL) m)) else None)
      else if 0 \<le> cbLen \<and> nat cbLen \<le> length m then Some (nat cbLen) else None)"

definition countParamMarkers :: "string option \<Rightarrow> int \<Rightarrow> nat option" where
  "countParamMarkers pData cbLen =
     (case pData of
        None \<Rightarrow> Some 0
      | Some m \<Rightarrow> map_option (\<lambda>n. if PARAM_MARKER \<in> set (take n m) then count_loop lex0 None (take n m) else 0)
          (text_len m cbLen))"

text \<open>The part of the statement that the rewriting uses.\<close>

record estmt =
  es_noscan :: bool
  es_functionCall :: bool
  es_paramMarkers :: nat
  es_errors :: "string list"

definition needToScanODBCEscapeClause :: "estmt option \<Rightarrow> bool" where
  "needToScanODBCEscapeClause st = (case st of None \<Rightarrow> True | Some e \<Rightarrow> \<not> es_noscan e)"

lemma dropWhile_tail: "dropWhile P s = x # r \<Longrightarrow> length r < length s"
  using length_dropWhile_le [of P s] by simp

text \<open>The \<^verbatim>\<open>memchr\<close> loop over the text from the current offset.\<close>

function clause_loop :: "string \<Rightarrow> nat" where
  "clause_loop s =
     (case dropWhile (\<lambda>c. c \<noteq> CLAUSE_START) s of
        [] \<Rightarrow> 0
      | _ # r \<Rightarrow> if r = [] then 1 else 1 + clause_loop r)"
  by pat_completeness auto

termination
  by (relation "measure length") (auto dest: dropWhile_tail)

definition countODBCEscapeClauses :: "estmt option \<Rightarrow> string option \<Rightarrow> int \<Rightarrow> nat option" where
  "countODBCEscapeClauses st pData cbLen =
     (case pData of
        None \<Rightarrow> Some 0
      | Some m \<Rightarrow>
          if needToScanODBCEscapeClause st then map_option (\<lambda>n. clause_loop (take n m)) (text_len m cbLen) else Some 0)"

subsection \<open>Tokens\<close>

definition checkDelimiterForODBCEscapeClauseToken :: "char \<Rightarrow> string \<Rightarrow> bool" where
  "checkDelimiterForODBCEscapeClauseToken c delims \<longleftrightarrow> c \<in> set delims"

text \<open>
  The two loops of \<^verbatim>\<open>getNextTokenForODBCEscapeClause\<close>; \<open>p\<close> is the pointer, \<open>i\<close> the index
  counted along with it.
\<close>

function skip_space :: "string \<Rightarrow> nat \<Rightarrow> nat \<Rightarrow> nat \<Rightarrow> (nat \<times> nat) option" where
  "skip_space m n p i =
     (case rd m p of
        None \<Rightarrow> None
      | Some c \<Rightarrow> if c_isspace c \<and> i < n then skip_space m n (p + 1) (i + 1) else Some (p, i))"
  by pat_completeness auto
termination by (relation "measure (\<lambda>(m, n, p, i). n - i)") auto

function scan_token :: "string \<Rightarrow> nat \<Rightarrow> string \<Rightarrow> nat \<Rightarrow> nat \<Rightarrow> (nat \<times> nat) option" where
  "scan_token m n delims p i =
     (case rd m p of
        None \<Rightarrow> None
      | Some c \<Rightarrow>
          if \<not> c_isspace c \<and> c \<noteq> NUL \<and> i < n \<and> \<not> checkDelimiterForODBCEscapeClauseToken c delims
          then scan_token m n delims (p + 1) (i + 1) else Some (p, i))"
  by pat_completeness auto
termination by (relation "measure (\<lambda>(m, n, d, p, i). n - i)") auto

declare clause_loop.simps [simp del] skip_space.simps [simp del] scan_token.simps [simp del]

text \<open>The result is where the token starts, the pointer behind it and the index behind it.\<close>

definition getNextTokenForODBCEscapeClause :: "string \<Rightarrow> nat \<Rightarrow> string \<Rightarrow> nat \<Rightarrow> nat \<Rightarrow> (nat \<times> nat \<times> nat) option" where
  "getNextTokenForODBCEscapeClause m n delims p i =
     Option.bind (skip_space m n p i) (\<lambda>(p1, i1).
       map_option (\<lambda>(p2, i2). (p1, p2, i2)) (scan_token m n delims p1 i1))"

text \<open>Skips an opening bracket or, with \<open>iBoth\<close>, a pair of brackets; otherwise nothing.\<close>

definition skipFunctionBracketsForODBCEscapeClauseToken :: "string \<Rightarrow> nat \<Rightarrow> nat \<Rightarrow> nat \<Rightarrow> bool \<Rightarrow> (nat \<times> nat) option" where
  "skipFunctionBracketsForODBCEscapeClauseToken m n p i iBoth =
     Option.bind (getNextTokenForODBCEscapeClause m n ''('' p i) (\<lambda>(t1, p1, i1).
       Option.bind (rd m t1) (\<lambda>c.
         if c \<noteq> CHR ''('' then Some (p, i)
         else if \<not> iBoth then Some (p1 + 1, i1 + 1)
         else Option.bind (getNextTokenForODBCEscapeClause m n '')'' (p1 + 1) (i1 + 1)) (\<lambda>(t2, p2, i2).
           map_option (\<lambda>c'. if c' = CHR '')'' then (p2 + 1, i2 + 1) else (p, i)) (rd m t2))))"

subsection \<open>Tables\<close>

definition s_intervalMappings :: "(string \<times> string) list" where
  "s_intervalMappings =
     [(''SQL_TSI_FRAC_SECOND'', ''us''), (''SQL_TSI_SECOND'', ''s''), (''SQL_TSI_MINUTE'', ''m''),
      (''SQL_TSI_HOUR'', ''h''), (''SQL_TSI_DAY'', ''d''), (''SQL_TSI_WEEK'', ''w''), (''SQL_TSI_MONTH'', ''mon''),
      (''SQL_TSI_QUARTER'', ''qtr''), (''SQL_TSI_YEAR'', ''y'')]"

definition s_typeMappings :: "(string \<times> string) list" where
  "s_typeMappings =
     [(''SQL_BIGINT'', ''BIGINT''), (''SQL_BIT'', ''BOOL''), (''SQL_CHAR'', ''CHAR''), (''SQL_DECIMAL'', ''DECIMAL''),
      (''SQL_DOUBLE'', ''FLOAT8''), (''SQL_FLOAT'', ''FLOAT8''), (''SQL_INTEGER'', ''INTEGER''),
      (''SQL_NUMERIC'', ''NUMERIC''), (''SQL_REAL'', ''REAL''), (''SQL_SMALLINT'', ''SMALLINT''),
      (''SQL_TYPE_DATE'', ''DATE''), (''SQL_DATE'', ''DATE''), (''SQL_TYPE_TIMESTAMP'', ''TIMESTAMP''),
      (''SQL_TIMESTAMP'', ''TIMESTAMP''), (''SQL_TYPE_TIME'', ''TIME''), (''SQL_TIME'', ''TIME''),
      (''SQL_VARCHAR'', ''VARCHAR''), (''SQL_INTERVAL_YEAR_TO_MONTH'', ''INTERVALY2M''),
      (''SQL_INTERVAL_DAY_TO_SECOND'', ''INTERVALD2S'')]"

fun lookup_nocase :: "(string \<times> string) list \<Rightarrow> string \<Rightarrow> string option" where
  "lookup_nocase [] k = None"
| "lookup_nocase ((k', v) # t) k = (if nocase_eq k' k then Some v else lookup_nocase t k)"

definition lookupIntervalToken :: "string \<Rightarrow> string option" where
  "lookupIntervalToken = lookup_nocase s_intervalMappings"

definition lookupSqlType :: "string \<Rightarrow> string option" where
  "lookupSqlType = lookup_nocase s_typeMappings"

subsection \<open>Scalar functions\<close>

definition cast_as :: "string \<Rightarrow> string \<Rightarrow> string" where
  "cast_as e t = ''CAST('' @ e @ '' AS '' @ t @ '')''"

fun comma_list :: "string list \<Rightarrow> string" where
  "comma_list [] = []"
| "comma_list [a] = a"
| "comma_list (a # b # as) = a @ '', '' @ comma_list (b # as)"

definition buildStandardFunction :: "string \<Rightarrow> string list \<Rightarrow> string" where
  "buildStandardFunction fn args = fn @ ''('' @ comma_list args @ '')''"

text \<open>Functions that only change their name; all take one argument.\<close>

definition renamed_functions :: "(string \<times> string) list" where
  "renamed_functions =
     [(''LCASE'', ''LOWER(''), (''UCASE'', ''UPPER(''), (''LOG'', ''LN(''), (''LOG10'', ''LOG(10,''), (''ACOS'', ''ACOS(''),
      (''ASIN'', ''ASIN(''), (''ATAN'', ''ATAN(''), (''COS'', ''COS(''), (''COT'', ''COT(''), (''SIN'', ''SIN(''),
      (''TAN'', ''TAN(''), (''DEGREES'', ''DEGREES(''), (''RADIANS'', ''RADIANS(''), (''EXP'', ''EXP(''),
      (''SIGN'', ''SIGN(''), (''CEILING'', ''CEIL(''), (''FLOOR'', ''FLOOR(''), (''SQRT'', ''SQRT(''),
      (''SOUNDEX'', ''SOUNDEX(''), (''LTRIM'', ''LTRIM(''), (''RTRIM'', ''RTRIM(''), (''LENGTH'', ''LENGTH(''),
      (''ASCII'', ''ASCII(''), (''BIT_LENGTH'', ''BIT_LENGTH(''), (''CHAR'', ''CHR(''), (''CHAR_LENGTH'', ''CHAR_LENGTH(''),
      (''CHARACTER_LENGTH'', ''CHARACTER_LENGTH(''), (''OCTET_LENGTH'', ''OCTET_LENGTH('')]"

text \<open>Functions whose arguments, however many, are dropped.\<close>

definition constant_functions :: "(string \<times> string) list" where
  "constant_functions =
     [(''RAND'', ''RANDOM()''), (''CURRENT_DATE'', ''GETDATE()''), (''CURDATE'', ''GETDATE()''), (''CURTIME'', ''LOCALTIME''),
      (''DATABASE'', ''CURRENT_DATABASE()''), (''USER'', ''USER''), (''CURRENT_TIME'', ''CURRENT_TIME''),
      (''CURRENT_TIMESTAMP'', ''CURRENT_TIMESTAMP''), (''NOW'', ''NOW()''), (''PI'', ''PI()'')]"

text \<open>Parts of a date.\<close>

definition date_parts :: "(string \<times> string) list" where
  "date_parts =
     [(''DAYOFMONTH'', ''d''), (''DAYOFYEAR'', ''doy''), (''HOUR'', ''h''), (''MINUTE'', ''m''), (''MONTH'', ''mon''),
      (''QUARTER'', ''qtr''), (''SECOND'', ''s''), (''WEEK'', ''w''), (''YEAR'', ''y'')]"

definition quoted :: "string \<Rightarrow> string" where
  "quoted s = [SINGLE_QUOTE] @ s @ [SINGLE_QUOTE]"

definition one_arg :: "string \<Rightarrow> string \<Rightarrow> string option" where
  "one_arg fn a =
     (case map_of renamed_functions fn of
        Some f \<Rightarrow> Some (f @ a @ '')'')
      | None \<Rightarrow>
      case map_of date_parts fn of
        Some p \<Rightarrow> Some (''DATE_PART('' @ quoted p @ '', '' @ cast_as a ''TIMESTAMP'' @ '')'')
      | None \<Rightarrow>
          if fn = ''TRUNCATE'' then Some (''TRUNC('' @ a @ '')'')
          else if fn = ''ABS'' then Some (''ABS('' @ cast_as a ''DOUBLE PRECISION'' @ '')'')
          else if fn = ''ROUND'' then Some (''ROUND('' @ a @ '')'')
          else if fn = ''DAYOFWEEK'' then Some (''DATE_PART('' @ quoted ''dow'' @ '', '' @ cast_as a ''TIMESTAMP'' @ '') + 1'')
          else if fn = ''MONTHNAME'' then Some (''TRIM(TO_CHAR('' @ cast_as a ''TIMESTAMP'' @ '', '' @ quoted ''Month'' @ ''))'')
          else if fn = ''DAYNAME'' then Some (''TRIM(TO_CHAR('' @ cast_as a ''TIMESTAMP'' @ '', '' @ quoted ''Day'' @ ''))'')
          else if fn = ''SPACE'' then Some (''REPEAT('' @ quoted '' '' @ '', '' @ cast_as a ''INTEGER'' @ '')'')
          else None)"

definition two_args :: "string \<Rightarrow> string \<Rightarrow> string \<Rightarrow> string option" where
  "two_args fn a b =
     (if fn = ''TRUNCATE'' then Some (''TRUNC('' @ a @ '','' @ b @ '')'')
      else if fn = ''IFNULL'' then Some (''COALESCE('' @ a @ '','' @ b @ '')'')
      else if fn \<in> {''ATAN2'', ''POWER'', ''ROUND'', ''REPEAT''} then Some (fn @ ''('' @ a @ '','' @ b @ '')'')
      else if fn = ''MOD'' then Some (''MOD('' @ cast_as a ''NUMERIC'' @ '','' @ cast_as b ''NUMERIC'' @ '')'')
      else if fn = ''CONVERT'' then
        map_option (\<lambda>t. ''CAST('' @ a @ '' AS '' @ t @ '')'') (lookupSqlType b)
      else if fn = ''LOCATE'' \<or> fn = ''POSITION'' then Some (''POSITION('' @ a @ '' IN '' @ b @ '')'')
      else if fn = ''SUBSTRING'' then Some (''SUBSTRING('' @ a @ '' FROM '' @ cast_as b ''INTEGER'' @ '')'')
      else if fn = ''LEFT'' then Some (''SUBSTRING('' @ a @ '' FROM 1 FOR '' @ cast_as b ''INTEGER'' @ '')'')
      else if fn = ''RIGHT'' then
        Some (''SUBSTRING('' @ a @ '' FROM (LENGTH('' @ a @ '') - '' @ cast_as b ''INTEGER'' @ '' + 1))'')
      else if fn = ''DIFFERENCE'' then Some (''DIFFERENCE('' @ a @ '', '' @ b @ '')'')
      else None)"

definition three_args :: "string \<Rightarrow> string \<Rightarrow> string \<Rightarrow> string \<Rightarrow> string option" where
  "three_args fn a b c =
     (if fn = ''TIMESTAMPADD'' then
        map_option (\<lambda>p. ''DATEADD('' @ p @ '', '' @ cast_as b ''INTEGER'' @ '', '' @ cast_as c ''TIMESTAMP'' @ '')'')
          (lookupIntervalToken a)
      else if fn = ''TIMESTAMPDIFF'' then
        map_option (\<lambda>p. ''DATEDIFF('' @ p @ '', '' @ cast_as b ''TIMESTAMP'' @ '', '' @ cast_as c ''TIMESTAMP'' @ '')'')
          (lookupIntervalToken a)
      else if fn = ''LOCATE'' then
        Some (''POSITION('' @ a @ '' IN SUBSTRING('' @ b @ '' FROM '' @ cast_as c ''INTEGER'' @ '')) + '' @
              cast_as c ''INTEGER'' @ '' - 1'')
      else if fn = ''SUBSTRING'' then
        Some (''SUBSTRING('' @ a @ '' FROM '' @ cast_as b ''INTEGER'' @ '' FOR '' @ cast_as c ''INTEGER'' @ '')'')
      else if fn = ''REPLACE'' then Some (''REPLACE('' @ a @ '', '' @ b @ '', '' @ c @ '')'')
      else None)"

definition insert_call :: "string \<Rightarrow> string \<Rightarrow> string \<Rightarrow> string \<Rightarrow> string" where
  "insert_call a b c d =
     ''SUBSTRING('' @ a @ '' FROM 1 FOR ('' @ cast_as b ''INTEGER'' @ '' - 1)) || '' @ d @ '' || '' @ ''SUBSTRING('' @ a @
     '' FROM ('' @ cast_as b ''INTEGER'' @ '' + '' @ cast_as c ''INTEGER'' @ ''))''"

definition special_call :: "string \<Rightarrow> string list \<Rightarrow> string option" where
  "special_call fn args =
     (case map_of constant_functions fn of
        Some t \<Rightarrow> Some t
      | None \<Rightarrow>
          if fn = ''CONCAT'' then
            (case args of
               a # b # as \<Rightarrow> Some (a @ concat (map (\<lambda>x. '' || '' @ x) (b # as)))
             | _ \<Rightarrow> None)
          else
            (case args of
               [a] \<Rightarrow> one_arg fn a
             | [a, b] \<Rightarrow> two_args fn a b
             | [a, b, c] \<Rightarrow> three_args fn a b c
             | [a, b, c, d] \<Rightarrow> if fn = ''INSERT'' then Some (insert_call a b c d) else None
             | _ \<Rightarrow> None))"

text \<open>Everything else is passed on as it is, with the name in upper case.\<close>

definition function_text :: "string \<Rightarrow> string list \<Rightarrow> string" where
  "function_text fn args =
     (case special_call fn args of Some t \<Rightarrow> t | None \<Rightarrow> buildStandardFunction fn args)"

subsection \<open>Arguments of a function\<close>

text \<open>
  What processing a clause yields: whether it succeeded, the destination, the pointer to the last
  character consumed, the index counted along, the number of the last marker, and the statement. The
  type of the processing is named because the argument parser calls it for nested clauses: buffer
  length, destination, memory, text length, pointer, index, number of markers, last marker, statement.
\<close>

record cres =
  cr_ok :: bool
  cr_dest :: string
  cr_src :: nat
  cr_pos :: nat
  cr_param :: nat
  cr_stmt :: "estmt option"

type_synonym clause =
  "nat \<Rightarrow> string \<Rightarrow> string \<Rightarrow> nat \<Rightarrow> nat \<Rightarrow> nat \<Rightarrow> nat \<Rightarrow> nat \<Rightarrow> estmt option \<Rightarrow> cres option"

datatype parse_state =
  NORMAL | IN_SINGLE_QUOTE | IN_DOUBLE_QUOTE | IN_SINGLE_LINE_COMMENT | IN_MULTI_LINE_COMMENT | AFTER_STRING | AFTER_IDENTIFIER

text \<open>The parser context; \<open>px_args\<close> holds the arguments last first.\<close>

record parser_context =
  px_pos :: nat
  px_state :: parse_state
  px_parens :: nat
  px_braces :: nat
  px_args :: "string list"

datatype parse_result =
  PStep parser_context nat "estmt option"
| PDone nat "string list" nat "estmt option"
| PFail nat "estmt option"
| PUndefined

definition trim_arg :: "string \<Rightarrow> string" where
  "trim_arg s = rev (dropWhile c_isspace (rev (dropWhile c_isspace s)))"

fun finalizeArgument :: "string list \<Rightarrow> string list" where
  "finalizeArgument [] = []"
| "finalizeArgument (a # as) = (if trim_arg a = [] then as else trim_arg a # as)"

fun append_arg :: "string \<Rightarrow> string list \<Rightarrow> string list" where
  "append_arg t [] = []"
| "append_arg t (a # as) = (a @ t) # as"

text \<open>Append \<open>t\<close> to the current argument, advance by \<open>k\<close>.\<close>

definition px_take :: "string \<Rightarrow> nat \<Rightarrow> parser_context \<Rightarrow> parser_context" where
  "px_take t k px = px\<lparr>px_pos := px_pos px + k, px_args := append_arg t (px_args px)\<rparr>"

definition nested_arg :: "clause \<Rightarrow> string \<Rightarrow> nat \<Rightarrow> parser_context \<Rightarrow> nat \<Rightarrow> estmt option \<Rightarrow> parse_result" where
  "nested_arg nested sql nPM px param st =
     (case nested SHORT_STR_DATA [] (sql @ [NUL]) (length sql - px_pos px) (px_pos px) 0 nPM param st of
        None \<Rightarrow> PUndefined
      | Some r \<Rightarrow>
          if cr_ok r \<and> 0 < cr_pos r then
            (if SHORT_STR_DATA \<le> length (cr_dest r) then PUndefined
             else (let px1 = px\<lparr>px_args := append_arg (takeWhile (\<lambda>c. c \<noteq> NUL) (cr_dest r)) (px_args px)\<rparr>
                   in case rd (sql @ [NUL]) (cr_src r) of
                        None \<Rightarrow> PUndefined
                      | Some c \<Rightarrow> PStep (if c = CLAUSE_END then px1\<lparr>px_pos := cr_src r + 1\<rparr> else px1) (cr_param r) (cr_stmt r)))
          else PFail (cr_param r) (cr_stmt r))"

definition normal_step :: "clause \<Rightarrow> string \<Rightarrow> nat \<Rightarrow> parser_context \<Rightarrow> nat \<Rightarrow> estmt option \<Rightarrow> parse_result" where
  "normal_step nested sql nPM px param st =
     (let c = sql ! px_pos px;
          next_c = (if px_pos px + 1 < length sql then sql ! (px_pos px + 1) else NUL)
      in if c = SINGLE_QUOTE then PStep (px_take [c] 1 px\<lparr>px_state := IN_SINGLE_QUOTE\<rparr>) param st
         else if c = DOUBLE_QUOTE then PStep (px_take [c] 1 px\<lparr>px_state := IN_DOUBLE_QUOTE\<rparr>) param st
         else if c = CHR ''-'' \<and> next_c = CHR ''-'' then PStep (px_take [] 2 px\<lparr>px_state := IN_SINGLE_LINE_COMMENT\<rparr>) param st
         else if c = CHR ''/'' \<and> next_c = CHR ''*'' then PStep (px_take [] 2 px\<lparr>px_state := IN_MULTI_LINE_COMMENT\<rparr>) param st
         else if c = CHR ''('' then PStep (px_take [c] 1 px\<lparr>px_parens := px_parens px + 1\<rparr>) param st
         else if c = CLAUSE_START then
           (if px_braces px = 0 \<and> px_parens px = 0 \<and> st \<noteq> None then nested_arg nested sql nPM px param st
            else PStep (px_take [c] 1 px\<lparr>px_braces := px_braces px + 1\<rparr>) param st)
         else if c = CHR '')'' then
           (if px_parens px = 0 then PDone (px_pos px + 1) (rev (finalizeArgument (px_args px))) param st
            else PStep (px_take [c] 1 px\<lparr>px_parens := px_parens px - 1\<rparr>) param st)
         else if c = CLAUSE_END then
           (if px_braces px = 0 then PFail param st
            else PStep (px_take [c] 1 px\<lparr>px_braces := px_braces px - 1\<rparr>) param st)
         else if c = CHR '','' \<and> px_parens px = 0 \<and> px_braces px = 0 then
           PStep (px\<lparr>px_pos := px_pos px + 1, px_args := [] # finalizeArgument (px_args px)\<rparr>) param st
         else if c = PARAM_MARKER \<and> 0 < nPM then
           PStep (px_take (CHR ''$'' # dec_digits (param + 1)) 1 px) (param + 1) st
         else PStep (px_take [c] 1 px) param st)"

definition parse_step :: "clause \<Rightarrow> string \<Rightarrow> nat \<Rightarrow> parser_context \<Rightarrow> nat \<Rightarrow> estmt option \<Rightarrow> parse_result" where
  "parse_step nested sql nPM px param st =
     (let c = sql ! px_pos px;
          next_c = (if px_pos px + 1 < length sql then sql ! (px_pos px + 1) else NUL)
      in case px_state px of
           NORMAL \<Rightarrow> normal_step nested sql nPM px param st
         | IN_SINGLE_QUOTE \<Rightarrow>
             (if (c = BACKSLASH \<or> c = SINGLE_QUOTE) \<and> next_c = SINGLE_QUOTE then PStep (px_take [c, next_c] 2 px) param st
              else if c = SINGLE_QUOTE then PStep (px_take [c] 1 px\<lparr>px_state := AFTER_STRING\<rparr>) param st
              else PStep (px_take [c] 1 px) param st)
         | IN_DOUBLE_QUOTE \<Rightarrow>
             (if c = DOUBLE_QUOTE then
                (if next_c = DOUBLE_QUOTE then PStep (px_take [c, next_c] 2 px) param st
                 else PStep (px_take [c] 1 px\<lparr>px_state := AFTER_IDENTIFIER\<rparr>) param st)
              else PStep (px_take [c] 1 px) param st)
         | IN_SINGLE_LINE_COMMENT \<Rightarrow>
             PStep (px_take [] 1 (if c = NEW_LINE \<or> c = CHR 0x0D then px\<lparr>px_state := NORMAL\<rparr> else px)) param st
         | IN_MULTI_LINE_COMMENT \<Rightarrow>
             (if c = CHR ''*'' \<and> next_c = CHR ''/'' then PStep (px_take [] 2 px\<lparr>px_state := NORMAL\<rparr>) param st
              else PStep (px_take [] 1 px) param st)
         | AFTER_STRING \<Rightarrow> PStep (px\<lparr>px_state := NORMAL\<rparr>) param st
         | AFTER_IDENTIFIER \<Rightarrow> PStep (px\<lparr>px_state := NORMAL\<rparr>) param st)"

text \<open>
  The loop. Its measure counts two for a character and one for the state behind a quoted text, where a
  round consumes nothing; a round that did not decrease it would be an endless loop.
\<close>

definition px_measure :: "nat \<Rightarrow> parser_context \<Rightarrow> nat" where
  "px_measure n px = 2 * (n - px_pos px) + (if px_state px \<in> {AFTER_STRING, AFTER_IDENTIFIER} then 1 else 0)"

function parse_loop :: "clause \<Rightarrow> string \<Rightarrow> nat \<Rightarrow> parser_context \<Rightarrow> nat \<Rightarrow> estmt option \<Rightarrow> parse_result" where
  "parse_loop nested sql nPM px param st =
     (if px_pos px < length sql then
        (case parse_step nested sql nPM px param st of
           PStep px' param' st' \<Rightarrow>
             if px_measure (length sql) px' < px_measure (length sql) px then parse_loop nested sql nPM px' param' st'
             else PUndefined
         | r \<Rightarrow> r)
      else PFail param st)"
  by pat_completeness auto
termination by (relation "measure (\<lambda>(n, sql, k, px, p, s). px_measure (length sql) px)") auto

declare parse_loop.simps [simp del]

fun skipWhitespace :: "string \<Rightarrow> nat" where
  "skipWhitespace [] = 0"
| "skipWhitespace (c # s) = (if c_isspace c then 1 + skipWhitespace s else 0)"

definition parseFunctionArguments :: "clause \<Rightarrow> string \<Rightarrow> nat \<Rightarrow> nat \<Rightarrow> estmt option \<Rightarrow> parse_result" where
  "parseFunctionArguments nested sql nPM param st =
     (let pos = skipWhitespace sql
      in if length sql \<le> pos \<or> sql ! pos \<noteq> CHR ''('' then PFail param st
         else parse_loop nested sql nPM
                \<lparr>px_pos = pos + 1, px_state = NORMAL, px_parens = 0, px_braces = 0, px_args = [[]]\<rparr> param st)"

text \<open>
  A scalar function. \<open>fr_ret\<close> is the value returned: -1 for an error that keeps the clause, otherwise the
  new index.
\<close>

record fres =
  fr_ret :: int
  fr_err :: bool
  fr_dest :: string
  fr_src :: nat
  fr_param :: nat
  fr_stmt :: "estmt option"

definition substring :: "string \<Rightarrow> nat \<Rightarrow> nat \<Rightarrow> string" where
  "substring m a b = take (b - a) (drop a m)"

definition emit_function :: "nat \<Rightarrow> string \<Rightarrow> nat \<Rightarrow> nat \<Rightarrow> nat \<Rightarrow> string \<Rightarrow> nat \<Rightarrow> nat \<Rightarrow> estmt option \<Rightarrow> fres option" where
  "emit_function bl d p i p' result i' param st =
     (if bl < length d then None
      else if length result + 1 \<le> bl - length d
      then Some \<lparr>fr_ret = int i', fr_err = False, fr_dest = d @ result, fr_src = p', fr_param = param, fr_stmt = st\<rparr>
      else Some \<lparr>fr_ret = int i, fr_err = True, fr_dest = d, fr_src = p, fr_param = param, fr_stmt = st\<rparr>)"

definition processEscapeFunctionCall ::
  "clause \<Rightarrow> nat \<Rightarrow> string \<Rightarrow> string \<Rightarrow> nat \<Rightarrow> nat \<Rightarrow> nat \<Rightarrow> nat \<Rightarrow> nat \<Rightarrow> estmt option \<Rightarrow> fres option" where
  "processEscapeFunctionCall nested bl d m n p i nPM param st =
     Option.bind (getNextTokenForODBCEscapeClause m n [CHR ''('', CLAUSE_END] p i) (\<lambda>(p1, p2, i2).
       if p1 = p2
       then Some \<lparr>fr_ret = int i2, fr_err = False, fr_dest = d, fr_src = p, fr_param = param, fr_stmt = st\<rparr>
       else if n < i2 \<or> length m < p2 + (n - i2) then None
       else (let fn = map c_upper (substring m p1 p2) in
             if fn = ''CURRENT_TIME'' \<or> fn = ''CURRENT_TIMESTAMP''
             then emit_function bl d p i p2 (function_text fn []) i2 param st
             else case parseFunctionArguments nested (substring m p2 (p2 + (n - i2))) nPM param st of
                    PDone k args param' st' \<Rightarrow> emit_function bl d p i (p2 + k) (function_text fn args) (i2 + k) param' st'
                  | PFail param' st' \<Rightarrow>
                      Some \<lparr>fr_ret = -1, fr_err = True, fr_dest = d, fr_src = p, fr_param = param', fr_stmt = st'\<rparr>
                  | _ \<Rightarrow> None))"

subsection \<open>Escape clauses\<close>

text \<open>The state of the loop that copies the rest of a clause.\<close>

record copy_state =
  cp_dest :: string
  cp_src :: nat
  cp_pos :: nat
  cp_param :: nat
  cp_stmt :: "estmt option"
  cp_lex :: lexer
  cp_paren :: bool
  cp_occupied :: nat

text \<open>\<open>CFound\<close> when the end of the clause is reached, \<open>CEnd\<close> when the text ends before it.\<close>

datatype copy_result = CFound copy_state | CEnd copy_state | CError copy_state | CUndefined

definition cp_store :: "string option \<Rightarrow> nat \<Rightarrow> copy_state \<Rightarrow> copy_state option" where
  "cp_store d k cp = map_option (\<lambda>d'. cp\<lparr>cp_dest := d', cp_src := cp_src cp + k, cp_pos := cp_pos cp + 1\<rparr>) d"

definition copy_char :: "string \<Rightarrow> nat \<Rightarrow> nat \<Rightarrow> copy_state \<Rightarrow> copy_state option" where
  "copy_char m bl nPM cp =
     Option.bind (rd m (cp_src cp)) (\<lambda>c.
       (let d = cp_dest cp;
            plain = cp_store (put_char bl d c) 1 (cp\<lparr>cp_lex := count_step (rd m (cp_src cp - 1)) c (cp_lex cp)\<rparr>)
        in if c = PARAM_MARKER \<and> outside (cp_lex cp) \<and> 0 < nPM then
             cp_store (put_str bl (length d) d (CHR ''$'' # dec_digits (cp_param cp + 1))) 1
               (cp\<lparr>cp_param := cp_param cp + 1, cp_occupied := length d\<rparr>)
           else if c = CHR ''y'' \<or> c = CHR ''d'' then
             (case rd m (cp_src cp + 1) of
                None \<Rightarrow> None
              | Some c' \<Rightarrow>
                  if c = CHR ''y'' \<and> c' = CHR ''m'' then cp_store (put_str bl (cp_occupied cp) d ''YEAR TO MONTH'') 2 cp
                  else if c' = CHR ''s'' then cp_store (put_str bl (cp_occupied cp) d ''DAY TO SECOND'') 2 cp
                  else plain)
           else plain))"

function copy_loop :: "clause \<Rightarrow> string \<Rightarrow> nat \<Rightarrow> nat \<Rightarrow> nat \<Rightarrow> bool \<Rightarrow> bool \<Rightarrow> copy_state \<Rightarrow> copy_result" where
  "copy_loop nested m n bl nPM isCall isFn cp =
     (if n \<le> cp_pos cp then CEnd cp
      else case rd m (cp_src cp) of
        None \<Rightarrow> CUndefined
      | Some c \<Rightarrow>
          if c = CLAUSE_END \<and> outside (cp_lex cp) then
            (if isCall \<and> \<not> cp_paren cp
             then (case put_str bl (length (cp_dest cp)) (cp_dest cp) ''()'' of
                     None \<Rightarrow> CUndefined
                   | Some d \<Rightarrow> CFound (cp\<lparr>cp_dest := d\<rparr>))
             else CFound cp)
          else if c = CLAUSE_START \<and> isFn \<and> outside (cp_lex cp) then
            (case nested bl (cp_dest cp) m n (cp_src cp) (cp_pos cp) nPM (cp_param cp) (cp_stmt cp) of
               None \<Rightarrow> CUndefined
             | Some r \<Rightarrow>
                 (let cp' = cp\<lparr>cp_dest := cr_dest r, cp_src := cr_src r + 1, cp_pos := cr_pos r + 1,
                               cp_param := cr_param r, cp_stmt := cr_stmt r\<rparr>
                  in if \<not> cr_ok r then CError cp'
                     else if cr_pos r < cp_pos cp then CUndefined
                     else copy_loop nested m n bl nPM isCall isFn cp'))
          else
            (case (if c = CHR ''('' \<and> outside (cp_lex cp)
                   then cp_store (put_char bl (cp_dest cp) c) 1 (cp\<lparr>cp_paren := True\<rparr>)
                   else copy_char m bl nPM cp) of
               None \<Rightarrow> CUndefined
             | Some cp' \<Rightarrow>
                 if cp_pos cp' \<le> cp_pos cp then CUndefined else copy_loop nested m n bl nPM isCall isFn cp'))"
  by pat_completeness auto
termination by (relation "measure (\<lambda>(f, m, n, bl, k, a, b, cp). n - cp_pos cp)") (auto simp: Let_def)

declare copy_loop.simps [simp del]

text \<open>The keywords that are replaced by a text.\<close>

definition clause_keys :: "(string \<times> string) list" where
  "clause_keys =
     [(''escape'', ''ESCAPE''), (''d'', ''DATE''), (''ts'', ''TIMESTAMP''), (''ivl'', ''INTERVAL''), (''ym'', ''YEAR TO MONTH''),
      (''ds'', ''DAY TO SECOND''), (''t'', ''TIME''), (''call'', ''CALL ''), (''oj'', [])]"

text \<open>What the keyword of a clause does, before the rest is copied; \<open>None\<close> inside for an unknown keyword.\<close>

definition clause_head ::
  "clause \<Rightarrow> nat \<Rightarrow> string \<Rightarrow> string \<Rightarrow> nat \<Rightarrow> string \<Rightarrow> nat \<Rightarrow> nat \<Rightarrow> nat \<Rightarrow> nat \<Rightarrow> estmt option \<Rightarrow> fres option option" where
  "clause_head nested bl d m n tok p i nPM param st =
     (let done = (\<lambda>d'. \<lparr>fr_ret = int i, fr_err = False, fr_dest = d', fr_src = p, fr_param = param, fr_stmt = st\<rparr>)
      in if tok = [] then Some (Some (done d))
         else if nocase_eq tok ''fn'' then map_option Some (processEscapeFunctionCall nested bl d m n p i nPM param st)
         else case lookup_nocase clause_keys tok of
                None \<Rightarrow> Some None
              | Some t \<Rightarrow>
                  map_option (\<lambda>d'. Some ((done d')\<lparr>fr_stmt :=
                      if nocase_eq tok ''call'' then map_option (\<lambda>e. e\<lparr>es_functionCall := True\<rparr>) st else st\<rparr>))
                    (if t = [] then Some d else put_str bl (length d) d t))"

definition clause_body :: "clause \<Rightarrow> clause" where
  "clause_body nested bl d m n p i nPM param st =
     Option.bind (getNextTokenForODBCEscapeClause m n [] (p + 1) (i + 1)) (\<lambda>(p1, p2, i2).
       (let tok = substring m p1 p2;
            failed = (\<lambda>d' p' param' st'. Some \<lparr>cr_ok = False, cr_dest = d', cr_src = p', cr_pos = i2, cr_param = param', cr_stmt = st'\<rparr>)
        in Option.bind (clause_head nested bl d m n tok p2 i2 nPM param st) (\<lambda>h.
          case h of
            None \<Rightarrow> failed d p2 param st
          | Some f \<Rightarrow>
              if fr_err f \<or> fr_ret f < 0 then failed (fr_dest f) (fr_src f) (fr_param f) (fr_stmt f)
              else (case copy_loop nested m n bl nPM (nocase_eq tok ''call'') (nocase_eq tok ''fn'')
                          \<lparr>cp_dest = fr_dest f, cp_src = fr_src f, cp_pos = nat (fr_ret f), cp_param = fr_param f,
                           cp_stmt = fr_stmt f, cp_lex = lex0, cp_paren = False, cp_occupied = length d\<rparr> of
                      CUndefined \<Rightarrow> None
                    | CFound cp \<Rightarrow> Some \<lparr>cr_ok = True, cr_dest = cp_dest cp, cr_src = cp_src cp, cr_pos = cp_pos cp,
                                     cr_param = cp_param cp, cr_stmt = cp_stmt cp\<rparr>
                    | CEnd cp \<Rightarrow> failed (cp_dest cp) (cp_src cp) (cp_param cp) (cp_stmt cp)
                    | CError cp \<Rightarrow> failed (cp_dest cp) (cp_src cp) (cp_param cp) (cp_stmt cp)))))"

text \<open>
  A clause, by the nesting levels left: at 0 the depth is \<^verbatim>\<open>MAX_ESCAPE_CLAUSE_NESTING_DEPTH\<close>
  and an error is added to the statement.
\<close>

primrec replaceODBCEscapeClause :: "nat \<Rightarrow> clause" where
  "replaceODBCEscapeClause 0 = (\<lambda>bl d m n p i nPM param st.
     if needToScanODBCEscapeClause st
     then Some \<lparr>cr_ok = False, cr_dest = d, cr_src = p, cr_pos = i, cr_param = param,
                cr_stmt = map_option (\<lambda>e. e\<lparr>es_errors := es_errors e @ [''HY000'']\<rparr>) st\<rparr>
     else map_option (\<lambda>d'. \<lparr>cr_ok = True, cr_dest = d', cr_src = p, cr_pos = i, cr_param = param, cr_stmt = st\<rparr>)
            (Option.bind (rd m p) (put_char bl d)))"
| "replaceODBCEscapeClause (Suc levels) = (\<lambda>bl d m n p i nPM param st.
     if needToScanODBCEscapeClause st
     then clause_body (replaceODBCEscapeClause levels) bl d m n p i nPM param st
     else map_option (\<lambda>d'. \<lparr>cr_ok = True, cr_dest = d', cr_src = p, cr_pos = i, cr_param = param, cr_stmt = st\<rparr>)
            (Option.bind (rd m p) (put_char bl d)))"

subsection \<open>Whole statements\<close>

record main_state =
  mn_dest :: string
  mn_src :: nat
  mn_pos :: nat
  mn_param :: nat
  mn_stmt :: "estmt option"
  mn_lex :: lexer

datatype main_result = MDone main_state | MError main_state | MUndefined

definition prev_char :: "string \<Rightarrow> nat \<Rightarrow> char option" where
  "prev_char m p = (if p = 0 then None else rd m (p - 1))"

definition mn_store :: "string option \<Rightarrow> lexer \<Rightarrow> main_state \<Rightarrow> main_state option" where
  "mn_store d lx mn =
     map_option (\<lambda>d'. mn\<lparr>mn_dest := d', mn_src := mn_src mn + 1, mn_pos := mn_pos mn + 1, mn_lex := lx\<rparr>) d"

function main_loop :: "clause \<Rightarrow> string \<Rightarrow> nat \<Rightarrow> nat \<Rightarrow> nat \<Rightarrow> main_state \<Rightarrow> main_result" where
  "main_loop clause_fn m n bl nPM mn =
     (if n \<le> mn_pos mn then MDone mn
      else case rd m (mn_src mn) of
        None \<Rightarrow> MUndefined
      | Some c \<Rightarrow>
          if c = CLAUSE_START \<and> outside (mn_lex mn) then
            (case clause_fn bl (mn_dest mn) m n (mn_src mn) (mn_pos mn) nPM (mn_param mn) (mn_stmt mn) of
               None \<Rightarrow> MUndefined
             | Some r \<Rightarrow>
                 (let mn' = mn\<lparr>mn_dest := cr_dest r, mn_src := cr_src r + 1, mn_pos := cr_pos r + 1,
                               mn_param := cr_param r, mn_stmt := cr_stmt r\<rparr>
                  in if \<not> cr_ok r then MError mn'
                     else if cr_pos r < mn_pos mn then MUndefined
                     else main_loop clause_fn m n bl nPM mn'))
          else
            (case (if c = PARAM_MARKER \<and> outside (mn_lex mn) \<and> 0 < nPM
                   then mn_store (put_str bl (length (mn_dest mn)) (mn_dest mn) (CHR ''$'' # dec_digits (mn_param mn + 1)))
                          (mn_lex mn) (mn\<lparr>mn_param := mn_param mn + 1\<rparr>)
                   else mn_store (put_char bl (mn_dest mn) c) (replace_step (prev_char m (mn_src mn)) c (mn_lex mn)) mn) of
               None \<Rightarrow> MUndefined
             | Some mn' \<Rightarrow> if mn_pos mn' \<le> mn_pos mn then MUndefined else main_loop clause_fn m n bl nPM mn'))"
  by pat_completeness auto
termination by (relation "measure (\<lambda>(f, m, n, bl, k, mn). n - mn_pos mn)") (auto simp: Let_def)

declare main_loop.simps [simp del]

definition buffer_len :: "nat \<Rightarrow> nat \<Rightarrow> nat \<Rightarrow> nat" where
  "buffer_len n nPM nEC =
     (let iLen = n + (if 0 < nPM then (length (dec_digits nPM) + 1) * nPM else 0) + MAX_ODBC_ESCAPE_CLAUSE_REPLACE_LEN * nEC
      in if SHORT_STR_DATA < iLen then iLen + 1 else SHORT_STR_DATA + 1)"

text \<open>The rewritten text, or the text as it was after an error; and the statement.\<close>

definition replaceParamMarkerAndODBCEscapeClause ::
  "estmt option \<Rightarrow> string \<Rightarrow> int \<Rightarrow> nat \<Rightarrow> nat \<Rightarrow> (string \<times> estmt option) option" where
  "replaceParamMarkerAndODBCEscapeClause st m cbLen nPM nEC =
     (if 0 < nPM \<or> 0 < nEC then
        Option.bind (text_len m cbLen) (\<lambda>n.
          (let bl = buffer_len n nPM nEC
           in case main_loop (replaceODBCEscapeClause MAX_ESCAPE_CLAUSE_NESTING_DEPTH) m n bl nPM
                     \<lparr>mn_dest = [], mn_src = 0, mn_pos = 0, mn_param = 0, mn_stmt = st, mn_lex = lex0\<rparr> of
                MUndefined \<Rightarrow> None
              | MError mn \<Rightarrow> Some (m, mn_stmt mn)
              | MDone mn \<Rightarrow> if length (mn_dest mn) < bl then Some (mn_dest mn, mn_stmt mn) else None))
      else Some (m, st))"

definition setParamMarkerCount :: "nat \<Rightarrow> estmt option \<Rightarrow> estmt option" where
  "setParamMarkerCount k st = map_option (\<lambda>e. e\<lparr>es_paramMarkers := k\<rparr>) st"

definition checkReplaceParamMarkerAndODBCEscapeClause ::
  "estmt option \<Rightarrow> string option \<Rightarrow> int \<Rightarrow> bool \<Rightarrow> (string option \<times> estmt option) option" where
  "checkReplaceParamMarkerAndODBCEscapeClause st pData cbLen iReplaceParamMarker =
     (case pData of
        None \<Rightarrow> Some (None, st)
      | Some m \<Rightarrow>
          if cbLen = -1 then Some (None, st)
          else Option.bind (if iReplaceParamMarker then countParamMarkers pData cbLen else Some 0) (\<lambda>nPM.
            Option.bind (countODBCEscapeClauses st pData cbLen) (\<lambda>nEC.
              (let st' = setParamMarkerCount nPM st
               in if nPM = 0 \<and> nEC = 0 then
                    (if cbLen = SQL_NTS_LEN then Some (Some m, st')
                     else map_option (\<lambda>n. (Some (take n m), st')) (text_len m cbLen))
                  else map_option (\<lambda>(t, s). (Some t, s)) (replaceParamMarkerAndODBCEscapeClause st' m cbLen nPM nEC)))))"

end
