(* ===== verification/Rs_Escape_Promises.thy ===== *)
theory Rs_Escape_Promises
  imports Rs_Escape
begin

text \<open>
  What the rewriting of statements promises, and where it breaks: markers are numbered in order and the
  buffer is large enough as long as the two passes agree on what is quoted; they do not always.
\<close>

subsection \<open>Lengths of numerals\<close>

lemma dec_digits_ge_one: "1 \<le> length (dec_digits n)"
  by (subst dec_digits.simps) simp

lemma dec_digits_mono: "a \<le> b \<Longrightarrow> length (dec_digits a) \<le> length (dec_digits b)"
proof (induction b arbitrary: a rule: dec_digits.induct)
  case (1 b)
  show ?case
  proof (cases "a < 10")
    case True
    then show ?thesis using dec_digits_ge_one [of b] by (subst (1) dec_digits.simps) simp
  next
    case False
    then have "\<not> b < 10" "a div 10 \<le> b div 10" using 1(2) by (simp_all add: div_le_mono)
    with 1(1) [of "a div 10"] False show ?thesis by (subst (1 2) dec_digits.simps) simp
  qed
qed

subsection \<open>The plain part of a statement\<close>

text \<open>The text with its markers numbered from \<open>k + 1\<close>, and the number of markers.\<close>

fun mark_text :: "lexer \<Rightarrow> char option \<Rightarrow> nat \<Rightarrow> string \<Rightarrow> string" where
  "mark_text lx prev k [] = []"
| "mark_text lx prev k (c # s) =
     (if c = PARAM_MARKER \<and> outside lx then (CHR ''$'' # dec_digits (k + 1)) @ mark_text lx (Some c) (k + 1) s
      else c # mark_text (replace_step prev c lx) (Some c) k s)"

fun mark_count :: "lexer \<Rightarrow> char option \<Rightarrow> string \<Rightarrow> nat" where
  "mark_count lx prev [] = 0"
| "mark_count lx prev (c # s) =
     (if c = PARAM_MARKER \<and> outside lx then 1 + mark_count lx (Some c) s
      else mark_count (replace_step prev c lx) (Some c) s)"

fun lex_end :: "lexer \<Rightarrow> char option \<Rightarrow> string \<Rightarrow> lexer" where
  "lex_end lx prev [] = lx"
| "lex_end lx prev (c # s) =
     (if c = PARAM_MARKER \<and> outside lx then lex_end lx (Some c) s else lex_end (replace_step prev c lx) (Some c) s)"

lemma mark_text_bound:
  assumes "k + mark_count lx prev s \<le> K"
  shows "length (mark_text lx prev k s) \<le> length s + mark_count lx prev s * length (dec_digits K)"
  using assms
proof (induction s arbitrary: lx prev k)
  case Nil
  then show ?case by simp
next
  case (Cons c s)
  show ?case
  proof (cases "c = PARAM_MARKER \<and> outside lx")
    case True
    then have h: "k + 1 + mark_count lx (Some c) s \<le> K" using Cons.prems by simp
    have "length (dec_digits (k + 1)) \<le> length (dec_digits K)" by (rule dec_digits_mono) (use h in simp)
    then show ?thesis using True Cons.IH [OF h] by simp
  next
    case False
    then have h: "k + mark_count (replace_step prev c lx) (Some c) s \<le> K" using Cons.prems by auto
    show ?thesis using False Cons.IH [OF h] by auto
  qed
qed

lemma rd_drop: "drop p m = c # t \<Longrightarrow> rd m p = Some c"
  using drop_append_nth [of p m c t] by (simp add: rd_def)

lemma drop_next: "drop p m = c # t \<Longrightarrow> drop (p + 1) m = t"
  by (metis add.commute drop_drop drop_Suc_Cons drop_0 plus_1_eq_Suc)

lemma prev_next: "drop p m = c # t \<Longrightarrow> prev_char m (p + 1) = Some c"
  using rd_drop [of p m c t] by (simp add: prev_char_def)

lemma prev_char_0: "prev_char m 0 = None"
  by (simp add: prev_char_def)

lemma put_str_fresh:
  assumes "length d \<le> bl"
  shows "put_str bl (length d) d s = Some (d @ s)"
  using assms by (auto simp: put_str_def Let_def)

abbreviation main_at :: "string \<Rightarrow> nat \<Rightarrow> nat \<Rightarrow> estmt option \<Rightarrow> lexer \<Rightarrow> main_state" where
  "main_at d p k st lx \<equiv> \<lparr>mn_dest = d, mn_src = p, mn_pos = p, mn_param = k, mn_stmt = st, mn_lex = lx\<rparr>"

lemma main_loop_plain:
  assumes "drop p m = t @ r" "p + length t \<le> n" "CLAUSE_START \<notin> set t" "0 < nPM"
    "length d + length (mark_text lx (prev_char m p) k t) < bl"
  shows "main_loop f m n bl nPM (main_at d p k st lx) =
    main_loop f m n bl nPM (main_at (d @ mark_text lx (prev_char m p) k t) (p + length t)
      (k + mark_count lx (prev_char m p) t) st (lex_end lx (prev_char m p) t))"
  using assms
proof (induction t arbitrary: p d k lx)
  case Nil
  then show ?case by simp
next
  case (Cons c t)
  note c = rd_drop [of p m c "t @ r"] drop_next [of p m c "t @ r"] prev_next [of p m c "t @ r"]
  have p: "rd m p = Some c" "drop (p + 1) m = t @ r" "prev_char m (p + 1) = Some c" "p < n" "p + 1 + length t \<le> n"
    "c \<noteq> CLAUSE_START" "CLAUSE_START \<notin> set t"
    using c Cons.prems by auto
  show ?case
  proof (cases "c = PARAM_MARKER \<and> outside lx")
    case True
    have "length d \<le> bl" using Cons.prems(5) by simp
    then have "put_str bl (length d) d (CHR ''$'' # dec_digits (k + 1)) = Some (d @ CHR ''$'' # dec_digits (k + 1))"
      by (rule put_str_fresh)
    then have "main_loop f m n bl nPM (main_at d p k st lx) =
        main_loop f m n bl nPM (main_at (d @ CHR ''$'' # dec_digits (k + 1)) (p + 1) (k + 1) st lx)"
      using True p Cons.prems(4) by (subst main_loop.simps) (simp add: mn_store_def)
    also have "\<dots> = main_loop f m n bl nPM (main_at ((d @ CHR ''$'' # dec_digits (k + 1)) @ mark_text lx (Some c) (k + 1) t)
        (p + 1 + length t) (k + 1 + mark_count lx (Some c) t) st (lex_end lx (Some c) t))"
      using Cons.IH [of "p + 1" "d @ CHR ''$'' # dec_digits (k + 1)" lx "k + 1"] p Cons.prems(4,5) True by simp
    finally show ?thesis using True by simp
  next
    case False
    let ?lx = "replace_step (prev_char m p) c lx"
    have "put_char bl d c = Some (d @ [c])" using Cons.prems(5) False by (auto simp: put_char_def)
    then have "main_loop f m n bl nPM (main_at d p k st lx) = main_loop f m n bl nPM (main_at (d @ [c]) (p + 1) k st ?lx)"
      using False p Cons.prems(4) by (subst main_loop.simps) (auto simp: mn_store_def)
    also have "\<dots> = main_loop f m n bl nPM (main_at ((d @ [c]) @ mark_text ?lx (Some c) k t)
        (p + 1 + length t) (k + mark_count ?lx (Some c) t) st (lex_end ?lx (Some c) t))"
      using Cons.IH [of "p + 1" "d @ [c]" ?lx k] p Cons.prems(4,5) False by auto
    finally show ?thesis using False by auto
  qed
qed

subsection \<open>When both passes agree\<close>

text \<open>The counting pass and the rewriting pass follow quotes and comments the same way.\<close>

fun lex_agree :: "lexer \<Rightarrow> char option \<Rightarrow> string \<Rightarrow> bool" where
  "lex_agree lx prev [] = True"
| "lex_agree lx prev (c # s) \<longleftrightarrow>
     count_step prev c lx = replace_step prev c lx \<and> lex_agree (replace_step prev c lx) (Some c) s"

lemma marker_step: "count_step prev PARAM_MARKER lx = lx" "replace_step prev PARAM_MARKER lx = lx"
  by (simp_all add: count_step_def replace_step_def)

lemma agree_count: "lex_agree lx prev s \<Longrightarrow> count_loop lx prev s = mark_count lx prev s"
  by (induction s arbitrary: lx prev) (auto simp: marker_step)

lemma mark_count_none: "PARAM_MARKER \<notin> set s \<Longrightarrow> mark_count lx prev s = 0"
  by (induction s arbitrary: lx prev) auto

lemma mark_text_none: "mark_count lx prev s = 0 \<Longrightarrow> mark_text lx prev k s = s"
  by (induction s arbitrary: lx prev) (auto split: if_splits)

lemma digit_not_nul: "NUL \<notin> set (dec_digits n)"
proof (induction n rule: dec_digits.induct)
  case (1 n)
  have dc: "(of_char (digit_char d) :: nat) = 48 + d" if "d < 10" for d
    using that by (simp add: digit_char_def of_char_of take_bit_eq_mod)
  have nz: "NUL \<noteq> digit_char d" if "d < 10" for d
  proof
    assume "NUL = digit_char d"
    then have "(of_char NUL :: nat) = of_char (digit_char d)" by simp
    then show False unfolding dc [OF that] by simp
  qed
  show ?case using 1 nz [of n] nz [of "n mod 10"] by (subst dec_digits.simps) simp
qed

lemma mark_text_nul: "NUL \<notin> set s \<Longrightarrow> NUL \<notin> set (mark_text lx prev k s)"
  by (induction s arbitrary: lx prev k) (auto simp: digit_not_nul)

lemma takeWhile_no_nul:
  "NUL \<notin> set s \<Longrightarrow> takeWhile (\<lambda>c. c \<noteq> NUL) s = s"
  "NUL \<notin> set s \<Longrightarrow> takeWhile (\<lambda>c. c \<noteq> NUL) (s @ [NUL]) = s"
  by (induction s) auto

lemma text_len_nts: "NUL \<notin> set s \<Longrightarrow> text_len (s @ [NUL]) SQL_NTS_LEN = Some (length s)"
  by (simp add: text_len_def takeWhile_no_nul)

lemma clause_loop_none: "CLAUSE_START \<notin> set s \<Longrightarrow> clause_loop s = 0"
proof -
  assume "CLAUSE_START \<notin> set s"
  then have "dropWhile (\<lambda>c. c \<noteq> CLAUSE_START) s = []" by (induction s) auto
  from arg_cong [OF this, of "case_list 0 (\<lambda>_ r. if r = [] then 1 else 1 + clause_loop r)"]
  show ?thesis by (subst clause_loop.simps) simp
qed

lemma main_loop_end: "main_loop f m n bl nPM (main_at d n k st lx) = MDone (main_at d n k st lx)"
  by (subst main_loop.simps) simp

lemma replace_plain:
  assumes "NUL \<notin> set s" "CLAUSE_START \<notin> set s" "0 < nPM" "mark_count lex0 None s \<le> nPM"
  shows "replaceParamMarkerAndODBCEscapeClause st (s @ [NUL]) SQL_NTS_LEN nPM 0 = Some (mark_text lex0 None 0 s, st)"
proof -
  let ?bl = "buffer_len (length s) nPM 0"
  have "length (mark_text lex0 None 0 s) \<le> length s + mark_count lex0 None s * length (dec_digits nPM)"
    by (rule mark_text_bound) (use assms(4) in simp)
  also have "\<dots> \<le> length s + (length (dec_digits nPM) + 1) * nPM"
    using mult_le_mono [OF assms(4), of "length (dec_digits nPM)" "length (dec_digits nPM) + 1"] by (simp add: mult.commute)
  also have "\<dots> < ?bl" using assms(3) by (simp add: buffer_len_def Let_def)
  finally have b: "length (mark_text lex0 None 0 s) < ?bl" .
  have "main_loop (replaceODBCEscapeClause MAX_ESCAPE_CLAUSE_NESTING_DEPTH) (s @ [NUL]) (length s) ?bl nPM
      (main_at [] 0 0 st lex0) =
    MDone (main_at (mark_text lex0 None 0 s) (length s) (mark_count lex0 None s) st (lex_end lex0 None s))"
    using main_loop_plain [of 0 "s @ [NUL]" s "[NUL]" "length s" nPM "[]" lex0 0 ?bl] assms(2,3) b
    by (simp add: prev_char_0 main_loop_end)
  then show ?thesis
    using assms(1,3) b by (simp add: replaceParamMarkerAndODBCEscapeClause_def text_len_nts Let_def)
qed



subsection \<open>When they do not\<close>

lemma marks_quoted_dashes:
  assumes "NEW_LINE \<notin> set t" "0 < iSingleLineComment lx"
  shows "count_loop lx prev t = 0"
  using assms
proof (induction t arbitrary: lx prev)
  case Nil
  then show ?case by simp
next
  case (Cons c t)
  have "0 < iSingleLineComment (count_step prev c lx)" using Cons.prems by (auto simp: count_step_def)
  then show ?case using Cons by (simp add: outside_def)
qed

text \<open>The literal of two dashes.\<close>

definition dashes :: string where
  "dashes = quoted ''--''"

lemma dashes_chars: "dashes = [SINGLE_QUOTE, CHR ''-'', CHR ''-'', SINGLE_QUOTE]"
  by (simp add: dashes_def quoted_def)

lemma count_dashes: "count_loop lex0 None (dashes @ t) = count_loop (lex0\<lparr>iSingleLineComment := 1\<rparr>) (Some SINGLE_QUOTE) t"
  by (simp add: dashes_chars count_step_def lex0_def toggle_def outside_def)

text \<open>
  The counting pass looks for comments inside literals: behind a literal of two dashes no
  marker of the line is counted, so the statement is sent with its question marks and is taken to have
  no parameters, although the rewriting pass would have numbered them.
\<close>

theorem dashes_hide_markers:
  assumes "NEW_LINE \<notin> set t" "NUL \<notin> set t" "CLAUSE_START \<notin> set t"
  shows "checkReplaceParamMarkerAndODBCEscapeClause st (Some (dashes @ t @ [NUL])) SQL_NTS_LEN True =
    Some (Some (dashes @ t @ [NUL]), setParamMarkerCount 0 st)"
proof -
  have nul: "NUL \<notin> set (dashes @ t)" "CLAUSE_START \<notin> set (dashes @ t)" using assms by (auto simp: dashes_chars)
  have tl: "text_len (dashes @ t @ [NUL]) SQL_NTS_LEN = Some (length (dashes @ t))"
    using text_len_nts [OF nul(1)] by simp
  have "count_loop lex0 None (dashes @ t) = 0"
    unfolding count_dashes by (rule marks_quoted_dashes) (use assms in simp_all)
  then have "countParamMarkers (Some (dashes @ t @ [NUL])) SQL_NTS_LEN = Some 0"
    using tl by (simp add: countParamMarkers_def)
  moreover have "countODBCEscapeClauses st (Some (dashes @ t @ [NUL])) SQL_NTS_LEN = Some 0"
    using tl clause_loop_none [OF nul(2)] by (simp add: countODBCEscapeClauses_def)
  ultimately show ?thesis
    by (simp add: checkReplaceParamMarkerAndODBCEscapeClause_def SQL_NTS_LEN_def)
qed

lemma dashes_hide_markers_witness:
  "checkReplaceParamMarkerAndODBCEscapeClause None (Some (dashes @ '' = ?'' @ [NUL])) SQL_NTS_LEN True =
     Some (Some (dashes @ '' = ?'' @ [NUL]), None) \<and> mark_text lex0 None 0 (dashes @ '' = ?'') = dashes @ '' = $1''"
proof
  have "NEW_LINE \<notin> set '' = ?''" "NUL \<notin> set '' = ?''" "CLAUSE_START \<notin> set '' = ?''" by simp_all
  from dashes_hide_markers [OF this, of None]
  show "checkReplaceParamMarkerAndODBCEscapeClause None (Some (dashes @ '' = ?'' @ [NUL])) SQL_NTS_LEN True =
     Some (Some (dashes @ '' = ?'' @ [NUL]), None)" unfolding setParamMarkerCount_def option.map .
  show "mark_text lex0 None 0 (dashes @ '' = ?'') = dashes @ '' = $1''" by code_simp
qed

text \<open>A run of markers that does not fit makes the loop write outside the buffer.\<close>

lemma marker_run_overflows:
  assumes "drop p m = replicate r PARAM_MARKER @ t" "p + r \<le> n" "outside lx" "0 < nPM" "0 < r"
    "bl < length d + 2 * (r - 1)"
  shows "main_loop f m n bl nPM (main_at d p k st lx) = MUndefined"
  using assms
proof (induction r arbitrary: p d k)
  case 0
  then show ?case by simp
next
  case (Suc r)
  have c: "rd m p = Some PARAM_MARKER" "drop (p + 1) m = replicate r PARAM_MARKER @ t" "p < n"
    using rd_drop [of p m PARAM_MARKER "replicate r PARAM_MARKER @ t"]
      drop_next [of p m PARAM_MARKER "replicate r PARAM_MARKER @ t"] Suc.prems(1,2) by simp_all
  show ?case
  proof (cases "bl < length d")
    case True
    then have "put_str bl (length d) d s = None" for s by (simp add: put_str_def)
    then show ?thesis using c Suc.prems(3,4) by (subst main_loop.simps) (simp add: mn_store_def)
  next
    case False
    let ?d = "d @ CHR ''$'' # dec_digits (k + 1)"
    have "put_str bl (length d) d (CHR ''$'' # dec_digits (k + 1)) = Some ?d"
      by (rule put_str_fresh) (use False in simp)
    then have "main_loop f m n bl nPM (main_at d p k st lx) = main_loop f m n bl nPM (main_at ?d (p + 1) (k + 1) st lx)"
      using c Suc.prems(3,4) by (subst main_loop.simps) (simp add: mn_store_def)
    moreover have "length d + 2 \<le> length ?d" using dec_digits_ge_one [of "k + 1"] by simp
    then have "bl < length ?d + 2 * (r - 1)" "0 < r" using Suc.prems(6) False by (cases r; simp)+
    then have "main_loop f m n bl nPM (main_at ?d (p + 1) (k + 1) st lx) = MUndefined"
      using Suc.IH [of "p + 1" ?d "k + 1"] c(2) Suc.prems(2,3,4) by simp
    ultimately show ?thesis by simp
  qed
qed

lemma count_hidden_run:
  assumes "0 < iSingleLineComment lx"
  shows "count_loop lx prev (replicate n PARAM_MARKER @ t) =
    count_loop lx (if n = 0 then prev else Some PARAM_MARKER) t"
  using assms
proof (induction n arbitrary: prev)
  case 0
  then show ?case by simp
next
  case (Suc n)
  then show ?case by (simp add: marker_step outside_def)
qed

lemma count_one_marker:
  "count_loop lex0 None (dashes @ replicate n PARAM_MARKER @ [NEW_LINE, PARAM_MARKER]) = 1"
  unfolding count_dashes
  by (subst count_hidden_run) (simp_all add: count_step_def lex0_def outside_def)

lemma rewrite_dashes: "mark_text lex0 None 0 dashes = dashes" "mark_count lex0 None dashes = 0" "outside (lex_end lex0 None dashes)"
  by code_simp+

lemma replace_undefined:
  assumes "text_len m cbLen = Some n" "0 < nPM"
    "main_loop (replaceODBCEscapeClause MAX_ESCAPE_CLAUSE_NESTING_DEPTH) m n (buffer_len n nPM nEC) nPM
       (main_at [] 0 0 st lex0) = MUndefined"
  shows "replaceParamMarkerAndODBCEscapeClause st m cbLen nPM nEC = None"
  using assms by (simp add: replaceParamMarkerAndODBCEscapeClause_def Let_def)

text \<open>
  Property C28. The two passes can disagree the other way round: markers that the first pass does not
  count make no room in the buffer, but the second pass numbers them. A statement of a few thousand
  characters - a literal of two dashes, at least 2048 question marks, and a marker on the next line -
  makes the driver write beyond the buffer (with a size argument that has become negative).
\<close>

theorem hidden_markers_overflow_buffer:
  assumes "2048 \<le> n"
  shows "checkReplaceParamMarkerAndODBCEscapeClause st
    (Some (dashes @ replicate n PARAM_MARKER @ [NEW_LINE, PARAM_MARKER, NUL])) SQL_NTS_LEN True = None"
proof -
  let ?s = "dashes @ replicate n PARAM_MARKER @ [NEW_LINE, PARAM_MARKER]"
  have m: "dashes @ replicate n PARAM_MARKER @ [NEW_LINE, PARAM_MARKER, NUL] = ?s @ [NUL]" by simp
  have nul: "NUL \<notin> set ?s" "CLAUSE_START \<notin> set ?s" "CLAUSE_START \<notin> set dashes" "PARAM_MARKER \<in> set ?s"
    by (auto simp: dashes_chars)
  have tl: "text_len (?s @ [NUL]) SQL_NTS_LEN = Some (length ?s)" by (rule text_len_nts [OF nul(1)])
  have len: "length ?s = n + 6" by (simp add: dashes_chars)
  have ld: "length dashes = 4" by (simp add: dashes_chars)
  have one: "length (dec_digits 1) = 1" by code_simp
  have bln: "buffer_len (n + 6) 1 0 = (if 4096 < n + 8 then n + 9 else 4097)"
    using one by (simp add: buffer_len_def Let_def SHORT_STR_DATA_def)
  obtain bl where bl: "bl = buffer_len (length ?s) 1 0" by simp
  have small: "bl < 4 + 2 * (n - 1)" "4 < bl"
    using assms unfolding bl len bln by (cases n; simp)+
  have cnt: "countParamMarkers (Some (?s @ [NUL])) SQL_NTS_LEN = Some 1"
    using nul(4) tl count_one_marker [of n] by (simp only: countParamMarkers_def option.case tl option.map) simp
  have esc: "countODBCEscapeClauses st (Some (?s @ [NUL])) SQL_NTS_LEN = Some 0"
    using tl clause_loop_none [OF nul(2)] by (simp only: countODBCEscapeClauses_def option.case tl option.map) simp
  let ?f = "replaceODBCEscapeClause MAX_ESCAPE_CLAUSE_NESTING_DEPTH"
  have "main_loop ?f (?s @ [NUL]) (length ?s) bl 1 (main_at [] 0 0 st' lex0) =
      main_loop ?f (?s @ [NUL]) (length ?s) bl 1 (main_at dashes 4 0 st' (lex_end lex0 None dashes))" for st'
    using main_loop_plain [of 0 "?s @ [NUL]" dashes "replicate n PARAM_MARKER @ [NEW_LINE, PARAM_MARKER, NUL]"
        "length ?s" 1 "[]" lex0 0 bl ?f st'] nul(3) small(2)
    by (simp add: prev_char_0 rewrite_dashes ld)
  also have "\<dots> st' = MUndefined" for st'
    by (rule marker_run_overflows [where r = n and t = "[NEW_LINE, PARAM_MARKER, NUL]"])
      (use assms small(1) rewrite_dashes(3) in \<open>simp_all add: dashes_chars\<close>)
  finally have und: "replaceParamMarkerAndODBCEscapeClause st' (?s @ [NUL]) SQL_NTS_LEN 1 0 = None" for st'
    unfolding bl by (intro replace_undefined [OF tl]) simp
  then show ?thesis
    using cnt esc und unfolding m
    by (simp add: checkReplaceParamMarkerAndODBCEscapeClause_def SQL_NTS_LEN_def del: append_assoc)
qed

lemma hidden_markers_overflow_buffer_witness:
  "checkReplaceParamMarkerAndODBCEscapeClause None
    (Some (dashes @ replicate 5000 PARAM_MARKER @ [NEW_LINE, PARAM_MARKER, NUL])) SQL_NTS_LEN True = None"
  by (rule hidden_markers_overflow_buffer) simp

subsection \<open>Escape clauses\<close>

lemma skip_space_none: "rd m p = Some c \<Longrightarrow> \<not> c_isspace c \<Longrightarrow> skip_space m n p i = Some (p, i)"
  by (subst skip_space.simps) simp

lemma scan_token_word:
  assumes "drop p m = k @ c # r" "list_all (\<lambda>x. \<not> c_isspace x \<and> x \<noteq> NUL) k" "c_isspace c" "i + length k \<le> n"
  shows "scan_token m n [] p i = Some (p + length k, i + length k)"
  using assms
proof (induction k arbitrary: p i)
  case Nil
  then have "rd m p = Some c" using rd_drop [of p m c r] by simp
  then show ?case using Nil by (subst scan_token.simps) simp
next
  case (Cons x k)
  have h: "rd m p = Some x" "drop (p + 1) m = k @ c # r"
    using rd_drop [of p m x "k @ c # r"] drop_next [of p m x "k @ c # r"] Cons.prems(1) by simp_all
  have "scan_token m n [] p i = scan_token m n [] (p + 1) (i + 1)"
    using h(1) Cons.prems(2,4)
    by (subst scan_token.simps) (simp add: checkDelimiterForODBCEscapeClauseToken_def)
  then show ?case using Cons.IH [OF h(2)] Cons.prems(2-4) by simp
qed

text \<open>The quotes and comments of a clause's text.\<close>

fun lex_fold :: "lexer \<Rightarrow> char option \<Rightarrow> string \<Rightarrow> lexer" where
  "lex_fold lx prev [] = lx"
| "lex_fold lx prev (c # s) = lex_fold (count_step prev c lx) (Some c) s"

text \<open>Text that a clause copies as it is.\<close>

definition plain_text :: "string \<Rightarrow> bool" where
  "plain_text t \<longleftrightarrow> set t \<inter> {CLAUSE_END, PARAM_MARKER, CHR ''y'', CHR ''d'', CHR ''(''} = {}"

abbreviation copy_at :: "string \<Rightarrow> nat \<Rightarrow> nat \<Rightarrow> estmt option \<Rightarrow> lexer \<Rightarrow> bool \<Rightarrow> nat \<Rightarrow> copy_state" where
  "copy_at d p k st lx b oc \<equiv>
     \<lparr>cp_dest = d, cp_src = p, cp_pos = p, cp_param = k, cp_stmt = st, cp_lex = lx, cp_paren = b, cp_occupied = oc\<rparr>"

lemma copy_loop_plain:
  assumes "drop p m = t @ CLAUSE_END # r" "rd m (p - 1) = prev" "plain_text t" "outside (lex_fold lx prev t)"
    "p + length t < n" "length d + length t \<le> bl"
  shows "copy_loop f m n bl nPM False False (copy_at d p k st lx b oc) =
    CFound (copy_at (d @ t) (p + length t) k st (lex_fold lx prev t) b oc)"
  using assms
proof (induction t arbitrary: p d lx prev)
  case Nil
  then have "rd m p = Some CLAUSE_END" using rd_drop [of p m CLAUSE_END r] by simp
  then show ?case using Nil by (subst copy_loop.simps) simp
next
  case (Cons c t)
  have h: "rd m p = Some c" "drop (p + 1) m = t @ CLAUSE_END # r" "p < n"
    using rd_drop [of p m c "t @ CLAUSE_END # r"] drop_next [of p m c "t @ CLAUSE_END # r"] Cons.prems(1,5) by simp_all
  have c: "c \<noteq> CLAUSE_END" "c \<noteq> PARAM_MARKER" "c \<noteq> CHR ''y''" "c \<noteq> CHR ''d''" "c \<noteq> CHR ''(''" "plain_text t"
    using Cons.prems(3) by (auto simp: plain_text_def)
  have "put_char bl d c = Some (d @ [c])" using Cons.prems(6) by (simp add: put_char_def)
  then have "copy_char m bl nPM (copy_at d p k st lx b oc) = Some (copy_at (d @ [c]) (p + 1) k st (count_step prev c lx) b oc)"
    using h(1) c Cons.prems(2) by (simp add: copy_char_def cp_store_def Let_def)
  then have "copy_loop f m n bl nPM False False (copy_at d p k st lx b oc) =
      copy_loop f m n bl nPM False False (copy_at (d @ [c]) (p + 1) k st (count_step prev c lx) b oc)"
    using h c by (subst copy_loop.simps) simp
  then show ?case
    using Cons.IH [OF h(2), of "Some c" "count_step prev c lx" "d @ [c]"] h(1) c(6) Cons.prems(4-6) by simp
qed

text \<open>The keywords that are replaced by a text and need nothing else.\<close>

definition text_keys :: "(string \<times> string) list" where
  "text_keys = filter (\<lambda>(k, t). k \<noteq> ''call'' \<and> k \<noteq> ''oj'') clause_keys"

definition text_key_ok :: "string \<times> string \<Rightarrow> bool" where
  "text_key_ok = (\<lambda>(k, t). list_all (\<lambda>x. \<not> c_isspace x \<and> x \<noteq> NUL) k \<and> k \<noteq> [] \<and> t \<noteq> [] \<and> lookup_nocase clause_keys k = Some t \<and>
     \<not> nocase_eq k ''fn'' \<and> \<not> nocase_eq k ''call'')"

lemma text_keys_ok: "list_all text_key_ok text_keys"
  by code_simp



text \<open>
  The letters \<open>ds\<close>, \<open>ys\<close> and \<open>ym\<close> are taken for interval keywords everywhere in a clause,
  inside literals too: the argument \<open>'seconds'\<close> of a procedure call reaches the server as
  \<open>'seconDAY TO SECOND'\<close>; and since the source pointer then runs ahead of the index, the terminator
  of the statement is copied too.
\<close>

theorem call_clause_changes_literal:
  "checkReplaceParamMarkerAndODBCEscapeClause None
     (Some ([CLAUSE_START] @ ''call p('' @ quoted ''seconds'' @ '')'' @ [CLAUSE_END, NUL])) SQL_NTS_LEN True =
   Some (Some (''CALL  p('' @ quoted ''seconDAY TO SECOND'' @ '')'' @ [NUL]), None)"
  by code_simp

end
