(* ===== verification/Rs_Types.thy ===== *)
theory Rs_Types
  imports Rs_Copy
begin

text \<open>
  What the driver says about a SQL type (\<^verbatim>\<open>rsutil.c\<close>) and how the type of a server column is
  mapped to it (\<^verbatim>\<open>rslibpq.c\<close>). The numbers of the types, of the C types and of the type
  OIDs are those of the ODBC headers and of \<^verbatim>\<open>rsodbc.h\<close>. A \<^verbatim>\<open>switch\<close> is a chain of
  conditionals in its order; a group of labels is a set.
\<close>

subsection \<open>SQL types\<close>

abbreviation (input) "SQL_UNKNOWN_TYPE \<equiv> 0 :: int"
abbreviation (input) "SQL_CHAR \<equiv> 1 :: int"
abbreviation (input) "SQL_NUMERIC \<equiv> 2 :: int"
abbreviation (input) "SQL_DECIMAL \<equiv> 3 :: int"
abbreviation (input) "SQL_INTEGER \<equiv> 4 :: int"
abbreviation (input) "SQL_SMALLINT \<equiv> 5 :: int"
abbreviation (input) "SQL_FLOAT \<equiv> 6 :: int"
abbreviation (input) "SQL_REAL \<equiv> 7 :: int"
abbreviation (input) "SQL_DOUBLE \<equiv> 8 :: int"
abbreviation (input) "SQL_DATE \<equiv> 9 :: int"
abbreviation (input) "SQL_TIME \<equiv> 10 :: int"
abbreviation (input) "SQL_TIMESTAMP \<equiv> 11 :: int"
abbreviation (input) "SQL_VARCHAR \<equiv> 12 :: int"
abbreviation (input) "SQL_TYPE_DATE \<equiv> 91 :: int"
abbreviation (input) "SQL_TYPE_TIME \<equiv> 92 :: int"
abbreviation (input) "SQL_TYPE_TIMESTAMP \<equiv> 93 :: int"
abbreviation (input) "SQL_INTERVAL_YEAR_TO_MONTH \<equiv> 107 :: int"
abbreviation (input) "SQL_INTERVAL_DAY_TO_SECOND \<equiv> 110 :: int"
abbreviation (input) "SQL_LONGVARCHAR \<equiv> -1 :: int"
abbreviation (input) "SQL_BINARY \<equiv> -2 :: int"
abbreviation (input) "SQL_VARBINARY \<equiv> -3 :: int"
abbreviation (input) "SQL_LONGVARBINARY \<equiv> -4 :: int"
abbreviation (input) "SQL_BIGINT \<equiv> -5 :: int"
abbreviation (input) "SQL_TINYINT \<equiv> -6 :: int"
abbreviation (input) "SQL_BIT \<equiv> -7 :: int"
abbreviation (input) "SQL_WCHAR \<equiv> -8 :: int"
abbreviation (input) "SQL_WVARCHAR \<equiv> -9 :: int"
abbreviation (input) "SQL_WLONGVARCHAR \<equiv> -10 :: int"

subsection \<open>C types\<close>

abbreviation (input) "SQL_C_CHAR \<equiv> 1 :: int"
abbreviation (input) "SQL_C_WCHAR \<equiv> -8 :: int"
abbreviation (input) "SQL_C_NUMERIC \<equiv> 2 :: int"
abbreviation (input) "SQL_C_BINARY \<equiv> -2 :: int"
abbreviation (input) "SQL_C_BIT \<equiv> -7 :: int"
abbreviation (input) "SQL_C_TINYINT \<equiv> -6 :: int"
abbreviation (input) "SQL_C_STINYINT \<equiv> -26 :: int"
abbreviation (input) "SQL_C_UTINYINT \<equiv> -28 :: int"
abbreviation (input) "SQL_C_SHORT \<equiv> 5 :: int"
abbreviation (input) "SQL_C_SSHORT \<equiv> -15 :: int"
abbreviation (input) "SQL_C_USHORT \<equiv> -17 :: int"
abbreviation (input) "SQL_C_LONG \<equiv> 4 :: int"
abbreviation (input) "SQL_C_SLONG \<equiv> -16 :: int"
abbreviation (input) "SQL_C_ULONG \<equiv> -18 :: int"
abbreviation (input) "SQL_C_SBIGINT \<equiv> -25 :: int"
abbreviation (input) "SQL_C_UBIGINT \<equiv> -27 :: int"
abbreviation (input) "SQL_C_FLOAT \<equiv> 7 :: int"
abbreviation (input) "SQL_C_DOUBLE \<equiv> 8 :: int"
abbreviation (input) "SQL_C_DATE \<equiv> 9 :: int"
abbreviation (input) "SQL_C_TIME \<equiv> 10 :: int"
abbreviation (input) "SQL_C_TIMESTAMP \<equiv> 11 :: int"
abbreviation (input) "SQL_C_TYPE_DATE \<equiv> 91 :: int"
abbreviation (input) "SQL_C_TYPE_TIME \<equiv> 92 :: int"
abbreviation (input) "SQL_C_TYPE_TIMESTAMP \<equiv> 93 :: int"
abbreviation (input) "SQL_C_INTERVAL_YEAR_TO_MONTH \<equiv> 107 :: int"
abbreviation (input) "SQL_C_INTERVAL_DAY_TO_SECOND \<equiv> 110 :: int"
abbreviation (input) "SQL_C_DEFAULT \<equiv> 99 :: int"
abbreviation (input) "SQL_CODE_DATE \<equiv> 1 :: int"
abbreviation (input) "SQL_CODE_TIME \<equiv> 2 :: int"
abbreviation (input) "SQL_CODE_TIMESTAMP \<equiv> 3 :: int"

subsection \<open>Type OIDs of the server\<close>

abbreviation (input) "BOOLOID \<equiv> 16 :: int"
abbreviation (input) "CHAROID \<equiv> 18 :: int"
abbreviation (input) "NAMEOID \<equiv> 19 :: int"
abbreviation (input) "INT8OID \<equiv> 20 :: int"
abbreviation (input) "INT2OID \<equiv> 21 :: int"
abbreviation (input) "INT2VECTOROID \<equiv> 22 :: int"
abbreviation (input) "INT4OID \<equiv> 23 :: int"
abbreviation (input) "REGPROCOID \<equiv> 24 :: int"
abbreviation (input) "TEXTOID \<equiv> 25 :: int"
abbreviation (input) "OIDOID \<equiv> 26 :: int"
abbreviation (input) "TIDOID \<equiv> 27 :: int"
abbreviation (input) "XIDOID \<equiv> 28 :: int"
abbreviation (input) "CIDOID \<equiv> 29 :: int"
abbreviation (input) "OIDVECTOROID \<equiv> 30 :: int"
abbreviation (input) "FLOAT4OID \<equiv> 700 :: int"
abbreviation (input) "FLOAT8OID \<equiv> 701 :: int"
abbreviation (input) "ABSTIMEOID \<equiv> 702 :: int"
abbreviation (input) "UNKNOWNOID \<equiv> 705 :: int"
abbreviation (input) "NAMEARRAYOID \<equiv> 1003 :: int"
abbreviation (input) "INT2ARRAYOID \<equiv> 1005 :: int"
abbreviation (input) "INT4ARRAYOID \<equiv> 1007 :: int"
abbreviation (input) "TEXTARRAYOID \<equiv> 1009 :: int"
abbreviation (input) "FLOAT4ARRAYOID \<equiv> 1021 :: int"
abbreviation (input) "ACLITEMARRAYOID \<equiv> 1034 :: int"
abbreviation (input) "BPCHAROID \<equiv> 1042 :: int"
abbreviation (input) "VARCHAROID \<equiv> 1043 :: int"
abbreviation (input) "DATEOID \<equiv> 1082 :: int"
abbreviation (input) "TIMEOID \<equiv> 1083 :: int"
abbreviation (input) "TIMESTAMPOID \<equiv> 1114 :: int"
abbreviation (input) "TIMESTAMPTZOID \<equiv> 1184 :: int"
abbreviation (input) "INTERVALOID \<equiv> 1186 :: int"
abbreviation (input) "INTERVALY2MOID \<equiv> 1188 :: int"
abbreviation (input) "INTERVALD2SOID \<equiv> 1190 :: int"
abbreviation (input) "TIMETZOID \<equiv> 1266 :: int"
abbreviation (input) "NUMERICOID \<equiv> 1700 :: int"
abbreviation (input) "REFCURSOROID \<equiv> 1790 :: int"
abbreviation (input) "ANYARRAYOID \<equiv> 2277 :: int"
abbreviation (input) "VOIDOID \<equiv> 2278 :: int"
abbreviation (input) "GEOMETRY \<equiv> 3000 :: int"
abbreviation (input) "GEOGRAPHY \<equiv> 3001 :: int"
abbreviation (input) "GEOMETRYHEX \<equiv> 3999 :: int"
abbreviation (input) "SUPER \<equiv> 4000 :: int"
abbreviation (input) "VARBYTE \<equiv> 6551 :: int"

abbreviation (input) "MAX_TIMETZOID_SIZE \<equiv> 21 :: int"

subsection \<open>Sizes\<close>

definition getSize :: "int \<Rightarrow> int \<Rightarrow> int" where
  "getSize hType iSize =
     (if hType \<in> {SQL_CHAR, SQL_VARCHAR, SQL_NUMERIC, SQL_DECIMAL, SQL_LONGVARCHAR, SQL_WLONGVARCHAR,
                  SQL_LONGVARBINARY, SQL_WCHAR, SQL_WVARCHAR} then iSize
      else if hType = SQL_SMALLINT then 5
      else if hType = SQL_INTEGER then 10
      else if hType = SQL_BIGINT then 19
      else if hType = SQL_REAL then 24
      else if hType \<in> {SQL_FLOAT, SQL_DOUBLE} then 53
      else if hType \<in> {SQL_BIT, SQL_TINYINT} then 1
      else if hType \<in> {SQL_TYPE_DATE, SQL_DATE} then 10
      else if hType \<in> {SQL_TYPE_TIMESTAMP, SQL_TIMESTAMP} then 26
      else if hType = SQL_INTERVAL_YEAR_TO_MONTH then 32
      else if hType = SQL_INTERVAL_DAY_TO_SECOND then 64
      else if hType \<in> {SQL_TYPE_TIME, SQL_TIME} then 15
      else 0)"

definition getScale :: "int \<Rightarrow> int \<Rightarrow> int" where
  "getScale hType hDecimalDigits =
     (if hType \<in> {SQL_NUMERIC, SQL_DECIMAL} then hDecimalDigits
      else if hType \<in> {SQL_CHAR, SQL_VARCHAR, SQL_LONGVARCHAR, SQL_WCHAR, SQL_WVARCHAR, SQL_WLONGVARCHAR,
                       SQL_SMALLINT, SQL_INTEGER, SQL_BIGINT, SQL_REAL, SQL_FLOAT, SQL_DOUBLE, SQL_BIT,
                       SQL_TINYINT, SQL_TYPE_DATE, SQL_DATE} then 0
      else if hType \<in> {SQL_TYPE_TIMESTAMP, SQL_TIMESTAMP, SQL_TYPE_TIME, SQL_TIME,
                       SQL_INTERVAL_DAY_TO_SECOND} then 6
      else 0)"

definition getDisplaySize :: "int \<Rightarrow> int \<Rightarrow> int \<Rightarrow> int" where
  "getDisplaySize hType iSize hRsSpecialType =
     (if hType \<in> {SQL_VARCHAR, SQL_LONGVARCHAR, SQL_WVARCHAR, SQL_WLONGVARCHAR}
      then (if hRsSpecialType = TIMETZOID then MAX_TIMETZOID_SIZE else iSize)
      else if hType = SQL_LONGVARBINARY then iSize
      else if hType \<in> {SQL_CHAR, SQL_WCHAR} then iSize
      else if hType \<in> {SQL_NUMERIC, SQL_DECIMAL} then (if 0 < iSize then i32 (iSize + 2) else 0)
      else if hType \<in> {SQL_BIT, SQL_TINYINT} then 1
      else if hType = SQL_SMALLINT then 6
      else if hType = SQL_INTEGER then 11
      else if hType = SQL_BIGINT then 20
      else if hType = SQL_REAL then 13
      else if hType \<in> {SQL_FLOAT, SQL_DOUBLE} then 22
      else if hType \<in> {SQL_TYPE_DATE, SQL_DATE} then 10
      else if hType \<in> {SQL_TYPE_TIMESTAMP, SQL_TIMESTAMP} then 26
      else if hType = SQL_INTERVAL_YEAR_TO_MONTH then 32
      else if hType = SQL_INTERVAL_DAY_TO_SECOND then 64
      else if hType \<in> {SQL_TYPE_TIME, SQL_TIME} then 15
      else 0)"

text \<open>\<^verbatim>\<open>sizeof(SQL_NUMERIC_STRUCT)\<close> is 19: precision, scale and sign, and 16 bytes of digits.\<close>

definition getOctetLen :: "int \<Rightarrow> int \<Rightarrow> int \<Rightarrow> int" where
  "getOctetLen hSQLType iSize hRsSpecialType =
     (if hSQLType \<in> {SQL_VARCHAR, SQL_LONGVARCHAR}
      then (if hRsSpecialType = TIMETZOID \<and> iSize = 0 then MAX_TIMETZOID_SIZE else iSize)
      else if hSQLType \<in> {SQL_CHAR, SQL_WCHAR, SQL_WVARCHAR, SQL_WLONGVARCHAR} then iSize
      else if hSQLType = SQL_LONGVARBINARY then iSize
      else if hSQLType = SQL_NUMERIC then (if 0 < iSize then i32 (iSize + 2) else 19)
      else if hSQLType \<in> {SQL_BIT, SQL_TINYINT} then 1
      else if hSQLType = SQL_SMALLINT then 2
      else if hSQLType = SQL_INTEGER then 4
      else if hSQLType = SQL_BIGINT then 20
      else if hSQLType = SQL_REAL then 4
      else if hSQLType \<in> {SQL_FLOAT, SQL_DOUBLE} then 8
      else if hSQLType \<in> {SQL_TYPE_DATE, SQL_DATE} then 6
      else if hSQLType \<in> {SQL_TYPE_TIMESTAMP, SQL_TIMESTAMP} then 16
      else if hSQLType = SQL_INTERVAL_YEAR_TO_MONTH then 8
      else if hSQLType = SQL_INTERVAL_DAY_TO_SECOND then 20
      else if hSQLType \<in> {SQL_TYPE_TIME, SQL_TIME} then 6
      else 0)"

definition getOctetLenUsingCType :: "int \<Rightarrow> int \<Rightarrow> int" where
  "getOctetLenUsingCType hCType iSize =
     (if hCType = SQL_C_CHAR then iSize
      else if hCType = SQL_C_WCHAR then iSize
      else if hCType = SQL_C_NUMERIC then 19
      else if hCType \<in> {SQL_C_BIT, SQL_C_TINYINT, SQL_C_STINYINT, SQL_C_UTINYINT} then 1
      else if hCType \<in> {SQL_C_SHORT, SQL_C_SSHORT, SQL_C_USHORT} then 2
      else if hCType \<in> {SQL_C_LONG, SQL_C_ULONG, SQL_C_SLONG} then 4
      else if hCType \<in> {SQL_C_SBIGINT, SQL_C_UBIGINT} then 8
      else if hCType = SQL_C_FLOAT then 4
      else if hCType = SQL_C_DOUBLE then 8
      else if hCType \<in> {SQL_C_TYPE_DATE, SQL_C_DATE} then 6
      else if hCType \<in> {SQL_C_TYPE_TIMESTAMP, SQL_C_TIMESTAMP} then 16
      else if hCType = SQL_C_INTERVAL_YEAR_TO_MONTH then 8
      else if hCType = SQL_C_INTERVAL_DAY_TO_SECOND then 20
      else if hCType \<in> {SQL_C_TYPE_TIME, SQL_C_TIME} then 6
      else 0)"

definition getPrecision :: "int \<Rightarrow> int \<Rightarrow> int \<Rightarrow> int" where
  "getPrecision hType iSize hRsSpecialType =
     (if hType \<in> {SQL_VARCHAR, SQL_WVARCHAR, SQL_LONGVARCHAR, SQL_WLONGVARCHAR}
      then (if hRsSpecialType = TIMETZOID then MAX_TIMETZOID_SIZE else 0)
      else if hType = SQL_LONGVARBINARY then 0
      else if hType \<in> {SQL_CHAR, SQL_WCHAR, SQL_BIT, SQL_TINYINT} then 0
      else if hType \<in> {SQL_NUMERIC, SQL_DECIMAL} then iSize
      else if hType = SQL_SMALLINT then 5
      else if hType = SQL_INTEGER then 10
      else if hType = SQL_BIGINT then 19
      else if hType \<in> {SQL_REAL, SQL_FLOAT} then 15
      else if hType = SQL_DOUBLE then 53
      else if hType \<in> {SQL_TYPE_DATE, SQL_DATE} then 10
      else if hType \<in> {SQL_TYPE_TIMESTAMP, SQL_TIMESTAMP} then 26
      else if hType = SQL_INTERVAL_YEAR_TO_MONTH then 32
      else if hType = SQL_INTERVAL_DAY_TO_SECOND then 64
      else if hType \<in> {SQL_TYPE_TIME, SQL_TIME} then 15
      else 0)"

definition getParamSize :: "int \<Rightarrow> int" where
  "getParamSize hType =
     (if hType \<in> {SQL_CHAR, SQL_WCHAR, SQL_VARCHAR, SQL_WVARCHAR, SQL_LONGVARCHAR, SQL_WLONGVARCHAR} then 65535
      else if hType \<in> {SQL_NUMERIC, SQL_DECIMAL} then 1000
      else if hType \<in> {SQL_BIT, SQL_TINYINT} then 1
      else if hType = SQL_SMALLINT then 5
      else if hType = SQL_INTEGER then 10
      else if hType = SQL_BIGINT then 19
      else if hType = SQL_REAL then 15
      else if hType \<in> {SQL_FLOAT, SQL_DOUBLE} then 53
      else if hType \<in> {SQL_TYPE_DATE, SQL_DATE} then 10
      else if hType \<in> {SQL_TYPE_TIMESTAMP, SQL_TIMESTAMP} then 26
      else if hType = SQL_INTERVAL_YEAR_TO_MONTH then 32
      else if hType = SQL_INTERVAL_DAY_TO_SECOND then 64
      else if hType \<in> {SQL_TYPE_TIME, SQL_TIME} then 15
      else 0)"

definition getParamScale :: "int \<Rightarrow> int" where
  "getParamScale hType =
     (if hType \<in> {SQL_NUMERIC, SQL_DECIMAL} then 5000
      else if hType \<in> {SQL_CHAR, SQL_WCHAR, SQL_VARCHAR, SQL_LONGVARCHAR, SQL_WVARCHAR, SQL_WLONGVARCHAR,
                       SQL_SMALLINT, SQL_INTEGER, SQL_BIGINT, SQL_REAL, SQL_FLOAT, SQL_DOUBLE, SQL_BIT,
                       SQL_TINYINT, SQL_TYPE_DATE, SQL_DATE} then 0
      else if hType \<in> {SQL_TYPE_TIMESTAMP, SQL_TIMESTAMP} then 6
      else if hType = SQL_INTERVAL_DAY_TO_SECOND then 6
      else if hType \<in> {SQL_TYPE_TIME, SQL_TIME} then 6
      else 0)"

subsection \<open>Other attributes of a type\<close>

definition getCaseSensitive :: "int \<Rightarrow> int \<Rightarrow> int \<Rightarrow> int" where
  "getCaseSensitive hType hRsSpecialType case_sensitive_bit =
     (if hType \<in> {SQL_NUMERIC, SQL_DECIMAL, SQL_SMALLINT, SQL_INTEGER, SQL_BIGINT, SQL_REAL, SQL_FLOAT,
                  SQL_DOUBLE, SQL_BIT, SQL_TINYINT, SQL_TYPE_DATE, SQL_TYPE_TIMESTAMP, SQL_TYPE_TIME, SQL_DATE,
                  SQL_TIMESTAMP, SQL_TIME, SQL_LONGVARBINARY, SQL_INTERVAL_YEAR_TO_MONTH,
                  SQL_INTERVAL_DAY_TO_SECOND} then 0
      else if hType \<in> {SQL_VARCHAR, SQL_WVARCHAR, SQL_LONGVARCHAR, SQL_WLONGVARCHAR}
      then (if hRsSpecialType = TIMETZOID then 0
            else if case_sensitive_bit \<noteq> -1 then of_cbool (case_sensitive_bit = 1) else 1)
      else if hType \<in> {SQL_CHAR, SQL_WCHAR} then 1
      else 0)"

definition getNumPrecRadix :: "int \<Rightarrow> int" where
  "getNumPrecRadix hType =
     (if hType \<in> {SQL_NUMERIC, SQL_DECIMAL, SQL_SMALLINT, SQL_INTEGER, SQL_BIGINT} then 10
      else if hType \<in> {SQL_REAL, SQL_FLOAT, SQL_DOUBLE} then 2
      else if hType = SQL_LONGVARBINARY then 2
      else 0)"

text \<open>\<^verbatim>\<open>SQL_PRED_NONE\<close> is 0, \<^verbatim>\<open>SQL_PRED_BASIC\<close> 2, \<^verbatim>\<open>SQL_PRED_SEARCHABLE\<close> 3.\<close>

definition getSearchable :: "int \<Rightarrow> int \<Rightarrow> int" where
  "getSearchable hType hRsSpecialType =
     (if hType \<in> {SQL_NUMERIC, SQL_DECIMAL, SQL_SMALLINT, SQL_INTEGER, SQL_BIGINT, SQL_REAL, SQL_FLOAT,
                  SQL_DOUBLE, SQL_BIT, SQL_TINYINT, SQL_TYPE_DATE, SQL_TYPE_TIMESTAMP, SQL_TYPE_TIME, SQL_DATE,
                  SQL_TIMESTAMP, SQL_TIME, SQL_INTERVAL_YEAR_TO_MONTH, SQL_INTERVAL_DAY_TO_SECOND} then 2
      else if hType \<in> {SQL_VARCHAR, SQL_WVARCHAR, SQL_LONGVARCHAR, SQL_WLONGVARCHAR}
      then (if hRsSpecialType = TIMETZOID then 2 else 3)
      else if hType \<in> {SQL_CHAR, SQL_WCHAR} then 3
      else if hType = SQL_LONGVARBINARY then 3
      else 0)"

text \<open>\<^verbatim>\<open>SQL_NAMED\<close> is 0, \<^verbatim>\<open>SQL_UNNAMED\<close> 1; the name is a buffer, \<open>None\<close> for \<^verbatim>\<open>NULL\<close>.\<close>

definition getUnNamed :: "byte list option \<Rightarrow> int" where
  "getUnNamed pName = (case pName of Some (b # bs) \<Rightarrow> if b \<noteq> 0 then 0 else 1 | _ \<Rightarrow> 1)"

definition getUnsigned :: "int \<Rightarrow> int" where
  "getUnsigned hType =
     (if hType \<in> {SQL_NUMERIC, SQL_DECIMAL, SQL_SMALLINT, SQL_INTEGER, SQL_BIGINT, SQL_REAL, SQL_FLOAT,
                  SQL_DOUBLE} then 0
      else if hType \<in> {SQL_CHAR, SQL_WCHAR, SQL_VARCHAR, SQL_WVARCHAR, SQL_BIT, SQL_TINYINT, SQL_TYPE_DATE,
                       SQL_TYPE_TIMESTAMP, SQL_TYPE_TIME, SQL_DATE, SQL_TIMESTAMP, SQL_TIME, SQL_LONGVARCHAR,
                       SQL_WLONGVARCHAR} then 1
      else 0)"

definition getUpdatable :: int where "getUpdatable = 2"

subsection \<open>Texts\<close>

definition ascii :: "string \<Rightarrow> byte list" where
  "ascii s = map (\<lambda>c. word_of_nat (of_char c)) s"

definition rs_strncpy :: "byte list \<Rightarrow> byte list \<Rightarrow> nat \<Rightarrow> byte list option" where
  "rs_strncpy dest src n = store_str dest (Some src) (if n = 0 then length (c_str src) else min (length (c_str src)) (n - 1))"

definition literal_quote :: "byte list \<Rightarrow> bool \<Rightarrow> byte list option" where
  "literal_quote pBuf quote = (if quote then rs_strncpy pBuf (ascii [CHR 0x27] @ [0]) 2 else put_at pBuf 0 [0])"

definition getLiteralPrefix :: "int \<Rightarrow> byte list \<Rightarrow> int \<Rightarrow> byte list option" where
  "getLiteralPrefix hType pBuf hRsSpecialType =
     literal_quote pBuf
       (if hType \<in> {SQL_VARCHAR, SQL_WVARCHAR, SQL_LONGVARCHAR, SQL_WLONGVARCHAR} then hRsSpecialType \<noteq> TIMETZOID
        else if hType = SQL_LONGVARBINARY then hRsSpecialType = VARBYTE
        else hType \<in> {SQL_CHAR, SQL_WCHAR})"

definition getLiteralSuffix :: "int \<Rightarrow> byte list \<Rightarrow> int \<Rightarrow> byte list option" where
  "getLiteralSuffix hType pBuf hRsSpecialType =
     literal_quote pBuf
       (if hType \<in> {SQL_VARCHAR, SQL_WVARCHAR, SQL_LONGVARCHAR, SQL_WLONGVARCHAR} then hRsSpecialType \<noteq> TIMETZOID
        else if hType = SQL_LONGVARBINARY then hRsSpecialType = VARBYTE
        else hType \<in> {SQL_CHAR, SQL_WCHAR})"

definition type_text :: "int \<Rightarrow> int \<Rightarrow> string option" where
  "type_text hType hRsSpecialType =
     (if hType = SQL_NUMERIC then Some ''NUMERIC''
      else if hType = SQL_DECIMAL then Some ''DECIMAL''
      else if hType = SQL_SMALLINT then Some ''SMALLINT''
      else if hType = SQL_INTEGER then Some ''INTEGER''
      else if hType = SQL_BIGINT then Some ''BIGINT''
      else if hType = SQL_REAL then Some ''REAL''
      else if hType \<in> {SQL_FLOAT, SQL_DOUBLE} then Some ''DOUBLE PRECISION''
      else if hType \<in> {SQL_BIT, SQL_TINYINT} then Some ''BOOL''
      else if hType \<in> {SQL_TYPE_DATE, SQL_DATE} then Some ''DATE''
      else if hType \<in> {SQL_TYPE_TIMESTAMP, SQL_TIMESTAMP}
      then (if hRsSpecialType = TIMESTAMPTZOID then Some ''TIMESTAMPTZ'' else Some ''TIMESTAMP'')
      else if hType = SQL_INTERVAL_YEAR_TO_MONTH then Some ''INTERVALY2M''
      else if hType = SQL_INTERVAL_DAY_TO_SECOND then Some ''INTERVALD2S''
      else if hType \<in> {SQL_TYPE_TIME, SQL_TIME}
      then (if hRsSpecialType = TIMETZOID then Some ''TIMETZ'' else Some ''TIME'')
      else if hType \<in> {SQL_CHAR, SQL_WCHAR} then Some ''CHARACTER''
      else if hType \<in> {SQL_VARCHAR, SQL_LONGVARCHAR, SQL_WVARCHAR, SQL_WLONGVARCHAR}
      then (if hRsSpecialType = SUPER then Some ''SUPER'' else Some ''CHARACTER VARYING'')
      else if hType = SQL_LONGVARBINARY
      then (if hRsSpecialType = VARBYTE then Some ''VARBYTE''
            else if hRsSpecialType = GEOGRAPHY then Some ''GEOGRAPHY''
            else if hRsSpecialType = GEOMETRY \<or> hRsSpecialType = GEOMETRYHEX then Some ''GEOMETRY''
            else Some ''BINARY'')
      else None)"

definition getTypeName :: "int \<Rightarrow> byte list \<Rightarrow> nat \<Rightarrow> int \<Rightarrow> byte list option" where
  "getTypeName hType pBuf bufLen hRsSpecialType =
     (case type_text hType hRsSpecialType of
        Some t \<Rightarrow> rs_strncpy pBuf (ascii t @ [0]) bufLen
      | None \<Rightarrow> put_at pBuf 0 [0])"

subsection \<open>C types and concise types\<close>

text \<open>The second value is \<^verbatim>\<open>*piConversionError\<close>.\<close>

definition getDefaultCTypeFromSQLType :: "int \<Rightarrow> int \<times> bool" where
  "getDefaultCTypeFromSQLType hSQLType =
     (if hSQLType \<in> {SQL_CHAR, SQL_VARCHAR, SQL_LONGVARCHAR, SQL_NUMERIC, SQL_DECIMAL} then (SQL_C_CHAR, False)
      else if hSQLType \<in> {SQL_WCHAR, SQL_WVARCHAR, SQL_WLONGVARCHAR} then (SQL_C_WCHAR, False)
      else if hSQLType = SQL_SMALLINT then (SQL_C_SHORT, False)
      else if hSQLType = SQL_INTEGER then (SQL_C_LONG, False)
      else if hSQLType = SQL_BIGINT then (SQL_C_SBIGINT, False)
      else if hSQLType = SQL_REAL then (SQL_C_FLOAT, False)
      else if hSQLType \<in> {SQL_FLOAT, SQL_DOUBLE} then (SQL_C_DOUBLE, False)
      else if hSQLType = SQL_BIT then (SQL_C_BIT, False)
      else if hSQLType \<in> {SQL_BINARY, SQL_VARBINARY, SQL_LONGVARBINARY} then (SQL_C_BINARY, False)
      else if hSQLType = SQL_TINYINT then (SQL_C_TINYINT, False)
      else if hSQLType = SQL_TYPE_DATE then (SQL_C_TYPE_DATE, False)
      else if hSQLType = SQL_TYPE_TIMESTAMP then (SQL_C_TYPE_TIMESTAMP, False)
      else if hSQLType = SQL_INTERVAL_YEAR_TO_MONTH then (SQL_C_INTERVAL_YEAR_TO_MONTH, False)
      else if hSQLType = SQL_INTERVAL_DAY_TO_SECOND then (SQL_C_INTERVAL_DAY_TO_SECOND, False)
      else if hSQLType = SQL_TYPE_TIME then (SQL_C_TYPE_TIME, False)
      else if hSQLType = SQL_DATE then (SQL_C_DATE, False)
      else if hSQLType = SQL_TIMESTAMP then (SQL_C_TIMESTAMP, False)
      else if hSQLType = SQL_TIME then (SQL_C_TIME, False)
      else (SQL_C_DEFAULT, True))"

definition getConciseType :: "int \<Rightarrow> int \<Rightarrow> int" where
  "getConciseType hConciseType hType =
     (if hConciseType = 0 then
        (if hType \<in> {SQL_DATE, SQL_TYPE_DATE} then SQL_TYPE_DATE
         else if hType \<in> {SQL_TYPE_TIME, SQL_TIME} then SQL_TYPE_TIME
         else if hType \<in> {SQL_TIMESTAMP, SQL_TYPE_TIMESTAMP} then SQL_TYPE_TIMESTAMP
         else hType)
      else hConciseType)"

definition getDateTimeIntervalCode :: "int \<Rightarrow> int \<Rightarrow> int" where
  "getDateTimeIntervalCode hDateTimeIntervalCode hType =
     (if hDateTimeIntervalCode = 0 then
        (if hType = SQL_TYPE_DATE \<or> hType = SQL_DATE then SQL_CODE_DATE
         else if hType = SQL_TYPE_TIMESTAMP \<or> hType = SQL_TIMESTAMP then SQL_CODE_TIMESTAMP
         else if hType = SQL_TYPE_TIME \<or> hType = SQL_TIME then SQL_CODE_TIME
         else hDateTimeIntervalCode)
      else hDateTimeIntervalCode)"

definition getCTypeFromConciseType :: "int \<Rightarrow> int \<Rightarrow> int \<Rightarrow> int" where
  "getCTypeFromConciseType hConciseType hDateTimeIntervalCode hType =
     (if hType = 0 \<or> hType = SQL_C_DEFAULT then
        (if hConciseType \<noteq> 0 then
           (if hConciseType = SQL_C_DATE then
              (if hDateTimeIntervalCode = SQL_CODE_DATE then SQL_C_DATE
               else if hDateTimeIntervalCode = SQL_CODE_TIMESTAMP then SQL_C_TIMESTAMP
               else SQL_C_DATE)
            else hConciseType)
         else SQL_C_DEFAULT)
      else hType)"

subsection \<open>Types of server columns\<close>

text \<open>The SQL type, and the type OID that the driver treats specially (0 for none).\<close>

definition mapPgTypeToSqlType :: "int \<Rightarrow> bool \<Rightarrow> int \<times> int" where
  "mapPgTypeToSqlType pgType useUnicode =
     (if pgType = BOOLOID then (SQL_BIT, 0)
      else if pgType \<in> {CHAROID, BPCHAROID} then (if useUnicode then SQL_WCHAR else SQL_CHAR, 0)
      else if pgType \<in> {INT8OID, XIDOID} then (SQL_BIGINT, 0)
      else if pgType = INT2OID then (SQL_SMALLINT, 0)
      else if pgType \<in> {INT4OID, OIDOID, CIDOID} then (SQL_INTEGER, 0)
      else if pgType = FLOAT4OID then (SQL_REAL, 0)
      else if pgType = FLOAT8OID then (SQL_DOUBLE, 0)
      else if pgType \<in> {VARCHAROID, NAMEOID, VOIDOID, INT2VECTOROID, REGPROCOID, TIDOID, OIDVECTOROID, ABSTIMEOID,
                        INT2ARRAYOID, INT4ARRAYOID, NAMEARRAYOID, TEXTARRAYOID, FLOAT4ARRAYOID, ACLITEMARRAYOID,
                        ANYARRAYOID, INTERVALOID, TEXTOID} then (if useUnicode then SQL_WVARCHAR else SQL_VARCHAR, 0)
      else if pgType = DATEOID then (SQL_TYPE_DATE, 0)
      else if pgType = TIMESTAMPOID then (SQL_TYPE_TIMESTAMP, 0)
      else if pgType = NUMERICOID then (SQL_NUMERIC, 0)
      else if pgType = REFCURSOROID then (if useUnicode then SQL_WVARCHAR else SQL_VARCHAR, 0)
      else if pgType = TIMEOID then (SQL_TYPE_TIME, 0)
      else if pgType = TIMETZOID then (SQL_TYPE_TIME, TIMETZOID)
      else if pgType = TIMESTAMPTZOID then (SQL_TYPE_TIMESTAMP, TIMESTAMPTZOID)
      else if pgType = INTERVALY2MOID then (SQL_INTERVAL_YEAR_TO_MONTH, 0)
      else if pgType = INTERVALD2SOID then (SQL_INTERVAL_DAY_TO_SECOND, 0)
      else if pgType = SUPER then (if useUnicode then SQL_WLONGVARCHAR else SQL_LONGVARCHAR, SUPER)
      else if pgType = VARBYTE then (SQL_LONGVARBINARY, VARBYTE)
      else if pgType = GEOGRAPHY then (SQL_LONGVARBINARY, GEOGRAPHY)
      else if pgType = GEOMETRY then (SQL_LONGVARBINARY, GEOMETRY)
      else if pgType = GEOMETRYHEX then (SQL_LONGVARBINARY, GEOMETRYHEX)
      else if pgType = UNKNOWNOID then (if useUnicode then SQL_WVARCHAR else SQL_VARCHAR, 0)
      else (SQL_UNKNOWN_TYPE, 0))"

end
