(* ===== verification/Rs_Columns.thy ===== *)
theory Rs_Columns
  imports Rs_Types
begin

text \<open>
  Descriptor records of result columns and of parameters: how they are filled from what the server
  says (\<^verbatim>\<open>rslibpq.c\<close>), and how \<^verbatim>\<open>SQLDescribeCol\<close> and \<^verbatim>\<open>SQLColAttribute\<close> (\<^verbatim>\<open>rsresult.cpp\<close>)
  report them to the application.
\<close>

abbreviation (input) "MAX_IDEN_LEN \<equiv> 129 :: nat"

text \<open>
  \<^verbatim>\<open>RS_DESC_REC\<close>, as far as results and parameters use it. A character array is a list of
  bytes of its size; the records of a result are a list, in the order of their links.
\<close>

record desc_rec =
  d_hRecNumber :: int
  d_szName :: "byte list"
  d_hType :: int
  d_iSize :: int
  d_hScale :: int
  d_hNullable :: int
  d_cAutoInc :: int
  d_szTableName :: "byte list"
  d_cCaseSensitive :: int
  d_szCatalogName :: "byte list"
  d_iDisplaySize :: int
  d_cFixedPrecScale :: int
  d_szLiteralPrefix :: "byte list"
  d_szLiteralSuffix :: "byte list"
  d_szTypeName :: "byte list"
  d_iNumPrecRadix :: int
  d_iOctetLen :: int
  d_iPrecision :: int
  d_szSchemaName :: "byte list"
  d_iSearchable :: int
  d_iUnNamed :: int
  d_cUnsigned :: int
  d_iUpdatable :: int
  d_hConciseType :: int
  d_hRsSpecialType :: int

text \<open>A record of \<^verbatim>\<open>rs_calloc\<close>.\<close>

definition zero_rec :: desc_rec where
  "zero_rec =
     \<lparr>d_hRecNumber = 0, d_szName = replicate (MAX_IDEN_LEN + 1) 0, d_hType = 0, d_iSize = 0, d_hScale = 0,
      d_hNullable = 0, d_cAutoInc = 0, d_szTableName = replicate (MAX_IDEN_LEN + 1) 0, d_cCaseSensitive = 0,
      d_szCatalogName = replicate (MAX_IDEN_LEN + 1) 0, d_iDisplaySize = 0, d_cFixedPrecScale = 0,
      d_szLiteralPrefix = replicate 2 0, d_szLiteralSuffix = replicate 2 0,
      d_szTypeName = replicate (MAX_IDEN_LEN + 1) 0, d_iNumPrecRadix = 0, d_iOctetLen = 0, d_iPrecision = 0,
      d_szSchemaName = replicate (MAX_IDEN_LEN + 1) 0, d_iSearchable = 0, d_iUnNamed = 0, d_cUnsigned = 0,
      d_iUpdatable = 0, d_hConciseType = 0, d_hRsSpecialType = 0\<rparr>"

text \<open>
  What the server says of a column: \<^verbatim>\<open>PQfname\<close>, \<^verbatim>\<open>PQftype\<close>, \<^verbatim>\<open>PQfmod\<close> and so on. Names
  are memory with their terminator.
\<close>

record pg_column =
  a_name :: "byte list option"
  a_type :: int
  a_mod :: int
  a_nullable :: int
  a_auto_increment :: int
  a_catalog :: "byte list option"
  a_schema :: "byte list option"
  a_table :: "byte list option"
  a_case_sensitive :: int

record conn_props =
  p_iUseUnicode :: bool
  p_iMaxVarcharSize :: int
  p_iMaxLongVarcharSize :: int
  p_iLoggedVarcharSkip :: bool
  p_iLoggedVarcharPromotion :: bool

subsection \<open>Promotion of long character columns\<close>

text \<open>\<open>None\<close>: the properties are \<^verbatim>\<open>NULL\<close> and read.\<close>

definition applyVarcharPromotion ::
  "desc_rec \<Rightarrow> conn_props option \<Rightarrow> (desc_rec \<times> conn_props option) option" where
  "applyVarcharPromotion r props =
     (if d_hType r \<notin> {SQL_VARCHAR, SQL_CHAR, SQL_WVARCHAR, SQL_WCHAR} then Some (r, props)
      else case props of
        None \<Rightarrow> None
      | Some p \<Rightarrow>
          if p_iMaxVarcharSize p \<le> 0 \<or> d_iSize r \<le> p_iMaxVarcharSize p
          then Some (r, Some (p\<lparr>p_iLoggedVarcharSkip := True\<rparr>))
          else (let t = (if d_hType r \<in> {SQL_WVARCHAR, SQL_WCHAR} then SQL_WLONGVARCHAR else SQL_LONGVARCHAR);
                    r1 = r\<lparr>d_hType := t, d_hConciseType := t\<rparr>;
                    r2 = (if 0 < p_iMaxLongVarcharSize p then r1\<lparr>d_iSize := p_iMaxLongVarcharSize p\<rparr> else r1)
                in Some (r2, Some (p\<lparr>p_iLoggedVarcharPromotion := True\<rparr>))))"

definition getUnknownTypeSize :: "int \<Rightarrow> int" where
  "getUnknownTypeSize pgType =
     (if pgType \<in> {REFCURSOROID, VOIDOID, INT2VECTOROID, REGPROCOID, TIDOID, OIDVECTOROID, ABSTIMEOID, INT2ARRAYOID,
                   TEXTARRAYOID, FLOAT4ARRAYOID, ACLITEMARRAYOID, ANYARRAYOID} then 65535
      else if pgType \<in> {INT4ARRAYOID, INTERVALOID} then 255
      else if pgType = TIMESTAMPTZOID then 34
      else 0)"

subsection \<open>Description of a result\<close>

text \<open>The size of a column by its type and type modifier.\<close>

definition column_size :: "int \<Rightarrow> int \<Rightarrow> int \<Rightarrow> int" where
  "column_size pgType hType pgMod =
     (if pgMod < 0 then
        (if pgType = NAMEOID then 128
         else if pgType = TIMETZOID then MAX_TIMETZOID_SIZE
         else if pgType = REFCURSOROID \<or> pgType = VOIDOID then 65535
         else if pgType = TIMESTAMPTZOID then 35
         else if pgType = INTERVALY2MOID then 32
         else if pgType = INTERVALD2SOID then 64
         else if pgType = SUPER then 4194304
         else if pgType = VARBYTE then 1024000
         else if pgType = GEOMETRY \<or> pgType = GEOMETRYHEX then 1024000
         else if pgType = GEOGRAPHY then 1048316
         else 0)
      else if hType = SQL_NUMERIC \<or> hType = SQL_DECIMAL then take_bit 16 (drop_bit 16 pgMod)
      else if pgType = TIMETZOID then MAX_TIMETZOID_SIZE
      else i32 (pgMod - 4))"

definition column_scale :: "int \<Rightarrow> int \<Rightarrow> int" where
  "column_scale hType pgMod =
     (if hType = SQL_NUMERIC \<or> hType = SQL_DECIMAL
      then (if pgMod = -1 then 0 else i16 (take_bit 16 pgMod - 4)) else 0)"

definition strupr :: "byte list \<Rightarrow> byte list" where
  "strupr buf = map (\<lambda>b. if 97 \<le> b \<and> b \<le> 122 then b - 32 else b) (takeWhile (\<lambda>b. b \<noteq> 0) buf) @
     dropWhile (\<lambda>b. b \<noteq> 0) buf"

text \<open>A name is copied, in upper case for a catalog query.\<close>

definition copy_name :: "bool \<Rightarrow> byte list option \<Rightarrow> byte list \<Rightarrow> byte list option" where
  "copy_name upper src buf =
     Option.bind (copyStrDataSmallLen src SQL_NTS (Some buf) (int MAX_IDEN_LEN) False) (\<lambda>(_, d, _).
       map_option (if upper then strupr else id) d)"

definition copy_opt_name :: "bool \<Rightarrow> byte list option \<Rightarrow> byte list \<Rightarrow> byte list option" where
  "copy_opt_name upper src buf = (if src \<noteq> None then copy_name upper src buf else put_at buf 0 [0])"

text \<open>
  The statement of the result, if it has one: whether it is a catalog query, and the connection's
  properties (\<open>None\<close> when the pointer is \<^verbatim>\<open>NULL\<close>).
\<close>

record res_stmt =
  q_catalogQuery :: bool
  q_props :: "conn_props option"

record res_info =
  ri_recs :: "desc_rec list"
  ri_index :: "byte list \<Rightarrow> int option"
  ri_refCursor :: bool
  ri_stmt :: "res_stmt option"

definition promote :: "desc_rec \<Rightarrow> res_stmt option \<Rightarrow> (desc_rec \<times> res_stmt option) option" where
  "promote r st =
     (case st of
        None \<Rightarrow> Some (r, None)
      | Some q \<Rightarrow> map_option (\<lambda>(r', p'). (r', Some (q\<lparr>q_props := p'\<rparr>))) (applyVarcharPromotion r (q_props q)))"

text \<open>The attributes that follow from the type, once it is final.\<close>

definition type_attributes :: "pg_column \<Rightarrow> desc_rec \<Rightarrow> desc_rec option" where
  "type_attributes a r =
     (let t = d_hType r; sp = d_hRsSpecialType r in
      Option.bind (getLiteralPrefix t (d_szLiteralPrefix r) sp) (\<lambda>lp.
      Option.bind (getLiteralSuffix t (d_szLiteralSuffix r) sp) (\<lambda>ls.
      Option.bind (getTypeName t (d_szTypeName r) (MAX_IDEN_LEN + 1) sp) (\<lambda>tn.
        Some (r\<lparr>d_cCaseSensitive := getCaseSensitive t sp (a_case_sensitive a),
                d_iDisplaySize := getDisplaySize t (d_iSize r) sp,
                d_cFixedPrecScale := 0,
                d_szLiteralPrefix := lp, d_szLiteralSuffix := ls, d_szTypeName := tn,
                d_iNumPrecRadix := getNumPrecRadix t,
                d_iOctetLen := getOctetLen t (d_iSize r) sp,
                d_iPrecision := getPrecision t (d_iSize r) sp,
                d_iSearchable := getSearchable t sp,
                d_iUnNamed := getUnNamed (Some (d_szName r)),
                d_cUnsigned := getUnsigned t,
                d_iUpdatable := getUpdatable\<rparr>)))))"

text \<open>The part of the column's loop body up to the promotion.\<close>

definition typed_rec :: "bool \<Rightarrow> nat \<Rightarrow> pg_column \<Rightarrow> byte list \<Rightarrow> desc_rec" where
  "typed_rec useUnicode col a nm =
     (case mapPgTypeToSqlType (a_type a) useUnicode of (t, sp) \<Rightarrow>
        zero_rec\<lparr>d_hRecNumber := i16 (int col + 1), d_szName := nm, d_hType := t, d_hRsSpecialType := sp,
                 d_iSize := column_size (a_type a) t (a_mod a), d_hScale := column_scale t (a_mod a)\<rparr>)"

definition res_unicode :: "res_info \<Rightarrow> bool" where
  "res_unicode ri =
     (case ri_stmt ri of None \<Rightarrow> False | Some q \<Rightarrow> (case q_props q of None \<Rightarrow> False | Some p \<Rightarrow> p_iUseUnicode p))"

definition describe_column :: "bool \<Rightarrow> nat \<Rightarrow> pg_column \<Rightarrow> res_info \<Rightarrow> res_info option" where
  "describe_column iFetchRefCursor col a ri =
     (let up = (case ri_stmt ri of Some q \<Rightarrow> q_catalogQuery q | None \<Rightarrow> False) in
      Option.bind (a_name a) (\<lambda>name.
      Option.bind (copy_name up (Some name) (d_szName zero_rec)) (\<lambda>nm.
      Option.bind (promote (typed_rec (res_unicode ri) col a nm) (ri_stmt ri)) (\<lambda>(r1, st').
      Option.bind (copy_opt_name up (a_catalog a) (d_szCatalogName r1)) (\<lambda>ct.
      Option.bind (copy_opt_name up (a_schema a) (d_szSchemaName r1)) (\<lambda>sc.
      Option.bind (copy_opt_name up (a_table a) (d_szTableName r1)) (\<lambda>tb.
      Option.bind (type_attributes a
          (r1\<lparr>d_hNullable := i16 (a_nullable a), d_cAutoInc := of_cbool (a_auto_increment a = 1),
              d_szCatalogName := ct, d_szSchemaName := sc, d_szTableName := tb\<rparr>)) (\<lambda>r2.
        Some (ri\<lparr>ri_recs := ri_recs ri @ [r2], ri_index := (ri_index ri)(c_str name \<mapsto> int col + 1),
                 ri_refCursor := ri_refCursor ri \<or> iFetchRefCursor \<and> a_type a = REFCURSOROID,
                 ri_stmt := st'\<rparr>)))))))))"

fun describe_columns :: "bool \<Rightarrow> nat \<Rightarrow> pg_column list \<Rightarrow> res_info \<Rightarrow> res_info option" where
  "describe_columns iFetchRefCursor col [] ri = Some ri"
| "describe_columns iFetchRefCursor col (a # as) ri =
     Option.bind (describe_column iFetchRefCursor col a ri) (describe_columns iFetchRefCursor (Suc col) as)"

definition getResultDescription :: "pg_column list \<Rightarrow> res_info \<Rightarrow> bool \<Rightarrow> res_info option" where
  "getResultDescription cols ri iFetchRefCursor = describe_columns iFetchRefCursor 0 cols (ri\<lparr>ri_recs := []\<rparr>)"

text \<open>The records of the parameters of a prepared statement.\<close>

definition describe_param :: "bool \<Rightarrow> nat \<Rightarrow> int \<Rightarrow> desc_rec" where
  "describe_param useUnicode i pgType =
     (case mapPgTypeToSqlType pgType useUnicode of (t, sp) \<Rightarrow>
        zero_rec\<lparr>d_hRecNumber := i16 (int i + 1), d_hType := t, d_hRsSpecialType := sp, d_iSize := getParamSize t,
                 d_hScale := getParamScale t, d_hNullable := 2\<rparr>)"

text \<open>The return code, the errors added, the number of parameters and their records (\<open>None\<close>: no array).\<close>

definition libpqDescribeParams ::
  "bool \<Rightarrow> bool \<Rightarrow> int list \<Rightarrow> int \<times> string list \<times> nat \<times> desc_rec list option" where
  "libpqDescribeParams no_memory useUnicode types =
     (if types = [] then (SQL_SUCCESS, [], 0, None)
      else if no_memory then (SQL_ERROR, [''HY001''], 0, None)
      else (SQL_SUCCESS, [], length types,
            Some (map (\<lambda>i. describe_param useUnicode i (types ! i)) [0..<length types])))"

end
