(* ===== verification/Rs_ColAttr.thy ===== *)
theory Rs_ColAttr
  imports Rs_Columns
begin

text \<open>
  \<^verbatim>\<open>SQLDescribeCol\<close>, \<^verbatim>\<open>SQLColAttribute\<close> and the ODBC 2 call \<^verbatim>\<open>SQLColAttributes\<close> over
  the descriptor records of a result. A call that the model gives no result reads memory outside
  an object.
\<close>

subsection \<open>Field identifiers\<close>

abbreviation (input) "SQL_COLUMN_COUNT \<equiv> 0 :: int"
abbreviation (input) "SQL_COLUMN_NAME \<equiv> 1 :: int"
abbreviation (input) "SQL_COLUMN_TYPE \<equiv> 2 :: int"
abbreviation (input) "SQL_COLUMN_LENGTH \<equiv> 3 :: int"
abbreviation (input) "SQL_COLUMN_PRECISION \<equiv> 4 :: int"
abbreviation (input) "SQL_COLUMN_SCALE \<equiv> 5 :: int"
abbreviation (input) "SQL_COLUMN_NULLABLE \<equiv> 7 :: int"
abbreviation (input) "SQL_DESC_CONCISE_TYPE \<equiv> 2 :: int"
abbreviation (input) "SQL_DESC_DISPLAY_SIZE \<equiv> 6 :: int"
abbreviation (input) "SQL_DESC_UNSIGNED \<equiv> 8 :: int"
abbreviation (input) "SQL_DESC_FIXED_PREC_SCALE \<equiv> 9 :: int"
abbreviation (input) "SQL_DESC_UPDATABLE \<equiv> 10 :: int"
abbreviation (input) "SQL_DESC_AUTO_UNIQUE_VALUE \<equiv> 11 :: int"
abbreviation (input) "SQL_DESC_CASE_SENSITIVE \<equiv> 12 :: int"
abbreviation (input) "SQL_DESC_SEARCHABLE \<equiv> 13 :: int"
abbreviation (input) "SQL_DESC_TYPE_NAME \<equiv> 14 :: int"
abbreviation (input) "SQL_DESC_TABLE_NAME \<equiv> 15 :: int"
abbreviation (input) "SQL_DESC_SCHEMA_NAME \<equiv> 16 :: int"
abbreviation (input) "SQL_DESC_CATALOG_NAME \<equiv> 17 :: int"
abbreviation (input) "SQL_DESC_LABEL \<equiv> 18 :: int"
abbreviation (input) "SQL_DESC_BASE_COLUMN_NAME \<equiv> 22 :: int"
abbreviation (input) "SQL_DESC_BASE_TABLE_NAME \<equiv> 23 :: int"
abbreviation (input) "SQL_DESC_LITERAL_PREFIX \<equiv> 27 :: int"
abbreviation (input) "SQL_DESC_LITERAL_SUFFIX \<equiv> 28 :: int"
abbreviation (input) "SQL_DESC_LOCAL_TYPE_NAME \<equiv> 29 :: int"
abbreviation (input) "SQL_DESC_NUM_PREC_RADIX \<equiv> 32 :: int"
abbreviation (input) "SQL_DESC_COUNT \<equiv> 1001 :: int"
abbreviation (input) "SQL_DESC_TYPE \<equiv> 1002 :: int"
abbreviation (input) "SQL_DESC_LENGTH \<equiv> 1003 :: int"
abbreviation (input) "SQL_DESC_PRECISION \<equiv> 1005 :: int"
abbreviation (input) "SQL_DESC_SCALE \<equiv> 1006 :: int"
abbreviation (input) "SQL_DESC_NULLABLE \<equiv> 1008 :: int"
abbreviation (input) "SQL_DESC_NAME \<equiv> 1011 :: int"
abbreviation (input) "SQL_DESC_UNNAMED \<equiv> 1012 :: int"
abbreviation (input) "SQL_DESC_OCTET_LENGTH \<equiv> 1013 :: int"

abbreviation (input) "SQL_INVALID_HANDLE \<equiv> -2 :: int"

definition isStrFieldIdentifier :: "int \<Rightarrow> bool" where
  "isStrFieldIdentifier f \<longleftrightarrow>
     f \<in> {SQL_DESC_BASE_COLUMN_NAME, SQL_DESC_BASE_TABLE_NAME, SQL_DESC_CATALOG_NAME, SQL_DESC_LABEL,
          SQL_DESC_LITERAL_PREFIX, SQL_DESC_LITERAL_SUFFIX, SQL_DESC_LOCAL_TYPE_NAME, SQL_DESC_NAME,
          SQL_DESC_SCHEMA_NAME, SQL_DESC_TABLE_NAME, SQL_DESC_TYPE_NAME}"

text \<open>
  The labels whose identifier has the same number in ODBC 2 and 3 (such as
  \<^verbatim>\<open>SQL_COLUMN_AUTO_INCREMENT\<close> and \<^verbatim>\<open>SQL_DESC_AUTO_UNIQUE_VALUE\<close>) are in the default case.
\<close>

definition mapColAttributesToColAttributeIdentifier :: "int \<Rightarrow> int" where
  "mapColAttributesToColAttributeIdentifier hOption =
     (if hOption = SQL_COLUMN_COUNT then SQL_DESC_COUNT
      else if hOption = SQL_COLUMN_LENGTH then SQL_DESC_LENGTH
      else if hOption = SQL_COLUMN_NAME then SQL_DESC_NAME
      else if hOption = SQL_COLUMN_NULLABLE then SQL_DESC_NULLABLE
      else if hOption = SQL_COLUMN_PRECISION then SQL_DESC_PRECISION
      else if hOption = SQL_COLUMN_SCALE then SQL_DESC_SCALE
      else hOption)"

subsection \<open>The described columns of a statement\<close>

text \<open>
  A result has its number of columns and its records (\<open>None\<close> for \<^verbatim>\<open>NULL\<close>). A statement that is
  prepared, but not executed, describes the columns of its first prepared text.
\<close>

record col_stmt =
  cs_result :: "nat option"
  cs_ird :: "desc_rec list option"
  cs_prepared :: "(nat \<times> desc_rec list option) option"
  cs_isPrepared :: bool
  cs_odbc2 :: bool
  cs_errors :: "string list"

definition described :: "col_stmt \<Rightarrow> (nat \<times> desc_rec list option) option" where
  "described st =
     (case cs_result st of
        Some n \<Rightarrow> Some (n, cs_ird st)
      | None \<Rightarrow> if cs_isPrepared st then cs_prepared st else None)"

text \<open>\<^verbatim>\<open>CONVERT_TO_ODBC2_SQL_DATE_TYPES\<close>.\<close>

definition to_odbc2 :: "bool \<Rightarrow> int \<Rightarrow> int" where
  "to_odbc2 odbc2 t =
     (if odbc2 then (if t = SQL_TYPE_DATE then SQL_DATE
                     else if t = SQL_TYPE_TIMESTAMP then SQL_TIMESTAMP
                     else if t = SQL_TYPE_TIME then SQL_TIME else t)
      else t)"

definition fail_with :: "string \<Rightarrow> col_stmt \<Rightarrow> col_stmt" where
  "fail_with state st = st\<lparr>cs_errors := cs_errors st @ [state]\<rparr>"

text \<open>
  The record of a column, or the SQLSTATE of the error; the outer \<open>None\<close> when the array of records
  is shorter than the number of columns says.
\<close>

definition column_rec :: "col_stmt \<Rightarrow> int \<Rightarrow> (string + desc_rec) option" where
  "column_rec st hCol =
     (case described st of
        None \<Rightarrow> Some (Inl ''HY000'')
      | Some (n, recs) \<Rightarrow>
          if n \<noteq> 0 \<and> recs \<noteq> None then
            (if 0 < hCol \<and> hCol \<le> int n
             then (if nat hCol \<le> length (the recs) then Some (Inr (the recs ! (nat hCol - 1))) else None)
             else Some (Inl ''HY000''))
          else Some (Inl ''07005''))"

subsection \<open>\<^verbatim>\<open>SQLDescribeCol\<close>\<close>

text \<open>What is stored through the output pointers that are not \<^verbatim>\<open>NULL\<close>.\<close>

record col_out =
  o_rc :: int
  o_name :: "byte list option"
  o_len :: "int option"
  o_type :: "int option"
  o_size :: "int option"
  o_digits :: "int option"
  o_nullable :: "int option"

definition set_ptr :: "int option \<Rightarrow> int \<Rightarrow> int option" where
  "set_ptr p v = map_option (\<lambda>_. v) p"

definition set_len :: "int option \<Rightarrow> int option \<Rightarrow> int option" where
  "set_len p v = (if p = None then None else v)"

definition RS_SQLDescribeCol :: "col_stmt option \<Rightarrow> int \<Rightarrow> int \<Rightarrow> col_out \<Rightarrow> (col_stmt option \<times> col_out) option" where
  "RS_SQLDescribeCol phstmt hCol cbLen out =
     (case phstmt of
        None \<Rightarrow> Some (None, out\<lparr>o_rc := SQL_INVALID_HANDLE\<rparr>)
      | Some st0 \<Rightarrow>
          (let st = st0\<lparr>cs_errors := []\<rparr> in
           Option.bind (column_rec st hCol) (\<lambda>f. case f of
             Inl state \<Rightarrow> Some (Some (fail_with state st), out\<lparr>o_rc := SQL_ERROR\<rparr>)
           | Inr r \<Rightarrow>
               Option.bind (copyStrDataSmallLen (Some (d_szName r)) SQL_NTS (o_name out) cbLen (o_len out \<noteq> None))
                 (\<lambda>(rc, nm, ln).
                   Some (Some st,
                     out\<lparr>o_rc := rc, o_name := nm, o_len := set_len (o_len out) ln,
                         o_type := set_ptr (o_type out) (to_odbc2 (cs_odbc2 st) (d_hType r)),
                         o_size := set_ptr (o_size out) (getSize (d_hType r) (d_iSize r)),
                         o_digits := set_ptr (o_digits out) (getScale (d_hType r) (d_hScale r)),
                         o_nullable := set_ptr (o_nullable out) (d_hNullable r)\<rparr>)))))"

subsection \<open>\<^verbatim>\<open>SQLColAttribute\<close>\<close>

datatype attribute = Str "byte list" | Num int

definition col_attribute :: "bool \<Rightarrow> desc_rec \<Rightarrow> int \<Rightarrow> attribute option" where
  "col_attribute odbc2 r f =
     (if f = SQL_DESC_AUTO_UNIQUE_VALUE then Some (Num (d_cAutoInc r))
      else if f \<in> {SQL_DESC_BASE_COLUMN_NAME, SQL_DESC_LABEL, SQL_DESC_NAME} then Some (Str (d_szName r))
      else if f \<in> {SQL_DESC_BASE_TABLE_NAME, SQL_DESC_TABLE_NAME} then Some (Str (d_szTableName r))
      else if f = SQL_DESC_CASE_SENSITIVE then Some (Num (d_cCaseSensitive r))
      else if f = SQL_DESC_CATALOG_NAME then Some (Str (d_szCatalogName r))
      else if f = SQL_DESC_CONCISE_TYPE then Some (Num (getConciseType (d_hConciseType r) (d_hType r)))
      else if f = SQL_DESC_TYPE then Some (Num (to_odbc2 odbc2 (d_hType r)))
      else if f = SQL_DESC_DISPLAY_SIZE then Some (Num (d_iDisplaySize r))
      else if f = SQL_DESC_FIXED_PREC_SCALE then Some (Num (d_cFixedPrecScale r))
      else if f \<in> {SQL_DESC_LENGTH, SQL_COLUMN_LENGTH} then Some (Num (getSize (d_hType r) (d_iSize r)))
      else if f = SQL_DESC_LITERAL_PREFIX then Some (Str (d_szLiteralPrefix r))
      else if f = SQL_DESC_LITERAL_SUFFIX then Some (Str (d_szLiteralSuffix r))
      else if f \<in> {SQL_DESC_LOCAL_TYPE_NAME, SQL_DESC_TYPE_NAME} then Some (Str (d_szTypeName r))
      else if f = SQL_DESC_NULLABLE then Some (Num (d_hNullable r))
      else if f = SQL_DESC_NUM_PREC_RADIX then Some (Num (d_iNumPrecRadix r))
      else if f = SQL_DESC_OCTET_LENGTH then Some (Num (d_iOctetLen r))
      else if f \<in> {SQL_DESC_PRECISION, SQL_COLUMN_PRECISION} then Some (Num (d_iPrecision r))
      else if f \<in> {SQL_DESC_SCALE, SQL_COLUMN_SCALE} then Some (Num (getScale (d_hType r) (d_hScale r)))
      else if f = SQL_DESC_SCHEMA_NAME then Some (Str (d_szSchemaName r))
      else if f = SQL_DESC_SEARCHABLE then Some (Num (d_iSearchable r))
      else if f = SQL_DESC_UNNAMED then Some (Num (d_iUnNamed r))
      else if f = SQL_DESC_UNSIGNED then Some (Num (d_cUnsigned r))
      else if f = SQL_DESC_UPDATABLE then Some (Num (d_iUpdatable r))
      else None)"

text \<open>The result: return code, statement, buffer, \<^verbatim>\<open>*pcbLen\<close> and \<^verbatim>\<open>*plValue\<close>.\<close>

definition RS_SQLColAttribute ::
  "col_stmt option \<Rightarrow> int \<Rightarrow> int \<Rightarrow> byte list option \<Rightarrow> int \<Rightarrow> int option \<Rightarrow> int option \<Rightarrow>
   (int \<times> col_stmt option \<times> byte list option \<times> int option \<times> int option) option" where
  "RS_SQLColAttribute phstmt hCol f pcValue cbLen pcbLen plValue =
     (case phstmt of
        None \<Rightarrow> Some (SQL_INVALID_HANDLE, None, pcValue, pcbLen, plValue)
      | Some st0 \<Rightarrow>
          (let st = st0\<lparr>cs_errors := []\<rparr>;
               isCharIdentifier = isStrFieldIdentifier f;
               fail = (\<lambda>state. Some (SQL_ERROR, Some (fail_with state st), pcValue, pcbLen, plValue))
           in if (isCharIdentifier \<and> ((pcValue = None \<and> pcbLen = None) \<or> (cbLen < 0 \<and> cbLen \<noteq> SQL_NTS))) \<or>
                 (\<not> isCharIdentifier \<and> plValue = None)
              then fail ''HY090''
              else if described st = None then fail ''HY000''
              else if f = SQL_DESC_COUNT
              then Some (SQL_SUCCESS, Some st, pcValue, pcbLen, Some (int (fst (the (described st)))))
              else Option.bind (column_rec st hCol) (\<lambda>q. case q of
                     Inl state \<Rightarrow> fail state
                   | Inr r \<Rightarrow>
                       (case col_attribute (cs_odbc2 st) r f of
                          None \<Rightarrow> fail ''HY091''
                        | Some (Num v) \<Rightarrow> Some (SQL_SUCCESS, Some st, pcValue, pcbLen, Some v)
                        | Some (Str s) \<Rightarrow>
                            map_option (\<lambda>(rc, d, ln). (rc, Some st, d, set_len pcbLen ln, plValue))
                              (copyStrDataSmallLen (Some s) SQL_NTS pcValue cbLen (pcbLen \<noteq> None))))))"

definition SQLColAttributes ::
  "col_stmt option \<Rightarrow> int \<Rightarrow> int \<Rightarrow> byte list option \<Rightarrow> int \<Rightarrow> int option \<Rightarrow> int option \<Rightarrow>
   (int \<times> col_stmt option \<times> byte list option \<times> int option \<times> int option) option" where
  "SQLColAttributes phstmt hCol hOption =
     RS_SQLColAttribute phstmt hCol (mapColAttributesToColAttributeIdentifier hOption)"

end
