(* ===== verification/Rs_Col_Promises.thy ===== *)
theory Rs_Col_Promises
  imports Rs_ColAttr
begin

text \<open>
  What the description of a result promises: it is total and well formed, numeric modifiers are
  decoded exactly, long character columns are promoted out of the range that OLE DB rejects, and
  the two calls that report it agree.
\<close>

subsection \<open>Names\<close>

text \<open>Memory that holds a terminated string of a length that fits an \<^verbatim>\<open>int\<close>.\<close>

definition c_text :: "byte list \<Rightarrow> bool" where
  "c_text m \<longleftrightarrow> (\<exists>s. m = s @ [0] \<and> 0 \<notin> set s \<and> length s < 2 ^ 31)"

lemma c_text_iff [code]:
  "c_text m \<longleftrightarrow> m \<noteq> [] \<and> last m = 0 \<and> 0 \<notin> set (butlast m) \<and> length m \<le> 2 ^ 31"
proof
  assume "c_text m"
  then show "m \<noteq> [] \<and> last m = 0 \<and> 0 \<notin> set (butlast m) \<and> length m \<le> 2 ^ 31"
    by (auto simp: c_text_def)
next
  assume a: "m \<noteq> [] \<and> last m = 0 \<and> 0 \<notin> set (butlast m) \<and> length m \<le> 2 ^ 31"
  then have "m = butlast m @ [0]" by (metis append_butlast_last_id)
  moreover have "length (butlast m) < 2 ^ 31" using a by (cases m) auto
  ultimately show "c_text m" using a unfolding c_text_def by metis
qed

text \<open>A name field of the record: a prefix of a text of at most 128 bytes, and a terminator.\<close>

definition name_field :: "byte list \<Rightarrow> bool" where
  "name_field d \<longleftrightarrow> length d = MAX_IDEN_LEN + 1 \<and> length (c_str d) < MAX_IDEN_LEN"

lemma small_copy:
  assumes "0 \<notin> set s" and "length s < 2 ^ 31" and "0 < cb" and "cb \<le> length d"
  defines "n \<equiv> min (length s) (cb - 1)"
  shows "\<exists>rc ln. copyStrDataSmallLen (Some (s @ [0])) SQL_NTS (Some d) (int cb) want =
    Some (rc, Some (take n s @ [0] @ drop (Suc n) d), ln)"
proof -
  have len: "src_len (Some (s @ [0])) SQL_NTS = int (length s)"
    using assms(1,2) c_str_terminated [of s "[]"] by (simp add: src_len_def odbc_codes c_strlen_def c_arith)
  have n: "n \<le> length s" "n < length d" using assms(3,4) by (auto simp: n_def)
  show ?thesis
  proof (cases "s = []")
    case True
    with len assms(3,4) show ?thesis
      by (simp add: copyStrDataSmallLen_def put_at_def n_def Let_def)
  next
    case False
    have "n = (if length s < cb then length s else cb - 1)" by (auto simp: n_def)
    with store_str_ok [OF assms(1) n] False len assms(3) show ?thesis
      by (auto simp: copyStrDataSmallLen_def Let_def nat_diff_distrib' split: if_splits)
  qed
qed

lemma c_str_cut: "0 \<notin> set s \<Longrightarrow> c_str (take n s @ 0 # rest) = take n s"
  by (rule c_str_terminated) (meson in_set_takeD)

lemma c_str_map: "(\<And>b. b \<in> set s \<Longrightarrow> f b \<noteq> 0) \<Longrightarrow> c_str (map f s @ 0 # rest) = map f s"
  by (rule c_str_terminated) force

lemma upper_byte: "b \<noteq> 0 \<Longrightarrow> (if 97 \<le> b \<and> b \<le> (122::byte) then b - 32 else b) \<noteq> 0"
  by auto

lemma strupr_field: "name_field d \<Longrightarrow> name_field (strupr d)"
proof -
  assume a: "name_field d"
  let ?f = "\<lambda>b::byte. if 97 \<le> b \<and> b \<le> 122 then b - 32 else b"
  let ?s = "takeWhile (\<lambda>b. b \<noteq> 0) d"
  have len: "length (strupr d) = length d"
    by (simp add: strupr_def) (metis length_append takeWhile_dropWhile_id)
  have "length ?s < length d" using a by (simp add: name_field_def c_str_def)
  then obtain rest where rest: "dropWhile (\<lambda>b. b \<noteq> 0) d = 0 # rest"
    by (metis (mono_tags, lifting) append_Nil2 dropWhile_eq_Nil_conv hd_dropWhile list.exhaust_sel
        nat_neq_iff takeWhile_dropWhile_id)
  have "c_str (strupr d) = map ?f ?s"
    unfolding strupr_def rest by (rule c_str_map) (auto dest!: set_takeWhileD)
  with a len show ?thesis by (simp add: name_field_def c_str_def)
qed

lemma copy_name_ok:
  assumes "c_text m" and "length buf = MAX_IDEN_LEN + 1"
  shows "\<exists>d. copy_name upper (Some m) buf = Some d \<and> name_field d"
proof -
  obtain s where s: "m = s @ [0]" "0 \<notin> set s" "length s < 2 ^ 31" using assms(1) by (auto simp: c_text_def)
  let ?n = "min (length s) (MAX_IDEN_LEN - 1)"
  let ?d = "take ?n s @ [0] @ drop (Suc ?n) buf"
  obtain rc ln where "copyStrDataSmallLen (Some m) SQL_NTS (Some buf) (int MAX_IDEN_LEN) False = Some (rc, Some ?d, ln)"
    using small_copy [OF s(2,3), of MAX_IDEN_LEN buf False] assms(2) s(1) by auto
  moreover have "name_field ?d"
    using assms(2) c_str_cut [OF s(2), of ?n] by (simp add: name_field_def)
  ultimately show ?thesis
    using strupr_field by (auto simp: copy_name_def)
qed

lemma copy_opt_name_ok:
  assumes "\<And>m. src = Some m \<Longrightarrow> c_text m" and "length buf = MAX_IDEN_LEN + 1"
  shows "\<exists>d. copy_opt_name upper src buf = Some d \<and> name_field d"
proof (cases src)
  case None
  with assms(2) show ?thesis
    by (auto simp: copy_opt_name_def put_at_def name_field_def c_str_def)
next
  case (Some m)
  with copy_name_ok [OF assms(1) assms(2)] show ?thesis by (simp add: copy_opt_name_def)
qed

subsection \<open>Literals and type names\<close>

lemma literal_quote_ok:
  "length buf = 2 \<Longrightarrow> \<exists>d. literal_quote buf q = Some d \<and> length d = 2 \<and> c_str d = (if q then [0x27] else [])"
  by (auto simp: literal_quote_def rs_strncpy_def store_str_def c_strncpy_def put_at_def c_str_def ascii_def)

lemma type_text_ascii: "type_text h sp = Some t \<Longrightarrow> 0 \<notin> set (ascii t) \<and> length t \<le> 17"
  unfolding type_text_def by (auto simp: ascii_def split: if_splits)

lemma rs_strncpy_ok:
  assumes "0 \<notin> set s" and "length s < n" and "n \<le> length d"
  shows "rs_strncpy d (s @ [0]) n = Some (s @ [0] @ drop (Suc (length s)) d)"
proof -
  have "length s \<le> n - 1" using assms(2) by simp
  then show ?thesis
    using store_str_ok [OF assms(1), of "length s" d] c_str_terminated [OF assms(1), of "[]"] assms(2,3)
    by (simp add: rs_strncpy_def min_absorb1)
qed

lemma type_name_ok:
  assumes "length buf = MAX_IDEN_LEN + 1"
  shows "\<exists>d. getTypeName h buf (MAX_IDEN_LEN + 1) sp = Some d \<and> length d = MAX_IDEN_LEN + 1 \<and>
    c_str d = (case type_text h sp of Some t \<Rightarrow> ascii t | None \<Rightarrow> [])"
proof (cases "type_text h sp")
  case None
  with assms show ?thesis by (auto simp: getTypeName_def put_at_def c_str_def)
next
  case (Some t)
  then have t: "0 \<notin> set (ascii t)" "length (ascii t) \<le> 17"
    using type_text_ascii by (auto simp: ascii_def)
  then have "rs_strncpy buf (ascii t @ [0]) (MAX_IDEN_LEN + 1) =
      Some (ascii t @ [0] @ drop (Suc (length (ascii t))) buf)"
    using assms by (intro rs_strncpy_ok) auto
  with Some t assms show ?thesis
    by (auto simp: getTypeName_def c_str_terminated)
qed

subsection \<open>Well-formed records\<close>

definition result_types :: "int set" where
  "result_types = {SQL_UNKNOWN_TYPE, SQL_BIT, SQL_CHAR, SQL_WCHAR, SQL_BIGINT, SQL_SMALLINT, SQL_INTEGER, SQL_REAL,
     SQL_DOUBLE, SQL_VARCHAR, SQL_WVARCHAR, SQL_TYPE_DATE, SQL_TYPE_TIMESTAMP, SQL_TYPE_TIME, SQL_NUMERIC,
     SQL_INTERVAL_YEAR_TO_MONTH, SQL_INTERVAL_DAY_TO_SECOND, SQL_LONGVARCHAR, SQL_WLONGVARCHAR, SQL_LONGVARBINARY}"

lemma mapped_type: "fst (mapPgTypeToSqlType oid u) \<in> result_types"
  by (simp add: mapPgTypeToSqlType_def result_types_def)

text \<open>
  A record as the application may rely on it: a type with a default C type (unless the type is
  unknown), names and texts terminated inside their fields, equal literal prefix and suffix, the
  name of the type, and the size, precision and scale of the type.
\<close>

definition rec_wf :: "desc_rec \<Rightarrow> bool" where
  "rec_wf r \<longleftrightarrow>
     d_hType r \<in> result_types \<and> (d_hConciseType r = 0 \<or> d_hConciseType r = d_hType r) \<and>
     name_field (d_szName r) \<and> name_field (d_szTableName r) \<and> name_field (d_szSchemaName r) \<and>
     name_field (d_szCatalogName r) \<and> name_field (d_szTypeName r) \<and>
     length (d_szLiteralPrefix r) = 2 \<and> length (d_szLiteralSuffix r) = 2 \<and>
     c_str (d_szLiteralPrefix r) = c_str (d_szLiteralSuffix r) \<and> c_str (d_szLiteralPrefix r) \<in> {[], [0x27]} \<and>
     c_str (d_szTypeName r) = (case type_text (d_hType r) (d_hRsSpecialType r) of Some t \<Rightarrow> ascii t | None \<Rightarrow> []) \<and>
     d_iDisplaySize r = getDisplaySize (d_hType r) (d_iSize r) (d_hRsSpecialType r) \<and>
     d_iOctetLen r = getOctetLen (d_hType r) (d_iSize r) (d_hRsSpecialType r) \<and>
     d_cAutoInc r \<in> {0, 1} \<and> d_cCaseSensitive r \<in> {0, 1} \<and> d_cUnsigned r \<in> {0, 1} \<and>
     d_iNumPrecRadix r \<in> {0, 2, 10} \<and> d_iUnNamed r = (if c_str (d_szName r) = [] then 1 else 0)"

lemma default_c_type:
  "t \<in> result_types \<Longrightarrow> snd (getDefaultCTypeFromSQLType t) \<longleftrightarrow> t = SQL_UNKNOWN_TYPE"
  by (auto simp: result_types_def getDefaultCTypeFromSQLType_def)

lemma unnamed_c_str: "getUnNamed (Some d) = (if c_str d = [] then 1 else 0)"
  by (cases d) (auto simp: getUnNamed_def c_str_def)

lemma case_sensitive_flag: "getCaseSensitive t sp b \<in> {0, 1}"
  by (simp add: getCaseSensitive_def of_cbool_def)

lemma unsigned_flag: "getUnsigned t \<in> {0, 1}"
  by (simp add: getUnsigned_def)

lemma radix_value: "getNumPrecRadix t \<in> {0, 2, 10}"
  by (simp add: getNumPrecRadix_def)

lemma type_attributes_ok:
  assumes "d_hType r \<in> result_types" and "d_hConciseType r = 0 \<or> d_hConciseType r = d_hType r"
    and "name_field (d_szName r)" "name_field (d_szTableName r)" "name_field (d_szSchemaName r)"
      "name_field (d_szCatalogName r)"
    and "length (d_szLiteralPrefix r) = 2" "length (d_szLiteralSuffix r) = 2"
      "length (d_szTypeName r) = MAX_IDEN_LEN + 1"
    and "d_cAutoInc r \<in> {0, 1}"
  shows "\<exists>r'. type_attributes a r = Some r' \<and> rec_wf r' \<and> d_hType r' = d_hType r \<and> d_iSize r' = d_iSize r \<and>
    d_hScale r' = d_hScale r \<and> d_hRecNumber r' = d_hRecNumber r \<and> d_szName r' = d_szName r \<and>
    d_hRsSpecialType r' = d_hRsSpecialType r \<and> d_hNullable r' = d_hNullable r"
proof -
  let ?t = "d_hType r" and ?sp = "d_hRsSpecialType r"
  obtain lp where lp: "getLiteralPrefix ?t (d_szLiteralPrefix r) ?sp = Some lp" "length lp = 2"
      "c_str lp \<in> {[], [0x27]}"
    unfolding getLiteralPrefix_def using literal_quote_ok [OF assms(7)] by (metis insertI1 insertI2)
  obtain ls where ls: "getLiteralSuffix ?t (d_szLiteralSuffix r) ?sp = Some ls" "length ls = 2" "c_str ls = c_str lp"
    using literal_quote_ok [OF assms(7)] literal_quote_ok [OF assms(8)] lp(1)
    unfolding getLiteralPrefix_def getLiteralSuffix_def by (metis option.inject)
  obtain tn where tn: "getTypeName ?t (d_szTypeName r) (MAX_IDEN_LEN + 1) ?sp = Some tn"
      "length tn = MAX_IDEN_LEN + 1" "c_str tn = (case type_text ?t ?sp of Some t \<Rightarrow> ascii t | None \<Rightarrow> [])"
    using type_name_ok [OF assms(9)] by metis
  have "length (c_str tn) < MAX_IDEN_LEN"
    using type_text_ascii [of ?t ?sp] tn(3) by (auto simp: ascii_def split: option.splits)
  with tn(2) have nf: "name_field tn" by (simp add: name_field_def)
  obtain r' where r': "type_attributes a r = Some r'" and eq: "r' = r\<lparr>d_cCaseSensitive := getCaseSensitive ?t ?sp (a_case_sensitive a),
                d_iDisplaySize := getDisplaySize ?t (d_iSize r) ?sp,
                d_cFixedPrecScale := 0,
                d_szLiteralPrefix := lp, d_szLiteralSuffix := ls, d_szTypeName := tn,
                d_iNumPrecRadix := getNumPrecRadix ?t,
                d_iOctetLen := getOctetLen ?t (d_iSize r) ?sp,
                d_iPrecision := getPrecision ?t (d_iSize r) ?sp,
                d_iSearchable := getSearchable ?t ?sp,
                d_iUnNamed := getUnNamed (Some (d_szName r)),
                d_cUnsigned := getUnsigned ?t,
                d_iUpdatable := getUpdatable\<rparr>"
    unfolding type_attributes_def Let_def using lp(1) ls(1) tn(1) by auto
  have "rec_wf r'"
    unfolding rec_wf_def eq
    using assms(1-6,10) lp(2,3) ls(2,3) tn(3) nf case_sensitive_flag unsigned_flag radix_value
    by (simp add: unnamed_c_str)
  with r' show ?thesis by (simp add: eq)
qed

subsection \<open>Promotion\<close>

definition short_chars :: "int set" where
  "short_chars = {SQL_VARCHAR, SQL_CHAR, SQL_WVARCHAR, SQL_WCHAR}"

definition long_chars :: "int set" where
  "long_chars = {SQL_LONGVARCHAR, SQL_WLONGVARCHAR}"

text \<open>What the promotion leaves: what changes, and what does not.\<close>

definition promoted :: "conn_props option \<Rightarrow> desc_rec \<Rightarrow> desc_rec \<Rightarrow> bool" where
  "promoted props r r' \<longleftrightarrow>
     r' = r\<lparr>d_hType := d_hType r', d_iSize := d_iSize r', d_hConciseType := d_hConciseType r'\<rparr> \<and>
     (case props of
        None \<Rightarrow> r' = r
      | Some p \<Rightarrow>
          if d_hType r \<in> short_chars \<and> 0 < p_iMaxVarcharSize p \<and> p_iMaxVarcharSize p < d_iSize r
          then d_hType r' = (if d_hType r \<in> {SQL_WVARCHAR, SQL_WCHAR} then SQL_WLONGVARCHAR else SQL_LONGVARCHAR) \<and>
               d_hConciseType r' = d_hType r' \<and>
               d_iSize r' = (if 0 < p_iMaxLongVarcharSize p then p_iMaxLongVarcharSize p else d_iSize r)
          else r' = r)"

text \<open>The settings that the description uses are those of the connection; only the log marks change.\<close>

definition same_settings :: "conn_props \<Rightarrow> conn_props \<Rightarrow> bool" where
  "same_settings p p' \<longleftrightarrow> p_iUseUnicode p' = p_iUseUnicode p \<and> p_iMaxVarcharSize p' = p_iMaxVarcharSize p \<and>
     p_iMaxLongVarcharSize p' = p_iMaxLongVarcharSize p"

definition stmt_settings :: "conn_props option \<Rightarrow> bool \<Rightarrow> res_stmt option \<Rightarrow> bool" where
  "stmt_settings props up st \<longleftrightarrow>
     (case props of
        None \<Rightarrow> st = None \<and> \<not> up
      | Some p \<Rightarrow> (\<exists>q p'. st = Some q \<and> q_catalogQuery q = up \<and> q_props q = Some p' \<and> same_settings p p'))"

lemma promote_ok:
  assumes "stmt_settings props up st"
  shows "\<exists>r' st'. promote r st = Some (r', st') \<and> promoted props r r' \<and> stmt_settings props up st'"
proof (cases props)
  case None
  with assms show ?thesis by (simp add: promote_def promoted_def stmt_settings_def)
next
  case (Some p)
  with assms obtain q p' where q: "st = Some q" "q_props q = Some p'" "q_catalogQuery q = up" "same_settings p p'"
    by (auto simp: stmt_settings_def)
  show ?thesis
  proof (cases "d_hType r \<in> short_chars")
    case False
    then have "promote r st = Some (r, Some (q\<lparr>q_props := Some p'\<rparr>))"
      using q by (simp add: promote_def applyVarcharPromotion_def short_chars_def)
    with False q Some show ?thesis by (simp add: promoted_def stmt_settings_def)
  next
    case True
    show ?thesis
    proof (cases "p_iMaxVarcharSize p \<le> 0 \<or> d_iSize r \<le> p_iMaxVarcharSize p")
      case small: True
      with True q have "promote r st = Some (r, Some (q\<lparr>q_props := Some (p'\<lparr>p_iLoggedVarcharSkip := True\<rparr>)\<rparr>))"
        by (auto simp: promote_def applyVarcharPromotion_def short_chars_def same_settings_def)
      with small q Some show ?thesis by (auto simp: promoted_def stmt_settings_def same_settings_def)
    next
      case False
      let ?t = "if d_hType r \<in> {SQL_WVARCHAR, SQL_WCHAR} then SQL_WLONGVARCHAR else SQL_LONGVARCHAR"
      let ?z = "if 0 < p_iMaxLongVarcharSize p then p_iMaxLongVarcharSize p else d_iSize r"
      let ?r = "r\<lparr>d_hType := ?t, d_hConciseType := ?t, d_iSize := ?z\<rparr>"
      have "promote r st = Some (?r, Some (q\<lparr>q_props := Some (p'\<lparr>p_iLoggedVarcharPromotion := True\<rparr>)\<rparr>))"
        using False True q
        by (auto simp: promote_def applyVarcharPromotion_def short_chars_def same_settings_def Let_def)
      moreover have "promoted props r ?r" using Some True False by (simp add: promoted_def)
      ultimately show ?thesis using q Some by (auto simp: stmt_settings_def same_settings_def)
    qed
  qed
qed

subsection \<open>The description of a result\<close>

definition column_ok :: "pg_column \<Rightarrow> bool" where
  "column_ok a \<longleftrightarrow> (case a_name a of None \<Rightarrow> False | Some m \<Rightarrow> c_text m) \<and>
     list_all (\<lambda>q. case q of None \<Rightarrow> True | Some m \<Rightarrow> c_text m) [a_catalog a, a_schema a, a_table a]"

definition settings_unicode :: "conn_props option \<Rightarrow> bool" where
  "settings_unicode props = (case props of None \<Rightarrow> False | Some p \<Rightarrow> p_iUseUnicode p)"

text \<open>The type and size that are reported for a type and size.\<close>

definition final_type :: "conn_props option \<Rightarrow> int \<times> int \<Rightarrow> int \<times> int" where
  "final_type props = (\<lambda>(t, size). case props of
     None \<Rightarrow> (t, size)
   | Some p \<Rightarrow>
       if t \<in> short_chars \<and> 0 < p_iMaxVarcharSize p \<and> p_iMaxVarcharSize p < size
       then (if t \<in> {SQL_WVARCHAR, SQL_WCHAR} then SQL_WLONGVARCHAR else SQL_LONGVARCHAR,
             if 0 < p_iMaxLongVarcharSize p then p_iMaxLongVarcharSize p else size)
       else (t, size))"

definition describes :: "conn_props option \<Rightarrow> nat \<Rightarrow> pg_column \<Rightarrow> desc_rec \<Rightarrow> bool" where
  "describes props i a r \<longleftrightarrow>
     (case mapPgTypeToSqlType (a_type a) (settings_unicode props) of (t, sp) \<Rightarrow>
        d_hRecNumber r = i16 (int i + 1) \<and> d_hRsSpecialType r = sp \<and>
        (d_hType r, d_iSize r) = final_type props (t, column_size (a_type a) t (a_mod a)) \<and>
        d_hScale r = column_scale t (a_mod a) \<and> d_hNullable r = i16 (a_nullable a))"

lemma promoted_final:
  "promoted props r r' \<Longrightarrow> (d_hType r', d_iSize r') = final_type props (d_hType r, d_iSize r)"
  by (auto simp: promoted_def final_type_def split: option.splits if_splits)

lemma final_type_result: "t \<in> result_types \<Longrightarrow> fst (final_type props (t, z)) \<in> result_types"
  by (auto simp: final_type_def result_types_def split: option.splits)

lemma describe_column_ok:
  assumes st: "stmt_settings props up (ri_stmt ri)" and a: "column_ok a"
  shows "\<exists>ri' r. describe_column fr i a ri = Some ri' \<and> ri_recs ri' = ri_recs ri @ [r] \<and> rec_wf r \<and>
    describes props i a r \<and> stmt_settings props up (ri_stmt ri') \<and>
    (ri_refCursor ri' \<longleftrightarrow> ri_refCursor ri \<or> fr \<and> a_type a = REFCURSOROID)"
proof -
  from a obtain m where m: "a_name a = Some m" "c_text m" by (auto simp: column_ok_def split: option.splits)
  have opt: "\<And>x. a_catalog a = Some x \<Longrightarrow> c_text x" "\<And>x. a_schema a = Some x \<Longrightarrow> c_text x"
      "\<And>x. a_table a = Some x \<Longrightarrow> c_text x"
    using a by (auto simp: column_ok_def)
  have upq: "(case ri_stmt ri of Some q \<Rightarrow> q_catalogQuery q | None \<Rightarrow> False) = up"
    using st by (auto simp: stmt_settings_def split: option.splits)
  have uni: "res_unicode ri = settings_unicode props"
    using st by (auto simp: stmt_settings_def res_unicode_def settings_unicode_def same_settings_def split: option.splits)
  obtain nm where nm: "copy_name up (Some m) (d_szName zero_rec) = Some nm" "name_field nm"
    using copy_name_ok [OF m(2), of "d_szName zero_rec" up] by (auto simp: zero_rec_def)
  obtain t sp where t: "mapPgTypeToSqlType (a_type a) (settings_unicode props) = (t, sp)" by fastforce
  have tr: "t \<in> result_types" using mapped_type t by (metis fst_conv)
  let ?r0 = "typed_rec (res_unicode ri) i a nm"
  obtain r1 st' where r1: "promote ?r0 (ri_stmt ri) = Some (r1, st')" "promoted props ?r0 r1" "stmt_settings props up st'"
    using promote_ok [OF st] by metis
  have r0: "d_hType ?r0 = t" "d_iSize ?r0 = column_size (a_type a) t (a_mod a)" "d_szName ?r0 = nm"
      "d_hConciseType ?r0 = 0" "d_szLiteralPrefix ?r0 = [0, 0]" "d_szLiteralSuffix ?r0 = [0, 0]"
      "d_szTypeName ?r0 = replicate 130 0" "d_szCatalogName ?r0 = replicate 130 0" "d_szSchemaName ?r0 = replicate 130 0"
      "d_szTableName ?r0 = replicate 130 0" "d_hScale ?r0 = column_scale t (a_mod a)" "d_hRecNumber ?r0 = i16 (int i + 1)"
      "d_hRsSpecialType ?r0 = sp"
    using t by (simp_all add: typed_rec_def uni zero_rec_def numeral_2_eq_2)
  have upd: "r1 = ?r0\<lparr>d_hType := d_hType r1, d_iSize := d_iSize r1, d_hConciseType := d_hConciseType r1\<rparr>"
    using r1(2) by (simp add: promoted_def)
  have fields: "d_szName r1 = nm" "d_szLiteralPrefix r1 = [0, 0]" "d_szLiteralSuffix r1 = [0, 0]"
      "d_szTypeName r1 = replicate 130 0" "d_szCatalogName r1 = replicate 130 0" "d_szSchemaName r1 = replicate 130 0"
      "d_szTableName r1 = replicate 130 0" "d_hScale r1 = column_scale t (a_mod a)" "d_hRecNumber r1 = i16 (int i + 1)"
      "d_hRsSpecialType r1 = sp"
    by (subst upd, simp add: r0)+
  have concise: "d_hConciseType r1 = 0 \<or> d_hConciseType r1 = d_hType r1"
    using r1(2) r0(4) by (auto simp: promoted_def split: option.splits if_splits)
  have ftype: "(d_hType r1, d_iSize r1) = final_type props (t, column_size (a_type a) t (a_mod a))"
    using promoted_final [OF r1(2)] r0(1,2) by simp
  then have typr: "d_hType r1 \<in> result_types" using final_type_result [OF tr] by (metis fst_conv)
  obtain ct where ct: "copy_opt_name up (a_catalog a) (d_szCatalogName r1) = Some ct" "name_field ct"
    using copy_opt_name_ok [of "a_catalog a" "d_szCatalogName r1" up] opt(1) fields(5) by auto
  obtain sc where sc: "copy_opt_name up (a_schema a) (d_szSchemaName r1) = Some sc" "name_field sc"
    using copy_opt_name_ok [of "a_schema a" "d_szSchemaName r1" up] opt(2) fields(6) by auto
  obtain tb where tb: "copy_opt_name up (a_table a) (d_szTableName r1) = Some tb" "name_field tb"
    using copy_opt_name_ok [of "a_table a" "d_szTableName r1" up] opt(3) fields(7) by auto
  have flag: "of_cbool b \<in> {0, 1}" for b by (simp add: of_cbool_def)
  let ?r = "r1\<lparr>d_hNullable := i16 (a_nullable a), d_cAutoInc := of_cbool (a_auto_increment a = 1),
              d_szCatalogName := ct, d_szSchemaName := sc, d_szTableName := tb\<rparr>"
  obtain r2 where r2: "type_attributes a ?r = Some r2" "rec_wf r2" "d_hType r2 = d_hType r1" "d_iSize r2 = d_iSize r1"
      "d_hScale r2 = d_hScale r1" "d_hRecNumber r2 = d_hRecNumber r1" "d_hRsSpecialType r2 = d_hRsSpecialType r1"
      "d_hNullable r2 = i16 (a_nullable a)"
    using type_attributes_ok [of ?r a] typr concise nm(2) ct(2) sc(2) tb(2) fields flag by auto
  have "describes props i a r2"
    using r2 ftype t fields by (simp add: describes_def)
  moreover have "describe_column fr i a ri = Some (ri\<lparr>ri_recs := ri_recs ri @ [r2],
      ri_index := (ri_index ri)(c_str m \<mapsto> int i + 1),
      ri_refCursor := ri_refCursor ri \<or> fr \<and> a_type a = REFCURSOROID, ri_stmt := st'\<rparr>)"
    unfolding describe_column_def Let_def upq using m nm r1(1) ct(1) sc(1) tb(1) r2(1) by simp
  ultimately show ?thesis using r2(2) r1(3) by simp
qed

lemma describe_columns_ok:
  assumes "stmt_settings props up (ri_stmt ri)" and "\<forall>a\<in>set cols. column_ok a"
  shows "\<exists>ri' rs. describe_columns fr i cols ri = Some ri' \<and> ri_recs ri' = ri_recs ri @ rs \<and>
    length rs = length cols \<and> (\<forall>k<length cols. rec_wf (rs ! k) \<and> describes props (i + k) (cols ! k) (rs ! k)) \<and>
    (ri_refCursor ri' \<longleftrightarrow> ri_refCursor ri \<or> fr \<and> REFCURSOROID \<in> a_type ` set cols)"
  using assms
proof (induction cols arbitrary: i ri)
  case Nil
  then show ?case by simp
next
  case (Cons a cols)
  obtain ri1 r where 1: "describe_column fr i a ri = Some ri1" "ri_recs ri1 = ri_recs ri @ [r]" "rec_wf r"
      "describes props i a r" "stmt_settings props up (ri_stmt ri1)"
      "ri_refCursor ri1 \<longleftrightarrow> ri_refCursor ri \<or> fr \<and> a_type a = REFCURSOROID"
    using describe_column_ok [OF Cons.prems(1), of a fr i] Cons.prems(2) by auto
  obtain ri2 rs where 2: "describe_columns fr (Suc i) cols ri1 = Some ri2" "ri_recs ri2 = ri_recs ri1 @ rs"
      "length rs = length cols"
      "\<forall>k<length cols. rec_wf (rs ! k) \<and> describes props (Suc i + k) (cols ! k) (rs ! k)"
      "ri_refCursor ri2 \<longleftrightarrow> ri_refCursor ri1 \<or> fr \<and> REFCURSOROID \<in> a_type ` set cols"
    using Cons.IH [OF 1(5), of "Suc i"] Cons.prems(2) by auto
  have "\<forall>k<length (a # cols). rec_wf ((r # rs) ! k) \<and> describes props (i + k) ((a # cols) ! k) ((r # rs) ! k)"
    using 1(3,4) 2(4) by (auto simp: less_Suc_eq_0_disj)
  with 1 2 show ?case by (intro exI [of _ ri2] exI [of _ "r # rs"]) auto
qed

text \<open>
  Property C15. A result whose columns have terminated names is described completely: there is one
  record for each column, in order, and each is well formed - its names and texts are terminated
  inside their fields, its type is known to have a default C type (unless the server type is
  unknown), and its type, size, scale and nullability follow from the server's type and modifier
  and from the settings of the connection. A result is marked for automatic fetching when one of
  its columns is a cursor reference.
\<close>

theorem described_columns_well_formed:
  assumes "stmt_settings props up (ri_stmt ri)" and "\<forall>a\<in>set cols. column_ok a"
  shows "\<exists>ri'. getResultDescription cols ri fr = Some ri' \<and> length (ri_recs ri') = length cols \<and>
    (\<forall>k<length cols. rec_wf (ri_recs ri' ! k) \<and> describes props k (cols ! k) (ri_recs ri' ! k) \<and>
       (snd (getDefaultCTypeFromSQLType (d_hType (ri_recs ri' ! k))) \<longleftrightarrow> d_hType (ri_recs ri' ! k) = SQL_UNKNOWN_TYPE)) \<and>
    (ri_refCursor ri' \<longleftrightarrow> ri_refCursor ri \<or> fr \<and> REFCURSOROID \<in> a_type ` set cols)"
proof -
  obtain ri' rs where *: "describe_columns fr 0 cols (ri\<lparr>ri_recs := []\<rparr>) = Some ri'" "ri_recs ri' = rs"
      "length rs = length cols" "\<forall>k<length cols. rec_wf (rs ! k) \<and> describes props k (cols ! k) (rs ! k)"
      "ri_refCursor ri' \<longleftrightarrow> ri_refCursor ri \<or> fr \<and> REFCURSOROID \<in> a_type ` set cols"
    using describe_columns_ok [of props up "ri\<lparr>ri_recs := []\<rparr>" cols fr 0] assms by auto
  with default_c_type show ?thesis by (auto simp: getResultDescription_def rec_wf_def)
qed

definition demo_column :: "string \<Rightarrow> int \<Rightarrow> int \<Rightarrow> pg_column" where
  "demo_column nm oid m =
     \<lparr>a_name = Some (ascii nm @ [0]), a_type = oid, a_mod = m, a_nullable = 1, a_auto_increment = 0,
      a_catalog = None, a_schema = Some (ascii ''public'' @ [0]), a_table = Some [0], a_case_sensitive = -1\<rparr>"

definition demo_props :: conn_props where
  "demo_props = \<lparr>p_iUseUnicode = False, p_iMaxVarcharSize = 255, p_iMaxLongVarcharSize = 65535,
     p_iLoggedVarcharSkip = False, p_iLoggedVarcharPromotion = False\<rparr>"

definition demo_info :: res_info where
  "demo_info = \<lparr>ri_recs = [], ri_index = (\<lambda>_. None), ri_refCursor = False,
     ri_stmt = Some \<lparr>q_catalogQuery = True, q_props = Some demo_props\<rparr>\<rparr>"

definition demo_cols :: "pg_column list" where
  "demo_cols = [demo_column ''price'' 1700 (10 * 2 ^ 16 + 2 + 4), demo_column ''body'' 1043 1004]"

lemma demo_info_ok: "stmt_settings (Some demo_props) True (ri_stmt demo_info)"
  by (simp add: demo_info_def stmt_settings_def same_settings_def)

lemma demo_cols_ok: "\<forall>a\<in>set demo_cols. column_ok a"
  by (simp add: demo_cols_def demo_column_def column_ok_def c_text_iff ascii_def)

theorem described_columns_well_formed_witness:
  "\<exists>ri'. getResultDescription demo_cols demo_info True = Some ri' \<and> length (ri_recs ri') = 2 \<and>
     describes (Some demo_props) 1 (demo_cols ! 1) (ri_recs ri' ! 1)"
  using described_columns_well_formed [OF demo_info_ok demo_cols_ok, of True]
  by (auto simp: demo_cols_def)

subsection \<open>Numeric columns\<close>

lemma numeric_modifier:
  fixes p s :: int
  assumes "0 \<le> s" and "s < 2 ^ 15" and "0 \<le> p" and "p < 2 ^ 15"
  shows "column_size NUMERICOID SQL_NUMERIC (p * 2 ^ 16 + s + 4) = p"
    and "column_scale SQL_NUMERIC (p * 2 ^ 16 + s + 4) = s"
proof -
  have "(s + 4 + p * 65536) div 65536 = p" "(s + 4 + p * 65536) mod 65536 = s + 4"
    using assms by (auto simp: div_pos_pos_trivial)
  then have "(p * 65536 + s + 4) div 65536 = p" "(p * 65536 + s + 4) mod 65536 = s + 4"
    by (simp_all add: algebra_simps)
  with assms show "column_size NUMERICOID SQL_NUMERIC (p * 2 ^ 16 + s + 4) = p"
      "column_scale SQL_NUMERIC (p * 2 ^ 16 + s + 4) = s"
    by (simp_all add: column_size_def column_scale_def drop_bit_eq_div take_bit_eq_mod c_arith)
qed

text \<open>The column of a result as the application sees it, when it asks for no name.\<close>

lemma describe_col_reports:
  assumes "cs_result st = Some n" and "cs_ird st = Some recs" and "k < n" and "n \<le> length recs" and "o_name out = None"
  shows "\<exists>rc ln. RS_SQLDescribeCol (Some st) (int k + 1) cbLen out =
    Some (Some (st\<lparr>cs_errors := []\<rparr>),
      out\<lparr>o_rc := rc, o_name := None, o_len := ln, o_type := set_ptr (o_type out) (to_odbc2 (cs_odbc2 st) (d_hType (recs ! k))),
          o_size := set_ptr (o_size out) (getSize (d_hType (recs ! k)) (d_iSize (recs ! k))),
          o_digits := set_ptr (o_digits out) (getScale (d_hType (recs ! k)) (d_hScale (recs ! k))),
          o_nullable := set_ptr (o_nullable out) (d_hNullable (recs ! k))\<rparr>)"
proof -
  have "column_rec (st\<lparr>cs_errors := []\<rparr>) (int k + 1) = Some (Inr (recs ! k))"
    using assms by (simp add: column_rec_def described_def nat_add_distrib)
  with assms(5) show ?thesis
    by (cases "o_len out") (simp_all add: RS_SQLDescribeCol_def Let_def copyStrDataSmallLen_def, (intro exI, rule refl)+)
qed

text \<open>
  Property C16. A column of type \<^verbatim>\<open>numeric(p, s)\<close> arrives with the modifier
  \<open>p * 65536 + s + 4\<close>; the application is told exactly the precision \<open>p\<close> and the scale \<open>s\<close>, at
  every position of the result and whatever the other columns and the settings of the connection
  are.
\<close>

theorem numeric_modifier_round_trip:
  assumes "stmt_settings props up (ri_stmt ri)" and "\<forall>a\<in>set cols. column_ok a"
    and "k < length cols" and "a_type (cols ! k) = NUMERICOID" and "a_mod (cols ! k) = p * 2 ^ 16 + s + 4"
    and "0 \<le> s" and "s \<le> p" and "p < 2 ^ 15"
    and "getResultDescription cols ri fr = Some ri'"
    and "cs_result st = Some (length cols)" and "cs_ird st = Some (ri_recs ri')"
    and "o_name out = None" and "o_type out = Some x" and "o_size out = Some y" and "o_digits out = Some z"
  shows "\<exists>st' out'. RS_SQLDescribeCol (Some st) (int k + 1) cbLen out = Some (st', out') \<and>
    o_type out' = Some SQL_NUMERIC \<and> o_size out' = Some p \<and> o_digits out' = Some s"
proof -
  obtain rs where rs: "ri_recs ri' = rs" "length rs = length cols"
      "\<forall>k<length cols. rec_wf (rs ! k) \<and> describes props k (cols ! k) (rs ! k)"
    using describe_columns_ok [of props up "ri\<lparr>ri_recs := []\<rparr>" cols fr 0] assms(1,2,9)
    by (auto simp: getResultDescription_def)
  have d: "describes props k (cols ! k) (rs ! k)" using rs(3) assms(3) by simp
  have "s < 2 ^ 15" "0 \<le> p" using assms(6-8) by auto
  note m = numeric_modifier [OF assms(6) this(1,2) assms(8)]
  have r: "d_hType (rs ! k) = 2" "d_iSize (rs ! k) = p" "d_hScale (rs ! k) = s"
    using d m unfolding describes_def assms(4,5)
    by (simp_all add: mapPgTypeToSqlType_def final_type_def short_chars_def split: option.splits)
  obtain rc ln where
    "RS_SQLDescribeCol (Some st) (int k + 1) cbLen out =
    Some (Some (st\<lparr>cs_errors := []\<rparr>),
      out\<lparr>o_rc := rc, o_name := None, o_len := ln, o_type := set_ptr (o_type out) (to_odbc2 (cs_odbc2 st) (d_hType (rs ! k))),
          o_size := set_ptr (o_size out) (getSize (d_hType (rs ! k)) (d_iSize (rs ! k))),
          o_digits := set_ptr (o_digits out) (getScale (d_hType (rs ! k)) (d_hScale (rs ! k))),
          o_nullable := set_ptr (o_nullable out) (d_hNullable (rs ! k))\<rparr>)"
    using describe_col_reports [OF assms(10,11,3) _ assms(12), of cbLen] rs(1,2) by auto
  with r assms(13-15) show ?thesis
    by (simp add: set_ptr_def to_odbc2_def getSize_def getScale_def)
qed

definition demo_out :: col_out where
  "demo_out = \<lparr>o_rc = 0, o_name = None, o_len = None, o_type = Some 0, o_size = Some 0, o_digits = Some 0, o_nullable = None\<rparr>"

definition demo_stmt :: "desc_rec list \<Rightarrow> col_stmt" where
  "demo_stmt recs = \<lparr>cs_result = Some (length recs), cs_ird = Some recs, cs_prepared = None, cs_isPrepared = False,
     cs_odbc2 = True, cs_errors = []\<rparr>"

theorem numeric_modifier_round_trip_witness:
  "\<exists>ri' st' out'. getResultDescription demo_cols demo_info True = Some ri' \<and>
     RS_SQLDescribeCol (Some (demo_stmt (ri_recs ri'))) 1 0 demo_out = Some (st', out') \<and>
     o_type out' = Some SQL_NUMERIC \<and> o_size out' = Some 10 \<and> o_digits out' = Some 2"
proof -
  obtain ri' rs where *: "describe_columns True 0 demo_cols (demo_info\<lparr>ri_recs := []\<rparr>) = Some ri'" "ri_recs ri' = rs"
      "length rs = length demo_cols"
    using describe_columns_ok [of "Some demo_props" True "demo_info\<lparr>ri_recs := []\<rparr>" demo_cols True 0] demo_info_ok demo_cols_ok
    by auto
  then have d: "getResultDescription demo_cols demo_info True = Some ri'" by (simp add: getResultDescription_def)
  have "\<exists>st' out'. RS_SQLDescribeCol (Some (demo_stmt (ri_recs ri'))) (int 0 + 1) 0 demo_out = Some (st', out') \<and>
     o_type out' = Some SQL_NUMERIC \<and> o_size out' = Some 10 \<and> o_digits out' = Some 2"
    by (rule numeric_modifier_round_trip [OF demo_info_ok demo_cols_ok _ _ _ _ _ _ d])
       (use * in \<open>auto simp: demo_cols_def demo_column_def demo_stmt_def demo_out_def\<close>)
  with d show ?thesis by auto
qed

subsection \<open>Long character columns\<close>

text \<open>
  When the connection limits the size of character columns, no column is reported
  in the range that OLE DB rejects: a column of a short character type is at most as long as the
  limit, and a column that the server declares as a longer character type is reported as a long
  one, with the size that is set for long columns.
\<close>

theorem no_column_in_dead_zone:
  assumes "stmt_settings (Some p) up (ri_stmt ri)" and "\<forall>a\<in>set cols. column_ok a"
    and "getResultDescription cols ri fr = Some ri'" and "k < length cols"
    and "0 < p_iMaxVarcharSize p" and "0 < p_iMaxLongVarcharSize p"
  shows "(d_hType (ri_recs ri' ! k) \<in> short_chars \<longrightarrow> d_iSize (ri_recs ri' ! k) \<le> p_iMaxVarcharSize p) \<and>
    (d_hType (ri_recs ri' ! k) \<in> long_chars \<and> a_type (cols ! k) \<noteq> SUPER \<longrightarrow>
       d_iSize (ri_recs ri' ! k) = p_iMaxLongVarcharSize p)"
proof -
  have "describes (Some p) k (cols ! k) (ri_recs ri' ! k)"
    using describe_columns_ok [of "Some p" up "ri\<lparr>ri_recs := []\<rparr>" cols fr 0] assms(1-4)
    by (auto simp: getResultDescription_def)
  moreover obtain t sp where t: "mapPgTypeToSqlType (a_type (cols ! k)) (settings_unicode (Some p)) = (t, sp)" by fastforce
  ultimately have f: "(d_hType (ri_recs ri' ! k), d_iSize (ri_recs ri' ! k)) =
      final_type (Some p) (t, column_size (a_type (cols ! k)) t (a_mod (cols ! k)))"
    by (simp add: describes_def)
  have "t \<in> long_chars \<Longrightarrow> a_type (cols ! k) = SUPER"
    using t unfolding mapPgTypeToSqlType_def long_chars_def by (auto split: if_splits)
  with f assms(5,6) show ?thesis
    by (auto simp: final_type_def short_chars_def long_chars_def split: if_splits)
qed

theorem no_column_in_dead_zone_witness:
  "\<exists>ri'. getResultDescription demo_cols demo_info True = Some ri' \<and>
     (d_hType (ri_recs ri' ! 1) \<in> short_chars \<longrightarrow> d_iSize (ri_recs ri' ! 1) \<le> 255) \<and>
     (d_hType (ri_recs ri' ! 1) \<in> long_chars \<longrightarrow> d_iSize (ri_recs ri' ! 1) = 65535)"
proof -
  obtain ri' where d: "describe_columns True 0 demo_cols (demo_info\<lparr>ri_recs := []\<rparr>) = Some ri'"
    using describe_columns_ok [of "Some demo_props" True "demo_info\<lparr>ri_recs := []\<rparr>" demo_cols True 0] demo_info_ok demo_cols_ok
    by auto
  then have "getResultDescription demo_cols demo_info True = Some ri'" by (simp add: getResultDescription_def)
  with no_column_in_dead_zone [OF demo_info_ok demo_cols_ok this, of 1] show ?thesis
    by (auto simp: demo_props_def demo_cols_def demo_column_def)
qed

subsection \<open>The two ways to ask for a column\<close>

lemma small_copy_no_error:
  assumes "copyStrDataSmallLen src n dest cb want = Some (rc, d, ln)"
  shows "rc \<noteq> SQL_ERROR"
proof -
  have "(if want then rc0 else SQL_SUCCESS) \<noteq> SQL_ERROR" if "rc0 = SQL_SUCCESS \<or> rc0 = SQL_SUCCESS_WITH_INFO" for rc0
    using that by (auto simp: odbc_codes)
  with assms show ?thesis
    by (fastforce simp: copyStrDataSmallLen_def Let_def split: option.splits if_splits)
qed

text \<open>
  Property C17. \<^verbatim>\<open>SQLDescribeCol\<close> and \<^verbatim>\<open>SQLColAttribute\<close> agree. When the first reports an error,
  the second reports the same error for each of the fields name, type, length, scale and
  nullability, and touches nothing; when it succeeds, the second delivers the same name, cut and
  counted in the same way, and the same type, size, digits and nullability.
\<close>

theorem describe_and_attribute_agree:
  assumes d: "RS_SQLDescribeCol (Some st) hCol cbLen out = Some (st', out')" and "0 \<le> cbLen"
    and o: "o_name out = Some buf" "o_len out = Some l" "o_type out = Some t" "o_size out = Some z"
      "o_digits out = Some g" "o_nullable out = Some n"
  shows "if o_rc out' = SQL_ERROR
    then \<forall>f\<in>{SQL_DESC_NAME, SQL_DESC_TYPE, SQL_DESC_LENGTH, SQL_DESC_SCALE, SQL_DESC_NULLABLE}.
           RS_SQLColAttribute (Some st) hCol f (Some buf) cbLen (Some l) (Some v) = Some (SQL_ERROR, st', Some buf, Some l, Some v)
    else RS_SQLColAttribute (Some st) hCol SQL_DESC_NAME (Some buf) cbLen (Some l) (Some v) =
           Some (o_rc out', st', o_name out', o_len out', Some v) \<and>
         RS_SQLColAttribute (Some st) hCol SQL_DESC_TYPE (Some buf) cbLen (Some l) (Some v) =
           Some (SQL_SUCCESS, st', Some buf, Some l, o_type out') \<and>
         RS_SQLColAttribute (Some st) hCol SQL_DESC_LENGTH (Some buf) cbLen (Some l) (Some v) =
           Some (SQL_SUCCESS, st', Some buf, Some l, o_size out') \<and>
         RS_SQLColAttribute (Some st) hCol SQL_DESC_SCALE (Some buf) cbLen (Some l) (Some v) =
           Some (SQL_SUCCESS, st', Some buf, Some l, o_digits out') \<and>
         RS_SQLColAttribute (Some st) hCol SQL_DESC_NULLABLE (Some buf) cbLen (Some l) (Some v) =
           Some (SQL_SUCCESS, st', Some buf, Some l, o_nullable out')"
proof -
  let ?st = "st\<lparr>cs_errors := []\<rparr>"
  obtain q where q: "column_rec ?st hCol = Some q"
    using d by (cases "column_rec ?st hCol") (auto simp: RS_SQLDescribeCol_def Let_def)
  show ?thesis
  proof (cases q)
    case (Inl state)
    with d q have e: "st' = Some (fail_with state ?st)" "o_rc out' = SQL_ERROR"
      by (auto simp: RS_SQLDescribeCol_def Let_def)
    have "described ?st = None \<Longrightarrow> state = ''HY000''" using q Inl by (simp add: column_rec_def)
    with e q Inl assms(2) show ?thesis
      by (auto simp: RS_SQLColAttribute_def Let_def isStrFieldIdentifier_def)
  next
    case (Inr r)
    obtain rc nm ln where c: "copyStrDataSmallLen (Some (d_szName r)) SQL_NTS (Some buf) cbLen True = Some (rc, nm, ln)"
      using d q Inr o by (cases "copyStrDataSmallLen (Some (d_szName r)) SQL_NTS (Some buf) cbLen True")
        (auto simp: RS_SQLDescribeCol_def Let_def)
    note rc = small_copy_no_error [OF c]
    obtain n0 recs where "described ?st = Some (n0, recs)" using q Inr by (auto simp: column_rec_def split: option.splits)
    moreover from c d q Inr o have "st' = Some ?st" "out' = out\<lparr>o_rc := rc, o_name := nm, o_len := ln,
        o_type := Some (to_odbc2 (cs_odbc2 st) (d_hType r)), o_size := Some (getSize (d_hType r) (d_iSize r)),
        o_digits := Some (getScale (d_hType r) (d_hScale r)), o_nullable := Some (d_hNullable r)\<rparr>"
      by (auto simp: RS_SQLDescribeCol_def Let_def set_ptr_def set_len_def)
    ultimately show ?thesis
      using q Inr c rc assms(2)
      by (simp add: RS_SQLColAttribute_def Let_def isStrFieldIdentifier_def col_attribute_def set_len_def)
  qed
qed

definition demo_ird :: "desc_rec list" where
  "demo_ird = [zero_rec\<lparr>d_hType := SQL_TYPE_DATE, d_szName := ascii ''day'' @ replicate 127 0, d_hNullable := 1\<rparr>]"

definition demo_ask :: col_out where
  "demo_ask = \<lparr>o_rc = 0, o_name = Some (replicate 3 7), o_len = Some 0, o_type = Some 0, o_size = Some 0, o_digits = Some 0,
     o_nullable = Some 0\<rparr>"

theorem describe_and_attribute_agree_witness:
  "RS_SQLColAttribute (Some (demo_stmt demo_ird)) 1 SQL_DESC_NAME (Some (replicate 3 7)) 3 (Some 0) (Some 0) =
     Some (SQL_SUCCESS_WITH_INFO, Some (demo_stmt demo_ird), Some (ascii ''da'' @ [0]), Some 3, Some 0)"
proof -
  let ?out = "\<lparr>o_rc = SQL_SUCCESS_WITH_INFO, o_name = Some (ascii ''da'' @ [0]), o_len = Some 3, o_type = Some 9, o_size = Some 10,
     o_digits = Some 0, o_nullable = Some 1\<rparr>"
  have d: "RS_SQLDescribeCol (Some (demo_stmt demo_ird)) 1 3 demo_ask = Some (Some (demo_stmt demo_ird), ?out)"
    by code_simp
  show ?thesis
    using describe_and_attribute_agree [OF d, of "replicate 3 7" 0 0 0 0 0 0]
    by (simp add: demo_ask_def odbc_codes)
qed

text \<open>
  For an ODBC 2 application the columns of type date, time and timestamp have the ODBC 2
  numbers in \<^verbatim>\<open>SQLDescribeCol\<close> and under \<^verbatim>\<open>SQL_DESC_TYPE\<close>, but its own call
  \<^verbatim>\<open>SQLColAttributes\<close> with \<^verbatim>\<open>SQL_COLUMN_TYPE\<close> answers the ODBC 3 number, which that version does
  not know.
\<close>

theorem odbc2_column_type_not_converted:
  assumes "cs_odbc2 st" and "column_rec (st\<lparr>cs_errors := []\<rparr>) hCol = Some (Inr r)"
    and "d_hType r \<in> {SQL_TYPE_DATE, SQL_TYPE_TIME, SQL_TYPE_TIMESTAMP}" and "d_hConciseType r = 0"
  shows "\<exists>st' st'' w. SQLColAttributes (Some st) hCol SQL_COLUMN_TYPE None 0 None (Some v) =
      Some (SQL_SUCCESS, st', None, None, Some (d_hType r)) \<and>
    RS_SQLColAttribute (Some st) hCol SQL_DESC_TYPE None 0 None (Some v) = Some (SQL_SUCCESS, st'', None, None, Some w) \<and>
    w = to_odbc2 True (d_hType r) \<and> w \<in> {SQL_DATE, SQL_TIME, SQL_TIMESTAMP}"
proof -
  obtain n recs where "described (st\<lparr>cs_errors := []\<rparr>) = Some (n, recs)"
    using assms(2) by (auto simp: column_rec_def split: option.splits)
  with assms show ?thesis
    by (auto simp: SQLColAttributes_def mapColAttributesToColAttributeIdentifier_def RS_SQLColAttribute_def Let_def
        isStrFieldIdentifier_def col_attribute_def getConciseType_def to_odbc2_def)
qed

theorem odbc2_column_type_not_converted_witness:
  "\<exists>st'. SQLColAttributes (Some (demo_stmt demo_ird)) 1 SQL_COLUMN_TYPE None 0 None (Some 0) =
     Some (SQL_SUCCESS, st', None, None, Some SQL_TYPE_DATE)"
proof -
  have h: "column_rec ((demo_stmt demo_ird)\<lparr>cs_errors := []\<rparr>) 1 = Some (Inr (demo_ird ! 0))" by code_simp
  show ?thesis
    using odbc2_column_type_not_converted [OF _ h, of 0] by (simp add: demo_stmt_def demo_ird_def zero_rec_def)
qed

end
