(* ===== verification/Rs_Display.thy ===== *)
theory Rs_Display
  imports Rs_Types Rs_Dates
begin

text \<open>
  The display size that the driver reports for a column against the texts that it produces for
  the values of that column.
\<close>

lemma snprintf_bound:
  "snprintf_at bl (buf, len) s = Some (buf', len') \<Longrightarrow> length buf' \<le> length buf + length s"
  by (auto simp: snprintf_at_def split: if_splits)

lemma sec_text_length:
  assumes "0 \<le> s" "s < 60" "0 \<le> f" "f < 1000000"
  shows "length (sec_text s f) = (if f \<noteq> 0 then 10 else 3)"
  using zpad_read(1) [of s 2] zpad_read(1) [of f 6] assms by (simp add: sec_text_def)

subsection \<open>Integers\<close>

text \<open>
  The display size of the integer types is enough for every value, sign included, and
  no smaller size would be: the extreme values take all of it (for \<^verbatim>\<open>SQL_SMALLINT\<close>, \<^verbatim>\<open>SQL_INTEGER\<close>
  and \<^verbatim>\<open>SQL_BIGINT\<close>).
\<close>

theorem integer_display_sizes_exact:
  "(\<forall>v. - (2 ^ 15) \<le> v \<and> v < 2 ^ 15 \<longrightarrow>
      int (length (dec_int v)) \<le> getDisplaySize (fst (mapPgTypeToSqlType INT2OID u)) z 0) \<and>
   (\<forall>v. - (2 ^ 31) \<le> v \<and> v < 2 ^ 31 \<longrightarrow>
      int (length (dec_int v)) \<le> getDisplaySize (fst (mapPgTypeToSqlType INT4OID u)) z 0) \<and>
   (\<forall>v. - (2 ^ 63) \<le> v \<and> v < 2 ^ 63 \<longrightarrow>
      int (length (dec_int v)) \<le> getDisplaySize (fst (mapPgTypeToSqlType INT8OID u)) z 0) \<and>
   int (length (dec_int (- (2 ^ 15)))) = getDisplaySize (fst (mapPgTypeToSqlType INT2OID u)) z 0 \<and>
   int (length (dec_int (- (2 ^ 31)))) = getDisplaySize (fst (mapPgTypeToSqlType INT4OID u)) z 0 \<and>
   int (length (dec_int (- (2 ^ 63)))) = getDisplaySize (fst (mapPgTypeToSqlType INT8OID u)) z 0"
proof (intro conjI allI impI)
  fix v :: int
  assume "- (2 ^ 15) \<le> v \<and> v < 2 ^ 15"
  then show "int (length (dec_int v)) \<le> getDisplaySize (fst (mapPgTypeToSqlType INT2OID u)) z 0"
    using dec_int_length [of 5 v] by (simp add: mapPgTypeToSqlType_def getDisplaySize_def split: if_splits)
next
  fix v :: int
  assume "- (2 ^ 31) \<le> v \<and> v < 2 ^ 31"
  then show "int (length (dec_int v)) \<le> getDisplaySize (fst (mapPgTypeToSqlType INT4OID u)) z 0"
    using dec_int_length [of 10 v] by (simp add: mapPgTypeToSqlType_def getDisplaySize_def split: if_splits)
next
  fix v :: int
  assume "- (2 ^ 63) \<le> v \<and> v < 2 ^ 63"
  then show "int (length (dec_int v)) \<le> getDisplaySize (fst (mapPgTypeToSqlType INT8OID u)) z 0"
    using dec_int_length [of 19 v] by (simp add: mapPgTypeToSqlType_def getDisplaySize_def split: if_splits)
qed (simp_all add: mapPgTypeToSqlType_def getDisplaySize_def dec_int_def dec_digits.simps)

theorem integer_display_sizes_exact_witness:
  "int (length (dec_int (- 32768))) \<le> getDisplaySize (fst (mapPgTypeToSqlType INT2OID True)) 0 0"
  using spec [OF conjunct1 [OF integer_display_sizes_exact [of True 0]], of "- 32768"] by simp

subsection \<open>Times\<close>

lemma time_of_day:
  assumes "0 \<le> t" "t < 86400000000"
  obtains h m s f where "time2tm t = Some (h, m, s, f)" "0 \<le> h" "h < 24" "0 \<le> m" "m < 60" "0 \<le> s" "s < 60" "0 \<le> f"
    "f < 1000000" "t = ((h * 60 + m) * 60 + s) * 1000000 + f"
proof -
  obtain h m s f where d2: "dt2time t = (h, m, s, f)" by (cases "dt2time t")
  have "day_fields t (h, m, s, f)" using dt2time_fields [of t] assms by (simp add: d2)
  moreover have "time2tm t = Some (h, m, s, f)"
    using assms by (simp add: time2tm_dt2time MAX_TIME_VALUE_def d2)
  ultimately show ?thesis using that assms by (auto simp: day_fields_def)
qed

text \<open>
  Property C18. What is printed for a value fits the display size of its column: a time of day with
  its microseconds in the 15 characters of \<^verbatim>\<open>time\<close>, and a timestamp of the years 1 to 9999 in the
  26 characters of \<^verbatim>\<open>timestamp\<close>.
\<close>

theorem temporal_text_fits_column:
  "(0 \<le> t \<and> t < 86400000000 \<and> time_out t bl None = Some (s, n) \<longrightarrow>
      int (length s) \<le> getDisplaySize (fst (mapPgTypeToSqlType TIMEOID u)) z 0) \<and>
   (- 730119 * 86400000000 \<le> ts \<and> ts < 2921940 * 86400000000 \<and> timestamp_out ts bl False = Some (s, n) \<longrightarrow>
      int (length s) \<le> getDisplaySize (fst (mapPgTypeToSqlType TIMESTAMPOID u)) z 0)"
proof (intro conjI impI)
  assume a: "0 \<le> t \<and> t < 86400000000 \<and> time_out t bl None = Some (s, n)"
  then obtain h m sec f where tm: "time2tm t = Some (h, m, sec, f)" "0 \<le> h" "h < 24" "0 \<le> m" "m < 60" "0 \<le> sec"
      "sec < 60" "0 \<le> f" "f < 1000000" using time_of_day by metis
  obtain b1 l1 where r1: "snprintf_at bl ([], 0) (zpad 2 h @ '':'' @ zpad 2 m) = Some (b1, l1)"
      "snprintf_at bl (b1, l1) (sec_text sec f) = Some (s, n)"
    using a tm by (cases "snprintf_at bl ([], 0) (zpad 2 h @ '':'' @ zpad 2 m)") (auto simp: time_out_def)
  have "length s \<le> 15"
    using snprintf_bound [OF r1(1)] snprintf_bound [OF r1(2)] sec_text_length [of sec f] zpad_read(1) [of h 2]
      zpad_read(1) [of m 2] tm by (simp split: if_splits)
  then show "int (length s) \<le> getDisplaySize (fst (mapPgTypeToSqlType TIMEOID u)) z 0"
    by (simp add: mapPgTypeToSqlType_def getDisplaySize_def)
next
  assume a: "- 730119 * 86400000000 \<le> ts \<and> ts < 2921940 * 86400000000 \<and> timestamp_out ts bl False = Some (s, n)"
  then have neq: "ts \<noteq> DT_NOBEGIN" "ts \<noteq> DT_NOEND" by (auto simp: DT_NOBEGIN_def DT_NOEND_def)
  note F = timestamp_fields [of ts]
  obtain tm f where tm: "timestamp2tm ts = Some (tm, f)"
    using F a by (cases "timestamp2tm ts") auto
  have fl: "valid_date (tm_year tm) (tm_mon tm) (tm_mday tm)" "0 \<le> tm_hour tm" "tm_hour tm < 24" "0 \<le> tm_min tm"
      "tm_min tm < 60" "0 \<le> tm_sec tm" "tm_sec tm < 60" "0 \<le> f" "f < 1000000"
      "ts = (day_number (tm_year tm) (tm_mon tm) (tm_mday tm) - day_number 2000 1 1) * 86400000000 +
         ((tm_hour tm * 60 + tm_min tm) * 60 + tm_sec tm) * 1000000 + f"
    using F tm a by auto
  let ?D = "day_number (tm_year tm) (tm_mon tm) (tm_mday tm)"
  have D: "366 \<le> ?D" "?D < 3652425"
    using fl(2-10) a by (simp_all add: epoch_day POSTGRES_EPOCH_JDATE_def)
  have y: "1 \<le> tm_year tm \<and> tm_year tm < 10000"
    by (rule year_bounds [OF fl(1)]) (use D in \<open>simp_all add: year_1_9999\<close>)
  have md: "1 \<le> tm_mon tm" "tm_mon tm \<le> 12" "1 \<le> tm_mday tm" "tm_mday tm < 100"
    using fl(1) by (simp_all add: valid_date_def month_len_def split: if_splits)
  let ?a = "zpad 4 (tm_year tm) @ ''-'' @ zpad 2 (tm_mon tm) @ ''-'' @ zpad 2 (tm_mday tm) @ '' '' @ zpad 2 (tm_hour tm) @
               '':'' @ zpad 2 (tm_min tm)"
  obtain b1 l1 where r1: "snprintf_at bl ([], 0) ?a = Some (b1, l1)"
      "snprintf_at bl (b1, l1) (sec_text (tm_sec tm) f) = Some (s, n)"
    using a tm neq y by (cases "snprintf_at bl ([], 0) ?a")
      (auto simp: timestamp_out_def split: bind_splits)
  have "length ?a = 16"
    using zpad_read(1) [of "tm_year tm" 4] zpad_read(1) [of "tm_mon tm" 2] zpad_read(1) [of "tm_mday tm" 2]
      zpad_read(1) [of "tm_hour tm" 2] zpad_read(1) [of "tm_min tm" 2] y md fl(2-5) by simp
  then have "length s \<le> 26"
    using snprintf_bound [OF r1(1)] snprintf_bound [OF r1(2)] sec_text_length [OF fl(6-9)] by (simp split: if_splits)
  then show "int (length s) \<le> getDisplaySize (fst (mapPgTypeToSqlType TIMESTAMPOID u)) z 0"
    by (simp add: mapPgTypeToSqlType_def getDisplaySize_def)
qed

theorem temporal_text_fits_column_witness:
  "time_out 86399000005 30 None = Some (''23:59:59.000005'', 15) \<and>
   int (length ''23:59:59.000005'') \<le> getDisplaySize (fst (mapPgTypeToSqlType TIMEOID True)) 0 0"
proof -
  have "time_out 86399000005 30 None = Some (''23:59:59.000005'', 15)" by code_simp
  moreover from this have "(0::int) \<le> 86399000005 \<and> (86399000005::int) < 86400000000 \<and>
      time_out 86399000005 30 None = Some (''23:59:59.000005'', 15)" by (intro conjI) simp_all
  ultimately show ?thesis
    using mp [OF conjunct1 [OF temporal_text_fits_column [of 86399000005 30 "''23:59:59.000005''" 15 True 0 0]]] by blast
qed

text \<open>
  A column of type \<^verbatim>\<open>timetz\<close> is reported with the display size of a time without
  zone, 15, although its values are printed with their zone: a time with microseconds and a zone
  of hours and minutes has 21 characters (the size that the driver itself keeps for the type), so
  an application that allocates the display size gets a truncated text.
\<close>

theorem timetz_wider_than_display_size:
  assumes "0 \<le> t" "t < 86400000000" "t mod 1000000 \<noteq> 0"
    and "\<bar>z\<bar> < 100 * 3600" "60 \<le> \<bar>z\<bar> mod 3600" "30 \<le> bl"
  shows "\<exists>s. time_out t bl (Some z) = Some (s, 21) \<and> length s = 21 \<and>
    (case mapPgTypeToSqlType TIMETZOID u of (ty, sp) \<Rightarrow>
       getDisplaySize ty MAX_TIMETZOID_SIZE sp = 15 \<and> getSize ty MAX_TIMETZOID_SIZE = 15)"
proof -
  obtain h m sec f where tm: "time2tm t = Some (h, m, sec, f)" "0 \<le> h" "h < 24" "0 \<le> m" "m < 60" "0 \<le> sec"
      "sec < 60" "0 \<le> f" "f < 1000000" "t = ((h * 60 + m) * 60 + sec) * 1000000 + f" using time_of_day assms(1,2) by metis
  have f: "f \<noteq> 0" using assms(3) tm(10) by auto
  let ?zh = "- (z sdiv 3600)" and ?zm = "(\<bar>z\<bar> sdiv 60) smod 60"
  have zm: "?zm = \<bar>z\<bar> div 60 mod 60"
    by (simp add: sdiv_nonneg smod_sdiv minus_div_mult_eq_mod)
  have pos: "0 < q" if "w = 60 * q + r" "60 \<le> w" "r < 60" for w q r :: int using that by simp
  have "\<bar>z\<bar> mod (60 * 60) = 60 * (\<bar>z\<bar> div 60 mod 60) + \<bar>z\<bar> mod 60" by (rule zmod_zmult2_eq) simp
  then have "0 < \<bar>z\<bar> div 60 mod 60" by (rule pos) (use assms(5) in simp_all)
  then have zm2: "0 < ?zm" "?zm < 60" unfolding zm by simp_all
  have "\<bar>z sdiv 3600\<bar> < 100" by (rule sdiv_quotient) (use assms(4) in simp_all)
  then have "length (dec_digits (nat \<bar>?zh\<bar>)) \<le> 2" using dec_digits_length [of "nat \<bar>?zh\<bar>" 2] by simp
  then have "length (zpad_signed ?zh) = 3" by (simp add: zpad_signed_def Let_def)
  then have len: "length (zpad 2 h @ '':'' @ zpad 2 m) = 5" "length (sec_text sec f) = 10"
      "length (zpad_signed ?zh @ (if ?zm \<noteq> 0 then '':'' @ zpad 2 ?zm else [])) = 6"
    using zpad_read(1) [of h 2] zpad_read(1) [of m 2] zpad_read(1) [of ?zm 2] zm2 tm f sec_text_length [OF tm(6-9)]
    by simp_all
  obtain a b c where abc: "a = zpad 2 h @ '':'' @ zpad 2 m" "b = sec_text sec f"
      "c = zpad_signed ?zh @ (if ?zm \<noteq> 0 then '':'' @ zpad 2 ?zm else [])" by simp
  have out: "time_out t bl (Some z) = Option.bind (snprintf_at bl ([], 0) a) (\<lambda>r1.
      Option.bind (snprintf_at bl r1 b) (\<lambda>r2. snprintf_at bl r2 c))"
    using tm(1-3) unfolding time_out_def abc by (simp add: Let_def)
  have "time_out t bl (Some z) = Some (a @ b @ c, 21)"
    using assms(6) len unfolding out abc [symmetric] by (simp add: snprintf_at_def)
  with len abc show ?thesis
    by (simp add: mapPgTypeToSqlType_def getDisplaySize_def getSize_def)
qed

theorem timetz_wider_than_display_size_witness:
  "\<exists>s. time_out 86399123456 30 (Some (-48600)) = Some (s, 21) \<and> length s = 21"
  using timetz_wider_than_display_size [of 86399123456 "-48600" 30 True] by auto

end
