(* ===== verification/Rs_Numeric.thy ===== *)
theory Rs_Numeric
  imports Rs_Copy "HOL-Library.Signed_Division"
begin

text \<open>
  Numeric values in the application's form: \<^verbatim>\<open>SQL_NUMERIC_STRUCT\<close> holds a scaled integer of up to
  128 bits in little-endian order. \<^verbatim>\<open>convertNumericStringToScaledInteger\<close> fills it from a numeral,
  \<^verbatim>\<open>convertScaledIntegerToNumericString\<close> prints it; its branch for precisions below 19 computes in
  floating point and is not modelled.
\<close>

abbreviation (input) "PADB_MAX_NUM_BUF_LEN \<equiv> 40 :: nat"
abbreviation (input) "SQL_MAX_NUMERIC_LEN \<equiv> 16 :: nat"

text \<open>Signed and unsigned bytes.\<close>

definition i8 :: "int \<Rightarrow> int" where "i8 x = signed_take_bit 7 x"
definition u8 :: "int \<Rightarrow> int" where "u8 x = x mod 256"

lemma i8_id [c_arith]: "- (2 ^ 7) \<le> x \<Longrightarrow> x < 2 ^ 7 \<Longrightarrow> i8 x = x"
  by (simp add: i8_def signed_take_bit_int_eq_self)

lemma u8_id [c_arith]: "0 \<le> x \<Longrightarrow> x < 256 \<Longrightarrow> u8 x = x"
  by (simp add: u8_def)

record sql_numeric =
  nv_precision :: int
  nv_scale :: int
  nv_sign :: int
  nv_val :: "byte list"

subsection \<open>From a numeral\<close>

text \<open>\<^verbatim>\<open>sscanf("%lld")\<close> on a text of at most 18 characters: no overflow; 0 when nothing is read.\<close>

definition char_digit :: "char \<Rightarrow> int" where
  "char_digit c = int (of_char c) - 48"

fun digits_value :: "int list \<Rightarrow> int" where
  "digits_value [] = 0"
| "digits_value (d # ds) = d * 10 ^ length ds + digits_value ds"

definition sscanf_lld :: "string \<Rightarrow> int" where
  "sscanf_lld s =
     (let t = dropWhile c_isspace s;
          (neg, u) = (case t of c # r \<Rightarrow> if c = CHR ''-'' then (True, r) else if c = CHR ''+'' then (False, r) else (False, t)
                      | [] \<Rightarrow> (False, []));
          v = digits_value (map char_digit (takeWhile is_digit u))
      in if neg then - v else v)"

text \<open>
  One pass of the inner loop: the digits from \<^verbatim>\<open>iStart\<close> on are halved; the result is the digits,
  the last carry and how far \<^verbatim>\<open>iStart\<close> moves. \<open>front\<close> says that \<^verbatim>\<open>i == iStart\<close>.
\<close>

fun halve :: "bool \<Rightarrow> int \<Rightarrow> int list \<Rightarrow> int list \<times> int \<times> nat" where
  "halve front iDigit [] = ([], iDigit, 0)"
| "halve front iDigit (d # ds) =
     (let iTotalVal = iDigit * 10 + d;
          skip = (front \<and> iTotalVal < 2)
      in case halve skip (iTotalVal smod 2) ds of (ds', r, n) \<Rightarrow>
           (iTotalVal sdiv 2 # ds', r, if skip then Suc n else n))"

text \<open>
  The outer loop, on the digits from \<^verbatim>\<open>iStart\<close> on. \<open>b\<close> is the number of the bit \<^verbatim>\<open>iBit\<close> and
  \<open>out\<close> the bytes stored so far. The result says what \<^verbatim>\<open>iStart\<close> is when the loop is left by its
  \<^verbatim>\<open>break\<close>.
\<close>

function bit_loop :: "int list \<Rightarrow> nat \<Rightarrow> nat \<Rightarrow> int \<Rightarrow> byte list \<Rightarrow> byte list \<times> int \<times> nat option" where
  "bit_loop ds iStart b iOutVal out =
     (if ds = [] then (out, iOutVal, None)
      else case halve True 0 ds of (ds', iDigit, n) \<Rightarrow>
        (let v = (if 0 < iDigit then iOutVal OR 2 ^ b else iOutVal)
         in if 8 \<le> b + 1 then
              (let out' = out @ [word_of_int v]
               in if SQL_MAX_NUMERIC_LEN - 1 \<le> length out' then (out', 0, Some (iStart + n))
                  else bit_loop (drop n ds') (iStart + n) 0 0 out')
            else bit_loop (drop n ds') (iStart + n) (b + 1) v out))"
  by pat_completeness auto
termination
  by (relation "measure (\<lambda>(ds, s, b, v, out). (15 - length out) * 9 + (8 - b))") (auto simp: Let_def)

declare bit_loop.simps [simp del]

definition pad16 :: "byte list \<Rightarrow> byte list" where
  "pad16 bs = bs @ replicate (SQL_MAX_NUMERIC_LEN - length bs) 0"

definition scaled_integer :: "string \<Rightarrow> sql_numeric \<Rightarrow> sql_numeric" where
  "scaled_integer szBuf n =
     (if length szBuf \<le> 18 then n\<lparr>nv_val := pad16 (le_bytes 8 (sscanf_lld szBuf))\<rparr>
      else case bit_loop (map char_digit szBuf) 0 0 0 [] of (out, iOutVal, left) \<Rightarrow>
        (let n' = (case left of Some iStart \<Rightarrow> n\<lparr>nv_scale := i8 (int iStart - nv_precision n)\<rparr> | None \<Rightarrow> n);
             out' = (if iOutVal \<noteq> 0 \<and> length out < SQL_MAX_NUMERIC_LEN - 1 then out @ [word_of_int iOutVal] else out)
         in n'\<lparr>nv_val := pad16 out'\<rparr>))"

text \<open>The numeral without its sign; \<open>None\<close> when \<^verbatim>\<open>memcpy\<close> gets a negative length.\<close>

definition unsigned_numeral :: "string \<Rightarrow> sql_numeric \<Rightarrow> sql_numeric option" where
  "unsigned_numeral s n =
     (let len = int (length s) in
      if CHR ''.'' \<in> set s then
        (let frac = tl (dropWhile (\<lambda>c. c \<noteq> CHR ''.'') s);
             scale = i8 (int (length frac));
             len1 = min (len - 1 - scale) (int PADB_MAX_NUM_BUF_LEN);
             len2 = min scale (int PADB_MAX_NUM_BUF_LEN - len1)
         in if len1 < 0 then None
            else Some (scaled_integer (take (nat len1) s @ take (nat len2) frac)
                   (n\<lparr>nv_precision := u8 (len - 1), nv_scale := scale\<rparr>)))
      else Some (scaled_integer (take PADB_MAX_NUM_BUF_LEN s) (n\<lparr>nv_precision := u8 len, nv_scale := 0\<rparr>)))"

definition convertNumericStringToScaledInteger :: "string \<Rightarrow> sql_numeric option" where
  "convertNumericStringToScaledInteger pNumData =
     (let n = \<lparr>nv_precision = 0, nv_scale = 0, nv_sign = 1, nv_val = replicate SQL_MAX_NUMERIC_LEN 0\<rparr>
      in case pNumData of
           c # s \<Rightarrow> if c = CHR ''+'' then unsigned_numeral s n
                    else if c = CHR ''-'' then unsigned_numeral s (n\<lparr>nv_sign := 0\<rparr>)
                    else unsigned_numeral pNumData n
         | [] \<Rightarrow> unsigned_numeral [] n)"

subsection \<open>To a numeral\<close>

text \<open>
  \<^verbatim>\<open>pTempBuf\<close> holds decimal digits, the lowest first. \<open>None\<close>: an access outside of it.
\<close>

definition add_at :: "nat \<Rightarrow> nat \<Rightarrow> nat list \<Rightarrow> nat list option" where
  "add_at k v buf = (if k < length buf then Some (buf[k := (buf ! k + v) mod 256]) else None)"

text \<open>\<^verbatim>\<open>while (pTempBuf[k] > 9) { pTempBuf[k + 1]++; pTempBuf[k] -= 10; }\<close>\<close>

fun drain :: "nat \<Rightarrow> nat \<Rightarrow> nat \<times> nat" where
  "drain d up = (if 9 < d then drain (d - 10) ((up + 1) mod 256) else (d, up))"

declare drain.simps [simp del]

text \<open>The loop that carries from \<open>k\<close> on; it ends at \<open>stop\<close> or later, where nothing is carried.\<close>

function carry :: "nat \<Rightarrow> nat \<Rightarrow> nat list \<Rightarrow> nat \<Rightarrow> (nat list \<times> nat) option" where
  "carry stop k buf len =
     (if length buf \<le> k then None
      else (let d = buf ! k; len' = (if 0 < d \<and> len \<le> k then k + 1 else len) in
        if 9 < d then
          (if k + 1 < length buf
           then (case drain d (buf ! (k + 1)) of (d', up) \<Rightarrow> carry stop (k + 1) (buf[k := d', k + 1 := up]) len')
           else None)
        else if stop \<le> k then Some (buf, len')
        else carry stop (k + 1) buf len'))"
  by pat_completeness auto
termination by (relation "measure (\<lambda>(stop, k, buf, len). length buf - k)") auto

declare carry.simps [simp del]

text \<open>Multiplication by 256, from the digit before \<open>j\<close> down.\<close>

primrec mult_loop :: "nat \<Rightarrow> nat list \<Rightarrow> nat \<Rightarrow> (nat list \<times> nat) option" where
  "mult_loop 0 buf len = Some (buf, len)"
| "mult_loop (Suc j) buf len =
     (if buf ! j = 0 then mult_loop j buf len
      else (let ival = buf ! j * 256 in
        Option.bind (add_at (j + 1) (ival div 10 mod 10) (buf[j := ival mod 10])) (\<lambda>b1.
        Option.bind (add_at (j + 2) (ival div 100 mod 10) b1) (\<lambda>b2.
        Option.bind (add_at (j + 3) (ival div 1000) b2) (\<lambda>b3.
        Option.bind (carry (j + 3) j b3 len) (\<lambda>(b4, len'). mult_loop j b4 len'))))))"

definition add_byte :: "nat \<Rightarrow> nat list \<Rightarrow> nat \<Rightarrow> (nat list \<times> nat) option" where
  "add_byte ival buf len =
     (if ival = 0 then Some (buf, len)
      else Option.bind (add_at 0 (ival mod 10) buf) (\<lambda>b1.
           Option.bind (add_at 1 (ival div 10 mod 10) b1) (\<lambda>b2.
           Option.bind (add_at 2 (ival div 100) b2) (\<lambda>b3. carry 2 0 b3 len))))"

text \<open>The bytes, from the highest down.\<close>

fun byte_loop :: "byte list \<Rightarrow> nat list \<Rightarrow> nat \<Rightarrow> (nat list \<times> nat) option" where
  "byte_loop [] buf len = Some (buf, len)"
| "byte_loop (v # vs) buf len =
     Option.bind (mult_loop len buf len) (\<lambda>(b1, len1).
     Option.bind (add_byte (unat v) b1 len1) (\<lambda>(b2, len2). byte_loop vs b2 len2))"

definition prec2ScaledIntegerLen :: "nat list" where
  "prec2ScaledIntegerLen = [1, 3, 5, 8, 10, 13, 15, 17, 20, 22, 25, 27, 29, 32, 34, 37, 39]"

definition scaled_len :: "int \<Rightarrow> nat" where
  "scaled_len precision = length (takeWhile (\<lambda>p. int p \<le> precision) (take SQL_MAX_NUMERIC_LEN prec2ScaledIntegerLen))"

text \<open>\<^verbatim>\<open>for (; i >= lo; i--) pNumData[outputLen++] = pTempBuf[i] + '0'\<close>\<close>

definition digits_down :: "nat list \<Rightarrow> int \<Rightarrow> int \<Rightarrow> string option" where
  "digits_down buf i lo =
     (if i < lo then Some []
      else if lo < 0 \<or> int (length buf) \<le> i then None
      else Some (map (\<lambda>k. char_of (48 + buf ! k)) (rev [nat lo..<nat i + 1])))"

definition print_scaled :: "sql_numeric \<Rightarrow> nat list \<Rightarrow> nat \<Rightarrow> string option" where
  "print_scaled n buf len =
     (let i = max (int len - 1) (nv_scale n) in
      Option.bind (digits_down buf i (nv_scale n)) (\<lambda>a.
      Option.bind (if 0 < nv_scale n then map_option ((@) ''.'') (digits_down buf (nv_scale n - 1) 0) else Some []) (\<lambda>f.
        Some ((if nv_sign n = 0 then ''-'' else []) @ a @ f @ (if len = 0 then ''0'' else [])))))"

definition scaled128ToNumericString :: "sql_numeric \<Rightarrow> string option" where
  "scaled128ToNumericString n =
     Option.bind (byte_loop (rev (take (scaled_len (nv_precision n)) (nv_val n))) (replicate PADB_MAX_NUM_BUF_LEN 0) 0)
       (\<lambda>(buf, len). print_scaled n buf len)"

end
