(* ===== verification/Rs_Numeric_Promises.thy ===== *)
theory Rs_Numeric_Promises
  imports Rs_Numeric
begin

unbundle bit_operations_syntax

text \<open>
  The two conversions between numerals and scaled integers against the values they stand for.
\<close>

subsection \<open>Values\<close>

definition digit_list :: "int list \<Rightarrow> bool" where
  "digit_list ds \<longleftrightarrow> (\<forall>d\<in>set ds. 0 \<le> d \<and> d \<le> 9)"

lemma digit_list_simps [simp]:
  "digit_list []" "digit_list (d # ds) \<longleftrightarrow> 0 \<le> d \<and> d \<le> 9 \<and> digit_list ds"
  by (auto simp: digit_list_def)

lemma digit_list_drop: "digit_list ds \<Longrightarrow> digit_list (drop n ds)"
  by (auto simp: digit_list_def dest: in_set_dropD)

lemma digits_value_range: "digit_list ds \<Longrightarrow> 0 \<le> digits_value ds \<and> digits_value ds < 10 ^ length ds"
proof (induction ds)
  case (Cons d ds)
  then have v: "0 \<le> digits_value ds" "digits_value ds < 10 ^ length ds" "0 \<le> d" "d \<le> 9" by auto
  have "d * 10 ^ length ds \<le> 9 * 10 ^ length ds" "0 \<le> d * 10 ^ length ds" using v(3,4) by (simp_all add: mult_right_mono)
  moreover have "10 ^ length (d # ds) = 9 * 10 ^ length ds + (10::int) ^ length ds" by simp
  ultimately show ?case using v(1,2) unfolding digits_value.simps by linarith
qed simp

lemma digits_value_zeros: "set xs \<subseteq> {0} \<Longrightarrow> digits_value (xs @ ys) = digits_value ys"
  by (induction xs) auto

lemma sdiv_digit: "0 \<le> (t::int) \<Longrightarrow> t sdiv 2 = t div 2" "0 \<le> t \<Longrightarrow> t smod 2 = t mod 2"
  by (simp_all add: signed_divide_int_def signed_modulo_int_def sgn_if minus_div_mult_eq_mod)

lemma le_bytes_le_value: "le_bytes (length bs) (le_value bs) = bs"
proof (induction bs)
  case (Cons b bs)
  have "word_of_int (uint b + 256 * le_value bs) = b"
  proof (rule unsigned_word_eqI)
    show "uint (word_of_int (uint b + 256 * le_value bs) :: byte) = uint b"
      using uint_lt2p [of b] unfolding unsigned_of_int by (simp add: take_bit_eq_mod)
  qed
  moreover have "(uint b + 256 * le_value bs) div 256 = le_value bs"
    using uint_lt2p [of b] by simp
  ultimately show ?case using Cons by simp
qed simp

lemma le_bytes_unique: "length bs = n \<Longrightarrow> le_value bs = v \<Longrightarrow> bs = le_bytes n v"
  using le_bytes_le_value by metis

lemma le_value_zeros [simp]: "le_value (replicate n 0) = 0"
  by (induction n) auto

lemma le_value_snoc: "0 \<le> v \<Longrightarrow> v < 256 \<Longrightarrow> le_value (out @ [word_of_int v]) = le_value out + 256 ^ length out * v"
  by (simp add: le_value_append unsigned_of_int take_bit_eq_mod)

lemma or_bit: "0 \<le> (w::int) \<Longrightarrow> w < 2 ^ b \<Longrightarrow> w OR 2 ^ b = w + 2 ^ b"
proof -
  assume "0 \<le> w" "w < 2 ^ b"
  then have t: "take_bit b w = w" by (simp add: take_bit_int_eq_self)
  have "w AND 2 ^ b = 0"
    by (rule bit_eqI) (subst t [symmetric], auto simp: bit_simps)
  then show ?thesis using plus_and_or [of w "2 ^ b"] by simp
qed

subsection \<open>Halving\<close>

lemma halve_ok:
  assumes "halve front r ds = (ds', r', n)" and "digit_list ds" and "r \<in> {0, 1}"
  shows "digit_list ds' \<and> length ds' = length ds \<and> r' \<in> {0, 1} \<and> n \<le> length ds \<and>
    r * 10 ^ length ds + digits_value ds = 2 * digits_value ds' + r' \<and> set (take n ds') \<subseteq> {0} \<and>
    (front \<longrightarrow> drop n ds' = [] \<or> 1 \<le> hd (drop n ds')) \<and> (\<not> front \<longrightarrow> n = 0)"
  using assms
proof (induction ds arbitrary: front r ds' r' n)
  case Nil
  then show ?case by auto
next
  case (Cons d ds)
  let ?t = "r * 10 + d" and ?s = "front \<and> r * 10 + d < 2"
  have t: "0 \<le> ?t" "?t \<le> 19" using Cons.prems(2,3) by auto
  have two: "?t mod 2 \<in> {0, 1}" by auto
  obtain es q m where h: "halve ?s (?t mod 2) ds = (es, q, m)" by (cases "halve ?s (?t mod 2) ds")
  have eq: "ds' = ?t div 2 # es" "r' = q" "n = (if ?s then Suc m else m)"
    using Cons.prems(1) h t(1) by (auto simp: Let_def sdiv_digit)
  have IH: "digit_list es" "length es = length ds" "q \<in> {0, 1}" "m \<le> length ds"
      "(?t mod 2) * 10 ^ length ds + digits_value ds = 2 * digits_value es + q" "set (take m es) \<subseteq> {0}"
      "?s \<longrightarrow> drop m es = [] \<or> 1 \<le> hd (drop m es)" "\<not> ?s \<longrightarrow> m = 0"
    using Cons.IH [OF h _ two] Cons.prems(2) by auto
  have half: "?t div 2 \<le> 9" "0 \<le> ?t div 2" using t by auto
  have "?t = 2 * (?t div 2) + ?t mod 2" by simp
  then have "?t * 10 ^ length ds = 2 * ((?t div 2) * 10 ^ length ds) + (?t mod 2) * 10 ^ length ds"
    by (metis distrib_right mult.assoc)
  then have val: "r * 10 ^ length (d # ds) + digits_value (d # ds) = 2 * digits_value ds' + r'"
    using IH(2,5) by (simp add: eq algebra_simps)
  show ?case
  proof (cases ?s)
    case True
    then have "?t div 2 = 0" using t by auto
    with True IH half val show ?thesis by (auto simp: eq)
  next
    case False
    then have "m = 0" using IH(8) by simp
    moreover have "front \<longrightarrow> 1 \<le> ?t div 2" using False t by auto
    ultimately show ?thesis using False IH half val by (auto simp: eq)
  qed
qed

lemma digits_value_pos: "digit_list ds \<Longrightarrow> ds \<noteq> [] \<Longrightarrow> 1 \<le> hd ds \<Longrightarrow> 1 \<le> digits_value ds"
proof (cases ds)
  case (Cons d es)
  assume "digit_list ds" "1 \<le> hd ds"
  then have "1 \<le> d" "0 \<le> digits_value es" using digits_value_range [of es] by (auto simp: Cons)
  then have "(1::int) * 1 \<le> d * 10 ^ length es" by (intro mult_mono) auto
  then show ?thesis using \<open>0 \<le> digits_value es\<close> by (simp add: Cons)
qed simp

subsection \<open>The loop over the bits\<close>

text \<open>What is stored and what is left, as one number.\<close>

definition total_value :: "int list \<Rightarrow> nat \<Rightarrow> int \<Rightarrow> byte list \<Rightarrow> int" where
  "total_value ds b w out = le_value out + 256 ^ length out * (w + 2 ^ b * digits_value ds)"

lemma bytes_bits: "(256::int) ^ n = 2 ^ (8 * n)"
  by (simp add: power_mult)

lemma le_value_bound: "le_value bs + 256 ^ length bs * w < 2 ^ (8 * length bs + b)" if "0 \<le> w" "w < 2 ^ b"
proof -
  have "le_value bs < 256 ^ length bs" using le_value_range by blast
  moreover have "256 ^ length bs * (w + 1) \<le> 256 ^ length bs * 2 ^ b"
    using that by (intro mult_left_mono) auto
  ultimately show ?thesis by (simp add: bytes_bits power_add algebra_simps)
qed

lemma one_pass:
  assumes "halve True 0 ds = (ds', r, n)" and "digit_list ds" and "0 \<le> w" and "w < 2 ^ b"
  shows "(if 0 < r then w OR 2 ^ b else w) + 2 ^ (b + 1) * digits_value (drop n ds') = w + 2 ^ b * digits_value ds"
    and "0 \<le> (if 0 < r then w OR 2 ^ b else w)" and "(if 0 < r then w OR 2 ^ b else w) < 2 ^ (b + 1)"
    and "digit_list (drop n ds')" and "drop n ds' \<noteq> [] \<longrightarrow> 1 \<le> digits_value (drop n ds')" and "n \<le> length ds"
    and "length (drop n ds') = length ds - n"
proof -
  note h = halve_ok [OF assms(1,2)]
  have d: "digits_value ds' = digits_value (drop n ds')"
    using h digits_value_zeros [of "take n ds'" "drop n ds'"] by simp
  have v: "digits_value ds = 2 * digits_value (drop n ds') + r" "r \<in> {0, 1}" using h d by auto
  then show "(if 0 < r then w OR 2 ^ b else w) + 2 ^ (b + 1) * digits_value (drop n ds') = w + 2 ^ b * digits_value ds"
    using or_bit [OF assms(3,4)] by (auto simp: algebra_simps)
  show "0 \<le> (if 0 < r then w OR 2 ^ b else w)" "(if 0 < r then w OR 2 ^ b else w) < 2 ^ (b + 1)"
    using or_bit [OF assms(3,4)] assms(3,4) by auto
  show dl: "digit_list (drop n ds')" using h digit_list_drop by blast
  show "drop n ds' \<noteq> [] \<longrightarrow> 1 \<le> digits_value (drop n ds')" using h digits_value_pos [OF dl] by auto
  show "n \<le> length ds" "length (drop n ds') = length ds - n" using h by auto
qed

lemma bit_loop_ok:
  assumes "digit_list ds" and "length out < 15" and "b < 8" and "0 \<le> w" and "w < 2 ^ b"
    and "ds \<noteq> [] \<longrightarrow> length out = 14 \<longrightarrow> 1 \<le> digits_value ds"
    and "bit_loop ds s b w out = (out', w', left)"
  shows "(case left of
      None \<Rightarrow> length out' < 15 \<and> 0 \<le> w' \<and> w' < 256 \<and> le_value out' + 256 ^ length out' * w' = total_value ds b w out \<and>
        total_value ds b w out < 2 ^ 119
    | Some i \<Rightarrow> length out' = 15 \<and> w' = 0 \<and> le_value out' = total_value ds b w out mod 2 ^ 120 \<and> s \<le> i \<and>
        i \<le> s + length ds \<and> 2 ^ 119 \<le> total_value ds b w out)"
  using assms
proof (induction ds s b w out arbitrary: out' w' left rule: bit_loop.induct)
  case (1 ds s b w out)
  show ?case
  proof (cases "ds = []")
    case True
    have "le_value out + 256 ^ length out * w < 2 ^ (8 * length out + b)"
      by (rule le_value_bound) (use 1(6,7) in auto)
    also have "\<dots> \<le> 2 ^ 119" using 1(4,5) by (intro power_increasing) auto
    finally have "le_value out + 256 ^ length out * w < 2 ^ 119" .
    moreover have "w < 256" using 1(5,7) power_increasing [of b 8 "2::int"] by simp
    ultimately show ?thesis
      using 1(4-9) True by (subst (asm) bit_loop.simps) (auto simp: total_value_def)
  next
    case False
    obtain ds' r n where h: "halve True 0 ds = (ds', r, n)" by (cases "halve True 0 ds")
    obtain v where v: "v = (if 0 < r then w OR 2 ^ b else w)" by simp
    note P = one_pass [OF h 1(3) 1(6,7), folded v]
    show ?thesis
    proof (cases "8 \<le> b + 1")
      case full: True
      then have b: "b = 7" using 1(5) by simp
      obtain o1 where o1: "o1 = out @ [word_of_int v]" by simp
      have lo: "length o1 = Suc (length out)" by (simp add: o1)
      have vb: "v < 256" using P(3) b by simp
      have lv: "le_value o1 = le_value out + 256 ^ length out * v"
        unfolding o1 by (rule le_value_snoc) (use P(2) vb in auto)
      have tot: "total_value ds b w out = le_value o1 + 256 ^ length o1 * digits_value (drop n ds')"
        unfolding total_value_def P(1) [symmetric] lv lo by (simp add: b algebra_simps)
      show ?thesis
      proof (cases "15 \<le> length o1")
        case True
        then have l14: "length out = 14" using lo 1(4) by simp
        have eq: "bit_loop ds s b w out = (o1, 0, Some (s + n))"
          using False h full True lo by (subst bit_loop.simps) (simp add: v [symmetric] o1 [symmetric])
        have res: "out' = o1" "w' = 0" "left = Some (s + n)"
          using 1(9) unfolding eq by simp_all
        have "le_value o1 < 2 ^ 120" using le_value_range [of o1] l14 lo by (simp add: bytes_bits)
        moreover have "(256::int) ^ length o1 = 2 ^ 120" using l14 lo by (simp add: bytes_bits)
        ultimately have m: "le_value o1 = total_value ds b w out mod 2 ^ 120"
          using le_value_range [of o1] by (simp add: tot mod_mult_self2)
        have "1 \<le> digits_value ds" using 1(8) False l14 by simp
        then have "2 ^ b * 1 \<le> (2::int) ^ b * digits_value ds" by (intro mult_left_mono) auto
        then have "2 ^ b \<le> w + 2 ^ b * digits_value ds" using 1(6) by linarith
        then have "256 ^ length out * 2 ^ b \<le> 256 ^ length out * (w + 2 ^ b * digits_value ds)"
          by (intro mult_left_mono) auto
        moreover have "(256::int) ^ length out * 2 ^ b = 2 ^ 119" using l14 b by (simp add: bytes_bits)
        ultimately have "2 ^ 119 \<le> total_value ds b w out"
          using le_value_range [of out] unfolding total_value_def by linarith
        with res m P(6) l14 lo show ?thesis by simp
      next
        case notyet: False
        have call: "bit_loop (drop n ds') (s + n) 0 0 o1 = (out', w', left)"
          using 1(9) False h full notyet lo by (subst (asm) bit_loop.simps) (simp add: Let_def v [symmetric] o1 [symmetric])
        have t: "total_value (drop n ds') 0 0 o1 = total_value ds b w out" by (simp add: tot) (simp add: total_value_def)
        have ny: "\<not> 16 - 1 \<le> length o1" using notyet by simp
        note IH = 1(1) [OF False h [symmetric] refl v full o1 ny P(4) _ _ _ _ _ call]
        show ?thesis using IH notyet P(5,6,7) unfolding t by (auto split: option.splits)
      qed
    next
      case notfull: False
      have call: "bit_loop (drop n ds') (s + n) (b + 1) v out = (out', w', left)"
        using 1(9) False h notfull by (subst (asm) bit_loop.simps) (simp add: Let_def v [symmetric])
      have t: "total_value (drop n ds') (b + 1) v out = total_value ds b w out"
        using P(1) by (simp add: total_value_def)
      note IH = 1(2) [OF False h [symmetric] refl v notfull P(4) 1(4) _ P(2,3) _ call]
      show ?thesis using IH notfull P(5,6,7) unfolding t by (auto split: option.splits)
    qed
  qed
qed

subsection \<open>From a numeral\<close>

definition numeral_value :: "string \<Rightarrow> int" where
  "numeral_value s = digits_value (map char_digit s)"

lemma char_digit_range: "is_digit c \<Longrightarrow> 0 \<le> char_digit c \<and> char_digit c \<le> 9"
  by (simp add: is_digit_def char_digit_def)

lemma digit_list_chars: "list_all is_digit s \<Longrightarrow> digit_list (map char_digit s)"
  using char_digit_range by (auto simp: digit_list_def list_all_iff)

lemma numeral_value_range: "list_all is_digit s \<Longrightarrow> 0 \<le> numeral_value s \<and> numeral_value s < 10 ^ length s"
  using digits_value_range [OF digit_list_chars] by (simp add: numeral_value_def)

lemma char_digit_not_special: "is_digit c \<Longrightarrow> \<not> c_isspace c" "is_digit c \<Longrightarrow> c \<notin> {CHR ''-'', CHR ''+'', CHR ''.''}"
  by (auto simp: is_digit_def c_isspace_def)

lemma sscanf_digits: "list_all is_digit s \<Longrightarrow> sscanf_lld s = numeral_value s"
proof (cases s)
  case Nil
  then show ?thesis by (simp add: sscanf_lld_def numeral_value_def)
next
  case (Cons c r)
  assume d: "list_all is_digit s"
  then have t: "takeWhile is_digit s = s" by (simp add: list_all_iff takeWhile_eq_all_conv)
  have "is_digit c" using d Cons by simp
  with char_digit_not_special [OF this] have "dropWhile c_isspace s = s" "c \<noteq> CHR ''-''" "c \<noteq> CHR ''+''"
    by (auto simp: Cons)
  with t show ?thesis by (simp add: sscanf_lld_def numeral_value_def Cons)
qed

lemma pad16_value: "length out \<le> 16 \<Longrightarrow> le_value (pad16 out) = le_value out \<and> length (pad16 out) = 16"
  by (simp add: pad16_def le_value_append)

lemma pad16_le_bytes: "length out \<le> 16 \<Longrightarrow> pad16 out = le_bytes 16 (le_value out)"
  using le_bytes_unique [of "pad16 out" 16 "le_value out"] pad16_value [of out] by simp

lemma scaled_integer_ok:
  assumes d: "list_all is_digit s"
  shows "numeral_value s < 2 ^ 119 \<Longrightarrow> scaled_integer s n = n\<lparr>nv_val := le_bytes 16 (numeral_value s)\<rparr>"
    and "2 ^ 119 \<le> numeral_value s \<Longrightarrow> \<exists>i\<le>length s. scaled_integer s n =
      n\<lparr>nv_scale := i8 (int i - nv_precision n), nv_val := le_bytes 16 (numeral_value s mod 2 ^ 120)\<rparr>"
proof -
  let ?V = "numeral_value s"
  have short: "scaled_integer s n = n\<lparr>nv_val := le_bytes 16 ?V\<rparr> \<and> ?V < 2 ^ 119" if "length s \<le> 18"
  proof -
    have "?V < 10 ^ length s" "0 \<le> ?V" using numeral_value_range [OF d] by auto
    moreover have "(10::int) ^ length s \<le> 10 ^ 18" using that by (intro power_increasing) auto
    ultimately have v: "0 \<le> ?V" "?V < 2 ^ 64" by auto
    then have "le_value (le_bytes 8 ?V) = ?V" by (simp add: le_value_le_bytes)
    then have "pad16 (le_bytes 8 ?V) = le_bytes 16 ?V" using pad16_le_bytes [of "le_bytes 8 ?V"] by (simp only: length_le_bytes)
    moreover have "scaled_integer s n = n\<lparr>nv_val := pad16 (le_bytes 8 ?V)\<rparr>"
      unfolding scaled_integer_def sscanf_digits [OF d] using that by simp
    moreover have "?V < 2 ^ 119" using v(2) by simp
    ultimately show ?thesis by simp
  qed
  obtain out w left where b: "bit_loop (map char_digit s) 0 0 0 [] = (out, w, left)" by (cases "bit_loop (map char_digit s) 0 0 0 []")
  have t: "total_value (map char_digit s) 0 0 [] = ?V" by (simp add: total_value_def numeral_value_def)
  note L = bit_loop_ok [OF digit_list_chars [OF d] _ _ _ _ _ b, unfolded t]
  show "?V < 2 ^ 119 \<Longrightarrow> scaled_integer s n = n\<lparr>nv_val := le_bytes 16 ?V\<rparr>"
  proof (cases "length s \<le> 18")
    case False
    assume "?V < 2 ^ 119"
    with L have r: "left = None" "length out < 15" "0 \<le> w" "w < 256" "le_value out + 256 ^ length out * w = ?V"
      by (auto split: option.splits)
    obtain o2 where o2: "o2 = (if w \<noteq> 0 \<and> length out < 15 then out @ [word_of_int w] else out)" by simp
    have "le_value o2 = ?V" "length o2 \<le> 16" using r le_value_snoc [of w out] by (auto simp: o2)
    then have "pad16 o2 = le_bytes 16 ?V" using pad16_le_bytes [of o2] by simp
    moreover have "scaled_integer s n = n\<lparr>nv_val := pad16 o2\<rparr>"
      using False by (simp add: scaled_integer_def b r(1) o2)
    ultimately show ?thesis by simp
  qed (use short in simp)
  show "2 ^ 119 \<le> ?V \<Longrightarrow> \<exists>i\<le>length s. scaled_integer s n =
      n\<lparr>nv_scale := i8 (int i - nv_precision n), nv_val := le_bytes 16 (?V mod 2 ^ 120)\<rparr>"
  proof (cases "length s \<le> 18")
    case False
    assume "2 ^ 119 \<le> ?V"
    with L obtain i where r: "left = Some i" "length out = 15" "w = 0" "le_value out = ?V mod 2 ^ 120" "i \<le> length s"
      by (auto split: option.splits)
    have "pad16 out = le_bytes 16 (?V mod 2 ^ 120)" using pad16_le_bytes [of out] r by simp
    moreover have "scaled_integer s n = n\<lparr>nv_scale := i8 (int i - nv_precision n), nv_val := pad16 out\<rparr>"
      using False by (simp add: scaled_integer_def b r(1,3))
    ultimately show ?thesis using r(5) by auto
  qed (use short in simp)
qed

text \<open>A numeral: a sign, digits, and a point with more digits if there are any.\<close>

definition numeral_text :: "bool \<Rightarrow> string \<Rightarrow> string \<Rightarrow> string" where
  "numeral_text neg ip fp = (if neg then ''-'' else []) @ ip @ (if fp = [] then [] else ''.'' @ fp)"

lemma unsigned_numeral_ok:
  assumes "list_all is_digit ip" and "list_all is_digit fp" and "length ip + length fp \<le> 40"
  shows "unsigned_numeral (ip @ (if fp = [] then [] else ''.'' @ fp)) n =
    Some (scaled_integer (ip @ fp) (n\<lparr>nv_precision := int (length ip + length fp), nv_scale := int (length fp)\<rparr>))"
proof -
  have nd: "CHR ''.'' \<notin> set ip" using assms(1) char_digit_not_special by (auto simp: list_all_iff)
  then have dw: "dropWhile (\<lambda>c. c \<noteq> CHR ''.'') (ip @ ''.'' @ fp) = ''.'' @ fp"
    by (subst dropWhile_append2) auto
  have "i8 (int (length fp)) = int (length fp)" "u8 (int (length ip + length fp)) = int (length ip + length fp)"
    using assms(3) by (simp_all add: c_arith)
  with nd dw assms(3) show ?thesis by (cases "fp = []") (simp_all add: unsigned_numeral_def Let_def min_def)
qed

lemma numeral_converted:
  assumes "list_all is_digit ip" and "list_all is_digit fp" and "length ip + length fp \<le> 40" and "ip \<noteq> []"
  shows "convertNumericStringToScaledInteger (numeral_text neg ip fp) =
    Some (scaled_integer (ip @ fp) \<lparr>nv_precision = int (length ip + length fp), nv_scale = int (length fp),
      nv_sign = (if neg then 0 else 1), nv_val = replicate 16 0\<rparr>)"
proof -
  obtain c r where c: "ip = c # r" "is_digit c" using assms(1,4) by (cases ip) auto
  then have "c \<noteq> CHR ''+''" "c \<noteq> CHR ''-''" using char_digit_not_special by auto
  with unsigned_numeral_ok [OF assms(1-3)] c(1) show ?thesis
    by (simp add: convertNumericStringToScaledInteger_def numeral_text_def)
qed

text \<open>
  Property C30. A decimal numeral of up to 40 digits whose digits form a number below \<open>2^119\<close> is
  converted exactly: the precision is its number of digits, the scale the number of digits after
  the point, the sign its sign, and the sixteen bytes are the number in little-endian order. The
  loop over the bits ends for every numeral.
\<close>

theorem numeral_to_scaled_integer:
  assumes "list_all is_digit ip" and "list_all is_digit fp" and "ip \<noteq> []" and "length ip + length fp \<le> 40"
    and "numeral_value (ip @ fp) < 2 ^ 119"
  shows "convertNumericStringToScaledInteger (numeral_text neg ip fp) =
    Some \<lparr>nv_precision = int (length ip + length fp), nv_scale = int (length fp), nv_sign = (if neg then 0 else 1),
      nv_val = le_bytes 16 (numeral_value (ip @ fp))\<rparr>"
  using numeral_converted [OF assms(1,2,4,3)] scaled_integer_ok(1) [OF _ assms(5)] assms(1,2) by simp

theorem numeral_to_scaled_integer_witness:
  "convertNumericStringToScaledInteger ''-1234567890123456789.05'' =
    Some \<lparr>nv_precision = 21, nv_scale = 2, nv_sign = 0, nv_val = le_bytes 16 123456789012345678905\<rparr>"
proof -
  have "numeral_value (''1234567890123456789'' @ ''05'') = 123456789012345678905"
    by (simp add: numeral_value_def char_digit_def)
  with numeral_to_scaled_integer [of "''1234567890123456789''" "''05''" True] show ?thesis
    by (simp add: numeral_text_def is_digit_def)
qed

text \<open>
  A numeral whose digits form a number from \<open>2^119\<close> on loses its scale, although the
  type has 38 digits: the scale that is stored is never positive, whatever the number of digits
  after the point, and only the lower 120 bits of the number are stored, although the structure
  has 128.
\<close>

theorem large_numeral_loses_scale:
  assumes "list_all is_digit ip" and "list_all is_digit fp" and "ip \<noteq> []" and "length ip + length fp \<le> 40"
    and "2 ^ 119 \<le> numeral_value (ip @ fp)"
  shows "\<exists>n. convertNumericStringToScaledInteger (numeral_text neg ip fp) = Some n \<and> nv_scale n \<le> 0 \<and>
    nv_val n = le_bytes 16 (numeral_value (ip @ fp) mod 2 ^ 120)"
proof -
  let ?n = "\<lparr>nv_precision = int (length ip + length fp), nv_scale = int (length fp),
      nv_sign = (if neg then 0 else 1 :: int), nv_val = replicate 16 0\<rparr>"
  obtain i where i: "i \<le> length (ip @ fp)" "scaled_integer (ip @ fp) ?n =
      ?n\<lparr>nv_scale := i8 (int i - nv_precision ?n), nv_val := le_bytes 16 (numeral_value (ip @ fp) mod 2 ^ 120)\<rparr>"
    using scaled_integer_ok(2) [OF _ assms(5), of ?n] assms(1,2) by auto
  have "i8 (int i - int (length ip + length fp)) \<le> 0"
    using i(1) assms(4) by (simp add: c_arith)
  with i(2) numeral_converted [OF assms(1,2,4,3), of neg] show ?thesis by simp
qed

theorem large_numeral_loses_scale_witness:
  "\<exists>n. convertNumericStringToScaledInteger ''7000000000000000000000000000000000.00'' = Some n \<and> nv_scale n \<le> 0"
proof -
  have "numeral_value (''7000000000000000000000000000000000'' @ ''00'') = 700000000000000000000000000000000000"
    by (simp add: numeral_value_def char_digit_def)
  with large_numeral_loses_scale [of "''7000000000000000000000000000000000''" "''00''" False] show ?thesis
    by (auto simp: numeral_text_def is_digit_def)
qed

end
