(* ===== verification/Rs_Numeric_Print.thy ===== *)
theory Rs_Numeric_Print
  imports Rs_Numeric_Promises
begin

text \<open>
  Printing of 128-bit scaled integers: the digit buffer is a number in base 10, the loops multiply
  it by 256 and add a byte, and a numeral survives the way to the scaled integer and back.
\<close>

subsection \<open>Digit buffers\<close>

fun dv :: "nat list \<Rightarrow> nat" where
  "dv [] = 0"
| "dv (d # ds) = d + 10 * dv ds"

lemma dv_update: "k < length xs \<Longrightarrow> dv (xs[k := v]) + xs ! k * 10 ^ k = dv xs + v * 10 ^ k"
proof (induction xs arbitrary: k)
  case (Cons x xs)
  show ?case
  proof (cases k)
    case (Suc m)
    with Cons have "10 * (dv (xs[m := v]) + xs ! m * 10 ^ m) = 10 * (dv xs + v * 10 ^ m)" by simp
    with Suc show ?thesis by (simp add: algebra_simps)
  qed simp
qed simp

lemma dv_nth_le: "k < length xs \<Longrightarrow> xs ! k * 10 ^ k \<le> dv xs"
proof (induction xs arbitrary: k)
  case (Cons x xs)
  show ?case
  proof (cases k)
    case (Suc m)
    with Cons have "10 * (xs ! m * 10 ^ m) \<le> 10 * dv xs" by simp
    with Suc show ?thesis by (simp add: algebra_simps)
  qed simp
qed simp

lemma dv_append: "dv (xs @ ys) = dv xs + 10 ^ length xs * dv ys"
  by (induction xs) (auto simp: algebra_simps)

lemma dv_take_Suc: "j < length xs \<Longrightarrow> dv (take (Suc j) xs) = dv (take j xs) + xs ! j * 10 ^ j"
  by (simp add: take_Suc_conv_app_nth dv_append min_def)

lemma dv_take_le: "dv (take j xs) \<le> dv xs"
  using dv_append [of "take j xs" "drop j xs"] by simp

lemma dv_zeros [simp]: "dv (replicate n 0) = 0"
  by (induction n) auto

lemma dv_inject: "length xs = length ys \<Longrightarrow> \<forall>d\<in>set xs \<union> set ys. d \<le> 9 \<Longrightarrow> dv xs = dv ys \<Longrightarrow> xs = ys"
proof (induction xs ys rule: list_induct2)
  case (Cons x xs y ys)
  have "x \<le> 9" "y \<le> 9" using Cons.prems(1) by auto
  moreover have "x + 10 * dv xs = y + 10 * dv ys" using Cons.prems(2) by simp
  ultimately have "x = y \<and> dv xs = dv ys" by presburger
  with Cons show ?case by simp
qed simp

subsection \<open>Carrying\<close>

lemma drain_ok: "up + d div 10 < 256 \<Longrightarrow> drain d up = (d mod 10, up + d div 10)"
proof (induction d up rule: drain.induct)
  case (1 d up)
  show ?case
  proof (cases "9 < d")
    case True
    obtain c where c: "c = d - 10" by simp
    have dc: "d = c + 10" using True by (simp add: c)
    have e: "d div 10 = Suc (c div 10)" "d mod 10 = c mod 10" by (simp_all add: dc)
    have lt: "up + 1 + c div 10 < 256" using 1(2) unfolding e by simp
    then have up: "(up + 1) mod 256 = up + 1" by simp
    have "drain (d - 10) ((up + 1) mod 256) = ((d - 10) mod 10, (up + 1) mod 256 + (d - 10) div 10)"
      by (rule 1(1) [OF True]) (use lt in \<open>simp only: up c [symmetric]\<close>)
    then have "drain (d - 10) ((up + 1) mod 256) = (d mod 10, up + d div 10)"
      unfolding up c [symmetric] e by simp
    then show ?thesis using True by (subst drain.simps) (simp only: if_True)
  next
    case False
    then show ?thesis by (subst drain.simps) simp
  qed
qed

definition good :: "nat list \<Rightarrow> nat \<Rightarrow> bool" where
  "good buf len \<longleftrightarrow> length buf = 40 \<and> len \<le> 40 \<and> (\<forall>i<40. buf ! i \<le> 9 \<and> (len \<le> i \<longrightarrow> buf ! i = 0)) \<and>
     (0 < len \<longrightarrow> buf ! (len - 1) \<noteq> 0)"

text \<open>The buffer while the carry is at \<open>k\<close>.\<close>

definition carrying :: "nat \<Rightarrow> nat \<Rightarrow> nat list \<Rightarrow> nat \<Rightarrow> bool" where
  "carrying stop k buf len \<longleftrightarrow> length buf = 40 \<and> k < 40 \<and> stop < 40 \<and> len \<le> 40 \<and> dv buf < 10 ^ 40 \<and> buf ! k \<le> 120 \<and>
     (\<forall>i<40. (i < k \<longrightarrow> buf ! i \<le> 9 \<and> (len \<le> i \<longrightarrow> buf ! i = 0)) \<and> (k < i \<longrightarrow> buf ! i \<le> 100) \<and>
             (k < i \<longrightarrow> stop < i \<longrightarrow> buf ! i \<le> 9 \<and> (len \<le> i \<longrightarrow> buf ! i = 0))) \<and>
     (0 < len \<longrightarrow> buf ! (len - 1) \<noteq> 0 \<or> (\<exists>i<40. len \<le> i \<and> k \<le> i \<and> buf ! i \<noteq> 0))"

lemma carry_step:
  assumes c: "carrying stop k buf len" and d: "9 < buf ! k"
  defines "len' \<equiv> if len \<le> k then k + 1 else len"
  defines "buf' \<equiv> buf[k := buf ! k mod 10, k + 1 := buf ! (k + 1) + buf ! k div 10]"
  shows "k + 1 < 40" and "carrying stop (k + 1) buf' len'" and "dv buf' = dv buf"
proof -
  have b: "length buf = 40" "k < 40" "dv buf < 10 ^ 40" "buf ! k \<le> 120" using c by (auto simp: carrying_def)
  show k: "k + 1 < 40"
  proof (rule ccontr)
    assume "\<not> k + 1 < 40"
    then have "k = 39" using b by simp
    moreover have "10 * 10 ^ k \<le> buf ! k * 10 ^ k" using d by simp
    moreover have "buf ! k * 10 ^ k \<le> dv buf" using dv_nth_le b(1,2) by simp
    ultimately show False using b(3) by simp
  qed
  have "dv (buf[k := buf ! k mod 10]) + buf ! k * 10 ^ k = dv buf + buf ! k mod 10 * 10 ^ k"
    using dv_update b by simp
  moreover have "dv buf' + buf ! (k + 1) * 10 ^ (k + 1) =
      dv (buf[k := buf ! k mod 10]) + (buf ! (k + 1) + buf ! k div 10) * 10 ^ (k + 1)"
    using dv_update [of "k + 1" "buf[k := buf ! k mod 10]"] b k by (simp add: buf'_def)
  moreover have "buf ! k * 10 ^ k = buf ! k mod 10 * 10 ^ k + buf ! k div 10 * 10 ^ (k + 1)"
  proof -
    obtain q where q: "q = buf ! k div 10" by simp
    obtain r where r: "r = buf ! k mod 10" by simp
    have "buf ! k = r + 10 * q" unfolding q r by simp
    then show ?thesis unfolding q [symmetric] r [symmetric] by (simp add: algebra_simps)
  qed
  ultimately show dv: "dv buf' = dv buf" by (simp add: algebra_simps)
  have nth: "buf' ! i = (if i = k then buf ! k mod 10 else if i = k + 1 then buf ! (k + 1) + buf ! k div 10 else buf ! i)"
    if "i < 40" for i using that b by (auto simp: buf'_def nth_list_update)
  have "buf ! (k + 1) \<le> 100" using c k by (auto simp: carrying_def)
  moreover have "buf ! k div 10 \<le> 120 div 10" by (rule div_le_mono [OF b(4)])
  ultimately have up: "buf ! (k + 1) + buf ! k div 10 \<le> 120" by simp
  have up1: "1 \<le> buf ! k div 10" using d by simp
  show "carrying stop (k + 1) buf' len'"
    unfolding carrying_def
  proof (intro conjI allI impI)
    show "length buf' = 40" using b by (simp add: buf'_def)
    show "k + 1 < 40" "stop < 40" "len' \<le> 40" "dv buf' < 10 ^ 40" "buf' ! (k + 1) \<le> 120"
      using k dv up nth [OF k] c by (auto simp: carrying_def len'_def)
  next
    fix i :: nat assume i: "i < 40"
    { assume "i < k + 1"
      then have "i = k \<or> i < k" by auto
      moreover have "buf ! k mod 10 \<le> 9" by simp
      moreover have "i < k \<Longrightarrow> buf ! i \<le> 9" using c i by (simp add: carrying_def)
      ultimately show "buf' ! i \<le> 9" unfolding nth [OF i] by auto
    next
      assume "i < k + 1" "len' \<le> i"
      then have "i < k" "len \<le> i" by (auto simp: len'_def split: if_splits)
      then show "buf' ! i = 0" using c nth [OF i] i by (auto simp: carrying_def)
    next
      assume "k + 1 < i"
      then show "buf' ! i \<le> 100" using c nth [OF i] i by (auto simp: carrying_def)
    next
      assume "k + 1 < i" "stop < i"
      then show "buf' ! i \<le> 9" using c nth [OF i] i by (auto simp: carrying_def)
    next
      assume "k + 1 < i" "stop < i" "len' \<le> i"
      then show "buf' ! i = 0" using c nth [OF i] i by (auto simp: carrying_def len'_def split: if_splits)
    }
  next
    assume "0 < len'"
    show "buf' ! (len' - 1) \<noteq> 0 \<or> (\<exists>i<40. len' \<le> i \<and> k + 1 \<le> i \<and> buf' ! i \<noteq> 0)"
    proof (cases "len \<le> k + 1")
      case True
      then have "len' = k + 1" by (simp add: len'_def)
      moreover have "buf' ! (k + 1) \<noteq> 0" using nth [OF k] up1 by simp
      ultimately show ?thesis using k by (intro disjI2 exI [of _ "k + 1"]) simp
    next
      case False
      then have l: "len' = len" "k + 1 \<le> len - 1" "len \<le> 40" "0 < len" using c by (auto simp: len'_def carrying_def)
      from c l(4) consider "buf ! (len - 1) \<noteq> 0" | i where "i < 40" "len \<le> i" "buf ! i \<noteq> 0"
        by (auto simp: carrying_def)
      then show ?thesis
      proof cases
        case 1
        have "len - 1 < 40" using l by simp
        with 1 nth [OF this] l up1 show ?thesis by auto
      next
        case (2 i)
        with nth [OF 2(1)] l up1 show ?thesis by (intro disjI2 exI [of _ i]) auto
      qed
    qed
  qed
qed

lemma pass_step:
  assumes c: "carrying stop k buf len" and d: "buf ! k \<le> 9" and k: "k < stop"
  shows "carrying stop (k + 1) buf (if 0 < buf ! k \<and> len \<le> k then k + 1 else len)"
proof -
  obtain l where l: "l = (if 0 < buf ! k \<and> len \<le> k then k + 1 else len)" by simp
  have k1: "k + 1 < 40" "len \<le> l" "l \<le> 40" using c k by (auto simp: carrying_def l)
  have low: "buf ! i \<le> 9 \<and> (l \<le> i \<longrightarrow> buf ! i = 0)" if "i < k + 1" for i
  proof (cases "i = k")
    case True
    then show ?thesis using d by (auto simp: l)
  next
    case False
    then show ?thesis using c k1 that by (auto simp: carrying_def)
  qed
  have top: "buf ! (l - 1) \<noteq> 0 \<or> (\<exists>i<40. l \<le> i \<and> k + 1 \<le> i \<and> buf ! i \<noteq> 0)" if "0 < l"
  proof (cases "0 < buf ! k \<and> len \<le> k")
    case True
    then show ?thesis by (simp add: l)
  next
    case False
    then have "l = len" by (simp add: l)
    with c that consider "buf ! (l - 1) \<noteq> 0" | i where "i < 40" "l \<le> i" "k \<le> i" "buf ! i \<noteq> 0"
      by (auto simp: carrying_def)
    then show ?thesis
    proof cases
      case (2 i)
      have "i \<noteq> k" using False 2 \<open>l = len\<close> by auto
      with 2 show ?thesis by (intro disjI2 exI [of _ i]) simp
    qed simp
  qed
  have "buf ! (k + 1) \<le> 100" using c k1(1) by (simp add: carrying_def)
  then have next_digit: "buf ! (k + 1) \<le> 120" by simp
  show ?thesis unfolding l [symmetric] carrying_def
  proof (intro conjI allI impI)
    fix i assume "i < (40::nat)" "k + 1 < i" "stop < i" "l \<le> i"
    then show "buf ! i = 0" using c k1 by (simp add: carrying_def)
  qed (use c k1 low top next_digit in \<open>auto simp: carrying_def\<close>)
qed

lemma stop_step:
  assumes c: "carrying stop k buf len" and d: "buf ! k \<le> 9" and k: "stop \<le> k"
  shows "good buf (if 0 < buf ! k \<and> len \<le> k then k + 1 else len)" (is "good _ ?l")
proof -
  have all: "\<forall>i<40. buf ! i \<le> 9 \<and> (?l \<le> i \<longrightarrow> buf ! i = 0)"
  proof (intro allI impI)
    fix i :: nat assume i: "i < 40"
    consider "i < k" | "i = k" | "k < i" by linarith
    then show "buf ! i \<le> 9 \<and> (?l \<le> i \<longrightarrow> buf ! i = 0)"
      using c d k i by cases (auto simp: carrying_def)
  qed
  have top: "0 < ?l \<longrightarrow> buf ! (?l - 1) \<noteq> 0"
  proof (cases "0 < buf ! k \<and> len \<le> k")
    case False
    then have l: "?l = len" by auto
    show ?thesis
    proof
      assume "0 < ?l"
      then consider "buf ! (len - 1) \<noteq> 0" | i where "i < 40" "len \<le> i" "k \<le> i" "buf ! i \<noteq> 0"
        using c unfolding l by (auto simp: carrying_def)
      then show "buf ! (?l - 1) \<noteq> 0" using all unfolding l by cases auto
    qed
  qed auto
  have "length buf = 40" "?l \<le> 40" using c by (auto simp: carrying_def)
  with all top show ?thesis by (simp add: good_def)
qed

lemma carry_ok:
  assumes "carrying stop k buf len"
  shows "\<exists>buf' len'. carry stop k buf len = Some (buf', len') \<and> good buf' len' \<and> dv buf' = dv buf \<and> (\<forall>i<k. buf' ! i = buf ! i)"
  using assms
proof (induction stop k buf len rule: carry.induct)
  case (1 stop k buf len)
  have b: "\<not> length buf \<le> k" "length buf = 40" using 1(3) by (auto simp: carrying_def)
  let ?l = "if 0 < buf ! k \<and> len \<le> k then k + 1 else len"
  show ?case
  proof (cases "9 < buf ! k")
    case True
    note C = carry_step [OF 1(3) True]
    let ?b = "buf[k := buf ! k mod 10, k + 1 := buf ! (k + 1) + buf ! k div 10]"
    have l: "?l = (if len \<le> k then k + 1 else len)" using True by simp
    have "buf ! (k + 1) \<le> 100" using 1(3) C(1) by (auto simp: carrying_def)
    moreover have "buf ! k div 10 \<le> 120 div 10" using 1(3) by (intro div_le_mono) (simp add: carrying_def)
    ultimately have "buf ! (k + 1) + buf ! k div 10 < 256" by simp
    note dr = drain_ok [OF this]
    have lt: "k + 1 < length buf" using C(1) b by simp
    have "\<exists>buf' len'. carry stop (k + 1) ?b ?l = Some (buf', len') \<and> good buf' len' \<and> dv buf' = dv ?b \<and>
        (\<forall>i<k + 1. buf' ! i = ?b ! i)"
      by (rule 1(1) [OF b(1) refl refl True lt dr [symmetric]]) (use C(2) l in simp)
    moreover have "\<forall>i<k. ?b ! i = buf ! i" by simp
    moreover have "carry stop k buf len = carry stop (k + 1) ?b ?l"
      using b(1) True lt dr by (subst carry.simps) (simp add: Let_def)
    ultimately show ?thesis using C(3) by (metis less_SucI Suc_eq_plus1)
  next
    case small: False
    show ?thesis
    proof (cases "stop \<le> k")
      case True
      then have "carry stop k buf len = Some (buf, ?l)"
        using b(1) small by (subst carry.simps) (simp add: Let_def)
      then show ?thesis using stop_step [OF 1(3) _ True] small by auto
    next
      case False
      have "carry stop k buf len = carry stop (k + 1) buf ?l"
        using b(1) small False by (subst carry.simps) (simp add: Let_def)
      moreover have "\<exists>buf' len'. carry stop (k + 1) buf ?l = Some (buf', len') \<and> good buf' len' \<and> dv buf' = dv buf \<and>
          (\<forall>i<k + 1. buf' ! i = buf ! i)"
        by (rule 1(2) [OF b(1) refl refl small False]) (use pass_step [OF 1(3)] small False in simp)
      ultimately show ?thesis by auto
    qed
  qed
qed

subsection \<open>Multiplication by 256 and addition of a byte\<close>

lemma add_at_ok: "k < length buf \<Longrightarrow> buf ! k + v < 256 \<Longrightarrow> add_at k v buf = Some (buf[k := buf ! k + v])"
  by (simp add: add_at_def)

lemma dv_add: "k < length xs \<Longrightarrow> dv (xs[k := xs ! k + v]) = dv xs + v * 10 ^ k"
  using dv_update [of k xs "xs ! k + v"] by (simp add: algebra_simps)

lemma four_digits:
  obtains a b c e :: nat where "a = v mod 10" "b = v div 10 mod 10" "c = v div 100 mod 10" "e = v div 1000"
    "v = a + 10 * b + 100 * c + 1000 * e"
proof -
  have e: "v div 100 = v div 10 div 10" "v div 1000 = v div 100 div 10"
    by (simp_all add: div_mult2_eq [symmetric])
  have m: "u = 10 * (u div 10) + u mod 10" for u :: nat by simp
  have "v = v mod 10 + 10 * (v div 10 mod 10) + 100 * (v div 100 mod 10) + 1000 * (v div 1000)"
    using m [of v] m [of "v div 10"] m [of "v div 100"] unfolding e by linarith
  then show ?thesis using that by blast
qed

lemma mult_digit:
  assumes g: "good buf len" and d: "buf ! j \<noteq> 0" "j < 40" and v: "255 * (buf ! j * 10 ^ j) + dv buf < 10 ^ 39"
  shows "\<exists>b3. Option.bind (add_at (j + 1) (buf ! j * 256 div 10 mod 10) (buf[j := buf ! j * 256 mod 10])) (\<lambda>b1.
        Option.bind (add_at (j + 2) (buf ! j * 256 div 100 mod 10) b1) (\<lambda>b2. add_at (j + 3) (buf ! j * 256 div 1000) b2)) =
      Some b3 \<and> carrying (j + 3) j b3 len \<and> dv b3 = dv buf + 255 * (buf ! j * 10 ^ j) \<and> (\<forall>i<j. b3 ! i = buf ! i)"
proof -
  obtain a b c e where q: "a = buf ! j * 256 mod 10" "b = buf ! j * 256 div 10 mod 10" "c = buf ! j * 256 div 100 mod 10"
      "e = buf ! j * 256 div 1000" "buf ! j * 256 = a + 10 * b + 100 * c + 1000 * e"
    by (rule four_digits)
  have gd: "length buf = 40" "len \<le> 40" "\<And>i. i < 40 \<Longrightarrow> buf ! i \<le> 9" "\<And>i. i < 40 \<Longrightarrow> len \<le> i \<Longrightarrow> buf ! i = 0"
      "0 < len \<Longrightarrow> buf ! (len - 1) \<noteq> 0"
    using g by (auto simp: good_def)
  have dj: "1 \<le> buf ! j" "buf ! j \<le> 9" using d gd(3) by auto
  have small: "a \<le> 9" "b \<le> 9" "c \<le> 9" "e \<le> 9" "c \<noteq> 0 \<or> e \<noteq> 0"
  proof -
    show "a \<le> 9" "b \<le> 9" "c \<le> 9" by (simp_all add: q(1-3))
    have "buf ! j * 256 div 1000 \<le> 9 * 256 div 1000" using dj by (intro div_le_mono) simp
    then show "e \<le> 9" by (simp add: q(4))
    show "c \<noteq> 0 \<or> e \<noteq> 0" using q(5) dj \<open>a \<le> 9\<close> \<open>b \<le> 9\<close> by auto
  qed
  have j: "j + 3 < 40"
  proof (rule ccontr)
    assume "\<not> j + 3 < 40"
    then have "(10::nat) ^ 37 \<le> 10 ^ j" by (intro power_increasing) auto
    also have "\<dots> \<le> buf ! j * 10 ^ j" using dj by simp
    finally have "10 ^ 37 \<le> buf ! j * 10 ^ j" .
    then show False using v by simp
  qed
  have lj: "j < len" using gd(4) d by (meson linorder_not_le)
  define b1 where "b1 = buf[j := a, j + 1 := buf ! (j + 1) + b]"
  define b2 where "b2 = b1[j + 2 := buf ! (j + 2) + c]"
  define b3 where "b3 = b2[j + 3 := buf ! (j + 3) + e]"
  have up: "buf ! (j + 1) \<le> 9" "buf ! (j + 2) \<le> 9" "buf ! (j + 3) \<le> 9" using gd(3) j by simp_all
  have s1: "add_at (j + 1) b (buf[j := a]) = Some b1"
    using add_at_ok [of "j + 1" "buf[j := a]" b] gd(1) j up small by (simp add: b1_def)
  have s2: "add_at (j + 2) c b1 = Some b2"
    using add_at_ok [of "j + 2" b1 c] gd(1) j up small by (simp add: b1_def b2_def)
  have s3: "add_at (j + 3) e b2 = Some b3"
    using add_at_ok [of "j + 3" b2 e] gd(1) j up small by (simp add: b1_def b2_def b3_def)
  have nth: "b3 ! i = (if i = j then a else if i = j + 1 then buf ! i + b else if i = j + 2 then buf ! i + c
      else if i = j + 3 then buf ! i + e else buf ! i)" if "i < 40" for i
    using that gd(1) by (simp add: b1_def b2_def b3_def nth_list_update)
  have len3: "length b3 = 40" using gd(1) by (simp add: b1_def b2_def b3_def)
  have dv0: "dv (buf[j := a]) + buf ! j * 10 ^ j = dv buf + a * 10 ^ j" using dv_update gd(1) d(2) by simp
  have dv1: "dv b1 = dv (buf[j := a]) + b * 10 ^ (j + 1)"
    using dv_add [of "j + 1" "buf[j := a]" b] gd(1) j by (simp add: b1_def)
  have dv2: "dv b2 = dv b1 + c * 10 ^ (j + 2)"
    using dv_add [of "j + 2" b1 c] gd(1) j by (simp add: b1_def b2_def)
  have dv3: "dv b3 = dv b2 + e * 10 ^ (j + 3)"
    using dv_add [of "j + 3" b2 e] gd(1) j by (simp add: b1_def b2_def b3_def)
  have pw: "(10::nat) ^ (j + 1) = 10 * 10 ^ j" "(10::nat) ^ (j + 2) = 100 * 10 ^ j" "(10::nat) ^ (j + 3) = 1000 * 10 ^ j"
    by (simp_all add: power_add)
  have "buf ! j * 256 * 10 ^ j = (a + 10 * b + 100 * c + 1000 * e) * 10 ^ j" unfolding q(5) ..
  then have "256 * (buf ! j * 10 ^ j) = a * 10 ^ j + 10 * (b * 10 ^ j) + 100 * (c * 10 ^ j) + 1000 * (e * 10 ^ j)"
    by (simp add: algebra_simps)
  then have val: "dv b3 = dv buf + 255 * (buf ! j * 10 ^ j)"
    using dv0 dv1 dv2 dv3 unfolding pw by (simp add: algebra_simps)
  have "carrying (j + 3) j b3 len"
    unfolding carrying_def
  proof (intro conjI allI impI)
    show "length b3 = 40" "j < 40" "j + 3 < 40" "len \<le> 40" by (use len3 j gd in auto)
    show "dv b3 < 10 ^ 40" using v val by simp
    show "b3 ! j \<le> 120" using nth [OF d(2)] small by simp
  next
    fix i :: nat assume i: "i < 40"
    have bi: "buf ! i \<le> 9" using gd(3) i .
    { assume "i < j"
      then show "b3 ! i \<le> 9" using nth [OF i] bi by simp
    next
      assume "i < j" "len \<le> i"
      then show "b3 ! i = 0" using lj by simp
    next
      assume "j < i"
      then show "b3 ! i \<le> 100" using nth [OF i] bi small by auto
    next
      assume "j < i" "j + 3 < i"
      then show "b3 ! i \<le> 9" using nth [OF i] bi by simp
    next
      assume "j < i" "j + 3 < i" "len \<le> i"
      then show "b3 ! i = 0" using nth [OF i] gd(4) i by simp
    }
  next
    assume "0 < len"
    show "b3 ! (len - 1) \<noteq> 0 \<or> (\<exists>i<40. len \<le> i \<and> j \<le> i \<and> b3 ! i \<noteq> 0)"
    proof (cases "len - 1 = j")
      case True
      have "b3 ! (j + 2) \<noteq> 0 \<or> b3 ! (j + 3) \<noteq> 0" using nth [of "j + 2"] nth [of "j + 3"] j small(5) by auto
      then obtain i where "i \<in> {j + 2, j + 3}" "b3 ! i \<noteq> 0" by blast
      with True j show ?thesis by (intro disjI2 exI [of _ i]) auto
    next
      case False
      have "len - 1 < 40" using gd(2) \<open>0 < len\<close> by simp
      from nth [OF this] gd(5) [OF \<open>0 < len\<close>] False show ?thesis by auto
    qed
  qed
  with s1 s2 s3 val nth d(2) show ?thesis unfolding q(1-4) [symmetric] by auto
qed

lemma mult_loop_ok:
  assumes "good buf len" and "j \<le> 40" and "dv buf + 255 * dv (take j buf) < 10 ^ 39"
  shows "\<exists>buf' len'. mult_loop j buf len = Some (buf', len') \<and> good buf' len' \<and> dv buf' = dv buf + 255 * dv (take j buf)"
  using assms
proof (induction j arbitrary: buf len)
  case 0
  then show ?case by simp
next
  case (Suc j)
  have l: "length buf = 40" "j < 40" using Suc.prems by (auto simp: good_def)
  have t: "dv (take (Suc j) buf) = dv (take j buf) + buf ! j * 10 ^ j" using l by (intro dv_take_Suc) simp
  show ?case
  proof (cases "buf ! j = 0")
    case True
    with Suc t show ?thesis by simp
  next
    case False
    have "255 * (buf ! j * 10 ^ j) + dv buf < 10 ^ 39" using Suc.prems(3) unfolding t by simp
    then obtain b3 where b3: "Option.bind (add_at (j + 1) (buf ! j * 256 div 10 mod 10) (buf[j := buf ! j * 256 mod 10]))
        (\<lambda>b1. Option.bind (add_at (j + 2) (buf ! j * 256 div 100 mod 10) b1) (\<lambda>b2. add_at (j + 3) (buf ! j * 256 div 1000) b2)) =
        Some b3" "carrying (j + 3) j b3 len" "dv b3 = dv buf + 255 * (buf ! j * 10 ^ j)" "\<forall>i<j. b3 ! i = buf ! i"
      using mult_digit [OF Suc.prems(1) False l(2)] by blast
    obtain b4 len4 where b4: "carry (j + 3) j b3 len = Some (b4, len4)" "good b4 len4" "dv b4 = dv b3" "\<forall>i<j. b4 ! i = b3 ! i"
      using carry_ok [OF b3(2)] by blast
    have tk: "take j b4 = take j buf"
      by (rule nth_take_lemma) (use b4 b3 l in \<open>auto simp: good_def\<close>)
    have "dv b4 + 255 * dv (take j b4) = dv buf + 255 * dv (take (Suc j) buf)"
      unfolding tk t b4(3) b3(3) by simp
    then obtain buf' len' where "mult_loop j b4 len4 = Some (buf', len')" "good buf' len'"
        "dv buf' = dv buf + 255 * dv (take (Suc j) buf)"
      using Suc.IH [OF b4(2)] Suc.prems(3) l(2) by auto
    moreover have "mult_loop (Suc j) buf len = mult_loop j b4 len4"
      using b3(1) b4(1) False by (auto simp: Let_def bind_eq_Some_conv)
    ultimately show ?thesis by auto
  qed
qed

lemma add_byte_ok:
  assumes g: "good buf len" and v: "v < 256" "dv buf + v < 10 ^ 39"
  shows "\<exists>buf' len'. add_byte v buf len = Some (buf', len') \<and> good buf' len' \<and> dv buf' = dv buf + v"
proof (cases "v = 0")
  case True
  with g show ?thesis by (simp add: add_byte_def)
next
  case False
  obtain a b c where q: "a = v mod 10" "b = v div 10 mod 10" "c = v div 100" "v = a + 10 * b + 100 * c"
  proof -
    have e: "v div 100 = v div 10 div 10" by (simp add: div_mult2_eq [symmetric])
    have m: "u = 10 * (u div 10) + u mod 10" for u :: nat by simp
    have "v = v mod 10 + 10 * (v div 10 mod 10) + 100 * (v div 100)"
      using m [of v] m [of "v div 10"] unfolding e by linarith
    then show ?thesis using that by blast
  qed
  have gd: "length buf = 40" "len \<le> 40" "\<And>i. i < 40 \<Longrightarrow> buf ! i \<le> 9" "\<And>i. i < 40 \<Longrightarrow> len \<le> i \<Longrightarrow> buf ! i = 0"
      "0 < len \<Longrightarrow> buf ! (len - 1) \<noteq> 0"
    using g by (auto simp: good_def)
  have "v div 100 \<le> 255 div 100" using v(1) by (intro div_le_mono) simp
  then have small: "a \<le> 9" "b \<le> 9" "c \<le> 9" by (simp_all add: q(1-3))
  define b1 where "b1 = buf[0 := buf ! 0 + a]"
  define b2 where "b2 = b1[1 := buf ! 1 + b]"
  define b3 where "b3 = b2[2 := buf ! 2 + c]"
  have dig: "buf ! 0 \<le> 9" "buf ! 1 \<le> 9" "buf ! 2 \<le> 9" using gd(3) by simp_all
  have s1: "add_at 0 a buf = Some b1" using add_at_ok [of 0 buf a] gd(1) dig small by (simp add: b1_def)
  have s2: "add_at 1 b b1 = Some b2" using add_at_ok [of 1 b1 b] gd(1) dig small by (simp add: b1_def b2_def)
  have s3: "add_at 2 c b2 = Some b3" using add_at_ok [of 2 b2 c] gd(1) dig small by (simp add: b1_def b2_def b3_def)
  have nth: "b3 ! i = (if i = 0 then buf ! i + a else if i = 1 then buf ! i + b else if i = 2 then buf ! i + c else buf ! i)"
    if "i < 40" for i using that gd(1) by (simp add: b1_def b2_def b3_def nth_list_update)
  have len3: "length b3 = 40" using gd(1) by (simp add: b1_def b2_def b3_def)
  have "dv b1 = dv buf + a" "dv b2 = dv b1 + b * 10" "dv b3 = dv b2 + c * 100"
    using dv_add [of 0 buf a] dv_add [of 1 b1 b] dv_add [of 2 b2 c] gd(1) by (simp_all add: b1_def b2_def b3_def)
  then have val: "dv b3 = dv buf + v" using q(4) by simp
  have "carrying 2 0 b3 len"
    unfolding carrying_def
  proof (intro conjI allI impI)
    show "length b3 = 40" "(0::nat) < 40" "(2::nat) < 40" "len \<le> 40" using len3 gd by auto
    show "dv b3 < 10 ^ 40" using v val by simp
    show "b3 ! 0 \<le> 120" using nth [of 0] small dig by simp
  next
    fix i :: nat assume i: "i < 40" "0 < i"
    show "b3 ! i \<le> 100" using nth [OF i(1)] gd(3) [OF i(1)] small by auto
  next
    fix i :: nat assume i: "i < 40" "0 < i" "2 < i"
    then show "b3 ! i \<le> 9" "len \<le> i \<Longrightarrow> b3 ! i = 0" using nth [OF i(1)] gd(3,4) [OF i(1)] by auto
  next
    assume "0 < len"
    have "len - 1 < 40" using gd(2) \<open>0 < len\<close> by simp
    from nth [OF this] gd(5) [OF \<open>0 < len\<close>]
    show "b3 ! (len - 1) \<noteq> 0 \<or> (\<exists>i<40. len \<le> i \<and> 0 \<le> i \<and> b3 ! i \<noteq> 0)" by auto
  qed auto
  then obtain buf' len' where "carry 2 0 b3 len = Some (buf', len')" "good buf' len'" "dv buf' = dv b3"
    using carry_ok by blast
  with s1 s2 s3 val False show ?thesis by (auto simp: add_byte_def q(1-3) [symmetric])
qed

lemma byte_loop_ok:
  assumes "good buf len" and "int (dv buf) * 256 ^ length vs + le_value (rev vs) < 10 ^ 39"
  shows "\<exists>buf' len'. byte_loop vs buf len = Some (buf', len') \<and> good buf' len' \<and>
    int (dv buf') = int (dv buf) * 256 ^ length vs + le_value (rev vs)"
  using assms
proof (induction vs arbitrary: buf len)
  case Nil
  then show ?case by simp
next
  case (Cons v vs)
  have g: "length buf = 40" "len \<le> 40" using Cons.prems(1) by (auto simp: good_def)
  have val: "le_value (rev (v # vs)) = le_value (rev vs) + 256 ^ length vs * uint v" by (simp add: le_value_append)
  have "0 \<le> le_value (rev vs)" using le_value_range by blast
  have bound: "(256 * int (dv buf) + uint v) * 256 ^ length vs + le_value (rev vs) < 10 ^ 39"
    using Cons.prems(2) unfolding val by (simp add: algebra_simps)
  obtain x where x: "x = 256 * int (dv buf) + uint v" by simp
  have "0 \<le> x" by (simp add: x)
  then have "x * 1 \<le> x * 256 ^ length vs" by (intro mult_left_mono) auto
  moreover have "x * 256 ^ length vs + le_value (rev vs) < 10 ^ 39" using bound unfolding x .
  ultimately have "x < 10 ^ 39" using \<open>0 \<le> le_value (rev vs)\<close> unfolding mult_1_right by (meson add_increasing2 le_less_trans)
  then have "256 * int (dv buf) + uint v < 10 ^ 39" unfolding x .
  moreover have "int (256 * dv buf + unat v) = 256 * int (dv buf) + uint v" by simp
  ultimately have "int (256 * dv buf + unat v) < int (10 ^ 39)" by (simp only: of_nat_power of_nat_numeral)
  then have lt1: "256 * dv buf + unat v < 10 ^ 39" by (simp only: of_nat_less_iff)
  have tk: "dv (take len buf) = dv buf"
  proof -
    have "drop len buf = replicate (40 - len) 0"
      by (rule nth_equalityI) (use g Cons.prems(1) in \<open>auto simp: good_def\<close>)
    moreover have "dv buf = dv (take len buf) + 10 ^ length (take len buf) * dv (drop len buf)"
      using dv_append [of "take len buf" "drop len buf"] unfolding append_take_drop_id .
    ultimately show ?thesis by simp
  qed
  obtain b1 len1 where m: "mult_loop len buf len = Some (b1, len1)" "good b1 len1" "dv b1 = 256 * dv buf"
    using mult_loop_ok [OF Cons.prems(1) g(2)] lt1 unfolding tk by auto
  have "unat v < 256" using unsigned_less [of v, where 'a = nat] by simp
  then obtain b2 len2 where a: "add_byte (unat v) b1 len1 = Some (b2, len2)" "good b2 len2" "dv b2 = 256 * dv buf + unat v"
    using add_byte_ok [OF m(2), of "unat v"] lt1 m(3) by auto
  have "int (dv b2) = 256 * int (dv buf) + uint v" using a(3) by simp
  with Cons.IH [OF a(2)] bound obtain b3 len3 where
    "byte_loop vs b2 len2 = Some (b3, len3)" "good b3 len3"
      "int (dv b3) = (256 * int (dv buf) + uint v) * 256 ^ length vs + le_value (rev vs)" by auto
  moreover have "byte_loop (v # vs) buf len = byte_loop vs b2 len2" using m(1) a(1) by simp
  ultimately show ?case unfolding val by (auto simp: algebra_simps)
qed

subsection \<open>Printing\<close>

text \<open>The digit buffer of a text of digits.\<close>

definition holds_text :: "nat list \<Rightarrow> string \<Rightarrow> bool" where
  "holds_text buf s \<longleftrightarrow> (\<forall>k<length s. buf ! k = nat (char_digit (s ! (length s - 1 - k)))) \<and>
     (\<forall>k<40. length s \<le> k \<longrightarrow> buf ! k = 0)"

lemma dv_rev_digits: "digit_list ds \<Longrightarrow> dv (rev (map nat ds)) = nat (digits_value ds)"
proof (induction ds)
  case (Cons d ds)
  then have "0 \<le> d" "0 \<le> digits_value ds" using digits_value_range [of ds] by auto
  with Cons show ?case by (simp add: dv_append nat_add_distrib nat_mult_distrib nat_power_eq)
qed simp

lemma buffer_holds_text:
  assumes "good buf len" and "list_all is_digit s" and "length s \<le> 40" and "int (dv buf) = numeral_value s"
  shows "holds_text buf s"
proof -
  let ?ds = "map char_digit s"
  have dl: "digit_list ?ds" using digit_list_chars assms(2) .
  let ?b = "rev (map nat ?ds) @ replicate (40 - length s) 0"
  have "dv ?b = nat (digits_value ?ds)" using dv_rev_digits [OF dl] by (simp add: dv_append)
  then have v: "dv buf = dv ?b" using assms(4) by (simp add: numeral_value_def)
  have dig: "\<forall>d\<in>set buf \<union> set ?b. d \<le> 9"
    using assms(1,2) char_digit_range by (auto simp: good_def list_all_iff in_set_conv_nth nat_le_iff)
  have "buf = ?b" by (rule dv_inject [OF _ dig v]) (use assms(1,3) in \<open>simp add: good_def\<close>)
  then show ?thesis using assms(3) by (auto simp: holds_text_def nth_append rev_nth rev_map)
qed

lemma digits_down_text:
  assumes "holds_text buf s" and "length buf = 40" and "length s \<le> 40" and "list_all is_digit s" and "lo \<le> hi" "hi \<le> length s"
  shows "digits_down buf (int hi - 1) (int lo) = Some (take (hi - lo) (drop (length s - hi) s))"
proof (cases "hi = lo")
  case True
  then show ?thesis by (simp add: digits_down_def)
next
  case False
  then have lt: "lo < hi" using assms(5) by simp
  have "map (\<lambda>k. char_of (48 + buf ! k)) (rev [lo..<hi]) = take (hi - lo) (drop (length s - hi) s)"
  proof (rule nth_equalityI)
    show "length (map (\<lambda>k. char_of (48 + buf ! k)) (rev [lo..<hi])) = length (take (hi - lo) (drop (length s - hi) s))"
      using assms(5,6) by simp
  next
    fix i assume "i < length (map (\<lambda>k. char_of (48 + buf ! k)) (rev [lo..<hi]))"
    then have i: "i < hi - lo" by simp
    let ?c = "s ! (length s - hi + i)"
    have k: "hi - Suc i < length s" "length s - 1 - (hi - Suc i) = length s - hi + i" using i assms(6) by auto
    have "is_digit ?c" using assms(4,6) i by (simp add: list_all_length)
    then have "char_of (48 + nat (char_digit ?c)) = ?c"
      by (simp add: is_digit_def char_digit_def nat_diff_distrib')
    moreover have "rev [lo..<hi] ! i = hi - Suc i" using i by (simp add: rev_nth)
    moreover have "buf ! (hi - Suc i) = nat (char_digit ?c)" using assms(1) k by (simp add: holds_text_def)
    ultimately show "map (\<lambda>k. char_of (48 + buf ! k)) (rev [lo..<hi]) ! i = take (hi - lo) (drop (length s - hi) s) ! i"
      using i assms(6) by simp
  qed
  moreover have "nat (int hi - 1) + 1 = hi" using lt by simp
  ultimately show ?thesis using lt assms(2,3,6) by (simp add: digits_down_def)
qed

text \<open>A text of digits without needless zeros in front of its last \<open>n\<close> digits.\<close>

definition canonical :: "string \<Rightarrow> bool" where
  "canonical ip \<longleftrightarrow> ip = ''0'' \<or> (ip \<noteq> [] \<and> hd ip \<noteq> CHR ''0'')"

lemma char_digit_zero: "char_digit c = 0 \<Longrightarrow> c = CHR ''0''"
proof -
  assume "char_digit c = 0"
  then have "(of_char c :: nat) = 48" by (simp add: char_digit_def)
  then have "c = char_of (48 :: nat)" by (metis char_of_char)
  moreover have "char_of (48 :: nat) = CHR ''0''" by code_simp
  ultimately show ?thesis by simp
qed

lemma top_digit:
  assumes g: "good buf len" and h: "holds_text buf (ip @ fp)" and d: "list_all is_digit ip" and c: "canonical ip"
    and l: "length ip + length fp \<le> 40" and n: "0 < len"
  shows "max (int len - 1) (int (length fp)) = int (length ip + length fp) - 1"
proof -
  let ?n = "length ip + length fp"
  have gd: "len \<le> 40" "\<And>i. i < 40 \<Longrightarrow> len \<le> i \<Longrightarrow> buf ! i = 0" "buf ! (len - 1) \<noteq> 0"
    using g n by (auto simp: good_def)
  have ip: "ip \<noteq> []" using c by (auto simp: canonical_def)
  have top: "buf ! (?n - 1) = nat (char_digit (hd ip))"
    using h ip by (cases ip) (auto simp: holds_text_def)
  have le: "len \<le> ?n"
  proof (rule ccontr)
    assume "\<not> len \<le> ?n"
    then have "buf ! (len - 1) = 0" using h gd(1) n by (simp add: holds_text_def)
    with gd(3) show False by simp
  qed
  show ?thesis
  proof (cases "hd ip = CHR ''0''")
    case False
    have "is_digit (hd ip)" using d ip by (cases ip) auto
    then have "char_digit (hd ip) \<noteq> 0" using False char_digit_zero by blast
    then have "buf ! (?n - 1) \<noteq> 0" using top char_digit_range \<open>is_digit (hd ip)\<close> by force
    then have "\<not> len \<le> ?n - 1" using gd(2) [of "?n - 1"] l ip by (cases ip) auto
    with le have "len = ?n" by simp
    with ip show ?thesis by (cases ip) auto
  next
    case True
    then have one: "ip = ''0''" using c by (auto simp: canonical_def)
    then have "buf ! (?n - 1) = 0" using top by (simp add: char_digit_def)
    then have "len \<noteq> ?n" using gd(3) by auto
    with le one show ?thesis by auto
  qed
qed

lemma scaled_len_enough:
  assumes "19 \<le> p" "p \<le> 38"
  shows "(10::int) ^ p \<le> 256 ^ scaled_len (int p) \<and> scaled_len (int p) \<le> 16"
proof -
  have "p = 19 \<or> p = 20 \<or> p = 21 \<or> p = 22 \<or> p = 23 \<or> p = 24 \<or> p = 25 \<or> p = 26 \<or> p = 27 \<or> p = 28 \<or> p = 29 \<or> p = 30 \<or> p = 31 \<or> p = 32 \<or> p = 33 \<or> p = 34 \<or> p = 35 \<or> p = 36 \<or> p = 37 \<or> p = 38"
    using assms by presburger
  then show ?thesis by (elim disjE) (simp_all add: scaled_len_def prec2ScaledIntegerLen_def)
qed

lemma take_le_bytes: "m \<le> n \<Longrightarrow> take m (le_bytes n v) = le_bytes m v"
proof (induction n arbitrary: m v)
  case (Suc n)
  then show ?case by (cases m) auto
qed simp

lemma empty_buffer: "good (replicate 40 0) 0"
  by (simp add: good_def)

lemma digits_of_scaled:
  assumes "19 \<le> p" "p \<le> 38" and "0 \<le> v" "v < 10 ^ p" "v < 2 ^ 128"
  shows "\<exists>buf len. byte_loop (rev (take (scaled_len (int p)) (le_bytes 16 v))) (replicate 40 0) 0 = Some (buf, len) \<and>
    good buf len \<and> int (dv buf) = v"
proof -
  let ?m = "scaled_len (int p)"
  have m: "(10::int) ^ p \<le> 256 ^ ?m" "?m \<le> 16" using scaled_len_enough [OF assms(1,2)] by auto
  have val: "le_value (take ?m (le_bytes 16 v)) = v"
    using take_le_bytes [OF m(2)] m(1) assms(3,4) by (simp add: le_value_le_bytes)
  have "v < 10 ^ 39" using assms(5) by simp
  then show ?thesis
    using byte_loop_ok [OF empty_buffer, of "rev (take ?m (le_bytes 16 v))"] val by simp
qed

lemma print_text:
  assumes "good buf len" and "holds_text buf (ip @ fp)" and "list_all is_digit ip" and "list_all is_digit fp"
    and "canonical ip" and "length ip + length fp \<le> 40" and "0 < len"
    and "nv_scale n = int (length fp)" and "nv_sign n = (if neg then 0 else 1)"
  shows "print_scaled n buf len = Some (numeral_text neg ip fp)"
proof -
  let ?s = "ip @ fp"
  have h: "length buf = 40" "length ?s \<le> 40" "list_all is_digit ?s" using assms by (auto simp: good_def)
  note dd = digits_down_text [OF assms(2) h]
  have a: "digits_down buf (int (length ip + length fp) - 1) (int (length fp)) = Some ip"
    using dd [of "length fp" "length ?s"] by simp
  have f: "digits_down buf (int (length fp) - 1) 0 = Some fp"
    using dd [of 0 "length fp"] by simp
  show ?thesis
    using a f assms(7-9) top_digit [OF assms(1,2,3,5,6,7)]
    by (cases fp) (simp_all add: print_scaled_def Let_def numeral_text_def)
qed

text \<open>
  Property C29. A numeral in its usual form, with 19 to 38 digits and a value that is not zero, keeps
  its text: converting it to the application's scaled integer and printing that again gives the
  same sign, the same digits and the same decimal point, as long as the digits form a number
  below \<open>2^119\<close>. No step reads or writes outside the buffer of digits.
\<close>

theorem numeral_round_trip:
  assumes "list_all is_digit ip" and "list_all is_digit fp" and "canonical ip"
    and "19 \<le> length ip + length fp" and "length ip + length fp \<le> 38"
    and "0 < numeral_value (ip @ fp)" and "numeral_value (ip @ fp) < 2 ^ 119"
  shows "Option.bind (convertNumericStringToScaledInteger (numeral_text neg ip fp)) scaled128ToNumericString =
    Some (numeral_text neg ip fp)"
proof -
  let ?v = "numeral_value (ip @ fp)"
  let ?n = "\<lparr>nv_precision = int (length ip + length fp), nv_scale = int (length fp), nv_sign = (if neg then 0 else 1),
      nv_val = le_bytes 16 ?v\<rparr>"
  have ip: "ip \<noteq> []" using assms(3) by (auto simp: canonical_def)
  have l: "length ip + length fp \<le> 40" using assms(5) by simp
  have conv: "convertNumericStringToScaledInteger (numeral_text neg ip fp) = Some ?n"
    using numeral_converted [OF assms(1,2) l ip, of neg] scaled_integer_ok(1) [OF _ assms(7)] assms(1,2) by simp
  have "?v < 10 ^ (length ip + length fp)" using numeral_value_range [of "ip @ fp"] assms(1,2) by simp
  moreover have "?v < 2 ^ 128" using assms(7) by simp
  ultimately obtain buf len where b: "byte_loop (rev (take (scaled_len (int (length ip + length fp))) (le_bytes 16 ?v)))
      (replicate 40 0) 0 = Some (buf, len)" "good buf len" "int (dv buf) = ?v"
    using digits_of_scaled [OF assms(4,5), of ?v] assms(6) by auto
  have h: "holds_text buf (ip @ fp)"
    using buffer_holds_text [OF b(2) _ _ b(3)] assms(1,2) l by simp
  have len: "0 < len"
  proof (rule ccontr)
    assume "\<not> 0 < len"
    then have "buf = replicate 40 0" using b(2) by (intro nth_equalityI) (auto simp: good_def)
    then have "dv buf = 0" by simp
    with b(3) assms(6) show False by simp
  qed
  have "print_scaled ?n buf len = Some (numeral_text neg ip fp)"
    by (rule print_text [OF b(2) h assms(1,2,3) l len]) simp_all
  with conv b(1) show ?thesis by (simp add: scaled128ToNumericString_def)
qed

theorem numeral_round_trip_witness:
  "Option.bind (convertNumericStringToScaledInteger ''-0.12345678901234567890'') scaled128ToNumericString =
    Some ''-0.12345678901234567890''"
proof -
  have "numeral_value (''0'' @ ''12345678901234567890'') = 12345678901234567890"
    by (simp add: numeral_value_def char_digit_def)
  with numeral_round_trip [of "''0''" "''12345678901234567890''" True] show ?thesis
    by (simp add: numeral_text_def is_digit_def canonical_def)
qed

text \<open>
  The value zero is printed with a digit too many: after its digits another \<open>0\<close> is
  appended, so an integer zero of 19 or more digits of precision comes out as \<open>00\<close> and a zero with
  \<open>s\<close> decimals has \<open>s + 1\<close> of them.
\<close>

theorem zero_printed_twice:
  assumes "19 \<le> p" "p \<le> 38" and "s \<le> p"
  shows "scaled128ToNumericString \<lparr>nv_precision = int p, nv_scale = int s, nv_sign = 1, nv_val = replicate 16 0\<rparr> =
    Some (if s = 0 then ''00'' else ''0.'' @ replicate (s + 1) (CHR ''0''))"
proof -
  let ?n = "\<lparr>nv_precision = int p, nv_scale = int s, nv_sign = 1, nv_val = replicate 16 0 :: byte list\<rparr>"
  have "le_bytes 16 0 = replicate 16 0" using le_bytes_unique [of "replicate 16 0" 16 0] by simp
  then obtain buf len where b: "byte_loop (rev (take (scaled_len (int p)) (nv_val ?n))) (replicate 40 0) 0 = Some (buf, len)"
      "good buf len" "int (dv buf) = 0"
    using digits_of_scaled [OF assms(1,2), of 0] by auto
  have buf: "buf = replicate 40 0"
    by (rule dv_inject) (use b(2,3) in \<open>auto simp: good_def in_set_conv_nth\<close>)
  then have len: "len = 0" using b(2) by (cases "len = 0") (auto simp: good_def)
  have zero: "map (\<lambda>k. char_of (48 + replicate 40 (0::nat) ! k)) (rev [lo..<hi]) = replicate (hi - lo) (CHR ''0'')"
    if "hi \<le> 40" for lo hi :: nat
  proof (rule nth_equalityI)
    fix i assume i: "i < length (map (\<lambda>k. char_of (48 + replicate 40 (0::nat) ! k)) (rev [lo..<hi]))"
    have "char_of (48 :: nat) = CHR ''0''" by code_simp
    then show "map (\<lambda>k. char_of (48 + replicate 40 (0::nat) ! k)) (rev [lo..<hi]) ! i = replicate (hi - lo) (CHR ''0'') ! i"
      using i that by (simp add: rev_nth)
  qed simp
  have a: "digits_down buf (int s) (int s) = Some ''0''"
    using zero [of "s + 1" s] assms by (simp add: digits_down_def buf nat_add_distrib)
  have f: "digits_down buf (int s - 1) 0 = Some (replicate s (CHR ''0''))"
    using zero [of s 0] assms by (simp add: digits_down_def buf nat_diff_distrib')
  have "max (int len - 1) (nv_scale ?n) = int s" by (simp add: len)
  then have "print_scaled ?n buf len = Some (if s = 0 then ''00'' else ''0.'' @ replicate (s + 1) (CHR ''0''))"
    using a f by (simp add: print_scaled_def len replicate_append_same [symmetric])
  with b(1) show ?thesis by (simp add: scaled128ToNumericString_def)
qed

theorem zero_printed_twice_witness:
  "scaled128ToNumericString \<lparr>nv_precision = 20, nv_scale = 0, nv_sign = 1, nv_val = replicate 16 0\<rparr> = Some ''00''"
  using zero_printed_twice [of 20 0] by simp

text \<open>
  Property C31. Printing a scaled integer of any 128 bits and any precision of at least 19 ends
  without an access outside the buffer of 40 digits, and produces a text, exactly when the scale
  is from 0 to 39; the driver prints whatever scale the application stored in the structure, so a
  negative or larger one reads outside the buffer.
\<close>

theorem printing_stays_in_buffer:
  assumes "length (nv_val n) = 16"
  shows "scaled128ToNumericString n \<noteq> None \<longleftrightarrow> 0 \<le> nv_scale n \<and> nv_scale n < 40"
proof -
  let ?bs = "take (scaled_len (nv_precision n)) (nv_val n)"
  have "le_value ?bs < 256 ^ length ?bs" using le_value_range by blast
  also have "(256::int) ^ length ?bs \<le> 256 ^ 16" using assms by (intro power_increasing) auto
  finally have "le_value ?bs < 10 ^ 39" by simp
  then obtain buf len where b: "byte_loop (rev ?bs) (replicate 40 0) 0 = Some (buf, len)" "good buf len"
    using byte_loop_ok [OF empty_buffer, of "rev ?bs"] by auto
  have l: "length buf = 40" "len \<le> 40" using b(2) by (auto simp: good_def)
  then have "print_scaled n buf len \<noteq> None \<longleftrightarrow> 0 \<le> nv_scale n \<and> nv_scale n < 40"
    by (auto simp: print_scaled_def digits_down_def Let_def bind_eq_None_conv split: if_splits)
  with b(1) show ?thesis by (simp add: scaled128ToNumericString_def)
qed

theorem printing_stays_in_buffer_witness:
  "scaled128ToNumericString \<lparr>nv_precision = 38, nv_scale = -1, nv_sign = 1, nv_val = replicate 16 255\<rparr> = None"
  using printing_stays_in_buffer [of "\<lparr>nv_precision = 38, nv_scale = -1, nv_sign = 1, nv_val = replicate 16 255\<rparr>"]
  by simp

end
