(* ===== verification/Rs_Ini.thy ===== *)
theory Rs_Ini
  imports Rs_Copy Rs_Time "HOL-Library.Monad_Syntax"
begin

text \<open>
  The driver's own reader and writer of INI files (\<^verbatim>\<open>rsini.cpp\<close>) and the functions that read the
  connection options of a DSN through it (\<^verbatim>\<open>rsconnect.cpp\<close>). The file system is a map from paths to
  contents. A C string is the list of its characters without the terminator; the memory of an output
  buffer is the list of all its characters. A read behind a terminator, of an uninitialised array or of a
  \<^verbatim>\<open>NULL\<close> pointer, and a write outside a buffer, make a function return \<open>None\<close>. Files are
  assumed to be shorter than \<^verbatim>\<open>INT_MAX\<close>.
\<close>

subsection \<open>Lines\<close>

definition INI_BUFFER_SIZE :: nat where "INI_BUFFER_SIZE = 16384"
definition INI_KEY_SIZE :: nat where "INI_KEY_SIZE = 128"
definition INI_MAX_PATH :: nat where "INI_MAX_PATH = 260"
definition MAX_NUMBER_BUF_LEN :: nat where "MAX_NUMBER_BUF_LEN = 64"

abbreviation NL :: char where "NL \<equiv> CHR 0x0A"
abbreviation ZERO :: char where "ZERO \<equiv> CHR 0x00"

definition cstr :: "string \<Rightarrow> string" where
  "cstr mem = takeWhile (\<lambda>c. c \<noteq> ZERO) mem"

text \<open>What one \<^verbatim>\<open>fgets(buffer, INI_BUFFER_SIZE, fp)\<close> stores of the rest \<open>f\<close> of a file, and what the
  calls up to the end of the file store.\<close>

definition first_line :: "string \<Rightarrow> string" where
  "first_line f =
     (let w = takeWhile (\<lambda>c. c \<noteq> NL) f
      in if length w < INI_BUFFER_SIZE - 1 then w @ take 1 (drop (length w) f) else take (INI_BUFFER_SIZE - 1) f)"

lemma first_line_nonempty: "f \<noteq> [] \<Longrightarrow> 0 < length (first_line f)"
  by (cases f) (auto simp: first_line_def INI_BUFFER_SIZE_def Let_def)

function fgets_lines :: "string \<Rightarrow> string list" where
  "fgets_lines f = (if f = [] then [] else first_line f # fgets_lines (drop (length (first_line f)) f))"
  by auto
termination
  by (relation "measure length") (auto intro!: diff_less first_line_nonempty)

declare fgets_lines.simps [simp del]

text \<open>
  \<^verbatim>\<open>if (buffer[strlen(buffer)-1] == '\n') buffer[strlen(buffer)-1] = '\0'\<close>: for a line that
  starts with a NUL the index is outside the buffer.
\<close>

definition chomp :: "string \<Rightarrow> string option" where
  "chomp l = (let s = cstr l in if s = [] then None else Some (if last s = NL then butlast s else s))"

definition isCommentLine :: "string \<Rightarrow> bool" where
  "isCommentLine s = (case dropWhile (\<lambda>c. c = CHR '' '') s of [] \<Rightarrow> True | c # _ \<Rightarrow> c = CHR '';'')"

text \<open>The loop that looks for the closing bracket does not stop at the end of the line.\<close>

definition isSection :: "string \<Rightarrow> bool option" where
  "isSection s =
     (case dropWhile (\<lambda>c. c = CHR '' '') s of
        [] \<Rightarrow> Some False
      | c # r \<Rightarrow> if c = CHR ''['' then (if CHR '']'' \<in> set r then Some True else None) else Some False)"

text \<open>\<^verbatim>\<open>snprintf(search, INI_KEY_SIZE, "[%s]", pSectionName)\<close>.\<close>

definition section_search :: "string \<Rightarrow> string" where
  "section_search pSectionName = take (INI_KEY_SIZE - 1) (''['' @ pSectionName @ '']'')"

text \<open>
  \<^verbatim>\<open>strncpy(search, pKey, INI_KEY_SIZE)\<close> and \<^verbatim>\<open>_stricmp(search, name)\<close>: a key of 128
  characters or more leaves \<^verbatim>\<open>search\<close> unterminated, so that a comparison which does not find a
  difference in it runs past its end.
\<close>

definition key_matches :: "string \<Rightarrow> string \<Rightarrow> bool option" where
  "key_matches pKey name =
     (if length pKey < INI_KEY_SIZE then Some (nocase_eq pKey name)
      else if nocase_eq (take INI_KEY_SIZE pKey) (take INI_KEY_SIZE name) then None else Some False)"

text \<open>\<^verbatim>\<open>trim_whitespaces\<close>: the string it returns, and the string at the place of the argument afterwards.\<close>

definition trim_whitespaces :: "string \<Rightarrow> string \<times> string" where
  "trim_whitespaces s =
     (let t = dropWhile c_isspace s
      in if t = [] then ([], s)
         else (let u = rev (dropWhile c_isspace (rev t)) in (u, takeWhile c_isspace s @ u)))"

text \<open>\<^verbatim>\<open>strchr(buffer, '=')\<close>: the text before and behind the sign.\<close>

definition split_eq :: "string \<Rightarrow> (string \<times> string) option" where
  "split_eq s =
     (if CHR ''='' \<in> set s
      then Some (takeWhile (\<lambda>c. c \<noteq> CHR ''='') s, tl (dropWhile (\<lambda>c. c \<noteq> CHR ''='') s)) else None)"

text \<open>The path of the file: the variable \<^verbatim>\<open>ODBCINI\<close> of the environment wins.\<close>

definition getFullOdbcIniPath :: "string option \<Rightarrow> nat \<Rightarrow> string \<Rightarrow> string" where
  "getFullOdbcIniPath env iMaxsize pFile =
     (let iSize = (case env of Some e \<Rightarrow> length e | None \<Rightarrow> 0) + 1 + length pFile
      in if iSize < iMaxsize then (case env of Some e \<Rightarrow> e | None \<Rightarrow> pFile) else [])"

subsection \<open>Reading\<close>

text \<open>The loop up to the section: whether its line was found, and the lines behind it.\<close>

fun find_section :: "string \<Rightarrow> string list \<Rightarrow> (bool \<times> string list) option" where
  "find_section search [] = Some (False, [])"
| "find_section search (l # ls) =
     (case chomp l of
        None \<Rightarrow> None
      | Some s \<Rightarrow> if isCommentLine s then find_section search ls
                  else if nocase_eq search s then Some (True, ls) else find_section search ls)"

text \<open>The loop over the keys: the text behind the first \<^verbatim>\<open>=\<close> of the line with the key. The integer
  reader compares the name as it stands in the file, the string reader trims it first.\<close>

fun find_key :: "(string \<Rightarrow> string) \<Rightarrow> string \<Rightarrow> string list \<Rightarrow> string option option" where
  "find_key prep pKey [] = Some None"
| "find_key prep pKey (l # ls) =
     (case chomp l of
        None \<Rightarrow> None
      | Some s \<Rightarrow>
          if isCommentLine s then find_key prep pKey ls
          else (case isSection s of
                  None \<Rightarrow> None
                | Some True \<Rightarrow> Some None
                | Some False \<Rightarrow>
                    (case split_eq s of
                       None \<Rightarrow> find_key prep pKey ls
                     | Some (name, val) \<Rightarrow>
                         (case key_matches pKey (prep name) of
                            None \<Rightarrow> None
                          | Some True \<Rightarrow> Some (Some val)
                          | Some False \<Rightarrow> find_key prep pKey ls))))"

text \<open>
  \<^verbatim>\<open>atoi\<close> and \<^verbatim>\<open>sscanf\<close> of a number outside the range of the type, here of \<open>w\<close> bits, are
  undefined in C.
\<close>

definition fits :: "nat \<Rightarrow> int \<Rightarrow> bool" where
  "fits w v \<longleftrightarrow> - (2 ^ (w - 1)) \<le> v \<and> v < 2 ^ (w - 1)"

definition c_atoi :: "string \<Rightarrow> int option" where
  "c_atoi s = (case scan_number s of None \<Rightarrow> Some 0 | Some (v, _) \<Rightarrow> if fits 32 v then Some v else None)"

definition getPrivateProfileInt ::
  "(string \<Rightarrow> string option) \<Rightarrow> string option \<Rightarrow> string option \<Rightarrow> string option \<Rightarrow> int \<Rightarrow> string option \<Rightarrow> int option" where
  "getPrivateProfileInt fs env pSectionName pKey iDflt pFile =
     (case (pFile, pSectionName, pKey) of
        (Some file, Some sec, Some key) \<Rightarrow>
          (case fs (getFullOdbcIniPath env INI_MAX_PATH file) of
             None \<Rightarrow> Some iDflt
           | Some f \<Rightarrow>
               do {
                 (found, ls) \<leftarrow> find_section (section_search sec) (fgets_lines f);
                 (if \<not> found then Some iDflt
                  else do {
                    v \<leftarrow> find_key (\<lambda>n. n) key ls;
                    (case v of None \<Rightarrow> Some iDflt | Some t \<Rightarrow> if t = [] then Some iDflt else c_atoi t)
                  })
               })
      | _ \<Rightarrow> Some iDflt)"

text \<open>
  The default of the string reader: \<^verbatim>\<open>NULL\<close>, a string, or the output buffer itself, as the readers
  of options below pass it. (Copying the buffer onto itself, which C leaves undefined, is taken to
  keep the text.)
\<close>

datatype dflt = NullDflt | Dflt string | SameBuffer

definition dflt_text :: "string \<Rightarrow> dflt \<Rightarrow> string option" where
  "dflt_text mem d = (case d of NullDflt \<Rightarrow> None | Dflt s \<Rightarrow> Some s | SameBuffer \<Rightarrow> Some (cstr mem))"

text \<open>An \<^verbatim>\<open>int\<close> passed or compared as a \<^verbatim>\<open>size_t\<close>; \<^verbatim>\<open>strncpy\<close> pads with NULs.\<close>

definition size_of :: "int \<Rightarrow> nat" where
  "size_of n = nat (n mod 2 ^ 64)"

definition strncpy_at :: "string \<Rightarrow> nat \<Rightarrow> string \<Rightarrow> nat \<Rightarrow> string option" where
  "strncpy_at mem pos s n =
     (if pos + n \<le> length mem then put_at mem pos (take n s @ replicate (n - length s) ZERO) else None)"

definition copied_len :: "int \<Rightarrow> string \<Rightarrow> int" where
  "copied_len iSize s = (if size_of iSize \<le> length s then iSize else int (length s))"

definition use_dflt :: "string \<Rightarrow> dflt \<Rightarrow> int \<Rightarrow> (int \<times> string) option" where
  "use_dflt mem d iSize =
     do { s \<leftarrow> dflt_text mem d; mem' \<leftarrow> strncpy_at mem 0 s (size_of iSize); Some (copied_len iSize s, mem') }"

text \<open>Without a key: all lines of the section, one behind the other.\<close>

fun list_keys :: "int \<Rightarrow> string list \<Rightarrow> string \<Rightarrow> nat \<Rightarrow> int \<Rightarrow> (string \<times> int) option" where
  "list_keys iSize [] mem pos iSizeLeft = Some (mem, iSizeLeft)"
| "list_keys iSize (l # ls) mem pos iSizeLeft =
     (case chomp l of
        None \<Rightarrow> None
      | Some s \<Rightarrow>
          if isCommentLine s then list_keys iSize ls mem pos iSizeLeft
          else (case isSection s of
                  None \<Rightarrow> None
                | Some True \<Rightarrow> Some (mem, iSizeLeft)
                | Some False \<Rightarrow>
                    (let iSizeLeft' = iSizeLeft - int (length s) - 1; pos' = pos + length s + 1
                     in case strncpy_at mem pos s (size_of iSizeLeft) of
                          None \<Rightarrow> None
                        | Some mem1 \<Rightarrow>
                            (case put_at mem1 pos' [ZERO] of
                               None \<Rightarrow> None
                             | Some mem2 \<Rightarrow>
                                 if iSizeLeft' \<le> 1
                                 then (if iSize < 1 then None
                                       else map_option (\<lambda>mem3. (mem3, 0)) (put_at mem2 (nat (iSize - 1)) [ZERO]))
                                 else list_keys iSize ls mem2 pos' iSizeLeft'))))"

definition getPrivateProfileStringWithFullPath ::
  "(string \<Rightarrow> string option) \<Rightarrow> string \<Rightarrow> string option \<Rightarrow> dflt \<Rightarrow> string \<Rightarrow> int \<Rightarrow> string \<Rightarrow>
   (int \<times> string) option" where
  "getPrivateProfileStringWithFullPath fs pSectionName pKey pDflt mem iSize path =
     (case fs path of
        None \<Rightarrow> use_dflt mem pDflt iSize
      | Some f \<Rightarrow>
          do {
            mem0 \<leftarrow> put_at mem 0 [ZERO];
            (found, ls) \<leftarrow> find_section (section_search pSectionName) (fgets_lines f);
            (case pKey of
               None \<Rightarrow>
                 do {
                   (mem1, iSizeLeft) \<leftarrow> (if found then list_keys iSize ls mem0 0 (iSize - 1) else Some (mem0, iSize - 1));
                   Some (iSize - iSizeLeft, mem1)
                 }
             | Some key \<Rightarrow>
                 do {
                   v \<leftarrow> (if found then find_key (\<lambda>n. fst (trim_whitespaces n)) key ls else Some None);
                   (case v of
                      Some val \<Rightarrow>
                        (let (t, pChar) = trim_whitespaces val
                         in map_option (\<lambda>mem1. (copied_len iSize pChar, mem1)) (strncpy_at mem0 0 t (size_of iSize)))
                    | None \<Rightarrow>
                        (case pDflt of
                           NullDflt \<Rightarrow> Some (0, mem0)
                         | Dflt s \<Rightarrow> map_option (\<lambda>mem1. (copied_len iSize s, mem1)) (strncpy_at mem0 0 s (size_of iSize))
                         | SameBuffer \<Rightarrow> Some (copied_len iSize (cstr mem0), mem0)))
                 })
          })"

definition getPrivateProfileString ::
  "(string \<Rightarrow> string option) \<Rightarrow> string option \<Rightarrow> string option \<Rightarrow> string option \<Rightarrow> dflt \<Rightarrow> string \<Rightarrow> int \<Rightarrow>
   string option \<Rightarrow> (int \<times> string) option" where
  "getPrivateProfileString fs env pSectionName pKey pDflt mem iSize pFile =
     (case (pFile, pSectionName) of
        (Some file, Some sec) \<Rightarrow>
          getPrivateProfileStringWithFullPath fs sec pKey pDflt mem iSize (getFullOdbcIniPath env INI_MAX_PATH file)
      | _ \<Rightarrow> use_dflt mem pDflt iSize)"

subsection \<open>Options of a DSN\<close>

text \<open>
  The number buffer after \<^verbatim>\<open>snprintf(szTempNumBuf, n, ...)\<close> (the bytes behind the terminator are
  never read, they are taken to be NUL), and \<^verbatim>\<open>sscanf("%d")\<close> on a buffer: \<open>None\<close> when the
  scan runs out of the buffer, \<open>Some None\<close> when no number is read.
\<close>

definition ODBC_INI :: string where "ODBC_INI = ''odbc.ini''"

definition num_buf :: "nat \<Rightarrow> string \<Rightarrow> string" where
  "num_buf n t = take (n - 1) t @ replicate (MAX_NUMBER_BUF_LEN - length (take (n - 1) t)) ZERO"

definition number_start :: "string \<Rightarrow> string" where
  "number_start mem =
     (let s = dropWhile c_isspace mem in if s \<noteq> [] \<and> (hd s = CHR ''-'' \<or> hd s = CHR ''+'') then tl s else s)"

definition sscanf_buf :: "nat \<Rightarrow> string \<Rightarrow> int option option" where
  "sscanf_buf w mem =
     (if dropWhile is_digit (number_start mem) = [] then None
      else (case scan_number mem of
              None \<Rightarrow> Some None
            | Some (v, _) \<Rightarrow> if fits w v then Some (Some v) else None))"

definition read_num ::
  "nat \<Rightarrow> (string \<Rightarrow> string option) \<Rightarrow> string option \<Rightarrow> string \<Rightarrow> string \<Rightarrow> string \<Rightarrow> int \<Rightarrow> int option" where
  "read_num w fs env szDSN pKey szTempNumBuf v =
     do {
       (_, mem) \<leftarrow> getPrivateProfileString fs env (Some szDSN) (Some pKey) SameBuffer szTempNumBuf
                     (int MAX_NUMBER_BUF_LEN) (Some ODBC_INI);
       r \<leftarrow> sscanf_buf w mem;
       Some (case r of Some n \<Rightarrow> n | None \<Rightarrow> v)
     }"

text \<open>\<^verbatim>\<open>readLongValFromDsn\<close> passes the size of the constant, that of an \<^verbatim>\<open>int\<close>, to \<^verbatim>\<open>snprintf\<close>.\<close>

definition readIntValFromDsn ::
  "(string \<Rightarrow> string option) \<Rightarrow> string option \<Rightarrow> string \<Rightarrow> string \<Rightarrow> int \<Rightarrow> int option" where
  "readIntValFromDsn fs env szDSN pKey v =
     read_num 32 fs env szDSN pKey (num_buf MAX_NUMBER_BUF_LEN (dec_int v)) v"

definition readLongValFromDsn ::
  "(string \<Rightarrow> string option) \<Rightarrow> string option \<Rightarrow> string \<Rightarrow> string \<Rightarrow> int \<Rightarrow> int option" where
  "readLongValFromDsn fs env szDSN pKey v = read_num 64 fs env szDSN pKey (num_buf 4 (dec_int v)) v"

definition readLongLongValFromDsn ::
  "(string \<Rightarrow> string option) \<Rightarrow> string option \<Rightarrow> string \<Rightarrow> string \<Rightarrow> int \<Rightarrow> int option" where
  "readLongLongValFromDsn fs env szDSN pKey v =
     read_num 64 fs env szDSN pKey (num_buf MAX_NUMBER_BUF_LEN (dec_int v)) v"

definition convertToBoolVal :: "string \<Rightarrow> bool" where
  "convertToBoolVal pVal \<longleftrightarrow> nocase_eq (cstr pVal) ''TRUE'' \<or> nocase_eq (cstr pVal) ''1''"

definition readBoolValFromDsn ::
  "(string \<Rightarrow> string option) \<Rightarrow> string option \<Rightarrow> string \<Rightarrow> string \<Rightarrow> bool \<Rightarrow> bool option" where
  "readBoolValFromDsn fs env szDSN pKey b =
     do {
       (_, mem) \<leftarrow> getPrivateProfileString fs env (Some szDSN) (Some pKey) SameBuffer
                     (num_buf MAX_NUMBER_BUF_LEN (if b then ''true'' else ''false''))
                     (int MAX_NUMBER_BUF_LEN) (Some ODBC_INI);
       Some (convertToBoolVal mem)
     }"

subsection \<open>Writing\<close>

text \<open>
  \<^verbatim>\<open>strncat(pFileBuffer, s, n)\<close> into a buffer of \<open>cap\<close> characters that holds \<open>acc\<close>; a
  negative \<open>n\<close> is a huge unsigned one.
\<close>

definition strncat :: "nat \<Rightarrow> string \<Rightarrow> string \<Rightarrow> int \<Rightarrow> string option" where
  "strncat cap acc s n =
     (let t = (if n < 0 then s else take (nat n) s) in if length acc + length t < cap then Some (acc @ t) else None)"

text \<open>The loop up to the section, which copies every line it passes; the last component is \<^verbatim>\<open>iTempLen\<close>.\<close>

fun copy_to_section ::
  "string \<Rightarrow> nat \<Rightarrow> string list \<Rightarrow> string \<Rightarrow> int \<Rightarrow> (bool \<times> string list \<times> string) option" where
  "copy_to_section search cap [] acc iTempLen = Some (False, [], acc)"
| "copy_to_section search cap (l # ls) acc iTempLen =
     do {
       acc' \<leftarrow> strncat cap acc (cstr l) iTempLen;
       s \<leftarrow> chomp l;
       (if isCommentLine s then copy_to_section search cap ls acc' (iTempLen - int (length (cstr l)))
        else if nocase_eq search s then Some (True, ls, acc')
        else copy_to_section search cap ls acc' (iTempLen - int (length (cstr l))))
     }"

text \<open>
  The loop over the keys of the section. Its result is what was copied, the string in \<^verbatim>\<open>original\<close>
  (\<open>None\<close> when the loop never ran and the array is uninitialised) and the lines behind. Comment
  lines and section lines are recognised with their line end.
\<close>

fun copy_to_key ::
  "string \<Rightarrow> nat \<Rightarrow> string list \<Rightarrow> string \<Rightarrow> string option \<Rightarrow> (string \<times> string option \<times> string list) option" where
  "copy_to_key pKey cap [] acc original = Some (acc, original, [])"
| "copy_to_key pKey cap (l # ls) acc original =
     (if isCommentLine (cstr l)
      then do {
        acc' \<leftarrow> strncat cap acc (cstr l) (int INI_BUFFER_SIZE);
        copy_to_key pKey cap ls acc' (Some [])
      }
      else do {
        sec \<leftarrow> isSection (cstr l);
        (if sec then Some (acc, Some (cstr l), ls)
         else do {
           s \<leftarrow> chomp l;
           eq \<leftarrow> key_matches pKey (case split_eq s of Some (name, _) \<Rightarrow> name | None \<Rightarrow> s);
           (if eq then Some (acc, Some [], ls)
            else do {
              acc' \<leftarrow> strncat cap acc (cstr l) (int INI_BUFFER_SIZE);
              copy_to_key pKey cap ls acc' (Some [])
            })
         })
      })"

text \<open>The last loop copies the rest of the file.\<close>

fun copy_rest :: "nat \<Rightarrow> string list \<Rightarrow> string \<Rightarrow> string option" where
  "copy_rest cap [] acc = Some acc"
| "copy_rest cap (l # ls) acc =
     do { acc' \<leftarrow> strncat cap acc (cstr l) (int INI_BUFFER_SIZE); copy_rest cap ls acc' }"

text \<open>\<^verbatim>\<open>snprintf(buffer, INI_BUFFER_SIZE, "%s=%s
", pKey, pData)\<close>, when there is data.\<close>

definition append_entry :: "nat \<Rightarrow> string \<Rightarrow> string option \<Rightarrow> string \<Rightarrow> string option" where
  "append_entry cap pKey pData acc =
     (case pData of
        None \<Rightarrow> Some acc
      | Some d \<Rightarrow> strncat cap acc (take (INI_BUFFER_SIZE - 1) (pKey @ ''='' @ d @ [NL])) (int INI_BUFFER_SIZE))"

text \<open>The new contents of the file \<open>f\<close>; \<open>cap\<close> is the size of \<^verbatim>\<open>pFileBuffer\<close>.\<close>

definition file_buffer_size :: "string \<Rightarrow> string \<Rightarrow> string option \<Rightarrow> string \<Rightarrow> nat" where
  "file_buffer_size pSectionName pKey pData f =
     length f + length pKey + 1 + (case pData of Some d \<Rightarrow> length d | None \<Rightarrow> 0) + 2 + length pSectionName + 4"

definition new_contents :: "string \<Rightarrow> string \<Rightarrow> string option \<Rightarrow> string \<Rightarrow> string option" where
  "new_contents pSectionName pKey pData f =
     (let cap = file_buffer_size pSectionName pKey pData f
      in do {
        (found, ls, acc) \<leftarrow> copy_to_section (section_search pSectionName) cap (fgets_lines f) [] (int cap);
        (if found
         then do {
           (acc1, original, rest) \<leftarrow> copy_to_key pKey cap ls acc None;
           acc2 \<leftarrow> append_entry cap pKey pData acc1;
           orig \<leftarrow> original;
           acc3 \<leftarrow> (if orig \<noteq> [] then strncat cap acc2 orig (int INI_BUFFER_SIZE) else Some acc2);
           copy_rest cap rest acc3
         }
         else do {
           acc1 \<leftarrow> strncat cap acc (take (INI_BUFFER_SIZE - 1) (''['' @ pSectionName @ '']'' @ [NL])) (int INI_BUFFER_SIZE);
           acc2 \<leftarrow> append_entry cap pKey pData acc1;
           copy_rest cap ls acc2
         })
      })"

text \<open>
  The result is the return value and the file system afterwards; \<open>writable\<close> says whether
  \<^verbatim>\<open>fopen(path, "w")\<close> succeeds.
\<close>

definition writePrivateProfileString ::
  "(string \<Rightarrow> string option) \<Rightarrow> string option \<Rightarrow> bool \<Rightarrow> string option \<Rightarrow> string option \<Rightarrow> string option \<Rightarrow>
   string option \<Rightarrow> (int \<times> (string \<Rightarrow> string option)) option" where
  "writePrivateProfileString fs env writable pSectionName pKey pData pFile =
     (case (pFile, pSectionName, pKey) of
        (Some file, Some sec, Some key) \<Rightarrow>
          (let path = getFullOdbcIniPath env INI_MAX_PATH file
           in if fs path = None \<and> \<not> writable then Some (0, fs)
              else do {
                t \<leftarrow> new_contents sec key pData (case fs path of Some f \<Rightarrow> f | None \<Rightarrow> []);
                Some (if writable then (1, fs(path \<mapsto> t)) else (0, fs))
              })
      | _ \<Rightarrow> Some (0, fs))"

end
