(* ===== verification/Rs_Ini_Files.thy ===== *)
theory Rs_Ini_Files
  imports Rs_Ini
begin

text \<open>
  INI files as lists of lines, the map from sections and keys to values that such a list stands for,
  what the loops of the reader find in it and what the writer makes of it. All of the writer's copies
  fit the buffer it allocates.
\<close>

subsection \<open>Files as lists of lines\<close>

definition nl :: "string \<Rightarrow> string" where
  "nl l = l @ [NL]"

definition file_of :: "string list \<Rightarrow> string" where
  "file_of ls = concat (map nl ls)"

definition hdr :: "string \<Rightarrow> string" where
  "hdr s = ''['' @ s @ '']''"

definition is_hdr :: "string \<Rightarrow> bool" where
  "is_hdr l \<longleftrightarrow> isSection l = Some True"

definition name_of :: "string \<Rightarrow> string" where
  "name_of l = (case split_eq l of Some (n, _) \<Rightarrow> n | None \<Rightarrow> l)"

text \<open>
  A well-formed line fits the line buffer, closes the bracket it opens and has no white space around
  the name of its key.
\<close>

definition line_ok :: "string \<Rightarrow> bool" where
  "line_ok l \<longleftrightarrow> NL \<notin> set l \<and> ZERO \<notin> set l \<and> length l < INI_BUFFER_SIZE - 1 \<and> isSection l \<noteq> None \<and>
     (isCommentLine l \<or> is_hdr l \<or> split_eq l = None \<or> fst (trim_whitespaces (name_of l)) = name_of l)"

definition ini_ok :: "string list \<Rightarrow> bool" where
  "ini_ok ls \<longleftrightarrow> list_all line_ok ls \<and> (ls = [] \<or> \<not> is_hdr (last ls))"

definition section_ok :: "string \<Rightarrow> bool" where
  "section_ok s \<longleftrightarrow> NL \<notin> set s \<and> ZERO \<notin> set s \<and> length s + 2 < INI_KEY_SIZE"

definition key_ok :: "string \<Rightarrow> bool" where
  "key_ok k \<longleftrightarrow> k \<noteq> [] \<and> hd k \<notin> {CHR '';'', CHR ''[''} \<and> NL \<notin> set k \<and> ZERO \<notin> set k \<and> CHR ''='' \<notin> set k \<and>
     fst (trim_whitespaces k) = k \<and> length k < INI_KEY_SIZE"

definition value_ok :: "string \<Rightarrow> bool" where
  "value_ok v \<longleftrightarrow> NL \<notin> set v \<and> ZERO \<notin> set v \<and> fst (trim_whitespaces v) = v \<and> length v < 16000"

subsection \<open>The map of a file\<close>

text \<open>The value of a key in the lines behind the line of its section, and in the whole file.\<close>

fun body_get :: "string \<Rightarrow> string list \<Rightarrow> string option" where
  "body_get k [] = None"
| "body_get k (l # ls) =
     (if isCommentLine l then body_get k ls
      else if is_hdr l then None
      else (case split_eq l of
              Some (n, v) \<Rightarrow> if nocase_eq k (fst (trim_whitespaces n)) then Some v else body_get k ls
            | None \<Rightarrow> body_get k ls))"

fun after_hdr :: "string \<Rightarrow> string list \<Rightarrow> string list option" where
  "after_hdr h [] = None"
| "after_hdr h (l # ls) = (if \<not> isCommentLine l \<and> nocase_eq h l then Some ls else after_hdr h ls)"

definition ini_map :: "string list \<Rightarrow> string \<times> string \<Rightarrow> string option" where
  "ini_map ls sk = Option.bind (after_hdr (hdr (fst sk)) ls) (body_get (snd sk))"

text \<open>What writing a key does to the lines.\<close>

definition entry :: "string \<Rightarrow> string \<Rightarrow> string" where
  "entry k v = k @ ''='' @ v"

fun body_put :: "string \<Rightarrow> string list \<Rightarrow> string list \<Rightarrow> string list" where
  "body_put k new [] = new"
| "body_put k new (l # ls) =
     (if isCommentLine l then l # body_put k new ls
      else if is_hdr l then new @ l # ls
      else if nocase_eq k (name_of l) then new @ ls
      else l # body_put k new ls)"

fun ini_put :: "string \<Rightarrow> string \<Rightarrow> string list \<Rightarrow> string list \<Rightarrow> string list" where
  "ini_put s k new [] = hdr s # new"
| "ini_put s k new (l # ls) =
     (if \<not> isCommentLine l \<and> nocase_eq (hdr s) l then l # body_put k new ls else l # ini_put s k new ls)"

definition new_entry :: "string \<Rightarrow> string option \<Rightarrow> string list" where
  "new_entry k d = (case d of None \<Rightarrow> [] | Some v \<Rightarrow> [entry k v])"

subsection \<open>Lines\<close>

lemma file_of_simps [simp]:
  "file_of [] = []" "file_of (l # ls) = nl l @ file_of ls" "file_of (ls @ ms) = file_of ls @ file_of ms"
  by (simp_all add: file_of_def)

lemma takeWhile_stop: "x \<notin> set l \<Longrightarrow> takeWhile (\<lambda>c. c \<noteq> x) (l @ x # r) = l"
  by (induction l) auto

lemma dropWhile_stop: "x \<notin> set l \<Longrightarrow> dropWhile (\<lambda>c. c \<noteq> x) (l @ x # r) = x # r"
  by (induction l) auto

lemma takeWhile_none: "x \<notin> set l \<Longrightarrow> takeWhile (\<lambda>c. c \<noteq> x) l = l"
  by (induction l) auto

lemma line_okD:
  assumes "line_ok l"
  shows "NL \<notin> set l" "ZERO \<notin> set l" "length l < 16383" "cstr (nl l) = nl l" "chomp (nl l) = Some l"
    "isSection l = Some (is_hdr l)"
    "\<not> isCommentLine l \<Longrightarrow> \<not> is_hdr l \<Longrightarrow> split_eq l = Some p \<Longrightarrow> fst (trim_whitespaces (fst p)) = fst p"
proof -
  show l: "NL \<notin> set l" "ZERO \<notin> set l" "length l < 16383"
    using assms by (simp_all add: line_ok_def INI_BUFFER_SIZE_def)
  have "ZERO \<notin> set (l @ [NL])" using l(2) by simp
  then show c: "cstr (nl l) = nl l" by (simp only: cstr_def nl_def takeWhile_none not_False_eq_True)
  then show "chomp (nl l) = Some l" by (simp add: chomp_def nl_def)
  show "isSection l = Some (is_hdr l)" using assms by (auto simp: line_ok_def is_hdr_def)
  show "\<not> isCommentLine l \<Longrightarrow> \<not> is_hdr l \<Longrightarrow> split_eq l = Some p \<Longrightarrow> fst (trim_whitespaces (fst p)) = fst p"
    using assms by (auto simp: line_ok_def name_of_def split: prod.splits)
qed

lemma fgets_lines_file:
  "list_all line_ok ls \<Longrightarrow> fgets_lines (file_of ls) = map nl ls"
proof (induction ls)
  case Nil
  show ?case by (simp add: fgets_lines.simps [of "[]"])
next
  case (Cons l ls)
  then have l: "NL \<notin> set l" "length l < 16383" using line_okD by (auto simp: list_all_iff)
  have "takeWhile (\<lambda>c. c \<noteq> NL) (l @ NL # file_of ls) = l" by (rule takeWhile_stop) (rule l)
  then have "first_line (file_of (l # ls)) = nl l"
    using l(2) by (simp add: first_line_def INI_BUFFER_SIZE_def nl_def)
  then show ?case
    using Cons fgets_lines.simps [of "file_of (l # ls)"] by (simp add: nl_def)
qed


text \<open>What a line is depends on its first character that is not a space.\<close>

definition first_of :: "string \<Rightarrow> string" where
  "first_of l = dropWhile (\<lambda>c. c = CHR '' '') l"

lemma line_class:
  "isCommentLine l \<longleftrightarrow> first_of l = [] \<or> hd (first_of l) = CHR '';''"
  "is_hdr l \<longleftrightarrow> first_of l \<noteq> [] \<and> hd (first_of l) = CHR ''['' \<and> CHR '']'' \<in> set (tl (first_of l))"
  "isSection l = None \<longleftrightarrow> first_of l \<noteq> [] \<and> hd (first_of l) = CHR ''['' \<and> CHR '']'' \<notin> set (tl (first_of l))"
  unfolding isCommentLine_def is_hdr_def isSection_def first_of_def [symmetric]
  by (cases "first_of l"; simp)+

lemma comment_not_hdr: "isCommentLine l \<Longrightarrow> \<not> is_hdr l"
  by (auto simp: line_class)

lemma dropWhile_snoc_stop: "\<not> P x \<Longrightarrow> dropWhile P (l @ [x]) = dropWhile P l @ [x]"
  by (induction l) auto

text \<open>The line end changes the class of a line only when it is blank.\<close>

lemma first_of_nl: "first_of (nl l) = nl (first_of l)"
  by (simp add: first_of_def nl_def dropWhile_snoc_stop)

lemma isSection_nl: "line_ok l \<Longrightarrow> isSection (nl l) = Some (is_hdr l)"
proof -
  assume "line_ok l"
  then have "isSection l \<noteq> None" by (simp add: line_ok_def)
  then have "isSection (nl l) \<noteq> None" "is_hdr (nl l) \<longleftrightarrow> is_hdr l"
    by (cases "first_of l"; simp add: line_class first_of_nl; simp add: nl_def)+
  then show ?thesis by (auto simp: is_hdr_def)
qed

lemma comment_nl: "isCommentLine (nl l) \<longleftrightarrow> isCommentLine l \<and> first_of l \<noteq> []"
  by (cases "first_of l"; simp add: line_class first_of_nl; simp add: nl_def)

lemma nocase_refl [simp]: "nocase_eq a a"
  and nocase_sym: "nocase_eq a b \<longleftrightarrow> nocase_eq b a"
  and nocase_trans: "nocase_eq a b \<Longrightarrow> nocase_eq a c \<longleftrightarrow> nocase_eq b c"
  by (auto simp: nocase_eq_def)

lemma nocase_length: "nocase_eq a b \<Longrightarrow> length a = length b"
  by (metis nocase_eq_def length_map)

lemma c_upper_special: "d \<in> {CHR ''['', CHR '']'', CHR '' '', CHR '';''} \<Longrightarrow> c_upper c = d \<longleftrightarrow> c = d"
proof (cases "97 \<le> (of_char c :: nat) \<and> (of_char c :: nat) \<le> 122")
  case False
  then have "c_upper c = c" by (auto simp: c_upper_def)
  then show ?thesis by simp
next
  case True
  assume d: "d \<in> {CHR ''['', CHR '']'', CHR '' '', CHR '';''}"
  have "(of_char c - 32 :: nat) < 256" using True by linarith
  then have "(of_char (c_upper c) :: nat) = of_char c - 32" using True by (simp add: c_upper_def)
  then have "(of_char (c_upper c) :: nat) \<in> {65..90}" using True by auto
  moreover have "(of_char d :: nat) \<notin> {65..90}" using d by auto
  moreover have "(of_char c :: nat) \<noteq> of_char d" using True d by auto
  ultimately show ?thesis by metis
qed

lemma hdr_matches:
  assumes "nocase_eq (hdr s) l"
  shows "is_hdr l" "\<not> isCommentLine l"
proof -
  have up: "c_upper CHR ''['' = CHR ''[''" "c_upper CHR '']'' = CHR '']''" by (simp_all add: c_upper_special)
  have "map c_upper l = CHR ''['' # map c_upper s @ [CHR '']'']"
    using assms by (simp add: nocase_eq_def hdr_def up)
  then obtain c r where l: "l = c # r" "c_upper c = CHR ''[''" "map c_upper r = map c_upper s @ [CHR '']'']"
    by (cases l) auto
  have c: "c = CHR ''[''" using l(2) by (simp add: c_upper_special)
  have "CHR '']'' \<in> c_upper ` set r" using l(3) by (metis in_set_conv_decomp list.set_map)
  then obtain d where "d \<in> set r" "c_upper d = CHR '']''" by (metis imageE)
  then have "CHR '']'' \<in> set r" by (simp add: c_upper_special)
  then show "is_hdr l" "\<not> isCommentLine l" by (simp_all add: l(1) c line_class first_of_def)
qed

subsection \<open>What the reader finds\<close>

lemma find_section_file:
  "list_all line_ok ls \<Longrightarrow>
    find_section h (map nl ls) = Some (case after_hdr h ls of None \<Rightarrow> (False, []) | Some r \<Rightarrow> (True, map nl r))"
  by (induction ls) (auto simp: line_okD(5) comment_not_hdr)

lemma after_hdr_ok: "list_all line_ok ls \<Longrightarrow> after_hdr h ls = Some r \<Longrightarrow> list_all line_ok r"
  by (induction ls) (auto split: if_splits)

lemma key_matches_ok: "key_ok k \<Longrightarrow> key_matches k n = Some (nocase_eq k n)"
  by (simp add: key_ok_def key_matches_def)

lemma find_key_file:
  assumes "key_ok k"
  shows "list_all line_ok ls \<Longrightarrow>
    find_key (\<lambda>n. fst (trim_whitespaces n)) k (map nl ls) = Some (body_get k ls)"
proof (induction ls)
  case Nil
  show ?case by simp
next
  case (Cons l ls)
  then show ?case
    using assms by (cases "is_hdr l") (auto simp: line_okD(5,6) key_matches_ok split: option.split)
qed

lemma section_search_ok: "section_ok s \<Longrightarrow> section_search s = hdr s"
  by (auto simp: section_ok_def section_search_def hdr_def INI_KEY_SIZE_def)

subsection \<open>What the writer stores\<close>

fun upto_hdr :: "string \<Rightarrow> string list \<Rightarrow> string list" where
  "upto_hdr h [] = []"
| "upto_hdr h (l # ls) = (if \<not> isCommentLine l \<and> nocase_eq h l then [l] else l # upto_hdr h ls)"

text \<open>The lines of a section before the place of the key, the section line kept behind it, and the rest.\<close>

fun split_body :: "string \<Rightarrow> string list \<Rightarrow> string list \<times> string list \<times> string list" where
  "split_body k [] = ([], [], [])"
| "split_body k (l # ls) =
     (if isCommentLine l \<or> \<not> is_hdr l \<and> \<not> nocase_eq k (name_of l)
      then (case split_body k ls of (pre, kept, rest) \<Rightarrow> (l # pre, kept, rest))
      else if is_hdr l then ([], [l], ls) else ([], [], ls))"

lemma upto_hdr_file: "after_hdr h ls = Some r \<Longrightarrow> ls = upto_hdr h ls @ r"
  by (induction ls) (auto split: if_splits)

lemma ini_put_parts:
  "ini_put s k new ls =
     (case after_hdr (hdr s) ls of None \<Rightarrow> ls @ hdr s # new | Some r \<Rightarrow> upto_hdr (hdr s) ls @ body_put k new r)"
  by (induction ls) (auto split: option.split)

lemma body_put_parts:
  "body_put k new ls = (case split_body k ls of (pre, kept, rest) \<Rightarrow> pre @ new @ kept @ rest)"
  by (induction ls) (auto split: prod.split)

lemma split_body_length:
  "split_body k ls = (pre, kept, rest) \<Longrightarrow> length (file_of pre) + length (file_of kept) + length (file_of rest) \<le> length (file_of ls)"
  by (induction ls arbitrary: pre kept rest) (fastforce split: if_splits prod.splits)+

lemma split_body_ok:
  "split_body k ls = (pre, kept, rest) \<Longrightarrow> list_all line_ok ls \<Longrightarrow> list_all line_ok pre \<and> list_all line_ok kept \<and> list_all line_ok rest"
  by (induction ls arbitrary: pre kept rest) (fastforce split: if_splits prod.splits)+

lemma split_body_kept: "split_body k ls = (pre, kept, rest) \<Longrightarrow> kept = [] \<or> (\<exists>l. kept = [l] \<and> l \<in> set ls)"
  by (induction ls arbitrary: pre kept rest) (fastforce split: if_splits prod.splits)+

lemma strncat_ok:
  "length acc + length s < cap \<Longrightarrow> int (length s) \<le> n \<Longrightarrow> strncat cap acc s n = Some (acc @ s)"
  by (simp add: strncat_def)

lemma strncat_line:
  "line_ok l \<Longrightarrow> length acc + length (nl l) < cap \<Longrightarrow> strncat cap acc (cstr (nl l)) (int INI_BUFFER_SIZE) = Some (acc @ nl l)"
  using line_okD(3,4) [of l] by (simp add: strncat_ok INI_BUFFER_SIZE_def nl_def)

lemma copy_to_section_file:
  assumes "list_all line_ok ls" "length acc + length (file_of ls) < cap" "int (length (file_of ls)) \<le> t"
  shows "copy_to_section h cap (map nl ls) acc t =
    Some (case after_hdr h ls of None \<Rightarrow> (False, [], acc @ file_of ls) | Some r \<Rightarrow> (True, map nl r, acc @ file_of (upto_hdr h ls)))"
  using assms
proof (induction ls arbitrary: acc t)
  case Nil
  show ?case by simp
next
  case (Cons l ls)
  have l: "line_ok l" using Cons.prems(1) by simp
  have st: "strncat cap acc (nl l) t = Some (acc @ nl l)" using Cons.prems by (intro strncat_ok) simp_all
  have IH: "copy_to_section h cap (map nl ls) (acc @ nl l) (t - int (length (nl l))) =
    Some (case after_hdr h ls of None \<Rightarrow> (False, [], (acc @ nl l) @ file_of ls)
          | Some r \<Rightarrow> (True, map nl r, (acc @ nl l) @ file_of (upto_hdr h ls)))"
    using Cons.prems by (intro Cons.IH) simp_all
  show ?case by (auto simp: line_okD(4,5) [OF l] st IH split: option.split)
qed

lemma key_not_blank:
  assumes "key_ok k" "first_of l = []"
  shows "\<not> nocase_eq k l"
proof
  assume eq: "nocase_eq k l"
  from assms(1) obtain c r where k: "k = c # r" by (cases k) (auto simp: key_ok_def)
  have "\<not> c_isspace c"
  proof
    assume sp: "c_isspace c"
    have "length (dropWhile c_isspace r) \<le> length r" by (rule length_dropWhile_le)
    moreover have "length (dropWhile c_isspace (rev (dropWhile c_isspace r))) \<le> length (dropWhile c_isspace r)"
      by (metis length_dropWhile_le length_rev)
    ultimately have "length (fst (trim_whitespaces k)) < length k"
      by (simp add: k sp trim_whitespaces_def Let_def)
    then show False using assms(1) by (simp add: key_ok_def)
  qed
  then have "c \<noteq> CHR '' ''" by (auto simp: c_isspace_def)
  moreover obtain d s where l: "l = d # s" "c_upper c = c_upper d" using eq k by (cases l) (auto simp: nocase_eq_def)
  moreover have "d = CHR '' ''" using assms(2) l(1) by (auto simp: first_of_def split: if_splits)
  ultimately show False by (simp add: c_upper_special)
qed

lemma split_eq_name: "(case split_eq l of Some (n, _) \<Rightarrow> n | None \<Rightarrow> l) = name_of l"
  by (simp add: name_of_def)

lemma copy_to_key_file:
  assumes "key_ok k" "list_all line_ok ls" "length acc + length (file_of ls) < cap" "split_body k ls = (pre, kept, rest)"
  shows "copy_to_key k cap (map nl ls) acc original =
    Some (acc @ file_of pre, if ls = [] then original else Some (file_of kept), map nl rest)"
  using assms(2-4)
proof (induction ls arbitrary: acc original pre kept rest)
  case Nil
  then show ?case by simp
next
  case (Cons l ls)
  have l: "line_ok l" using Cons.prems(1) by simp
  have st: "strncat cap acc (nl l) (int INI_BUFFER_SIZE) = Some (acc @ nl l)"
    using strncat_line [OF l, of acc cap] Cons.prems(2) by (simp add: line_okD(4) [OF l])
  note step = st isSection_nl [OF l] line_okD(4,5) [OF l] split_eq_name key_matches_ok [OF assms(1)] comment_nl
  show ?case
  proof (cases "isCommentLine l \<or> \<not> is_hdr l \<and> \<not> nocase_eq k (name_of l)")
    case True
    then obtain pre' where p: "split_body k ls = (pre', kept, rest)" "pre = l # pre'"
      using Cons.prems(3) by (auto split: prod.splits)
    have IH: "copy_to_key k cap (map nl ls) (acc @ nl l) (Some []) =
      Some ((acc @ nl l) @ file_of pre', if ls = [] then Some [] else Some (file_of kept), map nl rest)"
      using Cons.prems p(1) by (intro Cons.IH) simp_all
    have "ls = [] \<Longrightarrow> kept = []" using p(1) by auto
    moreover have "name_of l = l" if "first_of l = []"
    proof -
      have "set l \<subseteq> {CHR '' ''}" using that by (auto simp: first_of_def dropWhile_eq_Nil_conv)
      then show ?thesis by (auto simp: name_of_def split_eq_def)
    qed
    ultimately show ?thesis
      using True IH key_not_blank [OF assms(1)] comment_not_hdr [of l]
      by (cases "isCommentLine (nl l)") (auto simp: step p(2))
  next
    case False
    then show ?thesis using Cons.prems(3) by (auto simp: step split: if_splits)
  qed
qed

lemma copy_rest_file:
  "list_all line_ok ls \<Longrightarrow> length acc + length (file_of ls) < cap \<Longrightarrow> copy_rest cap (map nl ls) acc = Some (acc @ file_of ls)"
proof (induction ls arbitrary: acc)
  case (Cons l ls)
  have "strncat cap acc (cstr (nl l)) (int INI_BUFFER_SIZE) = Some (acc @ nl l)"
    using Cons.prems by (intro strncat_line) simp_all
  then show ?case using Cons by simp
qed simp

definition data_ok :: "string \<Rightarrow> string option \<Rightarrow> bool" where
  "data_ok k d \<longleftrightarrow> (case d of None \<Rightarrow> True | Some v \<Rightarrow> length k + length v + 2 < INI_BUFFER_SIZE)"

lemma append_entry_ok:
  assumes "data_ok k d" "length acc + length (file_of (new_entry k d)) < cap"
  shows "append_entry cap k d acc = Some (acc @ file_of (new_entry k d))"
proof (cases d)
  case None
  then show ?thesis by (simp add: append_entry_def new_entry_def)
next
  case (Some v)
  then have len: "length k + length v + 2 < 16384" using assms(1) by (simp add: data_ok_def INI_BUFFER_SIZE_def)
  have "take 16383 (k @ ''='' @ v @ [NL]) = nl (entry k v)" using len by (simp add: nl_def entry_def)
  then show ?thesis
    using Some assms(2) len by (simp add: append_entry_def new_entry_def INI_BUFFER_SIZE_def strncat_ok nl_def entry_def)
qed

lemma length_new_entry: "length (file_of (new_entry k d)) \<le> length k + (case d of Some v \<Rightarrow> length v | None \<Rightarrow> 0) + 2"
  by (simp add: new_entry_def nl_def entry_def split: option.split)

lemma take_hdr: "section_ok s \<Longrightarrow> take (INI_BUFFER_SIZE - 1) (''['' @ s @ '']'' @ [NL]) = nl (hdr s)"
  by (auto simp: section_ok_def INI_BUFFER_SIZE_def INI_KEY_SIZE_def hdr_def nl_def)

lemma new_contents_file:
  assumes "list_all line_ok ls" "section_ok s" "key_ok k" "data_ok k d" "after_hdr (hdr s) ls \<noteq> Some []"
  shows "new_contents s k d (file_of ls) = Some (file_of (ini_put s k (new_entry k d) ls))"
proof -
  obtain cap where cap: "cap = file_buffer_size s k d (file_of ls)" by simp
  have room: "length (file_of ls) + length (nl (hdr s)) + length (file_of (new_entry k d)) < cap"
    using length_new_entry [of k d] by (simp add: cap file_buffer_size_def hdr_def nl_def split: option.splits)
  have sec: "copy_to_section (section_search s) cap (map nl ls) [] (int cap) =
    Some (case after_hdr (hdr s) ls of None \<Rightarrow> (False, [], file_of ls)
          | Some r \<Rightarrow> (True, map nl r, file_of (upto_hdr (hdr s) ls)))"
    unfolding section_search_ok [OF assms(2)]
    by (subst copy_to_section_file) (use assms(1) room in \<open>auto split: option.split\<close>)
  show ?thesis
  proof (cases "after_hdr (hdr s) ls")
    case None
    have st: "strncat cap (file_of ls) (nl (hdr s)) (int INI_BUFFER_SIZE) = Some (file_of ls @ nl (hdr s))"
      by (rule strncat_ok) (use room assms(2) in \<open>auto simp: section_ok_def INI_BUFFER_SIZE_def INI_KEY_SIZE_def nl_def hdr_def\<close>)
    have "append_entry cap k d (file_of ls @ nl (hdr s)) = Some ((file_of ls @ nl (hdr s)) @ file_of (new_entry k d))"
      by (rule append_entry_ok [OF assms(4)]) (use room in simp)
    then show ?thesis
      using st by (simp add: new_contents_def cap [symmetric] fgets_lines_file [OF assms(1)] sec None
          take_hdr [OF assms(2), unfolded One_nat_def] ini_put_parts del: append.simps take_append)
  next
    case (Some r)
    obtain pre kept rest where p: "split_body k r = (pre, kept, rest)" using prod_cases3 by blast
    have r: "list_all line_ok r" "r \<noteq> []" using after_hdr_ok [OF assms(1) Some] Some assms(5) by auto
    have len: "length (file_of (upto_hdr (hdr s) ls)) + length (file_of r) = length (file_of ls)"
      using arg_cong [OF upto_hdr_file [OF Some], of "\<lambda>x. length (file_of x)"] by simp
    note pl = split_body_length [OF p] split_body_ok [OF p r(1)]
    have key: "copy_to_key k cap (map nl r) (file_of (upto_hdr (hdr s) ls)) None =
      Some (file_of (upto_hdr (hdr s) ls) @ file_of pre, Some (file_of kept), map nl rest)"
      using copy_to_key_file [OF assms(3) r(1) _ p, of "file_of (upto_hdr (hdr s) ls)" cap None] len room r(2) by simp
    have app: "append_entry cap k d (file_of (upto_hdr (hdr s) ls) @ file_of pre) =
      Some (file_of (upto_hdr (hdr s) ls @ pre @ new_entry k d))"
      using append_entry_ok [OF assms(4), of "file_of (upto_hdr (hdr s) ls) @ file_of pre" cap] room len pl(1) by simp
    have orig: "(if file_of kept \<noteq> [] then strncat cap (file_of (upto_hdr (hdr s) ls @ pre @ new_entry k d)) (file_of kept) (int INI_BUFFER_SIZE)
      else Some (file_of (upto_hdr (hdr s) ls @ pre @ new_entry k d))) = Some (file_of (upto_hdr (hdr s) ls @ pre @ new_entry k d @ kept))"
      using split_body_kept [OF p]
    proof
      assume "\<exists>l. kept = [l] \<and> l \<in> set r"
      then obtain l where l: "kept = [l]" "l \<in> set r" by blast
      then have "line_ok l" using r(1) by (simp add: list_all_iff)
      then have "strncat cap (file_of (upto_hdr (hdr s) ls @ pre @ new_entry k d)) (nl l) (int INI_BUFFER_SIZE) =
        Some (file_of (upto_hdr (hdr s) ls @ pre @ new_entry k d) @ nl l)"
        by (intro strncat_ok) (use room len pl(1) line_okD(3) [of l] l(1) in \<open>simp_all add: INI_BUFFER_SIZE_def nl_def\<close>)
      then show ?thesis by (simp add: l(1) nl_def)
    qed simp
    have rest: "copy_rest cap (map nl rest) (file_of (upto_hdr (hdr s) ls @ pre @ new_entry k d @ kept)) =
      Some (file_of (upto_hdr (hdr s) ls @ pre @ new_entry k d @ kept) @ file_of rest)"
      by (rule copy_rest_file) (use room len pl in simp_all)
    show ?thesis
      using orig rest
      by (cases "file_of kept = []") (simp_all add: new_contents_def cap [symmetric] fgets_lines_file [OF assms(1)]
          sec Some key app ini_put_parts body_put_parts p del: append.simps)
  qed
qed

end
