(* ===== verification/Rs_Ini_Promises.thy ===== *)
theory Rs_Ini_Promises
  imports Rs_Ini_Files Rs_Dates
begin

text \<open>
  What the INI reader and writer promise: writing a value updates the map of the file and keeps the
  file well formed, reading follows the map, lists of options are read back as they were saved, and the
  readers of options see the file, with the defaults they lose.
\<close>

subsection \<open>Looking up after writing\<close>

text \<open>The line that is written, as the reader sees it.\<close>

lemma trim_length: "length (fst (trim_whitespaces s)) \<le> length s"
proof -
  have "length (dropWhile c_isspace (rev (dropWhile c_isspace s))) \<le> length (dropWhile c_isspace s)"
    by (metis length_dropWhile_le length_rev)
  also have "\<dots> \<le> length s" by (rule length_dropWhile_le)
  finally show ?thesis by (simp add: trim_whitespaces_def Let_def)
qed

lemma trimmed_head:
  assumes "fst (trim_whitespaces (c # s)) = c # s"
  shows "\<not> c_isspace c"
proof
  assume "c_isspace c"
  then have "fst (trim_whitespaces (c # s)) = fst (trim_whitespaces s)" by (simp add: trim_whitespaces_def Let_def)
  then have "length (fst (trim_whitespaces (c # s))) \<le> length s" using trim_length [of s] by simp
  then show False by (simp add: assms)
qed

lemma entry_line:
  assumes "key_ok k"
  shows "\<not> isCommentLine (entry k v)" "\<not> is_hdr (entry k v)" "split_eq (entry k v) = Some (k, v)"
    "name_of (entry k v) = k" "\<not> nocase_eq (hdr s) (entry k v)" "isSection (entry k v) = Some False"
proof -
  from assms obtain c r where k: "k = c # r" "c \<noteq> CHR '';''" "c \<noteq> CHR ''[''" "fst (trim_whitespaces (c # r)) = c # r"
    by (cases k) (auto simp: key_ok_def)
  have "\<not> c_isspace c" using k(4) by (rule trimmed_head)
  then have sp: "c \<noteq> CHR '' ''" by (auto simp: c_isspace_def)
  then have f: "first_of (entry k v) = c # r @ ''='' @ v" by (simp add: first_of_def entry_def k(1))
  show h: "\<not> isCommentLine (entry k v)" "\<not> is_hdr (entry k v)" using f k(2,3) by (simp_all add: line_class)
  have "isSection (entry k v) \<noteq> None" using f k(3) by (simp add: line_class)
  then show "isSection (entry k v) = Some False" using h(2) by (auto simp: is_hdr_def)
  show "split_eq (entry k v) = Some (k, v)"
    using assms takeWhile_stop [of "CHR ''=''" k v] dropWhile_stop [of "CHR ''=''" k v]
    by (simp add: key_ok_def split_eq_def entry_def)
  then show "name_of (entry k v) = k" by (simp add: name_of_def)
  show "\<not> nocase_eq (hdr s) (entry k v)" using hdr_matches h(2) by blast
qed

lemma body_get_put:
  assumes "key_ok k" "list_all line_ok ls"
  shows "body_get k' (body_put k [entry k v] ls) = (if nocase_eq k' k then Some v else body_get k' ls)"
  using assms(2)
proof (induction ls)
  case Nil
  show ?case using assms(1) by (simp add: entry_line key_ok_def)
next
  case (Cons l ls)
  have k: "fst (trim_whitespaces k) = k" using assms(1) by (simp add: key_ok_def)
  note e = entry_line [OF assms(1)] k
  show ?case
  proof (cases "isCommentLine l \<or> is_hdr l")
    case True
    then show ?thesis using Cons comment_not_hdr [of l] by (auto simp: e)
  next
    case False
    show ?thesis
    proof (cases "split_eq l")
      case None
      then show ?thesis using Cons False by (simp add: e)
    next
      case (Some p)
      have n: "fst (trim_whitespaces (fst p)) = fst p" "name_of l = fst p"
        using line_okD(7) [of l p] Cons.prems False Some by (simp_all add: name_of_def split: prod.split)
      have "nocase_eq k (fst p) \<Longrightarrow> nocase_eq k' (fst p) \<longleftrightarrow> nocase_eq k' k"
        "nocase_eq k' (fst p) \<Longrightarrow> nocase_eq k' k \<Longrightarrow> nocase_eq k (fst p)" by (simp_all add: nocase_eq_def)
      then show ?thesis using Cons False Some n by (cases p) (simp add: e)
    qed
  qed
qed

lemma body_get_ini_put: "body_get k' (ini_put s k new ls) = body_get k' ls"
  using hdr_matches [of s] by (induction ls) (auto split: option.split)

lemma map_body_put:
  assumes "key_ok k"
  shows "Option.bind (after_hdr (hdr s') (body_put k [entry k v] ls)) g = Option.bind (after_hdr (hdr s') ls) g"
  using hdr_matches [of s'] by (induction ls) (auto simp: entry_line [OF assms])

text \<open>Writing a value updates the map at the section and the key, both up to case.\<close>

lemma hdr_same: "nocase_eq (hdr s) (hdr s') \<longleftrightarrow> nocase_eq s s'"
  by (simp add: nocase_eq_def hdr_def)

lemma hdr_shared: "nocase_eq (hdr s) l \<Longrightarrow> nocase_eq (hdr s') l \<longleftrightarrow> nocase_eq s' s"
  by (metis hdr_same nocase_sym nocase_trans)

lemma ini_map_put:
  assumes "list_all line_ok ls" "key_ok k"
  shows "ini_map (ini_put s k [entry k v] ls) (s', k') =
    (if nocase_eq s' s \<and> nocase_eq k' k then Some v else ini_map ls (s', k'))"
  using assms(1)
proof (induction ls)
  case Nil
  have "fst (trim_whitespaces k) = k" using assms(2) by (simp add: key_ok_def)
  then show ?case
    using hdr_matches(2) [of s "hdr s"] by (simp add: ini_map_def hdr_same entry_line [OF assms(2)])
next
  case (Cons l ls)
  show ?case
  proof (cases "nocase_eq (hdr s) l")
    case True
    then show ?thesis
      using Cons.prems hdr_matches(2) [OF True]
      by (simp add: ini_map_def hdr_shared [OF True] body_get_put [OF assms(2)] map_body_put [OF assms(2)])
  next
    case False
    have "nocase_eq (hdr s') l \<Longrightarrow> \<not> nocase_eq s' s" using False hdr_shared nocase_sym by blast
    then show ?thesis using Cons False by (auto simp: ini_map_def body_get_ini_put)
  qed
qed

text \<open>The file stays well formed.\<close>

lemma trim_no_nl: "set (fst (trim_whitespaces s)) \<subseteq> set s"
  by (auto simp: trim_whitespaces_def Let_def dest!: set_dropWhileD)

lemma entry_ok:
  assumes "key_ok k" "value_ok v"
  shows "line_ok (entry k v)" "data_ok k (Some v)"
proof -
  have l: "length k < 128" "length v < 16000" "NL \<notin> set k" "NL \<notin> set v" "ZERO \<notin> set k" "ZERO \<notin> set v"
    "fst (trim_whitespaces k) = k"
    using assms by (simp_all add: key_ok_def value_ok_def INI_KEY_SIZE_def)
  have "length (entry k v) < INI_BUFFER_SIZE - 1" using l by (simp add: entry_def INI_BUFFER_SIZE_def)
  moreover have "NL \<notin> set (entry k v)" "ZERO \<notin> set (entry k v)" using l by (simp_all add: entry_def)
  ultimately show "line_ok (entry k v)" using l(7) by (simp add: line_ok_def entry_line [OF assms(1)])
  show "data_ok k (Some v)" using l by (simp add: data_ok_def INI_BUFFER_SIZE_def)
qed

lemma hdr_ok: "section_ok s \<Longrightarrow> line_ok (hdr s)"
  using hdr_matches [of s "hdr s"]
  by (auto simp: section_ok_def line_ok_def hdr_def INI_BUFFER_SIZE_def INI_KEY_SIZE_def is_hdr_def)

lemma body_put_ok:
  assumes "line_ok e" "\<not> is_hdr e" "list_all line_ok ls" "ls = [] \<or> \<not> is_hdr (last ls)"
  shows "list_all line_ok (body_put k [e] ls) \<and> body_put k [e] ls \<noteq> [] \<and> \<not> is_hdr (last (body_put k [e] ls))"
  using assms(3,4) by (induction ls) (auto simp: assms(1,2))

lemma ini_put_ok:
  assumes "line_ok e" "\<not> is_hdr e" "section_ok s" "ini_ok ls"
  shows "ini_ok (ini_put s k [e] ls)"
proof -
  have "list_all line_ok (ini_put s k [e] ls) \<and> ini_put s k [e] ls \<noteq> [] \<and> \<not> is_hdr (last (ini_put s k [e] ls))"
    using assms(4) [unfolded ini_ok_def]
  proof (induction ls)
    case Nil
    show ?case by (simp add: assms(1,2) hdr_ok [OF assms(3)])
  next
    case (Cons l ls)
    then have "ls = [] \<or> \<not> is_hdr (last ls)" by (auto split: if_splits)
    then show ?case using Cons body_put_ok [OF assms(1,2), of ls k] by auto
  qed
  then show ?thesis by (simp add: ini_ok_def)
qed

lemma after_hdr_nonempty:
  assumes "ini_ok ls"
  shows "after_hdr (hdr s) ls \<noteq> Some []"
proof
  assume *: "after_hdr (hdr s) ls = Some []"
  have "after_hdr (hdr s) ls = Some [] \<Longrightarrow> ls \<noteq> [] \<and> nocase_eq (hdr s) (last ls)"
    by (induction ls) (auto split: if_splits)
  then have "ls \<noteq> []" "is_hdr (last ls)" using * hdr_matches(1) by blast+
  then show False using assms by (simp add: ini_ok_def)
qed

lemma new_contents_put:
  assumes "ini_ok ls" "section_ok s" "key_ok k" "value_ok v"
  shows "new_contents s k (Some v) (file_of ls) = Some (file_of (ini_put s k [entry k v] ls))"
    "ini_ok (ini_put s k [entry k v] ls)"
proof -
  show "new_contents s k (Some v) (file_of ls) = Some (file_of (ini_put s k [entry k v] ls))"
    using new_contents_file [of ls s k "Some v"] assms entry_ok [OF assms(3,4)] after_hdr_nonempty [OF assms(1)]
    by (simp add: ini_ok_def new_entry_def)
  show "ini_ok (ini_put s k [entry k v] ls)"
    using ini_put_ok [of "entry k v" s ls k] entry_ok(1) [OF assms(3,4)] entry_line(2) [OF assms(3)] assms(1,2) by simp
qed

text \<open>
  Property C11. Writing one value to a well-formed file succeeds and updates the map at the section and the key,
  both taken up to case; the file stays well formed, and no other file changes. (That the result is
  defined includes that the writer stays inside the buffer it allocates.)
\<close>

theorem ini_writer_updates_map:
  assumes "fs (getFullOdbcIniPath env INI_MAX_PATH pFile) = Some (file_of ls)"
    and "ini_ok ls" "section_ok s" "key_ok k" "value_ok v"
  shows "\<exists>ls'. writePrivateProfileString fs env True (Some s) (Some k) (Some v) (Some pFile) =
      Some (1, fs(getFullOdbcIniPath env INI_MAX_PATH pFile \<mapsto> file_of ls')) \<and> ini_ok ls' \<and>
    ini_map ls' = (\<lambda>(s', k'). if nocase_eq s' s \<and> nocase_eq k' k then Some v else ini_map ls (s', k'))"
proof (intro exI conjI)
  let ?ls = "ini_put s k [entry k v] ls"
  show "writePrivateProfileString fs env True (Some s) (Some k) (Some v) (Some pFile) =
      Some (1, fs(getFullOdbcIniPath env INI_MAX_PATH pFile \<mapsto> file_of ?ls))"
    using assms(1) new_contents_put(1) [OF assms(2-5)] by (simp add: writePrivateProfileString_def)
  show "ini_ok ?ls" by (rule new_contents_put(2) [OF assms(2-5)])
  show "ini_map ?ls = (\<lambda>(s', k'). if nocase_eq s' s \<and> nocase_eq k' k then Some v else ini_map ls (s', k'))"
    using assms(2) ini_map_put [OF _ assms(4), of ls s v] by (auto simp: ini_ok_def)
qed

subsection \<open>The reader against the map\<close>

lemma cstr_padded: "ZERO \<notin> set s \<Longrightarrow> cstr (s @ ZERO # r) = s"
  by (simp add: cstr_def takeWhile_stop)

lemma strncpy_text:
  assumes "length t < n" "n \<le> length mem"
  shows "\<exists>r. strncpy_at mem 0 t n = Some (t @ ZERO # r)"
proof -
  have "n - length t = Suc (n - length t - 1)" using assms(1) by simp
  then have "replicate (n - length t) ZERO = ZERO # replicate (n - length t - 1) ZERO" by (metis replicate_Suc)
  then show ?thesis using assms by (simp add: strncpy_at_def put_at_def)
qed

lemma body_get_text:
  "list_all line_ok ls \<Longrightarrow> body_get k ls = Some v \<Longrightarrow> ZERO \<notin> set v"
proof (induction ls)
  case (Cons l ls)
  have "split_eq l = Some (n, w) \<Longrightarrow> set w \<subseteq> set l" for n w
    by (auto simp: split_eq_def drop_Suc [symmetric, of 0, simplified] dest!: in_set_dropD set_dropWhileD split: if_splits)
  then show ?case using Cons line_okD(2) [of l] by (fastforce split: if_splits option.splits)
qed simp

lemma ini_map_text:
  assumes "list_all line_ok ls" "ini_map ls (s, k) = Some v"
  shows "ZERO \<notin> set (fst (trim_whitespaces v))"
proof -
  obtain r where "after_hdr (hdr s) ls = Some r" "body_get k r = Some v"
    using assms(2) by (auto simp: ini_map_def split: bind_splits)
  then have "ZERO \<notin> set v" using body_get_text after_hdr_ok [OF assms(1)] by blast
  then show ?thesis using trim_no_nl [of v] by blast
qed

text \<open>What is found and what is left in the buffer, for each kind of default.\<close>

lemma reader_found:
  assumes "fs p = Some (file_of ls)" "list_all line_ok ls" "section_ok s" "key_ok k"
    "ini_map ls (s, k) = Some v" "int (length (fst (trim_whitespaces v))) < n" "n \<le> int (length mem)" "n < 2 ^ 31"
  shows "\<exists>m r. getPrivateProfileStringWithFullPath fs s (Some k) d mem n p = Some (m, fst (trim_whitespaces v) @ ZERO # r)"
proof -
  obtain c mem' where mem: "mem = c # mem'" using assms(6,7) by (cases mem) auto
  obtain r where r: "after_hdr (hdr s) ls = Some r" "body_get k r = Some v"
    using assms(5) by (auto simp: ini_map_def split: bind_splits)
  have n: "size_of n = nat n" "length (fst (trim_whitespaces v)) < nat n" "nat n \<le> length (ZERO # mem')"
    using assms(6-8) by (simp_all add: size_of_def mem)
  obtain q where "strncpy_at (ZERO # mem') 0 (fst (trim_whitespaces v)) (size_of n) = Some (fst (trim_whitespaces v) @ ZERO # q)"
    using strncpy_text [OF n(2,3)] n(1) by auto
  then show ?thesis
    using r by (auto simp: getPrivateProfileStringWithFullPath_def assms(1) fgets_lines_file [OF assms(2)] mem put_at_def
        section_search_ok [OF assms(3)] find_section_file [OF assms(2)] find_key_file [OF assms(4) after_hdr_ok [OF assms(2)]]
        split: prod.splits)
qed

lemma reader_missing:
  assumes "fs p = Some (file_of ls)" "list_all line_ok ls" "section_ok s" "key_ok k"
    "ini_map ls (s, k) = None" "mem = c # mem'"
  shows "getPrivateProfileStringWithFullPath fs s (Some k) d mem n p =
    (case d of NullDflt \<Rightarrow> Some (0, ZERO # mem')
     | Dflt t \<Rightarrow> map_option (\<lambda>mem1. (copied_len n t, mem1)) (strncpy_at (ZERO # mem') 0 t (size_of n))
     | SameBuffer \<Rightarrow> Some (copied_len n [], ZERO # mem'))"
proof -
  have "after_hdr (hdr s) ls = Some r \<Longrightarrow> body_get k r = None" for r using assms(5) by (simp add: ini_map_def)
  then show ?thesis
    by (auto simp: getPrivateProfileStringWithFullPath_def assms(1,6) fgets_lines_file [OF assms(2)] put_at_def cstr_def
        section_search_ok [OF assms(3)] find_section_file [OF assms(2)] find_key_file [OF assms(4) after_hdr_ok [OF assms(2)]]
        split: option.splits dflt.splits)
qed

lemma reader_text:
  assumes "fs (getFullOdbcIniPath env INI_MAX_PATH pFile) = Some (file_of ls)"
    and "ini_ok ls" "section_ok s" "key_ok k" "ZERO \<notin> set d"
    and "t = (case ini_map ls (s, k) of Some v \<Rightarrow> fst (trim_whitespaces v) | None \<Rightarrow> d)"
    and "int (length t) < n" "n \<le> int (length mem)" "n < 2 ^ 31"
  shows "\<exists>m mem'. getPrivateProfileString fs env (Some s) (Some k) (Dflt d) mem n (Some pFile) = Some (m, mem') \<and>
    cstr mem' = t \<and> (ini_map ls (s, k) = None \<longrightarrow> m = int (length t))"
proof -
  let ?p = "getFullOdbcIniPath env INI_MAX_PATH pFile"
  have ok: "list_all line_ok ls" using assms(2) by (simp add: ini_ok_def)
  show ?thesis
  proof (cases "ini_map ls (s, k)")
    case None
    obtain c mem' where mem: "mem = c # mem'" using assms(7,8) by (cases mem) auto
    have n: "size_of n = nat n" "length t < nat n" "nat n \<le> length (ZERO # mem')"
      using assms(7-9) by (simp_all add: size_of_def mem)
    obtain q where "strncpy_at (ZERO # mem') 0 t (nat n) = Some (t @ ZERO # q)" using strncpy_text [OF n(2,3)] by blast
    moreover have "t = d" using assms(6) None by simp
    moreover have "copied_len n t = int (length t)" using n by (simp add: copied_len_def)
    ultimately show ?thesis
      using reader_missing [of fs ?p, OF assms(1) ok assms(3,4) None mem] n(1) cstr_padded [OF assms(5)]
      by (simp add: getPrivateProfileString_def)
  next
    case (Some v)
    then have t: "t = fst (trim_whitespaces v)" using assms(6) by simp
    obtain m r where "getPrivateProfileStringWithFullPath fs s (Some k) (Dflt d) mem n ?p = Some (m, t @ ZERO # r)"
      using reader_found [of fs ?p, OF assms(1) ok assms(3,4) Some, of n mem "Dflt d"] assms(7-9) unfolding t by blast
    then show ?thesis
      using cstr_padded [OF ini_map_text [OF ok Some]] Some by (simp add: getPrivateProfileString_def t)
  qed
qed


subsection \<open>Options read through the reader\<close>

lemma num_buf_shape: "length t < n \<Longrightarrow> n \<le> 64 \<Longrightarrow> \<exists>r. num_buf n t = t @ ZERO # r \<and> length (num_buf n t) = 64"
proof -
  assume a: "length t < n" "n \<le> 64"
  then have "64 - length t = Suc (63 - length t)" by simp
  then have "replicate (64 - length t) ZERO = ZERO # replicate (63 - length t) ZERO" by (simp only: replicate_Suc)
  then show ?thesis using a by (simp add: num_buf_def MAX_NUMBER_BUF_LEN_def)
qed

text \<open>
  How the readers of options see the file: the buffer after the call starts with the value, or is
  empty when the key is missing, since the reader clears the buffer that also holds the default.
\<close>

lemma option_buffer:
  assumes "fs (getFullOdbcIniPath env INI_MAX_PATH ODBC_INI) = Some (file_of ls)"
    and "ini_ok ls" "section_ok s" "key_ok k" "length mem = 64"
    and "t = (case ini_map ls (s, k) of Some v \<Rightarrow> fst (trim_whitespaces v) | None \<Rightarrow> [])" "length t < 64"
  shows "\<exists>m r. getPrivateProfileString fs env (Some s) (Some k) SameBuffer mem (int MAX_NUMBER_BUF_LEN) (Some ODBC_INI) =
    Some (m, t @ ZERO # r)"
proof -
  let ?p = "getFullOdbcIniPath env INI_MAX_PATH ODBC_INI"
  have ok: "list_all line_ok ls" using assms(2) by (simp add: ini_ok_def)
  obtain c mem' where mem: "mem = c # mem'" using assms(5) by (cases mem) auto
  show ?thesis
  proof (cases "ini_map ls (s, k)")
    case None
    then show ?thesis
      using reader_missing [of fs ?p, OF assms(1) ok assms(3,4) None mem] assms(6) by (simp add: getPrivateProfileString_def)
  next
    case (Some v)
    then show ?thesis
      using reader_found [of fs ?p, OF assms(1) ok assms(3,4) Some, of "int MAX_NUMBER_BUF_LEN" mem SameBuffer] assms(5-7)
      by (auto simp: getPrivateProfileString_def MAX_NUMBER_BUF_LEN_def)
  qed
qed

lemma sscanf_dec_int:
  assumes "fits w v"
  shows "sscanf_buf w (dec_int v @ ZERO # r) = Some (Some v)"
proof -
  have z: "\<not> is_digit ZERO" by code_simp
  have sc: "scan_number (dec_int v @ ZERO # r) = Some (v, ZERO # r)"
    using scan_number_dec_int [of "ZERO # r" v] z by simp
  have "scan_number m = Some (v, q) \<Longrightarrow> dropWhile is_digit (number_start m) = q" for m q
    by (auto simp: scan_number_def number_start_def Let_def split: if_splits)
  then show ?thesis using sc assms by (simp add: sscanf_buf_def)
qed

lemma sscanf_empty: "sscanf_buf w (ZERO # r) = Some None"
proof -
  have "\<not> is_digit ZERO" "\<not> c_isspace ZERO" by code_simp+
  then show ?thesis by (simp add: sscanf_buf_def number_start_def scan_number_def Let_def)
qed

lemma dec_int_short: "fits 64 v \<Longrightarrow> length (dec_int v) < 64"
  using dec_int_length [of 19 v] by (simp add: fits_def)

text \<open>
  An integer option of a DSN takes the number of the file, and keeps its default when the file has
  no such key or cannot be opened.
\<close>

theorem integer_option_read:
  assumes "fits 32 v"
    and "(fs (getFullOdbcIniPath env INI_MAX_PATH ODBC_INI) = None \<and> n = v) \<or>
      (fs (getFullOdbcIniPath env INI_MAX_PATH ODBC_INI) = Some (file_of ls) \<and> ini_ok ls \<and> section_ok s \<and> key_ok k \<and>
       (case ini_map ls (s, k) of Some t \<Rightarrow> fst (trim_whitespaces t) = dec_int n \<and> fits 32 n | None \<Rightarrow> n = v))"
  shows "readIntValFromDsn fs env s k v = Some n"
proof -
  have f64: "fits 32 x \<Longrightarrow> fits 64 x" for x by (simp add: fits_def)
  obtain mem where mem: "mem = num_buf MAX_NUMBER_BUF_LEN (dec_int v)" by simp
  obtain r where r: "mem = dec_int v @ ZERO # r" "length mem = 64"
    using num_buf_shape [of "dec_int v" 64] dec_int_short [OF f64 [OF assms(1)]] by (auto simp: mem MAX_NUMBER_BUF_LEN_def)
  have mem64: "num_buf 64 (dec_int v) = mem" by (simp add: mem MAX_NUMBER_BUF_LEN_def)
  have "ZERO \<notin> set (dec_int v)" using dec_int_chars [of ZERO v] by (auto simp: is_digit_def)
  show ?thesis
    using assms(2)
  proof (elim disjE conjE)
    assume n: "fs (getFullOdbcIniPath env INI_MAX_PATH ODBC_INI) = None" "n = v"
    have "cstr mem = dec_int v" using \<open>ZERO \<notin> set (dec_int v)\<close> by (simp add: r(1) cstr_padded)
    moreover obtain q where "strncpy_at mem 0 (dec_int v) 64 = Some (dec_int v @ ZERO # q)"
      using strncpy_text [of "dec_int v" 64 mem] dec_int_short [OF f64 [OF assms(1)]] r(2) by auto
    ultimately show ?thesis
      using n sscanf_dec_int [OF assms(1), of q]
      by (simp add: readIntValFromDsn_def read_num_def mem64 getPrivateProfileString_def
          getPrivateProfileStringWithFullPath_def use_dflt_def dflt_text_def size_of_def MAX_NUMBER_BUF_LEN_def)
  next
    assume f: "fs (getFullOdbcIniPath env INI_MAX_PATH ODBC_INI) = Some (file_of ls)" "ini_ok ls" "section_ok s" "key_ok k"
      "case ini_map ls (s, k) of Some t \<Rightarrow> fst (trim_whitespaces t) = dec_int n \<and> fits 32 n | None \<Rightarrow> n = v"
    obtain t where t: "t = (case ini_map ls (s, k) of Some v \<Rightarrow> fst (trim_whitespaces v) | None \<Rightarrow> [])" by simp
    have "length t < 64" using f(5) dec_int_short [OF f64, of n] by (auto simp: t split: option.splits)
    then obtain m q where
      "getPrivateProfileString fs env (Some s) (Some k) SameBuffer mem (int MAX_NUMBER_BUF_LEN) (Some ODBC_INI) = Some (m, t @ ZERO # q)"
      using option_buffer [of fs env ls s k, OF f(1-4) r(2) t] by blast
    then show ?thesis
      using f(5) sscanf_dec_int [of 32 n q] sscanf_empty [of 32 q]
      by (auto simp: readIntValFromDsn_def read_num_def mem [symmetric] t split: option.splits)
  qed
qed

text \<open>
  Property C14. A boolean option that the file does not set becomes false, whatever its default: the reader clears
  the buffer with the default before it looks for the key.
\<close>

theorem boolean_option_loses_default:
  assumes "fs (getFullOdbcIniPath env INI_MAX_PATH ODBC_INI) = Some (file_of ls)"
    and "ini_ok ls" "section_ok s" "key_ok k" "ini_map ls (s, k) = None"
  shows "readBoolValFromDsn fs env s k b = Some False"
proof -
  obtain r where "length (num_buf MAX_NUMBER_BUF_LEN (if b then ''true'' else ''false'')) = 64"
    using num_buf_shape [of "if b then ''true'' else ''false''" 64] by (auto simp: MAX_NUMBER_BUF_LEN_def)
  then show ?thesis
    using option_buffer [of fs env ls s k, OF assms(1-4), of "num_buf MAX_NUMBER_BUF_LEN (if b then ''true'' else ''false'')" "[]"] assms(5)
    by (auto simp: readBoolValFromDsn_def convertToBoolVal_def cstr_def nocase_eq_def)
qed

text \<open>With the value in the file, the option is what the file says.\<close>

lemma boolean_option_read:
  assumes "fs (getFullOdbcIniPath env INI_MAX_PATH ODBC_INI) = Some (file_of ls)"
    and "ini_ok ls" "section_ok s" "key_ok k" "ini_map ls (s, k) = Some v" "length (fst (trim_whitespaces v)) < 64"
  shows "readBoolValFromDsn fs env s k b =
    Some (nocase_eq (fst (trim_whitespaces v)) ''TRUE'' \<or> nocase_eq (fst (trim_whitespaces v)) ''1'')"
proof -
  have "list_all line_ok ls" using assms(2) by (simp add: ini_ok_def)
  then have "cstr (fst (trim_whitespaces v) @ ZERO # r) = fst (trim_whitespaces v)" for r
    using cstr_padded ini_map_text assms(5) by blast
  moreover obtain r where "length (num_buf MAX_NUMBER_BUF_LEN (if b then ''true'' else ''false'')) = 64"
    using num_buf_shape [of "if b then ''true'' else ''false''" 64] by (auto simp: MAX_NUMBER_BUF_LEN_def)
  ultimately show ?thesis
    using option_buffer [of fs env ls s k, OF assms(1-4), of "num_buf MAX_NUMBER_BUF_LEN (if b then ''true'' else ''false'')" "fst (trim_whitespaces v)"]
      assms(5,6)
    by (auto simp: readBoolValFromDsn_def convertToBoolVal_def)
qed

lemma leading_digits:
  "100 \<le> n \<Longrightarrow> 3 \<le> length (dec_digits n) \<and> (\<exists>m < 1000. take 3 (dec_digits n) = dec_digits m)"
proof (induction n rule: dec_digits.induct)
  case (1 n)
  show ?case
  proof (cases "n < 1000")
    case True
    have ten: "\<not> n < 10" "\<not> n div 10 < 10" using 1(2) by linarith+
    have lead: "n div 10 div 10 < 10" using True by linarith
    have "dec_digits n = dec_digits (n div 10 div 10) @ [digit_char (n div 10 mod 10)] @ [digit_char (n mod 10)]"
      using ten dec_digits.simps [of n] dec_digits.simps [of "n div 10"] by simp
    moreover have "dec_digits (n div 10 div 10) = [digit_char (n div 10 div 10)]"
      using lead by (subst dec_digits.simps) (simp only: if_True)
    ultimately have "length (dec_digits n) = 3" by simp
    then show ?thesis using True by auto
  next
    case False
    then have "dec_digits n = dec_digits (n div 10) @ [digit_char (n mod 10)]" by (subst dec_digits.simps) simp
    moreover have "3 \<le> length (dec_digits (n div 10)) \<and> (\<exists>m < 1000. take 3 (dec_digits (n div 10)) = dec_digits m)"
      using False by (intro 1(1)) simp_all
    ultimately show ?thesis by simp
  qed
qed

text \<open>
  \<^verbatim>\<open>readLongValFromDsn\<close> keeps only three characters of the default; when the file cannot be
  opened, the option is read back from them.
\<close>

lemma long_option_loses_digits:
  assumes "fs (getFullOdbcIniPath env INI_MAX_PATH ODBC_INI) = None" "1000 \<le> v"
  shows "\<exists>n < 1000. readLongValFromDsn fs env s k v = Some n"
proof -
  obtain m where m: "m < 1000" "take 3 (dec_int v) = dec_int (int m)"
    using leading_digits [of "nat v"] assms(2) by (fastforce simp: dec_int_def nat_le_iff le_nat_iff)
  obtain mem where mem: "mem = num_buf 4 (dec_int v)" by simp
  have "take 3 (dec_int (int m)) = dec_int (int m)" by (metis m(2) min.idem take_take)
  then have "num_buf 4 (dec_int v) = num_buf 4 (dec_int (int m))" using m(2) by (simp add: num_buf_def)
  moreover have len: "length (dec_int (int m)) < 4" using arg_cong [OF m(2), of length] by simp
  ultimately obtain r where r: "mem = dec_int (int m) @ ZERO # r" "length mem = 64"
    using num_buf_shape [of "dec_int (int m)" 4] by (auto simp: mem)
  have z: "ZERO \<notin> set (dec_int (int m))" using dec_int_chars [of ZERO "int m"] by (auto simp: is_digit_def)
  obtain q where "strncpy_at mem 0 (dec_int (int m)) 64 = Some (dec_int (int m) @ ZERO # q)"
    using strncpy_text [of "dec_int (int m)" 64 mem] len r(2) by auto
  moreover have "fits 64 (int m)" using m(1) by (simp add: fits_def)
  ultimately have "readLongValFromDsn fs env s k v = Some (int m)"
    using assms(1) sscanf_dec_int [of 64 "int m" q] cstr_padded [OF z, of r]
    by (simp add: readLongValFromDsn_def read_num_def mem [symmetric] getPrivateProfileString_def r(1) [symmetric]
        getPrivateProfileStringWithFullPath_def use_dflt_def dflt_text_def size_of_def MAX_NUMBER_BUF_LEN_def)
  then show ?thesis using m(1) by (intro exI [of _ "int m"]) simp
qed

subsection \<open>Saving several options\<close>

text \<open>Any store whose writer updates the map of the file stores a list of options.\<close>

fun put_all :: "('k \<Rightarrow> 'v \<Rightarrow> 'f \<Rightarrow> 'f option) \<Rightarrow> ('k \<times> 'v) list \<Rightarrow> 'f \<Rightarrow> 'f option" where
  "put_all put [] f = Some f"
| "put_all put ((k, v) # kvs) f = Option.bind (put k v f) (put_all put kvs)"

fun last_value :: "('k \<Rightarrow> 'k \<Rightarrow> bool) \<Rightarrow> 'k \<Rightarrow> ('k \<times> 'v) list \<Rightarrow> 'v option \<Rightarrow> 'v option" where
  "last_value same k' [] old = old"
| "last_value same k' ((k, v) # kvs) old = last_value same k' kvs (if same k' k then Some v else old)"

locale keyed_file =
  fixes lookup :: "'f \<Rightarrow> 'k \<Rightarrow> 'v option" and put :: "'k \<Rightarrow> 'v \<Rightarrow> 'f \<Rightarrow> 'f option"
    and valid :: "'f \<Rightarrow> bool" and writable :: "'k \<Rightarrow> 'v \<Rightarrow> bool" and same :: "'k \<Rightarrow> 'k \<Rightarrow> bool"
  assumes put_law: "valid f \<Longrightarrow> writable k v \<Longrightarrow>
    \<exists>f'. put k v f = Some f' \<and> valid f' \<and> (\<forall>k'. lookup f' k' = (if same k' k then Some v else lookup f k'))"
begin

lemma put_all_law:
  "valid f \<Longrightarrow> list_all (\<lambda>(k, v). writable k v) kvs \<Longrightarrow>
    \<exists>f'. put_all put kvs f = Some f' \<and> valid f' \<and> (\<forall>k'. lookup f' k' = last_value same k' kvs (lookup f k'))"
proof (induction kvs arbitrary: f)
  case (Cons kv kvs)
  obtain k v where kv: "kv = (k, v)" by (cases kv)
  then obtain f1 where f1: "put k v f = Some f1" "valid f1" "\<forall>k'. lookup f1 k' = (if same k' k then Some v else lookup f k')"
    using put_law Cons.prems by fastforce
  moreover obtain f2 where "put_all put kvs f1 = Some f2" "valid f2"
    "\<forall>k'. lookup f2 k' = last_value same k' kvs (lookup f1 k')"
    using Cons.IH [OF f1(2)] Cons.prems(2) by auto
  ultimately show ?case by (simp add: kv)
qed simp

end

definition ini_valid :: "string \<Rightarrow> bool" where
  "ini_valid f \<longleftrightarrow> ini_ok (map butlast (fgets_lines f)) \<and> f = file_of (map butlast (fgets_lines f))"

definition ini_lookup :: "string \<Rightarrow> string \<times> string \<Rightarrow> string option" where
  "ini_lookup f = ini_map (map butlast (fgets_lines f))"

definition same_key :: "string \<times> string \<Rightarrow> string \<times> string \<Rightarrow> bool" where
  "same_key a b \<longleftrightarrow> nocase_eq (fst a) (fst b) \<and> nocase_eq (snd a) (snd b)"

lemma butlast_nl: "map butlast (map nl ls) = ls"
  by (induction ls) (simp_all add: nl_def)

lemma ini_valid_file: "ini_ok ls \<Longrightarrow> ini_valid (file_of ls) \<and> ini_lookup (file_of ls) = ini_map ls"
  using fgets_lines_file [of ls] by (simp add: ini_valid_def ini_lookup_def ini_ok_def butlast_nl del: map_map)

interpretation ini: keyed_file ini_lookup "\<lambda>(s, k) v f. new_contents s k (Some v) f" ini_valid
  "\<lambda>(s, k) v. section_ok s \<and> key_ok k \<and> value_ok v" same_key
proof (unfold_locales, clarify)
  fix f s k v
  assume f: "ini_valid f" and ok: "section_ok s" "key_ok k" "value_ok v"
  obtain ls where ls: "ini_ok ls" "f = file_of ls" using f by (auto simp: ini_valid_def)
  let ?ls = "ini_put s k [entry k v] ls"
  have "new_contents s k (Some v) f = Some (file_of ?ls)" "ini_valid (file_of ?ls)" "ini_lookup (file_of ?ls) = ini_map ?ls"
    using new_contents_put [OF ls(1) ok] ini_valid_file by (simp_all add: ls(2))
  moreover have "ini_map ?ls (s', k') = (if same_key (s', k') (s, k) then Some v else ini_lookup f (s', k'))" for s' k'
    using ini_map_put [OF _ ok(2), of ls s v s' k'] ls ini_valid_file [OF ls(1)] by (simp add: ini_ok_def same_key_def)
  ultimately show "\<exists>f'. new_contents s k (Some v) f = Some f' \<and> ini_valid f' \<and>
      (\<forall>k'. ini_lookup f' k' = (if same_key k' (s, k) then Some v else ini_lookup f k'))"
    by auto
qed

text \<open>The options that an application saves one after the other.\<close>

fun save_options ::
  "(string \<Rightarrow> string option) \<Rightarrow> string option \<Rightarrow> string \<Rightarrow> ((string \<times> string) \<times> string) list \<Rightarrow> (string \<Rightarrow> string option) option" where
  "save_options fs env pFile [] = Some fs"
| "save_options fs env pFile (((s, k), v) # kvs) =
     (case writePrivateProfileString fs env True (Some s) (Some k) (Some v) (Some pFile) of
        Some (rc, fs') \<Rightarrow> if rc = 1 then save_options fs' env pFile kvs else None
      | None \<Rightarrow> None)"

lemma save_options_put_all:
  assumes "p = getFullOdbcIniPath env INI_MAX_PATH pFile"
  shows "fs p = Some f \<Longrightarrow> put_all (\<lambda>(s, k) v f. new_contents s k (Some v) f) kvs f = Some f' \<Longrightarrow>
    save_options fs env pFile kvs = Some (fs(p \<mapsto> f'))"
proof (induction kvs arbitrary: fs f)
  case (Cons kv kvs)
  obtain s k v where kv: "kv = ((s, k), v)" by (metis prod.exhaust)
  then obtain f1 where f1: "new_contents s k (Some v) f = Some f1"
    "put_all (\<lambda>(s, k) v f. new_contents s k (Some v) f) kvs f1 = Some f'"
    using Cons.prems(2) by (auto split: bind_splits)
  have "save_options (fs(p \<mapsto> f1)) env pFile kvs = Some ((fs(p \<mapsto> f1))(p \<mapsto> f'))"
    by (rule Cons.IH [OF _ f1(2)]) simp
  then show ?case
    using f1(1) Cons.prems(1) by (simp add: kv writePrivateProfileString_def assms [symmetric] fun_eq_iff)
qed (simp add: fun_upd_idem)


subsection \<open>Examples\<close>

definition demo_lines :: "string list" where
  "demo_lines = [''; odbc'', ''[d]'', ''k=7'']"

definition demo_fs :: "string \<Rightarrow> string option" where
  "demo_fs p = (if p = ''odbc.ini'' then Some (file_of demo_lines) else None)"

lemma demo_file:
  "demo_fs (getFullOdbcIniPath None INI_MAX_PATH ODBC_INI) = Some (file_of demo_lines)"
  "demo_fs (getFullOdbcIniPath (Some ''none'') INI_MAX_PATH ODBC_INI) = None"
  by (simp_all add: demo_fs_def getFullOdbcIniPath_def INI_MAX_PATH_def ODBC_INI_def)

lemma demo_trim:
  "fst (trim_whitespaces ''k'') = ''k''" "fst (trim_whitespaces ''K'') = ''K''" "fst (trim_whitespaces ''x'') = ''x''"
  "fst (trim_whitespaces ''7'') = ''7''" "fst (trim_whitespaces ''8'') = ''8''" "fst (trim_whitespaces ''9'') = ''9''"
  by code_simp+

lemma demo_ok:
  "ini_ok demo_lines" "section_ok ''d''" "key_ok ''k''" "key_ok ''K''" "key_ok ''x''" "value_ok ''8''" "value_ok ''9''"
  by (simp_all add: demo_lines_def ini_ok_def line_ok_def INI_BUFFER_SIZE_def isSection_def is_hdr_def isCommentLine_def
      split_eq_def name_of_def section_ok_def INI_KEY_SIZE_def key_ok_def value_ok_def demo_trim)

lemma demo_map:
  "ini_map demo_lines (''d'', ''K'') = Some ''7''" "ini_map demo_lines (''d'', ''x'') = None"
  by code_simp+

theorem ini_writer_updates_map_witness:
  "\<exists>ls'. writePrivateProfileString demo_fs None True (Some ''d'') (Some ''K'') (Some ''8'') (Some ODBC_INI) =
      Some (1, demo_fs(getFullOdbcIniPath None INI_MAX_PATH ODBC_INI \<mapsto> file_of ls')) \<and> ini_ok ls' \<and>
    ini_map ls' = (\<lambda>(s', k'). if nocase_eq s' ''d'' \<and> nocase_eq k' ''K'' then Some ''8'' else ini_map demo_lines (s', k'))"
  by (rule ini_writer_updates_map) (simp_all add: demo_file demo_ok)



theorem integer_option_read_witness:
  "readIntValFromDsn demo_fs None ''d'' ''K'' 5 = Some 7 \<and> readIntValFromDsn demo_fs None ''d'' ''x'' 5 = Some 5 \<and>
   readIntValFromDsn demo_fs (Some ''none'') ''d'' ''K'' 5 = Some 5"
proof (intro conjI)
  have seven: "''7'' = dec_int 7" by code_simp
  show "readIntValFromDsn demo_fs None ''d'' ''K'' 5 = Some 7"
    by (rule integer_option_read [where ls = demo_lines]) (simp_all add: demo_file demo_ok demo_map demo_trim fits_def flip: seven)
  show "readIntValFromDsn demo_fs None ''d'' ''x'' 5 = Some 5"
    by (rule integer_option_read [where ls = demo_lines]) (simp_all add: demo_file demo_ok demo_map fits_def)
  show "readIntValFromDsn demo_fs (Some ''none'') ''d'' ''K'' 5 = Some 5"
    by (rule integer_option_read) (simp_all add: demo_file fits_def)
qed

theorem boolean_option_loses_default_witness: "readBoolValFromDsn demo_fs None ''d'' ''x'' True = Some False"
  by (rule boolean_option_loses_default [where ls = demo_lines]) (simp_all add: demo_file demo_ok demo_map)

lemma long_option_loses_digits_example: "\<exists>n < 1000. readLongValFromDsn demo_fs (Some ''none'') ''d'' ''x'' 7890 = Some n"
  by (rule long_option_loses_digits) (simp_all add: demo_file)

text \<open>
  The writer compares the keys without trimming them, the reader trims them: behind a padded key the
  written value is never read. A section at the end of the file that has no line yet is not written
  to without a read of the uninitialised \<^verbatim>\<open>original\<close>.
\<close>

lemma padded_key_hides_value:
  "new_contents ''d'' ''k'' (Some ''8'') (file_of [''[d]'', ''k = 7'']) = Some (file_of [''[d]'', ''k = 7'', ''k=8'']) \<and>
   ini_map [''[d]'', ''k = 7'', ''k=8''] (''d'', ''k'') = Some '' 7''"
proof
  show "ini_map [''[d]'', ''k = 7'', ''k=8''] (''d'', ''k'') = Some '' 7''" by code_simp
  have "fgets_lines (file_of [''[d]'', ''k = 7'']) = [nl ''[d]'', nl ''k = 7'']"
    by (simp add: fgets_lines.simps first_line_def INI_BUFFER_SIZE_def nl_def)
  then show "new_contents ''d'' ''k'' (Some ''8'') (file_of [''[d]'', ''k = 7'']) = Some (file_of [''[d]'', ''k = 7'', ''k=8''])"
    by (simp add: new_contents_def file_buffer_size_def section_search_def INI_KEY_SIZE_def strncat_def nl_def cstr_def
        chomp_def isCommentLine_def isSection_def split_eq_def key_matches_def nocase_eq_def c_upper_def
        append_entry_def INI_BUFFER_SIZE_def)
qed

lemma empty_section_not_writable:
  assumes "list_all line_ok ls" "section_ok s" "after_hdr (hdr s) ls = Some []"
  shows "new_contents s k d (file_of ls) = None"
proof -
  obtain cap where cap: "cap = file_buffer_size s k d (file_of ls)" by simp
  have "copy_to_section (section_search s) cap (map nl ls) [] (int cap) = Some (True, [], file_of (upto_hdr (hdr s) ls))"
    unfolding section_search_ok [OF assms(2)]
    by (subst copy_to_section_file) (use assms(1,3) in \<open>auto simp: cap file_buffer_size_def\<close>)
  then show ?thesis by (simp add: new_contents_def cap [symmetric] fgets_lines_file [OF assms(1)])
qed

end
