(* ===== verification/Rs_Insert.thy ===== *)
theory Rs_Insert
  imports Rs_Copy Rs_Escape "HOL-Library.Monad_Syntax"
begin

text \<open>
  Array inserts (\<^verbatim>\<open>rsutil.c\<close>, from \<^verbatim>\<open>parseForMultiInsertCommand\<close> on): a single-row
  \<^verbatim>\<open>INSERT ... VALUES (...)\<close> that is executed with arrays of parameters is rewritten so that one
  command inserts many rows, and the loop of \<^verbatim>\<open>libpqExecuteDirectOrPrepared\<close> (\<^verbatim>\<open>rslibpq.c\<close>)
  sends it batch by batch. A command is the list of its characters without the terminator; pointers
  into it are positions. Allocation does not fail, and sizes of commands fit an \<^verbatim>\<open>int\<close>. A write
  outside an allocated buffer makes a function return \<open>None\<close>.
\<close>

definition PADB_MAX_PARAMETERS :: int where "PADB_MAX_PARAMETERS = 32767"

text \<open>\<^verbatim>\<open>*p\<close> at a position of the command: the terminator behind the last character.\<close>

definition ch :: "string \<Rightarrow> nat \<Rightarrow> char" where
  "ch s i = (if i < length s then s ! i else NUL)"

subsection \<open>Tokens\<close>

text \<open>
  The loop of \<^verbatim>\<open>getNextTokenForInsertCommand\<close>; \<open>token\<close> is NUL when any token is wanted. The
  result is the position of the token looked for, if it was found, and the position behind.
\<close>

function token_loop :: "string \<Rightarrow> nat \<Rightarrow> char \<Rightarrow> nat \<Rightarrow> nat \<Rightarrow> nat \<Rightarrow> char \<Rightarrow> nat option \<times> nat" where
  "token_loop s cbLen token i nQuote nBracket cPrevChar =
     (let c = ch s i in
      if c = NUL \<or> cbLen \<le> i then (None, i)
      else if token = NUL then
        (if c_isspace c \<or> c = CHR '';'' then (None, i) else token_loop s cbLen token (Suc i) nQuote nBracket cPrevChar)
      else if c = CHR '')'' \<and> token = CHR '')'' \<and> nQuote = 0 \<and> nBracket \<noteq> 0
      then token_loop s cbLen token (Suc i) nQuote (nBracket - 1) c
      else
        (let q = (if c = SINGLE_QUOTE \<and> cPrevChar \<noteq> BACKSLASH then toggle nQuote else nQuote);
             b = (if c = CHR ''('' \<and> token = CHR '')'' \<and> nQuote = 0 then Suc nBracket else nBracket)
         in if c = token \<and> q = 0 \<and> b = 0 then (Some i, Suc i)
            else if c = CHR '';'' \<and> q = 0 then (None, i)
            else token_loop s cbLen token (Suc i) q b c))"
  by auto
termination
  by (relation "measure (\<lambda>(s, cbLen, token, i, _). cbLen - i)") auto

declare token_loop.simps [simp del]

definition skip_blanks :: "string \<Rightarrow> nat \<Rightarrow> nat \<Rightarrow> nat" where
  "skip_blanks s cbLen i = i + length (takeWhile c_isspace (take (cbLen - i) (drop i s)))"

definition getNextTokenForInsertCommand :: "string \<Rightarrow> nat \<Rightarrow> nat \<Rightarrow> char \<Rightarrow> nat option \<times> nat" where
  "getNextTokenForInsertCommand s cbLen i token =
     (let j = skip_blanks s cbLen i; (r, k) = token_loop s cbLen token j 0 0 NUL
      in (if token = NUL then Some j else r, k))"

subsection \<open>The VALUES clause\<close>

text \<open>
  \<^verbatim>\<open>std::regex_search\<close> for \<^verbatim>\<open>\bword\b\<close> without regard to case: the first position with a
  match between two word boundaries.
\<close>

definition is_word :: "char \<Rightarrow> bool" where
  "is_word c \<longleftrightarrow> is_digit c \<or> 65 \<le> (of_char (c_upper c) :: nat) \<and> (of_char (c_upper c) :: nat) \<le> 90 \<or> c = CHR ''_''"

definition word_at :: "string \<Rightarrow> nat \<Rightarrow> bool" where
  "word_at s p \<longleftrightarrow> p < length s \<and> is_word (s ! p)"

definition boundary :: "string \<Rightarrow> nat \<Rightarrow> bool" where
  "boundary s p \<longleftrightarrow> (0 < p \<and> word_at s (p - 1)) \<noteq> word_at s p"

definition strcasestrwhole :: "string \<Rightarrow> string \<Rightarrow> nat option" where
  "strcasestrwhole str substr =
     (if substr = [] \<and> str = [] then Some 0
      else if str = [] then None
      else find (\<lambda>p. nocase_eq (take (length substr) (drop p str)) substr \<and> boundary str p \<and> boundary str (p + length substr))
             [0..<Suc (length str)])"

definition DoesEmbedInDoubleQuotes :: "string \<Rightarrow> nat \<Rightarrow> nat" where
  "DoesEmbedInDoubleQuotes s p = foldl (\<lambda>q c. if c = DOUBLE_QUOTE then toggle q else q) 0 (take p s)"

text \<open>The loop of \<^verbatim>\<open>findSQLClause\<close> from the position \<open>off\<close> on; the clause has at least one character.\<close>

function find_clause :: "string \<Rightarrow> string \<Rightarrow> nat \<Rightarrow> nat option" where
  "find_clause cmd clause off =
     (if clause = [] \<or> length cmd < off then None
      else (case strcasestrwhole (drop off cmd) clause of
              None \<Rightarrow> None
            | Some p \<Rightarrow>
                if off + p = 0 then None
                else if (c_isspace (ch cmd (off + p - 1)) \<or> ch cmd (off + p - 1) = CHR '')'') \<and>
                        DoesEmbedInDoubleQuotes cmd (off + p) = 0
                then Some (off + p)
                else find_clause cmd clause (off + p + length clause)))"
  by auto
termination
  by (relation "measure (\<lambda>(cmd, clause, off). Suc (length cmd) - off)") (auto simp flip: length_greater_0_conv intro!: diff_less_mono2)

declare find_clause.simps [simp del]

definition findSQLClause :: "string \<Rightarrow> string \<Rightarrow> nat option" where
  "findSQLClause pTempCmd pClause = find_clause pTempCmd pClause 0"

subsection \<open>Batches\<close>

text \<open>The rows of a full batch and of the last one; \<^verbatim>\<open>numOfParamMarkers\<close> is positive.\<close>

definition getTotalMultiTuples :: "int \<Rightarrow> int \<Rightarrow> int \<times> int" where
  "getTotalMultiTuples numOfParamMarkers lArraySize =
     (let lTotalParams = i64 (numOfParamMarkers * lArraySize)
      in if PADB_MAX_PARAMETERS < lTotalParams
         then (let iTotalMultiTuples = PADB_MAX_PARAMETERS div numOfParamMarkers;
                   iMaxParamsPerBatch = numOfParamMarkers * iTotalMultiTuples;
                   iLoopCount = i32 (lTotalParams div iMaxParamsPerBatch)
               in (iTotalMultiTuples, i32 (lArraySize - iTotalMultiTuples * iLoopCount)))
         else (i32 lArraySize, 0))"

text \<open>
  The loop over the rows in \<^verbatim>\<open>libpqExecuteDirectOrPrepared\<close>: at which rows a command is sent, and
  how many parameters go with it.
\<close>

definition sends_at :: "int \<Rightarrow> int \<Rightarrow> int \<Rightarrow> int \<Rightarrow> bool" where
  "sends_at iMultiInsert iLastBatchMultiInsert lParamsToBind lParamProcessed \<longleftrightarrow>
     iMultiInsert = 0 \<or> (lParamProcessed + 1) mod iMultiInsert = 0 \<or>
     iLastBatchMultiInsert \<noteq> 0 \<and> lParamProcessed + 1 = lParamsToBind"

definition params_sent :: "int \<Rightarrow> int \<Rightarrow> int \<Rightarrow> int \<Rightarrow> int \<Rightarrow> int" where
  "params_sent iNumBindParams iMultiInsert iLastBatchMultiInsert lParamsToBind lParamProcessed =
     (if iMultiInsert \<noteq> 0
      then (if iLastBatchMultiInsert \<noteq> 0 \<and> lParamProcessed + 1 = lParamsToBind
            then iNumBindParams * iLastBatchMultiInsert else iNumBindParams * iMultiInsert)
      else iNumBindParams)"

definition commands_sent :: "int \<Rightarrow> int \<Rightarrow> int \<Rightarrow> int \<Rightarrow> (int \<times> int) list" where
  "commands_sent iNumBindParams iMultiInsert iLastBatchMultiInsert lParamsToBind =
     map (\<lambda>p. (p + 1, params_sent iNumBindParams iMultiInsert iLastBatchMultiInsert lParamsToBind p))
       (filter (sends_at iMultiInsert iLastBatchMultiInsert lParamsToBind) [0..lParamsToBind - 1])"

subsection \<open>The rewritten commands\<close>

definition put_last :: "bool \<Rightarrow> string option \<Rightarrow> nat \<Rightarrow> string \<Rightarrow> string option option" where
  "put_last active pLast i bs =
     (case pLast of Some b \<Rightarrow> if active then map_option Some (put_at b i bs) else Some pLast | None \<Rightarrow> Some None)"

fun tuple_loop :: "string \<Rightarrow> nat \<Rightarrow> nat \<Rightarrow> nat \<Rightarrow> nat \<Rightarrow> string \<Rightarrow> string option \<Rightarrow> (nat \<times> string \<times> string option) option" where
  "tuple_loop tup iLast iCount 0 i pMulti pLast = Some (i, pMulti, pLast)"
| "tuple_loop tup iLast iCount (Suc k) i pMulti pLast =
     do {
       (j, m1, l1) \<leftarrow>
         (if iCount \<noteq> 0
          then do {
            m \<leftarrow> put_at pMulti i '','';
            l \<leftarrow> put_last (iCount < iLast) pLast i '','';
            Some (i + 1, m, l)
          }
          else Some (i, pMulti, pLast));
       m2 \<leftarrow> put_at m1 j tup;
       l2 \<leftarrow> put_last (iCount < iLast) l1 j tup;
       tuple_loop tup iLast (Suc iCount) k (j + length tup) m2 l2
     }"

text \<open>The two buffers, allocated zeroed; the brackets are at \<open>left\<close> and \<open>right\<close>.\<close>

definition multi_commands :: "string \<Rightarrow> nat \<Rightarrow> nat \<Rightarrow> nat \<Rightarrow> nat \<Rightarrow> nat \<Rightarrow> (string \<times> string option) option" where
  "multi_commands pTempCmd cbLen left right iTotal iLast =
     (let iValueClauseLen = right - left + 1 + 1;
          tup = take (right - left + 1) (drop left pTempCmd);
          iLastPartLen = cbLen - (right + 1)
      in do {
        m0 \<leftarrow> put_at (replicate (cbLen + iValueClauseLen * iTotal + 1) NUL) 0 (take left pTempCmd);
        l0 \<leftarrow> put_last True (if 0 < iLast then Some (replicate (cbLen + iValueClauseLen * iLast + 1) NUL) else None)
                0 (take left pTempCmd);
        (i, m1, l1) \<leftarrow> tuple_loop tup iLast 0 iTotal left m0 l0;
        (if 0 < iLastPartLen
         then do {
           m2 \<leftarrow> put_at m1 i (take iLastPartLen (drop (right + 1) pTempCmd));
           l2 \<leftarrow> put_last True l1 i (take iLastPartLen (drop (right + 1) pTempCmd));
           Some (m2, l2)
         }
         else Some (m1, l1))
      })"

record insert_info =
  iMultiInsert :: int
  iLastBatchMultiInsert :: int
  pszUserInsertCmd :: "string option"
  lArraySizeMultiInsert :: int
  pszLastBatchMultiInsertCmd :: "string option"

definition resetMultiInsertInfo :: "insert_info \<Rightarrow> insert_info" where
  "resetMultiInsertInfo st =
     \<lparr>iMultiInsert = 0, iLastBatchMultiInsert = 0, pszUserInsertCmd = None, lArraySizeMultiInsert = 0,
      pszLastBatchMultiInsertCmd = None\<rparr>"

definition c_text_of :: "string \<Rightarrow> string" where
  "c_text_of b = takeWhile (\<lambda>c. c \<noteq> NUL) b"

text \<open>
  The part for an array: the counts of rows and the commands, when the statement is one that can be
  rewritten.
\<close>

definition array_insert :: "string \<Rightarrow> nat \<Rightarrow> int \<Rightarrow> ((int \<times> int \<times> string \<times> string option) option) option" where
  "array_insert pTempCmd cbLen lArraySize =
     do {
       n \<leftarrow> countParamMarkers (Some (pTempCmd @ [NUL])) SQL_NTS;
       (if 0 < n \<and> int n \<le> PADB_MAX_PARAMETERS
        then (case findSQLClause pTempCmd ''VALUES'' of
                None \<Rightarrow> Some None
              | Some q \<Rightarrow>
                  (case getNextTokenForInsertCommand pTempCmd cbLen (q + 6) (CHR ''('') of
                     (None, _) \<Rightarrow> Some None
                   | (Some left, i1) \<Rightarrow>
                       (case getNextTokenForInsertCommand pTempCmd cbLen i1 (CHR '')'') of
                          (None, _) \<Rightarrow> Some None
                        | (Some right, i2) \<Rightarrow>
                            (case getNextTokenForInsertCommand pTempCmd cbLen i2 NUL of
                               (None, _) \<Rightarrow> Some None
                             | (Some t, _) \<Rightarrow>
                                 if ch pTempCmd t = NUL \<or> ch pTempCmd t = CHR '';''
                                 then (let (iTotal, iLast) = getTotalMultiTuples (int n) lArraySize
                                       in if 1 \<le> iTotal
                                          then do {
                                            (m, l) \<leftarrow> multi_commands pTempCmd cbLen left right (nat iTotal) (nat iLast);
                                            Some (Some (iTotal, iLast, m, l))
                                          }
                                          else Some None)
                                 else Some None))))
        else Some None)
     }"

text \<open>
  \<open>same\<close> says that the command is the one stored in the statement (a re-preparation), \<open>hdr\<close> is the
  array size of the descriptor header when that is valid. The result is the new command, the command
  of the last batch and the state of the statement.
\<close>

definition parseForMultiInsertCommand ::
  "bool \<Rightarrow> int option \<Rightarrow> bool \<Rightarrow> string option \<Rightarrow> int \<Rightarrow> insert_info \<Rightarrow>
   (string option \<times> string option \<times> insert_info) option" where
  "parseForMultiInsertCommand enabled hdr same pCmd cbLen0 st0 =
     (let st = st0\<lparr>iMultiInsert := 0, iLastBatchMultiInsert := 0\<rparr>
      in case pCmd of
           None \<Rightarrow> Some (None, None, st)
         | Some cmd \<Rightarrow>
             if \<not> enabled then Some (None, None, st)
             else (let cbLen = (if cbLen0 = SQL_NTS then length cmd else nat cbLen0)
                   in if length cmd < cbLen then None
                      else (case getNextTokenForInsertCommand cmd cbLen 0 NUL of
                              (None, _) \<Rightarrow> Some (None, None, st)
                            | (Some t, e) \<Rightarrow>
                                if t = e then Some (None, None, st)
                                else if nocase_eq (take (e - t) (drop t cmd)) ''INSERT''
                                then (let lArraySize = (case hdr of Some a \<Rightarrow> if a \<le> 0 then 1 else a | None \<Rightarrow> 1);
                                          st1 = (if same then st
                                                 else (resetMultiInsertInfo st)\<lparr>pszUserInsertCmd := Some (take cbLen cmd)\<rparr>)
                                                  \<lparr>lArraySizeMultiInsert := lArraySize\<rparr>
                                      in if lArraySize \<le> 1 then Some (None, None, st1)
                                         else map_option
                                           (\<lambda>r. case r of
                                                  None \<Rightarrow> (None, None, st1)
                                                | Some (a, b, m, l) \<Rightarrow>
                                                    (Some (c_text_of m), map_option c_text_of l,
                                                     st1\<lparr>iMultiInsert := a, iLastBatchMultiInsert := b\<rparr>))
                                           (array_insert (take cbLen cmd) cbLen lArraySize))
                                else Some (None, None, resetMultiInsertInfo st))))"

end
