(* ===== verification/Rs_Insert_Promises.thy ===== *)
theory Rs_Insert_Promises
  imports Rs_Insert
begin

text \<open>
  Array inserts: the rewritten command repeats the row of the original once for each row of a batch,
  the batches cover the rows of the array within the limit of parameters, and a last batch whose
  command goes on behind its values is written outside its buffer.
\<close>

subsection \<open>The schedule of batches\<close>

lemma multiples:
  fixes t k l :: int
  assumes "0 < t" "0 \<le> k" "0 \<le> l" "l < t"
  shows "filter (\<lambda>p. (p + 1) mod t = 0) [0..t * k + l - 1] = map (\<lambda>b. b * t - 1) [1..k]"
proof (rule sorted_distinct_set_unique)
  have "b * t - 1 < c * t" if "b \<le> c" for b c
  proof -
    have "b * t \<le> c * t" using that assms(1) by (intro mult_right_mono) simp_all
    then show ?thesis by linarith
  qed
  then show "sorted (map (\<lambda>b. b * t - 1) [1..k])"
    unfolding sorted_map by (intro sorted_wrt_mono_rel [OF _ sorted_upto]) (simp add: diff_right_mono)
  show "distinct (map (\<lambda>b. b * t - 1) [1..k])" using assms(1) by (auto simp: distinct_map inj_on_def)
  show "set (filter (\<lambda>p. (p + 1) mod t = 0) [0..t * k + l - 1]) = set (map (\<lambda>b. b * t - 1) [1..k])"
  proof (rule set_eqI)
    fix p
    have "0 \<le> p \<and> p \<le> t * k + l - 1 \<and> (p + 1) mod t = 0 \<longleftrightarrow> (\<exists>b. 1 \<le> b \<and> b \<le> k \<and> p = b * t - 1)"
    proof
      assume a: "0 \<le> p \<and> p \<le> t * k + l - 1 \<and> (p + 1) mod t = 0"
      then obtain b where b: "p + 1 = t * b" by (auto simp: mod_eq_0_iff_dvd dvd_def)
      have "0 < b" using a b assms(1) by (metis add_nonneg_pos zero_less_mult_pos zero_less_one)
      moreover have "t * b < t * (k + 1)" using a b assms(4) by (simp add: distrib_left)
      then have "b \<le> k" using assms(1) by (simp add: mult_less_cancel_left_pos)
      ultimately show "\<exists>b. 1 \<le> b \<and> b \<le> k \<and> p = b * t - 1" using b by (intro exI [of _ b]) (simp add: mult.commute)
    next
      assume "\<exists>b. 1 \<le> b \<and> b \<le> k \<and> p = b * t - 1"
      then obtain b where b: "1 \<le> b" "b \<le> k" "p = b * t - 1" by blast
      have "1 * t \<le> b * t" "b * t \<le> k * t" using b assms(1) by (simp_all add: mult_right_mono)
      then have "0 \<le> b * t - 1" "b * t - 1 \<le> t * k + l - 1" using assms(1,3) by (simp only: mult.commute [of t k]; linarith)+
      then show "0 \<le> p \<and> p \<le> t * k + l - 1 \<and> (p + 1) mod t = 0" by (simp add: b(3))
    qed
    then show "p \<in> set (filter (\<lambda>p. (p + 1) mod t = 0) [0..t * k + l - 1]) \<longleftrightarrow> p \<in> set (map (\<lambda>b. b * t - 1) [1..k])"
      by auto
  qed
  show "sorted (filter (\<lambda>p. (p + 1) mod t = 0) [0..t * k + l - 1])" by (simp add: sorted_wrt_filter)
qed simp_all

text \<open>The rows of a full batch and of the last one.\<close>

lemma batch_sizes:
  assumes "0 < n" "n \<le> PADB_MAX_PARAMETERS" "1 \<le> a" "a < 2 ^ 31" "getTotalMultiTuples n a = (t, l)"
  shows "1 \<le> t" "n * t \<le> PADB_MAX_PARAMETERS" "l = a mod t" "t \<le> a"
proof -
  have n: "n \<le> 32767" using assms(2) by (simp add: PADB_MAX_PARAMETERS_def)
  have "n * a \<le> 32767 * 2 ^ 31" using n assms(1,3,4) by (intro mult_mono) simp_all
  then have na: "i64 (n * a) = n * a" using assms(1,3) by (intro i64_id) (auto intro: order_trans [of _ 0])
  have ia: "i32 a = a" using assms(3,4) by (intro i32_id) simp_all
  have "1 \<le> t \<and> n * t \<le> PADB_MAX_PARAMETERS \<and> l = a mod t \<and> t \<le> a"
  proof (cases "n * a \<le> 32767")
    case True
    then have "t = a" "l = 0" using assms(5) by (simp_all add: getTotalMultiTuples_def na ia PADB_MAX_PARAMETERS_def)
    then show "1 \<le> t \<and> n * t \<le> PADB_MAX_PARAMETERS \<and> l = a mod t \<and> t \<le> a"
      using True assms(3) by (simp add: PADB_MAX_PARAMETERS_def)
  next
    case False
    obtain T where T: "T = 32767 div n" by simp
    have T1: "1 \<le> T" using n assms(1) by (simp add: T pos_imp_zdiv_pos_iff zdiv_mono2 int_one_le_iff_zero_less)
    have nT: "n * T \<le> 32767" using minus_mod_eq_mult_div [of 32767 n] pos_mod_sign [OF assms(1), of 32767] by (simp add: T)
    have q: "n * a div (n * T) = a div T" using assms(1) by simp
    have qb: "0 \<le> a div T" "a div T \<le> a" using T1 assms(3) zdiv_mono2 [of a 1 T] by (simp_all add: pos_imp_zdiv_nonneg_iff)
    then have i: "i32 (a div T) = a div T" using assms(4) by (intro i32_id) simp_all
    have m: "a - T * (a div T) = a mod T" by (simp add: minus_mult_div_eq_mod)
    have mb: "0 \<le> a mod T" "a mod T < 2 ^ 31"
    proof -
      have "a mod T \<le> a" using zmod_le_nonneg_dividend [of a T] assms(3) by simp
      then show "0 \<le> a mod T" "a mod T < 2 ^ 31" using T1 assms(4) by simp_all
    qed
    then have i2: "i32 (a mod T) = a mod T" by (intro i32_id) simp_all
    have "n * T < n * a" using nT False by linarith
    then have "T \<le> a" using assms(1) by simp
    moreover have "t = T" "l = a mod T"
      using assms(1,5) False by (auto simp: getTotalMultiTuples_def Let_def na PADB_MAX_PARAMETERS_def T [symmetric] q i m i2)
    ultimately show "1 \<le> t \<and> n * t \<le> PADB_MAX_PARAMETERS \<and> l = a mod t \<and> t \<le> a"
      using T1 nT by (simp add: PADB_MAX_PARAMETERS_def)
  qed
  then show "1 \<le> t" "n * t \<le> PADB_MAX_PARAMETERS" "l = a mod t" "t \<le> a" by blast+
qed

lemma sends:
  assumes "1 \<le> t" "l = a mod t" "1 \<le> a"
  shows "commands_sent n t l a =
    map (\<lambda>b. (b * t, n * t)) [1..a div t] @ (if l = 0 then [] else [(a, n * l)])"
proof -
  have l: "0 \<le> l" "l < t" using assms(1,2) by simp_all
  have a: "a = t * (a div t) + l" using assms(2) by simp
  have k: "0 \<le> a div t" using assms(1,3) by (simp add: pos_imp_zdiv_nonneg_iff)
  show ?thesis
  proof (cases "l = 0")
    case True
    have "sends_at t l a = (\<lambda>p. (p + 1) mod t = 0)" using True assms(1) by (auto simp: sends_at_def)
    then have "filter (sends_at t l a) [0..a - 1] = map (\<lambda>b. b * t - 1) [1..a div t]"
      using multiples [of t "a div t" 0] a k assms(1) True by simp
    then show ?thesis using True assms(1) by (simp add: commands_sent_def params_sent_def o_def)
  next
    case False
    have "[0..a - 1] = [0..t * (a div t) + (l - 1) - 1] @ [a - 1]" using upto_rec2 [of 0 "a - 1"] assms(3) a by simp
    moreover have "filter (sends_at t l a) [0..t * (a div t) + (l - 1) - 1] = map (\<lambda>b. b * t - 1) [1..a div t]"
    proof -
      have "filter (sends_at t l a) [0..t * (a div t) + (l - 1) - 1] =
          filter (\<lambda>p. (p + 1) mod t = 0) [0..t * (a div t) + (l - 1) - 1]"
        using a assms(1) by (intro filter_cong) (auto simp: sends_at_def)
      then show ?thesis using multiples [of t "a div t" "l - 1"] False l k assms(1) by simp
    qed
    moreover have "b * t \<noteq> a" if "b \<in> {1..a div t}" for b
      using False assms(2) by auto
    ultimately show ?thesis
      using False assms(1) a by (auto simp: commands_sent_def params_sent_def o_def sends_at_def)
  qed
qed

text \<open>
  Property C9. An array insert reaches the server whole: the loop sends full batches of t rows, the
  command of batch b at row b * t, and at the end one of the remaining rows, if there are any; no
  command has more than 32767 parameters, and together they have those of all rows of the array.
\<close>

theorem batches_cover_array:
  assumes "0 < n" "n \<le> PADB_MAX_PARAMETERS" "1 \<le> a" "a < 2 ^ 31" "getTotalMultiTuples n a = (t, l)"
  shows "commands_sent n t l a = map (\<lambda>b. (b * t, n * t)) [1..a div t] @ (if l = 0 then [] else [(a, n * l)]) \<and>
    0 \<le> l \<and> l < t \<and> (\<forall>(row, params) \<in> set (commands_sent n t l a). params \<le> PADB_MAX_PARAMETERS) \<and>
    sum_list (map snd (commands_sent n t l a)) = n * a"
proof -
  note b = batch_sizes [OF assms]
  have cs: "commands_sent n t l a = map (\<lambda>b. (b * t, n * t)) [1..a div t] @ (if l = 0 then [] else [(a, n * l)])"
    by (rule sends [OF b(1,3) assms(3)])
  have l: "0 \<le> l" "l < t" using b(1,3) by simp_all
  have "n * l \<le> n * t" using l assms(1) by (intro mult_left_mono) simp_all
  then have "\<forall>(row, params) \<in> set (commands_sent n t l a). params \<le> PADB_MAX_PARAMETERS"
    using b(2) by (auto simp: cs)
  moreover have "sum_list (map snd (commands_sent n t l a)) = n * a"
  proof -
    have k: "0 \<le> a div t" using b(1) assms(3) by (simp add: pos_imp_zdiv_nonneg_iff)
    have "sum_list (map snd (commands_sent n t l a)) = n * (t * (a div t) + l)"
      using k by (simp add: cs o_def sum_list_triv algebra_simps)
    then show ?thesis using b(3) by simp
  qed
  ultimately show ?thesis using cs l by simp
qed

theorem batches_cover_array_witness:
  "commands_sent 10000 3 1 7 = [(3, 30000), (6, 30000), (7, 10000)]"
proof -
  have "getTotalMultiTuples 10000 7 = (3, 1)" by (simp add: PADB_MAX_PARAMETERS_def getTotalMultiTuples_def i64_def i32_def)
  then show ?thesis
    using batches_cover_array [of 10000 7 3 1] by (simp add: PADB_MAX_PARAMETERS_def upto.simps)
qed

subsection \<open>Tokens\<close>

lemma ch_drop: "drop i s = c # r \<Longrightarrow> ch s i = c \<and> i < length s \<and> drop (Suc i) s = r"
  using Cons_nth_drop_Suc [of i s] by (cases "i < length s") (auto simp: ch_def)

lemma skip_blanks_run:
  assumes "drop i s = g @ r" "list_all c_isspace g" "r = [] \<or> \<not> c_isspace (hd r)" "length s \<le> n"
  shows "skip_blanks s n i = i + length g"
proof -
  have "length (g @ r) \<le> n - i" using arg_cong [OF assms(1), of length] assms(4) by simp
  then have "take (n - i) (drop i s) = g @ r" by (simp only: assms(1) take_all)
  moreover have "takeWhile c_isspace (g @ r) = g" using assms(2,3) by (cases r) (auto simp: takeWhile_append2 list_all_iff)
  ultimately show ?thesis by (simp add: skip_blanks_def)
qed

lemma any_token:
  "drop i s = w @ r \<Longrightarrow> list_all (\<lambda>c. \<not> c_isspace c \<and> c \<noteq> CHR '';'' \<and> c \<noteq> NUL) w \<Longrightarrow>
    r = [] \<or> c_isspace (hd r) \<or> hd r = CHR '';'' \<Longrightarrow> length s \<le> n \<Longrightarrow>
    token_loop s n NUL i q b p = (None, i + length w)"
proof (induction w arbitrary: i)
  case Nil
  have "ch s i = NUL \<or> c_isspace (ch s i) \<or> ch s i = CHR '';''"
  proof (cases r)
    case Nil
    then have "length s \<le> i" using Nil.prems(1) by simp
    then show ?thesis by (simp add: ch_def)
  next
    case (Cons c r')
    then show ?thesis using ch_drop [of i s c r'] Nil.prems(1,3) by auto
  qed
  then show ?case by (subst token_loop.simps) (auto simp: Let_def)
next
  case (Cons c w)
  then have c: "ch s i = c" "i < length s" "drop (Suc i) s = w @ r" using ch_drop [of i s c "w @ r"] by simp_all
  have "token_loop s n NUL (Suc i) q b p = (None, Suc i + length w)" using Cons c by (intro Cons.IH) simp_all
  then show ?case using c Cons.prems(2,4) by (subst token_loop.simps) (simp add: Let_def)
qed

text \<open>Characters that mean nothing to the search for a bracket.\<close>

definition plain :: "char \<Rightarrow> bool" where
  "plain c \<longleftrightarrow> c \<notin> {NUL, SINGLE_QUOTE, CHR ''('', CHR '')'', CHR '';''}"

lemma bracket_token:
  "drop i s = w @ t # r \<Longrightarrow> list_all plain w \<Longrightarrow> t \<in> {CHR ''('', CHR '')''} \<Longrightarrow> length s \<le> n \<Longrightarrow>
    token_loop s n t i 0 0 p = (Some (i + length w), Suc (i + length w))"
proof (induction w arbitrary: i p)
  case Nil
  then have "ch s i = t" "i < length s" using ch_drop [of i s t r] by simp_all
  then show ?case using Nil.prems(3,4) by (subst token_loop.simps) (auto simp: Let_def)
next
  case (Cons c w)
  then have c: "ch s i = c" "i < length s" "drop (Suc i) s = w @ t # r" using ch_drop [of i s c "w @ t # r"] by simp_all
  have "token_loop s n t (Suc i) 0 0 c = (Some (Suc i + length w), Suc (Suc i + length w))"
    using Cons c by (intro Cons.IH) simp_all
  then show ?case using c Cons.prems by (subst token_loop.simps) (auto simp: plain_def Let_def)
qed

subsection \<open>The buffers\<close>

definition chunk :: "string \<Rightarrow> nat \<Rightarrow> string" where
  "chunk tup c = (if c = 0 then [] else '','') @ tup"

definition chunks :: "string \<Rightarrow> nat \<Rightarrow> nat \<Rightarrow> string" where
  "chunks tup c k = concat (map (chunk tup) [c..<c + k])"

text \<open>\<open>k\<close> copies of a row, separated by commas.\<close>

definition rows :: "nat \<Rightarrow> string \<Rightarrow> string" where
  "rows k tup = chunks tup 0 k"

lemma chunks_simps [simp]:
  "chunks tup c 0 = []" "chunks tup c (Suc k) = chunk tup c @ chunks tup (Suc c) k"
  by (simp_all add: chunks_def upt_conv_Cons del: upt_Suc)

lemma length_chunks: "length (chunks tup c k) + (if c = 0 \<and> 0 < k then 1 else 0) = k * (length tup + 1)"
proof (induction k arbitrary: c)
  case (Suc k)
  show ?case using Suc.IH [of "Suc c"] by (simp add: chunk_def)
qed simp

lemma length_chunks_le: "length (chunks tup c k) \<le> k * (length tup + 1)"
  using length_chunks [of tup c k] by linarith

text \<open>A zeroed buffer with something written at its start.\<close>

definition filled :: "string \<Rightarrow> nat \<Rightarrow> string" where
  "filled w r = w @ replicate r NUL"

lemma put_filled: "length bs \<le> r \<Longrightarrow> put_at (filled w r) (length w) bs = Some (filled (w @ bs) (r - length bs))"
  by (simp add: put_at_def filled_def)

lemma put_fresh: "length pre \<le> n \<Longrightarrow> put_at (replicate n NUL) 0 pre = Some (filled pre (n - length pre))"
  by (simp add: put_at_def filled_def)

lemma put_too_far: "length b < i + length bs \<Longrightarrow> put_at b i bs = None"
  by (simp add: put_at_def)

text \<open>The loop over the rows fills the main buffer, and the other one up to its own number of rows.\<close>

lemma tuple_loop_main:
  "length (chunks tup c k) \<le> r \<Longrightarrow>
    tuple_loop tup iLast c k (length w) (filled w r) None =
      Some (length w + length (chunks tup c k), filled (w @ chunks tup c k) (r - length (chunks tup c k)), None)"
proof (induction k arbitrary: c w r)
  case (Suc k)
  have len: "length (chunk tup c) \<le> r" using Suc.prems by simp
  have "tuple_loop tup iLast (Suc c) k (length (w @ chunk tup c)) (filled (w @ chunk tup c) (r - length (chunk tup c))) None =
      Some (length (w @ chunk tup c) + length (chunks tup (Suc c) k),
        filled ((w @ chunk tup c) @ chunks tup (Suc c) k) (r - length (chunk tup c) - length (chunks tup (Suc c) k)), None)"
    using Suc.prems by (intro Suc.IH) simp
  then show ?case
    using len put_filled [of tup r w] put_filled [of "'',''" r w] put_filled [of tup "r - 1" "w @ '',''"]
    by (cases "c = 0") (simp_all add: chunk_def put_last_def diff_diff_left)
qed simp

lemma tuple_loop_last:
  "length (chunks tup c k) \<le> r \<Longrightarrow> length (chunks tup c (min k (iLast - c))) \<le> rl \<Longrightarrow>
    (c < iLast \<longrightarrow> length wl = length w) \<Longrightarrow>
    tuple_loop tup iLast c k (length w) (filled w r) (Some (filled wl rl)) =
      Some (length w + length (chunks tup c k), filled (w @ chunks tup c k) (r - length (chunks tup c k)),
        Some (filled (wl @ chunks tup c (min k (iLast - c))) (rl - length (chunks tup c (min k (iLast - c))))))"
proof (induction k arbitrary: c w r wl rl)
  case (Suc k)
  have len: "length (chunk tup c) \<le> r" using Suc.prems by simp
  show ?case
  proof (cases "c < iLast")
    case True
    then obtain d where d: "iLast - c = Suc d" "iLast - Suc c = d" by (metis Suc_diff_Suc)
    have rl: "length (chunk tup c) \<le> rl" using Suc.prems(2) d by simp
    have wl: "length wl = length w" using Suc.prems(3) True by simp
    have "tuple_loop tup iLast (Suc c) k (length (w @ chunk tup c)) (filled (w @ chunk tup c) (r - length (chunk tup c)))
        (Some (filled (wl @ chunk tup c) (rl - length (chunk tup c)))) =
      Some (length (w @ chunk tup c) + length (chunks tup (Suc c) k),
        filled ((w @ chunk tup c) @ chunks tup (Suc c) k) (r - length (chunk tup c) - length (chunks tup (Suc c) k)),
        Some (filled ((wl @ chunk tup c) @ chunks tup (Suc c) (min k (iLast - Suc c)))
          (rl - length (chunk tup c) - length (chunks tup (Suc c) (min k (iLast - Suc c))))))"
      using Suc.prems d wl by (intro Suc.IH) simp_all
    then show ?thesis
      using True len rl d put_filled [of tup r w] put_filled [of "'',''" r w] put_filled [of tup "r - 1" "w @ '',''"]
        put_filled [of tup rl wl] put_filled [of "'',''" rl wl] put_filled [of tup "rl - 1" "wl @ '',''"] wl
      by (cases "c = 0") (simp_all add: chunk_def put_last_def diff_diff_left)
  next
    case False
    have "tuple_loop tup iLast (Suc c) k (length (w @ chunk tup c)) (filled (w @ chunk tup c) (r - length (chunk tup c)))
        (Some (filled wl rl)) =
      Some (length (w @ chunk tup c) + length (chunks tup (Suc c) k),
        filled ((w @ chunk tup c) @ chunks tup (Suc c) k) (r - length (chunk tup c) - length (chunks tup (Suc c) k)),
        Some (filled (wl @ chunks tup (Suc c) (min k (iLast - Suc c)))
          (rl - length (chunks tup (Suc c) (min k (iLast - Suc c))))))"
      using Suc.prems False by (intro Suc.IH) simp_all
    then show ?thesis
      using False len put_filled [of tup r w] put_filled [of "'',''" r w] put_filled [of tup "r - 1" "w @ '',''"]
      by (cases "c = 0") (simp_all add: chunk_def put_last_def diff_diff_left)
  qed
qed simp

text \<open>The two commands: \<open>pre\<close>, the row in its brackets and the rest \<open>tail\<close>.\<close>

lemma multi_commands_unfold:
  assumes "cmd = pre @ tup @ tail" "tup \<noteq> []"
  shows "multi_commands cmd (length cmd) (length pre) (length pre + length tup - 1) iTotal iLast =
    do {
      m0 \<leftarrow> put_at (replicate (length cmd + (length tup + 1) * iTotal + 1) NUL) 0 pre;
      l0 \<leftarrow> put_last True (if 0 < iLast then Some (replicate (length cmd + (length tup + 1) * iLast + 1) NUL) else None) 0 pre;
      (i, m1, l1) \<leftarrow> tuple_loop tup iLast 0 iTotal (length pre) m0 l0;
      (if 0 < length tail
       then do { m2 \<leftarrow> put_at m1 i tail; l2 \<leftarrow> put_last True l1 i tail; Some (m2, l2) }
       else Some (m1, l1))
    }"
proof -
  have r: "length pre + length tup - 1 - length pre + 1 = length tup" "length pre + length tup - 1 + 1 = length pre + length tup"
    "length cmd - (length pre + length tup) = length tail"
    using assms(2) by (cases tup; simp add: assms(1))+
  have t: "take (length tup) (drop (length pre) cmd) = tup" "take (length pre) cmd = pre"
    "take (length tail) (drop (length pre + length tup) cmd) = tail"
    by (simp_all add: assms(1))
  show ?thesis unfolding multi_commands_def Let_def r t by (rule refl)
qed

lemma multi_commands_ok:
  assumes "cmd = pre @ tup @ tail" "tup \<noteq> []" "0 < iTotal" "tail = [] \<or> iLast = 0" "iLast \<le> iTotal"
  shows "\<exists>r rl. multi_commands cmd (length cmd) (length pre) (length pre + length tup - 1) iTotal iLast =
    Some (filled (pre @ rows iTotal tup @ tail) r,
      if iLast = 0 then None else Some (filled (pre @ rows iLast tup) rl))"
proof -
  obtain N where N: "N = length cmd + (length tup + 1) * iTotal + 1" by simp
  have main: "put_at (replicate N NUL) 0 pre = Some (filled pre (N - length pre))"
    by (rule put_fresh) (simp add: N assms(1))
  have room: "length (chunks tup 0 iTotal) + length tail \<le> N - length pre"
    using length_chunks_le [of tup 0 iTotal] by (simp add: N assms(1) algebra_simps)
  have rest: "put_at (filled (pre @ rows iTotal tup) r) (length pre + length (rows iTotal tup)) tail =
      Some (filled (pre @ rows iTotal tup @ tail) (r - length tail))" if "length tail \<le> r" for r
    using put_filled [of tail r "pre @ rows iTotal tup"] that by simp
  show ?thesis
  proof (cases "iLast = 0")
    case True
    have "tuple_loop tup 0 0 iTotal (length pre) (filled pre (N - length pre)) None =
        Some (length pre + length (rows iTotal tup),
          filled (pre @ rows iTotal tup) (N - length pre - length (rows iTotal tup)), None)"
      using tuple_loop_main [of tup 0 iTotal "N - length pre" 0 pre] room by (simp add: rows_def)
    then show ?thesis
      using main rest [of "N - length pre - length (rows iTotal tup)"] room True
      unfolding multi_commands_unfold [OF assms(1,2)] N [symmetric]
      by (cases "tail = []") (auto simp: put_last_def rows_def)
  next
    case False
    obtain M where M: "M = length cmd + (length tup + 1) * iLast + 1" by simp
    have last: "put_at (replicate M NUL) 0 pre = Some (filled pre (M - length pre))"
      by (rule put_fresh) (simp add: M assms(1))
    have "length (chunks tup 0 iLast) \<le> M - length pre"
      using length_chunks_le [of tup 0 iLast] by (simp add: M assms(1) algebra_simps)
    then have "tuple_loop tup iLast 0 iTotal (length pre) (filled pre (N - length pre)) (Some (filled pre (M - length pre))) =
        Some (length pre + length (rows iTotal tup),
          filled (pre @ rows iTotal tup) (N - length pre - length (rows iTotal tup)),
          Some (filled (pre @ rows iLast tup) (M - length pre - length (rows iLast tup))))"
      using tuple_loop_last [of tup 0 iTotal "N - length pre" iLast "M - length pre" pre pre] room assms(5)
      by (simp add: rows_def min_absorb2)
    then show ?thesis
      using main last False assms(4)
      unfolding multi_commands_unfold [OF assms(1,2)] N [symmetric] M [symmetric]
      by (auto simp: put_last_def)
  qed
qed

text \<open>
  With something behind the values, the rest of the last command is written where the rest of the main
  command goes, behind the end of its buffer.
\<close>

lemma multi_commands_overrun:
  assumes "cmd = pre @ tup @ tail" "tup \<noteq> []" "0 < iLast" "iLast + 2 \<le> iTotal" "tail \<noteq> []"
  shows "multi_commands cmd (length cmd) (length pre) (length pre + length tup - 1) iTotal iLast = None"
proof -
  obtain N M where N: "N = length cmd + (length tup + 1) * iTotal + 1" "M = length cmd + (length tup + 1) * iLast + 1" by simp
  have put: "put_at (replicate N NUL) 0 pre = Some (filled pre (N - length pre))"
    "put_at (replicate M NUL) 0 pre = Some (filled pre (M - length pre))"
    by (rule put_fresh; simp add: N assms(1))+
  have room: "length (chunks tup 0 iTotal) + length tail \<le> N - length pre" "length (chunks tup 0 iLast) \<le> M - length pre"
    using length_chunks_le [of tup 0 iTotal] length_chunks_le [of tup 0 iLast] by (simp_all add: N assms(1) algebra_simps)
  have loop: "tuple_loop tup iLast 0 iTotal (length pre) (filled pre (N - length pre)) (Some (filled pre (M - length pre))) =
      Some (length pre + length (rows iTotal tup),
        filled (pre @ rows iTotal tup) (N - length pre - length (rows iTotal tup)),
        Some (filled (pre @ rows iLast tup) (M - length pre - length (rows iLast tup))))"
    using tuple_loop_last [of tup 0 iTotal "N - length pre" iLast "M - length pre" pre pre] room assms(4)
    by (simp add: rows_def min_absorb2)
  have "(length tup + 1) * (iLast + 2) \<le> (length tup + 1) * iTotal" using assms(4) by (rule mult_le_mono2)
  moreover have "length (rows iTotal tup) + 1 = iTotal * (length tup + 1)"
    using length_chunks [of tup 0 iTotal] assms(4) by (simp add: rows_def)
  moreover have "length (rows iLast tup) \<le> M - length pre" using room(2) by (simp add: rows_def)
  moreover obtain L where "length tup = Suc L" using assms(2) by (cases tup) auto
  ultimately have "length (filled (pre @ rows iLast tup) (M - length pre - length (rows iLast tup))) <
      length pre + length (rows iTotal tup) + length tail"
    by (simp add: filled_def N assms(1) algebra_simps)
  then have "put_at (filled (pre @ rows iLast tup) (M - length pre - length (rows iLast tup)))
      (length pre + length (rows iTotal tup)) tail = None"
    by (rule put_too_far)
  then show ?thesis
    using put loop assms(3,5)
    unfolding multi_commands_unfold [OF assms(1,2)] N [symmetric]
    by (cases "put_at (filled (pre @ rows iTotal tup) (N - length pre - length (rows iTotal tup)))
        (length pre + length (rows iTotal tup)) tail") (simp_all add: put_last_def)
qed

subsection \<open>The statement\<close>

definition row_text :: "string \<Rightarrow> string" where
  "row_text body = ''('' @ body @ '')''"

text \<open>
  A single-row insert: \<open>pre\<close> up to the bracket of the values, the values without quotes, brackets or
  semicolons, and behind them nothing but white space, or a semicolon.
\<close>

definition single_row_insert :: "string \<Rightarrow> string \<Rightarrow> string \<Rightarrow> string \<Rightarrow> bool" where
  "single_row_insert cmd pre body tail \<longleftrightarrow>
     NUL \<notin> set cmd \<and> cmd = pre @ row_text body @ tail \<and> list_all plain body \<and>
     nocase_eq (take 6 cmd) ''INSERT'' \<and> 6 < length cmd \<and> c_isspace (cmd ! 6) \<and>
     (case findSQLClause cmd ''VALUES'' of
        Some q \<Rightarrow> q + 6 \<le> length pre \<and> list_all c_isspace (drop (q + 6) pre)
      | None \<Rightarrow> False) \<and>
     (case dropWhile c_isspace tail of [] \<Rightarrow> True | c # _ \<Rightarrow> c = CHR '';'')"

lemma special_upper:
  assumes "c_isspace c \<or> c = CHR '';'' \<or> c = NUL"
  shows "c_upper c = c"
  using assms by (auto simp: c_isspace_def c_upper_def)

lemma insert_word:
  assumes "nocase_eq w ''INSERT''"
  shows "length w = 6" "list_all (\<lambda>c. \<not> c_isspace c \<and> c \<noteq> CHR '';'' \<and> c \<noteq> NUL) w"
proof -
  have up: "map c_upper ''INSERT'' = ''INSERT''" by code_simp
  have m: "map c_upper w = ''INSERT''" using assms up by (simp add: nocase_eq_def)
  show "length w = 6" using arg_cong [OF m, of length] by simp
  have "\<not> c_isspace c \<and> c \<noteq> CHR '';'' \<and> c \<noteq> NUL" if "c \<in> set w" for c
  proof (rule ccontr)
    assume "\<not> (\<not> c_isspace c \<and> c \<noteq> CHR '';'' \<and> c \<noteq> NUL)"
    then have sp: "c_isspace c \<or> c = CHR '';'' \<or> c = NUL" by blast
    have "c_upper c \<in> set (map c_upper w)" using that by simp
    then have "c \<in> set ''INSERT''" by (simp only: m special_upper [OF sp])
    moreover have "\<forall>d \<in> set ''INSERT''. \<not> (c_isspace d \<or> d = CHR '';'' \<or> d = NUL)" by code_simp
    ultimately show False using sp by blast
  qed
  then show "list_all (\<lambda>c. \<not> c_isspace c \<and> c \<noteq> CHR '';'' \<and> c \<noteq> NUL) w" by (simp add: list_all_iff)
qed

lemma not_space_tail: "dropWhile c_isspace s = [] \<or> \<not> c_isspace (hd (dropWhile c_isspace s))"
  by (metis hd_dropWhile)

lemma spaces_of: "list_all c_isspace (takeWhile c_isspace s)"
  by (auto simp: list_all_iff dest: set_takeWhileD)

text \<open>The tokens of such a command.\<close>

lemma insert_tokens:
  assumes "single_row_insert cmd pre body tail"
  shows "getNextTokenForInsertCommand cmd (length cmd) 0 NUL = (Some 0, 6)"
    "findSQLClause cmd ''VALUES'' = Some q \<Longrightarrow>
      getNextTokenForInsertCommand cmd (length cmd) (q + 6) (CHR ''('') = (Some (length pre), Suc (length pre))"
    "getNextTokenForInsertCommand cmd (length cmd) (Suc (length pre)) (CHR '')'') =
      (Some (length pre + length (row_text body) - 1), length pre + length (row_text body))"
    "fst (getNextTokenForInsertCommand cmd (length cmd) (length pre + length (row_text body)) NUL) =
      Some (length pre + length (row_text body) + length (takeWhile c_isspace tail))"
proof -
  have c: "NUL \<notin> set cmd" "cmd = pre @ row_text body @ tail" "list_all plain body" "nocase_eq (take 6 cmd) ''INSERT''"
    "6 < length cmd" "c_isspace (cmd ! 6)"
    using assms unfolding single_row_insert_def by blast+
  have sp: "\<not> c_isspace (CHR ''('')" "\<not> c_isspace (CHR '')'')" by code_simp+
  note w = insert_word [OF c(4)]
  have d: "drop 0 cmd = take 6 cmd @ drop 6 cmd" "drop 6 cmd = cmd ! 6 # drop 7 cmd"
    using Cons_nth_drop_Suc [OF c(5)] by simp_all
  have "skip_blanks cmd (length cmd) 0 = 0 + length ([] :: string)"
    using w by (intro skip_blanks_run [where r = cmd]) (cases cmd; auto simp: list_all_iff)+
  moreover have "token_loop cmd (length cmd) NUL 0 0 0 NUL = (None, 0 + length (take 6 cmd))"
    by (rule any_token [OF d(1) w(2)]) (use c(6) d(2) in simp_all)
  ultimately show "getNextTokenForInsertCommand cmd (length cmd) 0 NUL = (Some 0, 6)"
    using w(1) by (simp add: getNextTokenForInsertCommand_def)
  show "getNextTokenForInsertCommand cmd (length cmd) (q + 6) (CHR ''('') = (Some (length pre), Suc (length pre))"
    if q: "findSQLClause cmd ''VALUES'' = Some q"
  proof -
    have p: "q + 6 \<le> length pre" "list_all c_isspace (drop (q + 6) pre)" using assms q by (simp_all add: single_row_insert_def)
    have "drop (q + 6) cmd = drop (q + 6) pre @ ''('' @ body @ '')'' @ tail" using p(1) by (simp add: c(2) row_text_def)
    then have "skip_blanks cmd (length cmd) (q + 6) = q + 6 + length (drop (q + 6) pre)"
      by (rule skip_blanks_run [OF _ p(2)]) (simp_all add: sp)
    then have "skip_blanks cmd (length cmd) (q + 6) = length pre" using p(1) by simp
    moreover have "token_loop cmd (length cmd) (CHR ''('') (length pre) 0 0 NUL =
        (Some (length pre + length ([] :: string)), Suc (length pre + length ([] :: string)))"
      by (rule bracket_token [where r = "body @ '')'' @ tail"]) (simp_all add: c(2) row_text_def)
    ultimately show ?thesis by (simp add: getNextTokenForInsertCommand_def)
  qed
  let ?g = "takeWhile c_isspace body" and ?b = "dropWhile c_isspace body"
  have b: "drop (Suc (length pre)) cmd = ?g @ ?b @ '')'' @ tail" by (simp add: c(2) row_text_def)
  obtain B where B: "B = ?b" by simp
  have "B @ '')'' @ tail = [] \<or> \<not> c_isspace (hd (B @ '')'' @ tail))"
    using not_space_tail [of body] sp unfolding B [symmetric] by (cases B) auto
  then have j: "skip_blanks cmd (length cmd) (Suc (length pre)) = Suc (length pre) + length ?g"
    unfolding B by (intro skip_blanks_run [OF b spaces_of]) simp_all
  have "drop (Suc (length pre) + length ?g) cmd = ?b @ CHR '')'' # tail" using drop_eq_append_take [OF b] by simp
  then have "token_loop cmd (length cmd) (CHR '')'') (Suc (length pre) + length ?g) 0 0 NUL =
      (Some (Suc (length pre) + length ?g + length ?b), Suc (Suc (length pre) + length ?g + length ?b))"
    using c(3) by (intro bracket_token) (auto simp: list_all_iff dest: set_dropWhileD)
  moreover have "length ?g + length ?b = length body" by (metis length_append takeWhile_dropWhile_id)
  ultimately show "getNextTokenForInsertCommand cmd (length cmd) (Suc (length pre)) (CHR '')'') =
      (Some (length pre + length (row_text body) - 1), length pre + length (row_text body))"
    using j by (simp add: getNextTokenForInsertCommand_def row_text_def add.assoc)
  have "drop (length pre + length (row_text body)) cmd = takeWhile c_isspace tail @ dropWhile c_isspace tail" by (simp add: c(2))
  then have "skip_blanks cmd (length cmd) (length pre + length (row_text body)) =
      length pre + length (row_text body) + length (takeWhile c_isspace tail)"
    by (rule skip_blanks_run [OF _ spaces_of not_space_tail]) simp
  then show "fst (getNextTokenForInsertCommand cmd (length cmd) (length pre + length (row_text body)) NUL) =
      Some (length pre + length (row_text body) + length (takeWhile c_isspace tail))"
    by (simp add: getNextTokenForInsertCommand_def Let_def split: prod.split)
qed

lemma array_insert_parts:
  assumes "single_row_insert cmd pre body tail" "countParamMarkers (Some (cmd @ [NUL])) SQL_NTS = Some n"
    "0 < n" "int n \<le> PADB_MAX_PARAMETERS" "getTotalMultiTuples (int n) a = (t, l)" "1 \<le> t"
  shows "array_insert cmd (length cmd) a =
    map_option (\<lambda>(m, b). Some (t, l, m, b))
      (multi_commands cmd (length cmd) (length pre) (length pre + length (row_text body) - 1) (nat t) (nat l))"
proof -
  obtain q where q: "findSQLClause cmd ''VALUES'' = Some q"
    using assms(1) by (auto simp: single_row_insert_def split: option.splits)
  note tok = insert_tokens [OF assms(1)]
  let ?p = "length pre + length (row_text body) + length (takeWhile c_isspace tail)"
  obtain e where e: "getNextTokenForInsertCommand cmd (length cmd) (length pre + length (row_text body)) NUL = (Some ?p, e)"
    using tok(4) by (metis prod.collapse)
  have "ch cmd ?p = NUL \<or> ch cmd ?p = CHR '';''"
  proof (cases "dropWhile c_isspace tail")
    case Nil
    then have "length (takeWhile c_isspace tail) = length tail" by (metis append_Nil2 takeWhile_dropWhile_id)
    moreover have "length cmd = length pre + length (row_text body) + length tail"
      using assms(1) unfolding single_row_insert_def by (metis add.assoc length_append)
    ultimately show ?thesis by (simp add: ch_def)
  next
    case (Cons c r)
    then have "drop ?p cmd = c # r" "c = CHR '';''"
      using assms(1) by (simp_all add: single_row_insert_def dropWhile_eq_drop)
    then show ?thesis using ch_drop by blast
  qed
  then show ?thesis
    using assms(2-6) tok(2) [OF q] tok(3) e q by (auto simp: array_insert_def map_option_case split: option.split)
qed

lemma rows_no_nul: "NUL \<notin> set tup \<Longrightarrow> NUL \<notin> set (rows k tup)"
  by (auto simp: rows_def chunks_def chunk_def)

lemma filled_text:
  assumes "NUL \<notin> set w"
  shows "c_text_of (filled w r) = w"
proof -
  have "takeWhile (\<lambda>c. c \<noteq> NUL) (w @ replicate r NUL) = w @ takeWhile (\<lambda>c. c \<noteq> NUL) (replicate r NUL)"
    using assms by (intro takeWhile_append2) auto
  moreover have "takeWhile (\<lambda>c. c \<noteq> NUL) (replicate r NUL) = []" by (cases r) simp_all
  ultimately show ?thesis by (simp add: c_text_of_def filled_def)
qed

lemma parse_array_insert:
  assumes "single_row_insert cmd pre body tail" "1 < a"
  shows "\<exists>st1. lArraySizeMultiInsert st1 = a \<and>
    parseForMultiInsertCommand True (Some a) same (Some cmd) SQL_NTS st =
      map_option
        (\<lambda>r. case r of
               None \<Rightarrow> (None, None, st1)
             | Some (t, l, m, b) \<Rightarrow>
                 (Some (c_text_of m), map_option c_text_of b, st1\<lparr>iMultiInsert := t, iLastBatchMultiInsert := l\<rparr>))
        (array_insert cmd (length cmd) a)"
proof -
  have kw: "nocase_eq (take 6 cmd) ''INSERT''" using assms(1) unfolding single_row_insert_def by blast
  show ?thesis
    using insert_tokens(1) [OF assms(1)] kw assms(2)
    by (intro exI conjI) (auto simp: parseForMultiInsertCommand_def Let_def)
qed

text \<open>
  Property C8. A single-row insert that is executed with an array is rewritten by repeating its row:
  the new command is the old one with the row once for each row of a batch, separated by commas, and
  the command of the last batch has the rows that remain; everything before and behind the row stays
  as it is. The statement records the sizes of both batches. (For a command that goes on behind its
  row, a last batch is excluded: that case is the next property.)
\<close>

theorem array_insert_repeats_row:
  assumes "single_row_insert cmd pre body tail" "countParamMarkers (Some (cmd @ [NUL])) SQL_NTS = Some n"
    and "0 < n" "int n \<le> PADB_MAX_PARAMETERS" "1 < a" "a < 2 ^ 31" "getTotalMultiTuples (int n) a = (t, l)"
    and "tail = [] \<or> l = 0"
  shows "\<exists>st'. parseForMultiInsertCommand True (Some a) same (Some cmd) SQL_NTS st =
      Some (Some (pre @ rows (nat t) (row_text body) @ tail),
        if l = 0 then None else Some (pre @ rows (nat l) (row_text body)), st') \<and>
    iMultiInsert st' = t \<and> iLastBatchMultiInsert st' = l \<and> lArraySizeMultiInsert st' = a"
proof -
  have c: "NUL \<notin> set cmd" "cmd = pre @ row_text body @ tail" using assms(1) unfolding single_row_insert_def by blast+
  have b: "1 \<le> t" "l = a mod t" using batch_sizes [of "int n" a t l] assms(3-7) by simp_all
  have "0 \<le> l" "l < t" using b by simp_all
  then have nt: "0 < nat t" "nat l \<le> nat t" "tail = [] \<or> nat l = 0" "nat l = 0 \<longleftrightarrow> l = 0" using b(1) assms(8) by auto
  have row: "row_text body \<noteq> []" "NUL \<notin> set (row_text body)" "NUL \<notin> set pre" "NUL \<notin> set tail"
    using c by (auto simp: row_text_def)
  obtain r rl where m: "multi_commands cmd (length cmd) (length pre) (length pre + length (row_text body) - 1) (nat t) (nat l) =
      Some (filled (pre @ rows (nat t) (row_text body) @ tail) r,
        if nat l = 0 then None else Some (filled (pre @ rows (nat l) (row_text body)) rl))"
    using multi_commands_ok [OF c(2) row(1) nt(1,3,2)] by blast
  have ai: "array_insert cmd (length cmd) a =
      Some (Some (t, l, filled (pre @ rows (nat t) (row_text body) @ tail) r,
        if nat l = 0 then None else Some (filled (pre @ rows (nat l) (row_text body)) rl)))"
    using array_insert_parts [OF assms(1-4,7) b(1)] m by simp
  have texts: "c_text_of (filled (pre @ rows (nat t) (row_text body) @ tail) r) = pre @ rows (nat t) (row_text body) @ tail"
    "c_text_of (filled (pre @ rows (nat l) (row_text body)) rl) = pre @ rows (nat l) (row_text body)"
    using row rows_no_nul [OF row(2)] by (intro filled_text; simp)+
  obtain st1 where "lArraySizeMultiInsert st1 = a"
    "parseForMultiInsertCommand True (Some a) same (Some cmd) SQL_NTS st =
      map_option
        (\<lambda>r. case r of
               None \<Rightarrow> (None, None, st1)
             | Some (t, l, m, b) \<Rightarrow>
                 (Some (c_text_of m), map_option c_text_of b, st1\<lparr>iMultiInsert := t, iLastBatchMultiInsert := l\<rparr>))
        (array_insert cmd (length cmd) a)"
    using parse_array_insert [OF assms(1,5)] by blast
  then show ?thesis unfolding ai using texts nt(4) by (intro exI [of _ "st1\<lparr>iMultiInsert := t, iLastBatchMultiInsert := l\<rparr>"]) simp
qed

text \<open>
  Property C10. When the command goes on behind its row, be it with a single blank or a semicolon, and
  the array needs a last batch that is at least two rows smaller than the others, the rewriting writes
  outside the buffer of the last command: what stands behind the row is copied to the place it has in
  the longer command.
\<close>

theorem last_batch_overruns_buffer:
  assumes "single_row_insert cmd pre body tail" "countParamMarkers (Some (cmd @ [NUL])) SQL_NTS = Some n"
    and "0 < n" "int n \<le> PADB_MAX_PARAMETERS" "1 < a" "a < 2 ^ 31" "getTotalMultiTuples (int n) a = (t, l)"
    and "tail \<noteq> []" "0 < l" "l + 2 \<le> t"
  shows "parseForMultiInsertCommand True (Some a) same (Some cmd) SQL_NTS st = None"
proof -
  have c: "cmd = pre @ row_text body @ tail" using assms(1) unfolding single_row_insert_def by blast
  have row: "row_text body \<noteq> []" by (simp add: row_text_def)
  have "1 \<le> t" "0 < nat l" "nat l + 2 \<le> nat t" using assms(9,10) by auto
  then have "array_insert cmd (length cmd) a = None"
    using array_insert_parts [OF assms(1-4,7)] multi_commands_overrun [OF c row _ _ assms(8)] by simp
  then show ?thesis using parse_array_insert [OF assms(1,5), of same st] by auto
qed

subsection \<open>Examples\<close>

lemma demo_insert: "single_row_insert ''INSERT INTO t VALUES (?)'' ''INSERT INTO t VALUES '' ''?'' []"
  "single_row_insert ''insert into t values (?);'' ''insert into t values '' ''?'' '';''"
  "countParamMarkers (Some (''INSERT INTO t VALUES (?)'' @ [NUL])) SQL_NTS = Some 1"
  "countParamMarkers (Some (''insert into t values (?);'' @ [NUL])) SQL_NTS = Some 1"
  by code_simp+

definition demo_state :: insert_info where
  "demo_state = \<lparr>iMultiInsert = 0, iLastBatchMultiInsert = 0, pszUserInsertCmd = None, lArraySizeMultiInsert = 0,
     pszLastBatchMultiInsertCmd = None\<rparr>"

theorem array_insert_repeats_row_witness:
  "\<exists>st'. parseForMultiInsertCommand True (Some 40000) False (Some ''INSERT INTO t VALUES (?)'') SQL_NTS demo_state =
      Some (Some (''INSERT INTO t VALUES '' @ rows (nat 32767) (row_text ''?'') @ []),
        if (7233::int) = 0 then None else Some (''INSERT INTO t VALUES '' @ rows (nat 7233) (row_text ''?'')), st') \<and>
    iMultiInsert st' = 32767 \<and> iLastBatchMultiInsert st' = 7233 \<and> lArraySizeMultiInsert st' = 40000"
  by (rule array_insert_repeats_row [OF demo_insert(1,3)])
    (simp_all add: PADB_MAX_PARAMETERS_def getTotalMultiTuples_def i64_def i32_def)

theorem last_batch_overruns_buffer_witness:
  "parseForMultiInsertCommand True (Some 40000) False (Some ''insert into t values (?);'') SQL_NTS demo_state = None"
  by (rule last_batch_overruns_buffer [OF demo_insert(2,4), where t = 32767 and l = 7233])
    (simp_all add: PADB_MAX_PARAMETERS_def getTotalMultiTuples_def i64_def i32_def)

end
