(* ===== verification/Rs_Cursor.thy ===== *)
theory Rs_Cursor
  imports Rs_Copy Csc_Scroll
begin

text \<open>
  The position in a result (\<^verbatim>\<open>rsresult.cpp\<close>): \<^verbatim>\<open>SQLFetchScroll\<close> and its
  kin over the rows in memory and, when the result was spilled, over the batches of the client-side
  cursor. \<^verbatim>\<open>iCurRow\<close> is the index of the row in memory (-1 before the first, the number of
  rows behind the last), \<^verbatim>\<open>iRowOffset\<close> the place of the first row in memory in the whole
  result. An operation that waits for the socket thread returns \<open>None\<close> where it blocks. Errors are
  the list of their SQLSTATEs, the last one first.

  What \<^verbatim>\<open>RS_SQLGetData\<close> does with a column is a parameter, and so is the read of the next
  batch of a streaming cursor: \<open>None\<close> stands for a statement that is not in streaming mode or
  whose stream has ended, otherwise it gives the new result and whether the socket failed.
\<close>

subsection \<open>Constants and state\<close>

definition SQL_NO_DATA :: int where "SQL_NO_DATA = 100"
definition SQL_FETCH_NEXT :: int where "SQL_FETCH_NEXT = 1"
definition SQL_FETCH_FIRST :: int where "SQL_FETCH_FIRST = 2"
definition SQL_FETCH_LAST :: int where "SQL_FETCH_LAST = 3"
definition SQL_FETCH_PRIOR :: int where "SQL_FETCH_PRIOR = 4"
definition SQL_FETCH_ABSOLUTE :: int where "SQL_FETCH_ABSOLUTE = 5"
definition SQL_FETCH_RELATIVE :: int where "SQL_FETCH_RELATIVE = 6"
definition SQL_FETCH_BOOKMARK :: int where "SQL_FETCH_BOOKMARK = 8"
definition SQL_RD_ON :: int where "SQL_RD_ON = 1"
definition SQL_CURSOR_FORWARD_ONLY :: int where "SQL_CURSOR_FORWARD_ONLY = 0"
definition SQL_SCROLLABLE :: int where "SQL_SCROLLABLE = 1"
definition SQL_BIND_BY_COLUMN :: int where "SQL_BIND_BY_COLUMN = 0"
definition SQL_ROW_SUCCESS :: int where "SQL_ROW_SUCCESS = 0"
definition SQL_ROW_NOROW :: int where "SQL_ROW_NOROW = 3"
definition SQL_ROW_ERROR :: int where "SQL_ROW_ERROR = 5"
definition SQL_POSITION :: int where "SQL_POSITION = 0"
definition SQL_LOCK_NO_CHANGE :: int where "SQL_LOCK_NO_CHANGE = 0"

record result_info =
  iNumberOfRowsInMem :: int
  iCurRow :: int
  iRowOffset :: int
  iPrevhCol :: int
  r_res :: pgres
  r_csc :: "csc option"

text \<open>
  The attributes of the statement and of its descriptors that a fetch looks at; the pointers of the
  application are addresses, 0 is the null pointer.
\<close>

record bound_col =
  hRecNumber :: int
  bc_value :: int
  bc_len_ind :: int
  bc_octet_ptr :: bool
  iOctetLen :: int

record fetch_attrs =
  iCursorType :: int
  iCursorScrollable :: int
  iMaxRows :: int
  iRetrieveData :: int
  ard_lArraySize :: int
  ard_lBindType :: int
  ard_bind_offset :: int
  ard_recs :: "bound_col list"
  ird_valid :: bool
  ird_rows_processed_ptr :: bool
  ird_array_status_ptr :: bool

definition isScrollableCursor :: "fetch_attrs \<Rightarrow> bool" where
  "isScrollableCursor st \<longleftrightarrow> iCursorType st \<noteq> SQL_CURSOR_FORWARD_ONLY \<and> iCursorScrollable st = SQL_SCROLLABLE"

definition has_file :: "result_info \<Rightarrow> bool" where
  "has_file r = pgIsFileCreatedCsc (Some (r_csc r))"

type_synonym fetch_step = "int \<times> string list \<times> result_info"

definition io_error :: "result_info \<Rightarrow> fetch_step" where
  "io_error r = (SQL_ERROR, [''24000''], r)"

subsection \<open>The first and the last batch\<close>

definition setFetchAtFirstRow :: "world \<Rightarrow> result_info \<Rightarrow> fetch_step option" where
  "setFetchAtFirstRow w r =
     (if 0 < iNumberOfRowsInMem r \<and> has_file r
      then map_option (\<lambda>(got, iCscError, c, res).
             let r1 = r\<lparr>r_res := res, r_csc := Some c\<rparr>;
                 r2 = (if got then r1\<lparr>iNumberOfRowsInMem := ntups res, iRowOffset := pgGetFirstRowIndexCsc (Some c),
                                     iCurRow := 0\<rparr> else r1)
             in if iCscError \<noteq> 0 then io_error r2 else (SQL_SUCCESS, [], r2))
           (pgReadFirstBatchOfRowsCsc w (the (r_csc r)) (r_res r))
      else Some (SQL_SUCCESS, [], r))"

definition setFetchAtLastRow :: "world \<Rightarrow> result_info \<Rightarrow> fetch_step option" where
  "setFetchAtLastRow w r =
     (if has_file r
      then map_option (\<lambda>(got, iCscError, c, res).
             let r1 = r\<lparr>r_res := res, r_csc := Some c\<rparr>;
                 r2 = (if got then r1\<lparr>iNumberOfRowsInMem := ntups res, iRowOffset := pgGetFirstRowIndexCsc (Some c),
                                     iCurRow := ntups res - 1\<rparr> else r1)
             in if iCscError \<noteq> 0 then io_error r2 else (SQL_SUCCESS, [], r2))
           (pgReadLastBatchOfRowsCsc w (the (r_csc r)) (r_res r))
      else Some (SQL_SUCCESS, [], r))"

text \<open>The common end of a move outside the result: the cursor goes to \<open>iCurRow\<close> unless the batch failed.\<close>

definition move_outside :: "(result_info \<Rightarrow> int) \<Rightarrow> fetch_step \<Rightarrow> fetch_step" where
  "move_outside to s =
     (case s of (rc, errs, r) \<Rightarrow> if rc = SQL_ERROR then s else (SQL_NO_DATA, errs, r\<lparr>iCurRow := to r\<rparr>))"

definition before_first :: "world \<Rightarrow> result_info \<Rightarrow> fetch_step option" where
  "before_first w r = map_option (move_outside (\<lambda>_. -1)) (setFetchAtFirstRow w r)"

definition after_last :: "world \<Rightarrow> result_info \<Rightarrow> fetch_step option" where
  "after_last w r = map_option (move_outside iNumberOfRowsInMem) (setFetchAtLastRow w r)"

subsection \<open>Absolute and relative positions\<close>

definition in_memory_index :: "world \<Rightarrow> int \<Rightarrow> result_info \<Rightarrow> fetch_step option" where
  "in_memory_index w iFetchOffset r =
     (if iFetchOffset < 0
      then (if - iNumberOfRowsInMem r \<le> iFetchOffset
            then Some (SQL_SUCCESS, [], r\<lparr>iCurRow := i32 (iNumberOfRowsInMem r + iFetchOffset)\<rparr>)
            else before_first w r)
      else (if iFetchOffset \<le> iNumberOfRowsInMem r
            then Some (SQL_SUCCESS, [], r\<lparr>iCurRow := i32 (iFetchOffset - 1)\<rparr>)
            else after_last w r))"

definition setAbsolute :: "world \<Rightarrow> result_info \<Rightarrow> int \<Rightarrow> fetch_step option" where
  "setAbsolute w r iFetchOffset =
     (if iFetchOffset = 0 then before_first w r
      else if has_file r
      then (case pgReadAbsoluteBatchOfRowsCsc w (the (r_csc r)) (r_res r) (Some (i32 iFetchOffset)) of
              None \<Rightarrow> None
            | Some (got, iCscError, c, res, iNewIndex) \<Rightarrow>
                (let r1 = r\<lparr>r_res := res, r_csc := Some c\<rparr>;
                     r2 = (if got then r1\<lparr>iNumberOfRowsInMem := ntups res, iRowOffset := pgGetFirstRowIndexCsc (Some c)\<rparr>
                           else r1)
                 in if iCscError \<noteq> 0 then Some (io_error r2) else in_memory_index w (the iNewIndex) r2))
      else in_memory_index w iFetchOffset r)"

definition isBeforeFirstRow :: "result_info \<Rightarrow> bool" where
  "isBeforeFirstRow r \<longleftrightarrow>
     (i32 (iRowOffset r + iCurRow r) < 0 \<and> 0 < iNumberOfRowsInMem r) \<and>
     (has_file r \<longrightarrow> pgIsFirstBatchCsc (Some (r_csc r)))"

definition isAfterLastRow :: "result_info \<Rightarrow> (bool \<times> result_info) option" where
  "isAfterLastRow r =
     (if iNumberOfRowsInMem r \<le> iCurRow r \<and> 0 < iNumberOfRowsInMem r
      then (if has_file r
            then map_option (\<lambda>(b, c). (b, r\<lparr>r_csc := Option.bind c (\<lambda>x. x)\<rparr>)) (pgIsLastBatchCsc (Some (r_csc r)))
            else Some (True, r))
      else Some (False, r))"

definition fetch_relative :: "world \<Rightarrow> int \<Rightarrow> result_info \<Rightarrow> fetch_step option" where
  "fetch_relative w iFetchOffset r =
     (if iFetchOffset = 0
      then (if iNumberOfRowsInMem r = 0 \<or> isBeforeFirstRow r then Some (SQL_NO_DATA, [], r)
            else map_option (\<lambda>(b, r1). (if b then SQL_NO_DATA else SQL_SUCCESS, [], r1)) (isAfterLastRow r))
      else (let index = i64 (iCurRow r + 1 + iFetchOffset);
                index' = (if has_file r then i64 (index + iRowOffset r) else index)
            in if index' < 0 then before_first w r else setAbsolute w r index'))"

subsection \<open>The next and the previous row\<close>

definition max_rows_reached :: "int \<Rightarrow> result_info \<Rightarrow> bool" where
  "max_rows_reached maxRows r \<longleftrightarrow> 0 < maxRows \<and> maxRows \<le> i32 (iCurRow r + iRowOffset r + 1)"

text \<open>Reading more rows when the rows in memory are used up.\<close>

definition read_more :: "(pgres \<Rightarrow> (pgres \<times> bool) option) \<Rightarrow> world \<Rightarrow> result_info \<Rightarrow> (bool \<times> result_info) option" where
  "read_more stream w r =
     (if has_file r
      then map_option (\<lambda>(got, iCscError, c, res).
             let r1 = r\<lparr>r_res := res, r_csc := Some c\<rparr>;
                 r2 = (if got then r1\<lparr>iRowOffset := i32 (iRowOffset r + iNumberOfRowsInMem r), iCurRow := -1,
                                     iNumberOfRowsInMem := ntups res\<rparr> else r1)
             in (iCscError \<noteq> 0, r2))
           (pgReadNextBatchOfRowsCsc w (the (r_csc r)) (r_res r))
      else (case stream (r_res r) of
              None \<Rightarrow> Some (False, r)
            | Some (res, iError) \<Rightarrow>
                (let r1 = r\<lparr>r_res := res, iNumberOfRowsInMem := ntups res\<rparr>;
                     r2 = (if 0 < ntups res then r1\<lparr>iRowOffset := i32 (iRowOffset r + iNumberOfRowsInMem r), iCurRow := -1\<rparr>
                           else r1)
                 in Some (iError, r2))))"

definition step_forward :: "int \<Rightarrow> int \<Rightarrow> result_info \<Rightarrow> fetch_step" where
  "step_forward maxRows rc r =
     (if -1 \<le> iCurRow r \<and> iCurRow r \<le> iNumberOfRowsInMem r - 1 \<and> \<not> max_rows_reached maxRows r
      then (let r1 = r\<lparr>iCurRow := iCurRow r + 1\<rparr>
            in (if iNumberOfRowsInMem r1 \<le> iCurRow r1 then SQL_NO_DATA else rc, [], r1))
      else (SQL_NO_DATA, [], r))"

definition fetch_next ::
  "(pgres \<Rightarrow> (pgres \<times> bool) option) \<Rightarrow> world \<Rightarrow> int \<Rightarrow> int \<Rightarrow> result_info \<Rightarrow> fetch_step option" where
  "fetch_next stream w maxRows rc r =
     map_option (\<lambda>(failed, r1). if failed then io_error r1 else step_forward maxRows rc r1)
       (if iNumberOfRowsInMem r \<le> iCurRow r + 1 \<and> \<not> max_rows_reached maxRows r
        then read_more stream w r else Some (False, r))"

definition fetch_prior :: "world \<Rightarrow> int \<Rightarrow> result_info \<Rightarrow> fetch_step" where
  "fetch_prior w rc r =
     (let (failed, r1) =
        (if iCurRow r - 1 < 0 \<and> has_file r
         then (case pgReadPreviousBatchOfRowsCsc w (the (r_csc r)) (r_res r) of (got, iCscError, c, res) \<Rightarrow>
                (let r1 = r\<lparr>r_res := res, r_csc := Some c\<rparr>
                 in (iCscError \<noteq> 0,
                     if got then r1\<lparr>iNumberOfRowsInMem := ntups res, iRowOffset := i32 (iRowOffset r - ntups res),
                                   iCurRow := ntups res\<rparr> else r1)))
         else (False, r))
      in if failed then io_error r1
         else if 0 \<le> iCurRow r1 \<and> iCurRow r1 \<le> iNumberOfRowsInMem r1
         then (if iCurRow r1 - 1 \<le> -1 then SQL_NO_DATA else rc, [], r1\<lparr>iCurRow := iCurRow r1 - 1\<rparr>)
         else (SQL_NO_DATA, [], r1))"

definition fetch_first :: "world \<Rightarrow> result_info \<Rightarrow> fetch_step option" where
  "fetch_first w r =
     (if 0 < iNumberOfRowsInMem r
      then map_option (\<lambda>(rc, errs, r1). if rc = SQL_ERROR then (rc, errs, r1) else (rc, errs, r1\<lparr>iCurRow := 0\<rparr>))
             (setFetchAtFirstRow w r)
      else Some (SQL_NO_DATA, [], r))"

definition fetch_last :: "world \<Rightarrow> int \<Rightarrow> result_info \<Rightarrow> fetch_step option" where
  "fetch_last w maxRows r =
     (if 0 < iNumberOfRowsInMem r
      then map_option (\<lambda>(rc, errs, r1).
             if rc = SQL_ERROR then (rc, errs, r1)
             else (rc, errs, r1\<lparr>iCurRow :=
                    (if 0 < maxRows \<and> maxRows < i32 (iRowOffset r1 + iNumberOfRowsInMem r1)
                     then (if iRowOffset r1 < maxRows then maxRows - iRowOffset r1 - 1 else 0)
                     else iNumberOfRowsInMem r1 - 1)\<rparr>))
             (setFetchAtLastRow w r)
      else Some (SQL_NO_DATA, [], r))"

subsection \<open>The rows of a rowset\<close>

text \<open>
  The switch of \<^verbatim>\<open>RS_SQLFetchScroll\<close>; \<open>rc\<close> is the return code of the rows so far, and the
  last component the orientation of the next row.
\<close>

definition positioned :: "bool \<Rightarrow> int \<Rightarrow> fetch_step \<Rightarrow> fetch_step \<times> int" where
  "positioned iBlockCursor orientation s = (s, if iBlockCursor then SQL_FETCH_NEXT else orientation)"

definition positioned_ok :: "bool \<Rightarrow> int \<Rightarrow> fetch_step \<Rightarrow> fetch_step \<times> int" where
  "positioned_ok iBlockCursor orientation s =
     (s, if iBlockCursor \<and> fst s = SQL_SUCCESS then SQL_FETCH_NEXT else orientation)"

definition fetch_position ::
  "(pgres \<Rightarrow> (pgres \<times> bool) option) \<Rightarrow> world \<Rightarrow> int \<Rightarrow> bool \<Rightarrow> int \<Rightarrow> int \<Rightarrow> int \<Rightarrow> result_info \<Rightarrow>
   (fetch_step \<times> int) option" where
  "fetch_position stream w maxRows iBlockCursor orientation iFetchOffset rc r =
     (if orientation = SQL_FETCH_NEXT then map_option (\<lambda>s. (s, orientation)) (fetch_next stream w maxRows rc r)
      else if orientation = SQL_FETCH_PRIOR then Some (fetch_prior w rc r, orientation)
      else if orientation = SQL_FETCH_FIRST then
        map_option (if 0 < iNumberOfRowsInMem r then positioned iBlockCursor orientation else (\<lambda>s. (s, orientation)))
          (fetch_first w r)
      else if orientation = SQL_FETCH_LAST then
        map_option (if 0 < iNumberOfRowsInMem r then positioned iBlockCursor orientation else (\<lambda>s. (s, orientation)))
          (fetch_last w maxRows r)
      else if orientation = SQL_FETCH_ABSOLUTE then
        map_option (positioned_ok iBlockCursor orientation) (setAbsolute w r iFetchOffset)
      else if orientation = SQL_FETCH_RELATIVE then
        map_option (positioned_ok iBlockCursor orientation) (fetch_relative w iFetchOffset r)
      else if orientation = SQL_FETCH_BOOKMARK then Some ((SQL_ERROR, [''HYC00''], r), orientation)
      else Some ((SQL_ERROR, [''HY106''], r), orientation))"

text \<open>
  Where the value and the length of a bound column go: \<open>None\<close> when the element length of an
  array is zero.
\<close>

definition column_target :: "fetch_attrs \<Rightarrow> bool \<Rightarrow> int \<Rightarrow> bound_col \<Rightarrow> (int \<times> int) option" where
  "column_target st iBlockCursor row col =
     (let byCol = (\<not> iBlockCursor \<or> ard_lBindType st = SQL_BIND_BY_COLUMN);
          iValOffset = (if \<not> iBlockCursor then 0
                        else if ard_lBindType st = SQL_BIND_BY_COLUMN then iOctetLen col else ard_lBindType st);
          ind = (if bc_len_ind col = 0 then 0
                 else if byCol \<or> bc_octet_ptr col then bc_len_ind col + 8 * row
                 else bc_len_ind col + iValOffset * row)
      in if iBlockCursor \<and> ard_lBindType st = SQL_BIND_BY_COLUMN \<and> iOctetLen col = 0 then None
         else Some (bc_value col + row * iValOffset + ard_bind_offset st,
                    if ind = 0 then 0 else ind + ard_bind_offset st))"

text \<open>
  The loop over the bound columns of one row; \<open>getData\<close> is the call of
  \<^verbatim>\<open>RS_SQLGetData\<close>. The second component says that the call gives up at once.
\<close>

fun bind_columns ::
  "(result_info \<Rightarrow> bound_col \<Rightarrow> int \<times> int \<Rightarrow> int) \<Rightarrow> fetch_attrs \<Rightarrow> bool \<Rightarrow> int \<Rightarrow> result_info \<Rightarrow> bound_col list \<Rightarrow>
   int \<times> bool" where
  "bind_columns getData st iBlockCursor row r [] = (SQL_SUCCESS, False)"
| "bind_columns getData st iBlockCursor row r (col # cols) =
     (case column_target st iBlockCursor row col of
        None \<Rightarrow> (SQL_ERROR, True)
      | Some tgt \<Rightarrow>
          if getData r col tgt = SQL_ERROR then (SQL_ERROR, False)
          else bind_columns getData st iBlockCursor row r cols)"

text \<open>
  What the application sees of a rowset: the number of rows processed, the row statuses, each with
  its place, and the rows whose columns were handed out, the last one first.
\<close>

record rowset =
  rs_processed :: "int option"
  rs_status :: "(int \<times> int) list"
  rs_rows :: "row option list"

definition current_row :: "result_info \<Rightarrow> row option" where
  "current_row r = (case tuples (r_res r) of None \<Rightarrow> None | Some ts \<Rightarrow> ts ! nat (iCurRow r))"

definition put_status :: "fetch_attrs \<Rightarrow> int \<Rightarrow> int \<Rightarrow> rowset \<Rightarrow> rowset" where
  "put_status st row status out =
     (if ird_valid st \<and> ird_array_status_ptr st then out\<lparr>rs_status := (row, status) # rs_status out\<rparr> else out)"

definition put_processed :: "fetch_attrs \<Rightarrow> int \<Rightarrow> rowset \<Rightarrow> rowset" where
  "put_processed st row out =
     (if ird_valid st \<and> ird_rows_processed_ptr st then out\<lparr>rs_processed := Some (row + 1)\<rparr> else out)"

type_synonym fetch_result = "int \<times> string list \<times> rowset \<times> result_info"

definition no_more_rows :: "int \<Rightarrow> int \<Rightarrow> int" where
  "no_more_rows rc lRowFetched = (if rc = SQL_NO_DATA \<and> 0 < lRowFetched then SQL_SUCCESS else rc)"

text \<open>The loop over the rows of the rowset, from row \<open>i\<close>, with \<open>n\<close> rows to go.\<close>

fun fetch_rows ::
  "(result_info \<Rightarrow> bound_col \<Rightarrow> int \<times> int \<Rightarrow> int) \<Rightarrow> (pgres \<Rightarrow> (pgres \<times> bool) option) \<Rightarrow> world \<Rightarrow> fetch_attrs \<Rightarrow> bool \<Rightarrow>
   nat \<Rightarrow> int \<Rightarrow> int \<Rightarrow> int \<Rightarrow> int \<Rightarrow> rowset \<Rightarrow> result_info \<Rightarrow> fetch_result option" where
  "fetch_rows getData stream w st iBlockCursor 0 i orientation iFetchOffset rc out r =
     Some (no_more_rows rc i, [], out, r)"
| "fetch_rows getData stream w st iBlockCursor (Suc n) i orientation iFetchOffset rc out r =
     (case fetch_position stream w (iMaxRows st) iBlockCursor orientation iFetchOffset rc r of
        None \<Rightarrow> None
      | Some ((rc1, errs, r1), orientation') \<Rightarrow>
          if errs \<noteq> [] then Some (rc1, errs, out, r1)
          else if rc1 = SQL_SUCCESS
          then (if iRetrieveData st = SQL_RD_ON
                then (case bind_columns getData st iBlockCursor i r1 (ard_recs st) of
                        (rc2, gaveUp) \<Rightarrow>
                          if gaveUp then Some (SQL_ERROR, [''HY000''], out, r1)
                          else fetch_rows getData stream w st iBlockCursor n (i + 1) orientation' iFetchOffset rc2
                                 (put_status st i (if rc2 = SQL_SUCCESS then SQL_ROW_SUCCESS else SQL_ROW_ERROR)
                                   (put_processed st i
                                     (if rc2 = SQL_SUCCESS then out\<lparr>rs_rows := current_row r1 # rs_rows out\<rparr> else out)))
                                 r1)
                else fetch_rows getData stream w st iBlockCursor n (i + 1) orientation' iFetchOffset rc1 out r1)
          else Some (no_more_rows rc1 i, [],
                 if rc1 = SQL_NO_DATA \<and> iRetrieveData st = SQL_RD_ON then put_status st i SQL_ROW_NOROW out else out, r1))"

definition RS_SQLFetchScroll ::
  "(result_info \<Rightarrow> bound_col \<Rightarrow> int \<times> int \<Rightarrow> int) \<Rightarrow> (pgres \<Rightarrow> (pgres \<times> bool) option) \<Rightarrow> world \<Rightarrow> fetch_attrs \<Rightarrow>
   int \<Rightarrow> int \<Rightarrow> rowset \<Rightarrow> result_info option \<Rightarrow> (int \<times> string list \<times> rowset \<times> result_info option) option" where
  "RS_SQLFetchScroll getData stream w st hFetchOrientation iFetchOffset out pResult =
     (if \<not> isScrollableCursor st \<and> hFetchOrientation \<noteq> SQL_FETCH_NEXT then Some (SQL_ERROR, [''HY106''], out, pResult)
      else (case pResult of
              None \<Rightarrow> Some (SQL_ERROR, [''24000''], out, None)
            | Some r \<Rightarrow>
                (let lRowsToFetch = (if ard_lArraySize st \<le> 0 then 1 else ard_lArraySize st)
                 in map_option (\<lambda>(rc, errs, out1, r1). (rc, errs, out1, Some r1))
                      (fetch_rows getData stream w st (1 < lRowsToFetch) (nat lRowsToFetch) 0 hFetchOrientation iFetchOffset
                         SQL_SUCCESS out (r\<lparr>iPrevhCol := 0\<rparr>)))))"

subsection \<open>Positioning inside the rowset, and the number of rows\<close>

definition SQLSetPos :: "fetch_attrs \<Rightarrow> int \<Rightarrow> int \<Rightarrow> int \<Rightarrow> result_info option \<Rightarrow> int \<times> string list \<times> result_info option" where
  "SQLSetPos st iRow hOperation hLockType pResult =
     (if hOperation \<noteq> SQL_POSITION then (SQL_ERROR, [''HYC00''], pResult)
      else if hLockType \<noteq> SQL_LOCK_NO_CHANGE then (SQL_ERROR, [''HYC00''], pResult)
      else if \<not> isScrollableCursor st then (SQL_ERROR, [''HY106''], pResult)
      else (case pResult of
              None \<Rightarrow> (SQL_ERROR, [''24000''], None)
            | Some r \<Rightarrow>
                if 0 < iRow \<and> iRow \<le> iNumberOfRowsInMem r
                then (SQL_SUCCESS, [], Some (r\<lparr>iCurRow := i32 (iRow - 1)\<rparr>))
                else (SQL_ERROR, [''HY107''], pResult)))"

end
