(* ===== verification/Rs_Cursor_Promises.thy ===== *)
theory Rs_Cursor_Promises
  imports Rs_Cursor Csc_Promises
begin

text \<open>
  What fetching promises: a result in memory and a result spilled to the files of the client-side
  cursor both behave like one cursor over the list of their rows, whatever batch is in memory.
\<close>

subsection \<open>The rows of a result and the position in it\<close>

definition pos :: "result_info \<Rightarrow> int" where
  "pos r = iRowOffset r + iCurRow r + 1"

definition in_memory :: "result_info \<Rightarrow> row option list \<Rightarrow> bool" where
  "in_memory r ts \<longleftrightarrow> \<not> has_file r \<and> int (length ts) < 2 ^ 30 \<and> iNumberOfRowsInMem r = int (length ts) \<and>
     iRowOffset r = 0 \<and> (ts \<noteq> [] \<longrightarrow> tuples (r_res r) = Some ts) \<and> -1 \<le> iCurRow r \<and> iCurRow r \<le> int (length ts)"

definition spilled :: "world \<Rightarrow> result_info \<Rightarrow> csc \<Rightarrow> row list \<Rightarrow> nat \<Rightarrow> nat \<Rightarrow> bool" where
  "spilled w r c rs a b \<longleftrightarrow> r_csc r = Some c \<and> window w c rs a b \<and> a \<le> b \<and>
     tuples (r_res r) = Some (seg rs (a - 1) (Suc b - a)) \<and> iNumberOfRowsInMem r = int (Suc b - a) \<and>
     iRowOffset r = int (a - 1) \<and> -1 \<le> iCurRow r \<and> iCurRow r \<le> int (Suc b - a) \<and>
     (iCurRow r = -1 \<longrightarrow> a = 1) \<and> (iCurRow r = int (Suc b - a) \<longrightarrow> b = length rs)"

text \<open>\<open>shows_rows w r ts\<close>: the result has the rows \<open>ts\<close>.\<close>

definition shows_rows :: "world \<Rightarrow> result_info \<Rightarrow> row option list \<Rightarrow> bool" where
  "shows_rows w r ts \<longleftrightarrow> in_memory r ts \<or> (\<exists>c rs a b. spilled w r c rs a b \<and> ts = map (Some \<circ> norm_row) rs)"

text \<open>The position of an abstract cursor: 0 before the first row, \<open>N + 1\<close> behind the last.\<close>

definition clip :: "int \<Rightarrow> int \<Rightarrow> int" where
  "clip N p = max 0 (min p (N + 1))"

definition move_cursor :: "int \<Rightarrow> int \<Rightarrow> int \<Rightarrow> int \<Rightarrow> int" where
  "move_cursor N orientation k p =
     (if orientation = SQL_FETCH_NEXT then clip N (p + 1)
      else if orientation = SQL_FETCH_PRIOR then clip N (p - 1)
      else if orientation = SQL_FETCH_FIRST then (if N = 0 then p else 1)
      else if orientation = SQL_FETCH_LAST then (if N = 0 then p else N)
      else if orientation = SQL_FETCH_ABSOLUTE then clip N (if k < 0 then N + 1 + k else k)
      else clip N (p + k))"

definition found :: "int \<Rightarrow> int \<Rightarrow> int" where
  "found N p = (if 1 \<le> p \<and> p \<le> N then SQL_SUCCESS else SQL_NO_DATA)"

text \<open>A step that ends at a position.\<close>

definition arrives :: "world \<Rightarrow> row option list \<Rightarrow> int \<Rightarrow> fetch_step option \<Rightarrow> bool" where
  "arrives w ts p s \<longleftrightarrow> (\<exists>r. s = Some (found (int (length ts)) p, [], r) \<and> shows_rows w r ts \<and> pos r = p)"

lemma codes [simp]: "SQL_SUCCESS \<noteq> SQL_ERROR" "SQL_NO_DATA \<noteq> SQL_ERROR" "SQL_SUCCESS \<noteq> SQL_NO_DATA"
  "SQL_NO_DATA \<noteq> SQL_SUCCESS" "SQL_ERROR \<noteq> SQL_SUCCESS" "SQL_ERROR \<noteq> SQL_NO_DATA"
  by (simp_all add: SQL_SUCCESS_def SQL_ERROR_def SQL_NO_DATA_def)

lemma spilledD:
  assumes "spilled w r c rs a b"
  shows "r_csc r = Some c" "window w c rs a b" "a \<le> b" "1 \<le> a" "b \<le> length rs"
    "tuples (r_res r) = Some (seg rs (a - 1) (Suc b - a))" "iNumberOfRowsInMem r = int (Suc b - a)"
    "iRowOffset r = int (a - 1)" "-1 \<le> iCurRow r" "iCurRow r \<le> int (Suc b - a)" "has_file r"
    "iCurRow r = -1 \<Longrightarrow> a = 1" "iCurRow r = int (Suc b - a) \<Longrightarrow> b = length rs" "length rs \<le> 2 ^ 28"
  using assms windowD [of w c rs a b] storedD(2) [of w c rs]
  by (auto simp: spilled_def has_file_def pgIsFileCreatedCsc_def stored_def)

lemma csc_same: "r_csc r = Some c \<Longrightarrow> r\<lparr>r_csc := Some c\<rparr> = r"
  by (cases r) simp

lemma spilled_shows: "spilled w r c rs a b \<Longrightarrow> ts = map (Some \<circ> norm_row) rs \<Longrightarrow> shows_rows w r ts"
  by (auto simp: shows_rows_def)

lemma spilled_pos: "spilled w r c rs a b \<Longrightarrow> pos r = int a + iCurRow r"
  using spilledD(4,8) [of w r c rs a b] by (simp add: pos_def)

lemma spilled_move:
  "spilled w r c rs a b \<Longrightarrow> 0 \<le> i \<Longrightarrow> i < int (Suc b - a) \<Longrightarrow> spilled w (r\<lparr>iCurRow := i\<rparr>) c rs a b"
  by (auto simp: spilled_def)

lemma spilled_csc: "spilled w r c rs a b \<Longrightarrow> window w c' rs a b \<Longrightarrow> spilled w (r\<lparr>r_csc := Some c'\<rparr>) c' rs a b"
  by (cases r) (simp only: spilled_def result_info.simps, blast)

lemma spilled_ends:
  "spilled w r c rs a b \<Longrightarrow> a = 1 \<Longrightarrow> spilled w (r\<lparr>iCurRow := -1\<rparr>) c rs a b"
  "spilled w r c rs a b \<Longrightarrow> b = length rs \<Longrightarrow> spilled w (r\<lparr>iCurRow := int (Suc b - a)\<rparr>) c rs a b"
  by (auto simp: spilled_def)

lemma in_memory_move:
  "in_memory r ts \<Longrightarrow> -1 \<le> i \<Longrightarrow> i \<le> int (length ts) \<Longrightarrow> in_memory (r\<lparr>iCurRow := i\<rparr>) ts"
  by (auto simp: in_memory_def has_file_def)

lemma shows_cases:
  assumes "shows_rows w r ts"
  obtains (mem) "in_memory r ts"
    | (disk) c rs a b where "spilled w r c rs a b" "ts = map (Some \<circ> norm_row) rs" "length ts = length rs"
  using assms by (auto simp: shows_rows_def)

lemma pos_range:
  assumes "shows_rows w r ts"
  shows "0 \<le> pos r" "pos r \<le> int (length ts) + 1" "int (length ts) < 2 ^ 30"
proof (atomize (full), cases rule: shows_cases [OF assms])
  case 1
  then show "0 \<le> pos r \<and> pos r \<le> int (length ts) + 1 \<and> int (length ts) < 2 ^ 30" by (auto simp: in_memory_def pos_def)
next
  case (2 c rs a b)
  note D = spilledD [OF 2(1)]
  have "int (length rs) \<le> 2 ^ 28" using D(14) by (metis of_nat_le_iff of_nat_numeral of_nat_power)
  moreover have "int a + iCurRow r \<le> int (length rs) + 1" "0 \<le> int a + iCurRow r" using D(3,4,5,9,10) by linarith+
  ultimately show "0 \<le> pos r \<and> pos r \<le> int (length ts) + 1 \<and> int (length ts) < 2 ^ 30"
    using spilled_pos [OF 2(1)] 2(3) by simp
qed

text \<open>The row at the position.\<close>

lemma current_row_shown:
  assumes "shows_rows w r ts" "1 \<le> pos r" "pos r \<le> int (length ts)"
  shows "current_row r = ts ! nat (pos r - 1)"
proof (cases "in_memory r ts")
  case True
  then show ?thesis using assms by (auto simp: current_row_def in_memory_def pos_def)
next
  case False
  then obtain c rs a b where s: "spilled w r c rs a b" "ts = map (Some \<circ> norm_row) rs"
    using assms(1) by (auto simp: shows_rows_def)
  note D = spilledD [OF s(1)]
  have i: "0 \<le> iCurRow r" "iCurRow r < int (Suc b - a)"
    using assms(2,3) D(4,9,10,12,13) spilled_pos [OF s(1)] s(2) by force+
  have n: "nat (pos r - 1) = (a - 1) + nat (iCurRow r)" using spilled_pos [OF s(1)] i(1) D(4) by (simp add: nat_add_distrib)
  have "a - 1 + nat (iCurRow r) < length rs" using i D(3-5) by linarith
  moreover have "nat (iCurRow r) < Suc b - a" using i by linarith
  ultimately show ?thesis using D(4,5,6) i n s(2) by (simp add: current_row_def seg_def)
qed

subsection \<open>One step\<close>

lemma no_max_rows [simp]: "\<not> max_rows_reached 0 r"
  by (simp add: max_rows_reached_def)

text \<open>At the end of the stored rows the next batch leaves the result as it is.\<close>

lemma pg_next_end:
  assumes "window w c rs a b" "b = length rs"
  shows "\<exists>c'. pgReadNextBatchOfRowsCsc w c res = Some (False, 0, c', res) \<and> window w c' rs a b"
proof -
  note D = windowD [OF assms(1)] and st = storedD [OF windowD(1) [OF assms(1)]]
  obtain c1 s where c1: "checkAndOpenInputStreamCsc w c True = (0, c1)" "opened c c1"
    "m_cscInputStream c1 = Some s" "stored w c1 rs"
    using checkAndOpen_ok [OF assms(1), of True] by auto
  note sel = opened_sel [OF c1(2)] and sel' = rd_frame_sel [OF opened_sel(6) [OF c1(2)]] and st1 = storedD [OF c1(4)]
  obtain j c' res' where r: "pgReadNextBatchOfRowsCsc w c res = Some (b < length rs, 0, c', res')"
    "window w c' rs (if b < length rs then b + 1 else a) (b + j)" "b + j \<le> length rs"
    using pg_next_ok [OF assms(1)] by blast
  have "at_last_row (c1\<lparr>m_ioe := 0, m_inMemoryResultSizeFromFile := 0\<rparr>)"
    using st1 sel sel' D(3) assms(2) by (simp add: at_last_row_def isFullResultReadFromServerCsc_def)
  then have "until_threshold w (c1\<lparr>m_ioe := 0, m_inMemoryResultSizeFromFile := 0\<rparr>) res True False [] cap =
      Some (c1\<lparr>m_ioe := 0, m_inMemoryResultSizeFromFile := 0\<rparr>, res, [], cap)" for cap
    by (subst until_threshold.simps) simp
  then have "\<exists>c''. readNextBatchOfRowsCsc w c res = Some (Some [], c'', res)"
    using st1 c1(1,3) sel sel' D(3) assms(2) st
    by (simp add: readNextBatchOfRowsCsc_def readNextBatchOfRowsUntilThresholdCsc_def Let_def)
  then have "res' = res" using r(1) by (auto simp: pgReadNextBatchOfRowsCsc_def put_batch_def)
  then show ?thesis using r assms(2) by auto
qed

lemma next_arrives:
  assumes "shows_rows w r ts" "\<forall>res. stream res = None"
  shows "arrives w ts (clip (int (length ts)) (pos r + 1)) (fetch_next stream w 0 SQL_SUCCESS r)"
proof (cases rule: shows_cases [OF assms(1)])
  case 1
  then have d: "\<not> has_file r" "iNumberOfRowsInMem r = int (length ts)" "iRowOffset r = 0" "-1 \<le> iCurRow r"
    "iCurRow r \<le> int (length ts)" by (simp_all add: in_memory_def)
  have "fetch_next stream w 0 SQL_SUCCESS r = Some (step_forward 0 SQL_SUCCESS r)"
    using d(1) assms(2) by (auto simp: fetch_next_def read_more_def)
  moreover have "shows_rows w (r\<lparr>iCurRow := iCurRow r + 1\<rparr>) ts" if "iCurRow r \<le> int (length ts) - 1"
    using in_memory_move [OF 1, of "iCurRow r + 1"] d that by (simp add: shows_rows_def)
  ultimately show ?thesis
    using assms(1) d by (auto simp: arrives_def step_forward_def found_def clip_def pos_def Let_def)
next
  case (2 c rs a b)
  note D = spilledD [OF 2(1)] and N = 2(3)
  have step: "arrives w ts (clip (int (length ts)) (pos r' + 1)) (Some (step_forward 0 SQL_SUCCESS r'))"
    if s: "spilled w r' c' rs a' b'" and j: "iCurRow r' + 1 < int (Suc b' - a') \<or> b' = length rs" for r' c' a' b'
  proof -
    note D' = spilledD [OF s]
    show ?thesis
    proof (cases "iCurRow r' + 1 < int (Suc b' - a')")
      case True
      then have "spilled w (r'\<lparr>iCurRow := iCurRow r' + 1\<rparr>) c' rs a' b'" using spilled_move [OF s] D'(9) by simp
      from spilled_shows [OF this 2(2)] show ?thesis
        using True D' spilled_pos [OF s] N by (auto simp: arrives_def step_forward_def found_def clip_def pos_def)
    next
      case False
      then have b: "b' = length rs" using j by blast
      let ?n = "int (Suc b' - a')"
      have n: "?n = int (length rs) + 1 - int a'" "pos r' = int a' + iCurRow r'" using D'(3) b spilled_pos [OF s] by simp_all
      consider (last) "iCurRow r' = ?n - 1" | (behind) "iCurRow r' = ?n" using False D'(10) by linarith
      then show ?thesis
      proof cases
        case last
        then have "step_forward 0 SQL_SUCCESS r' = (SQL_NO_DATA, [], r'\<lparr>iCurRow := ?n\<rparr>)"
          using D'(7,9) by (simp add: step_forward_def Let_def)
        moreover have "pos (r'\<lparr>iCurRow := ?n\<rparr>) = int (length rs) + 1" using n(1) D'(4,8) by (simp add: pos_def)
        ultimately show ?thesis
          using spilled_shows [OF spilled_ends(2) [OF s b] 2(2)] n last N by (simp add: arrives_def found_def clip_def)
      next
        case behind
        then have "step_forward 0 SQL_SUCCESS r' = (SQL_NO_DATA, [], r')" using D'(7) by (simp add: step_forward_def)
        then show ?thesis using spilled_shows [OF s 2(2)] n behind N by (simp add: arrives_def found_def clip_def)
      qed
    qed
  qed
  show ?thesis
  proof (cases "iNumberOfRowsInMem r \<le> iCurRow r + 1")
    case False
    then show ?thesis using step [OF 2(1)] D(7) by (simp add: fetch_next_def)
  next
    case True
    show ?thesis
    proof (cases "b = length rs")
      case True
      obtain c' where c': "pgReadNextBatchOfRowsCsc w c (r_res r) = Some (False, 0, c', r_res r)" "window w c' rs a b"
        using pg_next_end [OF D(2) True] by blast
      let ?r = "r\<lparr>r_csc := Some c'\<rparr>"
      note s' = spilled_csc [OF 2(1) c'(2)]
      have "fetch_next stream w 0 SQL_SUCCESS r = Some (step_forward 0 SQL_SUCCESS ?r)"
        using c'(1) D(1,7,11) \<open>iNumberOfRowsInMem r \<le> iCurRow r + 1\<close> by (simp add: fetch_next_def read_more_def)
      moreover have "pos ?r = pos r" by (simp add: pos_def)
      ultimately show ?thesis using step [OF s'] True by simp
    next
      case False
      then have b: "b < length rs" using D(5) by simp
      have i: "iCurRow r + 1 = int (Suc b - a)" using True D(7,10,13) False by force
      obtain j c' res' where n: "pgReadNextBatchOfRowsCsc w c (r_res r) = Some (True, 0, c', res')"
        "0 < j" "tuples res' = Some (seg rs b j)" "ntups res' = int j" "window w c' rs (b + 1) (b + j)"
        using pg_next_ok [OF D(2), of "r_res r"] b by auto
      have off: "i32 (iRowOffset r + iNumberOfRowsInMem r) = int b"
        using D(3,4,5,7,8,14) by (subst i32_id) (simp_all add: of_nat_diff)
      let ?r = "r\<lparr>r_res := res', r_csc := Some c', iRowOffset := int b, iCurRow := 0, iNumberOfRowsInMem := int j\<rparr>"
      have s': "spilled w ?r c' rs (b + 1) (b + j)" using n by (simp add: spilled_def)
      have "fetch_next stream w 0 SQL_SUCCESS r = Some (SQL_SUCCESS, [], ?r)"
        using n D(1,11) True off by (simp add: fetch_next_def read_more_def step_forward_def Let_def)
      moreover have "pos r = int b" using spilled_pos [OF 2(1)] i D(3) by (simp add: of_nat_diff)
      ultimately show ?thesis
        using spilled_shows [OF s' 2(2)] b N by (auto simp: arrives_def found_def clip_def pos_def)
    qed
  qed
qed

lemma prior_arrives:
  assumes "shows_rows w r ts"
  shows "arrives w ts (clip (int (length ts)) (pos r - 1)) (Some (fetch_prior w SQL_SUCCESS r))"
proof (cases rule: shows_cases [OF assms])
  case 1
  then have d: "\<not> has_file r" "iNumberOfRowsInMem r = int (length ts)" "iRowOffset r = 0" "-1 \<le> iCurRow r"
    "iCurRow r \<le> int (length ts)" by (simp_all add: in_memory_def)
  have "shows_rows w (r\<lparr>iCurRow := iCurRow r - 1\<rparr>) ts" if "0 \<le> iCurRow r"
    using in_memory_move [OF 1, of "iCurRow r - 1"] d that by (simp add: shows_rows_def)
  then show ?thesis
    using assms d by (auto simp: arrives_def fetch_prior_def found_def clip_def pos_def Let_def)
next
  case (2 c rs a b)
  note D = spilledD [OF 2(1)] and N = 2(3) and p = spilled_pos [OF 2(1)]
  show ?thesis
  proof (cases "iCurRow r - 1 < 0")
    case False
    then have "spilled w (r\<lparr>iCurRow := iCurRow r - 1\<rparr>) c rs a b" using spilled_move [OF 2(1)] D(10) by simp
    from spilled_shows [OF this 2(2)] show ?thesis
      using False D p N by (auto simp: arrives_def fetch_prior_def found_def clip_def pos_def)
  next
    case low: True
    show ?thesis
    proof (cases "1 < a")
      case False
      then have "a = 1" using D(4) by simp
      then have call: "pgReadPreviousBatchOfRowsCsc w c (r_res r) = (False, 0, c, r_res r)"
        using pg_previous_ok [OF D(2), of "r_res r"] by simp
      have "iCurRow r = 0 \<or> iCurRow r = -1" using low D(9) by linarith
      then show ?thesis
        using call D p N \<open>a = 1\<close> spilled_shows [OF spilled_ends(1) [OF 2(1)] 2(2)] spilled_shows [OF 2(1,2)]
        by (auto simp: csc_same [OF D(1)] arrives_def fetch_prior_def found_def clip_def pos_def Let_def)
    next
      case True
      then have i: "iCurRow r = 0" using low D(9,12) by force
      obtain m c' res' where n: "pgReadPreviousBatchOfRowsCsc w c (r_res r) = (True, 0, c', res')"
        "1 \<le> m" "m < a" "tuples res' = Some (seg rs (m - 1) (a - m))" "ntups res' = int (a - m)" "window w c' rs m (a - 1)"
        using pg_previous_ok [OF D(2), of "r_res r"] True by auto
      have off: "i32 (iRowOffset r - int (a - m)) = int (m - 1)"
        using n(2,3) D(3,4,5,8,14) by (subst i32_id) (simp_all add: of_nat_diff)
      let ?r = "r\<lparr>r_res := res', r_csc := Some c', iNumberOfRowsInMem := int (a - m), iRowOffset := int (m - 1),
        iCurRow := int (a - m) - 1\<rparr>"
      have "Suc (a - 1) - m = a - m" using True by simp
      then have s': "spilled w ?r c' rs m (a - 1)" using n(2-6) by (simp add: spilled_def)
      have "fetch_prior w SQL_SUCCESS r = (SQL_SUCCESS, [], ?r)"
        using n(1,3,5) D(1,11) i off by (simp add: fetch_prior_def Let_def of_nat_diff)
      then show ?thesis
        using spilled_shows [OF s' 2(2)] i p D(3,4,5) n(2,3) N True
        by (auto simp: arrives_def found_def clip_def pos_def of_nat_diff)
    qed
  qed
qed

text \<open>The first and the last batch, and the positions outside the result.\<close>

lemma first_batch_shown:
  assumes "spilled w r c rs a b"
  shows "\<exists>r' c' b'. setFetchAtFirstRow w r = Some (SQL_SUCCESS, [], r') \<and> spilled w r' c' rs 1 b'"
proof -
  note D = spilledD [OF assms]
  have n: "0 < iNumberOfRowsInMem r" using D(3,7) by simp
  show ?thesis
  proof (cases "1 < a")
    case False
    then have a: "a = 1" using D(4) by simp
    then have "pgReadFirstBatchOfRowsCsc w c (r_res r) = Some (False, 0, c, r_res r)"
      using pg_first_ok [OF D(2), of "r_res r"] by simp
    then show ?thesis using n D(1,11) assms a by (auto simp: csc_same [OF D(1)] setFetchAtFirstRow_def Let_def)
  next
    case True
    obtain j c' res' where j: "pgReadFirstBatchOfRowsCsc w c (r_res r) = Some (True, 0, c', res')" "0 < j"
      "tuples res' = Some (seg rs 0 j)" "ntups res' = int j" "window w c' rs 1 j"
      using pg_first_ok [OF D(2), of "r_res r"] True by auto
    have "m_firstRowNumberInMem c' = 1" using windowD(2) [OF j(5)] by simp
    then have "spilled w (r\<lparr>r_res := res', r_csc := Some c', iNumberOfRowsInMem := int j,
        iRowOffset := pgGetFirstRowIndexCsc (Some c'), iCurRow := 0\<rparr>) c' rs 1 j"
      using j by (simp add: spilled_def pgGetFirstRowIndexCsc_def getFirstRowIndexCsc_def)
    then show ?thesis using j(1,4) n D(1,11) by (auto simp: setFetchAtFirstRow_def Let_def)
  qed
qed

lemma last_batch_shown:
  assumes "spilled w r c rs a b"
  shows "\<exists>r' c' a'. setFetchAtLastRow w r = Some (SQL_SUCCESS, [], r') \<and> spilled w r' c' rs a' (length rs)"
proof -
  note D = spilledD [OF assms]
  show ?thesis
  proof (cases "b < length rs")
    case False
    then have b: "b = length rs" using D(5) by simp
    then have "pgReadLastBatchOfRowsCsc w c (r_res r) = Some (False, 0, c, r_res r)"
      using pg_last_ok [OF D(2), of "r_res r"] by simp
    then show ?thesis using D(1,11) assms b by (auto simp: csc_same [OF D(1)] setFetchAtLastRow_def Let_def)
  next
    case True
    obtain m c' res' where m: "pgReadLastBatchOfRowsCsc w c (r_res r) = Some (True, 0, c', res')" "1 \<le> m" "m \<le> length rs"
      "tuples res' = Some (seg rs (m - 1) (Suc (length rs) - m))" "ntups res' = int (Suc (length rs) - m)"
      "window w c' rs m (length rs)"
      using pg_last_ok [OF D(2), of "r_res r"] True by auto
    have "m_firstRowNumberInMem c' = int m" using windowD(2) [OF m(6)] by simp
    then have "spilled w (r\<lparr>r_res := res', r_csc := Some c', iNumberOfRowsInMem := int (Suc (length rs) - m),
        iRowOffset := pgGetFirstRowIndexCsc (Some c'), iCurRow := int (Suc (length rs) - m) - 1\<rparr>) c' rs m (length rs)"
      using m by (simp add: spilled_def pgGetFirstRowIndexCsc_def getFirstRowIndexCsc_def of_nat_diff)
    then show ?thesis using m(1,5) D(1,11) by (auto simp: setFetchAtLastRow_def Let_def)
  qed
qed

lemma before_first_arrives:
  assumes "shows_rows w r ts"
  shows "arrives w ts 0 (before_first w r)"
proof (cases rule: shows_cases [OF assms])
  case 1
  then have "\<not> has_file r" "iRowOffset r = 0" by (simp_all add: in_memory_def)
  then show ?thesis
    using in_memory_move [OF 1, of "-1"]
    by (auto simp: before_first_def setFetchAtFirstRow_def move_outside_def arrives_def found_def pos_def shows_rows_def)
next
  case (2 c rs a b)
  obtain r' c' b' where "setFetchAtFirstRow w r = Some (SQL_SUCCESS, [], r')" "spilled w r' c' rs 1 b'"
    using first_batch_shown [OF 2(1)] by blast
  then show ?thesis
    using spilled_shows [OF spilled_ends(1) 2(2)] spilledD(8) [of w r' c' rs 1 b']
    by (auto simp: before_first_def move_outside_def arrives_def found_def pos_def)
qed

lemma after_last_arrives:
  assumes "shows_rows w r ts"
  shows "arrives w ts (int (length ts) + 1) (after_last w r)"
proof (cases rule: shows_cases [OF assms])
  case 1
  then have "\<not> has_file r" "iRowOffset r = 0" "iNumberOfRowsInMem r = int (length ts)" by (simp_all add: in_memory_def)
  then show ?thesis
    using in_memory_move [OF 1, of "int (length ts)"]
    by (auto simp: after_last_def setFetchAtLastRow_def move_outside_def arrives_def found_def pos_def shows_rows_def)
next
  case (2 c rs a b)
  obtain r' c' a' where l: "setFetchAtLastRow w r = Some (SQL_SUCCESS, [], r')" "spilled w r' c' rs a' (length rs)"
    using last_batch_shown [OF 2(1)] by blast
  note D = spilledD [OF l(2)]
  have "spilled w (r'\<lparr>iCurRow := iNumberOfRowsInMem r'\<rparr>) c' rs a' (length rs)" using spilled_ends(2) [OF l(2)] D(7) by simp
  moreover have "int (a' - 1) + int (Suc (length rs) - a') = int (length rs)" using D(3,4) by linarith
  ultimately show ?thesis
    using spilled_shows [OF _ 2(2)] l(1) D(7,8) 2(3)
    by (auto simp: after_last_def move_outside_def arrives_def found_def pos_def of_nat_diff)
qed

lemma first_arrives:
  assumes "shows_rows w r ts"
  shows "arrives w ts (if ts = [] then pos r else 1) (fetch_first w r) \<or> ts = [] \<and> fetch_first w r = Some (SQL_NO_DATA, [], r)"
proof (cases rule: shows_cases [OF assms])
  case 1
  then show ?thesis
    using in_memory_move [OF 1, of 0]
    by (cases ts) (auto simp: in_memory_def fetch_first_def setFetchAtFirstRow_def arrives_def found_def pos_def shows_rows_def)
next
  case (2 c rs a b)
  note D = spilledD [OF 2(1)]
  obtain r' c' b' where "setFetchAtFirstRow w r = Some (SQL_SUCCESS, [], r')" "spilled w r' c' rs 1 b'"
    using first_batch_shown [OF 2(1)] by blast
  then show ?thesis
    using spilled_shows [OF spilled_move 2(2), of w r' c' 1 b' 0] spilledD [of w r' c' rs 1 b'] D(3,5,7) 2(2,3)
    by (auto simp: fetch_first_def arrives_def found_def pos_def)
qed

lemma last_arrives:
  assumes "shows_rows w r ts"
  shows "arrives w ts (if ts = [] then pos r else int (length ts)) (fetch_last w 0 r) \<or>
    ts = [] \<and> fetch_last w 0 r = Some (SQL_NO_DATA, [], r)"
proof (cases rule: shows_cases [OF assms])
  case 1
  then show ?thesis
    using in_memory_move [OF 1, of "int (length ts) - 1"]
    by (cases ts) (auto simp: in_memory_def fetch_last_def setFetchAtLastRow_def arrives_def found_def pos_def shows_rows_def)
next
  case (2 c rs a b)
  note D = spilledD [OF 2(1)]
  obtain r' c' a' where l: "setFetchAtLastRow w r = Some (SQL_SUCCESS, [], r')" "spilled w r' c' rs a' (length rs)"
    using last_batch_shown [OF 2(1)] by blast
  note D' = spilledD [OF l(2)]
  have "spilled w (r'\<lparr>iCurRow := iNumberOfRowsInMem r' - 1\<rparr>) c' rs a' (length rs)"
    using spilled_move [OF l(2)] D'(3,7) by simp
  moreover have "int (a' - 1) + int (Suc (length rs) - a') = int (length rs)" "1 \<le> length rs" "ts \<noteq> []"
    using D'(3,4) D(3,4,5) 2(3) by auto
  ultimately show ?thesis
    using spilled_shows [OF _ 2(2)] l(1) D'(7,8) D(3,7) 2(3)
    by (auto simp: fetch_last_def arrives_def found_def pos_def)
qed

lemma in_memory_index_arrives:
  assumes "in_memory r ts" "k \<noteq> 0"
  shows "arrives w ts (clip (int (length ts)) (if k < 0 then int (length ts) + 1 + k else k)) (in_memory_index w k r)"
proof -
  let ?N = "int (length ts)"
  have d: "iNumberOfRowsInMem r = ?N" "iRowOffset r = 0" "?N < 2 ^ 30" using assms(1) by (simp_all add: in_memory_def)
  have shown: "shows_rows w r ts" using assms(1) by (simp add: shows_rows_def)
  have hit: "arrives w ts (i + 1) (Some (SQL_SUCCESS, [], r\<lparr>iCurRow := i32 i\<rparr>))" if "0 \<le> i" "i < ?N" for i
  proof -
    have "i32 i = i" using that d(3) by (intro i32_id) simp_all
    then show ?thesis
      using in_memory_move [OF assms(1), of i] that d(2) by (simp add: arrives_def shows_rows_def found_def pos_def)
  qed
  consider (neg) "k < 0" "- ?N \<le> k" | (before) "k < - ?N" | (inside) "0 < k" "k \<le> ?N" | (behind) "?N < k"
    using assms(2) by linarith
  then show ?thesis
  proof cases
    case neg
    then show ?thesis using hit [of "?N + k"] d(1) by (simp add: in_memory_index_def clip_def add.commute add.left_commute)
  next
    case before
    then show ?thesis using before_first_arrives [OF shown] d(1) by (simp add: in_memory_index_def clip_def)
  next
    case inside
    then show ?thesis using hit [of "k - 1"] d(1) by (simp add: in_memory_index_def clip_def)
  next
    case behind
    then show ?thesis using after_last_arrives [OF shown] d(1) by (simp add: in_memory_index_def clip_def)
  qed
qed

lemma absolute_arrives:
  assumes "shows_rows w r ts" "- (2 ^ 31) \<le> k" "k < 2 ^ 31"
  shows "arrives w ts (clip (int (length ts)) (if k < 0 then int (length ts) + 1 + k else k)) (setAbsolute w r k)"
proof (cases "k = 0")
  case True
  then show ?thesis using before_first_arrives [OF assms(1)] by (simp add: setAbsolute_def clip_def)
next
  case k: False
  show ?thesis
  proof (cases rule: shows_cases [OF assms(1)])
    case 1
    then have "\<not> has_file r" by (simp add: in_memory_def)
    then show ?thesis using in_memory_index_arrives [OF 1 k] k by (simp add: setAbsolute_def)
  next
    case (2 c rs a b)
    note D = spilledD [OF 2(1)]
    let ?N = "int (length ts)"
    define n where "n = abs_row rs k"
    have nk: "n = (if k < 0 then ?N + 1 + k else k)" using 2(3) by (simp add: n_def abs_row_def)
    have i32: "i32 k = k" by (rule i32_id [OF assms(2,3)])
    have call: "setAbsolute w r k = (case pgReadAbsoluteBatchOfRowsCsc w c (r_res r) (Some k) of
        None \<Rightarrow> None
      | Some (got, iCscError, c, res, iNewIndex) \<Rightarrow>
          (let r1 = r\<lparr>r_res := res, r_csc := Some c\<rparr>;
               r2 = (if got then r1\<lparr>iNumberOfRowsInMem := ntups res, iRowOffset := pgGetFirstRowIndexCsc (Some c)\<rparr> else r1)
           in if iCscError \<noteq> 0 then Some (io_error r2) else in_memory_index w (the iNewIndex) r2))"
      using k D(1,11) by (simp add: setAbsolute_def i32)
    note abs = pg_absolute_ok [OF D(2), of k "r_res r", folded n_def, unfolded Let_def]
    have hit: "in_memory_index w i r' = Some (SQL_SUCCESS, [], r'\<lparr>iCurRow := i - 1\<rparr>)"
      if "1 \<le> i" "i \<le> iNumberOfRowsInMem r'" "iNumberOfRowsInMem r' \<le> 2 ^ 29" for i r'
      using that i32_id [of "i - 1"] by (simp add: in_memory_index_def)
    consider (out) "n < 1 \<or> ?N < n" | (inside) "int a \<le> n" "n \<le> int b"
      | (far) "1 \<le> n" "n \<le> ?N" "\<not> (int a \<le> n \<and> n \<le> int b)" by linarith
    then show ?thesis
    proof cases
      case out
      then have "setAbsolute w r k = in_memory_index w k r"
        using abs 2(3) by (simp add: call csc_same [OF D(1)] Let_def)
      moreover have "iNumberOfRowsInMem r \<le> ?N" using D(3,4,5,7) 2(3) by simp
      ultimately show ?thesis
        using out nk k before_first_arrives [OF assms(1)] after_last_arrives [OF assms(1)]
        by (cases "k < 0") (auto simp: in_memory_index_def clip_def)
    next
      case inside
      have n: "1 \<le> n" "n \<le> ?N" using inside D(4,5) 2(3) by linarith+
      have "setAbsolute w r k = in_memory_index w (n - int a + 1) r"
        using abs 2(3) inside n by (simp add: call csc_same [OF D(1)] Let_def)
      also have "\<dots> = Some (SQL_SUCCESS, [], r\<lparr>iCurRow := n - int a\<rparr>)"
        using hit [of "n - int a + 1" r] inside D(3,4,5,7,14) by simp
      finally have "setAbsolute w r k = Some (SQL_SUCCESS, [], r\<lparr>iCurRow := n - int a\<rparr>)" .
      moreover have s': "spilled w (r\<lparr>iCurRow := n - int a\<rparr>) c rs a b"
        using spilled_move [OF 2(1)] inside D(3) by simp
      ultimately show ?thesis
        using spilled_shows [OF s' 2(2)] spilled_pos [OF s'] n nk by (simp add: arrives_def found_def clip_def)
    next
      case far
      obtain j c' res' where j: "pgReadAbsoluteBatchOfRowsCsc w c (r_res r) (Some k) = Some (True, 0, c', res', Some 1)"
        "0 < j" "tuples res' = Some (seg rs (nat n - 1) j)" "ntups res' = int j" "window w c' rs (nat n) (nat n - 1 + j)"
        using abs far 2(3) by auto
      let ?r = "r\<lparr>r_res := res', r_csc := Some c', iNumberOfRowsInMem := int j, iRowOffset := int (nat n - 1)\<rparr>"
      have first: "pgGetFirstRowIndexCsc (Some c') = int (nat n - 1)"
        using windowD(2) [OF j(5)] far(1) by (simp add: pgGetFirstRowIndexCsc_def getFirstRowIndexCsc_def of_nat_diff)
      have "j \<le> length rs" using windowD(6) [OF j(5)] by simp
      then have "int j \<le> 2 ^ 29" using D(14) by simp
      then have "setAbsolute w r k = Some (SQL_SUCCESS, [], ?r\<lparr>iCurRow := 0\<rparr>)"
        using j(1,2,4) first hit [of 1 ?r] by (simp add: call Let_def)
      moreover have "Suc (nat n - 1 + j) - nat n = j" using far(1) by linarith
      then have s': "spilled w (?r\<lparr>iCurRow := 0\<rparr>) c' rs (nat n) (nat n - 1 + j)"
        using j far(1) by (simp add: spilled_def)
      ultimately show ?thesis
        using spilled_shows [OF s' 2(2)] spilled_pos [OF s'] far nk by (simp add: arrives_def found_def clip_def)
    qed
  qed
qed

lemma relative_arrives:
  assumes "shows_rows w r ts" "- (2 ^ 30) \<le> k" "k < 2 ^ 30" "k \<noteq> 0"
  shows "arrives w ts (clip (int (length ts)) (pos r + k)) (fetch_relative w k r)"
proof -
  note p = pos_range [OF assms(1)]
  have index: "(let index = i64 (iCurRow r + 1 + k) in if has_file r then i64 (index + iRowOffset r) else index) = pos r + k"
  proof (cases rule: shows_cases [OF assms(1)])
    case 1
    then show ?thesis
      using assms(2,3) p i64_id [of "iCurRow r + 1 + k"] by (simp add: in_memory_def pos_def)
  next
    case (2 c rs a b)
    note D = spilledD [OF 2(1)]
    have "i64 (iCurRow r + 1 + k) = iCurRow r + 1 + k"
      using D(3,5,9,10,14) assms(2,3) by (intro i64_id) simp_all
    moreover have "i64 (iCurRow r + 1 + k + iRowOffset r) = pos r + k"
      using p assms(2,3) i64_id [of "pos r + k"] by (simp add: pos_def algebra_simps)
    ultimately show ?thesis using D(11) by (simp add: Let_def)
  qed
  show ?thesis
  proof (cases "pos r + k < 0")
    case True
    then show ?thesis
      using before_first_arrives [OF assms(1)] index assms(4) by (simp add: fetch_relative_def clip_def Let_def)
  next
    case False
    then show ?thesis
      using absolute_arrives [OF assms(1), of "pos r + k"] p assms(2,3) index assms(4)
      by (simp add: fetch_relative_def Let_def)
  qed
qed

subsection \<open>Rowsets\<close>

definition scroll_orientations :: "int set" where
  "scroll_orientations =
     {SQL_FETCH_NEXT, SQL_FETCH_PRIOR, SQL_FETCH_FIRST, SQL_FETCH_LAST, SQL_FETCH_ABSOLUTE, SQL_FETCH_RELATIVE}"

lemmas orientation_codes = SQL_FETCH_NEXT_def SQL_FETCH_PRIOR_def SQL_FETCH_FIRST_def SQL_FETCH_LAST_def
  SQL_FETCH_ABSOLUTE_def SQL_FETCH_RELATIVE_def

lemma position_arrives:
  assumes "shows_rows w r ts" "\<forall>res. stream res = None" "orientation \<in> scroll_orientations"
    and "- (2 ^ 30) \<le> k" "k < 2 ^ 30" "orientation = SQL_FETCH_RELATIVE \<Longrightarrow> k \<noteq> 0"
  shows "\<exists>s o'. fetch_position stream w 0 blk orientation k SQL_SUCCESS r = Some (s, o') \<and>
    arrives w ts (move_cursor (int (length ts)) orientation k (pos r)) (Some s) \<and>
    (blk \<and> fst s = SQL_SUCCESS \<and> orientation \<noteq> SQL_FETCH_PRIOR \<longrightarrow> o' = SQL_FETCH_NEXT)"
proof -
  let ?q = "move_cursor (int (length ts)) orientation k (pos r)"
  have nd: "arrives w ts (pos r) (Some (SQL_NO_DATA, [], r))" if "ts = []"
    using assms(1) that by (simp add: arrives_def found_def)
  have mapped: "\<exists>s o'. map_option f x = Some (s, o') \<and> arrives w ts ?q (Some s) \<and>
      (blk \<and> fst s = SQL_SUCCESS \<and> orientation \<noteq> SQL_FETCH_PRIOR \<longrightarrow> o' = SQL_FETCH_NEXT)"
    if "arrives w ts ?q x" "\<And>s. fst (f s) = s" "\<And>s. blk \<and> fst s = SQL_SUCCESS \<Longrightarrow> snd (f s) = SQL_FETCH_NEXT" for f x
    using that(1) that(2,3) by (cases x) (auto simp: arrives_def prod_eq_iff intro!: exI [of _ "fst (f _)"] exI [of _ "snd (f _)"])
  consider "orientation = SQL_FETCH_NEXT" | "orientation = SQL_FETCH_PRIOR" | "orientation = SQL_FETCH_FIRST"
    | "orientation = SQL_FETCH_LAST" | "orientation = SQL_FETCH_ABSOLUTE" | "orientation = SQL_FETCH_RELATIVE"
    using assms(3) by (auto simp: scroll_orientations_def)
  then show ?thesis
  proof cases
    case 1
    then have "arrives w ts ?q (fetch_next stream w 0 SQL_SUCCESS r)"
      using next_arrives [OF assms(1,2)] by (simp add: move_cursor_def)
    from mapped [OF this, of "\<lambda>s. (s, orientation)"] show ?thesis using 1 by (simp add: fetch_position_def)
  next
    case 2
    then show ?thesis using prior_arrives [OF assms(1)] by (simp add: move_cursor_def fetch_position_def orientation_codes)
  next
    case 3
    have n: "0 < iNumberOfRowsInMem r \<longleftrightarrow> ts \<noteq> []"
      using assms(1) spilledD [of w r] by (fastforce simp: shows_rows_def in_memory_def)
    have "arrives w ts ?q (fetch_first w r)"
      using first_arrives [OF assms(1)] nd 3 by (cases ts) (auto simp: move_cursor_def orientation_codes)
    from mapped [OF this, of "if 0 < iNumberOfRowsInMem r then positioned blk orientation else (\<lambda>s. (s, orientation))"]
    show ?thesis using 3 n nd first_arrives [OF assms(1)]
      by (cases "ts = []") (auto simp: fetch_position_def positioned_def orientation_codes move_cursor_def arrives_def found_def)
  next
    case 4
    have n: "0 < iNumberOfRowsInMem r \<longleftrightarrow> ts \<noteq> []"
      using assms(1) spilledD [of w r] by (fastforce simp: shows_rows_def in_memory_def)
    have "arrives w ts ?q (fetch_last w 0 r)"
      using last_arrives [OF assms(1)] nd 4 by (cases ts) (auto simp: move_cursor_def orientation_codes)
    from mapped [OF this, of "if 0 < iNumberOfRowsInMem r then positioned blk orientation else (\<lambda>s. (s, orientation))"]
    show ?thesis using 4 n nd last_arrives [OF assms(1)]
      by (cases "ts = []") (auto simp: fetch_position_def positioned_def orientation_codes move_cursor_def arrives_def found_def)
  next
    case 5
    then have "arrives w ts ?q (setAbsolute w r k)"
      using absolute_arrives [OF assms(1), of k] assms(4,5) by (simp add: move_cursor_def orientation_codes)
    from mapped [OF this, of "positioned_ok blk orientation"] show ?thesis
      using 5 by (simp add: fetch_position_def positioned_ok_def orientation_codes)
  next
    case 6
    then have "arrives w ts ?q (fetch_relative w k r)"
      using relative_arrives [OF assms(1,4,5)] assms(6) by (simp add: move_cursor_def orientation_codes)
    from mapped [OF this, of "positioned_ok blk orientation"] show ?thesis
      using 6 by (simp add: fetch_position_def positioned_ok_def orientation_codes)
  qed
qed

text \<open>
  An application that fetches with a scrollable cursor, without a limit of rows, into buffers that
  take every value.
\<close>

definition app_ok ::
  "(result_info \<Rightarrow> bound_col \<Rightarrow> int \<times> int \<Rightarrow> int) \<Rightarrow> (pgres \<Rightarrow> (pgres \<times> bool) option) \<Rightarrow> fetch_attrs \<Rightarrow> bool" where
  "app_ok getData stream st \<longleftrightarrow> (\<forall>res. stream res = None) \<and> (\<forall>r col tgt. getData r col tgt \<noteq> SQL_ERROR) \<and>
     isScrollableCursor st \<and> iMaxRows st = 0 \<and> iRetrieveData st = SQL_RD_ON \<and>
     (ard_lBindType st = SQL_BIND_BY_COLUMN \<longrightarrow> (\<forall>col \<in> set (ard_recs st). iOctetLen col \<noteq> 0))"

lemma app_okD:
  assumes "app_ok getData stream st"
  shows "\<forall>res. stream res = None" "iMaxRows st = 0" "iRetrieveData st = SQL_RD_ON" "isScrollableCursor st"
    "bind_columns getData st blk i r (ard_recs st) = (SQL_SUCCESS, False)"
proof -
  show "bind_columns getData st blk i r (ard_recs st) = (SQL_SUCCESS, False)"
  proof -
    have "bind_columns getData st blk i r cols = (SQL_SUCCESS, False)" if "set cols \<subseteq> set (ard_recs st)" for cols
      using that assms by (induction cols) (auto simp: app_ok_def column_target_def Let_def)
    then show ?thesis by simp
  qed
qed (use assms in \<open>simp_all add: app_ok_def\<close>)

text \<open>One row of the rowset.\<close>

lemma one_row:
  assumes "shows_rows w r ts" "app_ok getData stream st" "orientation \<in> scroll_orientations"
    and "- (2 ^ 30) \<le> k" "k < 2 ^ 30" "orientation = SQL_FETCH_RELATIVE \<Longrightarrow> k \<noteq> 0"
    and "q = move_cursor (int (length ts)) orientation k (pos r)"
  shows "\<exists>r1 o'. shows_rows w r1 ts \<and> pos r1 = q \<and>
    fetch_rows getData stream w st blk (Suc n) i orientation k SQL_SUCCESS out r =
      (if 1 \<le> q \<and> q \<le> int (length ts)
       then fetch_rows getData stream w st blk n (i + 1) o' k SQL_SUCCESS
              (put_status st i SQL_ROW_SUCCESS (put_processed st i (out\<lparr>rs_rows := ts ! nat (q - 1) # rs_rows out\<rparr>))) r1
       else Some (no_more_rows SQL_NO_DATA i, [], put_status st i SQL_ROW_NOROW out, r1)) \<and>
    (blk \<and> orientation \<noteq> SQL_FETCH_PRIOR \<and> 1 \<le> q \<and> q \<le> int (length ts) \<longrightarrow> o' = SQL_FETCH_NEXT) \<and>
    (orientation = SQL_FETCH_PRIOR \<longrightarrow> o' = SQL_FETCH_PRIOR)"
proof -
  note app = app_okD [OF assms(2)]
  obtain s o' where s: "fetch_position stream w 0 blk orientation k SQL_SUCCESS r = Some (s, o')"
    "arrives w ts q (Some s)" "blk \<and> fst s = SQL_SUCCESS \<and> orientation \<noteq> SQL_FETCH_PRIOR \<longrightarrow> o' = SQL_FETCH_NEXT"
    using position_arrives [OF assms(1) app(1) assms(3-6), of blk] assms(7) by blast
  have p: "orientation = SQL_FETCH_PRIOR \<longrightarrow> o' = SQL_FETCH_PRIOR"
    using s(1) by (auto simp: fetch_position_def orientation_codes)
  obtain r1 where r1: "s = (found (int (length ts)) q, [], r1)" "shows_rows w r1 ts" "pos r1 = q"
    using s(2) by (auto simp: arrives_def)
  show ?thesis
  proof (cases "1 \<le> q \<and> q \<le> int (length ts)")
    case True
    then have "current_row r1 = ts ! nat (q - 1)" using current_row_shown [OF r1(2)] r1(3) by simp
    then show ?thesis using True s(1,3) p r1 app by (auto simp: found_def)
  next
    case False
    then show ?thesis using s(1,3) p r1 app by (auto simp: found_def)
  qed
qed

declare fetch_rows.simps(2) [simp del]

definition rows_from :: "'a list \<Rightarrow> int \<Rightarrow> nat \<Rightarrow> 'a list" where
  "rows_from ts q n = (if 1 \<le> q then take n (drop (nat (q - 1)) ts) else [])"

lemma rows_from_Cons:
  "1 \<le> q \<Longrightarrow> q \<le> int (length ts) \<Longrightarrow> rows_from ts q (Suc n) = ts ! nat (q - 1) # rows_from ts (q + 1) n"
  by (auto simp: rows_from_def Cons_nth_drop_Suc [symmetric] nat_diff_distrib Suc_nat_eq_nat_zadd1 intro!: arg_cong [of _ _ "take n"])

lemma rows_from_Nil: "int (length ts) < q \<Longrightarrow> rows_from ts q n = []"
  by (auto simp: rows_from_def)

lemma put_rows [simp]: "rs_rows (put_status st i x out) = rs_rows out" "rs_rows (put_processed st i out) = rs_rows out"
  "rs_processed (put_status st i x out) = rs_processed out"
  by (simp_all add: put_status_def put_processed_def)

lemma next_orientation [simp]: "SQL_FETCH_NEXT \<in> scroll_orientations" "SQL_FETCH_PRIOR \<in> scroll_orientations"
  "SQL_FETCH_NEXT \<noteq> SQL_FETCH_PRIOR" "SQL_FETCH_NEXT \<noteq> SQL_FETCH_RELATIVE" "SQL_FETCH_PRIOR \<noteq> SQL_FETCH_RELATIVE"
  "move_cursor N SQL_FETCH_NEXT k p = clip N (p + 1)" "move_cursor N SQL_FETCH_PRIOR k p = clip N (p - 1)"
  by (simp_all add: scroll_orientations_def move_cursor_def orientation_codes)

text \<open>The rows behind the first one of a rowset.\<close>

lemma following_rows:
  assumes "shows_rows w r ts" "app_ok getData stream st" "- (2 ^ 30) \<le> k" "k < 2 ^ 30" "0 < i"
  shows "\<exists>out' r'. fetch_rows getData stream w st True n i SQL_FETCH_NEXT k SQL_SUCCESS out r =
      Some (SQL_SUCCESS, [], out', r') \<and> shows_rows w r' ts \<and> pos r' = clip (int (length ts)) (pos r + int n) \<and>
    rs_rows out' = rev (rows_from ts (pos r + 1) n) @ rs_rows out"
  using assms(1,5)
proof (induction n arbitrary: r i out)
  case 0
  then show ?case using pos_range [OF 0(1)] by (auto simp: no_more_rows_def clip_def rows_from_def)
next
  case (Suc n)
  let ?N = "int (length ts)"
  define q where "q = clip ?N (pos r + 1)"
  note p = pos_range [OF Suc.prems(1)]
  have "q = move_cursor ?N SQL_FETCH_NEXT k (pos r)" by (simp add: q_def)
  from one_row [OF Suc.prems(1) assms(2) next_orientation(1) assms(3,4) _ this, of True n i out]
  obtain r1 o' where r1: "shows_rows w r1 ts" "pos r1 = q"
    "fetch_rows getData stream w st True (Suc n) i SQL_FETCH_NEXT k SQL_SUCCESS out r =
      (if 1 \<le> q \<and> q \<le> ?N
       then fetch_rows getData stream w st True n (i + 1) o' k SQL_SUCCESS
              (put_status st i SQL_ROW_SUCCESS (put_processed st i (out\<lparr>rs_rows := ts ! nat (q - 1) # rs_rows out\<rparr>))) r1
       else Some (no_more_rows SQL_NO_DATA i, [], put_status st i SQL_ROW_NOROW out, r1))"
    "1 \<le> q \<and> q \<le> ?N \<longrightarrow> o' = SQL_FETCH_NEXT" by auto
  show ?case
  proof (cases "pos r < ?N")
    case True
    then have q: "q = pos r + 1" "1 \<le> q" "q \<le> ?N" using p by (auto simp: clip_def q_def)
    have "clip ?N (pos r1 + int n) = clip ?N (pos r + int (Suc n))" by (simp add: r1(2) q(1) add.assoc)
    then show ?thesis
      using Suc.IH [OF r1(1), of "i + 1" "put_status st i SQL_ROW_SUCCESS
          (put_processed st i (out\<lparr>rs_rows := ts ! nat (q - 1) # rs_rows out\<rparr>))"] Suc.prems(2) r1(2-4) q
        rows_from_Cons [of q ts n] by auto
  next
    case False
    then have "q = ?N + 1" "clip ?N (pos r + int (Suc n)) = ?N + 1" using p by (auto simp: clip_def q_def)
    then show ?thesis
      using r1(1,2,3) False Suc.prems(2) rows_from_Nil [of ts "pos r + 1" "Suc n"] by (auto simp: no_more_rows_def)
  qed
qed

definition rowset_size :: "fetch_attrs \<Rightarrow> nat" where
  "rowset_size st = (if ard_lArraySize st \<le> 0 then 1 else nat (ard_lArraySize st))"

lemma shows_rows_prev_col [simp]: "shows_rows w (r\<lparr>iPrevhCol := x\<rparr>) ts = shows_rows w r ts" "pos (r\<lparr>iPrevhCol := x\<rparr>) = pos r"
  by (simp_all add: shows_rows_def in_memory_def spilled_def has_file_def pos_def)

lemma scroll_fetch:
  assumes "shows_rows w r ts" "app_ok getData stream st" "orientation \<in> scroll_orientations"
    and "- (2 ^ 30) \<le> k" "k < 2 ^ 30" "orientation = SQL_FETCH_RELATIVE \<Longrightarrow> k \<noteq> 0"
    and "orientation = SQL_FETCH_PRIOR \<Longrightarrow> rowset_size st = 1"
    and "q = move_cursor (int (length ts)) orientation k (pos r)"
  shows "\<exists>out' r'. RS_SQLFetchScroll getData stream w st orientation k out (Some r) =
      Some (found (int (length ts)) q, [], out', Some r') \<and> shows_rows w r' ts \<and>
    pos r' = (if 1 \<le> q \<and> q \<le> int (length ts) then clip (int (length ts)) (q + int (rowset_size st) - 1) else q) \<and>
    rs_rows out' = rev (rows_from ts q (rowset_size st)) @ rs_rows out"
proof -
  let ?N = "int (length ts)" and ?blk = "1 < rowset_size st" and ?r = "r\<lparr>iPrevhCol := 0\<rparr>"
  obtain n where n: "rowset_size st = Suc n" by (cases "rowset_size st") (auto simp: rowset_size_def split: if_splits)
  have blk: "(1 < (if ard_lArraySize st \<le> 0 then 1 else ard_lArraySize st)) = ?blk" by (auto simp: rowset_size_def)
  have size: "nat (if ard_lArraySize st \<le> 0 then 1 else ard_lArraySize st) = Suc n" using n by (auto simp: rowset_size_def split: if_splits)
  have start: "RS_SQLFetchScroll getData stream w st orientation k out (Some r) =
      map_option (\<lambda>(rc, errs, out1, r1). (rc, errs, out1, Some r1))
        (fetch_rows getData stream w st ?blk (Suc n) 0 orientation k SQL_SUCCESS out ?r)"
    using app_okD(4) [OF assms(2)] blk size by (simp add: RS_SQLFetchScroll_def Let_def)
  let ?out = "put_status st 0 SQL_ROW_SUCCESS (put_processed st 0 (out\<lparr>rs_rows := ts ! nat (q - 1) # rs_rows out\<rparr>))"
  obtain r1 o' where r1: "shows_rows w r1 ts" "pos r1 = q"
    "fetch_rows getData stream w st ?blk (Suc n) 0 orientation k SQL_SUCCESS out ?r =
      (if 1 \<le> q \<and> q \<le> ?N then fetch_rows getData stream w st ?blk n (0 + 1) o' k SQL_SUCCESS ?out r1
       else Some (no_more_rows SQL_NO_DATA 0, [], put_status st 0 SQL_ROW_NOROW out, r1))"
    "?blk \<and> orientation \<noteq> SQL_FETCH_PRIOR \<and> 1 \<le> q \<and> q \<le> ?N \<longrightarrow> o' = SQL_FETCH_NEXT"
    using one_row [of w ?r ts getData stream st orientation k q ?blk n 0 out] assms by auto
  show ?thesis
  proof (cases "1 \<le> q \<and> q \<le> ?N")
    case False
    have "0 \<le> q" "q \<le> ?N + 1" using pos_range [OF r1(1)] r1(2) by simp_all
    then have "rows_from ts q (rowset_size st) = []" using False by (auto simp: rows_from_def)
    then show ?thesis using start r1 False by (auto simp: no_more_rows_def found_def)
  next
    case True
    have rows: "rows_from ts q (Suc n) = ts ! nat (q - 1) # rows_from ts (q + 1) n" using rows_from_Cons True by blast
    show ?thesis
    proof (cases n)
      case 0
      then show ?thesis using start r1 True n rows by (auto simp: found_def clip_def no_more_rows_def rows_from_def)
    next
      case (Suc n')
      then have o': "o' = SQL_FETCH_NEXT" using r1(4) True n assms(7) by auto
      have b: "?blk = True" using n Suc by simp
      obtain out' r' where "fetch_rows getData stream w st True n (0 + 1) SQL_FETCH_NEXT k SQL_SUCCESS ?out r1 =
          Some (SQL_SUCCESS, [], out', r')" "shows_rows w r' ts" "pos r' = clip ?N (pos r1 + int n)"
        "rs_rows out' = rev (rows_from ts (pos r1 + 1) n) @ rs_rows ?out"
        using following_rows [OF r1(1) assms(2,4,5), of "0 + 1" n ?out] by auto
      then show ?thesis using start r1(2,3) True n rows o' b by (simp add: found_def)
    qed
  qed
qed


subsection \<open>Reading a whole result\<close>

text \<open>The calls of an application that fetches forward.\<close>

fun drain :: "('s \<Rightarrow> ('a list \<times> 's) option) \<Rightarrow> nat \<Rightarrow> 's \<Rightarrow> 'a list option" where
  "drain step 0 s = Some []"
| "drain step (Suc n) s = (case step s of None \<Rightarrow> None | Some (rows, s') \<Rightarrow> map_option ((@) rows) (drain step n s'))"

text \<open>What a forward fetch promises, whatever keeps the rows.\<close>

locale forward_cursor =
  fixes holds :: "'s \<Rightarrow> 'a list \<Rightarrow> bool" and at :: "'s \<Rightarrow> int" and step :: "'s \<Rightarrow> ('a list \<times> 's) option" and size :: nat
  assumes in_range: "holds s ts \<Longrightarrow> 0 \<le> at s \<and> at s \<le> int (length ts) + 1"
    and advance: "holds s ts \<Longrightarrow> \<exists>s'. step s = Some (rows_from ts (at s + 1) size, s') \<and> holds s' ts \<and>
      at s' = clip (int (length ts)) (at s + int size)"
begin

lemma drain_rows: "holds s ts \<Longrightarrow> drain step n s = Some (take (n * size) (drop (nat (at s)) ts))"
proof (induction n arbitrary: s)
  case (Suc n)
  obtain s' where s': "step s = Some (rows_from ts (at s + 1) size, s')" "holds s' ts"
    "at s' = clip (int (length ts)) (at s + int size)" using advance [OF Suc.prems] by blast
  have "drop (nat (at s')) ts = drop size (drop (nat (at s)) ts)"
    using in_range [OF Suc.prems] s'(3) by (auto simp: clip_def min_def nat_add_distrib add.commute)
  moreover have "rows_from ts (at s + 1) size = take size (drop (nat (at s)) ts)"
    using in_range [OF Suc.prems] by (simp add: rows_from_def)
  ultimately show ?case using Suc.IH [OF s'(2)] s'(1) by (simp add: take_add)
qed simp

lemma drain_all: "holds s ts \<Longrightarrow> at s = 0 \<Longrightarrow> length ts \<le> n * size \<Longrightarrow> drain step n s = Some ts"
  using drain_rows [of s ts n] by simp

end

definition no_rows :: rowset where
  "no_rows = \<lparr>rs_processed = None, rs_status = [], rs_rows = []\<rparr>"

definition fetch_forward ::
  "(result_info \<Rightarrow> bound_col \<Rightarrow> int \<times> int \<Rightarrow> int) \<Rightarrow> (pgres \<Rightarrow> (pgres \<times> bool) option) \<Rightarrow> world \<Rightarrow> fetch_attrs \<Rightarrow>
   result_info \<Rightarrow> (row option list \<times> result_info) option" where
  "fetch_forward getData stream w st r =
     (case RS_SQLFetchScroll getData stream w st SQL_FETCH_NEXT 0 no_rows (Some r) of
        Some (rc, [], out, Some r') \<Rightarrow> Some (rev (rs_rows out), r')
      | _ \<Rightarrow> None)"

interpretation fetch: forward_cursor "\<lambda>r ts. shows_rows w r ts \<and> app_ok getData stream st" pos
  "fetch_forward getData stream w st" "rowset_size st" for w getData stream st
proof
  fix r ts
  assume a: "shows_rows w r ts \<and> app_ok getData stream st"
  let ?N = "int (length ts)" and ?m = "rowset_size st"
  note p = pos_range [OF conjunct1 [OF a]]
  show "0 \<le> pos r \<and> pos r \<le> ?N + 1" using p by simp
  define q where "q = clip ?N (pos r + 1)"
  have m: "1 \<le> ?m" by (simp add: rowset_size_def Suc_le_eq)
  obtain out' r' where f: "RS_SQLFetchScroll getData stream w st SQL_FETCH_NEXT 0 no_rows (Some r) =
      Some (found ?N q, [], out', Some r')" "shows_rows w r' ts"
    "pos r' = (if 1 \<le> q \<and> q \<le> ?N then clip ?N (q + int ?m - 1) else q)" "rs_rows out' = rev (rows_from ts q ?m)"
    using scroll_fetch [of w r ts getData stream st SQL_FETCH_NEXT 0 q no_rows] a by (auto simp: q_def no_rows_def)
  have "rows_from ts q ?m = rows_from ts (pos r + 1) ?m" "pos r' = clip ?N (pos r + int ?m)"
    using p m f(3) rows_from_Nil [of ts q] rows_from_Nil [of ts "pos r + 1"] by (auto simp: q_def clip_def min_def)
  then show "\<exists>s'. fetch_forward getData stream w st r = Some (rows_from ts (pos r + 1) ?m, s') \<and>
      (shows_rows w s' ts \<and> app_ok getData stream st) \<and> pos s' = clip ?N (pos r + int ?m)"
    using f a by (auto simp: fetch_forward_def)
qed


subsection \<open>Where it fails\<close>

text \<open>The return code so far is only passed through by a step to the next row.\<close>

lemma fetch_next_rc:
  "fetch_next stream w maxRows rc r =
     map_option (\<lambda>(c, errs, r1). (if c = SQL_SUCCESS then rc else c, errs, r1)) (fetch_next stream w maxRows SQL_SUCCESS r)"
proof -
  let ?f = "\<lambda>(c, errs, r1). (if c = SQL_SUCCESS then rc else c, errs, r1)"
  have step: "(if failed then io_error r1 else step_forward maxRows rc r1) =
      ?f (if failed then io_error r1 else step_forward maxRows SQL_SUCCESS r1)" for failed r1
    by (simp add: step_forward_def io_error_def Let_def)
  define x where "x = (if iNumberOfRowsInMem r \<le> iCurRow r + 1 \<and> \<not> max_rows_reached maxRows r
    then read_more stream w r else Some (False, r))"
  show ?thesis unfolding fetch_next_def x_def [symmetric] by (cases x) (simp_all add: step split_beta)
qed


text \<open>A rowset of \<^verbatim>\<open>SQL_FETCH_PRIOR\<close> is filled backwards.\<close>

lemma prior_rowset_descends:
  assumes "shows_rows w r ts" "app_ok getData stream st" "ard_lArraySize st = 2" "3 \<le> pos r"
  shows "\<exists>out' r'. RS_SQLFetchScroll getData stream w st SQL_FETCH_PRIOR k out (Some r) =
      Some (SQL_SUCCESS, [], out', Some r') \<and> pos r' = pos r - 2 \<and>
    rs_rows out' = ts ! nat (pos r - 3) # ts ! nat (pos r - 2) # rs_rows out"
proof -
  let ?r = "r\<lparr>iPrevhCol := 0\<rparr>"
  note app = app_okD [OF assms(2)]
  have step: "\<exists>r1. fetch_prior w SQL_SUCCESS s = (SQL_SUCCESS, [], r1) \<and> shows_rows w r1 ts \<and> pos r1 = pos s - 1 \<and>
      current_row r1 = ts ! nat (pos s - 2)" if "shows_rows w s ts" "2 \<le> pos s" for s
    using prior_arrives [OF that(1)] pos_range [OF that(1)] that current_row_shown
    by (fastforce simp: arrives_def found_def clip_def)
  obtain r1 where r1: "fetch_prior w SQL_SUCCESS ?r = (SQL_SUCCESS, [], r1)" "shows_rows w r1 ts" "pos r1 = pos r - 1"
    "current_row r1 = ts ! nat (pos r - 2)" using step [of ?r] assms(1,4) by auto
  obtain r2 where r2: "fetch_prior w SQL_SUCCESS r1 = (SQL_SUCCESS, [], r2)" "pos r2 = pos r - 2"
    "current_row r2 = ts ! nat (pos r - 3)" using step [OF r1(2)] r1(3) assms(4) by auto
  have "\<exists>out'. fetch_rows getData stream w st True (Suc (Suc 0)) 0 SQL_FETCH_PRIOR k SQL_SUCCESS out ?r =
      Some (SQL_SUCCESS, [], out', r2) \<and> rs_rows out' = ts ! nat (pos r - 3) # ts ! nat (pos r - 2) # rs_rows out"
    using r1(1,4) r2 app by (simp add: fetch_rows.simps fetch_position_def orientation_codes no_more_rows_def)
  then show ?thesis using r2(2) app(4) assms(3) by (auto simp: RS_SQLFetchScroll_def Let_def numeral_2_eq_2)
qed

text \<open>With files, the offset of an absolute fetch is cut to 32 bits.\<close>

lemma absolute_offset_truncated:
  assumes "has_file r" "0 < k" "k < 2 ^ 31"
  shows "setAbsolute w r (2 ^ 32 + k) = setAbsolute w r k"
proof -
  have "i32 (2 ^ 32 + k) = i32 k" using signed_take_bit_mod [of 31 "2 ^ 32 + k"] signed_take_bit_mod [of 31 k] by (simp add: i32_def)
  then show ?thesis using assms by (simp add: setAbsolute_def)
qed

text \<open>
  Behind the last row of a result whose files were never read, a relative fetch by 0 succeeds: the
  test for the last batch wants an open file.
\<close>

lemma relative_zero_behind_last:
  assumes "spilled w r c rs a b" "iCurRow r = int (Suc b - a)" "m_cscInputStream c = None"
  shows "\<exists>r'. fetch_relative w 0 r = Some (SQL_SUCCESS, [], r') \<and> pos r = int (length rs) + 1"
proof -
  note D = spilledD [OF assms(1)] and st = storedD [OF windowD(1) [OF spilledD(2) [OF assms(1)]]]
  have off: "0 \<le> iRowOffset r + iCurRow r" "iRowOffset r + iCurRow r < 2 ^ 31"
    using D(3,4,5,8,14) assms(2) by (simp_all add: of_nat_diff)
  then have "\<not> isBeforeFirstRow r" by (simp add: isBeforeFirstRow_def i32_id)
  moreover have "waitForFullResultReadFromServerCsc c = Some c"
    using st(5) by (auto simp: waitForFullResultReadFromServerCsc_def isFullResultReadFromServerCsc_def split: option.splits)
  ultimately have "\<exists>r'. fetch_relative w 0 r = Some (SQL_SUCCESS, [], r')"
    using D(1,3,7,11) assms(2,3) st(2,4)
    by (auto simp: fetch_relative_def isAfterLastRow_def pgIsLastBatchCsc_def isLastBatchCsc_def)
  then show ?thesis using spilled_pos [OF assms(1)] assms(2) D(3,5,13) by (simp add: of_nat_diff)
qed

subsection \<open>Buffers of a rowset\<close>


text \<open>A column bound with a null data pointer gets an address all the same, from the second row on.\<close>

lemma null_buffer_moves:
  assumes "ard_lBindType st = SQL_BIND_BY_COLUMN" "0 < iOctetLen col" "bc_value col = 0" "ard_bind_offset st = 0" "0 < row"
  shows "\<exists>l. column_target st True row col = Some (row * iOctetLen col, l) \<and> row * iOctetLen col \<noteq> 0"
  using assms by (simp add: column_target_def Let_def)

subsection \<open>Examples\<close>

text \<open>Three rows, of which one is in memory and none was fetched yet, and one bound column.\<close>

definition demo_col :: bound_col where
  "demo_col = \<lparr>hRecNumber = 1, bc_value = 4096, bc_len_ind = 8192, bc_octet_ptr = False, iOctetLen = 16\<rparr>"

definition demo_attrs :: fetch_attrs where
  "demo_attrs = \<lparr>iCursorType = 3, iCursorScrollable = 1, iMaxRows = 0, iRetrieveData = 1, ard_lArraySize = 2,
     ard_lBindType = 0, ard_bind_offset = 0, ard_recs = [demo_col], ird_valid = False, ird_rows_processed_ptr = False,
     ird_array_status_ptr = False\<rparr>"

definition demo_result :: result_info where
  "demo_result = \<lparr>iNumberOfRowsInMem = 1, iCurRow = -1, iRowOffset = 0, iPrevhCol = 0,
     r_res = demo_res\<lparr>ntups := 1, tuples := Some (seg demo_rows 0 1)\<rparr>, r_csc = Some (demo_csc 1 1)\<rparr>"

definition demo_texts :: "row option list" where
  "demo_texts = map (Some \<circ> norm_row) demo_rows"

lemma demo_shows: "shows_rows demo_world demo_result demo_texts" "pos demo_result = 0" "length demo_texts = 3"
proof -
  have "spilled demo_world demo_result (demo_csc 1 1) demo_rows 1 1"
    using demo_window [of 1 1] by (simp add: spilled_def demo_result_def)
  then show "shows_rows demo_world demo_result demo_texts" by (rule spilled_shows) (simp add: demo_texts_def)
qed (simp_all add: pos_def demo_result_def demo_texts_def)

lemma demo_app: "app_ok (\<lambda>_ _ _. SQL_SUCCESS) (\<lambda>_. None) demo_attrs" "rowset_size demo_attrs = 2"
  by (simp_all add: app_ok_def demo_attrs_def demo_col_def isScrollableCursor_def SQL_CURSOR_FORWARD_ONLY_def
      SQL_SCROLLABLE_def SQL_RD_ON_def rowset_size_def)





end
