(* ===== verification/Pq_Wire.thy ===== *)
theory Pq_Wire
  imports Prelude
begin

text \<open>
  The receiving side of the protocol client (\<^verbatim>\<open>fe-misc.c\<close>): the input buffer of a connection,
  its enlargement, reading from the socket, and the functions that take one value out of it. The
  buffer is the list of its bytes; \<open>inStart\<close> is the start of the first message not yet consumed,
  \<open>inCursor\<close> the next byte to read in it, \<open>inEnd\<close> the end of the received bytes.

  A getter returns \<open>None\<close> where the source returns \<^verbatim>\<open>EOF\<close>. The source may have moved the
  cursor before; the message loop sets it back to \<open>inStart\<close> before it reads again. The socket is a
  queue of what the calls of \<^verbatim>\<open>recv\<close> will find. Compression of the stream, tracing and failing
  allocations are left out. The locales state what a getter and the encoding of its values are for
  the readers of whole messages.
\<close>

subsection \<open>The buffer\<close>

record inbuf =
  inBuffer :: "byte list"
  inStart :: nat
  inCursor :: nat
  inEnd :: nat
  sock_open :: bool
  use_ssl :: bool
  status_ok :: bool
  errorMessage :: string

definition inBufSize :: "'a inbuf_scheme \<Rightarrow> nat" where
  "inBufSize c = length (inBuffer c)"

definition in_wf :: "'a inbuf_scheme \<Rightarrow> bool" where
  "in_wf c \<longleftrightarrow> inStart c \<le> inCursor c \<and> inCursor c \<le> inEnd c \<and> inEnd c \<le> inBufSize c"

text \<open>The bytes between the cursor and the end.\<close>

definition unread :: "'a inbuf_scheme \<Rightarrow> byte list" where
  "unread c = drop (inCursor c) (take (inEnd c) (inBuffer c))"

text \<open>The bytes that no consumed message holds.\<close>

definition pending :: "'a inbuf_scheme \<Rightarrow> byte list" where
  "pending c = drop (inStart c) (take (inEnd c) (inBuffer c))"

lemma length_unread: "in_wf c \<Longrightarrow> length (unread c) = inEnd c - inCursor c"
  by (simp add: unread_def in_wf_def inBufSize_def)

lemma length_pending: "in_wf c \<Longrightarrow> length (pending c) = inEnd c - inStart c"
  by (simp add: pending_def in_wf_def inBufSize_def)

lemma unread_advance [simp]: "unread (c\<lparr>inCursor := inCursor c + n\<rparr>) = drop n (unread c)"
  by (simp add: unread_def add.commute)

lemma in_wf_advance: "in_wf c \<Longrightarrow> n \<le> length (unread c) \<Longrightarrow> in_wf (c\<lparr>inCursor := inCursor c + n\<rparr>)"
  by (simp add: length_unread) (auto simp: in_wf_def inBufSize_def)

subsection \<open>Getters\<close>

definition be_value :: "byte list \<Rightarrow> int" where
  "be_value bs = le_value (rev bs)"

definition net_bytes :: "nat \<Rightarrow> int \<Rightarrow> byte list" where
  "net_bytes n v = rev (le_bytes n v)"

definition pqGetc :: "'a inbuf_scheme \<Rightarrow> byte option \<times> 'a inbuf_scheme" where
  "pqGetc c = (if inEnd c \<le> inCursor c then (None, c)
               else (Some (inBuffer c ! inCursor c), c\<lparr>inCursor := inCursor c + 1\<rparr>))"

function scan_nul :: "byte list \<Rightarrow> nat \<Rightarrow> nat \<Rightarrow> nat" where
  "scan_nul buf cursor ende = (if cursor < ende \<and> buf ! cursor \<noteq> 0 then scan_nul buf (cursor + 1) ende else cursor)"
  by pat_completeness auto
termination by (relation "measure (\<lambda>(buf, cursor, ende). ende - cursor)") auto

declare scan_nul.simps [simp del]

definition pqGets_internal :: "byte list \<Rightarrow> 'a inbuf_scheme \<Rightarrow> bool \<Rightarrow> byte list option \<times> 'a inbuf_scheme" where
  "pqGets_internal buf c resetbuffer =
     (let e = scan_nul (inBuffer c) (inCursor c) (inEnd c) in
      if inEnd c \<le> e then (None, c)
      else (Some ((if resetbuffer then [] else buf) @ take (e - inCursor c) (drop (inCursor c) (inBuffer c))),
            c\<lparr>inCursor := e + 1\<rparr>))"

definition pqGets :: "'a inbuf_scheme \<Rightarrow> byte list option \<times> 'a inbuf_scheme" where
  "pqGets c = pqGets_internal [] c True"

definition pqGets_append :: "byte list \<Rightarrow> 'a inbuf_scheme \<Rightarrow> byte list option \<times> 'a inbuf_scheme" where
  "pqGets_append buf c = pqGets_internal buf c False"

definition pqGetnchar :: "nat \<Rightarrow> 'a inbuf_scheme \<Rightarrow> byte list option \<times> 'a inbuf_scheme" where
  "pqGetnchar len c = (if inEnd c - inCursor c < len then (None, c)
     else (Some (take len (drop (inCursor c) (inBuffer c))), c\<lparr>inCursor := inCursor c + len\<rparr>))"

definition pqGetInt :: "nat \<Rightarrow> 'a inbuf_scheme \<Rightarrow> int option \<times> 'a inbuf_scheme" where
  "pqGetInt bytes c =
     (if bytes = 2 then
        (if inEnd c < inCursor c + 2 then (None, c)
         else (Some (be_value (take 2 (drop (inCursor c) (inBuffer c)))), c\<lparr>inCursor := inCursor c + 2\<rparr>))
      else if bytes = 4 then
        (if inEnd c < inCursor c + 4 then (None, c)
         else (Some (i32 (be_value (take 4 (drop (inCursor c) (inBuffer c))))), c\<lparr>inCursor := inCursor c + 4\<rparr>))
      else (None, c))"

text \<open>One getter after the other; \<^verbatim>\<open>EOF\<close> ends the sequence.\<close>

definition got :: "'v \<Rightarrow> 'a inbuf_scheme \<Rightarrow> 'v option \<times> 'a inbuf_scheme" where
  "got v c = (Some v, c)"

definition then_get ::
  "('a inbuf_scheme \<Rightarrow> 'v option \<times> 'a inbuf_scheme) \<Rightarrow> ('v \<Rightarrow> 'a inbuf_scheme \<Rightarrow> 'u option \<times> 'a inbuf_scheme) \<Rightarrow>
   'a inbuf_scheme \<Rightarrow> 'u option \<times> 'a inbuf_scheme" where
  "then_get g f c = (case g c of (None, c1) \<Rightarrow> (None, c1) | (Some v, c1) \<Rightarrow> f v c1)"

fun repeat_get :: "nat \<Rightarrow> ('a inbuf_scheme \<Rightarrow> 'v option \<times> 'a inbuf_scheme) \<Rightarrow> 'a inbuf_scheme \<Rightarrow>
    'v list option \<times> 'a inbuf_scheme" where
  "repeat_get 0 g = got []"
| "repeat_get (Suc n) g = then_get g (\<lambda>v. then_get (repeat_get n g) (\<lambda>vs. got (v # vs)))"

subsection \<open>What a getter is\<close>

text \<open>
  A getter reads the unread bytes only, by a function on byte lists that gives the value and the
  number of bytes it takes; more bytes behind do not change what is read.
\<close>

locale wire_getter =
  fixes get :: "'a inbuf_scheme \<Rightarrow> 'v option \<times> 'a inbuf_scheme"
    and parse :: "byte list \<Rightarrow> ('v \<times> nat) option"
  assumes get_some: "in_wf c \<Longrightarrow> parse (unread c) = Some (v, n) \<Longrightarrow> get c = (Some v, c\<lparr>inCursor := inCursor c + n\<rparr>)"
    and get_none: "in_wf c \<Longrightarrow> parse (unread c) = None \<Longrightarrow>
      \<exists>n \<le> length (unread c). get c = (None, c\<lparr>inCursor := inCursor c + n\<rparr>)"
    and parse_len: "parse bs = Some (v, n) \<Longrightarrow> n \<le> length bs"
    and parse_more: "parse bs = Some (v, n) \<Longrightarrow> parse (bs @ rest) = Some (v, n)"
begin

lemma get_frame:
  assumes "in_wf c"
  obtains n where "get c = (map_option fst (parse (unread c)), c\<lparr>inCursor := inCursor c + n\<rparr>)"
    "n \<le> length (unread c)"
proof (cases "parse (unread c)")
  case None
  with get_none [OF assms] that show thesis by auto
next
  case (Some vn)
  then have p: "parse (unread c) = Some (fst vn, snd vn)" by simp
  from get_some [OF assms p] parse_len [OF p] Some that show thesis by auto
qed

end

locale wire_codec = wire_getter +
  fixes put :: "'v \<Rightarrow> byte list" and valid :: "'v \<Rightarrow> bool"
  assumes parse_put: "valid v \<Longrightarrow> parse (put v @ rest) = Some (v, length (put v))"
begin

lemma get_put:
  assumes "in_wf c" and "unread c = put v @ rest" and "valid v"
  shows "get c = (Some v, c\<lparr>inCursor := inCursor c + length (put v)\<rparr>)"
    and "unread (c\<lparr>inCursor := inCursor c + length (put v)\<rparr>) = rest"
    and "in_wf (c\<lparr>inCursor := inCursor c + length (put v)\<rparr>)"
  using assms get_some parse_put in_wf_advance [OF assms(1), of "length (put v)"] by simp_all

end

text \<open>Sequences of getters are getters, and encodings may be put one behind the other.\<close>

definition then_parse ::
  "(byte list \<Rightarrow> ('v \<times> nat) option) \<Rightarrow> ('v \<Rightarrow> byte list \<Rightarrow> ('u \<times> nat) option) \<Rightarrow> byte list \<Rightarrow> ('u \<times> nat) option" where
  "then_parse p q bs =
     (case p bs of None \<Rightarrow> None
      | Some (v, n) \<Rightarrow> map_option (\<lambda>(u, m). (u, n + m)) (q v (drop n bs)))"

fun repeat_parse :: "nat \<Rightarrow> (byte list \<Rightarrow> ('v \<times> nat) option) \<Rightarrow> byte list \<Rightarrow> ('v list \<times> nat) option" where
  "repeat_parse 0 p = (\<lambda>bs. Some ([], 0))"
| "repeat_parse (Suc n) p = then_parse p (\<lambda>v. then_parse (repeat_parse n p) (\<lambda>vs bs. Some (v # vs, 0)))"

lemma wire_getter_got: "wire_getter (got v) (\<lambda>bs. Some (v, 0))"
  by unfold_locales (auto simp: got_def)

lemma wire_getter_then:
  assumes g: "wire_getter g p" and f: "\<And>v. wire_getter (f v) (q v)"
  shows "wire_getter (then_get g f) (then_parse p q)"
proof
  fix c :: "'a inbuf_scheme" and u n
  assume c: "in_wf c" and "then_parse p q (unread c) = Some (u, n)"
  then obtain v k m where p: "p (unread c) = Some (v, k)" and q: "q v (drop k (unread c)) = Some (u, m)" "n = k + m"
    by (auto simp: then_parse_def split: option.splits)
  have "in_wf (c\<lparr>inCursor := inCursor c + k\<rparr>)" by (rule in_wf_advance [OF c wire_getter.parse_len [OF g p]])
  from wire_getter.get_some [OF f this, of v u m] q wire_getter.get_some [OF g c p]
  show "then_get g f c = (Some u, c\<lparr>inCursor := inCursor c + n\<rparr>)"
    by (simp add: then_get_def add.assoc)
next
  fix c :: "'a inbuf_scheme"
  assume c: "in_wf c" and none: "then_parse p q (unread c) = None"
  show "\<exists>n \<le> length (unread c). then_get g f c = (None, c\<lparr>inCursor := inCursor c + n\<rparr>)"
  proof (cases "p (unread c)")
    case None
    with wire_getter.get_none [OF g c] show ?thesis by (auto simp: then_get_def)
  next
    case (Some vk)
    then obtain v k where p: "p (unread c) = Some (v, k)" by (cases vk) simp
    with none have q: "q v (drop k (unread c)) = None" by (simp add: then_parse_def)
    have k: "k \<le> length (unread c)" by (rule wire_getter.parse_len [OF g p])
    have w: "in_wf (c\<lparr>inCursor := inCursor c + k\<rparr>)" by (rule in_wf_advance [OF c k])
    from wire_getter.get_none [OF f w, of v] q obtain m where "m \<le> length (unread c) - k"
      "f v (c\<lparr>inCursor := inCursor c + k\<rparr>) = (None, c\<lparr>inCursor := inCursor c + (k + m)\<rparr>)"
      by (auto simp: add.assoc)
    moreover from this(1) k have "k + m \<le> length (unread c)" by simp
    ultimately show ?thesis using wire_getter.get_some [OF g c p] by (auto simp: then_get_def)
  qed
next
  fix bs u n assume "then_parse p q bs = Some (u, n)"
  then show "n \<le> length bs"
    using wire_getter.parse_len [OF g] wire_getter.parse_len [OF f]
    by (fastforce simp: then_parse_def split: option.splits)
next
  fix bs rest u n assume "then_parse p q bs = Some (u, n)"
  then obtain v k m where p: "p bs = Some (v, k)" and q: "q v (drop k bs) = Some (u, m)" "n = k + m"
    by (auto simp: then_parse_def split: option.splits)
  with wire_getter.parse_len [OF g p] wire_getter.parse_more [OF g p, of rest] wire_getter.parse_more [OF f q(1), of rest]
  show "then_parse p q (bs @ rest) = Some (u, n)" by (simp add: then_parse_def)
qed

lemma wire_getter_repeat: "wire_getter g p \<Longrightarrow> wire_getter (repeat_get n g) (repeat_parse n p)"
proof (induction n)
  case 0
  show ?case by (simp add: wire_getter_got)
next
  case (Suc n)
  show ?case
    unfolding repeat_get.simps repeat_parse.simps
    by (intro wire_getter_then wire_getter_got Suc)
qed

lemma then_parse_put:
  "p (a @ x) = Some (v, length a) \<Longrightarrow>
   then_parse p q (a @ x) = map_option (\<lambda>(u, m). (u, length a + m)) (q v x)"
  by (simp add: then_parse_def)

lemma repeat_parse_put:
  assumes "\<forall>v \<in> set vs. \<forall>rest. p (put v @ rest) = Some (v, length (put v))"
  shows "repeat_parse (length vs) p (concat (map put vs) @ rest) = Some (vs, length (concat (map put vs)))"
  using assms by (induction vs) (simp_all add: then_parse_put)

subsection \<open>The five getters\<close>

definition parse_bytes :: "nat \<Rightarrow> (byte list \<Rightarrow> 'v) \<Rightarrow> byte list \<Rightarrow> ('v \<times> nat) option" where
  "parse_bytes n f bs = (if length bs < n then None else Some (f (take n bs), n))"

definition parse_string :: "byte list \<Rightarrow> (byte list \<times> nat) option" where
  "parse_string bs = (let s = takeWhile (\<lambda>b. b \<noteq> 0) bs in
     if length s < length bs then Some (s, length s + 1) else None)"

definition put_string :: "byte list \<Rightarrow> byte list" where
  "put_string s = s @ [0]"

lemma take_unread: "in_wf c \<Longrightarrow> n \<le> length (unread c) \<Longrightarrow>
    take n (unread c) = take n (drop (inCursor c) (inBuffer c))"
  by (simp add: length_unread) (simp add: unread_def drop_take min_def)

lemma parse_bytes_len: "parse_bytes n f bs = Some (v, m) \<Longrightarrow> m \<le> length bs"
  by (simp add: parse_bytes_def split: if_splits)

lemma parse_bytes_more: "parse_bytes n f bs = Some (v, m) \<Longrightarrow> parse_bytes n f (bs @ rest) = Some (v, m)"
  by (auto simp: parse_bytes_def split: if_splits)

lemma parse_bytes_put: "length p = n \<Longrightarrow> f p = v \<Longrightarrow> parse_bytes n f (p @ rest) = Some (v, n)"
  by (simp add: parse_bytes_def)

lemma take_Suc_nth_last: "i < length xs \<Longrightarrow> take (Suc i) xs = take i xs @ [xs ! i]"
  by (rule take_Suc_conv_app_nth)

lemma scan_nul_takeWhile:
  assumes "i \<le> e" and "e \<le> length buf"
  shows "scan_nul buf i e = i + length (takeWhile (\<lambda>b. b \<noteq> 0) (drop i (take e buf)))"
  using assms
proof (induction buf i e rule: scan_nul.induct)
  case (1 buf i e)
  show ?case
  proof (cases "i < e")
    case True
    have "drop i (take e buf) = buf ! i # drop (Suc i) (take e buf)"
      using True 1(3) by (simp add: Cons_nth_drop_Suc [symmetric])
    then show ?thesis
      using 1 True by (subst scan_nul.simps) auto
  next
    case False
    then show ?thesis using 1(2) by (subst scan_nul.simps) simp
  qed
qed

lemma net_bytes_length [simp]: "length (net_bytes n v) = n"
  by (simp add: net_bytes_def)

lemma be_value_bytes [simp]: "be_value (net_bytes n v) = v mod 256 ^ n"
  by (simp add: net_bytes_def be_value_def le_value_le_bytes)

lemma i32_mod: "i32 (v mod 4294967296) = i32 v"
  using signed_take_bit_mod [of 31 v] by (simp add: i32_def)

definition int2_ok :: "int \<Rightarrow> bool" where "int2_ok v \<longleftrightarrow> 0 \<le> v \<and> v < 2 ^ 16"
definition int4_ok :: "int \<Rightarrow> bool" where "int4_ok v \<longleftrightarrow> - (2 ^ 31) \<le> v \<and> v < 2 ^ 31"

lemma wire_getter_bytes:
  assumes "\<And>c. in_wf c \<Longrightarrow> get c =
      (if inEnd c - inCursor c < n then (None, c)
       else (Some (f (take n (drop (inCursor c) (inBuffer c)))), c\<lparr>inCursor := inCursor c + n\<rparr>))"
  shows "wire_getter get (parse_bytes n f)"
proof
  fix c :: "'a inbuf_scheme" and v m
  assume c: "in_wf c" and "parse_bytes n f (unread c) = Some (v, m)"
  with take_unread [OF c, of n] show "get c = (Some v, c\<lparr>inCursor := inCursor c + m\<rparr>)"
    by (auto simp: assms [OF c] parse_bytes_def length_unread split: if_splits)
next
  fix c :: "'a inbuf_scheme"
  assume c: "in_wf c" and "parse_bytes n f (unread c) = None"
  then have "get c = (None, c\<lparr>inCursor := inCursor c + 0\<rparr>)"
    by (simp add: assms [OF c] parse_bytes_def length_unread split: if_splits)
  then show "\<exists>m \<le> length (unread c). get c = (None, c\<lparr>inCursor := inCursor c + m\<rparr>)" by blast
qed (simp_all add: parse_bytes_len parse_bytes_more)

lemma getter_getc: "wire_getter pqGetc (parse_bytes 1 hd)"
  by (rule wire_getter_bytes) (auto simp: pqGetc_def in_wf_def inBufSize_def hd_drop_conv_nth)

lemma getter_int2: "wire_getter (pqGetInt 2) (parse_bytes 2 be_value)"
  by (rule wire_getter_bytes) (auto simp: pqGetInt_def in_wf_def)

lemma getter_int4: "wire_getter (pqGetInt 4) (parse_bytes 4 (\<lambda>bs. i32 (be_value bs)))"
  by (rule wire_getter_bytes) (auto simp: pqGetInt_def in_wf_def)

lemma getter_nchar: "wire_getter (pqGetnchar n) (parse_bytes n (\<lambda>bs. bs))"
  by (rule wire_getter_bytes) (simp add: pqGetnchar_def)

lemma takeWhile_append_stop: "length (takeWhile P bs) < length bs \<Longrightarrow> takeWhile P (bs @ rest) = takeWhile P bs"
  by (metis append.right_neutral length_append less_irrefl takeWhile_append takeWhile_eq_all_conv)

lemma getter_gets: "wire_getter pqGets parse_string"
proof
  fix c :: "'a inbuf_scheme" and v n
  assume c: "in_wf c" and p: "parse_string (unread c) = Some (v, n)"
  let ?s = "takeWhile (\<lambda>b. b \<noteq> 0) (unread c)"
  have e: "scan_nul (inBuffer c) (inCursor c) (inEnd c) = inCursor c + length ?s"
    using c scan_nul_takeWhile [of "inCursor c" "inEnd c" "inBuffer c"] by (simp add: in_wf_def inBufSize_def unread_def)
  have l: "length ?s < length (unread c)" "v = ?s" "n = length ?s + 1"
    using p by (auto simp: parse_string_def Let_def split: if_splits)
  then have "take (length ?s) (drop (inCursor c) (inBuffer c)) = ?s"
    using take_unread [OF c, of "length ?s"] by (metis less_imp_le takeWhile_eq_take)
  moreover have "\<not> inEnd c \<le> inCursor c + length ?s" using l(1) c by (simp add: length_unread)
  ultimately show "pqGets c = (Some v, c\<lparr>inCursor := inCursor c + n\<rparr>)"
    using l(2,3) by (simp add: pqGets_def pqGets_internal_def e Let_def add.assoc)
next
  fix c :: "'a inbuf_scheme"
  assume c: "in_wf c" and p: "parse_string (unread c) = None"
  let ?s = "takeWhile (\<lambda>b. b \<noteq> 0) (unread c)"
  have e: "scan_nul (inBuffer c) (inCursor c) (inEnd c) = inCursor c + length ?s"
    using c scan_nul_takeWhile [of "inCursor c" "inEnd c" "inBuffer c"] by (simp add: in_wf_def inBufSize_def unread_def)
  have "\<not> length ?s < length (unread c)"
    using p by (simp add: parse_string_def Let_def split: if_splits)
  then have "inEnd c \<le> inCursor c + length ?s" using c by (simp add: length_unread in_wf_def)
  then have "pqGets c = (None, c\<lparr>inCursor := inCursor c + 0\<rparr>)" by (simp add: pqGets_def pqGets_internal_def e)
  then show "\<exists>m \<le> length (unread c). pqGets c = (None, c\<lparr>inCursor := inCursor c + m\<rparr>)" by blast
qed (auto simp: parse_string_def Let_def takeWhile_append_stop split: if_splits)

lemma parse_string_put: "0 \<notin> set v \<Longrightarrow> parse_string (put_string v @ rest) = Some (v, length (put_string v))"
proof -
  assume "0 \<notin> set v"
  then have "takeWhile (\<lambda>b. b \<noteq> 0) (v @ 0 # rest) = v" by (subst takeWhile_append2) auto
  then show ?thesis by (simp add: parse_string_def put_string_def)
qed

lemma parse_int2_put: "int2_ok v \<Longrightarrow> parse_bytes 2 be_value (net_bytes 2 v @ rest) = Some (v, length (net_bytes 2 v))"
  by (simp add: parse_bytes_put int2_ok_def)

lemma parse_int4_put:
  "int4_ok v \<Longrightarrow> parse_bytes 4 (\<lambda>bs. i32 (be_value bs)) (net_bytes 4 v @ rest) = Some (v, length (net_bytes 4 v))"
  by (simp add: parse_bytes_put int4_ok_def i32_mod i32_id)

interpretation getc: wire_codec pqGetc "parse_bytes 1 hd" "\<lambda>b. [b]" "\<lambda>_. True"
  by (intro wire_codec.intro getter_getc wire_codec_axioms.intro) (simp add: parse_bytes_def)

interpretation int2: wire_codec "pqGetInt 2" "parse_bytes 2 be_value" "net_bytes 2" int2_ok
  by (intro wire_codec.intro getter_int2 wire_codec_axioms.intro parse_int2_put)

interpretation int4: wire_codec "pqGetInt 4" "parse_bytes 4 (\<lambda>bs. i32 (be_value bs))" "net_bytes 4" int4_ok
  by (intro wire_codec.intro getter_int4 wire_codec_axioms.intro parse_int4_put)

interpretation nchar: wire_codec "pqGetnchar n" "parse_bytes n (\<lambda>bs. bs)" "\<lambda>s. s" "\<lambda>s. length s = n"
  by (intro wire_codec.intro getter_nchar wire_codec_axioms.intro) (auto simp: parse_bytes_put)

interpretation gets: wire_codec pqGets parse_string put_string "\<lambda>s. 0 \<notin> set s"
  by (intro wire_codec.intro getter_gets wire_codec_axioms.intro parse_string_put)

end
