(* ===== verification/Pq_Read.thy ===== *)
theory Pq_Read
  imports Pq_Wire
begin

text \<open>
  Enlarging the input buffer and filling it from the socket (\<^verbatim>\<open>pqCheckInBufferSpace\<close>,
  \<^verbatim>\<open>pqReadData\<close>, \<^verbatim>\<open>pqWait\<close> of \<^verbatim>\<open>fe-misc.c\<close>). The socket is in
  non-blocking mode; it is the list of what the next calls of \<^verbatim>\<open>recv\<close> find: bytes, nothing yet
  (\<open>Again\<close>), an interruption, a reset, the end of the connection, another error. A call that finds more
  bytes than fit leaves the rest for the next one. The functions return the rest of the list.
\<close>

subsection \<open>Enlarging\<close>

text \<open>The two loops of \<^verbatim>\<open>pqCheckInBufferSpace\<close>, on a 32-bit \<^verbatim>\<open>int\<close>.\<close>

function double_until :: "int \<Rightarrow> int \<Rightarrow> int" where
  "double_until newsize needed =
     (let n = i32 (newsize * 2) in if 0 < n \<and> n < needed then double_until n needed else n)"
  by pat_completeness auto

definition int_room :: "int \<Rightarrow> nat" where
  "int_room n = (if n < 2 ^ 31 then nat (2 ^ 31 - n) else 2 ^ 32)"

lemma int_room_less:
  assumes "0 < n" and "n < 2 ^ 31" and "m < 2 ^ 31 \<Longrightarrow> m < n"
  shows "int_room n < int_room m"
proof (cases "m < 2 ^ 31")
  case True
  then have "nat (2 ^ 31 - n) < nat (2 ^ 31 - m)" using assms by linarith
  then show ?thesis using True assms(2) by (simp add: int_room_def)
next
  case False
  have "nat (2 ^ 31 - n) < 2 ^ 32" using assms(1) by (simp add: nat_less_iff)
  then show ?thesis using False assms(2) by (simp add: int_room_def)
qed

lemma i32_lt: "i32 x < 2 ^ 31" "- (2 ^ 31) \<le> i32 x"
  using signed_take_bit_int_less_exp [of 31 x] signed_take_bit_int_greater_eq_minus_exp [of 31 x]
  by (simp_all add: i32_def)

lemma i32_wrap: "i32 (x - 2 ^ 32) = i32 x"
proof -
  have "(x - 2 ^ Suc 31) mod 2 ^ Suc 31 = x mod 2 ^ Suc 31" by (rule minus_mod_self2)
  then show ?thesis
    using signed_take_bit_mod [of 31 x] signed_take_bit_mod [of 31 "x - 2 ^ 32"] by (simp add: i32_def)
qed

lemma i32_double_grows:
  assumes "0 < i32 (n * 2)" and "n < 2 ^ 31"
  shows "n < i32 (n * 2)"
proof (cases "0 < n")
  case True
  show ?thesis
  proof (cases "n < 2 ^ 30")
    case True
    then show ?thesis using \<open>0 < n\<close> by (simp add: i32_id)
  next
    case False
    have "i32 (n * 2) = i32 (n * 2 - 2 ^ 32)"
      by (rule i32_wrap [symmetric])
    also have "\<dots> = n * 2 - 2 ^ 32" using False assms(2) by (simp add: i32_id)
    also have "\<dots> < 0" using assms(2) by simp
    finally show ?thesis using assms(1) by simp
  qed
next
  case False
  then show ?thesis using assms(1) by linarith
qed

termination double_until
proof (relation "measure (\<lambda>(n, needed). int_room n)", goal_cases)
  case 1
  show ?case by simp
next
  case (2 newsize needed n)
  then have "int_room n < int_room newsize"
    using i32_double_grows [of newsize] i32_lt(1) [of "newsize * 2"] by (intro int_room_less) simp_all
  then show ?case by simp
qed

function add_until :: "int \<Rightarrow> int \<Rightarrow> int" where
  "add_until newsize needed =
     (let n = i32 (newsize + 8192) in if 0 < n \<and> n < needed then add_until n needed else n)"
  by pat_completeness auto

termination add_until
proof (relation "measure (\<lambda>(n, needed). int_room n)", goal_cases)
  case 1
  show ?case by simp
next
  case (2 newsize needed n)
  have "newsize < i32 (newsize + 8192)" if "newsize < 2 ^ 31" "0 < i32 (newsize + 8192)"
  proof (cases "0 \<le> newsize")
    case True
    show ?thesis
    proof (cases "newsize + 8192 < 2 ^ 31")
      case True
      then show ?thesis using \<open>0 \<le> newsize\<close> by (simp add: i32_id)
    next
      case False
      have "i32 (newsize + 8192) = i32 (newsize + 8192 - 2 ^ 32)"
        by (rule i32_wrap [symmetric])
      also have "\<dots> = newsize + 8192 - 2 ^ 32" using False that(1) by (simp add: i32_id)
      also have "\<dots> < 0" using that(1) by simp
      finally show ?thesis using that(2) by simp
    qed
  next
    case False
    then show ?thesis using that(2) by linarith
  qed
  with 2 have "newsize < 2 ^ 31 \<Longrightarrow> newsize < n" "0 < n" by blast+
  with 2(1) i32_lt(1) [of "newsize + 8192"] have "int_room n < int_room newsize"
    by (intro int_room_less) blast+
  then show ?case by simp
qed

declare double_until.simps [simp del] add_until.simps [simp del]

definition realloc_in :: "'a inbuf_scheme \<Rightarrow> int \<Rightarrow> 'a inbuf_scheme" where
  "realloc_in c newsize = c\<lparr>inBuffer := inBuffer c @ replicate (nat newsize - inBufSize c) 0\<rparr>"

text \<open>The flag is \<^verbatim>\<open>EOF\<close>, the buffer could not be enlarged.\<close>

definition pqCheckInBufferSpace :: "int \<Rightarrow> 'a inbuf_scheme \<Rightarrow> bool \<times> 'a inbuf_scheme" where
  "pqCheckInBufferSpace bytes_needed c =
     (let size = int (inBufSize c); d = double_until size bytes_needed; e = add_until size bytes_needed in
      if bytes_needed \<le> size then (False, c)
      else if 0 < d \<and> bytes_needed \<le> d then (False, realloc_in c d)
      else if 0 < e \<and> bytes_needed \<le> e then (False, realloc_in c e)
      else (True, c\<lparr>errorMessage := ''cannot allocate memory for input buffer\<newline>''\<rparr>))"

subsection \<open>The socket\<close>

datatype recv = Bytes "byte list" | Again | Eintr | Reset | Closed | Fails

text \<open>What \<^verbatim>\<open>recv\<close> stores, and what it leaves.\<close>

definition in_space :: "'a inbuf_scheme \<Rightarrow> nat" where
  "in_space c = inBufSize c - inEnd c"

definition load :: "byte list \<Rightarrow> 'a inbuf_scheme \<Rightarrow> 'a inbuf_scheme" where
  "load bs c = (let d = take (in_space c) bs in
     c\<lparr>inBuffer := take (inEnd c) (inBuffer c) @ d @ drop (inEnd c + length d) (inBuffer c),
       inEnd := inEnd c + length d\<rparr>)"

definition left_over :: "byte list \<Rightarrow> 'a inbuf_scheme \<Rightarrow> recv list \<Rightarrow> recv list" where
  "left_over bs c es = (if length bs \<le> in_space c then es else Bytes (drop (in_space c) bs) # es)"

definition drop_connection :: "'a inbuf_scheme \<Rightarrow> 'a inbuf_scheme" where
  "drop_connection c = c\<lparr>status_ok := False, sock_open := False\<rparr>"

definition pqReadReady :: "recv list \<Rightarrow> int" where
  "pqReadReady es = (case es of [] \<Rightarrow> 0 | Again # _ \<Rightarrow> 0 | _ \<Rightarrow> 1)"

text \<open>The read behind \<^verbatim>\<open>retry4\<close>, when select says that the socket is ready.\<close>

fun retry4 :: "recv list \<Rightarrow> 'a inbuf_scheme \<Rightarrow> int \<times> recv list \<times> 'a inbuf_scheme" where
  "retry4 [] c = (0, [], c)"
| "retry4 (Again # es) c = (0, es, c)"
| "retry4 (Eintr # es) c = retry4 es c"
| "retry4 (Reset # es) c = (-1, es, drop_connection c)"
| "retry4 (Fails # es) c = (-1, es, c)"
| "retry4 (Closed # es) c = (-1, Closed # es, drop_connection c)"
| "retry4 (Bytes bs # es) c =
     (if take (in_space c) bs = [] then (-1, Bytes bs # es, drop_connection c)
      else (1, left_over bs c es, load bs c))"

definition zero_read :: "recv list \<Rightarrow> bool \<Rightarrow> 'a inbuf_scheme \<Rightarrow> int \<times> recv list \<times> 'a inbuf_scheme" where
  "zero_read es someread c =
     (if someread then (1, es, c)
      else if use_ssl c then (0, es, c)
      else if pqReadReady es = 0 then (0, es, c)
      else retry4 es c)"

text \<open>The loop from \<^verbatim>\<open>retry3\<close>: long messages are read on at once.\<close>

fun retry3 :: "recv list \<Rightarrow> bool \<Rightarrow> 'a inbuf_scheme \<Rightarrow> int \<times> recv list \<times> 'a inbuf_scheme" where
  "retry3 [] someread c = (of_cbool someread, [], c)"
| "retry3 (Again # es) someread c = (of_cbool someread, es, c)"
| "retry3 (Eintr # es) someread c = retry3 es someread c"
| "retry3 (Reset # es) someread c = (-1, es, drop_connection c)"
| "retry3 (Fails # es) someread c = (-1, es, c)"
| "retry3 (Closed # es) someread c = zero_read (Closed # es) someread c"
| "retry3 (Bytes bs # es) someread c =
     (if take (in_space c) bs = [] then zero_read (Bytes bs # es) someread c
      else (let c1 = load bs c in
        if 32768 < inEnd c1 \<and> 8192 * 2 \<le> in_space c1 then retry3 es True c1
        else (1, left_over bs c es, c1)))"

definition left_justify :: "'a inbuf_scheme \<Rightarrow> 'a inbuf_scheme" where
  "left_justify c =
     (if inStart c < inEnd c then
        (if 0 < inStart c then
           c\<lparr>inBuffer := drop (inStart c) (take (inEnd c) (inBuffer c)) @ drop (inEnd c - inStart c) (inBuffer c),
             inEnd := inEnd c - inStart c, inCursor := inCursor c - inStart c, inStart := 0\<rparr>
         else c)
      else c\<lparr>inStart := 0, inCursor := 0, inEnd := 0\<rparr>)"

definition pqReadData :: "recv list \<Rightarrow> 'a inbuf_scheme \<Rightarrow> int \<times> recv list \<times> 'a inbuf_scheme" where
  "pqReadData es c =
     (if \<not> sock_open c then (-1, es, c\<lparr>errorMessage := ''connection not open\<newline>''\<rparr>)
      else let c1 = left_justify c in
        if in_space c1 < 8192 * 2 then
          (case pqCheckInBufferSpace (int (inEnd c1) + 8192 * 2) c1 of (eof, c2) \<Rightarrow>
            if eof \<and> in_space c2 < 100 then (-1, es, c2) else retry3 es False c2)
        else retry3 es False c1)"

text \<open>
  Waiting for input. The source returns at once while there are bytes behind the cursor. \<open>None\<close>:
  nothing arrives any more. The flag is an error.
\<close>

fun wait_readable :: "recv list \<Rightarrow> recv list option" where
  "wait_readable [] = None"
| "wait_readable (Again # es) = wait_readable es"
| "wait_readable es = Some es"

definition pqWait_read :: "recv list \<Rightarrow> 'a inbuf_scheme \<Rightarrow> (bool \<times> recv list \<times> 'a inbuf_scheme) option" where
  "pqWait_read es c =
     (if inCursor c < inEnd c then Some (False, es, c)
      else if \<not> sock_open c then Some (True, es, c\<lparr>errorMessage := ''socket not open\<newline>''\<rparr>)
      else map_option (\<lambda>es1. (False, es1, c)) (wait_readable es))"

subsection \<open>Reading loses nothing\<close>

text \<open>A socket that delivers bytes, with pauses and interruptions; what it delivers.\<close>

fun calm_event :: "recv \<Rightarrow> bool" where
  "calm_event (Bytes bs) \<longleftrightarrow> bs \<noteq> []"
| "calm_event Again \<longleftrightarrow> True"
| "calm_event Eintr \<longleftrightarrow> True"
| "calm_event e \<longleftrightarrow> False"

definition calm :: "recv list \<Rightarrow> bool" where
  "calm es \<longleftrightarrow> list_all calm_event es"

fun payload :: "recv list \<Rightarrow> byte list" where
  "payload [] = []"
| "payload (Bytes bs # es) = bs @ payload es"
| "payload (e # es) = payload es"

definition sock_weight :: "recv list \<Rightarrow> nat" where
  "sock_weight es = length es + length (payload es)"

lemma calm_simps [simp]: "calm []" "calm (e # es) = (calm_event e \<and> calm es)"
  by (simp_all add: calm_def)

text \<open>Only the buffer has changed.\<close>

definition rebuffered :: "'a inbuf_scheme \<Rightarrow> 'a inbuf_scheme \<Rightarrow> bool" where
  "rebuffered c c' \<longleftrightarrow>
     c' = c\<lparr>inBuffer := inBuffer c', inStart := inStart c', inCursor := inCursor c', inEnd := inEnd c'\<rparr>"

lemma rebuffered_refl [simp]: "rebuffered c c"
  by (simp add: rebuffered_def)

lemma rebuffered_trans: "rebuffered a b \<Longrightarrow> rebuffered b c \<Longrightarrow> rebuffered a c"
  unfolding rebuffered_def by (cases a; cases b; cases c) simp

lemma rebuffered_update [simp]:
  "rebuffered c (c\<lparr>inBuffer := b, inEnd := e\<rparr>)" "rebuffered c (c\<lparr>inBuffer := b\<rparr>)"
  "rebuffered c (c\<lparr>inBuffer := b, inEnd := e, inCursor := u, inStart := s\<rparr>)"
  "rebuffered c (c\<lparr>inStart := s, inCursor := u, inEnd := e\<rparr>)" "rebuffered c (c\<lparr>inCursor := u\<rparr>)"
  "rebuffered c (c\<lparr>inStart := s\<rparr>)"
  by (simp_all add: rebuffered_def)

lemma double_until_bounds:
  "0 < n \<Longrightarrow> n < needed \<Longrightarrow> needed \<le> 2 ^ 29 \<Longrightarrow> needed \<le> double_until n needed \<and> double_until n needed < 2 * needed"
proof (induction n needed rule: double_until.induct)
  case (1 n needed)
  then have d: "i32 (n * 2) = n * 2" by (intro i32_id) auto
  show ?case
  proof (cases "n * 2 < needed")
    case True
    then have "double_until n needed = double_until (n * 2) needed"
      using 1(2) d by (subst double_until.simps) simp
    then show ?thesis using 1 True d by (metis mult_pos_pos zero_less_numeral)
  next
    case False
    then have "double_until n needed = n * 2" using d by (subst double_until.simps) simp
    then show ?thesis using False 1(3) by simp
  qed
qed

lemma pqCheckInBufferSpace_ok:
  assumes "0 < inBufSize c" and "needed \<le> 2 ^ 29" and "in_wf c"
  obtains c' where "pqCheckInBufferSpace needed c = (False, c')" "rebuffered c c'" "in_wf c'"
    "inStart c' = inStart c" "inCursor c' = inCursor c" "inEnd c' = inEnd c"
    "take (inEnd c) (inBuffer c') = take (inEnd c) (inBuffer c)" "needed \<le> int (inBufSize c')"
    "inBufSize c \<le> inBufSize c'" "int (inBufSize c') \<le> max (int (inBufSize c)) (2 * needed)"
proof (cases "needed \<le> int (inBufSize c)")
  case True
  then show thesis using that [of c] assms by (simp add: pqCheckInBufferSpace_def Let_def)
next
  case False
  let ?d = "double_until (int (inBufSize c)) needed"
  have d: "needed \<le> ?d" "?d < 2 * needed" using double_until_bounds [of "int (inBufSize c)" needed] False assms by auto
  show thesis
  proof (rule that [of "realloc_in c ?d"])
    show "pqCheckInBufferSpace needed c = (False, realloc_in c ?d)"
      using False d assms(1) by (simp add: pqCheckInBufferSpace_def Let_def)
  qed (use d False assms in \<open>auto simp: realloc_in_def in_wf_def inBufSize_def\<close>)
qed

lemma left_justify_ok:
  assumes "in_wf c"
  shows "rebuffered c (left_justify c)" "in_wf (left_justify c)" "inStart (left_justify c) = 0"
    "pending (left_justify c) = pending c" "inBufSize (left_justify c) = inBufSize c"
    "inEnd (left_justify c) = length (pending c)"
  using assms by (auto simp: left_justify_def in_wf_def inBufSize_def pending_def)

lemma load_ok:
  assumes "in_wf c"
  shows "rebuffered c (load bs c)" "in_wf (load bs c)" "pending (load bs c) = pending c @ take (in_space c) bs"
    "inStart (load bs c) = inStart c" "inBufSize (load bs c) = inBufSize c" "inCursor (load bs c) = inCursor c"
    "in_space (load bs c) = in_space c - length bs"
  using assms by (auto simp: load_def Let_def in_wf_def inBufSize_def pending_def in_space_def min_def)

lemma retry3_ok:
  assumes "in_wf c" and "calm es" and "0 < in_space c"
  shows "\<exists>r es' c'. retry3 es someread c = (r, es', c') \<and> 0 \<le> r \<and> calm es' \<and> rebuffered c c' \<and> in_wf c' \<and>
    inStart c' = inStart c \<and> inCursor c' = inCursor c \<and> pending c' @ payload es' = pending c @ payload es \<and>
    inBufSize c' = inBufSize c \<and> sock_weight es' \<le> sock_weight es \<and>
    (es \<noteq> [] \<longrightarrow> sock_weight es' < sock_weight es)"
  using assms
proof (induction es someread c rule: retry3.induct)
  case (7 bs es someread c)
  then have bs: "bs \<noteq> []" "take (in_space c) bs \<noteq> []" by auto
  note load = load_ok [OF 7(2), of bs]
  show ?case
  proof (cases "32768 < inEnd (load bs c) \<and> 8192 * 2 \<le> in_space (load bs c)")
    case True
    then have fits: "length bs \<le> in_space c" using load(7) by linarith
    have "calm es" "0 < in_space (load bs c)" using 7(3) True by auto
    from 7(1) [OF bs(2) refl True load(2) this] obtain r es' c' where
      r: "retry3 es True (load bs c) = (r, es', c')" "0 \<le> r" "calm es'" "rebuffered (load bs c) c'" "in_wf c'"
      "inStart c' = inStart c" "inCursor c' = inCursor c" "pending c' @ payload es' = pending c @ bs @ payload es"
      "inBufSize c' = inBufSize c" "sock_weight es' \<le> sock_weight es"
      using load fits by auto
    then have "sock_weight es' < sock_weight (Bytes bs # es)" by (simp add: sock_weight_def)
    with r True bs rebuffered_trans [OF load(1) r(4)] show ?thesis by (simp add: Let_def)
  next
    case False
    then have "retry3 (Bytes bs # es) someread c = (1, left_over bs c es, load bs c)"
      using bs by (auto simp: Let_def)
    moreover have "sock_weight (left_over bs c es) < sock_weight (Bytes bs # es)"
      using 7(4) bs by (simp add: sock_weight_def left_over_def)
    moreover have "calm (left_over bs c es)" using 7(3) by (simp add: left_over_def)
    moreover have "take (in_space c) bs @ payload (left_over bs c es) = bs @ payload es"
      by (simp add: left_over_def)
    ultimately show ?thesis using load by simp
  qed
qed (auto simp: sock_weight_def of_cbool_def)

text \<open>
  A connection whose received and coming bytes are bounded: reading never fails, moves bytes from the
  socket behind the pending ones, and makes progress.
\<close>

definition in_room :: "'a inbuf_scheme \<Rightarrow> recv list \<Rightarrow> bool" where
  "in_room c es \<longleftrightarrow> 0 < inBufSize c \<and> inEnd c + length (payload es) \<le> 2 ^ 28"

lemma pqReadData_ok:
  assumes "in_wf c" and "sock_open c" and "calm es" and "in_room c es"
  obtains r es' c' where "pqReadData es c = (r, es', c')" "0 \<le> r" "calm es'" "rebuffered c c'" "in_wf c'"
    "pending c' @ payload es' = pending c @ payload es" "in_room c' es'"
    "es \<noteq> [] \<Longrightarrow> sock_weight es' < sock_weight es"
proof -
  let ?c = "left_justify c"
  note lj = left_justify_ok [OF assms(1)]
  have "\<exists>c2. pqReadData es c = retry3 es False c2 \<and> rebuffered ?c c2 \<and> in_wf c2 \<and> pending c2 = pending ?c \<and>
      0 < in_space c2 \<and> inBufSize ?c \<le> inBufSize c2 \<and> inStart c2 = inStart ?c"
  proof (cases "in_space ?c < 8192 * 2")
    case True
    have "inEnd ?c \<le> inEnd c" using lj(6) length_pending [OF assms(1)] by simp
    then have n: "int (inEnd ?c) + 8192 * 2 \<le> 2 ^ 29" using assms(4) by (simp add: in_room_def)
    from pqCheckInBufferSpace_ok [OF _ n lj(2)] assms(4) lj(5) obtain c2 where
      2: "pqCheckInBufferSpace (int (inEnd ?c) + 8192 * 2) ?c = (False, c2)" "rebuffered ?c c2" "in_wf c2"
      "inStart c2 = inStart ?c" "inEnd c2 = inEnd ?c" "take (inEnd ?c) (inBuffer c2) = take (inEnd ?c) (inBuffer ?c)"
      "int (inEnd ?c) + 8192 * 2 \<le> int (inBufSize c2)" "inBufSize ?c \<le> inBufSize c2"
      by (auto simp: in_room_def)
    then have "pqReadData es c = retry3 es False c2"
      using True assms(2) by (simp add: pqReadData_def Let_def)
    with 2 show ?thesis by (intro exI [of _ c2]) (simp add: pending_def in_space_def)
  next
    case False
    then show ?thesis using assms(2) lj by (intro exI [of _ ?c]) (simp add: pqReadData_def Let_def)
  qed
  then obtain c2 where c2: "pqReadData es c = retry3 es False c2" "rebuffered ?c c2" "in_wf c2"
    "pending c2 = pending ?c" "0 < in_space c2" "inBufSize ?c \<le> inBufSize c2" "inStart c2 = inStart ?c" by blast
  from retry3_ok [OF c2(3) assms(3) c2(5), of False] obtain r es' c' where
    3: "retry3 es False c2 = (r, es', c')" "0 \<le> r" "calm es'" "rebuffered c2 c'" "in_wf c'"
    "pending c' @ payload es' = pending c2 @ payload es" "inBufSize c' = inBufSize c2"
    "es \<noteq> [] \<longrightarrow> sock_weight es' < sock_weight es" "inStart c' = inStart c2" by blast
  have "length (pending c') = inEnd c'" "length (pending c2) = inEnd c2"
    using 3(9) c2(7) lj(3) length_pending [OF 3(5)] length_pending [OF c2(3)] by simp_all
  with arg_cong [OF 3(6), of length] have "inEnd c' + length (payload es') = inEnd c2 + length (payload es)" by simp
  moreover have "inEnd c2 \<le> inEnd c"
    using c2(4) lj(4) length_pending [OF c2(3)] length_pending [OF assms(1)] c2(7) lj(3) by simp
  ultimately have "in_room c' es'" using 3(7) c2(6) lj(5) assms(4) by (simp add: in_room_def)
  with that [OF _ 3(2,3) _ 3(5)] 3 c2 lj show thesis
    by (metis rebuffered_trans)
qed

lemma wait_readable_ok:
  "calm es \<Longrightarrow> payload es \<noteq> [] \<Longrightarrow>
   \<exists>es'. wait_readable es = Some es' \<and> calm es' \<and> payload es' = payload es \<and> sock_weight es' \<le> sock_weight es"
  by (induction es rule: wait_readable.induct) (auto simp: sock_weight_def)

end
