(* ===== verification/Pq_Result.thy ===== *)
theory Pq_Result
  imports Pq_Read Csc_Result
begin

text \<open>
  The results of a connection (\<^verbatim>\<open>fe-exec.c\<close>) and the messages that build them
  (\<^verbatim>\<open>fe-protocol3.c\<close>): row descriptions, parameter descriptions and data rows. Several parts of
  the driver hold a pointer to the same result, so results live in a store from addresses to results; a
  cleared result is gone from it. Operations that follow a pointer return \<open>None\<close> when the result behind it
  has been freed. Allocation of a result's storage blocks, events and tracing are left out, and an allocation
  fails only where the size itself is negative. Server texts are byte lists, the driver's messages strings.
\<close>

subsection \<open>Results and connections\<close>

datatype exec_status =
    PGRES_EMPTY_QUERY | PGRES_COMMAND_OK | PGRES_TUPLES_OK | PGRES_BAD_RESPONSE | PGRES_NONFATAL_ERROR | PGRES_FATAL_ERROR

datatype async_status = PGASYNC_IDLE | PGASYNC_BUSY | PGASYNC_READY

datatype query_class = PGQUERY_SIMPLE | PGQUERY_EXTENDED | PGQUERY_PREPARE | PGQUERY_DESCRIBE

datatype xact_status = PQTRANS_IDLE | PQTRANS_ACTIVE | PQTRANS_INTRANS | PQTRANS_INERROR | PQTRANS_UNKNOWN

datatype verbosity = PQERRORS_TERSE | PQERRORS_DEFAULT | PQERRORS_VERBOSE

record att_desc =
  ad_name :: "byte list"
  tableid :: int
  columnid :: int
  format :: int
  typid :: int
  typlen :: int
  atttypmod :: int
  schema_name :: "byte list option"
  table_name :: "byte list option"
  col_name :: "byte list option"
  catalog_name :: "byte list option"
  nullable :: int
  autoincrement :: int
  read_only :: int
  searchable :: int
  case_sensitive :: int

record pgresult = pgres +
  resultStatus :: exec_status
  attDescs :: "att_desc list"
  binary :: bool
  cmdStatus :: "byte list"
  numParameters :: int
  paramDescs :: "int list"
  tupArrSize :: int
  totalntups :: int
  myntups :: int
  mem_used :: int
  capped :: bool
  errMsg :: "string option"
  errFields :: "(byte \<times> byte list) list"
  res_csc :: "nat option"

record pgconn = inbuf +
  asyncStatus :: async_status
  queryclass :: query_class
  result :: "nat option"
  curTuple :: "row option"
  server_protocol_version :: int
  rows_only :: bool
  mem_limit :: int
  row_limit :: int
  output_nbytes :: int
  be_pid :: int
  be_key :: int
  xactStatus :: xact_status
  lastseg :: bool
  resultForDescRowPrep :: "nat option"
  resultForDescParam :: "nat option"
  pstatus :: "(byte list \<times> byte list) list"
  notifies :: "(int \<times> byte list \<times> byte list) list"
  notices :: "string list"
  last_sqlstate :: "byte list"
  last_query :: "byte list option"
  verbose :: verbosity
  error_position :: "string \<Rightarrow> byte list \<Rightarrow> int \<Rightarrow> string"
  client_encoding :: int
  char_to_encoding :: "byte list \<Rightarrow> int"
  std_strings :: bool
  sversion :: int
  results :: "nat \<Rightarrow> pgresult option"
  fresh :: nat

definition chars_of :: "byte list \<Rightarrow> string" where
  "chars_of bs = map (\<lambda>b. char_of (unat b)) bs"

definition byte_of :: "char \<Rightarrow> byte" where
  "byte_of ch = of_nat (of_char ch)"

definition EXTENDED_RESULT_METADATA_SERVER_PROTOCOL_VERSION :: int where
  "EXTENDED_RESULT_METADATA_SERVER_PROTOCOL_VERSION = 1"

definition EXTENDED2_RESULT_METADATA_SERVER_PROTOCOL_VERSION :: int where
  "EXTENDED2_RESULT_METADATA_SERVER_PROTOCOL_VERSION = 3"

definition CMDSTATUS_LEN :: nat where "CMDSTATUS_LEN = 64"

subsection \<open>The store\<close>

definition empty_result :: "exec_status \<Rightarrow> pgresult" where
  "empty_result status = \<lparr>ntups = 0, tuples = None, m_tuplesAllocatedByCscRead = False, numAttributes = 0,
     resultStatus = status, attDescs = [], binary = False, cmdStatus = [], numParameters = 0, paramDescs = [],
     tupArrSize = 0, totalntups = 0, myntups = 0, mem_used = 0, capped = False, errMsg = None, errFields = [],
     res_csc = None\<rparr>"

text \<open>\<^verbatim>\<open>pqSetResultError\<close>, on the message.\<close>

definition pqSetResultError :: "pgresult \<Rightarrow> string \<Rightarrow> pgresult" where
  "pqSetResultError res msg = res\<lparr>errMsg := (if msg = [] then None else Some msg)\<rparr>"

definition PQmakeEmptyPGresult :: "'a pgconn_scheme \<Rightarrow> exec_status \<Rightarrow> nat \<times> 'a pgconn_scheme" where
  "PQmakeEmptyPGresult c status =
     (let r = empty_result status;
          r1 = (if status \<in> {PGRES_EMPTY_QUERY, PGRES_COMMAND_OK, PGRES_TUPLES_OK} then r
                else pqSetResultError r (errorMessage c))
      in (fresh c, c\<lparr>results := (results c)(fresh c \<mapsto> r1), fresh := fresh c + 1\<rparr>))"

definition set_result :: "'a pgconn_scheme \<Rightarrow> nat \<Rightarrow> pgresult \<Rightarrow> 'a pgconn_scheme" where
  "set_result c p r = c\<lparr>results := (results c)(p \<mapsto> r)\<rparr>"

definition PQclear :: "'a pgconn_scheme \<Rightarrow> nat option \<Rightarrow> 'a pgconn_scheme" where
  "PQclear c p = (case p of None \<Rightarrow> c | Some a \<Rightarrow> c\<lparr>results := (results c)(a := None)\<rparr>)"

definition pqClearAsyncResult :: "'a pgconn_scheme \<Rightarrow> 'a pgconn_scheme" where
  "pqClearAsyncResult c = (PQclear c (result c))\<lparr>result := None, curTuple := None\<rparr>"

definition pqCatenateResultError :: "pgresult \<Rightarrow> string \<Rightarrow> pgresult" where
  "pqCatenateResultError res msg =
     pqSetResultError res ((case errMsg res of None \<Rightarrow> [] | Some m \<Rightarrow> m) @ msg)"

definition new_error_result :: "'a pgconn_scheme \<Rightarrow> 'a pgconn_scheme" where
  "new_error_result c =
     (case PQmakeEmptyPGresult (pqClearAsyncResult c) PGRES_FATAL_ERROR of (p, c1) \<Rightarrow> c1\<lparr>result := Some p\<rparr>)"

definition pqSaveErrorResult :: "'a pgconn_scheme \<Rightarrow> 'a pgconn_scheme option" where
  "pqSaveErrorResult c =
     (case result c of
        None \<Rightarrow> Some (new_error_result c)
      | Some p \<Rightarrow>
          map_option (\<lambda>r.
            if resultStatus r \<noteq> PGRES_FATAL_ERROR \<or> errMsg r = None then new_error_result c
            else set_result c p (pqCatenateResultError r (errorMessage c)))
            (results c p))"

definition pqPrepareAsyncResult :: "'a pgconn_scheme \<Rightarrow> (nat \<times> 'a pgconn_scheme) option" where
  "pqPrepareAsyncResult c =
     (let c1 = c\<lparr>result := None, curTuple := None\<rparr> in
      case result c of
        None \<Rightarrow> Some (PQmakeEmptyPGresult c1 PGRES_FATAL_ERROR)
      | Some p \<Rightarrow> map_option (\<lambda>r. (p, c1\<lparr>errorMessage := (case errMsg r of None \<Rightarrow> [] | Some m \<Rightarrow> m)\<rparr>))
          (results c p))"

subsection \<open>Adding a row\<close>

definition new_tup_size :: "int \<Rightarrow> int \<Rightarrow> int" where
  "new_tup_size oldSize iStreamingCursorRows =
     (if 0 < iStreamingCursorRows then
        (let batch = (if 1000 < iStreamingCursorRows then 1000 else iStreamingCursorRows) in
         if 0 < oldSize then i32 (oldSize + batch) else batch)
      else if 0 < oldSize then i32 (oldSize * 2) else 128)"

text \<open>\<open>None\<close>: the array cannot be enlarged, \<^verbatim>\<open>FALSE\<close>.\<close>

definition pqAddTuple :: "pgresult \<Rightarrow> row \<Rightarrow> int \<Rightarrow> pgresult option" where
  "pqAddTuple res tup iStreamingCursorRows =
     (let store = (\<lambda>r. r\<lparr>tuples := Some ((case tuples r of None \<Rightarrow> [] | Some ts \<Rightarrow> ts) @ [Some tup]),
                          ntups := ntups r + 1\<rparr>) in
      if tupArrSize res \<le> ntups res then
        (let newSize = new_tup_size (tupArrSize res) iStreamingCursorRows in
         if newSize < 0 then None else Some (store (res\<lparr>tupArrSize := newSize\<rparr>)))
      else Some (store res))"

subsection \<open>Data rows\<close>

text \<open>
  The field loop of \<^verbatim>\<open>getAnotherTuple\<close> from field \<open>i\<close> on: whether data ran out, the row, the
  memory counted and the connection. A field that is not yet allocated has no value.
\<close>

fun scan_fields ::
  "nat \<Rightarrow> nat \<Rightarrow> row \<Rightarrow> int \<Rightarrow> 'a pgconn_scheme \<Rightarrow> bool \<times> row \<times> int \<times> 'a pgconn_scheme" where
  "scan_fields 0 i tup mem c = (False, tup, mem, c)"
| "scan_fields (Suc k) i tup mem c =
     (case pqGetInt 4 c of
        (None, c1) \<Rightarrow> (True, tup, mem, c1)
      | (Some len, c1) \<Rightarrow>
          if len = -1 then scan_fields k (i + 1) (tup[i := \<lparr>att_len = -1, att_value = Some []\<rparr>]) mem c1
          else
            (let vlen = (if len < 0 then 0 else len);
                 mem1 = (if att_value (tup ! i) = None then i32 (mem + vlen + 1) else mem) in
             if 0 < vlen then
               (case pqGetnchar (nat vlen) c1 of
                  (None, c2) \<Rightarrow> (True, tup[i := \<lparr>att_len = vlen, att_value = Some []\<rparr>], mem1, c2)
                | (Some bs, c2) \<Rightarrow>
                    scan_fields k (i + 1) (tup[i := \<lparr>att_len = vlen, att_value = Some bs\<rparr>]) mem1 c2)
             else scan_fields k (i + 1) (tup[i := \<lparr>att_len = 0, att_value = Some []\<rparr>]) mem1 c1))"

definition no_att :: attvalue where "no_att = \<lparr>att_len = 0, att_value = None\<rparr>"

definition skipAnotherTuple :: "'a pgconn_scheme \<Rightarrow> int \<Rightarrow> bool \<times> 'a pgconn_scheme" where
  "skipAnotherTuple c msgLength = (False, c\<lparr>inCursor := nat (int (inStart c) + 5 + msgLength)\<rparr>)"

definition discard :: "'a pgconn_scheme \<Rightarrow> int \<Rightarrow> 'a pgconn_scheme" where
  "discard c msgLength = c\<lparr>inCursor := nat (int (inStart c) + 5 + msgLength)\<rparr>"

text \<open>The error exit \<^verbatim>\<open>outOfMemory\<close>.\<close>

definition out_of_memory :: "'a pgconn_scheme \<Rightarrow> int \<Rightarrow> 'a pgconn_scheme option" where
  "out_of_memory c msgLength =
     map_option (\<lambda>c1. discard c1 msgLength)
       (pqSaveErrorResult ((pqClearAsyncResult c)\<lparr>errorMessage := ''out of memory for query result\<newline>''\<rparr>))"

definition store_tuple ::
  "'a pgconn_scheme \<Rightarrow> int \<Rightarrow> nat \<Rightarrow> pgresult \<Rightarrow> row \<Rightarrow> int \<Rightarrow> 'a pgconn_scheme option" where
  "store_tuple c msgLength p r tup iStreamingCursorRows =
     (case pqAddTuple r tup iStreamingCursorRows of
        None \<Rightarrow> out_of_memory c msgLength
      | Some r1 \<Rightarrow> Some (set_result c p (r1\<lparr>totalntups := totalntups r1 + 1\<rparr>)))"

text \<open>\<open>want\<close>: the row is handed to the caller (\<^verbatim>\<open>pTup\<close>), not stored.\<close>

definition getAnotherTuple ::
  "'a pgconn_scheme \<Rightarrow> int \<Rightarrow> bool \<Rightarrow> int \<Rightarrow> (bool \<times> row option \<times> 'a pgconn_scheme) option" where
  "getAnotherTuple c msgLength want iStreamingCursorRows =
     do {
       p \<leftarrow> result c;
       r \<leftarrow> results c p;
       let nfields = nat (numAttributes r);
       if \<not> rows_only c then
         (if mem_limit c \<noteq> 0 \<and> mem_limit c < mem_used r \<or> row_limit c \<noteq> 0 \<and> row_limit c < ntups r + 1 then
            Some (False, None, discard (set_result c p (r\<lparr>capped := True\<rparr>)) msgLength)
          else
            (let tup = (case curTuple c of None \<Rightarrow> replicate nfields no_att | Some t \<Rightarrow> t);
                 c0 = c\<lparr>curTuple := Some tup\<rparr> in
             case pqGetInt 2 c0 of
               (None, c1) \<Rightarrow> Some (True, None, c1)
             | (Some tupnfields, c1) \<Rightarrow>
                 if tupnfields \<noteq> numAttributes r then
                   map_option (\<lambda>c2. (False, None, discard c2 msgLength))
                     (pqSaveErrorResult (c1\<lparr>errorMessage := ''unexpected field count in \"D\" message\<newline>''\<rparr>))
                 else
                   (case scan_fields nfields 0 tup (mem_used r) c1 of (eof, tup1, mem1, c2) \<Rightarrow>
                     (let r1 = r\<lparr>mem_used := mem1\<rparr>; c3 = set_result (c2\<lparr>curTuple := Some tup1\<rparr>) p r1 in
                      if eof then Some (True, None, c3)
                      else if want then Some (False, Some tup1, c3\<lparr>curTuple := None\<rparr>)
                      else map_option (\<lambda>c4. (False, None, c4\<lparr>curTuple := None\<rparr>))
                             (store_tuple c3 msgLength p r1 tup1 iStreamingCursorRows)))))
       else
         Some (False, None, (discard (set_result c p (r\<lparr>myntups := myntups r + 1, totalntups := totalntups r + 1\<rparr>))
                               msgLength)\<lparr>curTuple := None\<rparr>)
     }"

definition addAnotherTuple :: "'a pgconn_scheme \<Rightarrow> int \<Rightarrow> row \<Rightarrow> int \<Rightarrow> 'a pgconn_scheme option" where
  "addAnotherTuple c msgLength tup iStreamingCursorRows =
     do {
       p \<leftarrow> result c;
       r \<leftarrow> results c p;
       if \<not> rows_only c then store_tuple c msgLength p r tup iStreamingCursorRows else Some c
     }"

subsection \<open>Row descriptions\<close>

text \<open>The attributes of \<^verbatim>\<open>extended metadata\<close>, from the flag word.\<close>

definition flag_bit :: "int \<Rightarrow> nat \<Rightarrow> bool" where
  "flag_bit temp i \<longleftrightarrow> (temp div 2 ^ i) mod 2 = 1"

definition extended_att :: "int \<Rightarrow> att_desc \<Rightarrow> byte list \<Rightarrow> byte list \<Rightarrow> byte list \<Rightarrow> byte list \<Rightarrow> int \<Rightarrow> att_desc" where
  "extended_att version d sname tname cname catname temp =
     d\<lparr>schema_name := Some sname, table_name := Some tname, col_name := Some cname, catalog_name := Some catname,
       nullable := (if flag_bit temp 0 then 0 else 1), autoincrement := of_cbool (flag_bit temp 4),
       read_only := of_cbool (flag_bit temp 8), searchable := of_cbool (flag_bit temp 12),
       case_sensitive := (if EXTENDED2_RESULT_METADATA_SERVER_PROTOCOL_VERSION \<le> version
                          then of_cbool (flag_bit temp 1) else -1)\<rparr>"

definition get_extended :: "int \<Rightarrow> att_desc \<Rightarrow> 'a pgconn_scheme \<Rightarrow> att_desc option \<times> 'a pgconn_scheme" where
  "get_extended version d =
     then_get pqGets (\<lambda>sname. then_get pqGets (\<lambda>tname. then_get pqGets (\<lambda>cname. then_get pqGets (\<lambda>catname.
       then_get (pqGetInt 2) (\<lambda>temp. got (extended_att version d sname tname cname catname temp))))))"

definition get_att_desc :: "int \<Rightarrow> 'a pgconn_scheme \<Rightarrow> att_desc option \<times> 'a pgconn_scheme" where
  "get_att_desc version =
     then_get pqGets (\<lambda>nm. then_get (pqGetInt 4) (\<lambda>tab. then_get (pqGetInt 2) (\<lambda>col. then_get (pqGetInt 4) (\<lambda>oid.
       then_get (pqGetInt 2) (\<lambda>len. then_get (pqGetInt 4) (\<lambda>md. then_get (pqGetInt 2) (\<lambda>fmt.
         (let d = \<lparr>ad_name = nm, tableid = tab mod 2 ^ 32, columnid = i16 col, format = i16 fmt, typid = oid mod 2 ^ 32, typlen = i16 len,
                   atttypmod = md, schema_name = None, table_name = None, col_name = None, catalog_name = None,
                   nullable = 0, autoincrement = 0, read_only = 0, searchable = 0, case_sensitive = 0\<rparr>
          in if EXTENDED_RESULT_METADATA_SERVER_PROTOCOL_VERSION \<le> version then get_extended version d
             else got (d\<lparr>nullable := 2\<rparr>)))))))))"

fun get_att_descs :: "int \<Rightarrow> nat \<Rightarrow> att_desc list \<Rightarrow> 'a pgconn_scheme \<Rightarrow> bool \<times> att_desc list \<times> 'a pgconn_scheme" where
  "get_att_descs version 0 done c = (False, done, c)"
| "get_att_descs version (Suc n) done c =
     (case get_att_desc version c of
        (None, c1) \<Rightarrow> (True, done, c1)
      | (Some d, c1) \<Rightarrow> get_att_descs version n (done @ [d]) c1)"

text \<open>\<^verbatim>\<open>getRowDescriptions\<close>; a result that is not the connection's own is discarded on failure.\<close>

definition getRowDescriptions :: "'a pgconn_scheme \<Rightarrow> (bool \<times> 'a pgconn_scheme) option" where
  "getRowDescriptions c =
     (case (if queryclass c = PGQUERY_DESCRIBE then
              (case result c of Some p \<Rightarrow> (p, c) | None \<Rightarrow> PQmakeEmptyPGresult c PGRES_COMMAND_OK)
            else PQmakeEmptyPGresult c PGRES_TUPLES_OK) of (p, c0) \<Rightarrow>
       do {
         r \<leftarrow> results c0 p;
         let failure = (\<lambda>c1. (True, if result c1 = Some p then c1 else PQclear c1 (Some p)));
         (case pqGetInt 2 c0 of
            (None, c1) \<Rightarrow> Some (failure c1)
          | (Some nfields, c1) \<Rightarrow>
              (case get_att_descs (server_protocol_version c) (nat nfields) [] c1 of (eof, ds, c2) \<Rightarrow>
                (let r1 = r\<lparr>numAttributes := nfields, attDescs := ds,
                            binary := (0 < nfields \<and> list_all (\<lambda>d. format d = 1) ds)\<rparr>;
                     c3 = set_result c2 p r1
                 in Some (if eof then failure c3
                          else (False, c3\<lparr>result := Some p, resultForDescRowPrep := Some p\<rparr>)))))
       })"

definition getParamDescriptions :: "'a pgconn_scheme \<Rightarrow> (bool \<times> 'a pgconn_scheme) option" where
  "getParamDescriptions c =
     (case PQmakeEmptyPGresult c PGRES_COMMAND_OK of (p, c0) \<Rightarrow>
       do {
         r \<leftarrow> results c0 p;
         (case pqGetInt 2 c0 of
            (None, c1) \<Rightarrow> Some (True, PQclear c1 (Some p))
          | (Some nparams, c1) \<Rightarrow>
              (case repeat_get (nat nparams) (pqGetInt 4) c1 of
                 (None, c2) \<Rightarrow> Some (True, PQclear c2 (Some p))
               | (Some ts, c2) \<Rightarrow>
                   Some (False, (set_result c2 p (r\<lparr>numParameters := nparams, paramDescs := map (\<lambda>t. t mod 2 ^ 32) ts\<rparr>))
                          \<lparr>result := Some p, resultForDescParam := Some p\<rparr>)))
       })"

subsection \<open>The short messages\<close>

definition getReadyForQuery :: "'a pgconn_scheme \<Rightarrow> bool \<times> 'a pgconn_scheme" where
  "getReadyForQuery c =
     (case pqGetc c of
        (None, c1) \<Rightarrow> (True, c1)
      | (Some b, c1) \<Rightarrow>
          (False, c1\<lparr>xactStatus := (if b = byte_of CHR ''I'' then PQTRANS_IDLE
                                    else if b = byte_of CHR ''T'' then PQTRANS_INTRANS
                                    else if b = byte_of CHR ''E'' then PQTRANS_INERROR
                                    else PQTRANS_UNKNOWN)\<rparr>))"

definition getNotify :: "'a pgconn_scheme \<Rightarrow> bool \<times> 'a pgconn_scheme" where
  "getNotify c =
     (case then_get (pqGetInt 4) (\<lambda>pid. then_get pqGets (\<lambda>svname. then_get pqGets (\<lambda>extra. got (pid, svname, extra)))) c of
        (None, c1) \<Rightarrow> (True, c1)
      | (Some n, c1) \<Rightarrow> (False, c1\<lparr>notifies := notifies c1 @ [n]\<rparr>))"

definition getBackendKey :: "'a pgconn_scheme \<Rightarrow> bool \<times> 'a pgconn_scheme" where
  "getBackendKey c =
     (case pqGetInt 4 c of
        (None, c1) \<Rightarrow> (True, c1)
      | (Some pid, c1) \<Rightarrow>
          (case pqGetInt 4 (c1\<lparr>be_pid := pid\<rparr>) of
             (None, c2) \<Rightarrow> (True, c2)
           | (Some key, c2) \<Rightarrow> (False, c2\<lparr>be_key := key\<rparr>)))"

end
