(* ===== verification/Pq_Notice.thy ===== *)
theory Pq_Notice
  imports Pq_Result
begin

text \<open>
  The messages that carry texts (\<^verbatim>\<open>fe-protocol3.c\<close>): errors and notices, and the parameters the
  server reports, with what the connection remembers of them (\<^verbatim>\<open>fe-exec.c\<close>). The cursor display
  \<^verbatim>\<open>reportErrorPosition\<close> and the table of encodings are functions of the connection.
\<close>

subsection \<open>Numbers in texts\<close>

text \<open>\<^verbatim>\<open>%d\<close> of \<^verbatim>\<open>sscanf\<close>: the number and the rest.\<close>

definition dec_value :: "string \<Rightarrow> int" where
  "dec_value s = foldl (\<lambda>n d. 10 * n + (of_char d - 48)) 0 s"

definition scan_d :: "string \<Rightarrow> (int \<times> string) option" where
  "scan_d s =
     (let s1 = dropWhile c_isspace s;
          neg = (s1 \<noteq> [] \<and> hd s1 = CHR ''-'');
          s2 = (if s1 \<noteq> [] \<and> (hd s1 = CHR ''-'' \<or> hd s1 = CHR ''+'') then tl s1 else s1);
          v = dec_value (takeWhile is_digit s2)
      in if takeWhile is_digit s2 = [] then None
         else Some (i32 (if neg then - v else v), dropWhile is_digit s2))"

text \<open>The numbers that \<^verbatim>\<open>"%d.%d.%d"\<close> assigns.\<close>

fun scan_dotted :: "nat \<Rightarrow> string \<Rightarrow> int list" where
  "scan_dotted 0 s = []"
| "scan_dotted (Suc n) s =
     (case scan_d s of
        None \<Rightarrow> []
      | Some (v, rest) \<Rightarrow> v # (case rest of (ch # t) \<Rightarrow> if ch = CHR ''.'' then scan_dotted n t else [] | [] \<Rightarrow> []))"

definition atoi :: "byte list \<Rightarrow> int" where
  "atoi v = (case scan_d (chars_of v) of None \<Rightarrow> 0 | Some (n, _) \<Rightarrow> n)"

subsection \<open>Parameters of the server\<close>

fun forget_status :: "byte list \<Rightarrow> (byte list \<times> byte list) list \<Rightarrow> (byte list \<times> byte list) list" where
  "forget_status nm [] = []"
| "forget_status nm (p # ps) = (if fst p = nm then ps else p # forget_status nm ps)"

definition server_version_num :: "byte list \<Rightarrow> int" where
  "server_version_num v =
     (case scan_dotted 3 (chars_of v) of
        [vmaj, vmin] \<Rightarrow> i32 ((100 * vmaj + vmin) * 100)
      | [vmaj, vmin, vrev] \<Rightarrow> i32 ((100 * vmaj + vmin) * 100 + vrev)
      | _ \<Rightarrow> 0)"

definition pqSaveParameterStatus :: "'a pgconn_scheme \<Rightarrow> byte list \<Rightarrow> byte list \<Rightarrow> 'a pgconn_scheme" where
  "pqSaveParameterStatus c nm v =
     (let c1 = c\<lparr>pstatus := (nm, v) # forget_status nm (pstatus c)\<rparr> in
      if chars_of nm = ''client_encoding'' then
        c1\<lparr>client_encoding := (if char_to_encoding c1 v < 0 then 0 else char_to_encoding c1 v)\<rparr>
      else if chars_of nm = ''standard_conforming_strings'' then c1\<lparr>std_strings := (chars_of v = ''on'')\<rparr>
      else if chars_of nm = ''server_version'' then c1\<lparr>sversion := server_version_num v\<rparr>
      else if chars_of nm = ''server_protocol_version'' then
        (case scan_d (chars_of v) of None \<Rightarrow> c1 | Some (n, _) \<Rightarrow> c1\<lparr>server_protocol_version := n\<rparr>)
      else c1)"

definition getParameterStatus :: "'a pgconn_scheme \<Rightarrow> bool \<times> 'a pgconn_scheme" where
  "getParameterStatus c =
     (case then_get pqGets (\<lambda>nm. then_get pqGets (\<lambda>v. got (nm, v))) c of
        (None, c1) \<Rightarrow> (True, c1)
      | (Some (nm, v), c1) \<Rightarrow> (False, pqSaveParameterStatus c1 nm v))"

subsection \<open>Errors and notices\<close>

lemma scan_nul_ge: "i \<le> scan_nul buf i e"
  by (induction buf i e rule: scan_nul.induct) (subst scan_nul.simps, auto)

function get_message_fields ::
  "(byte \<times> byte list) list \<Rightarrow> 'a pgconn_scheme \<Rightarrow> bool \<times> (byte \<times> byte list) list \<times> 'a pgconn_scheme" where
  "get_message_fields fs c =
     (case pqGetc c of
        (None, c1) \<Rightarrow> (True, fs, c1)
      | (Some code, c1) \<Rightarrow>
          if code = 0 then (False, fs, c1)
          else (case pqGets c1 of
                  (None, c2) \<Rightarrow> (True, fs, c2)
                | (Some v, c2) \<Rightarrow> get_message_fields ((code, v) # fs) c2))"
  by pat_completeness auto

termination
  by (relation "measure (\<lambda>(fs, c). inEnd c - inCursor c)")
     (auto simp: pqGetc_def pqGets_def pqGets_internal_def Let_def split: if_splits
       intro!: diff_less_mono2 le_less_trans [OF _ le_imp_less_Suc [OF scan_nul_ge]])

declare get_message_fields.simps [simp del]

definition PQresultErrorField :: "(byte \<times> byte list) list \<Rightarrow> char \<Rightarrow> byte list option" where
  "PQresultErrorField fs code = map_of fs (byte_of code)"

text \<open>A line \<^verbatim>\<open>prefix field suffix\<close>, nothing when the field is missing.\<close>

definition field_line :: "(byte \<times> byte list) list \<Rightarrow> string \<Rightarrow> char \<Rightarrow> string \<Rightarrow> string" where
  "field_line fs pre code suf =
     (case PQresultErrorField fs code of None \<Rightarrow> [] | Some v \<Rightarrow> pre @ chars_of v @ suf)"

text \<open>The query to show and the position in it, and the text added to the message otherwise.\<close>

definition error_place :: "'a pgconn_scheme \<Rightarrow> (byte \<times> byte list) list \<Rightarrow> byte list option \<times> int \<times> string" where
  "error_place c fs =
     (case PQresultErrorField fs CHR ''P'' of
        Some v \<Rightarrow>
          (if verbose c \<noteq> PQERRORS_TERSE \<and> last_query c \<noteq> None then (last_query c, atoi v, [])
           else (None, 0, '' at character '' @ chars_of v))
      | None \<Rightarrow>
          (case PQresultErrorField fs CHR ''p'' of
             Some v \<Rightarrow>
               (let q = PQresultErrorField fs CHR ''q'' in
                if verbose c \<noteq> PQERRORS_TERSE \<and> q \<noteq> None then (q, atoi v, [])
                else (q, 0, '' at character '' @ chars_of v))
           | None \<Rightarrow> (None, 0, [])))"

definition error_text :: "'a pgconn_scheme \<Rightarrow> (byte \<times> byte list) list \<Rightarrow> string" where
  "error_text c fs =
     (let head = field_line fs [] CHR ''S'' '':  '' @
            (if verbose c = PQERRORS_VERBOSE then field_line fs [] CHR ''C'' '': '' else []) @
            field_line fs [] CHR ''M'' [];
          nl = ''\<newline>''
      in case error_place c fs of (querytext, querypos, place) \<Rightarrow>
        (let m1 = head @ place @ nl;
             m2 = (if verbose c \<noteq> PQERRORS_TERSE then
                     (if querytext \<noteq> None \<and> 0 < querypos then error_position c m1 (the querytext) querypos else m1) @
                     field_line fs ''DETAIL:  '' CHR ''D'' nl @ field_line fs ''HINT:  '' CHR ''H'' nl @
                     field_line fs ''QUERY:  '' CHR ''q'' nl @ field_line fs ''CONTEXT:  '' CHR ''W'' nl
                   else m1);
             f = PQresultErrorField fs CHR ''F''; l = PQresultErrorField fs CHR ''L''; r = PQresultErrorField fs CHR ''R''
         in if verbose c = PQERRORS_VERBOSE \<and> (r \<noteq> None \<or> f \<noteq> None \<or> l \<noteq> None) then
              m2 @ ''LOCATION:  '' @ field_line fs [] CHR ''R'' '', '' @
              (if f \<noteq> None \<and> l \<noteq> None then chars_of (the f) @ '':'' @ chars_of (the l) else []) @ nl
            else m2))"

definition save_sqlstate :: "'a pgconn_scheme \<Rightarrow> (byte \<times> byte list) list \<Rightarrow> 'a pgconn_scheme" where
  "save_sqlstate c fs =
     (case PQresultErrorField fs CHR ''C'' of
        None \<Rightarrow> c
      | Some v \<Rightarrow> if length v < 6 then c\<lparr>last_sqlstate := v\<rparr> else c)"

text \<open>\<^verbatim>\<open>_pqGetErrorNotice3\<close>. On the cursor's thread the connection's result is not cleared.\<close>

definition pqGetErrorNotice3 :: "'a pgconn_scheme \<Rightarrow> bool \<Rightarrow> bool \<Rightarrow> bool \<times> 'a pgconn_scheme" where
  "pqGetErrorNotice3 c isError calledFromCscThread =
     (case PQmakeEmptyPGresult c PGRES_EMPTY_QUERY of (p, c0) \<Rightarrow>
       (case get_message_fields [] c0 of (eof, fs, c1) \<Rightarrow>
         if eof then (True, PQclear c1 (Some p))
         else
           (let c2 = save_sqlstate c1 fs; msg = error_text c1 fs in
            if isError then
              (let r = (empty_result PGRES_FATAL_ERROR)\<lparr>errFields := fs, errMsg := Some msg\<rparr>;
                   c3 = (if calledFromCscThread then c2\<lparr>curTuple := None\<rparr> else pqClearAsyncResult c2);
                   c4 = set_result c3 p r
               in (False, c4\<lparr>result := Some p, errorMessage := errorMessage c4 @ msg\<rparr>))
            else (False, PQclear (c2\<lparr>notices := notices c2 @ [msg]\<rparr>) (Some p)))))"

end
