(* ===== verification/Pq_State.thy ===== *)
theory Pq_State
  imports Pq_Notice
begin

text \<open>
  The state around the message loop: \<^verbatim>\<open>MessageLoopState.c\<close>,
  \<^verbatim>\<open>ClientSideCursorExecutor.c\<close> and \<^verbatim>\<open>ClientSideCursorThread.c\<close>. A statement
  execution has a loop state, which keeps the result being returned and the client-side cursor that collects
  its rows; the statement context keeps the streaming cursor. The record extends the connection, so that one
  value is all the state that the loop, the reading thread and the statement share. Cursors live in a store
  like results. The statement's result handler is modelled by the list of the results handed to it.
\<close>

record msgloop =
  ml_maxRows :: int
  ml_resultsettype :: int
  ml_concurrency :: int
  ml_pgResult :: "nat option"
  endQuery :: bool
  executeIndex :: int
  multiThreads :: bool
  ml_csc :: "nat option"
  threadCreated :: bool
  rowsInMemReturned :: bool
  multiLock :: "multilock option"
  skipResultNumber :: int
  skipAllResults :: bool

text \<open>
  The executor is \<open>None\<close> without client-side cursors, its options are \<open>None\<close> when they are not
  enabled. \<open>csc_thread\<close> is the thread object, which says whether the thread was really started.
\<close>

record pqstate = pgconn +
  cscs :: "nat \<Rightarrow> csc option"
  mloop :: "msgloop option"
  cscExecutor :: "cscoptions option option"
  csc_thread :: "bool option"
  cscStopThread :: bool
  pghost :: string
  iSocketError :: bool
  cscThreadCreated :: bool
  calledFromCscThread :: bool
  alreadyInitMsgLoopState :: bool
  streamingMode :: bool
  streamingCursorRows :: int
  endOfStreamingCursor :: bool
  streamResultBatchNumber :: int
  endOfStreamingCursorQuery :: bool
  skipStreamingCursor :: bool
  hasResultHandler :: bool
  handled :: "nat list"
  iStop :: bool
  sys :: world
  shutdownHook :: "hook option"
  ltime :: int
  thread_starts :: bool
  cal_maxRows :: int
  cal_resultsettype :: int
  cal_concurrency :: int

definition SQL_CONCUR_READ_ONLY :: int where "SQL_CONCUR_READ_ONLY = 1"

definition set_loop :: "pqstate \<Rightarrow> msgloop \<Rightarrow> pqstate" where
  "set_loop s m = s\<lparr>mloop := Some m\<rparr>"

definition set_csc :: "pqstate \<Rightarrow> nat \<Rightarrow> csc \<Rightarrow> pqstate" where
  "set_csc s a c = s\<lparr>cscs := (cscs s)(a \<mapsto> c)\<rparr>"

subsection \<open>Creating the cursor of a result\<close>

definition createCSCResultObj :: "pqstate \<Rightarrow> int \<Rightarrow> int \<Rightarrow> int \<Rightarrow> int \<Rightarrow> nat option \<times> pqstate" where
  "createCSCResultObj s maxRows resultsettype index resultsetconcurrency =
     (case cscExecutor s of
        Some (Some opts) \<Rightarrow>
          (if m_enable opts \<and> resultsetconcurrency = SQL_CONCUR_READ_ONLY then
             (case createCscResult (sys s) (ltime s) (fresh s) opts maxRows (pghost s) (be_pid s) None
                     resultsettype index of
                None \<Rightarrow> (None, s)
              | Some c \<Rightarrow> (Some (fresh s), (set_csc s (fresh s) c)\<lparr>fresh := fresh s + 1\<rparr>))
           else (None, s))
      | _ \<Rightarrow> (None, s))"

text \<open>\<^verbatim>\<open>createOrResetCscMultiResultLock\<close>; \<open>None\<close>: the reset waits.\<close>

definition createOrResetCscMultiResultLock :: "pqstate \<Rightarrow> bool \<Rightarrow> multilock option \<Rightarrow> multilock option option" where
  "createOrResetCscMultiResultLock s multi lock =
     (case cscExecutor s of
        Some (Some opts) \<Rightarrow>
          (if m_enable opts \<and> multi then
             (case lock of
                None \<Rightarrow> Some (createCscMultiResultLock (w_nomem (sys s)))
              | Some l \<Rightarrow> map_option Some (resetCscMultiResultLock l))
           else Some None)
      | _ \<Rightarrow> Some None)"

definition initMessageLoopStateCsc :: "pqstate \<Rightarrow> msgloop \<Rightarrow> int \<Rightarrow> int \<Rightarrow> bool \<Rightarrow> nat option \<Rightarrow> int \<Rightarrow> pqstate option" where
  "initMessageLoopStateCsc s m maxRows resultsettype multi pgResult concurrency =
     (case (if cscExecutor s \<noteq> None then createCSCResultObj s maxRows resultsettype 0 concurrency else (None, s)) of
        (csc, s1) \<Rightarrow>
          map_option (\<lambda>lock.
              set_loop s1 \<lparr>ml_maxRows = maxRows, ml_resultsettype = resultsettype, ml_concurrency = concurrency,
                ml_pgResult = pgResult, endQuery = False, executeIndex = 0, multiThreads = multi, ml_csc = csc,
                threadCreated = False, rowsInMemReturned = False,
                multiLock = map_option (\<lambda>l. setResultExecutionNumberCscMultiResultLock l 1) lock,
                skipResultNumber = 0, skipAllResults = False\<rparr>)
            (if cscExecutor s \<noteq> None then createOrResetCscMultiResultLock s1 multi (multiLock m) else Some None))"

text \<open>The loop state of a new statement; \<open>None\<close>: no memory.\<close>

definition createDfltMessageLoopStateCsc :: "bool \<Rightarrow> msgloop option" where
  "createDfltMessageLoopStateCsc nomem =
     (if nomem then None
      else Some \<lparr>ml_maxRows = 0, ml_resultsettype = 0, ml_concurrency = SQL_CONCUR_READ_ONLY, ml_pgResult = None,
        endQuery = False, executeIndex = 0, multiThreads = False, ml_csc = None, threadCreated = False,
        rowsInMemReturned = False, multiLock = None, skipResultNumber = 0, skipAllResults = False\<rparr>)"

text \<open>The executor of a connection: it has options when client-side cursors are enabled.\<close>

definition createCscExecutor ::
  "string option \<Rightarrow> (string \<Rightarrow> bool) \<Rightarrow> bool \<Rightarrow> string \<Rightarrow> bool \<Rightarrow> int \<Rightarrow> int \<Rightarrow> string option \<Rightarrow>
   cscoptions option option \<times> string" where
  "createCscExecutor tmpdir acc nomem dflt iCscEnable llCscThreshold llCscMaxFileSize szCscPath =
     (if nomem then (None, dflt)
      else if iCscEnable then
        (case createCscOptions tmpdir acc nomem dflt iCscEnable llCscThreshold llCscMaxFileSize szCscPath of
           (opts, dflt1) \<Rightarrow> (Some opts, dflt1))
      else (Some None, dflt))"

definition setSkipResultNumberCsc :: "msgloop \<Rightarrow> int \<Rightarrow> msgloop" where
  "setSkipResultNumberCsc m n = m\<lparr>skipResultNumber := n\<rparr>"

definition setSkipAllResultsCsc :: "msgloop \<Rightarrow> bool \<Rightarrow> msgloop" where
  "setSkipAllResultsCsc m b = m\<lparr>skipAllResults := b\<rparr>"

subsection \<open>End of one result\<close>

text \<open>The cursor's output file is closed, whatever that returns; \<open>None\<close>: the cursor was freed.\<close>

definition close_output :: "pqstate \<Rightarrow> nat \<Rightarrow> bool \<Rightarrow> pqstate option" where
  "close_output s a signal =
     map_option (\<lambda>c. case closeOutputFileCsc (sys s) c of (rc, w1, c1) \<Rightarrow>
         set_csc (s\<lparr>sys := w1\<rparr>) a (if signal then signalForFullResultReadFromServerCsc w1 c1 else c1))
       (cscs s a)"

definition resetAfterOneResultReadFromServerFinishCsc ::
  "pqstate \<Rightarrow> msgloop \<Rightarrow> int \<Rightarrow> nat option \<Rightarrow> pqstate option" where
  "resetAfterOneResultReadFromServerFinishCsc s m index pNextCscResult =
     do {
       let m1 = m\<lparr>ml_pgResult := None, rowsInMemReturned := False\<rparr>;
       (s1, m2) \<leftarrow>
         (case ml_csc m1 of
            None \<Rightarrow> Some (s, m1)
          | Some a \<Rightarrow>
              map_option (\<lambda>s1.
                  (s1, m1\<lparr>ml_csc := None,
                    multiLock := map_option (\<lambda>l.
                      if threadCreated m1
                      then signalForFullResultReadFromServerCscMultiResultLock (w_platform (sys s1)) l False
                      else setResultExecutionNumberCscMultiResultLock l (getResultExecutionNumberCscMultiResultLock l + 1))
                      (multiLock m1)\<rparr>))
                (close_output s a (threadCreated m1)));
       let (csc, s2) =
         (case pNextCscResult of
            Some a \<Rightarrow> (Some a, s1)
          | None \<Rightarrow> createCSCResultObj s1 (ml_maxRows m2) (ml_resultsettype m2) index (ml_concurrency m2));
       Some (set_loop s2 (setSkipResultNumberCsc (m2\<lparr>ml_csc := csc\<rparr>) 0))
     }"

definition resetAfterOneResultReadFromServerFinishForStreamingCursor :: "pqstate \<Rightarrow> pqstate" where
  "resetAfterOneResultReadFromServerFinishForStreamingCursor s =
     (let s1 = s\<lparr>endOfStreamingCursor := True\<rparr> in
      if 0 < streamResultBatchNumber s1 then s1\<lparr>result := None\<rparr> else s1)"

subsection \<open>The reading thread\<close>

text \<open>The thread object is there even when the thread could not be started.\<close>

definition createCscThread :: "pqstate \<Rightarrow> bool option" where
  "createCscThread s = (if w_nomem (sys s) then None else Some (thread_starts s))"

definition call_result_handler :: "pqstate \<Rightarrow> nat option \<Rightarrow> pqstate" where
  "call_result_handler s p =
     (if hasResultHandler s \<and> calledFromCscThread s
      then s\<lparr>handled := handled s @ (case p of None \<Rightarrow> [] | Some a \<Rightarrow> [a])\<rparr> else s)"

definition createProcessingThreadCsc :: "pqstate \<Rightarrow> msgloop \<Rightarrow> nat option \<Rightarrow> nat option \<Rightarrow> (bool \<times> pqstate) option" where
  "createProcessingThreadCsc s m pCscResult pgResult =
     do {
       s1 \<leftarrow> (case pCscResult of
                None \<Rightarrow> Some s
              | Some a \<Rightarrow> map_option (\<lambda>c. if m_fileCreated c then set_csc s a (createLockCsc (sys s) c) else s) (cscs s a));
       s2 \<leftarrow> (case pgResult of
                None \<Rightarrow> Some s1
              | Some p \<Rightarrow> map_option (\<lambda>r. set_result s1 p (r\<lparr>res_csc := pCscResult\<rparr>)) (results s1 p));
       let s3 = call_result_handler s2 pgResult;
       let m1 = m\<lparr>ml_pgResult := pgResult, rowsInMemReturned := True,
                  multiLock := map_option (\<lambda>l.
                    signalForFirstBatchInMemResultReadFromServerCscMultiResultLock (w_platform (sys s3)) l
                      (executeIndex m + 1)) (multiLock m)\<rparr>;
       if \<not> threadCreated m1 then
         (let t = createCscThread s3; s4 = s3\<lparr>csc_thread := t\<rparr> in
          if t = None then
            (case pCscResult of
               None \<Rightarrow> None
             | Some a \<Rightarrow> map_option (\<lambda>c. (False, set_loop (set_csc s4 a (resetLockCsc c)) m1)) (cscs s4 a))
          else Some (True, set_loop s4 (m1\<lparr>threadCreated := True\<rparr>)))
       else Some (False, set_loop s3 m1)
     }"

definition endOfQueryResponseCsc :: "pqstate \<Rightarrow> msgloop \<Rightarrow> pqstate option" where
  "endOfQueryResponseCsc s m =
     do {
       s1 \<leftarrow> (case ml_csc m of None \<Rightarrow> Some s | Some a \<Rightarrow> close_output s a (threadCreated m));
       let s2 = (case ml_csc m of None \<Rightarrow> s1 | Some a \<Rightarrow> s1\<lparr>cscs := (cscs s1)(a := None)\<rparr>);
       Some (set_loop s2 (m\<lparr>endQuery := True, ml_pgResult := None, executeIndex := 0, ml_csc := None,
         skipAllResults := False, skipResultNumber := 0,
         multiLock := map_option (\<lambda>l.
           signalForFullResultReadFromServerCscMultiResultLock (w_platform (sys s2)) l True) (multiLock m)\<rparr>))
     }"

definition checkForIOExceptionCsc :: "pqstate \<Rightarrow> pqstate option" where
  "checkForIOExceptionCsc s =
     (case mloop s of
        None \<Rightarrow> Some s
      | Some m \<Rightarrow>
          (case ml_csc m of
             None \<Rightarrow> Some s
           | Some a \<Rightarrow>
               map_option (\<lambda>c.
                   if iSocketError s then set_csc s a (setIOExceptionCsc (sys s) c 1)
                   else if \<not> endQuery m then set_csc s a (signalForFullResultReadFromServerCsc (sys s) c)
                   else s)
                 (cscs s a)))"

definition resetFromCscThread :: "pqstate \<Rightarrow> pqstate" where
  "resetFromCscThread s = s\<lparr>csc_thread := None, cscStopThread := False\<rparr>"

definition resetStreamingCursorStatementConext :: "pqstate \<Rightarrow> pqstate" where
  "resetStreamingCursorStatementConext s =
     s\<lparr>endOfStreamingCursor := False, streamResultBatchNumber := 0, endOfStreamingCursorQuery := False,
       skipStreamingCursor := False\<rparr>"

definition resetCscStatementConext :: "pqstate \<Rightarrow> pqstate" where
  "resetCscStatementConext s =
     resetStreamingCursorStatementConext (s\<lparr>calledFromCscThread := False, alreadyInitMsgLoopState := False\<rparr>)"

subsection \<open>Waiting for the thread\<close>

text \<open>\<open>None\<close>: the call blocks in this state.\<close>

definition waitForCscThreadToFinish :: "pqstate \<Rightarrow> bool \<Rightarrow> pqstate option" where
  "waitForCscThreadToFinish s calledFromConnectionClose =
     (case csc_thread s of
        None \<Rightarrow> Some s
      | Some running \<Rightarrow>
          if running then None
          else Some (if calledFromConnectionClose then s\<lparr>cscStopThread := False\<rparr> else s))"

definition waitForCscNextResult :: "pqstate \<Rightarrow> msgloop \<Rightarrow> int \<Rightarrow> pqstate option" where
  "waitForCscNextResult s m resultExecutionNumber =
     (if \<not> endQuery m \<and> csc_thread s \<noteq> None then
        (case (if 0 < resultExecutionNumber then multiLock m else None) of
           Some l \<Rightarrow>
             (let cur = getResultExecutionNumberCscMultiResultLock l in
              do {
                l1 \<leftarrow> (if resultExecutionNumber = cur
                      then waitForFullResultReadFromServerCscMultiResultLock l resultExecutionNumber else Some l);
                l2 \<leftarrow> (if cur \<le> resultExecutionNumber + 1
                      then waitForFirstBatchInMemResultReadFromServerCscMultiResultLock l1 (resultExecutionNumber + 1)
                      else Some l1);
                Some (set_loop s (setSkipResultNumberCsc (m\<lparr>multiLock := Some l2\<rparr>) 0))
              })
         | None \<Rightarrow> waitForCscThreadToFinish s False)
      else Some s)"

end
