(* ===== verification/Pq_Loop.thy ===== *)
theory Pq_Loop
  imports Pq_State
begin

text \<open>
  The message loop: \<^verbatim>\<open>_pqParseInput3\<close> of \<^verbatim>\<open>fe-protocol3.c\<close> takes the complete
  messages out of the input buffer, one handler for each type, and the loops of \<^verbatim>\<open>fe-exec.c\<close> around it
  read from the socket until a result is ready. A handler says whether the message is consumed (\<open>Next\<close>), the
  parser returns at once (\<open>Suspend\<close>), or it returns after consuming the message (\<open>Last\<close>). \<open>None\<close>:
  a freed object is used, or the call blocks for ever.
\<close>

datatype verdict = Next | Suspend | Last

type_synonym handler_result = "(verdict \<times> pqstate) option"

text \<open>The loop state, when client-side cursors are in use (\<^verbatim>\<open>pMessageLoopState && pCscExecutor\<close>).\<close>

definition csc_loop :: "pqstate \<Rightarrow> msgloop option" where
  "csc_loop s = (if cscExecutor s = None then None else mloop s)"

subsection \<open>Passing a result on\<close>

definition has_rows :: "pqstate \<Rightarrow> msgloop \<Rightarrow> bool option" where
  "has_rows s m =
     (case ml_pgResult m of
        None \<Rightarrow> Some (rowsInMemReturned m)
      | Some p \<Rightarrow> map_option (\<lambda>r. tuples r \<noteq> None \<or> rowsInMemReturned m) (results s p))"

text \<open>The result gets its cursor and goes to the handler of the statement, unless that was done before.\<close>

definition return_rows :: "pqstate \<Rightarrow> msgloop \<Rightarrow> pqstate option" where
  "return_rows s m =
     (if rowsInMemReturned m then Some s
      else (case ml_pgResult m of
              None \<Rightarrow> Some (call_result_handler s None)
            | Some p \<Rightarrow> map_option (\<lambda>r. call_result_handler (set_result s p (r\<lparr>res_csc := ml_csc m\<rparr>)) (Some p))
                (results s p)))"

definition next_index :: "msgloop \<Rightarrow> msgloop" where
  "next_index m = m\<lparr>executeIndex := executeIndex m + 1\<rparr>"

definition own_result :: "pqstate \<Rightarrow> msgloop \<Rightarrow> msgloop" where
  "own_result s m = (if ml_pgResult m = None then m\<lparr>ml_pgResult := result s\<rparr> else m)"

subsection \<open>Handlers\<close>

definition with_empty_result :: "pqstate \<Rightarrow> exec_status \<Rightarrow> pqstate" where
  "with_empty_result s status =
     (if result s = None then (case PQmakeEmptyPGresult s status of (p, s1) \<Rightarrow> s1\<lparr>result := Some p\<rparr>) else s)"

text \<open>Command complete, with client-side cursors.\<close>

definition complete_csc :: "pqstate \<Rightarrow> msgloop \<Rightarrow> pqstate option" where
  "complete_csc s m0 =
     do {
       let m = own_result s m0;
       let s1 = (if calledFromCscThread s then s\<lparr>result := None, asyncStatus := PGASYNC_BUSY\<rparr> else s);
       rows \<leftarrow> has_rows s1 m;
       if rows then
         do {
           s2 \<leftarrow> return_rows s1 m;
           let m1 = next_index m;
           resetAfterOneResultReadFromServerFinishCsc s2 m1 (executeIndex m1) None
         }
       else
         (case ml_pgResult m of
            None \<Rightarrow> Some (set_loop s1 m)
          | Some p \<Rightarrow>
              do {
                r \<leftarrow> results s1 p;
                if resultStatus r = PGRES_COMMAND_OK then
                  (let s2 = call_result_handler s1 (Some p); m1 = next_index m in
                   resetAfterOneResultReadFromServerFinishCsc s2 m1 (executeIndex m1) None)
                else Some (set_loop s1 m)
              })
     }"

definition msg_C :: "pqstate \<Rightarrow> handler_result" where
  "msg_C s =
     (case pqGets s of
        (None, s1) \<Rightarrow> Some (Suspend, s1)
      | (Some tag, s1) \<Rightarrow>
          do {
            let s2 = with_empty_result s1 PGRES_COMMAND_OK;
            p \<leftarrow> result s2;
            r \<leftarrow> results s2 p;
            let s3 = (set_result s2 p (r\<lparr>cmdStatus := take CMDSTATUS_LEN tag\<rparr>))\<lparr>asyncStatus := PGASYNC_READY\<rparr>;
            s4 \<leftarrow> (case csc_loop s3 of
                     Some m \<Rightarrow> complete_csc s3 m
                   | None \<Rightarrow> Some (if streamingMode s3 then resetAfterOneResultReadFromServerFinishForStreamingCursor s3
                                   else s3));
            Some (Next, s4)
          })"

definition msg_E :: "pqstate \<Rightarrow> handler_result" where
  "msg_E s =
     (case pqGetErrorNotice3 s True (calledFromCscThread s) of (eof, s1) \<Rightarrow>
       Some (if eof then (Suspend, s1) else (Next, s1\<lparr>asyncStatus := PGASYNC_READY\<rparr>)))"

definition msg_Z :: "pqstate \<Rightarrow> handler_result" where
  "msg_Z s =
     (case getReadyForQuery s of (eof, s1) \<Rightarrow>
       if eof then Some (Suspend, s1)
       else
         (let s2 = s1\<lparr>asyncStatus := PGASYNC_IDLE\<rparr> in
          map_option (Pair Next)
            (case csc_loop s2 of
               Some m \<Rightarrow> endOfQueryResponseCsc s2 m
             | None \<Rightarrow> Some (if streamingMode s2 then s2\<lparr>endOfStreamingCursorQuery := True\<rparr> else s2))))"

definition msg_I :: "pqstate \<Rightarrow> handler_result" where
  "msg_I s = Some (Next, (with_empty_result s PGRES_EMPTY_QUERY)\<lparr>asyncStatus := PGASYNC_READY\<rparr>)"

definition msg_1 :: "pqstate \<Rightarrow> handler_result" where
  "msg_1 s =
     Some (Next, if queryclass s = PGQUERY_PREPARE
                 then (with_empty_result s PGRES_COMMAND_OK)\<lparr>asyncStatus := PGASYNC_READY\<rparr> else s)"

text \<open>Row description.\<close>

definition msg_T :: "pqstate \<Rightarrow> handler_result" where
  "msg_T s =
     (if result s = None \<or> queryclass s = PGQUERY_DESCRIBE then
        (let s1 = (if streamingMode s \<and> 0 < streamResultBatchNumber s
                   then s\<lparr>endOfStreamingCursor := True, result := None\<rparr> else s) in
         do {
           (eof, s2) \<leftarrow> getRowDescriptions s1;
           if eof then Some (Suspend, s2)
           else
             (let s3 = (if queryclass s2 = PGQUERY_DESCRIBE then s2\<lparr>asyncStatus := PGASYNC_READY\<rparr> else s2) in
              case csc_loop s3 of
                None \<Rightarrow> Some (Next, s3)
              | Some m0 \<Rightarrow>
                  do {
                    let m = own_result s3 m0;
                    rows \<leftarrow> has_rows s3 m;
                    if rows then
                      do {
                        s4 \<leftarrow> return_rows s3 m;
                        map_option (Pair Next)
                          (resetAfterOneResultReadFromServerFinishCsc s4 m (executeIndex m + 1) None)
                      }
                    else Some (Next, set_loop s3 m)
                  })
         })
      else Some (Suspend, s\<lparr>asyncStatus := PGASYNC_READY\<rparr>))"

text \<open>No data.\<close>

definition msg_n :: "pqstate \<Rightarrow> handler_result" where
  "msg_n s =
     (if queryclass s = PGQUERY_DESCRIBE then
        (let s1 = (if streamingMode s then resetAfterOneResultReadFromServerFinishForStreamingCursor s else s);
             s2 = with_empty_result s1 PGRES_COMMAND_OK in
         do {
           s3 \<leftarrow> (case csc_loop s2 of
                    None \<Rightarrow> Some s2
                  | Some m0 \<Rightarrow>
                      do {
                        let m = own_result s2 m0;
                        let s3 = (if calledFromCscThread s2 then s2\<lparr>result := None\<rparr> else s2);
                        rows \<leftarrow> has_rows s3 m;
                        if rows then
                          do {
                            s4 \<leftarrow> return_rows s3 m;
                            let m1 = next_index m;
                            resetAfterOneResultReadFromServerFinishCsc s4 m1 (executeIndex m1) None
                          }
                        else Some (set_loop s3 m)
                      });
           Some (Next, s3\<lparr>asyncStatus := PGASYNC_READY\<rparr>)
         })
      else Some (Next, s))"

subsection \<open>Data rows\<close>

definition loop_csc :: "pqstate \<Rightarrow> nat option" where
  "loop_csc s = (case mloop s of None \<Rightarrow> None | Some m \<Rightarrow> ml_csc m)"

definition skip_row :: "pqstate \<Rightarrow> bool option" where
  "skip_row s =
     (case mloop s of
        Some m \<Rightarrow>
          (case ml_csc m of
             Some a \<Rightarrow> map_option (\<lambda>c. skipAllResults m \<or>
                 skipResultNumber m \<noteq> 0 \<and> skipResultNumber m = executeIndex m + 1 \<or> m_skipResult c \<or> m_maxRowsReached c)
               (cscs s a)
           | None \<Rightarrow> Some (streamingMode s \<and> skipStreamingCursor s))
      | None \<Rightarrow> Some (streamingMode s \<and> skipStreamingCursor s))"

text \<open>
  Accounting for a row, and the file when the threshold is reached with this row: the cursor
  and whether a thread is to read on.
\<close>

definition account_row :: "pqstate \<Rightarrow> nat \<Rightarrow> csc \<Rightarrow> int \<Rightarrow> bool \<Rightarrow> (bool \<times> pqstate \<times> csc) option" where
  "account_row s a c0 msgLength multi =
     (let c = setRawRowLengthCsc (incRowCountAndCheckForMaxRowsCsc c0) msgLength in
      if \<not> m_alreadyReachedThreshold c then
        (case checkForThresholdLimitReachCsc c 0 (m_rawRowLength c) True of (reach, c1) \<Rightarrow>
          if reach then
            do {
              p \<leftarrow> result s;
              r \<leftarrow> results s p;
              (rc, w1, gp1, c2) \<leftarrow> createFileCsc (sys s) (shutdownHook s) c1 (Some (pgres.truncate r));
              Some (multi, s\<lparr>sys := w1, shutdownHook := gp1\<rparr>, setThresholdReachCsc c2 True)
            }
          else Some (False, s, c1))
      else Some (False, s, c))"

text \<open>The row goes to the file or to the result; the flag says that the parser returns, a batch is full.\<close>

definition keep_row :: "pqstate \<Rightarrow> row option \<Rightarrow> int \<Rightarrow> (nat \<times> csc) option \<Rightarrow> row option \<Rightarrow> bool \<Rightarrow> (bool \<times> pqstate) option" where
  "keep_row s saved msgLength ac tuple restore =
     do {
       p \<leftarrow> result s;
       r \<leftarrow> results s p;
       (case ac of
          Some (a, c) \<Rightarrow>
            if m_alreadyReachedThreshold c then
              (case writeRowCsc (sys s) c tuple (numAttributes r) of (rc, w1, c1) \<Rightarrow>
                 Some (False, (set_csc (s\<lparr>sys := w1\<rparr>) a c1)\<lparr>curTuple := (if restore then saved else curTuple s)\<rparr>))
            else
              (let s1 = set_csc s a c in
               case tuple of
                 Some t \<Rightarrow> map_option (Pair False) (addAnotherTuple s1 msgLength t 0)
               | None \<Rightarrow> Some (False, s1))
        | None \<Rightarrow>
            if streamingMode s \<and> totalntups r = streamingCursorRows s then
              Some (True, s\<lparr>inStart := inCursor s, iStop := True, streamResultBatchNumber := streamResultBatchNumber s + 1\<rparr>)
            else Some (False, s))
     }"

text \<open>Handing over to the thread, after the row that reached the threshold.\<close>

definition start_thread :: "pqstate \<Rightarrow> handler_result" where
  "start_thread s =
     (case mloop s of
        None \<Rightarrow> None
      | Some m \<Rightarrow>
          do {
            let savInStart = inStart s;
            (created, s1) \<leftarrow> createProcessingThreadCsc (s\<lparr>cscThreadCreated := True, inStart := inCursor s\<rparr>) m
                              (ml_csc m) (result s);
            if created then Some (Suspend, s1\<lparr>iStop := True\<rparr>)
            else Some (Next, s1\<lparr>inStart := savInStart, cscThreadCreated := False\<rparr>)
          })"

definition enough_bytes :: "pqstate \<Rightarrow> bool option" where
  "enough_bytes s =
     (if output_nbytes s = 0 then Some False
      else do { p \<leftarrow> result s; r \<leftarrow> results s p; Some (output_nbytes s \<le> mem_used r) })"

text \<open>A data row that is not skipped.\<close>

definition take_row :: "pqstate \<Rightarrow> int \<Rightarrow> handler_result" where
  "take_row s msgLength =
     (let a = loop_csc s; saved = curTuple s in
      do {
        restore \<leftarrow> (case a of None \<Rightarrow> Some False | Some x \<Rightarrow> map_option m_alreadyReachedThreshold (cscs s x));
        (eof, tuple, s1) \<leftarrow> getAnotherTuple s msgLength (a \<noteq> None) (if streamingMode s then streamingCursorRows s else 0);
        if eof then Some (Suspend, s1)
        else
          do {
            full \<leftarrow> enough_bytes s1;
            if full then Some (Last, s1)
            else
              (case a of
                 None \<Rightarrow>
                   do { (stop, s2) \<leftarrow> keep_row s1 saved msgLength None tuple restore;
                        Some (if stop then Suspend else Next, s2) }
               | Some x \<Rightarrow>
                   do {
                     c \<leftarrow> cscs s1 x;
                     m \<leftarrow> mloop s1;
                     (createThread, s2, c1) \<leftarrow> account_row s1 x c msgLength (multiThreads m);
                     (stop, s3) \<leftarrow> keep_row s2 saved msgLength (Some (x, c1)) tuple restore;
                     if createThread then start_thread s3 else Some (Next, s3)
                   })
          }
      })"

definition msg_D :: "pqstate \<Rightarrow> int \<Rightarrow> handler_result" where
  "msg_D s msgLength =
     (let no_description = (\<lambda>s. map_option (\<lambda>s1. (Next, s1\<lparr>inCursor := inCursor s1 + nat msgLength\<rparr>))
            (pqSaveErrorResult (s\<lparr>errorMessage :=
              ''server sent data (\"D\" message) without prior row description (\"T\" message)\<newline>''\<rparr>))) in
      case result s of
        None \<Rightarrow> no_description s
      | Some p \<Rightarrow>
          do {
            r \<leftarrow> results s p;
            (if resultStatus r = PGRES_TUPLES_OK then
               do {
                 skip \<leftarrow> skip_row s;
                 if skip then
                   (let s1 = snd (skipAnotherTuple s msgLength) in
                    do { full \<leftarrow> enough_bytes s1; Some (if full then Last else Next, s1) })
                 else take_row s msgLength
               }
             else if resultStatus r = PGRES_FATAL_ERROR then Some (Next, s\<lparr>inCursor := inCursor s + nat msgLength\<rparr>)
             else no_description s)
          })"

definition unexpected :: "pqstate \<Rightarrow> byte \<Rightarrow> int \<Rightarrow> handler_result" where
  "unexpected s code msgLength =
     map_option (\<lambda>s1. (Next, s1\<lparr>asyncStatus := PGASYNC_READY, inCursor := inCursor s1 + nat msgLength\<rparr>))
       (pqSaveErrorResult (s\<lparr>errorMessage :=
          ''unexpected response from server; first received character was \"'' @ chars_of [code] @ ''\"\<newline>''\<rparr>))"

subsection \<open>One message\<close>

definition suspended :: "bool \<times> pqstate \<Rightarrow> handler_result" where
  "suspended e = Some (if fst e then Suspend else Next, snd e)"

definition busy_message :: "pqstate \<Rightarrow> byte \<Rightarrow> int \<Rightarrow> handler_result" where
  "busy_message s code msgLength =
     (let ch = char_of (unat code) in
      if ch = CHR ''C'' then msg_C s
      else if ch = CHR ''E'' then msg_E s
      else if ch = CHR ''Z'' then msg_Z s
      else if ch = CHR ''I'' then msg_I s
      else if ch = CHR ''1'' then msg_1 s
      else if ch = CHR ''2'' \<or> ch = CHR ''3'' then Some (Next, s)
      else if ch = CHR ''S'' then suspended (getParameterStatus s)
      else if ch = CHR ''K'' then suspended (getBackendKey s)
      else if ch = CHR ''T'' then msg_T s
      else if ch = CHR ''n'' then msg_n s
      else if ch = CHR ''t'' then Option.bind (getParamDescriptions s) suspended
      else if ch = CHR ''D'' then msg_D s msgLength
      else unexpected s code msgLength)"

text \<open>A \<^verbatim>\<open>char\<close> printed with \<^verbatim>\<open>%02x\<close>; it is signed.\<close>

definition hex_char :: "byte \<Rightarrow> string" where
  "hex_char b = (let n = unat b; d = (\<lambda>k. ''0123456789abcdef'' ! k) in
     (if n < 128 then [] else ''ffffff'') @ [d (n div 16), d (n mod 16)])"

definition handle_message :: "pqstate \<Rightarrow> byte \<Rightarrow> int \<Rightarrow> handler_result" where
  "handle_message s code msgLength =
     (let ch = char_of (unat code) in
      if ch = CHR ''A'' then suspended (getNotify s)
      else if ch = CHR ''N'' then suspended (pqGetErrorNotice3 s False False)
      else if asyncStatus s \<noteq> PGASYNC_BUSY then
        (if asyncStatus s \<noteq> PGASYNC_IDLE then Some (Suspend, s)
         else if ch = CHR ''E'' then suspended (pqGetErrorNotice3 s False (calledFromCscThread s))
         else if ch = CHR ''S'' then suspended (getParameterStatus s)
         else Some (Next, s\<lparr>notices := notices s @ [''message type 0x'' @ hex_char code @ '' arrived from server while idle''],
                            inCursor := inCursor s + nat msgLength\<rparr>))
      else busy_message s code msgLength)"

definition VALID_LONG_MESSAGE_TYPE :: "byte \<Rightarrow> bool" where
  "VALID_LONG_MESSAGE_TYPE code \<longleftrightarrow> char_of (unat code) \<in> set ''TDdVENAt''"

definition handleSyncLoss :: "pqstate \<Rightarrow> byte \<Rightarrow> int \<Rightarrow> pqstate option" where
  "handleSyncLoss s code msgLength =
     map_option (\<lambda>s1. drop_connection (s1\<lparr>asyncStatus := PGASYNC_READY\<rparr>))
       (pqSaveErrorResult (s\<lparr>errorMessage := ''lost synchronization with server: got message type \"'' @
          chars_of [code] @ ''\", length '' @ dec_int msgLength @ ''\<newline>''\<rparr>))"

text \<open>After the handler: parsing must have ended where the length of the message says.\<close>

definition consume_message :: "nat \<Rightarrow> byte \<Rightarrow> int \<Rightarrow> pqstate \<Rightarrow> pqstate option" where
  "consume_message start code msgLength s =
     (if int (inCursor s) = int start + 5 + msgLength then Some (s\<lparr>inStart := inCursor s\<rparr>)
      else map_option (\<lambda>s1. s1\<lparr>asyncStatus := PGASYNC_READY, inStart := nat (int start + 5 + msgLength)\<rparr>)
        (pqSaveErrorResult (s\<lparr>errorMessage :=
           ''message contents do not agree with length in message type \"'' @ chars_of [code] @ ''\"\<newline>''\<rparr>)))"

text \<open>One round of the loop; the flag says that it goes on.\<close>

definition parse_round :: "pqstate \<Rightarrow> (bool \<times> pqstate) option" where
  "parse_round s0 =
     (if calledFromCscThread s0 \<and> csc_loop s0 \<noteq> None \<and> cscStopThread s0 then Some (False, s0)
      else
        (let s = s0\<lparr>inCursor := inStart s0\<rparr> in
         case pqGetc s of
           (None, s1) \<Rightarrow> Some (False, s1)
         | (Some code, s1) \<Rightarrow>
             (case pqGetInt 4 s1 of
                (None, s2) \<Rightarrow> Some (False, s2)
              | (Some len, s2) \<Rightarrow>
                  if len < 4 \<or> 30000 < len \<and> \<not> VALID_LONG_MESSAGE_TYPE code then
                    map_option (Pair False) (handleSyncLoss s2 code len)
                  else
                    (let msgLength = len - 4; avail = int (inEnd s2) - int (inCursor s2);
                         s3 = (if code = byte_of CHR ''Z'' \<and> avail \<le> 1 then s2\<lparr>lastseg := True\<rparr> else s2) in
                     if avail < msgLength then
                       (case pqCheckInBufferSpace (int (inCursor s3) + msgLength) s3 of (eof, s4) \<Rightarrow>
                         map_option (Pair False) (if eof then handleSyncLoss s4 code msgLength else Some s4))
                     else
                       do {
                         (v, s4) \<leftarrow> handle_message s3 code msgLength;
                         if v = Suspend then Some (False, s4)
                         else map_option (Pair (v = Next)) (consume_message (inStart s3) code msgLength s4)
                       }))))"

partial_function (option) pqParseInput3 :: "pqstate \<Rightarrow> pqstate option" where
  "pqParseInput3 s =
     Option.bind (parse_round s) (\<lambda>(go, s1). if go then pqParseInput3 s1 else Some s1)"

subsection \<open>Reading until a result is ready\<close>

text \<open>
  \<^verbatim>\<open>_pqGetResultLoopOnThread\<close>; the query has been sent, so that \<^verbatim>\<open>pqFlush\<close>
  returns 0. The socket is part of the argument and of what is returned.
\<close>

partial_function (option) result_loop :: "recv list \<Rightarrow> pqstate \<Rightarrow> (recv list \<times> pqstate) option" where
  "result_loop es s =
     (if asyncStatus s = PGASYNC_BUSY \<and> \<not> (iStop s \<or> cscThreadCreated s \<and> \<not> calledFromCscThread s) then
        (let failed = (\<lambda>es1 s1. map_option (\<lambda>s2. (es1, s2\<lparr>asyncStatus := PGASYNC_IDLE, iSocketError := True\<rparr>))
               (pqSaveErrorResult s1)) in
         Option.bind (pqWait_read es s) (\<lambda>(err, es1, s1).
           if err then failed es1 s1
           else (case pqReadData es1 s1 of (rc, es2, s2) \<Rightarrow>
             if rc < 0 then failed es2 s2
             else Option.bind (pqParseInput3 s2) (\<lambda>s3. result_loop es2 s3))))
      else Some (es, s))"

definition pqGetResultLoopOnThread :: "recv list \<Rightarrow> pqstate \<Rightarrow> (recv list \<times> pqstate) option" where
  "pqGetResultLoopOnThread es s =
     Option.bind (pqParseInput3 (s\<lparr>iSocketError := False, iStop := False\<rparr>)) (\<lambda>s1. result_loop es s1)"

definition pqGetResultLoop :: "recv list \<Rightarrow> pqstate \<Rightarrow> (recv list \<times> pqstate) option" where
  "pqGetResultLoop es s =
     do {
       s1 \<leftarrow> (case mloop s of
                Some m \<Rightarrow>
                  if \<not> alreadyInitMsgLoopState s then
                    initMessageLoopStateCsc (s\<lparr>alreadyInitMsgLoopState := True\<rparr>) m (cal_maxRows s)
                      (cal_resultsettype s) True (result s) (cal_concurrency s)
                  else Some s
              | None \<Rightarrow> Some s);
       pqGetResultLoopOnThread es s1
     }"

definition async_num :: "async_status \<Rightarrow> int" where
  "async_num a = (case a of PGASYNC_IDLE \<Rightarrow> 0 | PGASYNC_BUSY \<Rightarrow> 1 | PGASYNC_READY \<Rightarrow> 2)"

definition pqGetResult :: "recv list \<Rightarrow> pqstate \<Rightarrow> (nat option \<times> recv list \<times> pqstate) option" where
  "pqGetResult es s =
     do {
       (es1, s1) \<leftarrow> pqGetResultLoop es s;
       if iSocketError s1 then
         map_option (\<lambda>(p, s2). (Some p, es1, s2)) (pqPrepareAsyncResult (s1\<lparr>iSocketError := False\<rparr>))
       else if cscThreadCreated s1 then Some (result s1, es1, s1)
       else if streamingMode s1 \<and> \<not> endOfStreamingCursor s1 \<and> 0 < streamResultBatchNumber s1 then Some (result s1, es1, s1)
       else
         (case asyncStatus s1 of
            PGASYNC_IDLE \<Rightarrow> Some (None, es1, s1)
          | PGASYNC_READY \<Rightarrow>
              map_option (\<lambda>(p, s2). (Some p, es1, s2\<lparr>asyncStatus := PGASYNC_BUSY\<rparr>)) (pqPrepareAsyncResult s1)
          | _ \<Rightarrow>
              (case PQmakeEmptyPGresult (s1\<lparr>errorMessage := ''unexpected asyncStatus: '' @
                       dec_int (async_num (asyncStatus s1)) @ ''\<newline>''\<rparr>) PGRES_FATAL_ERROR of (p, s2) \<Rightarrow>
                Some (Some p, es1, s2)))
     }"

subsection \<open>The cursor's thread\<close>

definition runCscThread :: "recv list \<Rightarrow> pqstate \<Rightarrow> (recv list \<times> pqstate) option" where
  "runCscThread es s =
     do {
       (es1, s1) \<leftarrow> pqGetResultLoopOnThread es (s\<lparr>calledFromCscThread := True\<rparr>);
       s2 \<leftarrow> checkForIOExceptionCsc s1;
       Some (es1, resetCscStatementConext (resetFromCscThread s2))
     }"

end
