(* ===== verification/Pq_Pump.thy ===== *)
theory Pq_Pump
  imports Pq_Loop
begin

text \<open>
  How the message loop and the socket work together: whatever the pieces in which a message arrives, the loop
  comes to the state in which the whole message stands in the buffer, and nothing else has changed. Every
  property of a sequence of messages rests on this. The encoder of messages is the server's.
\<close>

subsection \<open>Messages on the wire\<close>

definition put_msg :: "char \<Rightarrow> byte list \<Rightarrow> byte list" where
  "put_msg ch body = byte_of ch # net_bytes 4 (int (length body) + 4) @ body"

definition msg_ok :: "char \<Rightarrow> byte list \<Rightarrow> bool" where
  "msg_ok ch body \<longleftrightarrow> length body < 2 ^ 28 \<and> (length body + 4 \<le> 30000 \<or> ch \<in> set ''TdDVENAt'')"

lemma length_put_msg [simp]: "length (put_msg ch body) = 5 + length body"
  by (simp add: put_msg_def)

lemma char_of_byte_of [simp]: "char_of (unat (byte_of ch)) = ch"
proof -
  have "(of_char ch :: nat) < 256" by simp
  then have "unat (byte_of ch) = of_char ch"
    by (simp add: byte_of_def unat_of_nat take_bit_eq_mod)
  then show ?thesis by simp
qed

lemma byte_of_inj [simp]: "(byte_of a = byte_of b) = (a = b)"
  by (metis char_of_byte_of)

text \<open>Only the buffer has changed, and the flag for the last segment.\<close>

definition near :: "pqstate \<Rightarrow> pqstate \<Rightarrow> bool" where
  "near s s' \<longleftrightarrow> (\<exists>b st u e l. s' = s\<lparr>inBuffer := b, inStart := st, inCursor := u, inEnd := e, lastseg := l\<rparr>)"

lemma nearI: "s' = s\<lparr>inBuffer := b, inStart := st, inCursor := u, inEnd := e, lastseg := l\<rparr> \<Longrightarrow> near s s'"
  unfolding near_def by blast

lemma near_refl [simp]: "near s s"
  by (rule nearI [where b = "inBuffer s" and st = "inStart s" and u = "inCursor s" and e = "inEnd s" and l = "lastseg s"]) simp

lemma near_trans: "near a b \<Longrightarrow> near b c \<Longrightarrow> near a c"
  unfolding near_def by (elim exE, simp) (intro exI, rule refl)

lemma rebuffered_near:
  assumes "rebuffered s s'"
  shows "near s s'"
proof (rule nearI)
  have "s\<lparr>inBuffer := inBuffer s', inStart := inStart s', inCursor := inCursor s', inEnd := inEnd s', lastseg := lastseg s\<rparr> =
      s\<lparr>inBuffer := inBuffer s', inStart := inStart s', inCursor := inCursor s', inEnd := inEnd s'\<rparr>" by simp
  also have "\<dots> = s'" using assms by (simp add: rebuffered_def)
  finally show "s' = s\<lparr>inBuffer := inBuffer s', inStart := inStart s', inCursor := inCursor s', inEnd := inEnd s',
    lastseg := lastseg s\<rparr>" by (rule sym)
qed

lemma near_update [simp]: "near s (s\<lparr>inCursor := u\<rparr>)" "near s (s\<lparr>inCursor := u, lastseg := l\<rparr>)" "near s (s\<lparr>lastseg := l\<rparr>)"
  by (rule nearI [where b = "inBuffer s" and st = "inStart s" and e = "inEnd s" and u = u and l = "lastseg s"], simp)
     (rule nearI [where b = "inBuffer s" and st = "inStart s" and e = "inEnd s" and u = u and l = l], simp,
      rule nearI [where b = "inBuffer s" and st = "inStart s" and e = "inEnd s" and u = "inCursor s" and l = l], simp)

definition stopped :: "pqstate \<Rightarrow> bool" where
  "stopped s \<longleftrightarrow> calledFromCscThread s \<and> csc_loop s \<noteq> None \<and> cscStopThread s"

definition open_loop :: "pqstate \<Rightarrow> bool" where
  "open_loop s \<longleftrightarrow> asyncStatus s = PGASYNC_BUSY \<and> \<not> iStop s \<and> (cscThreadCreated s \<longrightarrow> calledFromCscThread s) \<and>
     \<not> stopped s"

lemma near_sel:
  assumes "near s s'"
  shows "asyncStatus s' = asyncStatus s" "iStop s' = iStop s" "cscThreadCreated s' = cscThreadCreated s"
    "calledFromCscThread s' = calledFromCscThread s" "csc_loop s' = csc_loop s" "cscStopThread s' = cscStopThread s"
    "sock_open s' = sock_open s" "result s' = result s" "results s' = results s" "curTuple s' = curTuple s"
    "stopped s' = stopped s" "open_loop s' = open_loop s"
  using assms by (auto simp: near_def open_loop_def stopped_def csc_loop_def)

subsection \<open>The header of a message\<close>

lemma restart:
  assumes "in_wf s"
  shows "in_wf (s\<lparr>inCursor := inStart s\<rparr>)" "unread (s\<lparr>inCursor := inStart s\<rparr>) = pending s"
  using assms by (simp_all add: in_wf_def inBufSize_def unread_def pending_def)

lemma read_header:
  assumes "in_wf s" and "pending s = byte_of ch # net_bytes 4 n @ rest" and "int4_ok n"
  shows "pqGetc (s\<lparr>inCursor := inStart s\<rparr>) = (Some (byte_of ch), s\<lparr>inCursor := inStart s + 1\<rparr>)"
    "pqGetInt 4 (s\<lparr>inCursor := inStart s + 1\<rparr>) = (Some n, s\<lparr>inCursor := inStart s + 5\<rparr>)"
    "unread (s\<lparr>inCursor := inStart s + 5\<rparr>) = rest" "in_wf (s\<lparr>inCursor := inStart s + 5\<rparr>)"
proof -
  note r = restart [OF assms(1)]
  have u: "unread (s\<lparr>inCursor := inStart s\<rparr>) = [byte_of ch] @ net_bytes 4 n @ rest" using r(2) assms(2) by simp
  note 1 = getc.get_put [OF r(1) u TrueI]
  show "pqGetc (s\<lparr>inCursor := inStart s\<rparr>) = (Some (byte_of ch), s\<lparr>inCursor := inStart s + 1\<rparr>)"
    using 1(1) by simp
  have u2: "unread (s\<lparr>inCursor := inStart s + 1\<rparr>) = net_bytes 4 n @ rest" and w2: "in_wf (s\<lparr>inCursor := inStart s + 1\<rparr>)"
    using 1(2,3) by simp_all
  note 2 = int4.get_put [OF w2 u2 assms(3)]
  show "pqGetInt 4 (s\<lparr>inCursor := inStart s + 1\<rparr>) = (Some n, s\<lparr>inCursor := inStart s + 5\<rparr>)"
    "unread (s\<lparr>inCursor := inStart s + 5\<rparr>) = rest" "in_wf (s\<lparr>inCursor := inStart s + 5\<rparr>)"
    using 2 by (simp_all add: add.commute)
qed

subsection \<open>One round of the parser\<close>

definition at_body :: "pqstate \<Rightarrow> bool \<Rightarrow> pqstate" where
  "at_body s l = s\<lparr>inCursor := inStart s + 5, lastseg := l\<rparr>"

lemma int4_ok_len: "msg_ok ch body \<Longrightarrow> int4_ok (int (length body) + 4)"
  by (simp add: msg_ok_def int4_ok_def)

lemma len_accepted:
  assumes "msg_ok ch body"
  shows "\<not> (int (length body) + 4 < 4 \<or> 30000 < int (length body) + 4 \<and> \<not> VALID_LONG_MESSAGE_TYPE (byte_of ch))"
  using assms by (auto simp: msg_ok_def VALID_LONG_MESSAGE_TYPE_def)

lemma at_body_ok:
  assumes "in_wf s" and "msg_ok ch body" and "pending s = put_msg ch body @ rest"
  shows "unread (at_body s l) = body @ rest" "in_wf (at_body s l)" "inStart (at_body s l) = inStart s"
    "inCursor (at_body s l) = inStart s + 5" "near s (at_body s l)"
proof -
  have "pending s = byte_of ch # net_bytes 4 (int (length body) + 4) @ (body @ rest)"
    using assms(3) by (simp add: put_msg_def)
  note h = read_header [OF assms(1) this int4_ok_len [OF assms(2)]]
  show "unread (at_body s l) = body @ rest" using h(3) by (simp add: at_body_def unread_def)
  show "in_wf (at_body s l)" using h(4) by (simp add: at_body_def in_wf_def inBufSize_def)
qed (simp_all add: at_body_def)

lemma if_False_eq: "\<not> P \<Longrightarrow> (if P then x else y) = y"
  by simp

lemma parse_round_body:
  assumes st: "\<not> stopped s" and c: "pqGetc (s\<lparr>inCursor := inStart s\<rparr>) = (Some (byte_of ch), s1)"
    and n: "pqGetInt 4 s1 = (Some (int (length body) + 4), s\<lparr>inCursor := inStart s + 5\<rparr>)" and ok: "msg_ok ch body"
  defines "s3 \<equiv> at_body s (byte_of ch = byte_of CHR ''Z'' \<and> int (inEnd s) - (int (inStart s) + 5) \<le> 1 \<or> lastseg s)"
    and "len \<equiv> int (length body)"
  shows "parse_round s =
    (if int (inEnd s) - (int (inStart s) + 5) < len then
       (case pqCheckInBufferSpace (int (inStart s) + 5 + len) s3 of (eof, s4) \<Rightarrow>
          map_option (Pair False) (if eof then handleSyncLoss s4 (byte_of ch) len else Some s4))
     else Option.bind (handle_message s3 (byte_of ch) len) (\<lambda>(v, s4).
       if v = Suspend then Some (False, s4)
       else map_option (Pair (v = Next)) (consume_message (inStart s) (byte_of ch) len s4)))"
proof -
  let ?s2 = "s\<lparr>inCursor := inStart s + 5\<rparr>"
  have s3: "(if byte_of ch = byte_of CHR ''Z'' \<and> int (inEnd ?s2) - int (inCursor ?s2) \<le> 1 then ?s2\<lparr>lastseg := True\<rparr> else ?s2) = s3"
    by (auto simp: s3_def at_body_def)
  have sel: "inCursor s3 = inStart s + 5" "inStart s3 = inStart s" by (simp_all add: s3_def at_body_def)
  have l4: "int (length body) + 4 - 4 = len" by (simp add: len_def)
  show ?thesis
    unfolding parse_round_def if_False_eq [OF st [unfolded stopped_def conj_assoc]] Let_def c n prod.case option.case
      if_False_eq [OF len_accepted [OF ok]] s3 l4 sel
    by simp
qed

lemma parse_round_message:
  assumes "in_wf s" and "\<not> stopped s" and "msg_ok ch body" and "pending s = put_msg ch body @ rest"
  shows "\<exists>l. parse_round s =
    Option.bind (handle_message (at_body s l) (byte_of ch) (int (length body))) (\<lambda>(v, s4).
      if v = Suspend then Some (False, s4)
      else map_option (Pair (v = Next)) (consume_message (inStart s) (byte_of ch) (int (length body)) s4))"
proof -
  have p: "pending s = byte_of ch # net_bytes 4 (int (length body) + 4) @ (body @ rest)"
    using assms(4) by (simp add: put_msg_def)
  note h = read_header [OF assms(1) p int4_ok_len [OF assms(3)]]
  have "length (body @ rest) = inEnd s - (inStart s + 5)" using length_unread [OF h(4)] h(3) by simp
  moreover have "inStart s + 5 \<le> inEnd s" using h(4) by (simp add: in_wf_def)
  ultimately have "\<not> int (inEnd s) - (int (inStart s) + 5) < int (length body)" by simp
  then show ?thesis
    unfolding parse_round_body [OF assms(2) h(1,2) assms(3)] by (subst if_False_eq) (assumption, blast)
qed

text \<open>While a message is incomplete, the parser returns and keeps what has arrived.\<close>

lemma parse_round_partial:
  assumes w: "in_wf s" and "\<not> stopped s" and ok: "msg_ok ch body"
    and pre: "pending s = take k (put_msg ch body)" and k: "k < 5 + length body"
    and room: "0 < inBufSize s" "inStart s + 5 + length body \<le> 2 ^ 28"
  obtains s' where "parse_round s = Some (False, s')" "near s s'" "in_wf s'" "pending s' = pending s"
    "inEnd s' = inEnd s" "inBufSize s \<le> inBufSize s'"
proof -
  have len: "k = inEnd s - inStart s" "inStart s \<le> inEnd s"
    using length_pending [OF w] pre k w by (auto simp: in_wf_def)
  let ?s0 = "s\<lparr>inCursor := inStart s\<rparr>"
  note r = restart [OF w]
  consider "k = 0" | "0 < k" "k < 5" | "5 \<le> k" by linarith
  then show thesis
  proof cases
    case 1
    with len have "pqGetc ?s0 = (None, ?s0)" by (simp add: pqGetc_def)
    with assms(2) have "parse_round s = Some (False, ?s0)" by (auto simp: parse_round_def stopped_def Let_def)
    then show thesis using that [of ?s0] r by (simp add: pending_def inBufSize_def)
  next
    case 2
    let ?s1 = "s\<lparr>inCursor := inStart s + 1\<rparr>"
    from 2 len have "pqGetc ?s0 = (Some (inBuffer s ! inStart s), ?s1)" "pqGetInt 4 ?s1 = (None, ?s1)"
      by (auto simp: pqGetc_def pqGetInt_def)
    with assms(2) have "parse_round s = Some (False, ?s1)" by (auto simp: parse_round_def stopped_def Let_def)
    moreover have "in_wf ?s1" using 2 len w by (auto simp: in_wf_def inBufSize_def)
    ultimately show thesis using that [of ?s1] by (simp add: pending_def inBufSize_def)
  next
    case 3
    then have p: "pending s = byte_of ch # net_bytes 4 (int (length body) + 4) @ take (k - 5) body"
      using pre by (auto simp: put_msg_def take_Cons' numeral_eq_Suc)
    note h = read_header [OF w p int4_ok_len [OF ok]]
    let ?s3 = "at_body s (byte_of ch = byte_of CHR ''Z'' \<and> int (inEnd s) - (int (inStart s) + 5) \<le> 1 \<or> lastseg s)"
    have w3: "in_wf ?s3" using h(4) by (simp add: at_body_def in_wf_def inBufSize_def)
    have "int (inEnd s) - (int (inStart s) + 5) < int (length body)" using len k by linarith
    then have pr: "parse_round s =
        (case pqCheckInBufferSpace (int (inStart s) + 5 + int (length body)) ?s3 of (eof, s4) \<Rightarrow>
           map_option (Pair False) (if eof then handleSyncLoss s4 (byte_of ch) (int (length body)) else Some s4))"
      unfolding parse_round_body [OF assms(2) h(1,2) ok] by (rule if_P)
    have "0 < inBufSize ?s3" "int (inStart s) + 5 + int (length body) \<le> 2 ^ 29"
      using room by (simp_all add: at_body_def inBufSize_def)
    then obtain s4 where "pqCheckInBufferSpace (int (inStart s) + 5 + int (length body)) ?s3 = (False, s4)"
      "rebuffered ?s3 s4" "in_wf s4" "inStart s4 = inStart ?s3" "inEnd s4 = inEnd ?s3"
      "take (inEnd ?s3) (inBuffer s4) = take (inEnd ?s3) (inBuffer ?s3)" "inBufSize ?s3 \<le> inBufSize s4"
      using pqCheckInBufferSpace_ok [OF _ _ w3] by metis
    note 4 = this
    have "near s s4" by (rule near_trans [OF _ rebuffered_near [OF 4(2)]]) (simp add: at_body_def)
    with 4 pr show thesis using that [of s4] by (simp add: at_body_def pending_def inBufSize_def)
  qed
qed

subsection \<open>The parser and the socket\<close>

definition pump :: "recv list \<Rightarrow> pqstate \<Rightarrow> (recv list \<times> pqstate) option" where
  "pump es s = Option.bind (pqParseInput3 s) (result_loop es)"

lemma pump_next: "parse_round s = Some (True, s1) \<Longrightarrow> pump es s = pump es s1"
  by (simp add: pump_def pqParseInput3.simps [of s])

lemma pump_halt: "parse_round s = Some (False, s1) \<Longrightarrow> pump es s = result_loop es s1"
  by (simp add: pump_def pqParseInput3.simps [of s])

lemma result_loop_done: "\<not> open_loop s \<Longrightarrow> \<not> stopped s \<Longrightarrow> result_loop es s = Some (es, s)"
  by (subst result_loop.simps) (auto simp: open_loop_def)

text \<open>A connection that is receiving: the buffer is well formed, and the socket works.\<close>

definition receiving :: "recv list \<Rightarrow> pqstate \<Rightarrow> bool" where
  "receiving es s \<longleftrightarrow> in_wf s \<and> sock_open s \<and> calm es \<and> in_room s es"

lemma loop_read:
  assumes s: "open_loop s" and r: "receiving es s" and "payload es \<noteq> []"
  obtains es' s' where "result_loop es s = pump es' s'" "near s s'" "receiving es' s'"
    "pending s' @ payload es' = pending s @ payload es" "sock_weight es' < sock_weight es"
proof -
  have c: "asyncStatus s = PGASYNC_BUSY \<and> \<not> (iStop s \<or> cscThreadCreated s \<and> \<not> calledFromCscThread s)"
    using s by (auto simp: open_loop_def)
  from r have rs: "in_wf s" "sock_open s" "calm es" "in_room s es" by (auto simp: receiving_def)
  obtain es1 where 1: "pqWait_read es s = Some (False, es1, s)" "calm es1" "payload es1 = payload es"
      "sock_weight es1 \<le> sock_weight es"
  proof (cases "inCursor s < inEnd s")
    case True
    then show thesis using that [of es] rs by (simp add: pqWait_read_def)
  next
    case False
    then show thesis using that wait_readable_ok [OF rs(3) assms(3)] rs(2) by (auto simp: pqWait_read_def)
  qed
  have room1: "in_room s es1" using rs(4) 1(3) by (simp add: in_room_def)
  have "es1 \<noteq> []" using 1(3) assms(3) by auto
  with pqReadData_ok [OF rs(1,2) 1(2) room1] obtain rc es2 s2 where
    2: "pqReadData es1 s = (rc, es2, s2)" "0 \<le> rc" "calm es2" "rebuffered s s2" "in_wf s2"
      "pending s2 @ payload es2 = pending s @ payload es1" "in_room s2 es2" "sock_weight es2 < sock_weight es1"
    by metis
  note n = rebuffered_near [OF 2(4)]
  have "result_loop es s = pump es2 s2"
    using c 2(2) by (subst result_loop.simps) (simp add: 1(1) 2(1) pump_def)
  then show thesis
    using that [of es2 s2] n 2 1 rs(2) near_sel(7) [OF n] by (simp add: receiving_def)
qed

text \<open>The loop gathers one whole message, in whatever pieces it arrives.\<close>

lemma pump_gather:
  assumes "open_loop s" and "receiving es s" and "msg_ok ch body"
    and "pending s @ payload es = put_msg ch body @ rest"
  shows "\<exists>es' s' front. pump es s = pump es' s' \<and> near s s' \<and> receiving es' s' \<and>
    pending s' = put_msg ch body @ front \<and> front @ payload es' = rest"
  using assms
proof (induction "sock_weight es" arbitrary: es s rule: less_induct)
  case less
  show ?case
  proof (cases "5 + length body \<le> length (pending s)")
    case True
    have front: "pending s = put_msg ch body @ drop (5 + length body) (pending s)"
      using arg_cong [OF less.prems(4), of "take (5 + length body)"] True
      by simp (metis append_take_drop_id)
    then have "drop (5 + length body) (pending s) @ payload es = rest"
      using less.prems(4) by (metis append.assoc same_append_eq)
    with front obtain front where "pending s = put_msg ch body @ front" "front @ payload es = rest" by blast
    then show ?thesis using less.prems(2) by (intro exI [of _ es] exI [of _ s] exI [of _ front]) simp
  next
    case False
    let ?k = "length (pending s)"
    have w: "in_wf s" using less.prems(2) by (simp add: receiving_def)
    have k: "?k < 5 + length body" using False by simp
    have pre: "pending s = take ?k (put_msg ch body)"
      using arg_cong [OF less.prems(4), of "take ?k"] k by simp
    have tot: "length (put_msg ch body) + length rest = length (pending s) + length (payload es)"
      using arg_cong [OF less.prems(4), of length] by simp
    have "inStart s + length (pending s) = inEnd s" using length_pending [OF w] w by (simp add: in_wf_def)
    with tot less.prems(2) have room: "0 < inBufSize s" "inStart s + 5 + length body \<le> 2 ^ 28"
      by (auto simp: receiving_def in_room_def)
    have nst: "\<not> stopped s" using less.prems(1) by (simp add: open_loop_def)
    from parse_round_partial [OF w nst less.prems(3) pre k room]
    obtain s1 where s1: "parse_round s = Some (False, s1)" "near s s1" "in_wf s1" "pending s1 = pending s"
      "inEnd s1 = inEnd s" "inBufSize s \<le> inBufSize s1" by blast
    have r1: "receiving es s1"
      using less.prems(2) s1 near_sel(7) [OF s1(2)] by (simp add: receiving_def in_room_def)
    have o1: "open_loop s1" using less.prems(1) near_sel [OF s1(2)] by simp
    have "payload es \<noteq> []" using tot k by auto
    from loop_read [OF o1 r1 this] obtain es2 s2 where
      2: "result_loop es s1 = pump es2 s2" "near s1 s2" "receiving es2 s2"
      "pending s2 @ payload es2 = pending s1 @ payload es" "sock_weight es2 < sock_weight es" by blast
    have "open_loop s2" using o1 near_sel [OF 2(2)] by simp
    moreover have "pending s2 @ payload es2 = put_msg ch body @ rest" using 2(4) s1(4) less.prems(4) by simp
    ultimately obtain es' s' front where "pump es2 s2 = pump es' s'" "near s2 s'" "receiving es' s'"
      "pending s' = put_msg ch body @ front" "front @ payload es' = rest"
      using less.hyps [OF 2(5) _ 2(3) less.prems(3)] by blast
    moreover have "near s s'" using s1(2) 2(2) \<open>near s2 s'\<close> by (blast intro: near_trans)
    ultimately show ?thesis using pump_halt [OF s1(1), of es] 2(1) by auto
  qed
qed

text \<open>A message whose handler consumes it moves the loop on.\<close>

lemma consume_ok:
  "inCursor s = start + 5 + n \<Longrightarrow> consume_message start code (int n) s = Some (s\<lparr>inStart := inCursor s\<rparr>)"
  by (simp add: consume_message_def)

definition moved :: "pqstate \<Rightarrow> pqstate \<Rightarrow> nat \<Rightarrow> bool" where
  "moved s t n \<longleftrightarrow> inBuffer t = inBuffer s \<and> inStart t = inStart s \<and> inEnd t = inEnd s \<and>
     inCursor t = inCursor s + n \<and> sock_open t = sock_open s"

lemma pump_message:
  assumes s: "open_loop s" and r: "receiving es s" and ok: "msg_ok ch body"
    and p: "pending s @ payload es = put_msg ch body @ rest"
    and h: "\<And>t. near s t \<Longrightarrow> in_wf t \<Longrightarrow> (\<exists>front. unread t = body @ front) \<Longrightarrow> inCursor t = inStart t + 5 \<Longrightarrow>
      \<exists>u. handle_message t (byte_of ch) (int (length body)) = Some (Next, u) \<and> moved t u (length body) \<and> Q u"
    and Q: "\<And>u v. Q u \<Longrightarrow> near u v \<Longrightarrow> Q v"
  shows "\<exists>es' s'. pump es s = pump es' s' \<and> receiving es' s' \<and> pending s' @ payload es' = rest \<and> Q s'"
proof -
  from pump_gather [OF s r ok p] obtain es1 s1 front where
    1: "pump es s = pump es1 s1" "near s s1" "receiving es1 s1" "pending s1 = put_msg ch body @ front"
      "front @ payload es1 = rest" by blast
  have w: "in_wf s1" and nst: "\<not> stopped s1"
    using 1(3) s near_sel [OF 1(2)] by (auto simp: receiving_def open_loop_def)
  from parse_round_message [OF w nst ok 1(4)] obtain l where pr: "parse_round s1 =
    Option.bind (handle_message (at_body s1 l) (byte_of ch) (int (length body))) (\<lambda>(v, s4).
      if v = Suspend then Some (False, s4)
      else map_option (Pair (v = Next)) (consume_message (inStart s1) (byte_of ch) (int (length body)) s4))" by blast
  note b = at_body_ok [OF w ok 1(4), of l]
  from h [OF near_trans [OF 1(2) b(5)] b(2)] b obtain u where
    u: "handle_message (at_body s1 l) (byte_of ch) (int (length body)) = Some (Next, u)"
      "moved (at_body s1 l) u (length body)" "Q u" by auto
  let ?s' = "u\<lparr>inStart := inCursor u\<rparr>"
  have cu: "inCursor u = inStart s1 + 5 + length body" using u(2) b by (simp add: moved_def)
  have "parse_round s1 = Some (True, ?s')" by (simp add: pr u(1) consume_ok [OF cu])
  with 1(1) have pump: "pump es s = pump es1 ?s'" using pump_next by simp
  have fits: "5 + length body \<le> inEnd s1 - inStart s1" using length_pending [OF w] 1(4) by simp
  have e: "inBuffer u = inBuffer s1" "inEnd u = inEnd s1" "sock_open u = sock_open s1"
    using u(2) by (simp_all add: moved_def at_body_def)
  have "pending ?s' = drop (5 + length body) (pending s1)"
    using e cu by (simp add: pending_def add.commute add.left_commute)
  also have "\<dots> = front" by (simp add: 1(4))
  finally have pend: "pending ?s' = front" .
  have w': "in_wf ?s'" using w fits e cu by (auto simp: in_wf_def inBufSize_def)
  have "receiving es1 ?s'" using 1(3) w' e by (simp add: receiving_def in_room_def inBufSize_def)
  moreover have "Q ?s'" by (rule Q [OF u(3)]) (rule nearI [where b = "inBuffer u" and u = "inCursor u" and e = "inEnd u" and l = "lastseg u" and st = "inCursor u"], simp)
  ultimately show ?thesis using pump pend 1(5) by (intro exI [of _ es1] exI [of _ ?s']) simp
qed

end
