(* ===== verification/Pq_Rows.thy ===== *)
theory Pq_Rows
  imports Pq_Pump
begin

text \<open>
  Data rows and row descriptions on the wire: the encodings the server uses, and what the readers of
  \<open>Pq_Result\<close> make of them. A row that is read is the row that was sent, NULLs included, and the tuple
  array of a result always has room for the row that is stored.
\<close>

subsection \<open>Row descriptions\<close>

definition flag_word :: "att_desc \<Rightarrow> int" where
  "flag_word d = (if nullable d = 0 then 1 else 0) + (if case_sensitive d = 1 then 2 else 0) +
     16 * autoincrement d + 256 * read_only d + 4096 * searchable d"

definition put_extended :: "att_desc \<Rightarrow> byte list" where
  "put_extended d = put_string (the (schema_name d)) @ put_string (the (table_name d)) @ put_string (the (col_name d)) @
     put_string (the (catalog_name d)) @ net_bytes 2 (flag_word d)"

definition put_att :: "int \<Rightarrow> att_desc \<Rightarrow> byte list" where
  "put_att version d = put_string (ad_name d) @ net_bytes 4 (tableid d) @ net_bytes 2 (columnid d mod 2 ^ 16) @
     net_bytes 4 (typid d) @ net_bytes 2 (typlen d mod 2 ^ 16) @ net_bytes 4 (atttypmod d) @ net_bytes 2 (format d mod 2 ^ 16) @
     (if EXTENDED_RESULT_METADATA_SERVER_PROTOCOL_VERSION \<le> version then put_extended d else [])"

definition put_atts :: "int \<Rightarrow> att_desc list \<Rightarrow> byte list" where
  "put_atts version ds = net_bytes 2 (int (length ds)) @ concat (map (put_att version) ds)"

definition int2s_ok :: "int \<Rightarrow> bool" where "int2s_ok v \<longleftrightarrow> - (2 ^ 15) \<le> v \<and> v < 2 ^ 15"

definition bit_ok :: "int \<Rightarrow> bool" where "bit_ok v \<longleftrightarrow> v = 0 \<or> v = 1"

definition oid_ok :: "int \<Rightarrow> bool" where "oid_ok v \<longleftrightarrow> 0 \<le> v \<and> v < 2 ^ 32"

text \<open>The attributes that a server of a protocol version can describe.\<close>

definition ext_ok :: "int \<Rightarrow> att_desc \<Rightarrow> bool" where
  "ext_ok version d \<longleftrightarrow>
     (if EXTENDED_RESULT_METADATA_SERVER_PROTOCOL_VERSION \<le> version then
        (\<exists>a b c e. schema_name d = Some a \<and> table_name d = Some b \<and> col_name d = Some c \<and> catalog_name d = Some e \<and>
           0 \<notin> set a \<union> set b \<union> set c \<union> set e) \<and>
        bit_ok (nullable d) \<and> bit_ok (autoincrement d) \<and> bit_ok (read_only d) \<and> bit_ok (searchable d) \<and>
        (if EXTENDED2_RESULT_METADATA_SERVER_PROTOCOL_VERSION \<le> version then bit_ok (case_sensitive d)
         else case_sensitive d = -1)
      else schema_name d = None \<and> table_name d = None \<and> col_name d = None \<and> catalog_name d = None \<and>
        nullable d = 2 \<and> autoincrement d = 0 \<and> read_only d = 0 \<and> searchable d = 0 \<and> case_sensitive d = 0)"

definition att_ok :: "int \<Rightarrow> att_desc \<Rightarrow> bool" where
  "att_ok version d \<longleftrightarrow> 0 \<notin> set (ad_name d) \<and> oid_ok (tableid d) \<and> int2s_ok (columnid d) \<and> oid_ok (typid d) \<and>
     int2s_ok (typlen d) \<and> int4_ok (atttypmod d) \<and> int2s_ok (format d) \<and> ext_ok version d"

text \<open>The parser that the reader of one attribute follows.\<close>

definition parse_extended :: "int \<Rightarrow> att_desc \<Rightarrow> byte list \<Rightarrow> (att_desc \<times> nat) option" where
  "parse_extended version d =
     then_parse parse_string (\<lambda>sname. then_parse parse_string (\<lambda>tname. then_parse parse_string (\<lambda>cname.
       then_parse parse_string (\<lambda>catname. then_parse (parse_bytes 2 be_value) (\<lambda>temp bs.
         Some (extended_att version d sname tname cname catname temp, 0))))))"

definition parse_att :: "int \<Rightarrow> byte list \<Rightarrow> (att_desc \<times> nat) option" where
  "parse_att version =
     then_parse parse_string (\<lambda>nm. then_parse (parse_bytes 4 (\<lambda>bs. i32 (be_value bs))) (\<lambda>tab.
       then_parse (parse_bytes 2 be_value) (\<lambda>col. then_parse (parse_bytes 4 (\<lambda>bs. i32 (be_value bs))) (\<lambda>oid.
       then_parse (parse_bytes 2 be_value) (\<lambda>len. then_parse (parse_bytes 4 (\<lambda>bs. i32 (be_value bs))) (\<lambda>md.
       then_parse (parse_bytes 2 be_value) (\<lambda>fmt.
         (let d = \<lparr>ad_name = nm, tableid = tab mod 2 ^ 32, columnid = i16 col, format = i16 fmt, typid = oid mod 2 ^ 32, typlen = i16 len,
                   atttypmod = md, schema_name = None, table_name = None, col_name = None, catalog_name = None,
                   nullable = 0, autoincrement = 0, read_only = 0, searchable = 0, case_sensitive = 0\<rparr>
          in if EXTENDED_RESULT_METADATA_SERVER_PROTOCOL_VERSION \<le> version then parse_extended version d
             else (\<lambda>bs. Some (d\<lparr>nullable := 2\<rparr>, 0))))))))))"

lemma wire_getter_extended: "wire_getter (get_extended version d) (parse_extended version d)"
  unfolding get_extended_def parse_extended_def
  by (intro wire_getter_then getter_gets getter_int2 wire_getter_got)

lemma wire_getter_att: "wire_getter (get_att_desc version) (parse_att version)"
  unfolding get_att_desc_def parse_att_def Let_def
  by (intro wire_getter_then getter_gets getter_int2 getter_int4)
     (auto intro: wire_getter_extended wire_getter_got)

lemma i16_mod: "int2s_ok v \<Longrightarrow> i16 (v mod 65536) = v"
  using signed_take_bit_mod [of 15 v] by (simp add: i16_def int2s_ok_def signed_take_bit_int_eq_self)

lemma int2_ok_mod [simp]: "int2_ok (v mod 65536)"
  by (simp add: int2_ok_def)

lemma parse_oid_put:
  assumes "oid_ok v"
  shows "parse_bytes 4 (\<lambda>bs. i32 (be_value bs)) (net_bytes 4 v @ rest) = Some (i32 v, length (net_bytes 4 v))"
  using assms by (simp add: parse_bytes_put i32_mod)

lemma oid_mod: "oid_ok v \<Longrightarrow> i32 v mod 4294967296 = v"
  by (simp add: oid_ok_def i32_def signed_take_bit_eq_take_bit_minus take_bit_eq_mod)

lemma flag_word_bits:
  assumes "bit_ok (nullable d)" "bit_ok (autoincrement d)" "bit_ok (read_only d)" "bit_ok (searchable d)"
  shows "int2_ok (flag_word d)" "flag_bit (flag_word d) 0 = (nullable d = 0)"
    "flag_bit (flag_word d) 1 = (case_sensitive d = 1)" "flag_bit (flag_word d) 4 = (autoincrement d = 1)"
    "flag_bit (flag_word d) 8 = (read_only d = 1)" "flag_bit (flag_word d) 12 = (searchable d = 1)"
  using assms by (auto simp: bit_ok_def flag_word_def flag_bit_def int2_ok_def)

lemma bit_ok_value: "bit_ok v \<Longrightarrow> of_cbool (v = 1) = v" "bit_ok v \<Longrightarrow> (if v = 0 then 0 else 1) = v"
  by (auto simp: bit_ok_def)

lemma parse_extended_put:
  assumes "ext_ok version d" and "EXTENDED_RESULT_METADATA_SERVER_PROTOCOL_VERSION \<le> version"
  shows "parse_extended version (d\<lparr>schema_name := None, table_name := None, col_name := None, catalog_name := None,
      nullable := 0, autoincrement := 0, read_only := 0, searchable := 0, case_sensitive := 0\<rparr>) (put_extended d @ rest) =
    Some (d, length (put_extended d))"
proof -
  from assms obtain a b c e where s: "schema_name d = Some a" "table_name d = Some b" "col_name d = Some c"
    "catalog_name d = Some e" "0 \<notin> set a" "0 \<notin> set b" "0 \<notin> set c" "0 \<notin> set e"
    and k: "bit_ok (nullable d)" "bit_ok (autoincrement d)" "bit_ok (read_only d)" "bit_ok (searchable d)"
    and cs: "if EXTENDED2_RESULT_METADATA_SERVER_PROTOCOL_VERSION \<le> version then bit_ok (case_sensitive d)
         else case_sensitive d = -1" by (auto simp: ext_ok_def)
  note f = flag_word_bits [OF k]
  have d: "extended_att version (d\<lparr>schema_name := None, table_name := None, col_name := None, catalog_name := None,
      nullable := 0, autoincrement := 0, read_only := 0, searchable := 0, case_sensitive := 0\<rparr>) a b c e (flag_word d) = d"
    using s cs by (intro att_desc.equality)
      (simp_all add: extended_att_def f f(3) [unfolded One_nat_def] bit_ok_value [OF k(1)] bit_ok_value [OF k(2)] bit_ok_value [OF k(3)]
        bit_ok_value [OF k(4)] bit_ok_value split: if_splits)
  show ?thesis
    using s f(1) by (simp add: parse_extended_def put_extended_def then_parse_put parse_string_put parse_int2_put d
        del: net_bytes_length)
qed

lemma parse_att_put:
  assumes "att_ok version d"
  shows "parse_att version (put_att version d @ rest) = Some (d, length (put_att version d))"
proof (cases "EXTENDED_RESULT_METADATA_SERVER_PROTOCOL_VERSION \<le> version")
  case True
  have e: "ext_ok version d" using assms by (simp add: att_ok_def)
  show ?thesis
    using assms parse_extended_put [OF e True, of rest] True
    by (cases d) (simp add: parse_att_def put_att_def att_ok_def then_parse_put parse_string_put parse_int2_put parse_int4_put parse_oid_put oid_mod
        i16_mod Let_def del: net_bytes_length)
next
  case False
  then show ?thesis
    using assms by (cases d) (simp add: parse_att_def put_att_def att_ok_def ext_ok_def then_parse_put parse_string_put
        parse_int2_put parse_int4_put parse_oid_put oid_mod i16_mod Let_def del: net_bytes_length)
qed

text \<open>The encoding of one attribute, as an instance of the wire codecs.\<close>

interpretation att_codec: wire_codec "get_att_desc version" "parse_att version" "put_att version" "att_ok version"
  by (intro wire_codec.intro wire_getter_att wire_codec_axioms.intro parse_att_put)

lemma get_att_descs_put:
  assumes "in_wf c" and "unread c = concat (map (put_att version) ds) @ rest" and "\<forall>d \<in> set ds. att_ok version d"
  shows "get_att_descs version (length ds) acc c =
    (False, acc @ ds, c\<lparr>inCursor := inCursor c + length (concat (map (put_att version) ds))\<rparr>)"
  using assms
proof (induction ds arbitrary: acc c)
  case Nil
  then show ?case by simp
next
  case (Cons d ds)
  have u: "unread c = put_att version d @ (concat (map (put_att version) ds) @ rest)" using Cons.prems(2) by simp
  have d: "att_ok version d" using Cons.prems(3) by simp
  note g = att_codec.get_put [OF Cons.prems(1) u d]
  show ?case using Cons.IH [OF g(3,2)] Cons.prems(3) g(1) by (simp add: add.assoc)
qed

subsection \<open>Data rows\<close>

definition field_ok :: "attvalue \<Rightarrow> bool" where
  "field_ok a \<longleftrightarrow> a = \<lparr>att_len = -1, att_value = Some []\<rparr> \<or>
     (\<exists>bs. a = \<lparr>att_len = int (length bs), att_value = Some bs\<rparr> \<and> length bs < 2 ^ 28)"

definition put_field :: "attvalue \<Rightarrow> byte list" where
  "put_field a = net_bytes 4 (att_len a) @ (if att_len a = -1 then [] else the (att_value a))"

definition put_row :: "row \<Rightarrow> byte list" where
  "put_row r = net_bytes 2 (int (length r)) @ concat (map put_field r)"

lemma list_update_append_next:
  "length xs = i \<Longrightarrow> (xs @ y # ys)[i := v] = (xs @ [v]) @ ys"
  by auto

text \<open>The field loop reads back what was sent, over whatever an earlier attempt left in the row.\<close>

lemma scan_fields_put:
  assumes "in_wf c" and "unread c = concat (map put_field as) @ rest" and "\<forall>a \<in> set as. field_ok a"
    and "length done = i" and "length old = length as"
  shows "\<exists>mem'. scan_fields (length as) i (done @ old) mem c =
    (False, done @ as, mem', c\<lparr>inCursor := inCursor c + length (concat (map put_field as))\<rparr>)"
  using assms
proof (induction as arbitrary: c i "done" old mem)
  case Nil
  then show ?case by simp
next
  case (Cons a as)
  from Cons.prems(5) obtain b old' where old: "old = b # old'" "length old' = length as" by (cases old) auto
  have a: "field_ok a" and as: "\<forall>a \<in> set as. field_ok a" using Cons.prems(3) by simp_all
  have l4: "int4_ok (att_len a)" using a by (auto simp: field_ok_def int4_ok_def)
  have u: "unread c = net_bytes 4 (att_len a) @ ((if att_len a = -1 then [] else the (att_value a)) @
      concat (map put_field as) @ rest)" using Cons.prems(2) by (simp add: put_field_def [of a])
  note g = int4.get_put [OF Cons.prems(1) u l4]
  let ?c1 = "c\<lparr>inCursor := inCursor c + 4\<rparr>"
  have g1: "pqGetInt 4 c = (Some (att_len a), ?c1)" and w1: "in_wf ?c1" using g(1,3) by simp_all
  have i: "length (done @ [a]) = i + 1" using Cons.prems(4) by simp
  from a consider "a = \<lparr>att_len = -1, att_value = Some []\<rparr>"
    | bs where "a = \<lparr>att_len = int (length bs), att_value = Some bs\<rparr>" "length bs < 2 ^ 28" by (auto simp: field_ok_def)
  then show ?case
  proof cases
    case 1
    have u1: "unread ?c1 = concat (map put_field as) @ rest" using g(2) 1 by simp
    have put: "length (put_field a) = 4" using 1 by (simp add: put_field_def)
    from Cons.IH [OF w1 u1 as i old(2), of mem] show ?thesis
      using g1 put 1 Cons.prems(4) old(1) by (simp add: list_update_append_next add.assoc)
  next
    case 2
    let ?c2 = "c\<lparr>inCursor := inCursor c + (4 + length bs)\<rparr>"
    have u1: "unread ?c1 = bs @ concat (map put_field as) @ rest" using g(2) 2 by simp
    note h = nchar.get_put [OF w1 u1 refl]
    have h2: "pqGetnchar (length bs) ?c1 = (Some bs, ?c2)" "in_wf ?c2" "unread ?c2 = concat (map put_field as) @ rest"
      using h by (simp_all add: add.assoc)
    let ?m = "if att_value b = None then i32 (mem + int (length bs) + 1) else mem"
    have old_i: "(done @ old) ! i = b" using Cons.prems(4) old(1) by auto
    have upd: "(done @ old)[i := a] = (done @ [a]) @ old'" using Cons.prems(4) old(1) by (simp add: list_update_append_next)
    have put: "length (concat (map put_field (a # as))) = 4 + length bs + length (concat (map put_field as))"
      using 2 by (simp add: put_field_def)
    have step: "scan_fields (length (a # as)) i (done @ old) mem c =
        scan_fields (length as) (i + 1) ((done @ [a]) @ old') ?m ?c2"
    proof (cases "bs = []")
      case True
      then show ?thesis using g1 2 upd old_i by (simp add: Let_def)
    next
      case False
      then show ?thesis using g1 h2(1) 2 upd old_i by (simp add: Let_def)
    qed
    from Cons.IH [OF h2(2,3) as i old(2), of ?m] show ?thesis
      unfolding step put by (simp add: add.assoc)
  qed
qed

subsection \<open>The tuple array\<close>

definition tup_wf :: "pgresult \<Rightarrow> bool" where
  "tup_wf r \<longleftrightarrow> 0 \<le> ntups r \<and> ntups r \<le> tupArrSize r \<and> tupArrSize r \<le> 2 ^ 29 \<and>
     int (length (case tuples r of None \<Rightarrow> [] | Some ts \<Rightarrow> ts)) = ntups r"

lemma new_tup_size_ok:
  assumes "0 \<le> n" and "n < 2 ^ 28"
  shows "n < new_tup_size n k" "new_tup_size n k \<le> 2 ^ 29"
  using assms by (auto simp: new_tup_size_def Let_def i32_id)

lemma pqAddTuple_ok:
  assumes "tup_wf r" and "ntups r < 2 ^ 28"
  obtains r' where "pqAddTuple r t k = Some r'" "tup_wf r'"
    "\<exists>sz. r' = r\<lparr>tupArrSize := sz, tuples := Some ((case tuples r of None \<Rightarrow> [] | Some ts \<Rightarrow> ts) @ [Some t]), ntups := ntups r + 1\<rparr>"
proof -
  let ?r = "\<lambda>sz. r\<lparr>tupArrSize := sz, tuples := Some ((case tuples r of None \<Rightarrow> [] | Some ts \<Rightarrow> ts) @ [Some t]), ntups := ntups r + 1\<rparr>"
  show thesis
  proof (cases "tupArrSize r \<le> ntups r")
    case True
    then have e: "tupArrSize r = ntups r" using assms(1) by (simp add: tup_wf_def)
    have n: "0 \<le> ntups r" using assms(1) by (simp add: tup_wf_def)
    note s = new_tup_size_ok [OF n assms(2), of k]
    have "pqAddTuple r t k = Some (?r (new_tup_size (ntups r) k))"
      using e s n by (simp add: pqAddTuple_def Let_def)
    moreover have "tup_wf (?r (new_tup_size (ntups r) k))" using assms(1) s by (simp add: tup_wf_def)
    ultimately show thesis using that by blast
  next
    case False
    have "pqAddTuple r t k = Some (?r (tupArrSize r))"
      using False by (simp add: pqAddTuple_def Let_def)
    moreover have "tup_wf (?r (tupArrSize r))" using assms(1) False by (simp add: tup_wf_def)
    ultimately show thesis using that by blast
  qed
qed

end
