(* ===== verification/Pq_Answer.thy ===== *)
theory Pq_Answer
  imports Pq_Rows
begin

text \<open>
  The answer to a query, from the first message to the last: the row description creates the result, every
  data row adds a row to it, command complete makes it ready for the caller. The predicate \<open>collects\<close> says which
  rows a result holds; \<open>context_kept\<close> that a step has changed the buffer and the results only.
\<close>

subsection \<open>Results that collect rows\<close>

definition tuple_array :: "row list \<Rightarrow> row option list option" where
  "tuple_array rows = (if rows = [] then None else Some (map Some rows))"

definition rows_in :: "pgresult \<Rightarrow> row list \<Rightarrow> pgresult \<Rightarrow> bool" where
  "rows_in base rows r \<longleftrightarrow> tup_wf r \<and> (\<exists>sz mem. r = base\<lparr>tuples := tuple_array rows, ntups := int (length rows),
     totalntups := int (length rows), tupArrSize := sz, mem_used := mem\<rparr>)"

lemma rows_in_sel:
  assumes "rows_in base rows r"
  shows "tuples r = tuple_array rows" "ntups r = int (length rows)" "totalntups r = int (length rows)" "tup_wf r"
    "numAttributes r = numAttributes base" "resultStatus r = resultStatus base" "attDescs r = attDescs base"
    "errMsg r = errMsg base"
  using assms by (auto simp: rows_in_def)

lemma rows_in_mem: "rows_in base rows r \<Longrightarrow> rows_in base rows (r\<lparr>mem_used := m\<rparr>)"
proof -
  assume "rows_in base rows r"
  then obtain sz mem where "tup_wf r" and r: "r = base\<lparr>tuples := tuple_array rows, ntups := int (length rows),
     totalntups := int (length rows), tupArrSize := sz, mem_used := mem\<rparr>" by (auto simp: rows_in_def)
  then have "tup_wf (r\<lparr>mem_used := m\<rparr>)" by (simp add: tup_wf_def)
  moreover have "r\<lparr>mem_used := m\<rparr> = base\<lparr>tuples := tuple_array rows, ntups := int (length rows),
     totalntups := int (length rows), tupArrSize := sz, mem_used := m\<rparr>" by (simp add: r)
  ultimately show "rows_in base rows (r\<lparr>mem_used := m\<rparr>)" unfolding rows_in_def by blast
qed

lemma rows_in_add:
  assumes "rows_in base rows r" and "length rows < 2 ^ 28"
  obtains r' where "pqAddTuple r t k = Some r'" "rows_in base (rows @ [t]) (r'\<lparr>totalntups := totalntups r' + 1\<rparr>)"
proof -
  note s = rows_in_sel [OF assms(1)]
  have "ntups r < 2 ^ 28" using assms(2) s(2) by simp
  from pqAddTuple_ok [OF s(4) this] obtain r' sz where r': "pqAddTuple r t k = Some r'" "tup_wf r'"
    "r' = r\<lparr>tupArrSize := sz, tuples := Some ((case tuples r of None \<Rightarrow> [] | Some ts \<Rightarrow> ts) @ [Some t]), ntups := ntups r + 1\<rparr>"
    by metis
  have ts: "(case tuple_array rows of None \<Rightarrow> [] | Some ts \<Rightarrow> ts) = map Some rows" by (simp add: tuple_array_def)
  from assms(1) obtain sz0 mem where r: "r = base\<lparr>tuples := tuple_array rows, ntups := int (length rows),
     totalntups := int (length rows), tupArrSize := sz0, mem_used := mem\<rparr>" by (auto simp: rows_in_def)
  have "r'\<lparr>totalntups := totalntups r' + 1\<rparr> = base\<lparr>tuples := tuple_array (rows @ [t]), ntups := int (length (rows @ [t])),
     totalntups := int (length (rows @ [t])), tupArrSize := sz, mem_used := mem\<rparr>"
    using r ts by (simp add: r'(3) tuple_array_def)
  moreover have "tup_wf (r'\<lparr>totalntups := totalntups r' + 1\<rparr>)" using r'(2) by (simp add: tup_wf_def)
  ultimately show thesis using that r'(1) by (simp add: rows_in_def) blast
qed

definition no_limits :: "pqstate \<Rightarrow> bool" where
  "no_limits s \<longleftrightarrow> \<not> rows_only s \<and> mem_limit s = 0 \<and> row_limit s = 0 \<and> output_nbytes s = 0"

definition collects :: "pqstate \<Rightarrow> nat \<Rightarrow> pgresult \<Rightarrow> row list \<Rightarrow> bool" where
  "collects s p base rows \<longleftrightarrow> result s = Some p \<and> curTuple s = None \<and> no_limits s \<and> resultStatus base = PGRES_TUPLES_OK \<and>
     (\<exists>r. results s p = Some r \<and> rows_in base rows r)"

definition context_kept :: "nat \<Rightarrow> pqstate \<Rightarrow> pqstate \<Rightarrow> bool" where
  "context_kept p s t \<longleftrightarrow> (\<exists>b st u e l x. t = s\<lparr>inBuffer := b, inStart := st, inCursor := u, inEnd := e, lastseg := l,
     results := (results s)(p := x)\<rparr>)"

lemma context_keptI:
  "t = s\<lparr>inBuffer := b, inStart := st, inCursor := u, inEnd := e, lastseg := l, results := (results s)(p := x)\<rparr> \<Longrightarrow>
   context_kept p s t"
  unfolding context_kept_def by blast

lemma context_kept_trans: "context_kept p a b \<Longrightarrow> context_kept p b c \<Longrightarrow> context_kept p a c"
  unfolding context_kept_def by (elim exE, simp) (intro exI, rule refl)

lemma near_context: "near s t \<Longrightarrow> context_kept p s t"
  unfolding near_def
  by (elim exE) (rule context_keptI [where x = "results s p"], simp)

lemma context_kept_refl [simp]: "context_kept p s s"
  by (rule near_context) simp

lemma near_collects: "collects s p base rows \<Longrightarrow> near s t \<Longrightarrow> collects t p base rows"
  by (auto simp: near_def collects_def no_limits_def)

lemma context_kept_sel:
  assumes "context_kept p s t"
  shows "asyncStatus t = asyncStatus s" "open_loop t = open_loop s" "stopped t = stopped s" "mloop t = mloop s"
    "cscExecutor t = cscExecutor s" "cscs t = cscs s" "streamingMode t = streamingMode s"
    "streamingCursorRows t = streamingCursorRows s" "skipStreamingCursor t = skipStreamingCursor s"
    "loop_csc t = loop_csc s" "csc_loop t = csc_loop s" "calledFromCscThread t = calledFromCscThread s"
    "result t = result s" "queryclass t = queryclass s" "fresh t = fresh s" "sys t = sys s" "iSocketError t = iSocketError s"
    "streamResultBatchNumber t = streamResultBatchNumber s" "endOfStreamingCursor t = endOfStreamingCursor s"
    "cscThreadCreated t = cscThreadCreated s" "iStop t = iStop s" "hasResultHandler t = hasResultHandler s"
    "server_protocol_version t = server_protocol_version s" "no_limits t = no_limits s" "curTuple t = curTuple s"
    "q \<noteq> p \<Longrightarrow> results t q = results s q"
  using assms by (auto simp: context_kept_def open_loop_def stopped_def csc_loop_def loop_csc_def no_limits_def)

subsection \<open>One data row\<close>

definition row_ok :: "int \<Rightarrow> row \<Rightarrow> bool" where
  "row_ok n row \<longleftrightarrow> int (length row) = n \<and> length row < 2 ^ 16 \<and> (\<forall>a \<in> set row. field_ok a)"

lemma getAnotherTuple_ok:
  assumes w: "in_wf t" and c: "collects t p base rows" and u: "unread t = put_row row @ front"
    and ok: "row_ok (numAttributes base) row" and n: "length rows < 2 ^ 28"
  obtains r' where "rows_in base (if want then rows else rows @ [row]) r'"
    "getAnotherTuple t len want k = Some (False, if want then Some row else None,
       t\<lparr>inCursor := inCursor t + length (put_row row), results := (results t)(p \<mapsto> r')\<rparr>)"
proof -
  from c obtain r where r: "result t = Some p" "curTuple t = None" "results t p = Some r" "rows_in base rows r"
    and lim: "\<not> rows_only t" "mem_limit t = 0" "row_limit t = 0" by (auto simp: collects_def no_limits_def)
  note s = rows_in_sel [OF r(4)]
  have nf: "numAttributes r = int (length row)" and f: "\<forall>a \<in> set row. field_ok a" and l2: "int2_ok (int (length row))"
    using ok s(5) by (simp_all add: row_ok_def int2_ok_def)
  let ?new = "replicate (length row) no_att"
  let ?t0 = "t\<lparr>curTuple := Some ?new\<rparr>"
  have w0: "in_wf ?t0" and u0: "unread ?t0 = net_bytes 2 (int (length row)) @ (concat (map put_field row) @ front)"
    using w u by (simp_all add: in_wf_def inBufSize_def unread_def put_row_def)
  note g = int2.get_put [OF w0 u0 l2]
  let ?t1 = "?t0\<lparr>inCursor := inCursor t + 2\<rparr>"
  have g1: "pqGetInt 2 ?t0 = (Some (int (length row)), ?t1)" "in_wf ?t1" "unread ?t1 = concat (map put_field row) @ front"
    using g by simp_all
  have cur: "inCursor ?t1 + length (concat (map put_field row)) = inCursor t + length (put_row row)"
    by (simp add: put_row_def)
  from scan_fields_put [OF g1(2,3) f, of "[]" 0 ?new "mem_used r"] obtain mem where
    sc: "scan_fields (length row) 0 ?new (mem_used r) ?t1 =
      (False, row, mem, ?t1\<lparr>inCursor := inCursor t + length (put_row row)\<rparr>)" unfolding cur by auto
  let ?u = "t\<lparr>inCursor := inCursor t + length (put_row row)\<rparr>"
  let ?r1 = "r\<lparr>mem_used := mem\<rparr>"
  have same: "x\<lparr>curTuple := None\<rparr> = x" if "curTuple x = None" for x :: pqstate
    using that by (cases x) simp
  note r1 = rows_in_mem [OF r(4), of mem]
  have eq: "getAnotherTuple t len want k =
      (if want then Some (False, Some row, ?u\<lparr>results := (results t)(p \<mapsto> ?r1)\<rparr>)
       else map_option (\<lambda>c4. (False, None, c4\<lparr>curTuple := None\<rparr>))
         (store_tuple (?u\<lparr>curTuple := Some row, results := (results t)(p \<mapsto> ?r1)\<rparr>) len p ?r1 row k))"
    using r lim nf g1(1) sc same [of "?u\<lparr>results := (results t)(p \<mapsto> ?r1)\<rparr>"]
    by (simp add: getAnotherTuple_def Let_def set_result_def)
  show thesis
  proof (cases want)
    case True
    then show thesis using that [of ?r1] eq r1 by simp
  next
    case False
    from rows_in_add [OF r1 n, of row k] obtain r' where r': "pqAddTuple ?r1 row k = Some r'"
      "rows_in base (rows @ [row]) (r'\<lparr>totalntups := totalntups r' + 1\<rparr>)" by blast
    show thesis
      using that [of "r'\<lparr>totalntups := totalntups r' + 1\<rparr>"] r' False eq
        same [of "?u\<lparr>results := (results t)(p \<mapsto> r'\<lparr>totalntups := totalntups r' + 1\<rparr>)\<rparr>"] r(2)
      by (simp add: store_tuple_def set_result_def)
  qed
qed

lemma loop_csc_skip:
  assumes "loop_csc t = None" and "streamingMode t \<longrightarrow> \<not> skipStreamingCursor t"
  shows "skip_row t = Some False"
  using assms by (auto simp: loop_csc_def skip_row_def split: option.splits)

lemma msg_D_ok:
  assumes w: "in_wf t" and c: "collects t p base rows" and u: "unread t = put_row row @ front"
    and ok: "row_ok (numAttributes base) row" and n: "length rows < 2 ^ 28"
    and l: "loop_csc t = None" and sk: "streamingMode t \<longrightarrow> \<not> skipStreamingCursor t"
  obtains r' where "rows_in base (rows @ [row]) r'"
    "msg_D t len =
      (let u = t\<lparr>inCursor := inCursor t + length (put_row row), results := (results t)(p \<mapsto> r')\<rparr> in
       if streamingMode t \<and> int (length rows) + 1 = streamingCursorRows t then
         Some (Suspend, u\<lparr>inStart := inCursor u, iStop := True, streamResultBatchNumber := streamResultBatchNumber t + 1\<rparr>)
       else Some (Next, u))"
proof -
  from c obtain r where r: "result t = Some p" "results t p = Some r" "rows_in base rows r" "output_nbytes t = 0"
    "resultStatus base = PGRES_TUPLES_OK" by (auto simp: collects_def no_limits_def)
  note s = rows_in_sel [OF r(3)]
  let ?k = "if streamingMode t then streamingCursorRows t else 0"
  from getAnotherTuple_ok [OF w c u ok n, of False len ?k] obtain r' where
    r': "rows_in base (rows @ [row]) r'" "getAnotherTuple t len False ?k = Some (False, None,
       t\<lparr>inCursor := inCursor t + length (put_row row), results := (results t)(p \<mapsto> r')\<rparr>)" by auto
  have tot: "totalntups r' = int (length rows) + 1" using rows_in_sel(3) [OF r'(1)] by simp
  have "take_row t len =
      (let u = t\<lparr>inCursor := inCursor t + length (put_row row), results := (results t)(p \<mapsto> r')\<rparr> in
       if streamingMode t \<and> int (length rows) + 1 = streamingCursorRows t then
         Some (Suspend, u\<lparr>inStart := inCursor u, iStop := True, streamResultBatchNumber := streamResultBatchNumber t + 1\<rparr>)
       else Some (Next, u))"
    using r l r'(2) tot by (simp add: take_row_def enough_bytes_def keep_row_def Let_def)
  then have "msg_D t len =
      (let u = t\<lparr>inCursor := inCursor t + length (put_row row), results := (results t)(p \<mapsto> r')\<rparr> in
       if streamingMode t \<and> int (length rows) + 1 = streamingCursorRows t then
         Some (Suspend, u\<lparr>inStart := inCursor u, iStop := True, streamResultBatchNumber := streamResultBatchNumber t + 1\<rparr>)
       else Some (Next, u))"
    using r s loop_csc_skip [OF l sk] by (simp add: msg_D_def Let_def)
  with that r'(1) show thesis by blast
qed

lemma handle_D [simp]: "asyncStatus t = PGASYNC_BUSY \<Longrightarrow> handle_message t (byte_of CHR ''D'') n = msg_D t n"
  by (simp add: handle_message_def busy_message_def)

lemma handle_T [simp]: "asyncStatus t = PGASYNC_BUSY \<Longrightarrow> handle_message t (byte_of CHR ''T'') n = msg_T t"
  by (simp add: handle_message_def busy_message_def)

lemma handle_C [simp]: "asyncStatus t = PGASYNC_BUSY \<Longrightarrow> handle_message t (byte_of CHR ''C'') n = msg_C t"
  by (simp add: handle_message_def busy_message_def)

lemma handle_Z [simp]: "asyncStatus t = PGASYNC_BUSY \<Longrightarrow> handle_message t (byte_of CHR ''Z'') n = msg_Z t"
  by (simp add: handle_message_def busy_message_def)

lemma handle_E [simp]: "asyncStatus t = PGASYNC_BUSY \<Longrightarrow> handle_message t (byte_of CHR ''E'') n = msg_E t"
  by (simp add: handle_message_def busy_message_def)

subsection \<open>All rows of an answer\<close>

definition data_rows :: "row list \<Rightarrow> byte list" where
  "data_rows rows = concat (map (\<lambda>r. put_msg CHR ''D'' (put_row r)) rows)"

lemma data_rows_simps [simp]: "data_rows [] = []" "data_rows (r # rs) = put_msg CHR ''D'' (put_row r) @ data_rows rs"
  by (simp_all add: data_rows_def)

definition rows_ok :: "int \<Rightarrow> row list \<Rightarrow> bool" where
  "rows_ok n rows \<longleftrightarrow> length rows \<le> 2 ^ 28 \<and> (\<forall>r \<in> set rows. row_ok n r \<and> length (put_row r) < 2 ^ 28)"

lemma msg_ok_D: "length (put_row r) < 2 ^ 28 \<Longrightarrow> msg_ok CHR ''D'' (put_row r)"
  by (simp add: msg_ok_def)

text \<open>While no batch is full, the loop takes all the rows.\<close>

lemma pump_rows:
  assumes s: "open_loop s" and r: "receiving es s" and c: "collects s p base old"
    and l: "loop_csc s = None" and sk: "streamingMode s \<longrightarrow> \<not> skipStreamingCursor s"
    and rows: "rows_ok (numAttributes base) (old @ new)"
    and nb: "streamingMode s \<longrightarrow> int (length (old @ new)) < streamingCursorRows s"
    and p: "pending s @ payload es = data_rows new @ rest"
  shows "\<exists>es' s'. pump es s = pump es' s' \<and> receiving es' s' \<and> pending s' @ payload es' = rest \<and>
    collects s' p base (old @ new) \<and> context_kept p s s'"
  using s r c l sk rows nb p
proof (induction new arbitrary: old es s)
  case Nil
  then show ?case by (intro exI [of _ es] exI [of _ s]) simp
next
  case (Cons row new)
  let ?Q = "\<lambda>u. collects u p base (old @ [row]) \<and> context_kept p s u"
  have ok: "row_ok (numAttributes base) row" "length (put_row row) < 2 ^ 28" and n: "length old < 2 ^ 28"
    using Cons.prems(6) by (simp_all add: rows_ok_def)
  have busy: "asyncStatus s = PGASYNC_BUSY" using Cons.prems(1) by (simp add: open_loop_def)
  have pm: "pending s @ payload es = put_msg CHR ''D'' (put_row row) @ (data_rows new @ rest)"
    using Cons.prems(8) by simp
  have "\<exists>es' s'. pump es s = pump es' s' \<and> receiving es' s' \<and> pending s' @ payload es' = data_rows new @ rest \<and> ?Q s'"
  proof (rule pump_message [OF Cons.prems(1,2) msg_ok_D [OF ok(2)] pm])
    fix t assume t: "near s t" "in_wf t" "\<exists>front. unread t = put_row row @ front" "inCursor t = inStart t + 5"
    then obtain front where f: "unread t = put_row row @ front" by blast
    note k = context_kept_sel [OF near_context [OF t(1)]]
    have lt: "loop_csc t = None" "streamingMode t \<longrightarrow> \<not> skipStreamingCursor t"
      using Cons.prems(4,5) by (simp_all only: k)
    obtain r' where
      r': "rows_in base (old @ [row]) r'" "msg_D t (int (length (put_row row))) =
      (let u = t\<lparr>inCursor := inCursor t + length (put_row row), results := (results t)(p \<mapsto> r')\<rparr> in
       if streamingMode t \<and> int (length old) + 1 = streamingCursorRows t then
         Some (Suspend, u\<lparr>inStart := inCursor u, iStop := True, streamResultBatchNumber := streamResultBatchNumber t + 1\<rparr>)
       else Some (Next, u))" by (rule msg_D_ok [OF t(2) near_collects [OF Cons.prems(3) t(1)] f ok(1) n lt])
    let ?u = "t\<lparr>inCursor := inCursor t + length (put_row row), results := (results t)(p \<mapsto> r')\<rparr>"
    have "\<not> (streamingMode t \<and> int (length old) + 1 = streamingCursorRows t)" using Cons.prems(7) by (auto simp only: k list.size length_append)
    then have "handle_message t (byte_of CHR ''D'') (int (length (put_row row))) = Some (Next, ?u)"
      using r'(2) k busy by (simp add: Let_def)
    moreover have "moved t ?u (length (put_row row))" by (simp add: moved_def)
    moreover have "collects ?u p base (old @ [row])"
      using near_collects [OF Cons.prems(3) t(1)] r'(1) by (auto simp: collects_def no_limits_def)
    moreover have "context_kept p s ?u"
      by (rule context_kept_trans [OF near_context [OF t(1)]])
         (rule context_keptI [where b = "inBuffer t" and st = "inStart t" and u = "inCursor t + length (put_row row)" and e = "inEnd t"
           and l = "lastseg t" and x = "Some r'"], simp)
    ultimately show "\<exists>u. handle_message t (byte_of CHR ''D'') (int (length (put_row row))) = Some (Next, u) \<and>
        moved t u (length (put_row row)) \<and> ?Q u" by blast
  next
    fix u v assume "?Q u" "near u v"
    then show "?Q v" using near_collects near_context context_kept_trans by blast
  qed
  then obtain es1 s1 where 1: "pump es s = pump es1 s1" "receiving es1 s1"
    "pending s1 @ payload es1 = data_rows new @ rest" "collects s1 p base (old @ [row])" "context_kept p s s1" by blast
  note k1 = context_kept_sel [OF 1(5)]
  have "\<exists>es' s'. pump es1 s1 = pump es' s' \<and> receiving es' s' \<and> pending s' @ payload es' = rest \<and>
      collects s' p base ((old @ [row]) @ new) \<and> context_kept p s1 s'"
    by (rule Cons.IH [OF _ 1(2,4)]) (use Cons.prems k1 1(3) in auto)
  then obtain es' s' where 2: "pump es1 s1 = pump es' s'" "receiving es' s'" "pending s' @ payload es' = rest"
    "collects s' p base (old @ row # new)" "context_kept p s1 s'" by auto
  then have "context_kept p s s'" using 1(5) context_kept_trans by blast
  with 1(1) 2 show ?case by (intro exI [of _ es'] exI [of _ s']) simp
qed

subsection \<open>The row description\<close>

definition described_result :: "att_desc list \<Rightarrow> pgresult" where
  "described_result ds = (empty_result PGRES_TUPLES_OK)\<lparr>numAttributes := int (length ds), attDescs := ds,
     binary := (ds \<noteq> [] \<and> list_all (\<lambda>d. format d = 1) ds)\<rparr>"

definition atts_ok :: "int \<Rightarrow> att_desc list \<Rightarrow> bool" where
  "atts_ok version ds \<longleftrightarrow> length ds < 2 ^ 16 \<and> (\<forall>d \<in> set ds. att_ok version d) \<and> length (put_atts version ds) < 2 ^ 28"

text \<open>The state after a result was created.\<close>

definition with_result :: "pqstate \<Rightarrow> pqstate" where
  "with_result s = s\<lparr>fresh := fresh s + 1, result := Some (fresh s), resultForDescRowPrep := Some (fresh s)\<rparr>"

lemma described_rows: "rows_in (described_result ds) [] (described_result ds)"
  by (auto simp: rows_in_def described_result_def empty_result_def tup_wf_def tuple_array_def)

lemma getRowDescriptions_ok:
  assumes w: "in_wf t" and u: "unread t = put_atts (server_protocol_version t) ds @ front"
    and ok: "atts_ok (server_protocol_version t) ds" and q: "queryclass t \<noteq> PGQUERY_DESCRIBE"
  shows "getRowDescriptions t = Some (False, (with_result t)\<lparr>
    inCursor := inCursor t + length (put_atts (server_protocol_version t) ds),
    results := (results t)(fresh t \<mapsto> described_result ds)\<rparr>)"
proof -
  let ?v = "server_protocol_version t" and ?p = "fresh t"
  let ?c0 = "t\<lparr>results := (results t)(?p \<mapsto> empty_result PGRES_TUPLES_OK), fresh := ?p + 1\<rparr>"
  have mk: "PQmakeEmptyPGresult t PGRES_TUPLES_OK = (?p, ?c0)" by (simp add: PQmakeEmptyPGresult_def)
  have l2: "int2_ok (int (length ds))" and a: "\<forall>d \<in> set ds. att_ok ?v d" using ok by (simp_all add: atts_ok_def int2_ok_def)
  have w0: "in_wf ?c0" and u0: "unread ?c0 = net_bytes 2 (int (length ds)) @ (concat (map (put_att ?v) ds) @ front)"
    using w u by (simp_all add: in_wf_def inBufSize_def unread_def put_atts_def)
  note g = int2.get_put [OF w0 u0 l2]
  let ?c1 = "?c0\<lparr>inCursor := inCursor t + 2\<rparr>"
  have g1: "pqGetInt 2 ?c0 = (Some (int (length ds)), ?c1)" "in_wf ?c1" "unread ?c1 = concat (map (put_att ?v) ds) @ front"
    using g by simp_all
  have cur: "inCursor ?c1 + length (concat (map (put_att ?v) ds)) = inCursor t + length (put_atts ?v ds)"
    by (simp add: put_atts_def)
  have ga: "get_att_descs ?v (length ds) [] ?c1 = (False, ds, ?c1\<lparr>inCursor := inCursor t + length (put_atts ?v ds)\<rparr>)"
    using get_att_descs_put [OF g1(2,3) a, of "[]"] unfolding cur by simp
  have st: "(if queryclass t = PGQUERY_DESCRIBE then x else PQmakeEmptyPGresult t PGRES_TUPLES_OK) = (?p, ?c0)" for x
    using q mk by simp
  have rs: "results ?c0 ?p = Some (empty_result PGRES_TUPLES_OK)" by simp
  show ?thesis
    unfolding getRowDescriptions_def st prod.case rs Option.bind.simps Let_def g1(1) option.case nat_int ga if_False
    by (simp add: set_result_def with_result_def described_result_def)
qed

lemma msg_T_ok:
  assumes w: "in_wf t" and u: "unread t = put_atts (server_protocol_version t) ds @ front"
    and ok: "atts_ok (server_protocol_version t) ds" and q: "queryclass t \<noteq> PGQUERY_DESCRIBE"
    and r: "result t = None" and l: "csc_loop t = None" and b: "\<not> (streamingMode t \<and> 0 < streamResultBatchNumber t)"
  shows "msg_T t = Some (Next, (with_result t)\<lparr>
    inCursor := inCursor t + length (put_atts (server_protocol_version t) ds),
    results := (results t)(fresh t \<mapsto> described_result ds)\<rparr>)"
proof -
  have "csc_loop ((with_result t)\<lparr>inCursor := c, results := rs\<rparr>) = csc_loop t" for c rs
    by (simp add: with_result_def csc_loop_def)
  with assms getRowDescriptions_ok [OF w u ok q] show ?thesis
    by (auto simp: msg_T_def Let_def with_result_def)
qed

definition description_msg :: "int \<Rightarrow> att_desc list \<Rightarrow> byte list" where
  "description_msg version ds = put_msg CHR ''T'' (put_atts version ds)"

lemma pump_description:
  assumes s: "open_loop s" and r: "receiving es s" and ok: "atts_ok (server_protocol_version s) ds"
    and q: "queryclass s \<noteq> PGQUERY_DESCRIBE" and n: "result s = None" and l: "csc_loop s = None"
    and b: "\<not> (streamingMode s \<and> 0 < streamResultBatchNumber s)" and lim: "no_limits s" and t0: "curTuple s = None"
    and p: "pending s @ payload es = description_msg (server_protocol_version s) ds @ rest"
  shows "\<exists>es' s'. pump es s = pump es' s' \<and> receiving es' s' \<and> pending s' @ payload es' = rest \<and>
    collects s' (fresh s) (described_result ds) [] \<and> context_kept (fresh s) (with_result s) s'"
proof -
  let ?v = "server_protocol_version s" and ?d = "put_atts (server_protocol_version s) ds"
  let ?Q = "\<lambda>u. collects u (fresh s) (described_result ds) [] \<and> context_kept (fresh s) (with_result s) u"
  have mo: "msg_ok CHR ''T'' ?d" using ok by (simp add: msg_ok_def atts_ok_def)
  have busy: "asyncStatus s = PGASYNC_BUSY" using s by (simp add: open_loop_def)
  show ?thesis
  proof (rule pump_message [OF s r mo p [unfolded description_msg_def], where Q = ?Q])
    fix t assume t: "near s t" "in_wf t" "\<exists>front. unread t = ?d @ front" "inCursor t = inStart t + 5"
    then obtain front where f: "unread t = ?d @ front" by blast
    note k = context_kept_sel [OF near_context [OF t(1)]]
    let ?u = "(with_result t)\<lparr>inCursor := inCursor t + length ?d, results := (results t)(fresh t \<mapsto> described_result ds)\<rparr>"
    have "msg_T t = Some (Next, ?u)"
      using msg_T_ok [OF t(2), unfolded k(23), OF f ok _ _ _ _] q n l b by (simp only: k) simp
    then have "handle_message t (byte_of CHR ''T'') (int (length ?d)) = Some (Next, ?u)" using busy k(1) by simp
    moreover have "moved t ?u (length ?d)" by (simp add: moved_def with_result_def)
    moreover have "collects ?u (fresh s) (described_result ds) []"
      using lim t0 described_rows [of ds] k(15,24,25)
      by (simp add: collects_def with_result_def no_limits_def described_result_def empty_result_def)
    moreover have "context_kept (fresh s) (with_result s) ?u"
    proof -
      from t(1) obtain b st u e l where t': "t = s\<lparr>inBuffer := b, inStart := st, inCursor := u, inEnd := e, lastseg := l\<rparr>"
        by (auto simp: near_def)
      show ?thesis
        by (rule context_keptI [where b = b and st = st and u = "inCursor t + length ?d" and e = e and l = l
              and x = "Some (described_result ds)"]) (simp add: t' with_result_def)
    qed
    ultimately show "\<exists>u. handle_message t (byte_of CHR ''T'') (int (length ?d)) = Some (Next, u) \<and> moved t u (length ?d) \<and> ?Q u"
      by blast
  next
    fix u v assume "?Q u" "near u v"
    then show "?Q v" using near_collects near_context context_kept_trans by blast
  qed
qed

end
