(* ===== verification/Pq_Finish.thy ===== *)
theory Pq_Finish
  imports Pq_Answer
begin

text \<open>
  The end of an answer: command complete makes the result ready, a parser with a result ready leaves the next
  message in the buffer, and ready-for-query ends the query. Then one call of \<^verbatim>\<open>pqGetResult\<close>
  on the stream of a whole answer.
\<close>

subsection \<open>Command complete\<close>

definition command_msg :: "byte list \<Rightarrow> byte list" where
  "command_msg tag = put_msg CHR ''C'' (put_string tag)"

definition tag_ok :: "byte list \<Rightarrow> bool" where
  "tag_ok tag \<longleftrightarrow> 0 \<notin> set tag \<and> length tag < 29990"

text \<open>What command complete does to the connection, without a client-side cursor.\<close>

definition command_done :: "pqstate \<Rightarrow> pqstate" where
  "command_done s =
     (let u = s\<lparr>asyncStatus := PGASYNC_READY\<rparr> in
      if streamingMode u then resetAfterOneResultReadFromServerFinishForStreamingCursor u else u)"

definition tagged :: "byte list \<Rightarrow> pgresult \<Rightarrow> pgresult" where
  "tagged tag r = r\<lparr>cmdStatus := take CMDSTATUS_LEN tag\<rparr>"

lemma rows_in_tagged: "rows_in base rows r \<Longrightarrow> rows_in (tagged tag base) rows (tagged tag r)"
proof -
  assume "rows_in base rows r"
  then obtain sz mem where w: "tup_wf r" and r: "r = base\<lparr>tuples := tuple_array rows, ntups := int (length rows),
     totalntups := int (length rows), tupArrSize := sz, mem_used := mem\<rparr>" by (auto simp: rows_in_def)
  from w have "tup_wf (tagged tag r)" by (simp add: tup_wf_def tagged_def)
  moreover have "tagged tag r = (tagged tag base)\<lparr>tuples := tuple_array rows, ntups := int (length rows),
     totalntups := int (length rows), tupArrSize := sz, mem_used := mem\<rparr>" by (simp add: r tagged_def)
  ultimately show ?thesis unfolding rows_in_def by blast
qed

lemma msg_C_ok:
  assumes w: "in_wf t" and u: "unread t = put_string tag @ front" and ok: "tag_ok tag"
    and l: "csc_loop t = None" and c: "result t = Some p" "results t p = Some r"
  shows "msg_C t = Some (Next, command_done (t\<lparr>inCursor := inCursor t + length (put_string tag),
           results := (results t)(p \<mapsto> tagged tag r)\<rparr>))"
proof -
  have v: "0 \<notin> set tag" using ok by (simp add: tag_ok_def)
  note g = gets.get_put(1) [OF w u v]
  show ?thesis
    using c l by (simp add: msg_C_def g with_empty_result_def Let_def set_result_def csc_loop_def command_done_def tagged_def
        split: if_splits)
qed

lemma command_done_sel [simp]:
  "asyncStatus (command_done s) = PGASYNC_READY" "inBuffer (command_done s) = inBuffer s" "inStart (command_done s) = inStart s"
  "inEnd (command_done s) = inEnd s" "inCursor (command_done s) = inCursor s" "sock_open (command_done s) = sock_open s"
  "results (command_done s) = results s" "no_limits (command_done s) = no_limits s" "curTuple (command_done s) = curTuple s"
  "csc_loop (command_done s) = csc_loop s" "stopped (command_done s) = stopped s" "fresh (command_done s) = fresh s"
  by (auto simp: command_done_def Let_def resetAfterOneResultReadFromServerFinishForStreamingCursor_def no_limits_def csc_loop_def
      stopped_def)

lemma command_done_context:
  assumes "context_kept p s t"
  shows "context_kept p (command_done s) (command_done t)"
proof -
  from assms obtain b st u e l x where t: "t = s\<lparr>inBuffer := b, inStart := st, inCursor := u, inEnd := e, lastseg := l,
     results := (results s)(p := x)\<rparr>" by (auto simp: context_kept_def)
  have "command_done t = (command_done s)\<lparr>inBuffer := b, inStart := st, inCursor := u, inEnd := e, lastseg := l,
     results := (results (command_done s))(p := x)\<rparr>"
    by (simp add: t command_done_def Let_def resetAfterOneResultReadFromServerFinishForStreamingCursor_def)
  then show ?thesis by (rule context_keptI)
qed

lemma pump_command:
  assumes s: "open_loop s" and r: "receiving es s" and c: "collects s p base rows" and ok: "tag_ok tag"
    and l: "csc_loop s = None" and pm: "pending s @ payload es = command_msg tag @ rest"
  shows "\<exists>es' s'. pump es s = pump es' s' \<and> receiving es' s' \<and> pending s' @ payload es' = rest \<and>
    context_kept p (command_done s) s' \<and> (\<exists>r. results s' p = Some r \<and> rows_in (tagged tag base) rows r)"
proof -
  let ?d = "put_string tag"
  let ?Q = "\<lambda>u. context_kept p (command_done s) u \<and> (\<exists>r. results u p = Some r \<and> rows_in (tagged tag base) rows r)"
  have mo: "msg_ok CHR ''C'' ?d" using ok by (simp add: msg_ok_def tag_ok_def put_string_def)
  have busy: "asyncStatus s = PGASYNC_BUSY" using s by (simp add: open_loop_def)
  show ?thesis
  proof (rule pump_message [OF s r mo pm [unfolded command_msg_def], where Q = ?Q])
    fix t assume t: "near s t" "in_wf t" "\<exists>front. unread t = ?d @ front" "inCursor t = inStart t + 5"
    then obtain front where f: "unread t = ?d @ front" by blast
    note k = context_kept_sel [OF near_context [OF t(1), of p]]
    from near_collects [OF c t(1)] obtain q where q: "result t = Some p" "results t p = Some q" "rows_in base rows q"
      by (auto simp: collects_def)
    let ?v = "t\<lparr>inCursor := inCursor t + length ?d, results := (results t)(p \<mapsto> tagged tag q)\<rparr>"
    have "csc_loop t = None" using l k(11) by simp
    then have "handle_message t (byte_of CHR ''C'') (int (length ?d)) = Some (Next, command_done ?v)"
      using msg_C_ok [OF t(2) f ok _ q(1,2)] busy k(1) by simp
    moreover have "moved t (command_done ?v) (length ?d)" by (simp add: moved_def)
    moreover have "context_kept p t ?v"
      by (rule context_keptI [where b = "inBuffer t" and st = "inStart t" and u = "inCursor t + length ?d" and e = "inEnd t"
           and l = "lastseg t" and x = "Some (tagged tag q)"], simp)
    then have "context_kept p (command_done s) (command_done ?v)"
      by (intro command_done_context context_kept_trans [OF near_context [OF t(1)]])
    moreover have "results (command_done ?v) p = Some (tagged tag q)" by simp
    ultimately show "\<exists>u. handle_message t (byte_of CHR ''C'') (int (length ?d)) = Some (Next, u) \<and> moved t u (length ?d) \<and> ?Q u"
      using rows_in_tagged [OF q(3)] by blast
  next
    fix u v assume "?Q u" "near u v"
    then show "?Q v" using near_sel(9) near_context context_kept_trans by metis
  qed
qed

subsection \<open>A result is ready\<close>

lemma handle_ready [simp]: "asyncStatus t = PGASYNC_READY \<Longrightarrow> ch \<notin> {CHR ''A'', CHR ''N''} \<Longrightarrow>
    handle_message t (byte_of ch) n = Some (Suspend, t)"
  by (simp add: handle_message_def Let_def)

text \<open>The parser keeps the next message for the next call.\<close>

lemma pump_ready:
  assumes a: "asyncStatus s = PGASYNC_READY" and nst: "\<not> stopped s" and r: "receiving es s" and ok: "msg_ok ch body"
    and ch: "ch \<notin> {CHR ''A'', CHR ''N''}" and p: "pending s @ payload es = put_msg ch body @ rest"
  shows "\<exists>s'. pump es s = Some (es, s') \<and> near s s' \<and> receiving es s' \<and> pending s' = pending s"
proof -
  have w: "in_wf s" using r by (simp add: receiving_def)
  have halted: "\<exists>s'. pump es s = Some (es, s') \<and> near s s' \<and> receiving es s' \<and> pending s' = pending s"
    if h: "parse_round s = Some (False, s1)" "near s s1" "receiving es s1" "pending s1 = pending s" for s1
  proof -
    have "result_loop es s1 = Some (es, s1)"
      by (rule result_loop_done) (use a nst near_sel [OF h(2)] in \<open>auto simp: open_loop_def\<close>)
    with pump_halt [OF h(1)] h show ?thesis by auto
  qed
  show ?thesis
  proof (cases "5 + length body \<le> length (pending s)")
    case True
    have "pending s = put_msg ch body @ drop (5 + length body) (pending s)"
      using arg_cong [OF p, of "take (5 + length body)"] True by simp (metis append_take_drop_id)
    from parse_round_message [OF w nst ok this] obtain l where
      pr: "parse_round s = Option.bind (handle_message (at_body s l) (byte_of ch) (int (length body))) (\<lambda>(v, s4).
      if v = Suspend then Some (False, s4)
      else map_option (Pair (v = Next)) (consume_message (inStart s) (byte_of ch) (int (length body)) s4))" by blast
    have "asyncStatus (at_body s l) = PGASYNC_READY" using a by (simp add: at_body_def)
    then have "parse_round s = Some (False, at_body s l)" using ch by (simp add: pr)
    moreover note at_body_ok [OF w ok \<open>pending s = put_msg ch body @ drop (5 + length body) (pending s)\<close>, of l]
    ultimately show ?thesis
      using halted [of "at_body s l"] r by (simp add: receiving_def in_room_def inBufSize_def at_body_def pending_def)
  next
    case False
    then have k: "length (pending s) < 5 + length body" by simp
    have pre: "pending s = take (length (pending s)) (put_msg ch body)"
      using arg_cong [OF p, of "take (length (pending s))"] k by simp
    have tot: "length (put_msg ch body) + length rest = length (pending s) + length (payload es)"
      using arg_cong [OF p, of length] by simp
    have "inStart s + length (pending s) = inEnd s" using length_pending [OF w] w by (simp add: in_wf_def)
    with tot r have room: "0 < inBufSize s" "inStart s + 5 + length body \<le> 2 ^ 28"
      by (auto simp: receiving_def in_room_def)
    from parse_round_partial [OF w nst ok pre k room] obtain s1 where
      s1: "parse_round s = Some (False, s1)" "near s s1" "in_wf s1" "pending s1 = pending s" "inEnd s1 = inEnd s"
      "inBufSize s \<le> inBufSize s1" by blast
    have "receiving es s1" using r s1 near_sel(7) [OF s1(2)] by (simp add: receiving_def in_room_def)
    with halted [OF s1(1,2) _ s1(4)] show ?thesis by blast
  qed
qed

subsection \<open>Ready for query\<close>

definition ready_msg :: "byte \<Rightarrow> byte list" where
  "ready_msg st = put_msg CHR ''Z'' [st]"

text \<open>An idle parser with nothing in the buffer does nothing.\<close>

lemma pump_idle:
  assumes a: "asyncStatus s \<noteq> PGASYNC_BUSY" and nst: "\<not> stopped s" and r: "receiving es s" and p: "pending s = []"
  shows "pump es s = Some (es, s\<lparr>inCursor := inStart s\<rparr>)"
proof -
  have "in_wf s" using r by (simp add: receiving_def)
  then have "inEnd s \<le> inStart s" using length_pending [of s] p by simp
  then have "parse_round s = Some (False, s\<lparr>inCursor := inStart s\<rparr>)"
    using nst by (auto simp: parse_round_def stopped_def pqGetc_def)
  moreover have "result_loop es (s\<lparr>inCursor := inStart s\<rparr>) = Some (es, s\<lparr>inCursor := inStart s\<rparr>)"
    by (rule result_loop_done) (use a nst in \<open>auto simp: open_loop_def stopped_def csc_loop_def\<close>)
  ultimately show ?thesis using pump_halt by simp
qed

definition query_done :: "pqstate \<Rightarrow> pqstate" where
  "query_done s = (let u = s\<lparr>asyncStatus := PGASYNC_IDLE\<rparr> in if streamingMode u then u\<lparr>endOfStreamingCursorQuery := True\<rparr> else u)"

lemma query_done_sel [simp]:
  "asyncStatus (query_done s) = PGASYNC_IDLE" "inBuffer (query_done s) = inBuffer s" "inStart (query_done s) = inStart s"
  "inEnd (query_done s) = inEnd s" "inCursor (query_done s) = inCursor s" "sock_open (query_done s) = sock_open s"
  "results (query_done s) = results s" "result (query_done s) = result s" "streamingMode (query_done s) = streamingMode s"
  "fresh (query_done s) = fresh s" "iSocketError (query_done s) = iSocketError s" "cscThreadCreated (query_done s) = cscThreadCreated s"
  "streamResultBatchNumber (query_done s) = streamResultBatchNumber s" "stopped (query_done s) = stopped s"
  by (simp_all add: query_done_def Let_def stopped_def csc_loop_def)

definition ended :: "pqstate \<Rightarrow> pqstate \<Rightarrow> bool" where
  "ended s s' \<longleftrightarrow> (\<exists>b st u e l x. s' = (query_done s)\<lparr>inBuffer := b, inStart := st, inCursor := u, inEnd := e, lastseg := l,
     xactStatus := x\<rparr>)"

lemma endedI:
  "s' = (query_done s)\<lparr>inBuffer := b, inStart := st, inCursor := u, inEnd := e, lastseg := l, xactStatus := x\<rparr> \<Longrightarrow> ended s s'"
  unfolding ended_def by blast

lemma pump_end:
  assumes s: "open_loop s" and r: "receiving es s" and l: "csc_loop s = None"
    and p: "pending s @ payload es = ready_msg st"
  shows "\<exists>es' s'. pump es s = Some (es', s') \<and> receiving es' s' \<and> pending s' @ payload es' = [] \<and> ended s s'"
proof -
  let ?Q = "\<lambda>v. ended s v"
  have mo: "msg_ok CHR ''Z'' [st]" by (simp add: msg_ok_def)
  have busy: "asyncStatus s = PGASYNC_BUSY" and nst: "\<not> stopped s" using s by (simp_all add: open_loop_def)
  have pm: "pending s @ payload es = put_msg CHR ''Z'' [st] @ []" using p by (simp add: ready_msg_def)
  have "\<exists>es' s'. pump es s = pump es' s' \<and> receiving es' s' \<and> pending s' @ payload es' = [] \<and> ?Q s'"
  proof (rule pump_message [OF s r mo pm])
    fix t assume t: "near s t" "in_wf t" "\<exists>front. unread t = [st] @ front" "inCursor t = inStart t + 5"
    then obtain front where f: "unread t = [st] @ front" by blast
    note k = context_kept_sel [OF near_context [OF t(1), of undefined]]
    from getc.get_put(1) [OF t(2) f TrueI] have g: "pqGetc t = (Some st, t\<lparr>inCursor := inCursor t + 1\<rparr>)" by simp
    obtain x where "getReadyForQuery t = (False, t\<lparr>inCursor := inCursor t + 1, xactStatus := x\<rparr>)"
      by (simp add: getReadyForQuery_def g)
    moreover have "csc_loop (t\<lparr>inCursor := inCursor t + 1, xactStatus := x, asyncStatus := PGASYNC_IDLE\<rparr>) = None"
      using l k(11) by (auto simp: csc_loop_def split: if_splits)
    ultimately have "handle_message t (byte_of CHR ''Z'') (int (length [st])) =
        Some (Next, query_done (t\<lparr>inCursor := inCursor t + 1, xactStatus := x\<rparr>))"
      using busy k(1) by (simp add: msg_Z_def Let_def query_done_def)
    moreover have "moved t (query_done (t\<lparr>inCursor := inCursor t + 1, xactStatus := x\<rparr>)) (length [st])" by (simp add: moved_def)
    moreover have "?Q (query_done (t\<lparr>inCursor := inCursor t + 1, xactStatus := x\<rparr>))"
    proof -
      from t(1) obtain b stt u e lb where t': "t = s\<lparr>inBuffer := b, inStart := stt, inCursor := u, inEnd := e, lastseg := lb\<rparr>"
        by (auto simp: near_def)
      show ?thesis
        by (rule endedI [where b = b and st = stt and u = "u + 1" and e = e and l = lb and x = x])
           (simp add: t' query_done_def Let_def)
    qed
    ultimately show "\<exists>u. handle_message t (byte_of CHR ''Z'') (int (length [st])) = Some (Next, u) \<and> moved t u (length [st]) \<and> ?Q u"
      by blast
  next
    fix u v assume "?Q u" and uv: "near u v"
    then obtain b stt c e lb x where u: "u = (query_done s)\<lparr>inBuffer := b, inStart := stt, inCursor := c, inEnd := e,
      lastseg := lb, xactStatus := x\<rparr>" by (auto simp: ended_def)
    from uv obtain b' stt' c' e' lb' where v: "v = u\<lparr>inBuffer := b', inStart := stt', inCursor := c', inEnd := e', lastseg := lb'\<rparr>"
      unfolding near_def by blast
    have "v = (query_done s)\<lparr>inBuffer := b', inStart := stt', inCursor := c', inEnd := e', lastseg := lb', xactStatus := x\<rparr>"
      by (simp add: v u)
    then show "?Q v" by (rule endedI)
  qed
  then obtain es1 s1 b stt u e lb x where 1: "pump es s = pump es1 s1" "receiving es1 s1" "pending s1 @ payload es1 = []"
    and s1: "s1 = (query_done s)\<lparr>inBuffer := b, inStart := stt, inCursor := u, inEnd := e, lastseg := lb, xactStatus := x\<rparr>"
    by (auto simp: ended_def)
  have "asyncStatus s1 = PGASYNC_IDLE" "\<not> stopped s1" using nst by (auto simp: s1 stopped_def query_done_def Let_def csc_loop_def split: if_splits)
  then have fin: "pump es1 s1 = Some (es1, s1\<lparr>inCursor := inStart s1\<rparr>)" using pump_idle [OF _ _ 1(2)] 1(3) by simp
  have "receiving es1 (s1\<lparr>inCursor := inStart s1\<rparr>)" using 1(2) restart(1) [of s1]
    by (simp add: receiving_def in_room_def inBufSize_def)
  moreover have "pending (s1\<lparr>inCursor := inStart s1\<rparr>) @ payload es1 = []" using 1(3) by (simp add: pending_def)
  moreover have "ended s (s1\<lparr>inCursor := inStart s1\<rparr>)"
    by (rule endedI [where b = b and st = stt and u = "inStart s1" and e = e and l = lb and x = x]) (simp add: s1)
  ultimately show ?thesis using 1(1) fin by (intro exI [of _ es1] exI [of _ "s1\<lparr>inCursor := inStart s1\<rparr>"]) simp
qed

end
