(* ===== verification/Pq_Exec.thy ===== *)
theory Pq_Exec
  imports Pq_Loop
begin

text \<open>
  The callers of the message loop in \<^verbatim>\<open>fe-exec.c\<close>: the synchronous calls, which ask for results
  without a statement context until there is none, and the streaming cursor, which clears the rows of a result and
  has the loop read the next ones into it.
\<close>

subsection \<open>Results without a statement\<close>

text \<open>
  \<^verbatim>\<open>PQgetResult\<close> runs the loop with a context that is all zero, and that is gone afterwards.
\<close>

definition no_context :: "pqstate \<Rightarrow> pqstate" where
  "no_context s = s\<lparr>mloop := None, iSocketError := False, cscThreadCreated := False, calledFromCscThread := False,
     alreadyInitMsgLoopState := False, streamingMode := False, streamingCursorRows := 0, endOfStreamingCursor := False,
     streamResultBatchNumber := 0, endOfStreamingCursorQuery := False, skipStreamingCursor := False,
     hasResultHandler := False\<rparr>"

definition back_in_context :: "pqstate \<Rightarrow> pqstate \<Rightarrow> pqstate" where
  "back_in_context s t = t\<lparr>mloop := mloop s, iSocketError := iSocketError s, cscThreadCreated := cscThreadCreated s,
     calledFromCscThread := calledFromCscThread s, alreadyInitMsgLoopState := alreadyInitMsgLoopState s,
     streamingMode := streamingMode s, streamingCursorRows := streamingCursorRows s,
     endOfStreamingCursor := endOfStreamingCursor s, streamResultBatchNumber := streamResultBatchNumber s,
     endOfStreamingCursorQuery := endOfStreamingCursorQuery s, skipStreamingCursor := skipStreamingCursor s,
     hasResultHandler := hasResultHandler s\<rparr>"

definition PQgetResult :: "recv list \<Rightarrow> pqstate \<Rightarrow> (nat option \<times> recv list \<times> pqstate) option" where
  "PQgetResult es s = map_option (\<lambda>(p, es1, s1). (p, es1, back_in_context s s1)) (pqGetResult es (no_context s))"

text \<open>The flag: a new command may be sent.\<close>

partial_function (option) PQexecStart :: "recv list \<Rightarrow> pqstate \<Rightarrow> (bool \<times> recv list \<times> pqstate) option" where
  "PQexecStart es s =
     Option.bind (PQgetResult es s) (\<lambda>(p, es1, s1).
       case p of
         None \<Rightarrow> Some (True, es1, s1)
       | Some a \<Rightarrow>
           Option.bind (results s1 a) (\<lambda>r.
             if status_ok s1 then PQexecStart es1 (PQclear s1 (Some a)) else Some (False, es1, PQclear s1 (Some a))))"

text \<open>Two results of one command: two errors are merged, else the later result counts.\<close>

definition merge_results :: "pqstate \<Rightarrow> nat option \<Rightarrow> nat \<Rightarrow> (nat \<times> pqstate) option" where
  "merge_results s lastResult a =
     (case lastResult of
        None \<Rightarrow> Some (a, s)
      | Some l \<Rightarrow>
          do {
            rl \<leftarrow> results s l;
            ra \<leftarrow> results s a;
            if resultStatus rl = PGRES_FATAL_ERROR \<and> resultStatus ra = PGRES_FATAL_ERROR then
              do {
                msg \<leftarrow> errMsg ra;
                let rl1 = pqCatenateResultError rl msg;
                let s1 = PQclear (set_result s l rl1) (Some a);
                msg1 \<leftarrow> errMsg rl1;
                Some (l, s1\<lparr>errorMessage := msg1\<rparr>)
              }
            else Some (a, PQclear s (Some l))
          })"

partial_function (option) exec_finish ::
  "nat option \<Rightarrow> recv list \<Rightarrow> pqstate \<Rightarrow> (nat option \<times> recv list \<times> pqstate) option" where
  "exec_finish lastResult es s =
     Option.bind (PQgetResult es s) (\<lambda>(p, es1, s1).
       case p of
         None \<Rightarrow> Some (lastResult, es1, s1)
       | Some a \<Rightarrow>
           Option.bind (merge_results s1 lastResult a) (\<lambda>(l, s2).
             if status_ok s2 then exec_finish (Some l) es1 s2 else Some (Some l, es1, s2)))"

definition PQexecFinish :: "recv list \<Rightarrow> pqstate \<Rightarrow> (nat option \<times> recv list \<times> pqstate) option" where
  "PQexecFinish = exec_finish None"

subsection \<open>Streaming cursors\<close>

definition cleared_rows :: "pgresult \<Rightarrow> pgresult" where
  "cleared_rows r = r\<lparr>attDescs := [], tuples := None, paramDescs := [], errFields := [], res_csc := None,
     m_tuplesAllocatedByCscRead := False, ntups := 0, tupArrSize := 0, myntups := 0, totalntups := 0, capped := False,
     mem_used := 0, errMsg := None\<rparr>"

definition pqClearForStreamingCursor :: "pqstate \<Rightarrow> nat option \<Rightarrow> pqstate option" where
  "pqClearForStreamingCursor s res =
     (case res of
        None \<Rightarrow> Some s
      | Some p \<Rightarrow> map_option (\<lambda>r. (set_result s p (cleared_rows r))\<lparr>curTuple := None\<rparr>) (results s p))"

text \<open>The flag is \<^verbatim>\<open>*piError\<close>.\<close>

definition pqReadNextBatchOfStreamingRows ::
  "recv list \<Rightarrow> pqstate \<Rightarrow> nat option \<Rightarrow> (bool \<times> recv list \<times> pqstate) option" where
  "pqReadNextBatchOfStreamingRows es s pgResult =
     do {
       s1 \<leftarrow> pqClearForStreamingCursor s pgResult;
       (es1, s2) \<leftarrow> pqGetResultLoopOnThread es s1;
       Some (if iSocketError s2 then (True, es1, s2\<lparr>iSocketError := False\<rparr>) else (False, es1, s2))
     }"

text \<open>The result handler of the statement gets the next result, when there is one.\<close>

definition pqReadNextResultOfStreamingCursor :: "recv list \<Rightarrow> pqstate \<Rightarrow> (recv list \<times> pqstate) option" where
  "pqReadNextResultOfStreamingCursor es s =
     map_option (\<lambda>(p, es1, s1). (es1, case p of None \<Rightarrow> s1 | Some a \<Rightarrow> s1\<lparr>handled := handled s1 @ [a]\<rparr>))
       (pqGetResult es (s\<lparr>endOfStreamingCursor := False, streamResultBatchNumber := 0, asyncStatus := PGASYNC_BUSY,
                          result := None\<rparr>))"

definition pqResetConnectionResult :: "pqstate \<Rightarrow> pqstate" where
  "pqResetConnectionResult s = s\<lparr>result := None\<rparr>"

text \<open>The flag: the socket failed.\<close>

definition pqSkipCurrentResultOfStreamingCursor ::
  "recv list \<Rightarrow> pqstate \<Rightarrow> nat option \<Rightarrow> (bool \<times> recv list \<times> pqstate) option" where
  "pqSkipCurrentResultOfStreamingCursor es s pgResult =
     (if endOfStreamingCursor s \<or> pgResult = None then Some (False, es, s)
      else
        do {
          s1 \<leftarrow> pqClearForStreamingCursor (s\<lparr>skipStreamingCursor := True\<rparr>) pgResult;
          (es1, s2) \<leftarrow> pqGetResultLoopOnThread es (s1\<lparr>result := None\<rparr>);
          Some (iSocketError s2, es1, s2\<lparr>iSocketError := False, skipStreamingCursor := False,
                                         endOfStreamingCursor := True, streamResultBatchNumber := 0\<rparr>)
        })"

text \<open>One round of skipping all results.\<close>

definition skip_result :: "recv list \<Rightarrow> pqstate \<Rightarrow> (recv list \<times> pqstate) option" where
  "skip_result es s =
     map_option (\<lambda>(es1, s1).
         let s2 = (if iSocketError s1 then s1\<lparr>iSocketError := False, endOfStreamingCursorQuery := True\<rparr> else s1);
             s3 = s2\<lparr>skipStreamingCursor := False, endOfStreamingCursor := True, streamResultBatchNumber := 0\<rparr>;
             s4 = (if endOfStreamingCursorQuery s3 then s3 else s3\<lparr>asyncStatus := PGASYNC_BUSY\<rparr>)
         in (es1, (PQclear s4 (result s4))\<lparr>result := None\<rparr>))
       (pqGetResultLoopOnThread es (s\<lparr>skipStreamingCursor := True, result := None\<rparr>))"

partial_function (option) skip_results :: "recv list \<Rightarrow> pqstate \<Rightarrow> (recv list \<times> pqstate) option" where
  "skip_results es s =
     Option.bind (skip_result es s) (\<lambda>(es1, s1).
       if endOfStreamingCursorQuery s1 then Some (es1, s1) else skip_results es1 s1)"

definition pqSkipAllResultsOfStreamingCursor :: "recv list \<Rightarrow> pqstate \<Rightarrow> (recv list \<times> pqstate) option" where
  "pqSkipAllResultsOfStreamingCursor es s =
     (if endOfStreamingCursorQuery s then Some (es, s) else skip_results es s)"

definition pqIsIdle :: "pqstate \<Rightarrow> bool" where
  "pqIsIdle s \<longleftrightarrow> asyncStatus s = PGASYNC_IDLE"

subsection \<open>Results of a description\<close>

definition pqgetResultForDescribeParam :: "pqstate \<Rightarrow> nat option \<times> pqstate" where
  "pqgetResultForDescribeParam s =
     (if resultForDescParam s = result s then (resultForDescParam s, s\<lparr>resultForDescParam := None, result := None\<rparr>)
      else (None, s))"

definition pqgetResultForDescribeRowPrep :: "pqstate \<Rightarrow> nat option \<times> pqstate" where
  "pqgetResultForDescribeRowPrep s =
     (if resultForDescRowPrep s = result s then (resultForDescRowPrep s, s\<lparr>resultForDescRowPrep := None, result := None\<rparr>)
      else (None, s))"

subsection \<open>A new connection, and the start of a query\<close>

text \<open>
  \<^verbatim>\<open>makeEmptyPGconn\<close>, with the context and the executor all zero. The arguments are what the
  allocator left in the input buffer, the rest of the machine, and the two functions the model takes from outside.
\<close>

definition makeEmptyPGconn ::
  "byte list \<Rightarrow> world \<Rightarrow> (byte list \<Rightarrow> int) \<Rightarrow> (string \<Rightarrow> byte list \<Rightarrow> int \<Rightarrow> string) \<Rightarrow> pqstate" where
  "makeEmptyPGconn buf w encodings report =
    \<lparr>inBuffer = buf, inStart = 0, inCursor = 0, inEnd = 0, sock_open = False, use_ssl = False, status_ok = False,
     errorMessage = [], asyncStatus = PGASYNC_IDLE, queryclass = PGQUERY_SIMPLE, result = None, curTuple = None,
     server_protocol_version = 0, rows_only = False, mem_limit = 0, row_limit = 0, output_nbytes = 0, be_pid = 0, be_key = 0,
     xactStatus = PQTRANS_IDLE, lastseg = False, resultForDescRowPrep = None, resultForDescParam = None, pstatus = [],
     notifies = [], notices = [], last_sqlstate = [], last_query = None, verbose = PQERRORS_DEFAULT,
     error_position = report, client_encoding = 0, char_to_encoding = encodings, std_strings = False, sversion = 0,
     results = (\<lambda>_. None), fresh = 0, cscs = (\<lambda>_. None), mloop = None, cscExecutor = None, csc_thread = None,
     cscStopThread = False, pghost = [], iSocketError = False, cscThreadCreated = False, calledFromCscThread = False,
     alreadyInitMsgLoopState = False, streamingMode = False, streamingCursorRows = 0, endOfStreamingCursor = False,
     streamResultBatchNumber = 0, endOfStreamingCursorQuery = False, skipStreamingCursor = False,
     hasResultHandler = False, handled = [], iStop = False, sys = w, shutdownHook = None, ltime = 0, thread_starts = False,
     cal_maxRows = 0, cal_resultsettype = 0, cal_concurrency = 0\<rparr>"

text \<open>The flag: a command may be sent.\<close>

definition PQsendQueryStart :: "pqstate \<Rightarrow> bool \<times> pqstate" where
  "PQsendQueryStart s =
     (if \<not> status_ok s then (False, s\<lparr>errorMessage := ''no connection to the server\<newline>''\<rparr>)
      else if asyncStatus s \<noteq> PGASYNC_IDLE then (False, s\<lparr>errorMessage := ''another command is already in progress\<newline>''\<rparr>)
      else (True, s\<lparr>errorMessage := [], result := None, curTuple := None\<rparr>))"

end
