(* ===== verification/Pq_Get.thy ===== *)
theory Pq_Get
  imports Pq_Finish Pq_Exec
begin

text \<open>
  One call for a result, and the whole answer to a query. The state between two calls is \<open>awaiting\<close>: a query
  was sent, and the next result is to come from the server. Without client-side cursors the connection has no
  executor, and the loop state carries no cursor.
\<close>

definition awaiting :: "pqstate \<Rightarrow> bool" where
  "awaiting s \<longleftrightarrow> asyncStatus s = PGASYNC_BUSY \<and> result s = None \<and> curTuple s = None \<and> no_limits s \<and>
     cscExecutor s = None \<and> queryclass s \<noteq> PGQUERY_DESCRIBE \<and> \<not> cscThreadCreated s \<and>
     (alreadyInitMsgLoopState s \<longrightarrow> loop_csc s = None) \<and> streamResultBatchNumber s = 0 \<and>
     (streamingMode s \<longrightarrow> \<not> skipStreamingCursor s \<and> 0 < streamingCursorRows s)"

text \<open>The state in which the loop starts.\<close>

definition entered :: "pqstate \<Rightarrow> msgloop option \<Rightarrow> bool \<Rightarrow> pqstate" where
  "entered s m a = s\<lparr>alreadyInitMsgLoopState := a, mloop := m, iSocketError := False, iStop := False\<rparr>"

lemma loop_entered:
  assumes "cscExecutor s = None" and "alreadyInitMsgLoopState s \<longrightarrow> loop_csc s = None"
  obtains m a where "pqGetResultLoop es s = pump es (entered s m a)" "loop_csc (entered s m a) = None"
    "a \<longrightarrow> loop_csc (entered s m a) = None"
proof (cases "mloop s = None \<or> alreadyInitMsgLoopState s")
  case True
  have same: "entered s (mloop s) (alreadyInitMsgLoopState s) = s\<lparr>iSocketError := False, iStop := False\<rparr>"
    by (simp add: entered_def)
  from True have "pqGetResultLoop es s = pump es (entered s (mloop s) (alreadyInitMsgLoopState s))"
    unfolding same by (auto simp: pqGetResultLoop_def pqGetResultLoopOnThread_def pump_def split: option.splits)
  moreover have "loop_csc (entered s (mloop s) (alreadyInitMsgLoopState s)) = None"
    using True assms(2) by (auto simp: loop_csc_def entered_def)
  ultimately show thesis using that by blast
next
  case False
  then obtain m where m: "mloop s = Some m" "\<not> alreadyInitMsgLoopState s" by auto
  let ?m = "\<lparr>ml_maxRows = cal_maxRows s, ml_resultsettype = cal_resultsettype s, ml_concurrency = cal_concurrency s,
                ml_pgResult = result s, endQuery = False, executeIndex = 0, multiThreads = True, ml_csc = None,
                threadCreated = False, rowsInMemReturned = False, multiLock = None, skipResultNumber = 0, skipAllResults = False\<rparr>"
  have "pqGetResultLoop es s = pump es (entered s (Some ?m) True)"
    using m assms(1) by (simp add: pqGetResultLoop_def pqGetResultLoopOnThread_def pump_def entered_def
        initMessageLoopStateCsc_def set_loop_def)
  then show thesis by (rule that) (simp_all add: loop_csc_def entered_def)
qed

lemma csc_loop_no_executor: "cscExecutor s = None \<Longrightarrow> csc_loop s = None"
  by (simp add: csc_loop_def)

lemma entered_sel [simp]:
  "asyncStatus (entered s m a) = asyncStatus s" "result (entered s m a) = result s" "results (entered s m a) = results s"
  "curTuple (entered s m a) = curTuple s" "no_limits (entered s m a) = no_limits s" "fresh (entered s m a) = fresh s"
  "cscExecutor (entered s m a) = cscExecutor s" "queryclass (entered s m a) = queryclass s"
  "server_protocol_version (entered s m a) = server_protocol_version s" "streamingMode (entered s m a) = streamingMode s"
  "streamResultBatchNumber (entered s m a) = streamResultBatchNumber s" "skipStreamingCursor (entered s m a) = skipStreamingCursor s"
  "streamingCursorRows (entered s m a) = streamingCursorRows s" "pending (entered s m a) = pending s"
  "receiving es (entered s m a) = receiving es s" "iStop (entered s m a) = False" "iSocketError (entered s m a) = False"
  "cscThreadCreated (entered s m a) = cscThreadCreated s" "calledFromCscThread (entered s m a) = calledFromCscThread s"
  "alreadyInitMsgLoopState (entered s m a) = a" "sys (entered s m a) = sys s" "status_ok (entered s m a) = status_ok s"
  by (simp_all add: entered_def no_limits_def pending_def receiving_def in_wf_def in_room_def inBufSize_def)

lemma open_entered:
  assumes "awaiting s"
  shows "open_loop (entered s m a)"
  using assms by (auto simp: open_loop_def stopped_def csc_loop_def awaiting_def)

subsection \<open>One answer\<close>

definition answer_msgs :: "int \<Rightarrow> att_desc list \<Rightarrow> row list \<Rightarrow> byte list \<Rightarrow> byte list" where
  "answer_msgs version ds rows tag = description_msg version ds @ data_rows rows @ command_msg tag"

definition answer_ok :: "int \<Rightarrow> att_desc list \<Rightarrow> row list \<Rightarrow> byte list \<Rightarrow> bool" where
  "answer_ok version ds rows tag \<longleftrightarrow> atts_ok version ds \<and> rows_ok (int (length ds)) rows \<and> tag_ok tag"

text \<open>The result that an answer makes.\<close>

definition holds :: "att_desc list \<Rightarrow> row list \<Rightarrow> byte list \<Rightarrow> pgresult \<Rightarrow> bool" where
  "holds ds rows tag r \<longleftrightarrow> rows_in (tagged tag (described_result ds)) rows r"

text \<open>How a call changes the state: the buffer, the store at one address, and the loop's own fields.\<close>

definition loop_changed :: "nat \<Rightarrow> pqstate \<Rightarrow> pqstate \<Rightarrow> bool" where
  "loop_changed p s t \<longleftrightarrow> queryclass t = queryclass s \<and> server_protocol_version t = server_protocol_version s \<and>
     cscExecutor t = cscExecutor s \<and> no_limits t = no_limits s \<and> streamingMode t = streamingMode s \<and>
     streamingCursorRows t = streamingCursorRows s \<and> skipStreamingCursor t = skipStreamingCursor s \<and>
     status_ok t = status_ok s \<and> hasResultHandler t = hasResultHandler s \<and> (\<forall>q. q \<noteq> p \<longrightarrow> results t q = results s q)"

lemma loop_changed_trans: "loop_changed p s t \<Longrightarrow> loop_changed p t u \<Longrightarrow> loop_changed p s u"
  by (simp add: loop_changed_def)

lemma context_kept_changed: "context_kept p s t \<Longrightarrow> loop_changed p s t"
  by (auto simp: context_kept_def loop_changed_def no_limits_def)

lemma with_result_changed: "loop_changed p s (with_result s)"
  by (simp add: with_result_def loop_changed_def no_limits_def)

lemma command_done_changed: "loop_changed p s (command_done s)"
  by (simp add: command_done_def loop_changed_def no_limits_def Let_def
      resetAfterOneResultReadFromServerFinishForStreamingCursor_def)

lemma entered_changed: "loop_changed p s (entered s m a)"
  by (simp add: loop_changed_def entered_def no_limits_def)

lemma numAttributes_described [simp]: "numAttributes (described_result ds) = int (length ds)"
  by (simp add: described_result_def)

lemma status_described [simp]: "resultStatus (described_result ds) = PGRES_TUPLES_OK" "errMsg (described_result ds) = None"
  by (simp_all add: described_result_def empty_result_def)

lemma holds_sel:
  assumes "holds ds rows tag r"
  shows "tuples r = tuple_array rows" "ntups r = int (length rows)" "tup_wf r" "numAttributes r = int (length ds)"
    "resultStatus r = PGRES_TUPLES_OK" "attDescs r = ds" "errMsg r = None" "cmdStatus r = take CMDSTATUS_LEN tag"
    "m_tuplesAllocatedByCscRead r = False"
  using assms by (auto simp: holds_def rows_in_def tagged_def described_result_def empty_result_def)

text \<open>From the description to the next message, the rows fitting in one batch.\<close>

lemma pump_answer:
  assumes s: "open_loop s" and r: "receiving es s" and c: "result s = None" "curTuple s = None" "no_limits s"
    "queryclass s \<noteq> PGQUERY_DESCRIBE" "cscExecutor s = None" "loop_csc s = None"
    and st: "streamingMode s \<longrightarrow> \<not> skipStreamingCursor s \<and> streamResultBatchNumber s = 0 \<and> int (length rows) < streamingCursorRows s"
    and ok: "answer_ok (server_protocol_version s) ds rows tag" and mo: "msg_ok ch body" "ch \<notin> {CHR ''A'', CHR ''N''}"
    and p: "pending s @ payload es = answer_msgs (server_protocol_version s) ds rows tag @ put_msg ch body @ rest"
  shows "\<exists>es' s'. pump es s = Some (es', s') \<and> receiving es' s' \<and> pending s' @ payload es' = put_msg ch body @ rest \<and>
    context_kept (fresh s) (command_done (with_result s)) s' \<and> (\<exists>r. results s' (fresh s) = Some r \<and> holds ds rows tag r)"
proof -
  let ?v = "server_protocol_version s" and ?p = "fresh s"
  have oks: "atts_ok ?v ds" "rows_ok (int (length ds)) rows" "tag_ok tag" using ok by (simp_all add: answer_ok_def)
  note l = csc_loop_no_executor [OF c(5)]
  have p1: "pending s @ payload es = description_msg ?v ds @ (data_rows rows @ command_msg tag @ put_msg ch body @ rest)"
    using p by (simp add: answer_msgs_def)
  have b: "\<not> (streamingMode s \<and> 0 < streamResultBatchNumber s)" using st by auto
  from pump_description [OF s r oks(1) c(4,1) l b c(3,2) p1] obtain es1 s1 where
    1: "pump es s = pump es1 s1" "receiving es1 s1" "pending s1 @ payload es1 = data_rows rows @ command_msg tag @ put_msg ch body @ rest"
      "collects s1 ?p (described_result ds) []" "context_kept ?p (with_result s) s1" by blast
  note k1 = context_kept_sel [OF 1(5)]
  have w: "open_loop (with_result s) = open_loop s" "loop_csc (with_result s) = loop_csc s" "csc_loop (with_result s) = csc_loop s"
    by (simp_all add: with_result_def open_loop_def stopped_def csc_loop_def loop_csc_def)
  have o1: "open_loop s1" "loop_csc s1 = None" "csc_loop s1 = None" using s c(6) l w k1(2,10,11) by simp_all
  have st1: "streamingMode s1 \<longrightarrow> \<not> skipStreamingCursor s1" "streamingMode s1 \<longrightarrow> int (length ([] @ rows)) < streamingCursorRows s1"
    using st k1(7,8,9) by (simp_all add: with_result_def)
  have r1: "rows_ok (numAttributes (described_result ds)) ([] @ rows)" using oks(2) by simp
  from pump_rows [OF o1(1) 1(2,4) o1(2) st1(1) r1 st1(2) 1(3)] obtain es2 s2 where
    2: "pump es1 s1 = pump es2 s2" "receiving es2 s2" "pending s2 @ payload es2 = command_msg tag @ put_msg ch body @ rest"
      "collects s2 ?p (described_result ds) rows" "context_kept ?p s1 s2" by auto
  note k2 = context_kept_sel [OF 2(5)]
  have o2: "open_loop s2" "csc_loop s2 = None" using o1 k2(2,11) by simp_all
  from pump_command [OF o2(1) 2(2,4) oks(3) o2(2) 2(3)] obtain es3 s3 where
    3: "pump es2 s2 = pump es3 s3" "receiving es3 s3" "pending s3 @ payload es3 = put_msg ch body @ rest"
      "context_kept ?p (command_done s2) s3" "\<exists>r. results s3 ?p = Some r \<and> rows_in (tagged tag (described_result ds)) rows r" by blast
  note k3 = context_kept_sel [OF 3(4)]
  have "asyncStatus s3 = PGASYNC_READY" "\<not> stopped s3"
    using k3(1,3) o2(1) by (simp_all add: open_loop_def)
  from pump_ready [OF this 3(2) mo 3(3)] obtain s4 where
    4: "pump es3 s3 = Some (es3, s4)" "near s3 s4" "receiving es3 s4" "pending s4 = pending s3" by blast
  have "context_kept ?p (command_done (with_result s)) s4"
    using command_done_context [OF context_kept_trans [OF 1(5) 2(5)]] 3(4) near_context [OF 4(2), of ?p] by (blast intro: context_kept_trans)
  moreover have "results s4 = results s3" using near_sel(9) [OF 4(2)] .
  ultimately show ?thesis using 1(1) 2(1) 3(1,3,5) 4 by (intro exI [of _ es3] exI [of _ s4]) (auto simp: holds_def)
qed

lemma next_answer:
  assumes s: "awaiting s" and r: "receiving es s" and ok: "answer_ok (server_protocol_version s) ds rows tag"
    and n: "streamingMode s \<longrightarrow> int (length rows) < streamingCursorRows s"
    and mo: "msg_ok ch body" "ch \<notin> {CHR ''A'', CHR ''N''}"
    and p: "pending s @ payload es = answer_msgs (server_protocol_version s) ds rows tag @ put_msg ch body @ rest"
  shows "\<exists>es' s' r. pqGetResult es s = Some (Some (fresh s), es', s') \<and> awaiting s' \<and> receiving es' s' \<and>
    pending s' @ payload es' = put_msg ch body @ rest \<and> results s' (fresh s) = Some r \<and> holds ds rows tag r \<and>
    fresh s' = fresh s + 1 \<and> loop_changed (fresh s) s s'"
proof -
  have a: "asyncStatus s = PGASYNC_BUSY" "result s = None" "curTuple s = None" "no_limits s" "cscExecutor s = None"
    "queryclass s \<noteq> PGQUERY_DESCRIBE" "\<not> cscThreadCreated s" "streamResultBatchNumber s = 0"
    using s by (simp_all add: awaiting_def)
  obtain m i where e: "pqGetResultLoop es s = pump es (entered s m i)" "loop_csc (entered s m i) = None"
    using loop_entered [OF a(5)] s unfolding awaiting_def by metis
  let ?s = "entered s m i"
  have "\<exists>es' s'. pump es ?s = Some (es', s') \<and> receiving es' s' \<and> pending s' @ payload es' = put_msg ch body @ rest \<and>
    context_kept (fresh ?s) (command_done (with_result ?s)) s' \<and> (\<exists>r. results s' (fresh ?s) = Some r \<and> holds ds rows tag r)"
    by (rule pump_answer [OF open_entered [OF s] _ _ _ _ _ _ e(2) _ _ mo])
       (use s n r ok p a in \<open>auto simp: awaiting_def\<close>)
  then obtain es1 s1 q where 1: "pump es ?s = Some (es1, s1)" "receiving es1 s1" "pending s1 @ payload es1 = put_msg ch body @ rest"
    "context_kept (fresh s) (command_done (with_result ?s)) s1" "results s1 (fresh s) = Some q" "holds ds rows tag q" by auto
  note k = context_kept_sel [OF 1(4)]
  have x: "iSocketError s1 = False" "cscThreadCreated s1 = False" "streamResultBatchNumber s1 = 0"
    "asyncStatus s1 = PGASYNC_READY" "result s1 = Some (fresh s)" "fresh s1 = fresh s + 1" "loop_csc s1 = None"
    using a e(2) k(17,20,18,1,13,15,10)
    by (simp_all add: command_done_def Let_def resetAfterOneResultReadFromServerFinishForStreamingCursor_def with_result_def
        loop_csc_def)
  let ?t = "s1\<lparr>result := None, curTuple := None, errorMessage := [], asyncStatus := PGASYNC_BUSY\<rparr>"
  have "pqGetResult es s = Some (Some (fresh s), es1, ?t)"
    using x 1(5) holds_sel(7) [OF 1(6)]
    by (simp add: pqGetResult_def e(1) 1(1) pqPrepareAsyncResult_def)
  moreover have "loop_changed (fresh s) s s1"
    by (rule loop_changed_trans [OF entered_changed loop_changed_trans [OF with_result_changed
          loop_changed_trans [OF command_done_changed context_kept_changed [OF 1(4)]]]])
  then have ch: "loop_changed (fresh s) s ?t" by (simp add: loop_changed_def no_limits_def)
  moreover have "awaiting ?t"
    using ch s x by (simp add: awaiting_def loop_changed_def loop_csc_def)
  moreover have "receiving es1 ?t" "pending ?t = pending s1"
    using 1(2) by (simp_all add: receiving_def in_wf_def in_room_def inBufSize_def pending_def)
  moreover have "results ?t (fresh s) = Some q" "fresh ?t = fresh s + 1" using 1(5) x by simp_all
  ultimately show ?thesis using 1(3,6) by (intro exI [of _ es1] exI [of _ ?t] exI [of _ q]) simp
qed

text \<open>After the last answer.\<close>

lemma ended_sel:
  assumes "ended s t"
  shows "iSocketError t = iSocketError s" "cscThreadCreated t = cscThreadCreated s" "asyncStatus t = PGASYNC_IDLE"
    "streamResultBatchNumber t = streamResultBatchNumber s" "result t = result s" "results t = results s" "fresh t = fresh s"
    "loop_changed p s t"
proof -
  from assms obtain b st u e l x where t: "t = (query_done s)\<lparr>inBuffer := b, inStart := st, inCursor := u, inEnd := e, lastseg := l,
     xactStatus := x\<rparr>" by (auto simp: ended_def)
  show "iSocketError t = iSocketError s" "cscThreadCreated t = cscThreadCreated s" "asyncStatus t = PGASYNC_IDLE"
    "streamResultBatchNumber t = streamResultBatchNumber s" "result t = result s" "results t = results s" "fresh t = fresh s"
    by (simp_all add: t)
  have "loop_changed p s (query_done s)" by (simp add: query_done_def Let_def loop_changed_def no_limits_def)
  then show "loop_changed p s t" by (simp add: t loop_changed_def no_limits_def)
qed

lemma no_more_answers:
  assumes s: "awaiting s" and r: "receiving es s" and p: "pending s @ payload es = ready_msg st"
  shows "\<exists>es' s'. pqGetResult es s = Some (None, es', s') \<and> receiving es' s' \<and> pending s' @ payload es' = [] \<and>
    asyncStatus s' = PGASYNC_IDLE \<and> result s' = None \<and> results s' = results s \<and> fresh s' = fresh s \<and> loop_changed (fresh s) s s'"
proof -
  have a: "cscExecutor s = None" "\<not> cscThreadCreated s" "streamResultBatchNumber s = 0" "result s = None"
    using s by (simp_all add: awaiting_def)
  obtain m i where e: "pqGetResultLoop es s = pump es (entered s m i)"
    using loop_entered [OF a(1)] s unfolding awaiting_def by metis
  let ?s = "entered s m i"
  from pump_end [OF open_entered [OF s] _ _, of es m i st] r p a obtain es1 s1 where
    1: "pump es ?s = Some (es1, s1)" "receiving es1 s1" "pending s1 @ payload es1 = []" "ended ?s s1"
    by (auto simp: csc_loop_no_executor)
  have x: "iSocketError s1 = False" "cscThreadCreated s1 = False" "streamResultBatchNumber s1 = 0" "asyncStatus s1 = PGASYNC_IDLE"
    "result s1 = None" "results s1 = results s" "fresh s1 = fresh s" "loop_changed (fresh s) s s1"
    using a ended_sel [OF 1(4)] loop_changed_trans [OF entered_changed ended_sel(8) [OF 1(4)]] by simp_all
  then have "pqGetResult es s = Some (None, es1, s1)" by (simp add: pqGetResult_def e 1(1))
  with 1(2,3) x show ?thesis by (intro exI [of _ es1] exI [of _ s1]) simp
qed

end
