(* ===== verification/Pq_Several.thy ===== *)
theory Pq_Several
  imports Pq_Get
begin

text \<open>
  Several answers to one command, asked for without a statement: what \<^verbatim>\<open>PQexecStart\<close> and
  \<^verbatim>\<open>PQexecFinish\<close> make of them. No result is left behind in the store.
\<close>

lemma no_context_back [simp]: "no_context (back_in_context s t) = no_context t"
  by (simp add: no_context_def back_in_context_def)

lemma back_in_context_sel [simp]:
  "results (back_in_context s t) = results t" "fresh (back_in_context s t) = fresh t" "pending (back_in_context s t) = pending t"
  "receiving es (back_in_context s t) = receiving es t" "asyncStatus (back_in_context s t) = asyncStatus t"
  "status_ok (back_in_context s t) = status_ok t" "server_protocol_version (back_in_context s t) = server_protocol_version t"
  by (simp_all add: back_in_context_def pending_def receiving_def in_wf_def in_room_def inBufSize_def)

lemma no_context_sel [simp]:
  "results (no_context s) = results s" "fresh (no_context s) = fresh s" "pending (no_context s) = pending s"
  "receiving es (no_context s) = receiving es s" "server_protocol_version (no_context s) = server_protocol_version s"
  "status_ok (no_context s) = status_ok s" "streamingMode (no_context s) = False"
  by (simp_all add: no_context_def pending_def receiving_def in_wf_def in_room_def inBufSize_def)

text \<open>A command was sent, and its answers are still to be read.\<close>

definition asked :: "recv list \<Rightarrow> pqstate \<Rightarrow> byte list \<Rightarrow> bool" where
  "asked es s bytes \<longleftrightarrow> awaiting (no_context s) \<and> receiving es s \<and> pending s @ payload es = bytes \<and> status_ok s \<and>
     (\<forall>q \<ge> fresh s. results s q = None)"

lemma awaiting_no_context: "awaiting s \<Longrightarrow> awaiting (no_context s)"
  by (simp add: awaiting_def no_context_def no_limits_def)

lemma PQgetResult_answer:
  assumes a: "asked es s (answer_msgs (server_protocol_version s) ds rows tag @ put_msg ch body @ rest)"
    and ok: "answer_ok (server_protocol_version s) ds rows tag" and mo: "msg_ok ch body" "ch \<notin> {CHR ''A'', CHR ''N''}"
  obtains es' s' r where "PQgetResult es s = Some (Some (fresh s), es', s')" "asked es' s' (put_msg ch body @ rest)"
    "results s' = (results s)(fresh s \<mapsto> r)" "holds ds rows tag r" "fresh s' = fresh s + 1"
    "server_protocol_version s' = server_protocol_version s"
proof -
  let ?s = "no_context s"
  have h: "awaiting ?s" "receiving es ?s" "status_ok s" "\<forall>q \<ge> fresh s. results s q = None"
    "pending ?s @ payload es = answer_msgs (server_protocol_version ?s) ds rows tag @ put_msg ch body @ rest"
    "answer_ok (server_protocol_version ?s) ds rows tag"
    using a ok by (simp_all add: asked_def)
  have "streamingMode ?s \<longrightarrow> int (length rows) < streamingCursorRows ?s" by simp
  from next_answer [OF h(1,2,6) this mo h(5)] obtain es1 s1 r where
    1: "pqGetResult es ?s = Some (Some (fresh ?s), es1, s1)" "awaiting s1" "receiving es1 s1"
      "pending s1 @ payload es1 = put_msg ch body @ rest" "results s1 (fresh ?s) = Some r" "holds ds rows tag r"
      "fresh s1 = fresh ?s + 1" "loop_changed (fresh ?s) ?s s1" by blast
  have rs: "results s1 = (results s)(fresh s \<mapsto> r)"
    using 1(5,8) by (auto simp: loop_changed_def fun_eq_iff)
  have v: "server_protocol_version s1 = server_protocol_version s" "status_ok s1"
    using 1(8) h(3) by (simp_all add: loop_changed_def)
  show thesis
  proof (rule that [of es1 "back_in_context s s1" r])
    show "PQgetResult es s = Some (Some (fresh s), es1, back_in_context s s1)" using 1(1) by (simp add: PQgetResult_def)
    show "asked es1 (back_in_context s s1) (put_msg ch body @ rest)"
      using 1(2,3,4,7) h(4) rs v by (simp add: asked_def awaiting_no_context)
  qed (use rs v 1(6,7) in simp_all)
qed

lemma PQgetResult_end:
  assumes a: "asked es s (ready_msg st)"
  obtains es' s' where "PQgetResult es s = Some (None, es', s')" "results s' = results s" "fresh s' = fresh s"
    "asyncStatus s' = PGASYNC_IDLE" "pending s' @ payload es' = []" "receiving es' s'"
proof -
  have h: "awaiting (no_context s)" "receiving es (no_context s)" "pending (no_context s) @ payload es = ready_msg st"
    using a by (simp_all add: asked_def)
  from no_more_answers [OF h] obtain es1 s1 where
    1: "pqGetResult es (no_context s) = Some (None, es1, s1)" "receiving es1 s1" "pending s1 @ payload es1 = []"
      "asyncStatus s1 = PGASYNC_IDLE" "results s1 = results s" "fresh s1 = fresh s" by auto
  show thesis by (rule that [of es1 "back_in_context s s1"]) (use 1 in \<open>simp_all add: PQgetResult_def\<close>)
qed

subsection \<open>The answers of a command\<close>

type_synonym answer = "att_desc list \<times> row list \<times> byte list"

definition one_answer :: "int \<Rightarrow> answer \<Rightarrow> byte list" where
  "one_answer v a = (case a of (ds, rows, tag) \<Rightarrow> answer_msgs v ds rows tag)"

definition command_answers :: "int \<Rightarrow> answer list \<Rightarrow> byte \<Rightarrow> byte list" where
  "command_answers v as st = concat (map (one_answer v) as) @ ready_msg st"

definition answers_ok :: "int \<Rightarrow> answer list \<Rightarrow> bool" where
  "answers_ok v as \<longleftrightarrow> (\<forall>(ds, rows, tag) \<in> set as. answer_ok v ds rows tag)"

definition holds_answer :: "answer \<Rightarrow> pgresult \<Rightarrow> bool" where
  "holds_answer a r = (case a of (ds, rows, tag) \<Rightarrow> holds ds rows tag r)"

text \<open>Whatever follows an answer begins with a message that the parser leaves alone.\<close>

lemma next_message:
  assumes "answers_ok v as"
  obtains ch body rest where "command_answers v as st = put_msg ch body @ rest" "msg_ok ch body" "ch \<notin> {CHR ''A'', CHR ''N''}"
proof (cases as)
  case Nil
  then show thesis using that [of "CHR ''Z''" "[st]" "[]"] by (simp add: command_answers_def ready_msg_def msg_ok_def)
next
  case (Cons a as')
  obtain ds rows tag where a: "a = (ds, rows, tag)" by (cases a) auto
  have "msg_ok CHR ''T'' (put_atts v ds)" using assms Cons a by (simp add: answers_ok_def answer_ok_def atts_ok_def msg_ok_def)
  with that [of "CHR ''T''" "put_atts v ds"] show thesis
    by (simp add: Cons a command_answers_def one_answer_def answer_msgs_def description_msg_def)
qed

lemma PQgetResult_first:
  assumes a: "asked es s (command_answers (server_protocol_version s) (a # as) st)"
    and ok: "answers_ok (server_protocol_version s) (a # as)"
  obtains es' s' r where "PQgetResult es s = Some (Some (fresh s), es', s')"
    "asked es' s' (command_answers (server_protocol_version s) as st)"
    "results s' = (results s)(fresh s \<mapsto> r)" "holds_answer a r" "fresh s' = fresh s + 1"
    "server_protocol_version s' = server_protocol_version s"
proof -
  obtain ds rows tag where abc: "a = (ds, rows, tag)" by (cases a) auto
  have oks: "answers_ok (server_protocol_version s) as" "answer_ok (server_protocol_version s) ds rows tag"
    using ok abc by (simp_all add: answers_ok_def)
  from next_message [OF oks(1), of st] obtain ch body rest where
    n: "command_answers (server_protocol_version s) as st = put_msg ch body @ rest" "msg_ok ch body" "ch \<notin> {CHR ''A'', CHR ''N''}"
    by blast
  have "asked es s (answer_msgs (server_protocol_version s) ds rows tag @ put_msg ch body @ rest)"
    using a n(1) by (simp add: command_answers_def abc one_answer_def)
  from PQgetResult_answer [OF this oks(2) n(2,3)] that show thesis unfolding n(1) abc holds_answer_def by auto
qed

lemma holds_answer_status: "holds_answer a r \<Longrightarrow> resultStatus r = PGRES_TUPLES_OK"
  by (cases a) (simp add: holds_answer_def holds_sel)

lemma merge_newer:
  assumes "results s l = Some rl" and "resultStatus rl = PGRES_TUPLES_OK" and "results s a = Some ra"
  shows "merge_results s (Some l) a = Some (a, PQclear s (Some l))"
  using assms by (simp add: merge_results_def)

lemma asked_clear: "asked es s bytes \<Longrightarrow> asked es (PQclear s (Some l)) bytes"
  by (auto simp: asked_def PQclear_def awaiting_def no_context_def no_limits_def pending_def receiving_def in_wf_def in_room_def
      inBufSize_def loop_csc_def)

lemma PQclear_sel [simp]:
  "results (PQclear s (Some l)) = (results s)(l := None)" "fresh (PQclear s (Some l)) = fresh s"
  "server_protocol_version (PQclear s (Some l)) = server_protocol_version s" "status_ok (PQclear s (Some l)) = status_ok s"
  by (simp_all add: PQclear_def)

lemma asked_status: "asked es s bytes \<Longrightarrow> status_ok s"
  by (simp add: asked_def)

lemma exec_finish_rest:
  assumes "asked es s (command_answers (server_protocol_version s) as st)" and "answers_ok (server_protocol_version s) as"
    and "results s l = Some rl" and "resultStatus rl = PGRES_TUPLES_OK" and "l < fresh s"
  shows "\<exists>p es' s' r. exec_finish (Some l) es s = Some (Some p, es', s') \<and> asyncStatus s' = PGASYNC_IDLE \<and>
    pending s' @ payload es' = [] \<and> results s' = (results s)(l := None, p \<mapsto> r) \<and>
    (if as = [] then p = l \<and> r = rl else holds_answer (last as) r)"
  using assms
proof (induction as arbitrary: es s l rl)
  case Nil
  then have "asked es s (ready_msg st)" by (simp add: command_answers_def)
  from PQgetResult_end [OF this] obtain es1 s1 where
    1: "PQgetResult es s = Some (None, es1, s1)" "results s1 = results s" "asyncStatus s1 = PGASYNC_IDLE"
      "pending s1 @ payload es1 = []" by metis
  have "exec_finish (Some l) es s = Some (Some l, es1, s1)" by (subst exec_finish.simps) (simp add: 1(1))
  with 1 Nil.prems(3) show ?case by (intro exI [of _ l] exI [of _ es1] exI [of _ s1] exI [of _ rl]) (auto simp: fun_eq_iff)
next
  case (Cons a as)
  from PQgetResult_first [OF Cons.prems(1,2)] obtain es1 s1 r1 where
    1: "PQgetResult es s = Some (Some (fresh s), es1, s1)" "asked es1 s1 (command_answers (server_protocol_version s) as st)"
      "results s1 = (results s)(fresh s \<mapsto> r1)" "holds_answer a r1" "fresh s1 = fresh s + 1"
      "server_protocol_version s1 = server_protocol_version s" .
  have nl: "l \<noteq> fresh s" using Cons.prems(5) by simp
  let ?s2 = "PQclear s1 (Some l)"
  have "results s1 l = Some rl" "results s1 (fresh s) = Some r1" using Cons.prems(3) nl 1(3) by simp_all
  from merge_newer [OF this(1) Cons.prems(4) this(2)]
  have ef: "exec_finish (Some l) es s = exec_finish (Some (fresh s)) es1 ?s2"
    by (subst exec_finish.simps) (simp add: 1(1) asked_status [OF 1(2)])
  have "asked es1 ?s2 (command_answers (server_protocol_version ?s2) as st)" using asked_clear [OF 1(2)] 1(6) by simp
  moreover have "answers_ok (server_protocol_version ?s2) as" using Cons.prems(2) 1(6) by (simp add: answers_ok_def)
  moreover have "results ?s2 (fresh s) = Some r1" "fresh s < fresh ?s2" using nl 1(3,5) by simp_all
  ultimately obtain p es' s' r where 2: "exec_finish (Some (fresh s)) es1 ?s2 = Some (Some p, es', s')"
    "asyncStatus s' = PGASYNC_IDLE" "pending s' @ payload es' = []" "results s' = (results ?s2)(fresh s := None, p \<mapsto> r)"
    "if as = [] then p = fresh s \<and> r = r1 else holds_answer (last as) r"
    using Cons.IH [OF _ _ _ holds_answer_status [OF 1(4)]] by blast
  have "results s (fresh s) = None" using Cons.prems(1) by (simp add: asked_def)
  then have "results s' = (results s)(l := None, p \<mapsto> r)" using 2(4) 1(3) nl by (auto simp: fun_eq_iff)
  moreover have "holds_answer (last (a # as)) r" using 2(5) 1(4) by (simp split: if_splits)
  ultimately show ?case using ef 2(1,2,3) by (intro exI [of _ p] exI [of _ es'] exI [of _ s'] exI [of _ r]) (auto simp: fun_eq_iff)
qed

lemma exec_finish_answers:
  assumes a: "asked es s (command_answers (server_protocol_version s) as st)" and ok: "answers_ok (server_protocol_version s) as"
    and n: "as \<noteq> []"
  shows "\<exists>p es' s' r. PQexecFinish es s = Some (Some p, es', s') \<and> asyncStatus s' = PGASYNC_IDLE \<and>
    pending s' @ payload es' = [] \<and> results s' = (results s)(p \<mapsto> r) \<and> holds_answer (last as) r"
proof -
  obtain b bs where as: "as = b # bs" using n by (cases as) auto
  from PQgetResult_first [OF a [unfolded as] ok [unfolded as]] obtain es1 s1 r1 where
    1: "PQgetResult es s = Some (Some (fresh s), es1, s1)" "asked es1 s1 (command_answers (server_protocol_version s) bs st)"
      "results s1 = (results s)(fresh s \<mapsto> r1)" "holds_answer b r1" "fresh s1 = fresh s + 1"
      "server_protocol_version s1 = server_protocol_version s" .
  have ef: "PQexecFinish es s = exec_finish (Some (fresh s)) es1 s1"
    unfolding PQexecFinish_def
    by (subst exec_finish.simps) (simp add: 1(1) merge_results_def asked_status [OF 1(2)])
  have "asked es1 s1 (command_answers (server_protocol_version s1) bs st)" "answers_ok (server_protocol_version s1) bs"
    "results s1 (fresh s) = Some r1" "fresh s < fresh s1"
    using 1 ok as by (simp_all add: answers_ok_def)
  from exec_finish_rest [OF this(1,2,3) holds_answer_status [OF 1(4)] this(4)] obtain p es' s' r where
    2: "exec_finish (Some (fresh s)) es1 s1 = Some (Some p, es', s')" "asyncStatus s' = PGASYNC_IDLE" "pending s' @ payload es' = []"
      "results s' = (results s1)(fresh s := None, p \<mapsto> r)" "if bs = [] then p = fresh s \<and> r = r1 else holds_answer (last bs) r"
    by blast
  have "results s (fresh s) = None" using a by (simp add: asked_def)
  then have "results s' = (results s)(p \<mapsto> r)" using 2(4) 1(3) by (auto simp: fun_eq_iff)
  moreover have "holds_answer (last as) r" using 2(5) 1(4) as by (simp split: if_splits)
  ultimately show ?thesis using ef 2(1,2,3) by (intro exI [of _ p] exI [of _ es'] exI [of _ s'] exI [of _ r]) simp
qed

lemma exec_start_answers:
  assumes "asked es s (command_answers (server_protocol_version s) as st)" and "answers_ok (server_protocol_version s) as"
  shows "\<exists>es' s'. PQexecStart es s = Some (True, es', s') \<and> asyncStatus s' = PGASYNC_IDLE \<and>
    pending s' @ payload es' = [] \<and> results s' = results s"
  using assms
proof (induction as arbitrary: es s)
  case Nil
  then have "asked es s (ready_msg st)" by (simp add: command_answers_def)
  from PQgetResult_end [OF this] obtain es1 s1 where
    1: "PQgetResult es s = Some (None, es1, s1)" "results s1 = results s" "asyncStatus s1 = PGASYNC_IDLE"
      "pending s1 @ payload es1 = []" by metis
  then show ?case by (subst PQexecStart.simps) simp
next
  case (Cons a as)
  from PQgetResult_first [OF Cons.prems] obtain es1 s1 r1 where
    1: "PQgetResult es s = Some (Some (fresh s), es1, s1)" "asked es1 s1 (command_answers (server_protocol_version s) as st)"
      "results s1 = (results s)(fresh s \<mapsto> r1)" "holds_answer a r1" "fresh s1 = fresh s + 1"
      "server_protocol_version s1 = server_protocol_version s" .
  let ?s2 = "PQclear s1 (Some (fresh s))"
  have "PQexecStart es s = PQexecStart es1 ?s2"
    by (subst PQexecStart.simps) (simp add: 1(1,3) asked_status [OF 1(2)])
  moreover have "asked es1 ?s2 (command_answers (server_protocol_version ?s2) as st)" using asked_clear [OF 1(2)] 1(6) by simp
  moreover have "answers_ok (server_protocol_version ?s2) as" using Cons.prems(2) 1(6) by (simp add: answers_ok_def)
  moreover have "results s (fresh s) = None" using Cons.prems(1) by (simp add: asked_def)
  then have "results ?s2 = results s" using 1(3) by (auto simp: fun_eq_iff)
  ultimately show ?case using Cons.IH [of es1 ?s2] by simp
qed

end
