(* ===== verification/Pq_Stream.thy ===== *)
theory Pq_Stream
  imports Pq_Several
begin

text \<open>
  Streaming cursors: the loop stops when a batch of rows is complete, the statement takes the rows out of the
  result, and the next call goes on with the bytes that are left. Read to its end, the cursor gives every row
  once and in order, whatever the size of a batch and the pieces in which the bytes arrive.
\<close>

text \<open>A streaming cursor between two batches.\<close>

definition streaming_at :: "pqstate \<Rightarrow> nat \<Rightarrow> bool" where
  "streaming_at s p \<longleftrightarrow> asyncStatus s = PGASYNC_BUSY \<and> result s = Some p \<and> no_limits s \<and> cscExecutor s = None \<and>
     \<not> cscThreadCreated s \<and> loop_csc s = None \<and> streamingMode s \<and> \<not> skipStreamingCursor s \<and> 0 < streamingCursorRows s \<and>
     \<not> endOfStreamingCursor s"

definition batch_size :: "pqstate \<Rightarrow> nat" where
  "batch_size s = nat (streamingCursorRows s)"

text \<open>The loop stops with the row that fills the batch.\<close>

lemma pump_batch:
  assumes s: "open_loop s" and r: "receiving es s" and c: "collects s p base old"
    and l: "loop_csc s = None" "csc_loop s = None" and st: "streamingMode s" "\<not> skipStreamingCursor s"
    and rows: "rows_ok (numAttributes base) (old @ xs @ [row])" and n: "int (length old + length xs + 1) = streamingCursorRows s"
    and p: "pending s @ payload es = data_rows (xs @ row # ys) @ rest"
  shows "\<exists>es' s' r. pump es s = Some (es', s') \<and> receiving es' s' \<and> pending s' @ payload es' = data_rows ys @ rest \<and>
    results s' p = Some r \<and> rows_in base (old @ xs @ [row]) r \<and>
    context_kept p (s\<lparr>iStop := True, streamResultBatchNumber := streamResultBatchNumber s + 1\<rparr>) s'"
proof -
  have p1: "pending s @ payload es = data_rows xs @ (put_msg CHR ''D'' (put_row row) @ data_rows ys @ rest)"
    using p by (simp add: data_rows_def)
  have ro: "rows_ok (numAttributes base) (old @ xs)" "row_ok (numAttributes base) row" "length (put_row row) < 2 ^ 28"
    "length (old @ xs) < 2 ^ 28" using rows by (auto simp: rows_ok_def)
  have sk: "streamingMode s \<longrightarrow> \<not> skipStreamingCursor s" "streamingMode s \<longrightarrow> int (length (old @ xs)) < streamingCursorRows s"
    using st n by auto
  from pump_rows [OF s r c l(1) sk(1) ro(1) sk(2) p1] obtain es1 s1 where
    1: "pump es s = pump es1 s1" "receiving es1 s1" "pending s1 @ payload es1 = put_msg CHR ''D'' (put_row row) @ data_rows ys @ rest"
      "collects s1 p base (old @ xs)" "context_kept p s s1" by blast
  note k1 = context_kept_sel [OF 1(5)]
  have o1: "open_loop s1" using s k1(2) by simp
  note mo = msg_ok_D [OF ro(3)]
  from pump_gather [OF o1 1(2) mo 1(3)] obtain es2 s2 front where
    2: "pump es1 s1 = pump es2 s2" "near s1 s2" "receiving es2 s2" "pending s2 = put_msg CHR ''D'' (put_row row) @ front"
      "front @ payload es2 = data_rows ys @ rest" by blast
  have w: "in_wf s2" and nst: "\<not> stopped s2" using 2(3) o1 near_sel [OF 2(2)] by (auto simp: receiving_def open_loop_def)
  from parse_round_message [OF w nst mo 2(4)] obtain lb where pr: "parse_round s2 =
    Option.bind (handle_message (at_body s2 lb) (byte_of CHR ''D'') (int (length (put_row row)))) (\<lambda>(v, s4).
      if v = Suspend then Some (False, s4)
      else map_option (Pair (v = Next)) (consume_message (inStart s2) (byte_of CHR ''D'') (int (length (put_row row))) s4))" by blast
  let ?t = "at_body s2 lb"
  note b = at_body_ok [OF w mo 2(4), of lb]
  have nt: "near s1 ?t" using near_trans [OF 2(2) b(5)] .
  note kt = context_kept_sel [OF context_kept_trans [OF 1(5) near_context [OF nt, of p]]]
  have lt: "loop_csc ?t = None" "streamingMode ?t \<longrightarrow> \<not> skipStreamingCursor ?t" using l st by (simp_all only: kt) simp
  obtain r' where r': "rows_in base ((old @ xs) @ [row]) r'" "msg_D ?t (int (length (put_row row))) =
      (let u = ?t\<lparr>inCursor := inCursor ?t + length (put_row row), results := (results ?t)(p \<mapsto> r')\<rparr> in
       if streamingMode ?t \<and> int (length (old @ xs)) + 1 = streamingCursorRows ?t then
         Some (Suspend, u\<lparr>inStart := inCursor u, iStop := True, streamResultBatchNumber := streamResultBatchNumber ?t + 1\<rparr>)
       else Some (Next, u))" by (rule msg_D_ok [OF b(2) near_collects [OF 1(4) nt] b(1) ro(2) ro(4) lt])
  let ?c = "inStart s2 + 5 + length (put_row row)"
  let ?u = "?t\<lparr>inCursor := ?c, results := (results ?t)(p \<mapsto> r'), inStart := ?c, iStop := True,
      streamResultBatchNumber := streamResultBatchNumber ?t + 1\<rparr>"
  have full: "streamingMode ?t \<and> int (length (old @ xs)) + 1 = streamingCursorRows ?t" using st n by (simp only: kt) simp
  have busy: "asyncStatus ?t = PGASYNC_BUSY" using s kt(1) by (simp add: open_loop_def)
  have pr1: "parse_round s2 = Some (False, ?u)" using r'(2) full b(3,4) busy by (simp add: pr Let_def)
  have nst': "\<not> stopped ?u" using nst by (auto simp: at_body_def stopped_def csc_loop_def split: if_splits)
  have "\<not> open_loop ?u" by (simp add: open_loop_def)
  from pump_halt [OF pr1] result_loop_done [OF this nst'] have fin: "pump es2 s2 = Some (es2, ?u)" by simp
  have fits: "5 + length (put_row row) \<le> inEnd s2 - inStart s2" using length_pending [OF w] 2(4) by simp
  have "pending ?u = drop (5 + length (put_row row)) (pending s2)"
    by (simp add: at_body_def pending_def add.commute add.left_commute)
  then have pend: "pending ?u = front" by (simp add: 2(4))
  have wu: "in_wf ?u" using w fits by (auto simp: in_wf_def inBufSize_def at_body_def)
  have ru: "receiving es2 ?u" using 2(3) wu by (simp add: receiving_def in_room_def inBufSize_def at_body_def)
  have "context_kept p (s\<lparr>iStop := True, streamResultBatchNumber := streamResultBatchNumber s + 1\<rparr>) ?u"
  proof -
    from context_kept_trans [OF 1(5) near_context [OF nt, of p]] obtain bb stt u e lb' x where
      t': "?t = s\<lparr>inBuffer := bb, inStart := stt, inCursor := u, inEnd := e, lastseg := lb', results := (results s)(p := x)\<rparr>"
      unfolding context_kept_def by blast
    show ?thesis by (rule context_keptI [where b = bb and st = ?c and u = ?c and e = e and l = lb' and x = "Some r'"]) (simp add: t')
  qed
  moreover have "results ?u p = Some r'" by simp
  ultimately show ?thesis using 1(1) 2(1,5) fin ru pend r'(1)
    by (intro exI [of _ es2] exI [of _ ?u] exI [of _ r']) simp
qed

subsection \<open>One batch\<close>

text \<open>The state in which the loop reads the next batch.\<close>

definition before_batch :: "pqstate \<Rightarrow> nat \<Rightarrow> pgresult \<Rightarrow> pqstate" where
  "before_batch s p r = (set_result s p (cleared_rows r))\<lparr>curTuple := None, iSocketError := False, iStop := False\<rparr>"

lemma read_batch:
  assumes "results s p = Some r"
  shows "pqReadNextBatchOfStreamingRows es s (Some p) =
    Option.bind (pump es (before_batch s p r)) (\<lambda>(es1, s2).
      Some (if iSocketError s2 then (True, es1, s2\<lparr>iSocketError := False\<rparr>) else (False, es1, s2)))"
  using assms by (simp add: pqReadNextBatchOfStreamingRows_def pqClearForStreamingCursor_def pqGetResultLoopOnThread_def
      pump_def before_batch_def set_result_def)

lemma before_batch_sel [simp]:
  "iStop (before_batch s p r) = False" "iSocketError (before_batch s p r) = False" "curTuple (before_batch s p r) = None"
  "results (before_batch s p r) = (results s)(p \<mapsto> cleared_rows r)" "pending (before_batch s p r) = pending s"
  "receiving es (before_batch s p r) = receiving es s" "streamingCursorRows (before_batch s p r) = streamingCursorRows s"
  "streamingMode (before_batch s p r) = streamingMode s" "skipStreamingCursor (before_batch s p r) = skipStreamingCursor s"
  "loop_csc (before_batch s p r) = loop_csc s" "csc_loop (before_batch s p r) = csc_loop s"
  "streamResultBatchNumber (before_batch s p r) = streamResultBatchNumber s" "result (before_batch s p r) = result s"
  "endOfStreamingCursor (before_batch s p r) = endOfStreamingCursor s" "no_limits (before_batch s p r) = no_limits s"
  "asyncStatus (before_batch s p r) = asyncStatus s" "cscThreadCreated (before_batch s p r) = cscThreadCreated s"
  "cscExecutor (before_batch s p r) = cscExecutor s" "results (s\<lparr>iStop := b, streamResultBatchNumber := k\<rparr>) = results s"
  by (simp_all add: before_batch_def set_result_def loop_csc_def csc_loop_def no_limits_def receiving_def in_wf_def in_room_def
      inBufSize_def pending_def)

lemma before_batch_changed: "loop_changed p s (before_batch s p r)"
  by (simp add: before_batch_def set_result_def loop_changed_def no_limits_def)

lemma open_before_batch: "streaming_at s p \<Longrightarrow> open_loop (before_batch s p r)"
  by (auto simp: streaming_at_def open_loop_def stopped_def csc_loop_no_executor)

lemma collects_before_batch:
  assumes "streaming_at s p" and "resultStatus r = PGRES_TUPLES_OK"
  shows "collects (before_batch s p r) p (cleared_rows r) []"
proof -
  have "rows_in (cleared_rows r) [] (cleared_rows r)"
    unfolding rows_in_def
    by (intro conjI exI [of _ 0] exI [of _ 0]) (simp_all add: cleared_rows_def tup_wf_def tuple_array_def)
  then show ?thesis using assms by (simp add: collects_def streaming_at_def) (simp add: cleared_rows_def)
qed

lemma cleared_rows_simps [simp]:
  "numAttributes (cleared_rows r) = numAttributes r" "resultStatus (cleared_rows r) = resultStatus r"
  "cleared_rows (cleared_rows r) = cleared_rows r"
  by (simp_all add: cleared_rows_def)

lemma rows_in_cleared: "rows_in base rows r \<Longrightarrow> cleared_rows r = cleared_rows base"
  by (auto simp: rows_in_def cleared_rows_def)

lemma rows_ok_part: "rows_ok n (xs @ ys) \<Longrightarrow> rows_ok n xs \<and> rows_ok n ys"
  by (auto simp: rows_ok_def)

text \<open>There are enough rows for a batch.\<close>

lemma next_full_batch:
  assumes s: "streaming_at s p" and r: "receiving es s" and r0: "results s p = Some r0" "resultStatus r0 = PGRES_TUPLES_OK"
    and rows: "rows_ok (numAttributes r0) rows" and n: "batch_size s \<le> length rows"
    and pm: "pending s @ payload es = data_rows rows @ rest"
  shows "\<exists>es' s' r. pqReadNextBatchOfStreamingRows es s (Some p) = Some (False, es', s') \<and> streaming_at s' p \<and> receiving es' s' \<and>
    pending s' @ payload es' = data_rows (drop (batch_size s) rows) @ rest \<and> results s' p = Some r \<and>
    rows_in (cleared_rows r0) (take (batch_size s) rows) r \<and> batch_size s' = batch_size s \<and> loop_changed p s s' \<and>
    streamResultBatchNumber s' = streamResultBatchNumber s + 1"
proof -
  let ?n = "batch_size s" and ?s = "before_batch s p r0"
  have h: "streamingMode s" "\<not> skipStreamingCursor s" "loop_csc s = None" "csc_loop s = None" "int ?n = streamingCursorRows s" "0 < ?n"
    using s by (simp_all add: streaming_at_def batch_size_def csc_loop_no_executor)
  from h(6) n obtain k where k: "?n = Suc k" "k < length rows" by (cases ?n) auto
  have tk: "take ?n rows = take k rows @ [rows ! k]" "rows = take k rows @ rows ! k # drop ?n rows"
    using k by (simp_all add: take_Suc_conv_app_nth id_take_nth_drop)
  have ro: "rows_ok (numAttributes (cleared_rows r0)) ([] @ take k rows @ [rows ! k])"
    using rows_ok_part [of "numAttributes r0" "take ?n rows" "drop ?n rows"] rows unfolding tk(1) [symmetric] by simp
  have ln: "int (length ([] :: row list) + length (take k rows) + 1) = streamingCursorRows ?s" using h(5) k by simp
  have pm': "pending ?s @ payload es = data_rows (take k rows @ rows ! k # drop ?n rows) @ rest" using pm tk(2) by simp
  have rc: "receiving es ?s" using r by simp
  have lo: "loop_csc ?s = None" "csc_loop ?s = None" "streamingMode ?s" "\<not> skipStreamingCursor ?s" using h by simp_all
  from pump_batch [OF open_before_batch [OF s] rc collects_before_batch [OF s r0(2)] lo ro ln pm'] obtain es1 s1 q where
    1: "pump es ?s = Some (es1, s1)" "receiving es1 s1" "pending s1 @ payload es1 = data_rows (drop ?n rows) @ rest"
      "results s1 p = Some q" "rows_in (cleared_rows r0) (take ?n rows) q"
      "context_kept p (?s\<lparr>iStop := True, streamResultBatchNumber := streamResultBatchNumber ?s + 1\<rparr>) s1"
    unfolding tk(1) by auto
  note kk = context_kept_sel [OF 1(6)]
  have x: "iSocketError s1 = False" "streamResultBatchNumber s1 = streamResultBatchNumber s + 1" using kk(17,18) by simp_all
  have read: "pqReadNextBatchOfStreamingRows es s (Some p) = Some (False, es1, s1)"
    using read_batch [OF r0(1), of es] 1(1) x(1) by simp
  have "loop_csc (?s\<lparr>iStop := True, streamResultBatchNumber := k\<rparr>) = loop_csc s"
    "no_limits (?s\<lparr>iStop := True, streamResultBatchNumber := k\<rparr>) = no_limits s" for k
    by (simp_all add: loop_csc_def no_limits_def before_batch_def set_result_def)
  then have "streaming_at s1 p"
    using s kk(1,13,24,5,20,10,7,9,8,19) by (simp add: streaming_at_def)
  moreover have "batch_size s1 = ?n" using kk(8) by (simp add: batch_size_def)
  moreover have "loop_changed p s s1"
  proof -
    have "loop_changed p ?s (?s\<lparr>iStop := True, streamResultBatchNumber := streamResultBatchNumber ?s + 1\<rparr>)"
      by (simp add: loop_changed_def no_limits_def)
    from loop_changed_trans [OF before_batch_changed loop_changed_trans [OF this context_kept_changed [OF 1(6)]]] show ?thesis .
  qed
  ultimately show ?thesis using read 1 x(2) by blast
qed

text \<open>The rest does not fill a batch: the end of the cursor.\<close>

lemma next_last_batch:
  assumes s: "streaming_at s p" and r: "receiving es s" and r0: "results s p = Some r0" "resultStatus r0 = PGRES_TUPLES_OK"
    and rows: "rows_ok (numAttributes r0) rows" and n: "length rows < batch_size s" and tag: "tag_ok tag"
    and mo: "msg_ok ch body" "ch \<notin> {CHR ''A'', CHR ''N''}"
    and pm: "pending s @ payload es = data_rows rows @ command_msg tag @ put_msg ch body @ rest"
  shows "\<exists>es' s' r. pqReadNextBatchOfStreamingRows es s (Some p) = Some (False, es', s') \<and> endOfStreamingCursor s' \<and> receiving es' s' \<and>
    pending s' @ payload es' = put_msg ch body @ rest \<and> results s' p = Some r \<and>
    rows_in (tagged tag (cleared_rows r0)) rows r \<and> asyncStatus s' = PGASYNC_READY \<and> loop_changed p s s' \<and>
    (0 < streamResultBatchNumber s \<longrightarrow> result s' = None)"
proof -
  let ?s = "before_batch s p r0"
  have h: "streamingMode s" "\<not> skipStreamingCursor s" "loop_csc s = None" "csc_loop s = None"
    "int (batch_size s) = streamingCursorRows s"
    using s by (simp_all add: streaming_at_def batch_size_def csc_loop_no_executor)
  have lo: "loop_csc ?s = None" "streamingMode ?s \<longrightarrow> \<not> skipStreamingCursor ?s"
    "streamingMode ?s \<longrightarrow> int (length ([] @ rows)) < streamingCursorRows ?s" using h n by simp_all
  have rc: "receiving es ?s" and ro: "rows_ok (numAttributes (cleared_rows r0)) ([] @ rows)"
    and pm': "pending ?s @ payload es = data_rows rows @ command_msg tag @ put_msg ch body @ rest" using r rows pm by simp_all
  from pump_rows [OF open_before_batch [OF s] rc collects_before_batch [OF s r0(2)] lo(1,2) ro lo(3) pm'] obtain es1 s1 where
    1: "pump es ?s = pump es1 s1" "receiving es1 s1" "pending s1 @ payload es1 = command_msg tag @ put_msg ch body @ rest"
      "collects s1 p (cleared_rows r0) rows" "context_kept p ?s s1" by auto
  note k1 = context_kept_sel [OF 1(5)]
  have o1: "open_loop s1" "csc_loop s1 = None" using open_before_batch [OF s] h(4) k1(2,11) by simp_all
  from pump_command [OF o1(1) 1(2,4) tag o1(2) 1(3)] obtain es2 s2 q where
    2: "pump es1 s1 = pump es2 s2" "receiving es2 s2" "pending s2 @ payload es2 = put_msg ch body @ rest"
      "context_kept p (command_done s1) s2" "results s2 p = Some q" "rows_in (tagged tag (cleared_rows r0)) rows q" by blast
  note k2 = context_kept_sel [OF 2(4)]
  have a2: "asyncStatus s2 = PGASYNC_READY" "\<not> stopped s2" using k2(1,3) o1(1) by (simp_all add: open_loop_def)
  from pump_ready [OF a2 2(2) mo 2(3)] obtain s3 where
    3: "pump es2 s2 = Some (es2, s3)" "near s2 s3" "receiving es2 s3" "pending s3 = pending s2" by blast
  have ck: "context_kept p (command_done ?s) s3"
    by (rule context_kept_trans [OF command_done_context [OF 1(5)] context_kept_trans [OF 2(4) near_context [OF 3(2)]]])
  note k3 = context_kept_sel [OF ck]
  have x: "iSocketError s3 = False" "endOfStreamingCursor s3" "asyncStatus s3 = PGASYNC_READY"
    "0 < streamResultBatchNumber s \<longrightarrow> result s3 = None"
    using k3(17,19,1,13) h(1)
    by (simp_all add: command_done_def Let_def resetAfterOneResultReadFromServerFinishForStreamingCursor_def)
  have "pqReadNextBatchOfStreamingRows es s (Some p) = Some (False, es2, s3)"
    using read_batch [OF r0(1), of es] 1(1) 2(1) 3(1) x(1) by simp
  moreover have "results s3 p = Some q" using near_sel(9) [OF 3(2)] 2(5) by simp
  moreover have "loop_changed p s s3"
    by (rule loop_changed_trans [OF before_batch_changed loop_changed_trans [OF command_done_changed context_kept_changed [OF ck]]])
  ultimately show ?thesis using 2(3,6) 3(3,4) x by (intro exI [of _ es2] exI [of _ s3] exI [of _ q]) simp
qed

subsection \<open>The whole cursor\<close>

text \<open>The rows that the statement takes out of the result.\<close>

definition rows_of :: "pgresult \<Rightarrow> row list" where
  "rows_of r = (case tuples r of None \<Rightarrow> [] | Some ts \<Rightarrow> map the ts)"

text \<open>
  The statement reads batches until the end of the cursor: the driver's fetch asks for the next batch only while
  the cursor has not ended.
\<close>

fun read_stream :: "nat \<Rightarrow> recv list \<Rightarrow> pqstate \<Rightarrow> nat \<Rightarrow> (row list list \<times> recv list \<times> pqstate) option" where
  "read_stream 0 es s p = None"
| "read_stream (Suc k) es s p =
     do {
       (err, es1, s1) \<leftarrow> pqReadNextBatchOfStreamingRows es s (Some p);
       r \<leftarrow> results s1 p;
       if err then None
       else if endOfStreamingCursor s1 then Some ([rows_of r], es1, s1)
       else map_option (\<lambda>(bs, es2, s2). (rows_of r # bs, es2, s2)) (read_stream k es1 s1 p)
     }"

text \<open>Batches of n rows; the last one has less, and may be empty.\<close>

function in_batches :: "nat \<Rightarrow> 'v list \<Rightarrow> 'v list list" where
  "in_batches n xs = (if n = 0 \<or> length xs < n then [xs] else take n xs # in_batches n (drop n xs))"
  by pat_completeness auto

termination by (relation "measure (\<lambda>(n, xs). length xs)") auto

declare in_batches.simps [simp del]

lemma concat_in_batches [simp]: "concat (in_batches n xs) = xs"
proof (induction n xs rule: in_batches.induct)
  case (1 n xs)
  then show ?case by (subst in_batches.simps) simp
qed

lemma rows_of_rows_in: "rows_in base rows r \<Longrightarrow> rows_of r = rows"
  by (simp add: rows_of_def rows_in_sel tuple_array_def)

lemma read_stream_batches:
  assumes "streaming_at s p" and "receiving es s" and "results s p = Some r0" and "resultStatus r0 = PGRES_TUPLES_OK"
    and "rows_ok (numAttributes r0) rows" and "tag_ok tag" and mo: "msg_ok ch body" "ch \<notin> {CHR ''A'', CHR ''N''}"
    and "pending s @ payload es = data_rows rows @ command_msg tag @ put_msg ch body @ rest"
    and "length rows < k * batch_size s"
  shows "\<exists>es' s'. read_stream k es s p = Some (in_batches (batch_size s) rows, es', s') \<and> receiving es' s' \<and>
    pending s' @ payload es' = put_msg ch body @ rest \<and> endOfStreamingCursor s' \<and> loop_changed p s s'"
  using assms
proof (induction k arbitrary: es s r0 rows)
  case 0
  then show ?case by simp
next
  case (Suc k)
  let ?n = "batch_size s"
  show ?case
  proof (cases "length rows < ?n")
    case True
    from next_last_batch [OF Suc.prems(1-5) True Suc.prems(6,7,8,9)] obtain es1 s1 r where
      1: "pqReadNextBatchOfStreamingRows es s (Some p) = Some (False, es1, s1)" "endOfStreamingCursor s1" "receiving es1 s1"
        "pending s1 @ payload es1 = put_msg ch body @ rest" "results s1 p = Some r"
        "rows_in (tagged tag (cleared_rows r0)) rows r" "loop_changed p s s1" by blast
    have "read_stream (Suc k) es s p = Some (in_batches ?n rows, es1, s1)"
      using True by (simp add: 1(1,2,5) rows_of_rows_in [OF 1(6)] in_batches.simps)
    with 1 show ?thesis by blast
  next
    case False
    then have n: "?n \<le> length rows" by simp
    from next_full_batch [OF Suc.prems(1-5) n Suc.prems(9)] obtain es1 s1 r where
      1: "pqReadNextBatchOfStreamingRows es s (Some p) = Some (False, es1, s1)" "streaming_at s1 p" "receiving es1 s1"
        "pending s1 @ payload es1 = data_rows (drop ?n rows) @ command_msg tag @ put_msg ch body @ rest" "results s1 p = Some r"
        "rows_in (cleared_rows r0) (take ?n rows) r" "batch_size s1 = ?n" "loop_changed p s s1" by blast
    have r: "resultStatus r = PGRES_TUPLES_OK" "numAttributes r = numAttributes r0"
      using rows_in_sel [OF 1(6)] Suc.prems(4) by simp_all
    have ro: "rows_ok (numAttributes r) (drop ?n rows)"
      using rows_ok_part [of "numAttributes r0" "take ?n rows" "drop ?n rows"] Suc.prems(5) r(2) by simp
    have fuel: "length (drop ?n rows) < k * batch_size s1" using Suc.prems(10) n 1(7) by simp
    from Suc.IH [OF 1(2,3,5) r(1) ro Suc.prems(6) mo 1(4) fuel] obtain es' s' where
      2: "read_stream k es1 s1 p = Some (in_batches (batch_size s1) (drop ?n rows), es', s')" "receiving es' s'"
        "pending s' @ payload es' = put_msg ch body @ rest" "endOfStreamingCursor s'" "loop_changed p s1 s'" by blast
    have ne: "\<not> endOfStreamingCursor s1" "?n \<noteq> 0" using 1(2) Suc.prems(1) by (simp_all add: streaming_at_def batch_size_def)
    have "in_batches ?n rows = take ?n rows # in_batches ?n (drop ?n rows)" using n ne(2) by (subst in_batches.simps) simp
    then have "read_stream (Suc k) es s p = Some (in_batches ?n rows, es', s')"
      using 1(7) ne(1) by (simp add: 1(1,5) rows_of_rows_in [OF 1(6)] 2(1))
    with 2 loop_changed_trans [OF 1(8) 2(5)] show ?thesis by blast
  qed
qed

subsection \<open>From the query on\<close>

lemma first_batch:
  assumes s: "awaiting s" and r: "receiving es s" and ok: "answer_ok (server_protocol_version s) ds rows tag"
    and st: "streamingMode s" "\<not> endOfStreamingCursor s" and n: "batch_size s \<le> length rows"
    and p: "pending s @ payload es = description_msg (server_protocol_version s) ds @ data_rows rows @ rest"
  shows "\<exists>es' s' r. pqGetResult es s = Some (Some (fresh s), es', s') \<and> streaming_at s' (fresh s) \<and> receiving es' s' \<and>
    pending s' @ payload es' = data_rows (drop (batch_size s) rows) @ rest \<and> results s' (fresh s) = Some r \<and>
    rows_in (described_result ds) (take (batch_size s) rows) r \<and> batch_size s' = batch_size s \<and> loop_changed (fresh s) s s'"
proof -
  let ?p = "fresh s" and ?n = "batch_size s"
  have a: "result s = None" "curTuple s = None" "no_limits s" "cscExecutor s = None" "queryclass s \<noteq> PGQUERY_DESCRIBE"
    "\<not> cscThreadCreated s" "streamResultBatchNumber s = 0" "\<not> skipStreamingCursor s" "0 < streamingCursorRows s"
    using s st by (simp_all add: awaiting_def)
  have oks: "atts_ok (server_protocol_version s) ds" "rows_ok (int (length ds)) rows" using ok by (simp_all add: answer_ok_def)
  obtain m i where e: "pqGetResultLoop es s = pump es (entered s m i)" "loop_csc (entered s m i) = None"
    using loop_entered [OF a(4)] s unfolding awaiting_def by metis
  let ?s = "entered s m i"
  note o = open_entered [OF s, of m i]
  have l: "csc_loop ?s = None" "cscExecutor ?s = None" using a(4) by (simp_all add: csc_loop_no_executor)
  have d: "\<exists>es' s'. pump es ?s = pump es' s' \<and> receiving es' s' \<and> pending s' @ payload es' = data_rows rows @ rest \<and>
    collects s' (fresh ?s) (described_result ds) [] \<and> context_kept (fresh ?s) (with_result ?s) s'"
    by (rule pump_description [OF o _ _ _ _ l(1)]) (use r oks(1) a p in simp_all)
  then obtain es1 s1 where 1: "pump es ?s = pump es1 s1" "receiving es1 s1" "pending s1 @ payload es1 = data_rows rows @ rest"
    "collects s1 ?p (described_result ds) []" "context_kept ?p (with_result ?s) s1" by auto
  note k1 = context_kept_sel [OF 1(5)]
  have w: "open_loop (with_result ?s) = open_loop ?s" "loop_csc (with_result ?s) = loop_csc ?s" "csc_loop (with_result ?s) = csc_loop ?s"
    by (simp_all add: with_result_def open_loop_def stopped_def csc_loop_def loop_csc_def)
  have o1: "open_loop s1" "loop_csc s1 = None" "csc_loop s1 = None" using o e(2) l w k1(2,10,11) by simp_all
  have st1: "streamingMode s1" "\<not> skipStreamingCursor s1" "streamingCursorRows s1 = streamingCursorRows s"
    using st a(8) k1(7,8,9) by (simp_all add: with_result_def)
  have nn: "int ?n = streamingCursorRows s" "0 < ?n" using a(9) by (simp_all add: batch_size_def)
  from nn(2) n obtain k where k: "?n = Suc k" "k < length rows" by (cases ?n) auto
  have tk: "take ?n rows = take k rows @ [rows ! k]" "rows = take k rows @ rows ! k # drop ?n rows"
    using k by (simp_all add: take_Suc_conv_app_nth id_take_nth_drop)
  have ro: "rows_ok (numAttributes (described_result ds)) ([] @ take k rows @ [rows ! k])"
    using rows_ok_part [of "int (length ds)" "take ?n rows" "drop ?n rows"] oks(2) unfolding tk(1) [symmetric] by simp
  have ln: "int (length ([] :: row list) + length (take k rows) + 1) = streamingCursorRows s1" using nn(1) k st1(3) by simp
  have pm': "pending s1 @ payload es1 = data_rows (take k rows @ rows ! k # drop ?n rows) @ rest" using 1(3) tk(2) by simp
  from pump_batch [OF o1(1) 1(2,4) o1(2,3) st1(1,2) ro ln pm'] obtain es2 s2 q where
    2: "pump es1 s1 = Some (es2, s2)" "receiving es2 s2" "pending s2 @ payload es2 = data_rows (drop ?n rows) @ rest"
      "results s2 ?p = Some q" "rows_in (described_result ds) (take ?n rows) q"
      "context_kept ?p (s1\<lparr>iStop := True, streamResultBatchNumber := streamResultBatchNumber s1 + 1\<rparr>) s2"
    unfolding tk(1) by auto
  note k2 = context_kept_sel [OF 2(6)]
  have x1: "iSocketError s1 = False" "cscThreadCreated s1 = False" "streamResultBatchNumber s1 = 0" "result s1 = Some ?p"
    "cscExecutor s1 = None" "endOfStreamingCursor s1 = False" "asyncStatus s1 = PGASYNC_BUSY" "no_limits s1"
    using a st(2) s k1(17,20,18,13,5,19,1,24) by (simp_all add: with_result_def entered_def awaiting_def no_limits_def)
  have "loop_csc (s1\<lparr>iStop := True, streamResultBatchNumber := j\<rparr>) = loop_csc s1"
    "no_limits (s1\<lparr>iStop := True, streamResultBatchNumber := j\<rparr>) = no_limits s1" for j
    by (simp_all add: loop_csc_def no_limits_def)
  then have at2: "streaming_at s2 ?p"
    using x1 st1 a(9) o1(2) k2(1,13,24,5,20,10,7,9,8,19) by (simp add: streaming_at_def)
  have x2: "iSocketError s2 = False" "cscThreadCreated s2 = False" "streamResultBatchNumber s2 = 1" "result s2 = Some ?p"
    using x1 k2(17,20,18,13) by simp_all
  have "pqGetResult es s = Some (Some ?p, es2, s2)"
    using at2 x2 by (simp add: pqGetResult_def e(1) 1(1) 2(1) streaming_at_def)
  moreover have "batch_size s2 = ?n" using k2(8) st1(3) by (simp add: batch_size_def)
  moreover have "loop_changed ?p s1 (s1\<lparr>iStop := True, streamResultBatchNumber := streamResultBatchNumber s1 + 1\<rparr>)"
    by (simp add: loop_changed_def no_limits_def)
  then have "loop_changed ?p s s2"
    by (rule loop_changed_trans [OF entered_changed loop_changed_trans [OF with_result_changed
          loop_changed_trans [OF context_kept_changed [OF 1(5)] loop_changed_trans [OF _ context_kept_changed [OF 2(6)]]]]])
  ultimately show ?thesis using at2 2(2-5) by blast
qed

lemma streaming_query:
  assumes s: "awaiting s" and r: "receiving es s" and ok: "answer_ok (server_protocol_version s) ds rows tag"
    and st: "streamingMode s" "\<not> endOfStreamingCursor s" and n: "batch_size s \<le> length rows"
    and mo: "msg_ok ch body" "ch \<notin> {CHR ''A'', CHR ''N''}"
    and p: "pending s @ payload es = answer_msgs (server_protocol_version s) ds rows tag @ put_msg ch body @ rest"
    and k: "length rows < k * batch_size s"
  shows "\<exists>es1 s1 r bs es2 s2. pqGetResult es s = Some (Some (fresh s), es1, s1) \<and> results s1 (fresh s) = Some r \<and>
    attDescs r = ds \<and> read_stream k es1 s1 (fresh s) = Some (bs, es2, s2) \<and> rows_of r # bs = in_batches (batch_size s) rows \<and>
    pending s2 @ payload es2 = put_msg ch body @ rest \<and> endOfStreamingCursor s2"
proof -
  have p': "pending s @ payload es = description_msg (server_protocol_version s) ds @ data_rows rows @ (command_msg tag @ put_msg ch body @ rest)"
    using p by (simp add: answer_msgs_def)
  from first_batch [OF s r ok st n p'] obtain es1 s1 q where
    1: "pqGetResult es s = Some (Some (fresh s), es1, s1)" "streaming_at s1 (fresh s)" "receiving es1 s1"
      "pending s1 @ payload es1 = data_rows (drop (batch_size s) rows) @ command_msg tag @ put_msg ch body @ rest"
      "results s1 (fresh s) = Some q" "rows_in (described_result ds) (take (batch_size s) rows) q" "batch_size s1 = batch_size s" by blast
  have q: "resultStatus q = PGRES_TUPLES_OK" "numAttributes q = int (length ds)" "attDescs q = ds"
    using rows_in_sel [OF 1(6)] by (simp_all add: described_result_def empty_result_def)
  have "rows_ok (int (length ds)) (take (batch_size s) rows @ drop (batch_size s) rows)" "tag_ok tag"
    using ok by (simp_all add: answer_ok_def)
  then have ro: "rows_ok (numAttributes q) (drop (batch_size s) rows)" and tg: "tag_ok tag"
    using rows_ok_part q(2) by metis+
  have fuel: "length (drop (batch_size s) rows) < k * batch_size s1" using k 1(7) by simp
  from read_stream_batches [OF 1(2,3,5) q(1) ro tg mo 1(4) fuel] obtain es2 s2 where
    2: "read_stream k es1 s1 (fresh s) = Some (in_batches (batch_size s1) (drop (batch_size s) rows), es2, s2)"
      "pending s2 @ payload es2 = put_msg ch body @ rest" "endOfStreamingCursor s2" by blast
  have "0 < batch_size s1" using 1(2) by (simp add: streaming_at_def batch_size_def)
  then have "0 < batch_size s" using 1(7) by simp
  then have "in_batches (batch_size s) rows = take (batch_size s) rows # in_batches (batch_size s) (drop (batch_size s) rows)"
    using n by (subst in_batches.simps) simp
  with 1 2 q(3) rows_of_rows_in [OF 1(6)] show ?thesis by auto
qed

end
