(* ===== verification/Pq_Error.thy ===== *)
theory Pq_Error
  imports Pq_Stream
begin

text \<open>
  Errors that the server reports: the fields of the message reach the result that the caller gets, and the
  result that was being filled is freed. A streaming cursor's statement still holds that result.
\<close>

subsection \<open>The fields of a message\<close>

definition put_message_field :: "byte \<times> byte list \<Rightarrow> byte list" where
  "put_message_field f = fst f # put_string (snd f)"

definition put_message_fields :: "(byte \<times> byte list) list \<Rightarrow> byte list" where
  "put_message_fields fs = concat (map put_message_field fs) @ [0]"

definition message_field_ok :: "byte \<times> byte list \<Rightarrow> bool" where
  "message_field_ok f \<longleftrightarrow> fst f \<noteq> 0 \<and> 0 \<notin> set (snd f)"

lemma get_message_fields_put:
  assumes "in_wf c" and "unread c = put_message_fields fs @ rest" and "list_all message_field_ok fs"
  shows "get_message_fields acc c = (False, rev fs @ acc, c\<lparr>inCursor := inCursor c + length (put_message_fields fs)\<rparr>)"
  using assms
proof (induction fs arbitrary: acc c)
  case Nil
  have u: "unread c = [0] @ rest" using Nil.prems(2) by (simp add: put_message_fields_def)
  note g = getc.get_put(1) [OF Nil.prems(1) u TrueI]
  show ?case by (subst get_message_fields.simps) (simp add: g put_message_fields_def)
next
  case (Cons f fs)
  obtain code v where f: "f = (code, v)" by (cases f) auto
  have u: "unread c = [code] @ (put_string v @ put_message_fields fs @ rest)"
    using Cons.prems(2) by (simp add: put_message_fields_def put_message_field_def f)
  note g = getc.get_put [OF Cons.prems(1) u TrueI]
  let ?c1 = "c\<lparr>inCursor := inCursor c + 1\<rparr>"
  have u1: "unread ?c1 = put_string v @ (put_message_fields fs @ rest)" and w1: "in_wf ?c1" and v: "0 \<notin> set v" "code \<noteq> 0"
    using g(2,3) Cons.prems(3) by (simp_all add: message_field_ok_def f)
  note h = gets.get_put [OF w1 u1 v(1)]
  let ?c2 = "?c1\<lparr>inCursor := inCursor ?c1 + length (put_string v)\<rparr>"
  have "get_message_fields acc c = get_message_fields ((code, v) # acc) ?c2"
    using g(1) h(1) v(2) by (subst get_message_fields.simps) simp
  moreover have "get_message_fields ((code, v) # acc) ?c2 =
      (False, rev fs @ (code, v) # acc, ?c2\<lparr>inCursor := inCursor ?c2 + length (put_message_fields fs)\<rparr>)"
    by (rule Cons.IH [OF h(3,2)]) (use Cons.prems(3) in simp)
  ultimately show ?case by (simp add: f put_message_fields_def put_message_field_def add.commute add.left_commute)
qed

lemma field_of_message:
  assumes "distinct (map fst fs)" and "(byte_of code, v) \<in> set fs"
  shows "PQresultErrorField (rev fs) code = Some v"
  using assms by (simp add: PQresultErrorField_def rev_map [symmetric])

subsection \<open>An error in the loop\<close>

definition error_msg :: "(byte \<times> byte list) list \<Rightarrow> byte list" where
  "error_msg fs = put_msg CHR ''E'' (put_message_fields fs)"

definition error_fields_ok :: "(byte \<times> byte list) list \<Rightarrow> bool" where
  "error_fields_ok fs \<longleftrightarrow> list_all message_field_ok fs \<and> length (put_message_fields fs) < 2 ^ 28"

text \<open>What is behind \<^verbatim>\<open>conn->result\<close> after the error, and the result that is gone.\<close>

definition failed_with :: "(byte \<times> byte list) list \<Rightarrow> nat option \<Rightarrow> pqstate \<Rightarrow> pqstate \<Rightarrow> bool" where
  "failed_with fs old s t \<longleftrightarrow> (\<exists>msg. result t = Some (fresh s) \<and> curTuple t = None \<and> fresh t = fresh s + 1 \<and>
     results t = (results (PQclear s old))(fresh s \<mapsto>
       (empty_result PGRES_FATAL_ERROR)\<lparr>errFields := rev fs, errMsg := Some msg\<rparr>) \<and>
     asyncStatus t = PGASYNC_READY \<and> stopped t = stopped s \<and> iSocketError t = iSocketError s \<and> endOfStreamingCursor t = endOfStreamingCursor s)"

lemma near_fields:
  assumes "near s t"
  shows "result t = result s" "curTuple t = curTuple s" "fresh t = fresh s" "results t = results s"
    "asyncStatus t = asyncStatus s" "stopped t = stopped s" "iSocketError t = iSocketError s"
    "endOfStreamingCursor t = endOfStreamingCursor s" "results (PQclear t old) = results (PQclear s old)"
  using context_kept_sel(13,25,15,1,3,17,19) [OF near_context [OF assms]] near_sel(9) [OF assms]
  by (simp_all add: PQclear_def split: option.split)

lemma failed_with_near: "failed_with fs old s t \<Longrightarrow> near t u \<Longrightarrow> failed_with fs old s u"
  unfolding failed_with_def by (simp only: near_fields)

lemma failed_with_near_before: "near s t \<Longrightarrow> failed_with fs old t u \<Longrightarrow> failed_with fs old s u"
  unfolding failed_with_def by (simp only: near_fields)

lemma save_sqlstate_cases:
  obtains v where "save_sqlstate c fs = c\<lparr>last_sqlstate := v\<rparr>"
proof (cases "PQresultErrorField fs CHR ''C''")
  case None
  then show thesis using that [of "last_sqlstate c"] by (simp add: save_sqlstate_def)
next
  case (Some v)
  then show thesis using that [of "if length v < 6 then v else last_sqlstate c"] by (simp add: save_sqlstate_def)
qed

lemma msg_E_ok:
  assumes w: "in_wf t" and u: "unread t = put_message_fields fs @ front" and ok: "list_all message_field_ok fs"
    and c: "\<not> calledFromCscThread t" and new: "result t \<noteq> Some (fresh t)"
  obtains t' where "msg_E t = Some (Next, t')" "moved t t' (length (put_message_fields fs))" "failed_with fs (result t) t t'"
proof -
  let ?c0 = "t\<lparr>results := (results t)(fresh t \<mapsto> empty_result PGRES_EMPTY_QUERY), fresh := fresh t + 1\<rparr>"
  have mk: "PQmakeEmptyPGresult t PGRES_EMPTY_QUERY = (fresh t, ?c0)" by (simp add: PQmakeEmptyPGresult_def)
  have w0: "in_wf ?c0" and u0: "unread ?c0 = put_message_fields fs @ front"
    using w u by (simp_all add: in_wf_def inBufSize_def unread_def)
  let ?c1 = "?c0\<lparr>inCursor := inCursor t + length (put_message_fields fs)\<rparr>"
  have g: "get_message_fields [] ?c0 = (False, rev fs, ?c1)" using get_message_fields_put [OF w0 u0 ok, of "[]"] by simp
  obtain v where v: "save_sqlstate ?c1 (rev fs) = ?c1\<lparr>last_sqlstate := v\<rparr>" by (rule save_sqlstate_cases)
  let ?msg = "error_text ?c1 (rev fs)"
  let ?r = "(empty_result PGRES_FATAL_ERROR)\<lparr>errFields := rev fs, errMsg := Some ?msg\<rparr>"
  let ?c3 = "pqClearAsyncResult (?c1\<lparr>last_sqlstate := v\<rparr>)"
  let ?t = "(set_result ?c3 (fresh t) ?r)\<lparr>result := Some (fresh t), errorMessage := errorMessage ?c3 @ ?msg, asyncStatus := PGASYNC_READY\<rparr>"
  have "msg_E t = Some (Next, ?t)"
    using c unfolding msg_E_def pqGetErrorNotice3_def mk prod.case g v Let_def by (simp add: set_result_def)
  moreover have "moved t ?t (length (put_message_fields fs))"
    by (simp add: moved_def set_result_def pqClearAsyncResult_def PQclear_def split: option.split)
  moreover have "failed_with fs (result t) t ?t"
    unfolding failed_with_def
    by (rule exI [of _ ?msg], cases "result t")
       (use new in \<open>auto simp: set_result_def pqClearAsyncResult_def PQclear_def stopped_def csc_loop_def fun_eq_iff\<close>)
  ultimately show thesis by (rule that)
qed

lemma pump_error:
  assumes s: "open_loop s" and r: "receiving es s" and ok: "error_fields_ok fs" and len: "length (put_message_fields fs) \<le> 29996"
    and c: "\<not> calledFromCscThread s" and new: "result s \<noteq> Some (fresh s)"
    and p: "pending s @ payload es = error_msg fs @ rest"
  shows "\<exists>es' s'. pump es s = pump es' s' \<and> receiving es' s' \<and> pending s' @ payload es' = rest \<and> failed_with fs (result s) s s'"
proof -
  let ?d = "put_message_fields fs"
  let ?Q = "\<lambda>u. failed_with fs (result s) s u"
  have mo: "msg_ok CHR ''E'' ?d" using ok len by (simp add: msg_ok_def error_fields_ok_def)
  have busy: "asyncStatus s = PGASYNC_BUSY" using s by (simp add: open_loop_def)
  show ?thesis
  proof (rule pump_message [OF s r mo p [unfolded error_msg_def], where Q = ?Q])
    fix t assume t: "near s t" "in_wf t" "\<exists>front. unread t = ?d @ front" "inCursor t = inStart t + 5"
    then obtain front where f: "unread t = ?d @ front" by blast
    note k = context_kept_sel [OF near_context [OF t(1), of undefined]]
    have fo: "list_all message_field_ok fs" using ok by (simp add: error_fields_ok_def)
    have "\<not> calledFromCscThread t" "result t \<noteq> Some (fresh t)" using c new k(12,13,15) by simp_all
    from msg_E_ok [OF t(2) f fo this] obtain u where
      u: "msg_E t = Some (Next, u)" "moved t u (length ?d)" "failed_with fs (result t) t u" .
    have "handle_message t (byte_of CHR ''E'') (int (length ?d)) = Some (Next, u)" using u(1) busy k(1) by simp
    moreover have "?Q u" using failed_with_near_before [OF t(1)] u(3) k(13) by simp
    ultimately show "\<exists>u. handle_message t (byte_of CHR ''E'') (int (length ?d)) = Some (Next, u) \<and> moved t u (length ?d) \<and> ?Q u"
      using u(2) by blast
  qed (rule failed_with_near)
qed

text \<open>In the middle of a batch of a streaming cursor.\<close>

lemma batch_error:
  assumes s: "streaming_at s p" and r: "receiving es s" and r0: "results s p = Some r0" "resultStatus r0 = PGRES_TUPLES_OK"
    and fr: "p < fresh s" and th: "\<not> calledFromCscThread s"
    and rows: "rows_ok (numAttributes r0) rows" and n: "length rows < batch_size s"
    and ok: "error_fields_ok fs" "length (put_message_fields fs) \<le> 29996"
    and pm: "pending s @ payload es = data_rows rows @ error_msg fs @ ready_msg st"
  shows "\<exists>es' s' q. pqReadNextBatchOfStreamingRows es s (Some p) = Some (False, es', s') \<and> results s' p = None \<and>
    \<not> endOfStreamingCursor s' \<and> result s' = Some q \<and> q \<noteq> p \<and>
    (\<exists>e. results s' q = Some e \<and> resultStatus e = PGRES_FATAL_ERROR \<and> errFields e = rev fs)"
proof -
  let ?s = "before_batch s p r0"
  have h: "streamingMode s" "\<not> skipStreamingCursor s" "loop_csc s = None" "csc_loop s = None" "result s = Some p"
    "int (batch_size s) = streamingCursorRows s" "\<not> endOfStreamingCursor s"
    using s by (simp_all add: streaming_at_def batch_size_def csc_loop_no_executor)
  have lo: "loop_csc ?s = None" "streamingMode ?s \<longrightarrow> \<not> skipStreamingCursor ?s"
    "streamingMode ?s \<longrightarrow> int (length ([] @ rows)) < streamingCursorRows ?s" using h n by simp_all
  have rc: "receiving es ?s" and ro: "rows_ok (numAttributes (cleared_rows r0)) ([] @ rows)"
    and pm': "pending ?s @ payload es = data_rows rows @ error_msg fs @ ready_msg st" using r rows pm by simp_all
  from pump_rows [OF open_before_batch [OF s] rc collects_before_batch [OF s r0(2)] lo(1,2) ro lo(3) pm'] obtain es1 s1 where
    1: "pump es ?s = pump es1 s1" "receiving es1 s1" "pending s1 @ payload es1 = error_msg fs @ ready_msg st"
      "context_kept p ?s s1" by auto
  note k1 = context_kept_sel [OF 1(4)]
  have fresh_b: "fresh ?s = fresh s" "calledFromCscThread ?s = calledFromCscThread s" by (simp_all add: before_batch_def set_result_def)
  have o1: "open_loop s1" using open_before_batch [OF s] k1(2) by simp
  have x1: "\<not> calledFromCscThread s1" "result s1 \<noteq> Some (fresh s1)" using th fr h(5) k1(12,13,15) fresh_b by simp_all
  from pump_error [OF o1 1(2) ok x1 1(3)] obtain es2 s2 where
    2: "pump es1 s1 = pump es2 s2" "receiving es2 s2" "pending s2 @ payload es2 = ready_msg st" "failed_with fs (result s1) s1 s2" by blast
  have a2: "asyncStatus s2 = PGASYNC_READY" "\<not> stopped s2" using 2(4) o1 by (simp_all add: failed_with_def open_loop_def)
  have mz: "msg_ok CHR ''Z'' [st]" "CHR ''Z'' \<notin> {CHR ''A'', CHR ''N''}" by (simp_all add: msg_ok_def)
  have "pending s2 @ payload es2 = put_msg CHR ''Z'' [st] @ []" using 2(3) by (simp add: ready_msg_def)
  from pump_ready [OF a2 2(2) mz this] obtain s3 where 3: "pump es2 s2 = Some (es2, s3)" "near s2 s3" by blast
  have f3: "failed_with fs (result s1) s1 s3" by (rule failed_with_near [OF 2(4) 3(2)])
  have p1: "result s1 = Some p" "fresh s1 = fresh s" using k1(13,15) h(5) fresh_b by simp_all
  have "iSocketError s3 = False" using f3 k1(17) by (simp add: failed_with_def)
  then have "pqReadNextBatchOfStreamingRows es s (Some p) = Some (False, es2, s3)"
    using read_batch [OF r0(1), of es] 1(1) 2(1) 3(1) by simp
  moreover have "endOfStreamingCursor s3 = endOfStreamingCursor s" using f3 k1(19) by (simp add: failed_with_def)
  ultimately show ?thesis using f3 p1 h(7) fr by (auto simp: failed_with_def empty_result_def)
qed

text \<open>The connection is lost between two batches.\<close>

lemma read_lost:
  fixes s :: pqstate
  assumes "sock_open s" and "e = Reset \<or> e = Fails"
  shows "\<exists>rc es1 s'. pqReadData (e # es) s = (rc, es1, s') \<and> rc < 0 \<and> results s' = results s \<and> result s' = result s \<and>
    fresh s' = fresh s"
proof -
  have retry: "\<exists>rc es1 s'. retry3 (e # es) False t = (rc, es1, s') \<and> rc < 0 \<and> results s' = results t \<and> result s' = result t \<and>
      fresh s' = fresh t" for t :: pqstate
    using assms(2) by (auto simp: drop_connection_def)
  have just: "results (left_justify s) = results s" "result (left_justify s) = result s" "fresh (left_justify s) = fresh s"
    by (simp_all add: left_justify_def)
  have room: "results (snd (pqCheckInBufferSpace n t)) = results t" "result (snd (pqCheckInBufferSpace n t)) = result t"
    "fresh (snd (pqCheckInBufferSpace n t)) = fresh t" for n and t :: pqstate
    by (simp_all add: pqCheckInBufferSpace_def Let_def realloc_in_def)
  obtain eof t where q: "pqCheckInBufferSpace (int (inEnd (left_justify s)) + 16384) (left_justify s) = (eof, t)"
    by fastforce
  have t: "results t = results s" "result t = result s" "fresh t = fresh s"
    using room [of "int (inEnd (left_justify s)) + 16384" "left_justify s"] unfolding q just by simp_all
  show ?thesis
    using assms(1) retry [of t] retry [of "left_justify s"] just t
    by (cases "in_space (left_justify s) < 8192 * 2"; cases "eof \<and> in_space t < 100")
       (auto simp: pqReadData_def Let_def q)
qed

lemma batch_lost:
  assumes s: "streaming_at s p" and w: "in_wf s" "sock_open s" and r0: "results s p = Some r0" "resultStatus r0 = PGRES_TUPLES_OK"
    and fr: "p < fresh s" and e: "e = Reset \<or> e = Fails" and pm: "pending s = []"
  shows "\<exists>es' s'. pqReadNextBatchOfStreamingRows (e # es) s (Some p) = Some (True, es', s') \<and> results s' p = None"
proof -
  let ?s = "before_batch s p r0"
  let ?t = "?s\<lparr>inCursor := inStart ?s\<rparr>"
  have o: "open_loop ?s" by (rule open_before_batch [OF s])
  have ws: "inEnd ?s \<le> inStart ?s" using length_pending [OF w(1)] pm by (simp add: before_batch_def set_result_def)
  have nst: "\<not> stopped ?s" using o by (simp add: open_loop_def)
  have "parse_round ?s = Some (False, ?t)"
    using nst ws by (auto simp: parse_round_def stopped_def pqGetc_def)
  from pump_halt [OF this] have 1: "pump (e # es) ?s = result_loop (e # es) ?t" .
  have so: "sock_open ?t" using w(2) by (simp add: before_batch_def set_result_def)
  have wait: "pqWait_read (e # es) ?t = Some (False, e # es, ?t)"
    using e ws so by (auto simp: pqWait_read_def)
  from read_lost [OF so e, of es] obtain rc es1 s1 where
    2: "pqReadData (e # es) ?t = (rc, es1, s1)" "rc < 0" "results s1 = results ?t" "result s1 = result ?t" "fresh s1 = fresh ?t"
    by blast
  have x: "result s1 = Some p" "results s1 p = Some (cleared_rows r0)" "fresh s1 = fresh s"
    using 2(3-5) s by (simp_all add: streaming_at_def before_batch_def set_result_def)
  obtain t' where t': "pqSaveErrorResult s1 = Some t'" "results t' p = None"
    using x r0(2) fr by (simp add: pqSaveErrorResult_def new_error_result_def PQmakeEmptyPGresult_def pqClearAsyncResult_def
        PQclear_def Let_def)
  have busy: "asyncStatus ?t = PGASYNC_BUSY \<and> \<not> (iStop ?t \<or> cscThreadCreated ?t \<and> \<not> calledFromCscThread ?t)"
    using o by (auto simp: open_loop_def before_batch_def set_result_def)
  have "result_loop (e # es) ?t = Some (es1, t'\<lparr>asyncStatus := PGASYNC_IDLE, iSocketError := True\<rparr>)"
    using busy by (subst result_loop.simps) (simp add: wait 2(1,2) t'(1))
  with read_batch [OF r0(1), of "e # es"] 1 t'(2) show ?thesis by simp
qed

end
