(* ===== verification/Pq_Access.thy ===== *)
theory Pq_Access
  imports Pq_Notice
begin

text \<open>
  The accessors of a result (\<^verbatim>\<open>fe-exec.c\<close>), through which the driver sees what libpq has
  received. A result that is \<^verbatim>\<open>NULL\<close> is \<open>None\<close>. The notices about numbers out of range
  are left out. Reading behind the arrays is not possible: each accessor checks its indices first.
\<close>

subsection \<open>The result\<close>

definition PQresultStatus :: "pgresult option \<Rightarrow> exec_status" where
  "PQresultStatus res = (case res of None \<Rightarrow> PGRES_FATAL_ERROR | Some r \<Rightarrow> resultStatus r)"

definition PQresultErrorMessage :: "pgresult option \<Rightarrow> string" where
  "PQresultErrorMessage res = (case res of None \<Rightarrow> [] | Some r \<Rightarrow> (case errMsg r of None \<Rightarrow> [] | Some m \<Rightarrow> m))"

definition PQntuples :: "pgresult option \<Rightarrow> int" where
  "PQntuples res = (case res of None \<Rightarrow> 0 | Some r \<Rightarrow> ntups r)"

definition PQmyntuples :: "pgresult option \<Rightarrow> int" where
  "PQmyntuples res = (case res of None \<Rightarrow> 0 | Some r \<Rightarrow> myntups r)"

definition PQtotalntuples :: "pgresult option \<Rightarrow> int" where
  "PQtotalntuples res = (case res of None \<Rightarrow> 0 | Some r \<Rightarrow> totalntups r)"

definition PQcapped :: "pgresult option \<Rightarrow> bool" where
  "PQcapped res = (case res of None \<Rightarrow> False | Some r \<Rightarrow> capped r)"

definition PQnfields :: "pgresult option \<Rightarrow> int" where
  "PQnfields res = (case res of None \<Rightarrow> 0 | Some r \<Rightarrow> numAttributes r)"

definition PQbinaryTuples :: "pgresult option \<Rightarrow> bool" where
  "PQbinaryTuples res = (case res of None \<Rightarrow> False | Some r \<Rightarrow> binary r)"

subsection \<open>Columns\<close>

definition check_field_number :: "pgresult option \<Rightarrow> int \<Rightarrow> bool" where
  "check_field_number res field_num =
     (case res of None \<Rightarrow> False | Some r \<Rightarrow> 0 \<le> field_num \<and> field_num < numAttributes r)"

text \<open>What the accessors of a column's description share: an attribute, or the default.\<close>

definition of_field :: "pgresult option \<Rightarrow> int \<Rightarrow> (att_desc \<Rightarrow> 'v) \<Rightarrow> 'v \<Rightarrow> 'v" where
  "of_field res field_num get dflt =
     (case res of
        None \<Rightarrow> dflt
      | Some r \<Rightarrow>
          if check_field_number res field_num \<and> attDescs r \<noteq> [] then get (attDescs r ! nat field_num) else dflt)"

definition PQfname :: "pgresult option \<Rightarrow> int \<Rightarrow> byte list option" where
  "PQfname res i = of_field res i (\<lambda>d. Some (ad_name d)) None"

definition PQfcatalog_name :: "pgresult option \<Rightarrow> int \<Rightarrow> byte list option" where
  "PQfcatalog_name res i = of_field res i catalog_name None"

definition PQfschema_name :: "pgresult option \<Rightarrow> int \<Rightarrow> byte list option" where
  "PQfschema_name res i = of_field res i schema_name None"

definition PQftable_name :: "pgresult option \<Rightarrow> int \<Rightarrow> byte list option" where
  "PQftable_name res i = of_field res i table_name None"

definition PQfcol_name :: "pgresult option \<Rightarrow> int \<Rightarrow> byte list option" where
  "PQfcol_name res i = of_field res i col_name None"

definition PQftable :: "pgresult option \<Rightarrow> int \<Rightarrow> int" where "PQftable res i = of_field res i tableid 0"
definition PQftablecol :: "pgresult option \<Rightarrow> int \<Rightarrow> int" where "PQftablecol res i = of_field res i columnid 0"
definition PQfnullable :: "pgresult option \<Rightarrow> int \<Rightarrow> int" where "PQfnullable res i = of_field res i nullable 2"
definition PQfcase_sensitive :: "pgresult option \<Rightarrow> int \<Rightarrow> int" where
  "PQfcase_sensitive res i = of_field res i case_sensitive (-1)"
definition PQfauto_increment :: "pgresult option \<Rightarrow> int \<Rightarrow> int" where
  "PQfauto_increment res i = of_field res i autoincrement 0"
definition PQfformat :: "pgresult option \<Rightarrow> int \<Rightarrow> int" where "PQfformat res i = of_field res i format 0"
definition PQftype :: "pgresult option \<Rightarrow> int \<Rightarrow> int" where "PQftype res i = of_field res i typid 0"
definition PQfsize :: "pgresult option \<Rightarrow> int \<Rightarrow> int" where "PQfsize res i = of_field res i typlen 0"
definition PQfmod :: "pgresult option \<Rightarrow> int \<Rightarrow> int" where "PQfmod res i = of_field res i atttypmod 0"

subsection \<open>A column by its name\<close>

text \<open>Letters outside ASCII are left alone, as in the C locale.\<close>

definition pg_tolower :: "byte \<Rightarrow> byte" where
  "pg_tolower c = (if byte_of CHR ''A'' \<le> c \<and> c \<le> byte_of CHR ''Z'' then c + 32 else c)"

definition dquote :: byte where "dquote = 34"

fun fold_field_name :: "bool \<Rightarrow> byte list \<Rightarrow> byte list" where
  "fold_field_name in_quotes [] = []"
| "fold_field_name True (c # cs) =
     (if c = dquote then
        (case cs of
           d # ds \<Rightarrow> if d = dquote then dquote # fold_field_name True ds else fold_field_name False cs
         | [] \<Rightarrow> [])
      else c # fold_field_name True cs)"
| "fold_field_name False (c # cs) =
     (if c = dquote then fold_field_name True cs else pg_tolower c # fold_field_name False cs)"

fun find_name :: "byte list \<Rightarrow> att_desc list \<Rightarrow> int \<Rightarrow> int" where
  "find_name n [] i = -1"
| "find_name n (d # ds) i = (if ad_name d = n then i else find_name n ds (i + 1))"

definition PQfnumber :: "pgresult option \<Rightarrow> byte list option \<Rightarrow> int" where
  "PQfnumber res field_name =
     (case (res, field_name) of
        (Some r, Some n) \<Rightarrow>
          if n = [] \<or> attDescs r = [] then -1
          else find_name (fold_field_name False n) (take (nat (numAttributes r)) (attDescs r)) 0
      | _ \<Rightarrow> -1)"

subsection \<open>The status of a command\<close>

definition cmd_text :: "pgresult \<Rightarrow> string" where
  "cmd_text r = chars_of (cmdStatus r)"

definition PQcmdStatus :: "pgresult option \<Rightarrow> string option" where
  "PQcmdStatus res = map_option cmd_text res"

definition starts :: "string \<Rightarrow> string \<Rightarrow> bool" where
  "starts p s \<longleftrightarrow> take (length p) s = p"

definition PQoidStatus :: "pgresult option \<Rightarrow> string" where
  "PQoidStatus res =
     (case res of
        None \<Rightarrow> []
      | Some r \<Rightarrow> if starts ''INSERT '' (cmd_text r) then take 23 (takeWhile is_digit (drop 7 (cmd_text r))) else [])"

text \<open>\<^verbatim>\<open>strtoul\<close> on a digit string stops at the largest \<^verbatim>\<open>unsigned long\<close>.\<close>

definition strtoul :: "string \<Rightarrow> int" where
  "strtoul ds = min (dec_value ds) (2 ^ 64 - 1)"

definition PQoidValue :: "pgresult option \<Rightarrow> int" where
  "PQoidValue res =
     (case res of
        None \<Rightarrow> 0
      | Some r \<Rightarrow>
          (let d = takeWhile is_digit (drop 7 (cmd_text r)); e = dropWhile is_digit (drop 7 (cmd_text r)) in
           if starts ''INSERT '' (cmd_text r) \<and> d \<noteq> [] \<and> (e = [] \<or> hd e = CHR '' '') then strtoul d mod 2 ^ 32 else 0))"

text \<open>The part of the status in which the number of rows stands; \<open>None\<close>: not such a command, or no space.\<close>

definition count_part :: "string \<Rightarrow> string option" where
  "count_part s =
     (if starts ''INSERT '' s then
        (case dropWhile (\<lambda>c. c \<noteq> CHR '' '') (drop 7 s) of [] \<Rightarrow> None | _ # p \<Rightarrow> Some p)
      else if starts ''SELECT '' s \<or> starts ''DELETE '' s \<or> starts ''UPDATE '' s then Some (drop 7 s)
      else if starts ''FETCH '' s then Some (drop 6 s)
      else if starts ''MOVE '' s \<or> starts ''COPY '' s \<or> starts ''CTAS '' s then Some (drop 5 s)
      else None)"

definition PQcmdTuples :: "pgresult option \<Rightarrow> string" where
  "PQcmdTuples res =
     (case res of
        None \<Rightarrow> []
      | Some r \<Rightarrow>
          (case count_part (cmd_text r) of
             None \<Rightarrow> []
           | Some p \<Rightarrow> if list_all is_digit p \<and> p \<noteq> [] then p else []))"

subsection \<open>Values\<close>

definition check_tuple_field_number :: "pgresult option \<Rightarrow> int \<Rightarrow> int \<Rightarrow> bool" where
  "check_tuple_field_number res tup_num field_num =
     (case res of
        None \<Rightarrow> False
      | Some r \<Rightarrow> 0 \<le> tup_num \<and> tup_num < ntups r \<and> 0 \<le> field_num \<and> field_num < numAttributes r)"

text \<open>The value behind the checks; \<open>None\<close>: there is no row at that place of the array.\<close>

definition att_at :: "pgresult \<Rightarrow> int \<Rightarrow> int \<Rightarrow> attvalue option" where
  "att_at r i j =
     do {
       ts \<leftarrow> tuples r;
       t \<leftarrow> (if nat i < length ts then ts ! nat i else None);
       if nat j < length t then Some (t ! nat j) else None
     }"

text \<open>The outer \<open>None\<close>: the source reads outside the arrays.\<close>

definition of_value :: "pgresult option \<Rightarrow> int \<Rightarrow> int \<Rightarrow> (attvalue \<Rightarrow> 'v) \<Rightarrow> 'v \<Rightarrow> 'v option" where
  "of_value res tup_num field_num get dflt =
     (case res of
        None \<Rightarrow> Some dflt
      | Some r \<Rightarrow>
          if check_tuple_field_number res tup_num field_num then map_option get (att_at r tup_num field_num)
          else Some dflt)"

definition PQgetvalue :: "pgresult option \<Rightarrow> int \<Rightarrow> int \<Rightarrow> byte list option option" where
  "PQgetvalue res i j = of_value res i j att_value None"

definition PQgetlength :: "pgresult option \<Rightarrow> int \<Rightarrow> int \<Rightarrow> int option" where
  "PQgetlength res i j = of_value res i j (\<lambda>a. if att_len a \<noteq> -1 then att_len a else 0) 0"

definition PQgetisnull :: "pgresult option \<Rightarrow> int \<Rightarrow> int \<Rightarrow> bool option" where
  "PQgetisnull res i j = of_value res i j (\<lambda>a. att_len a = -1) True"

subsection \<open>Parameters, and changes from outside\<close>

definition check_param_number :: "pgresult option \<Rightarrow> int \<Rightarrow> bool" where
  "check_param_number res param_num =
     (case res of None \<Rightarrow> False | Some r \<Rightarrow> 0 \<le> param_num \<and> param_num < numParameters r)"

definition PQnparams :: "pgresult option \<Rightarrow> int" where
  "PQnparams res = (case res of None \<Rightarrow> 0 | Some r \<Rightarrow> numParameters r)"

definition PQparamtype :: "pgresult option \<Rightarrow> int \<Rightarrow> int" where
  "PQparamtype res i =
     (case res of
        None \<Rightarrow> 0
      | Some r \<Rightarrow> if check_param_number res i \<and> paramDescs r \<noteq> [] then paramDescs r ! nat i else 0)"

definition PQsetNumAttributes :: "pgresult \<Rightarrow> int \<Rightarrow> pgresult" where
  "PQsetNumAttributes r columnNum = r\<lparr>numAttributes := columnNum\<rparr>"

subsection \<open>Lemmas\<close>

lemma starts_append [simp]: "starts p (p @ s)"
  by (simp add: starts_def)

lemma find_name_first:
  assumes "k < length ds" and "ad_name (ds ! k) = n" and "\<And>j. j < k \<Longrightarrow> ad_name (ds ! j) \<noteq> n"
  shows "find_name n ds i = i + int k"
  using assms
proof (induction k arbitrary: ds i)
  case 0
  then show ?case by (cases ds) auto
next
  case (Suc k)
  then obtain d ds' where ds: "ds = d # ds'" by (cases ds) auto
  have "ad_name d \<noteq> n" using Suc.prems(3) [of 0] by (simp add: ds)
  moreover have "find_name n ds' (i + 1) = i + 1 + int k"
    by (rule Suc.IH) (use Suc.prems(1,2) Suc.prems(3) [of "Suc _"] in \<open>auto simp: ds\<close>)
  ultimately show ?case by (simp add: ds)
qed

text \<open>A name in quotes, with its quotes doubled, is taken as it is.\<close>

definition quote_name :: "byte list \<Rightarrow> byte list" where
  "quote_name n = dquote # concat (map (\<lambda>c. if c = dquote then [dquote, dquote] else [c]) n) @ [dquote]"

lemma fold_quoted:
  "fold_field_name True (concat (map (\<lambda>c. if c = dquote then [dquote, dquote] else [c]) n) @ [dquote]) = n"
  by (induction n) auto

lemma fold_quote_name [simp]: "fold_field_name False (quote_name n) = n"
  by (simp add: quote_name_def fold_quoted)

lemma fold_plain: "dquote \<notin> set n \<Longrightarrow> fold_field_name False n = map pg_tolower n"
  by (induction n) auto

end
