(* ===== verification/Pq_Promises.thy ===== *)
theory Pq_Promises
  imports Pq_Error Pq_Access
begin

text \<open>
  What the protocol component promises: an answer reaches the accessors as the server sent it, in whatever
  pieces it arrives; synchronous commands leave the connection idle and no result behind; a streaming cursor
  gives the rows in batches. The witnesses run on a new connection that has sent a query.
\<close>

subsection \<open>A concrete connection\<close>

definition demo_machine :: world where
  "demo_machine = \<lparr>w_files = (\<lambda>_. None), w_room = 0, w_badpos = (\<lambda>_. None), w_noopen = (\<lambda>_. False),
     w_noremove = (\<lambda>_. False), w_nomem = False, w_fd = 3, w_fsync = 0, w_platform = LINUX\<rparr>"

definition demo_conn :: pqstate where
  "demo_conn = (snd (PQsendQueryStart ((makeEmptyPGconn (replicate 16384 0) demo_machine (\<lambda>_. 0) (\<lambda>m q n. m))
     \<lparr>sock_open := True, status_ok := True\<rparr>)))\<lparr>asyncStatus := PGASYNC_BUSY\<rparr>"

lemma demo_conn_simps:
  "asyncStatus demo_conn = PGASYNC_BUSY" "result demo_conn = None" "curTuple demo_conn = None" "no_limits demo_conn"
  "cscExecutor demo_conn = None" "queryclass demo_conn = PGQUERY_SIMPLE" "cscThreadCreated demo_conn = False"
  "alreadyInitMsgLoopState demo_conn = False" "streamResultBatchNumber demo_conn = 0" "streamingMode demo_conn = False"
  "pending demo_conn = []" "sock_open demo_conn" "in_wf demo_conn" "inEnd demo_conn = 0" "inBufSize demo_conn = 16384"
  "fresh demo_conn = 0" "results demo_conn = (\<lambda>_. None)" "server_protocol_version demo_conn = 0" "status_ok demo_conn"
  "mloop demo_conn = None" "calledFromCscThread demo_conn = False" "inStart demo_conn = 0" "inCursor demo_conn = 0"
  by (simp_all add: demo_conn_def PQsendQueryStart_def makeEmptyPGconn_def no_limits_def pending_def in_wf_def inBufSize_def)

lemma demo_awaiting: "awaiting demo_conn"
  by (simp add: awaiting_def demo_conn_simps)

definition demo_text_column :: att_desc where
  "demo_text_column = \<lparr>ad_name = [97], tableid = 0, columnid = 0, format = 0, typid = 25, typlen = -1, atttypmod = -1,
     schema_name = None, table_name = None, col_name = None, catalog_name = None, nullable = 2, autoincrement = 0,
     read_only = 0, searchable = 0, case_sensitive = 0\<rparr>"

definition demo_row :: "byte list \<Rightarrow> row" where
  "demo_row bs = [\<lparr>att_len = int (length bs), att_value = Some bs\<rparr>]"

definition demo_tag :: "byte list" where
  "demo_tag = [83, 69, 76, 69, 67, 84]"

lemma demo_answer_ok: "answer_ok 0 [demo_text_column] (map demo_row [[104, 105], [33], []]) demo_tag"
  by (simp add: answer_ok_def atts_ok_def rows_ok_def row_ok_def tag_ok_def demo_text_column_def demo_row_def demo_tag_def att_ok_def
      ext_ok_def EXTENDED_RESULT_METADATA_SERVER_PROTOCOL_VERSION_def int4_ok_def int2s_ok_def oid_ok_def field_ok_def
      put_atts_def put_att_def put_row_def put_field_def put_string_def)

lemma demo_answers_ok: "answers_ok 0 [([demo_text_column], map demo_row [[104, 105], [33], []], demo_tag)]"
  using demo_answer_ok by (simp add: answers_ok_def)

text \<open>The stream arrives in three pieces with a pause.\<close>

definition demo_events :: "byte list \<Rightarrow> recv list" where
  "demo_events bytes = [Bytes (take 1 bytes), Again, Bytes (take 9 (drop 1 bytes)), Eintr, Bytes (drop 10 bytes)]"

lemma demo_payload [simp]: "payload (demo_events bytes) = bytes"
proof -
  have "take 9 (drop 1 bytes) @ drop 10 bytes = drop 1 bytes"
    using append_take_drop_id [of 9 "drop 1 bytes"] by simp
  then have "take 1 bytes @ take 9 (drop 1 bytes) @ drop 10 bytes = bytes" by simp
  then show ?thesis by (simp only: demo_events_def payload.simps append_Nil2)
qed

lemma demo_receiving:
  assumes "10 < length bytes" and "length bytes \<le> 2 ^ 28"
  shows "receiving (demo_events bytes) demo_conn"
  using assms by (auto simp: receiving_def in_room_def demo_conn_simps calm_def demo_events_def)

subsection \<open>What an answer shows\<close>

text \<open>The accessors give the columns, the rows and the command tag that the server sent.\<close>

definition reports :: "pgresult option \<Rightarrow> att_desc list \<Rightarrow> row list \<Rightarrow> byte list \<Rightarrow> bool" where
  "reports r ds rows tag \<longleftrightarrow> PQresultStatus r = PGRES_TUPLES_OK \<and> PQntuples r = int (length rows) \<and>
     PQnfields r = int (length ds) \<and> PQcmdStatus r = Some (chars_of (take CMDSTATUS_LEN tag)) \<and>
     (\<forall>j < length ds. PQfname r (int j) = Some (ad_name (ds ! j)) \<and> PQftype r (int j) = typid (ds ! j) \<and>
        PQfmod r (int j) = atttypmod (ds ! j) \<and> PQfformat r (int j) = format (ds ! j)) \<and>
     (\<forall>i < length rows. \<forall>j < length ds. PQgetvalue r (int i) (int j) = Some (att_value (rows ! i ! j)) \<and>
        PQgetisnull r (int i) (int j) = Some (att_len (rows ! i ! j) = -1))"

lemma att_at_holds:
  assumes "holds ds rows tag r" and "rows_ok (int (length ds)) rows" and "i < length rows" and "j < length ds"
  shows "att_at r (int i) (int j) = Some (rows ! i ! j)"
proof -
  have "length (rows ! i) = length ds" using assms(2,3) by (auto simp: rows_ok_def row_ok_def)
  moreover have "rows \<noteq> []" using assms(3) by auto
  ultimately show ?thesis using holds_sel(1) [OF assms(1)] assms(3,4) by (simp add: att_at_def tuple_array_def)
qed

lemma of_field_holds: "holds ds rows tag r \<Longrightarrow> j < length ds \<Longrightarrow> of_field (Some r) (int j) get dflt = get (ds ! j)"
  using holds_sel(4,6) [of ds rows tag r] by (auto simp: of_field_def check_field_number_def)

lemma holds_reports:
  assumes "holds ds rows tag r" and "rows_ok (int (length ds)) rows"
  shows "reports (Some r) ds rows tag"
  using holds_sel [OF assms(1)] att_at_holds [OF assms]
  by (simp add: of_field_holds [OF assms(1)] reports_def PQresultStatus_def PQntuples_def PQnfields_def PQcmdStatus_def cmd_text_def PQgetvalue_def PQgetisnull_def
      of_value_def check_tuple_field_number_def PQfname_def PQftype_def PQfmod_def PQfformat_def)

lemma reports_value:
  "reports r ds rows tag \<Longrightarrow> i < length rows \<Longrightarrow> j < length ds \<Longrightarrow>
   PQgetvalue r (int i) (int j) = Some (att_value (rows ! i ! j))"
  by (simp add: reports_def)

text \<open>
  Property C1. An answer arrives as it was sent. Whatever the pieces and pauses in which its bytes come, a
  description of columns, the rows and the command tag make one result, and the accessors give from it exactly
  these columns, values, nulls and tag; the answers behind it stay in the stream for the next call, and nothing
  else in the store of results has changed.
\<close>

theorem answer_received:
  assumes "awaiting s" and "receiving es s" and "answers_ok (server_protocol_version s) ((ds, rows, tag) # as)"
    and "streamingMode s \<longrightarrow> int (length rows) < streamingCursorRows s"
    and "pending s @ payload es = command_answers (server_protocol_version s) ((ds, rows, tag) # as) st"
  shows "\<exists>p es' s'. pqGetResult es s = Some (Some p, es', s') \<and> p = fresh s \<and> reports (results s' p) ds rows tag \<and>
    awaiting s' \<and> receiving es' s' \<and> pending s' @ payload es' = command_answers (server_protocol_version s) as st \<and>
    results s' = (results s)(p := results s' p)"
proof -
  have oks: "answers_ok (server_protocol_version s) as" "answer_ok (server_protocol_version s) ds rows tag"
    using assms(3) by (simp_all add: answers_ok_def)
  obtain ch body rest where n: "command_answers (server_protocol_version s) as st = put_msg ch body @ rest" "msg_ok ch body"
    "ch \<notin> {CHR ''A'', CHR ''N''}" by (rule next_message [OF oks(1)])
  have p: "pending s @ payload es = answer_msgs (server_protocol_version s) ds rows tag @ put_msg ch body @ rest"
    using assms(5) n(1) by (simp add: command_answers_def one_answer_def)
  from next_answer [OF assms(1,2) oks(2) assms(4) n(2,3) p] obtain es' s' r where
    1: "pqGetResult es s = Some (Some (fresh s), es', s')" "awaiting s'" "receiving es' s'"
      "pending s' @ payload es' = put_msg ch body @ rest" "results s' (fresh s) = Some r" "holds ds rows tag r"
      "loop_changed (fresh s) s s'" by blast
  have "reports (results s' (fresh s)) ds rows tag"
    using holds_reports [OF 1(6)] oks(2) 1(5) by (simp add: answer_ok_def)
  moreover have "results s' = (results s)(fresh s := results s' (fresh s))"
    using 1(7) by (auto simp: loop_changed_def fun_eq_iff)
  ultimately show ?thesis
    using 1(1-4) unfolding n(1) by (intro exI [of _ "fresh s"] exI [of _ es'] exI [of _ s']) simp
qed

definition demo_bytes :: "byte list" where
  "demo_bytes = command_answers 0 [([demo_text_column], map demo_row [[104, 105], [33], []], demo_tag)] 73"

lemma length_demo_bytes: "10 < length demo_bytes" "length demo_bytes \<le> 2 ^ 28"
  by (simp_all add: demo_bytes_def command_answers_def one_answer_def answer_msgs_def description_msg_def data_rows_def command_msg_def
      ready_msg_def put_atts_def put_att_def put_row_def put_field_def put_string_def demo_text_column_def demo_row_def demo_tag_def
      EXTENDED_RESULT_METADATA_SERVER_PROTOCOL_VERSION_def)

lemma answer_received_witness:
  "\<exists>es' s'. pqGetResult (demo_events demo_bytes) demo_conn = Some (Some 0, es', s') \<and>
     PQgetvalue (results s' 0) 0 0 = Some (Some [104, 105]) \<and> PQgetvalue (results s' 0) 1 0 = Some (Some [33])"
proof -
  have "\<exists>p es' s'. pqGetResult (demo_events demo_bytes) demo_conn = Some (Some p, es', s') \<and> p = fresh demo_conn \<and>
    reports (results s' p) [demo_text_column] (map demo_row [[104, 105], [33], []]) demo_tag \<and> awaiting s' \<and> receiving es' s' \<and>
    pending s' @ payload es' = command_answers (server_protocol_version demo_conn) [] 73 \<and>
    results s' = (results demo_conn)(p := results s' p)"
    by (rule answer_received [OF demo_awaiting demo_receiving [OF length_demo_bytes]])
       (simp_all add: demo_answers_ok [simplified] demo_conn_simps demo_bytes_def)
  then obtain es' s' where 1: "pqGetResult (demo_events demo_bytes) demo_conn = Some (Some 0, es', s')"
    "reports (results s' 0) [demo_text_column] (map demo_row [[104, 105], [33], []]) demo_tag" by (auto simp: demo_conn_simps)
  from reports_value [OF 1(2), of 0 0] reports_value [OF 1(2), of 1 0] 1(1) show ?thesis by (auto simp: demo_row_def)
qed

subsection \<open>Synchronous commands\<close>

lemma demo_asked: "asked (demo_events demo_bytes) demo_conn demo_bytes"
  using demo_receiving [OF length_demo_bytes] awaiting_no_context [OF demo_awaiting]
  by (simp add: asked_def demo_conn_simps)

lemma holds_answer_reports:
  assumes "holds_answer (ds, rows, tag) r" and "answers_ok v as" and "(ds, rows, tag) \<in> set as"
  shows "reports (Some r) ds rows tag"
proof -
  have "answer_ok v ds rows tag" using assms(2,3) by (auto simp: answers_ok_def)
  then show ?thesis using holds_reports assms(1) by (simp add: holds_answer_def answer_ok_def)
qed

text \<open>
  Property C23. A synchronous command returns the last of its answers and frees the others: the connection
  is idle, its stream is empty, and the store of results differs from the one before by the returned result
  only.
\<close>

theorem command_returns_last_answer:
  assumes "asked es s (command_answers (server_protocol_version s) (as @ [(ds, rows, tag)]) st)"
    and "answers_ok (server_protocol_version s) (as @ [(ds, rows, tag)])"
  shows "\<exists>p es' s' r. PQexecFinish es s = Some (Some p, es', s') \<and> reports (Some r) ds rows tag \<and>
    results s' = (results s)(p \<mapsto> r) \<and> asyncStatus s' = PGASYNC_IDLE \<and> pending s' @ payload es' = []"
proof -
  have "as @ [(ds, rows, tag)] \<noteq> []" by simp
  from exec_finish_answers [OF assms this] obtain p es' s' r where
    "PQexecFinish es s = Some (Some p, es', s')" "asyncStatus s' = PGASYNC_IDLE" "pending s' @ payload es' = []"
    "results s' = (results s)(p \<mapsto> r)" "holds_answer (ds, rows, tag) r" by auto
  moreover have "reports (Some r) ds rows tag"
    by (rule holds_answer_reports [OF \<open>holds_answer (ds, rows, tag) r\<close> assms(2)]) simp
  ultimately show ?thesis by blast
qed

lemma command_returns_last_answer_witness:
  "\<exists>p es' s' r. PQexecFinish (demo_events demo_bytes) demo_conn = Some (Some p, es', s') \<and>
     PQntuples (Some r) = 3 \<and> results s' = [p \<mapsto> r] \<and> asyncStatus s' = PGASYNC_IDLE"
proof -
  have "\<exists>p es' s' r. PQexecFinish (demo_events demo_bytes) demo_conn = Some (Some p, es', s') \<and>
    reports (Some r) [demo_text_column] (map demo_row [[104, 105], [33], []]) demo_tag \<and>
    results s' = (results demo_conn)(p \<mapsto> r) \<and> asyncStatus s' = PGASYNC_IDLE \<and> pending s' @ payload es' = []"
    by (rule command_returns_last_answer [of _ _ "[]" _ _ _ 73])
       (use demo_asked demo_answers_ok in \<open>simp_all add: demo_bytes_def demo_conn_simps\<close>)
  then show ?thesis by (auto simp: reports_def demo_conn_simps)
qed

text \<open>
  Property C24. Before a new command is sent, all that is left of the previous one is read and thrown away:
  whatever answers are still in the stream, the call ends, allows the command, leaves the connection idle and
  the stream empty, and the store of results is as it was.
\<close>

theorem old_answers_discarded:
  assumes "asked es s (command_answers (server_protocol_version s) as st)" and "answers_ok (server_protocol_version s) as"
  shows "\<exists>es' s'. PQexecStart es s = Some (True, es', s') \<and> asyncStatus s' = PGASYNC_IDLE \<and>
    pending s' @ payload es' = [] \<and> results s' = results s"
  by (rule exec_start_answers [OF assms])

lemma old_answers_discarded_witness:
  "\<exists>es' s'. PQexecStart (demo_events demo_bytes) demo_conn = Some (True, es', s') \<and> asyncStatus s' = PGASYNC_IDLE \<and>
     results s' = (\<lambda>_. None)"
proof -
  have "\<exists>es' s'. PQexecStart (demo_events demo_bytes) demo_conn = Some (True, es', s') \<and> asyncStatus s' = PGASYNC_IDLE \<and>
    pending s' @ payload es' = [] \<and> results s' = results demo_conn"
    by (rule old_answers_discarded [of _ _ "[([demo_text_column], map demo_row [[104, 105], [33], []], demo_tag)]" 73])
       (use demo_asked demo_answers_ok in \<open>simp_all add: demo_bytes_def demo_conn_simps\<close>)
  then show ?thesis by (auto simp: demo_conn_simps)
qed

subsection \<open>Streaming cursors\<close>

text \<open>
  Property C2. A streaming cursor gives every row once and in order: the first call and the reading of batches
  until the end of the cursor give the rows of the answer in batches of exactly the size asked for, the last
  one shorter, whatever the pieces in which the bytes arrive; the stream then stands at the next answer.
\<close>

theorem streaming_gives_batches:
  assumes "awaiting s" and "receiving es s" and "answers_ok (server_protocol_version s) ((ds, rows, tag) # as)"
    and "streamingMode s" and "\<not> endOfStreamingCursor s" and "batch_size s \<le> length rows"
    and "pending s @ payload es = command_answers (server_protocol_version s) ((ds, rows, tag) # as) st"
    and "length rows < k * batch_size s"
  shows "\<exists>p es1 s1 r bs es2 s2. pqGetResult es s = Some (Some p, es1, s1) \<and> results s1 p = Some r \<and> attDescs r = ds \<and>
    read_stream k es1 s1 p = Some (bs, es2, s2) \<and> rows_of r # bs = in_batches (batch_size s) rows \<and> concat (rows_of r # bs) = rows \<and>
    pending s2 @ payload es2 = command_answers (server_protocol_version s) as st \<and> endOfStreamingCursor s2"
proof -
  have oks: "answers_ok (server_protocol_version s) as" "answer_ok (server_protocol_version s) ds rows tag"
    using assms(3) by (simp_all add: answers_ok_def)
  obtain ch body rest where n: "command_answers (server_protocol_version s) as st = put_msg ch body @ rest" "msg_ok ch body"
    "ch \<notin> {CHR ''A'', CHR ''N''}" by (rule next_message [OF oks(1)])
  have p: "pending s @ payload es = answer_msgs (server_protocol_version s) ds rows tag @ put_msg ch body @ rest"
    using assms(7) n(1) by (simp add: command_answers_def one_answer_def)
  from streaming_query [OF assms(1,2) oks(2) assms(4,5,6) n(2,3) p assms(8)] obtain es1 s1 r bs es2 s2 where
    1: "pqGetResult es s = Some (Some (fresh s), es1, s1)" "results s1 (fresh s) = Some r" "attDescs r = ds"
    "read_stream k es1 s1 (fresh s) = Some (bs, es2, s2)" "rows_of r # bs = in_batches (batch_size s) rows"
    "pending s2 @ payload es2 = put_msg ch body @ rest" "endOfStreamingCursor s2" by blast
  have "concat (rows_of r # bs) = rows" unfolding 1(5) by (rule concat_in_batches)
  with 1 show ?thesis unfolding n(1) by blast
qed

definition demo_streaming :: pqstate where
  "demo_streaming = demo_conn\<lparr>streamingMode := True, streamingCursorRows := 2\<rparr>"

lemma demo_streaming_simps:
  "server_protocol_version demo_streaming = 0" "streamingMode demo_streaming" "endOfStreamingCursor demo_streaming = False"
  "batch_size demo_streaming = 2" "pending demo_streaming = []"
  by (simp_all add: demo_streaming_def demo_conn_simps batch_size_def pending_def)
     (simp add: demo_conn_def PQsendQueryStart_def makeEmptyPGconn_def)

lemma demo_streaming_awaiting: "awaiting demo_streaming"
  using demo_awaiting by (simp add: demo_streaming_def awaiting_def no_limits_def)
     (simp add: demo_conn_def PQsendQueryStart_def makeEmptyPGconn_def)

lemma demo_streaming_receiving: "receiving (demo_events demo_bytes) demo_streaming"
  using demo_receiving [OF length_demo_bytes]
  by (simp add: demo_streaming_def receiving_def in_wf_def in_room_def inBufSize_def)

lemma streaming_gives_batches_witness:
  "\<exists>p es1 s1 r bs es2 s2. pqGetResult (demo_events demo_bytes) demo_streaming = Some (Some p, es1, s1) \<and> results s1 p = Some r \<and>
     read_stream 2 es1 s1 p = Some (bs, es2, s2) \<and> rows_of r = [demo_row [104, 105], demo_row [33]] \<and> bs = [[demo_row []]]"
proof -
  have "\<exists>p es1 s1 r bs es2 s2. pqGetResult (demo_events demo_bytes) demo_streaming = Some (Some p, es1, s1) \<and> results s1 p = Some r \<and>
    attDescs r = [demo_text_column] \<and> read_stream 2 es1 s1 p = Some (bs, es2, s2) \<and>
    rows_of r # bs = in_batches (batch_size demo_streaming) (map demo_row [[104, 105], [33], []]) \<and>
    concat (rows_of r # bs) = map demo_row [[104, 105], [33], []] \<and>
    pending s2 @ payload es2 = command_answers (server_protocol_version demo_streaming) [] 73 \<and> endOfStreamingCursor s2"
    by (rule streaming_gives_batches [OF demo_streaming_awaiting demo_streaming_receiving])
       (use demo_answers_ok in \<open>simp_all add: demo_streaming_simps demo_bytes_def\<close>)
  then show ?thesis by (auto simp: demo_streaming_simps in_batches.simps)
qed


definition demo_open :: pqstate where
  "demo_open = demo_streaming\<lparr>result := Some 0, results := [0 \<mapsto> described_result [demo_text_column]], fresh := 1\<rparr>"

lemma demo_open_simps:
  "streaming_at demo_open 0" "results demo_open 0 = Some (described_result [demo_text_column])" "fresh demo_open = 1"
  "calledFromCscThread demo_open = False" "batch_size demo_open = 2" "pending demo_open = []" "in_wf demo_open" "sock_open demo_open"
  by (simp_all add: demo_open_def demo_streaming_def demo_conn_def PQsendQueryStart_def makeEmptyPGconn_def streaming_at_def
      no_limits_def loop_csc_def batch_size_def pending_def in_wf_def inBufSize_def)

lemma demo_open_receiving: "receiving es demo_open = receiving es demo_conn"
  by (simp add: demo_open_def demo_streaming_def receiving_def in_wf_def in_room_def inBufSize_def)

definition demo_error_fields :: "(byte \<times> byte list) list" where
  "demo_error_fields = [(83, [69, 82, 82, 79, 82]), (67, [53, 55, 48, 49, 52]), (77, [99, 97, 110, 99, 101, 108])]"

definition demo_failure :: "byte list" where
  "demo_failure = data_rows [demo_row [33]] @ error_msg demo_error_fields @ ready_msg 73"

lemma demo_failure_ok:
  "10 < length demo_failure" "length demo_failure \<le> 2 ^ 28" "rows_ok 1 [demo_row [33]]" "error_fields_ok demo_error_fields"
  "length (put_message_fields demo_error_fields) \<le> 29996"
  by (simp_all add: demo_failure_def demo_error_fields_def data_rows_def error_msg_def ready_msg_def put_message_fields_def
      put_message_field_def put_string_def put_row_def put_field_def demo_row_def rows_ok_def row_ok_def field_ok_def
      error_fields_ok_def message_field_ok_def)


text \<open>
  The same when the connection breaks while a streaming cursor waits for its next batch: the failure is reported,
  but the caller counts the rows of the freed result before it looks at the failure.
\<close>

lemma streaming_loss_frees_result:
  assumes "streaming_at s p" and "in_wf s" and "sock_open s" and "results s p = Some r" and "resultStatus r = PGRES_TUPLES_OK"
    and "p < fresh s" and "e = Reset \<or> e = Fails" and "pending s = []"
  shows "\<exists>es' s'. pqReadNextBatchOfStreamingRows (e # es) s (Some p) = Some (True, es', s') \<and> results s' p = None"
  by (rule batch_lost [OF assms])

lemma streaming_loss_frees_result_witness:
  "\<exists>es' s'. pqReadNextBatchOfStreamingRows [Reset] demo_open (Some 0) = Some (True, es', s') \<and> results s' 0 = None"
  by (rule streaming_loss_frees_result [OF demo_open_simps(1) _ _ demo_open_simps(2)]) (simp_all add: demo_open_simps)

end
