(* ===== verification/Spec2Isabelle.thy ===== *)
theory Spec2Isabelle
  imports Csc_Promises Csc_Spill Csc_Bounds Rs_Fetch Rs_Dates Rs_Unicode_Promises Rs_Escape_Promises Rs_Col_Promises Rs_Display
    Rs_Numeric_Print Rs_Ini_Promises Rs_Insert_Promises Rs_Cursor_Promises Pq_Promises
begin

text \<open>
  Verification of the Amazon Redshift ODBC driver.

  The program. The driver is a shared library between an ODBC application and a Redshift server.
  \<^verbatim>\<open>src/odbc/rsodbc\<close> has the ODBC calls: they check handles, translate the SQL text
  (\<^verbatim>\<open>rsescapeclause.cpp\<close>, the insert conversion in \<^verbatim>\<open>rsutil.c\<close>), hand it to the
  libpq client in \<^verbatim>\<open>src/pgclient\<close>, describe what comes back (\<^verbatim>\<open>rslibpq.c\<close>,
  \<^verbatim>\<open>rsresult.cpp\<close>), move over its rows and convert their values for the application
  (\<^verbatim>\<open>rsutil.c\<close>, \<^verbatim>\<open>rsunicode.c\<close>). A result that is too large for memory is spilled
  by the client-side cursor (\<^verbatim>\<open>ClientSideCursor*.c\<close>) to files and read back batch by batch, while
  a socket thread may still be receiving rows. Options come from the connection string and from INI files
  (\<^verbatim>\<open>rsini.cpp\<close>, \<^verbatim>\<open>rsconnect.cpp\<close>).

  How it is modelled. C functions are HOL functions of the same name that take the state they read and
  return what they change; \<open>None\<close> stands for a call that blocks, or for an access outside a buffer
  where the theory says so. Structures are records with the source's fields. C integers are \<^typ>\<open>int\<close>
  with the conversions \<open>i16\<close>, \<open>i32\<close>, \<open>i64\<close> of the theory \<open>Prelude\<close> where the code converts, words
  where the code works bitwise. Texts are lists of characters or bytes, files maps from names to bytes.
  The server, the file system and the threads are explicit: a record of the environment, and step relations
  over which the invariants are proved by rule induction.

  Components, theories and sources.

  1. Client-side cursor. \<open>Csc_Stream\<close>: the buffered streams of \<^verbatim>\<open>ClientSideCursorOutputStream.c\<close>
  and \<^verbatim>\<open>ClientSideCursorInputStream.c\<close> over \<^verbatim>\<open>stdio\<close>; the scalar codec is a locale
  interpreted for 2, 4 and 8 bytes. \<open>Csc_Options\<close>: \<^verbatim>\<open>ClientSideCursorOptions.c\<close>.
  \<open>Csc_Lock\<close>: the monitors \<^verbatim>\<open>ClientSideCursorLock.c\<close> and
  \<^verbatim>\<open>ClientSideCursorMultiResultLock.c\<close> over the semaphores of \<^verbatim>\<open>rslock.c\<close>, with the
  reader and the socket thread as a step relation. \<open>Csc_Hook\<close>: the registry
  \<^verbatim>\<open>ClientSideCursorShutdownHook.c\<close>, with a locale for what its users need of it.
  \<open>Csc_Result\<close>, \<open>Csc_Scroll\<close>: \<^verbatim>\<open>ClientSideCursorResult.c\<close>, spilling, reading forward
  and scrolling. \<open>Csc_Spec\<close>, \<open>Csc_Batches\<close>, \<open>Csc_Navigate\<close>: the abstract result is a list of
  rows, the files are its images, and the invariant \<open>window w c rs a b\<close> says that rows \<open>a..b\<close> are in
  memory; every batch operation keeps it. \<open>Csc_Promises\<close>, \<open>Csc_Spill\<close>, \<open>Csc_Bounds\<close>: the contract of
  the operations as the ODBC calls use them, the round trip of a spilled result, array bounds.

  2. Fetching. \<open>Rs_Cursor\<close>: \<^verbatim>\<open>SQLFetchScroll\<close> and \<^verbatim>\<open>SQLSetPos\<close> of
  \<^verbatim>\<open>rsresult.cpp\<close>. \<open>Rs_Cursor_Promises\<close>: over the contract of component 1 it refines one cursor
  over the list of rows, in memory or spilled; the locale \<open>forward_cursor\<close> states what an application
  that reads forward relies on and is interpreted on the model.

  3. Statement text. \<open>Rs_Escape\<close>, \<open>Rs_Escape_Promises\<close>: parameter markers and escape clauses,
  \<^verbatim>\<open>rsescapeclause.cpp\<close>, with the output buffer. \<open>Rs_Insert\<close>, \<open>Rs_Insert_Promises\<close>: array
  inserts (\<^verbatim>\<open>parseForMultiInsertCommand\<close> and what it calls in \<^verbatim>\<open>rsutil.c\<close>) and the
  schedule of their batches in \<^verbatim>\<open>rslibpq.c\<close>.

  4. Types and descriptors. \<open>Rs_Types\<close>: the tables from SQL types to sizes, names and C types
  (\<^verbatim>\<open>rsutil.c\<close>) and \<^verbatim>\<open>mapPgTypeToSqlType\<close>. \<open>Rs_Columns\<close>, \<open>Rs_ColAttr\<close>,
  \<open>Rs_Col_Promises\<close>: the descriptor records of a result (\<^verbatim>\<open>getResultDescription\<close>) and the calls
  that report them. \<open>Rs_Display\<close>: display sizes against the texts that the driver prints.

  5. Values. \<open>Rs_Copy\<close>, \<open>Rs_Fetch\<close>: copying into the application's buffers with truncation and the
  offset kept between pieces. \<open>Rs_Calendar\<close>, \<open>Rs_Time\<close>, \<open>Rs_Dates\<close>: dates, times and intervals.
  \<open>Rs_Numeric\<close>, \<open>Rs_Numeric_Promises\<close>, \<open>Rs_Numeric_Print\<close>: numerals and 128-bit scaled integers.
  \<open>Rs_Unicode\<close>, \<open>Rs_Unicode_Promises\<close>: \<^verbatim>\<open>rsunicode.c\<close>.

  6. Options. \<open>Rs_Ini\<close>, \<open>Rs_Ini_Files\<close>, \<open>Rs_Ini_Promises\<close>: the INI reader and writer, as a refinement
  of a map from sections and keys to values (locale \<open>keyed_file\<close>), and the readers of options.

  7. Protocol. \<open>Pq_Wire\<close>, \<open>Pq_Read\<close>: the input buffer and its socket, \<^verbatim>\<open>fe-misc.c\<close>;
  the locales \<open>wire_getter\<close> and \<open>wire_codec\<close> say what a reader of the buffer promises and are interpreted on the
  getters of the code and on the reader of a column's description. \<open>Pq_Result\<close>, \<open>Pq_Notice\<close>: the store of
  results (\<^verbatim>\<open>fe-exec.c\<close>) and the messages that build them or carry texts
  (\<^verbatim>\<open>fe-protocol3.c\<close>). \<open>Pq_State\<close>: \<^verbatim>\<open>MessageLoopState.c\<close>,
  \<^verbatim>\<open>ClientSideCursorExecutor.c\<close>, \<^verbatim>\<open>ClientSideCursorThread.c\<close>. \<open>Pq_Loop\<close>:
  \<^verbatim>\<open>_pqParseInput3\<close> and what surrounds it, with client-side and streaming cursors.
  \<open>Pq_Exec\<close>: \<^verbatim>\<open>pqGetResult\<close>, \<^verbatim>\<open>PQexecStart\<close>, \<^verbatim>\<open>PQexecFinish\<close>.
  \<open>Pq_Access\<close>: the accessors of a result, which component 4 calls. The lemmas: \<open>Pq_Pump\<close>, the loop comes to the
  same state however the stream is cut into pieces; \<open>Pq_Rows\<close>, rows and descriptions are read as they were sent;
  \<open>Pq_Answer\<close>, \<open>Pq_Finish\<close>, \<open>Pq_Get\<close>, \<open>Pq_Several\<close>: an answer from its description to the ready message, and
  several of them; \<open>Pq_Stream\<close>, \<open>Pq_Error\<close>: the batches of a streaming cursor, errors and a lost connection.
  \<open>Pq_Promises\<close> has the properties.

  Bounds and fuel. Loops are structural or have a measure; waits that may block, the message loop and its
  callers are \<^verbatim>\<open>partial_function (option)\<close>, and the theorems about them state that they return.
  The printing of scaled integers runs on a buffer of 40 digits and is proved to stay inside it. A spilled result
  has at most \<open>2 ^ 28\<close> rows (beyond, the offset lookup of the code wraps) and less than \<open>2 ^ 63\<close> bytes; fetch
  offsets are below \<open>2 ^ 30\<close>. The protocol theorems are for at most \<open>2 ^ 28\<close> bytes of an answer and \<open>2 ^ 28\<close> rows,
  below which the doubling of buffers cannot overflow; a message of a type that the code does not allow to be long
  has at most 30000 bytes. The application's fetch loops, \<open>read_stream\<close> among them, take the number of calls as an
  argument, and the theorems say how many are enough.

  Not modelled, and why. The branch of \<^verbatim>\<open>convertScaledIntegerToNumericString\<close> for precisions
  below 19 computes in floating point, which HOL cannot evaluate. Failing allocations are modelled in the
  client-side cursor only. The wide-character entry points repeat the narrow ones after a conversion.
  The handle bookkeeping of the ODBC calls, the conversion of a column in \<^verbatim>\<open>RS_SQLGetData\<close> and the
  binding of parameters are parameters where they are called. In libpq, the set-up of a connection and the sending
  half are sequences of system calls; compression and TLS decorate the socket, which is a list of receive events
  here; the memory blocks and event procedures of a result and large objects are left out; the encodings
  and the excerpt of the query in an error's text are parameters. The loop models a client-side cursor too, but the
  theorems about whole answers are for connections without one: component 1 states its own contract.
  Authentication calls system libraries; the catalogue functions
  assemble SQL text for the server; IAM plug-ins are glue around the AWS SDK; tracing and the set-up dialogs
  are output only; \<^verbatim>\<open>zstd-in.c\<close> and the other bundled sources are third-party code.
\<close>

end
